(* ===== verification/JS_Prelude.thy ===== *)
theory JS_Prelude
  imports Main "HOL-Library.Sublist" "HOL-Library.Multiset"
begin

text \<open>
  The parts of the JavaScript standard library the shell's core modules use on strings and
  arrays, with the lemmas every component theory shares.

  A JavaScript string is modelled as an Isabelle \<^typ>\<open>string\<close>: one \<^typ>\<open>char\<close> per UTF-16
  code unit, for code units below 256 (the ISO 8859-1 range). Inside that range the
  definitions below are the ECMAScript ones: white space is what \<open>trim\<close> and \<open>\s\<close> accept,
  and lower-casing maps the upper-case letters of the range, accented ones included. A
  JavaScript \<open>Set\<close> used to remove duplicates keeps insertion order, so it is \<open>dedup\<close>.
\<close>

named_theorems js_simps \<open>evaluation rules of the JavaScript string and array library\<close>
named_theorems js_norm \<open>facts that a normalised value is already normal\<close>

type_synonym jstring = string

section \<open>Characters\<close>

definition is_ws :: "char \<Rightarrow> bool" where
  "is_ws c \<longleftrightarrow> c = CHR '' '' \<or> c = CHR 0x09 \<or> c = CHR 0x0A \<or> c = CHR 0x0B \<or> c = CHR 0x0C
     \<or> c = CHR 0x0D \<or> c = CHR 0xA0"

definition char_between :: "char \<Rightarrow> char \<Rightarrow> char \<Rightarrow> bool" where
  "char_between lo hi c \<longleftrightarrow> (of_char lo :: nat) \<le> of_char c \<and> (of_char c :: nat) \<le> of_char hi"

definition is_digit :: "char \<Rightarrow> bool" where
  "is_digit c \<longleftrightarrow> char_between CHR ''0'' CHR ''9'' c"

definition is_lower :: "char \<Rightarrow> bool" where
  "is_lower c \<longleftrightarrow> char_between CHR ''a'' CHR ''z'' c"

definition is_upper :: "char \<Rightarrow> bool" where
  "is_upper c \<longleftrightarrow> char_between CHR ''A'' CHR ''Z'' c"

definition is_alpha :: "char \<Rightarrow> bool" where
  "is_alpha c \<longleftrightarrow> is_lower c \<or> is_upper c"

definition is_alnum :: "char \<Rightarrow> bool" where
  "is_alnum c \<longleftrightarrow> is_alpha c \<or> is_digit c"

definition is_hex_lower :: "char \<Rightarrow> bool" where
  "is_hex_lower c \<longleftrightarrow> is_digit c \<or> char_between CHR ''a'' CHR ''f'' c"

definition has_upper_pair :: "nat \<Rightarrow> bool" where
  "has_upper_pair n \<longleftrightarrow> (65 \<le> n \<and> n \<le> 90) \<or> (192 \<le> n \<and> n \<le> 222 \<and> n \<noteq> 215)"

definition lower_char :: "char \<Rightarrow> char" where
  "lower_char c = (let n = of_char c in if has_upper_pair n then char_of (n + 32) else c)"

definition toLowerCase :: "string \<Rightarrow> string" where
  "toLowerCase s = map lower_char s"

definition digit_char :: "nat \<Rightarrow> char" where
  "digit_char n = char_of (48 + n)"

definition digit_value :: "char \<Rightarrow> nat" where
  "digit_value c = of_char c - 48"

abbreviation DQ :: char where "DQ \<equiv> CHR 0x22"
abbreviation SQ :: char where "SQ \<equiv> CHR 0x27"
abbreviation BSL :: char where "BSL \<equiv> CHR 0x5C"
abbreviation BTICK :: char where "BTICK \<equiv> CHR 0x60"
abbreviation NL :: char where "NL \<equiv> CHR 0x0A"

section \<open>Strings\<close>

definition trimStart :: "string \<Rightarrow> string" where
  "trimStart s = dropWhile is_ws s"

definition trimEnd :: "string \<Rightarrow> string" where
  "trimEnd s = rev (dropWhile is_ws (rev s))"

definition trim :: "string \<Rightarrow> string" where
  "trim s = trimEnd (trimStart s)"

fun startsWith :: "string \<Rightarrow> string \<Rightarrow> bool" where
  "startsWith s [] = True"
| "startsWith [] (p # ps) = False"
| "startsWith (c # s) (p # ps) = (c = p \<and> startsWith s ps)"

definition endsWith :: "string \<Rightarrow> string \<Rightarrow> bool" where
  "endsWith s p = startsWith (rev s) (rev p)"

fun str_includes :: "string \<Rightarrow> string \<Rightarrow> bool" where
  "str_includes [] n = (n = [])"
| "str_includes (c # s) n = (startsWith (c # s) n \<or> str_includes s n)"

text \<open>\<open>indexOf n from\<close>, with -1 as \<^const>\<open>None\<close>; the scan keeps the position it is at.\<close>

fun index_scan :: "nat \<Rightarrow> string \<Rightarrow> string \<Rightarrow> nat option" where
  "index_scan i [] n = (if n = [] then Some i else None)"
| "index_scan i (c # s) n = (if startsWith (c # s) n then Some i else index_scan (Suc i) s n)"

definition indexOf_from :: "string \<Rightarrow> string \<Rightarrow> nat \<Rightarrow> nat option" where
  "indexOf_from s n i = (let k = min i (length s) in index_scan k (drop k s) n)"

definition indexOf :: "string \<Rightarrow> string \<Rightarrow> nat option" where
  "indexOf s n = indexOf_from s n 0"

text \<open>\<open>slice a b\<close> for non-negative bounds.\<close>

definition slice :: "nat \<Rightarrow> nat \<Rightarrow> 'a list \<Rightarrow> 'a list" where
  "slice a b xs = take (b - a) (drop a xs)"

text \<open>\<open>split\<close> with a one-character separator and \<open>join\<close>.\<close>

fun split_on :: "char \<Rightarrow> string \<Rightarrow> string list" where
  "split_on d [] = [[]]"
| "split_on d (c # s) =
     (if c = d then [] # split_on d s
      else (case split_on d s of [] \<Rightarrow> [[c]] | p # ps \<Rightarrow> (c # p) # ps))"

fun join :: "string \<Rightarrow> string list \<Rightarrow> string" where
  "join sep [] = []"
| "join sep [p] = p"
| "join sep (p # q # ps) = p @ sep @ join sep (q # ps)"

lemma length_dropWhile_skip:
  assumes "dropWhile (\<lambda>c. \<not> p c) s = c # t"
  shows "length (dropWhile p (c # t)) < length s"
proof -
  have "p c"
    using assms by (simp add: dropWhile_eq_Cons_conv)
  then have "length (dropWhile p (c # t)) \<le> length t"
    by (simp add: length_dropWhile_le)
  moreover have "length (c # t) \<le> length s"
    using assms by (metis length_dropWhile_le)
  ultimately show ?thesis by simp
qed

text \<open>The maximal runs of characters that satisfy a predicate, as \<open>match(/\S+/g)\<close> finds them.\<close>

function words_by :: "(char \<Rightarrow> bool) \<Rightarrow> string \<Rightarrow> string list" where
  "words_by p s = (case dropWhile (\<lambda>c. \<not> p c) s of
       [] \<Rightarrow> []
     | c # t \<Rightarrow> takeWhile p (c # t) # words_by p (dropWhile p (c # t)))"
  by pat_completeness auto
termination
proof (relation "measure (\<lambda>(p, s). length s)")
  fix p :: "char \<Rightarrow> bool" and s c t
  assume "dropWhile (\<lambda>c. \<not> p c) s = c # t"
  then show "((p, dropWhile p (c # t)), p, s) \<in> measure (\<lambda>(p, s). length s)"
    using length_dropWhile_skip by fastforce
qed simp

declare words_by.simps [simp del]

definition ws_words :: "string \<Rightarrow> string list" where
  "ws_words s = words_by (\<lambda>c. \<not> is_ws c) s"

definition padStart :: "nat \<Rightarrow> char \<Rightarrow> string \<Rightarrow> string" where
  "padStart n c s = replicate (n - length s) c @ s"

section \<open>Decimal numbers\<close>

fun nat_str :: "nat \<Rightarrow> string" where
  "nat_str n = (if n < 10 then [digit_char n] else nat_str (n div 10) @ [digit_char (n mod 10)])"

declare nat_str.simps [simp del]

definition int_str :: "int \<Rightarrow> string" where
  "int_str i = (if i < 0 then CHR ''-'' # nat_str (nat (- i)) else nat_str (nat i))"

fun digits_value :: "nat \<Rightarrow> string \<Rightarrow> nat" where
  "digits_value acc [] = acc"
| "digits_value acc (c # s) = digits_value (10 * acc + digit_value c) s"

section \<open>Arrays\<close>

text \<open>\<open>Array.from(new Set(xs))\<close>: the first occurrence of every value, in order.\<close>

fun dedup_seen :: "'a list \<Rightarrow> 'a list \<Rightarrow> 'a list" where
  "dedup_seen seen [] = []"
| "dedup_seen seen (x # xs) =
     (if x \<in> set seen then dedup_seen seen xs else x # dedup_seen (x # seen) xs)"

definition dedup :: "'a list \<Rightarrow> 'a list" where
  "dedup xs = dedup_seen [] xs"

text \<open>The filter with a \<open>seen\<close> set on a key of each element.\<close>

fun dedup_key :: "('a \<Rightarrow> 'k) \<Rightarrow> 'k list \<Rightarrow> 'a list \<Rightarrow> 'a list" where
  "dedup_key f seen [] = []"
| "dedup_key f seen (x # xs) =
     (if f x \<in> set seen then dedup_key f seen xs else x # dedup_key f (f x # seen) xs)"

abbreviation nonempty :: "'a list \<Rightarrow> bool" where
  "nonempty xs \<equiv> xs \<noteq> []"

section \<open>Lemmas on strings\<close>

lemma is_ws_eval [js_simps]:
  "is_ws CHR '' ''" "is_ws CHR 0x0A" "\<not> is_ws CHR ''/''" "\<not> is_ws CHR ''.''"
  by (simp_all add: is_ws_def)

lemma startsWith_prefix: "startsWith s p \<longleftrightarrow> prefix p s"
  by (induction s p rule: startsWith.induct) auto

lemma startsWith_append [simp]: "startsWith (p @ s) p"
  by (simp add: startsWith_prefix)

lemma startsWith_split: "startsWith s p \<Longrightarrow> s = p @ drop (length p) s"
  by (auto simp: startsWith_prefix prefix_def)

lemma startsWith_set: "startsWith s p \<Longrightarrow> x \<in> set p \<Longrightarrow> x \<in> set s"
  by (auto simp: startsWith_prefix dest: set_mono_prefix)

lemma endsWith_suffix: "endsWith s p \<longleftrightarrow> suffix p s"
  by (simp add: endsWith_def startsWith_prefix suffix_to_prefix)

lemma str_includes_sublist: "str_includes s n \<longleftrightarrow> sublist n s"
  by (induction s) (auto simp: startsWith_prefix sublist_Cons_right)

lemma str_includes_append: "str_includes (a @ n @ b) n"
  by (auto simp: str_includes_sublist sublist_def)

lemma str_includes_single: "str_includes s [c] \<longleftrightarrow> c \<in> set s"
  by (induction s) auto

lemma index_scan_Some:
  "index_scan i s n = Some k \<Longrightarrow> i \<le> k \<and> k - i \<le> length s \<and> startsWith (drop (k - i) s) n"
proof (induction i s n rule: index_scan.induct)
  case (1 i n)
  then show ?case by (auto split: if_splits)
next
  case (2 i c s n)
  show ?case
  proof (cases "startsWith (c # s) n")
    case True
    with 2 show ?thesis by auto
  next
    case False
    with 2 have IH: "Suc i \<le> k" "k - Suc i \<le> length s" "startsWith (drop (k - Suc i) s) n"
      by auto
    then have "k - i = Suc (k - Suc i)" by simp
    with IH show ?thesis by simp
  qed
qed

lemma index_scan_None: "index_scan i s n = None \<longleftrightarrow> \<not> str_includes s n"
  by (induction i s n rule: index_scan.induct) auto

lemma indexOf_from_Some:
  assumes "indexOf_from s n i = Some k"
  shows "min i (length s) \<le> k" "k + length n \<le> length s" "startsWith (drop k s) n"
proof -
  let ?j = "min i (length s)"
  from assms have h: "?j \<le> k \<and> k - ?j \<le> length (drop ?j s) \<and> startsWith (drop (k - ?j) (drop ?j s)) n"
    by (auto simp: indexOf_from_def Let_def dest: index_scan_Some)
  then show le: "?j \<le> k" by simp
  with h show st: "startsWith (drop k s) n"
    by (simp add: add.commute)
  from h le have "k \<le> length s" by auto
  moreover from st have "length n \<le> length (drop k s)"
    by (simp add: startsWith_prefix prefix_length_le del: length_drop)
  ultimately show "k + length n \<le> length s" by simp
qed

lemma indexOf_None: "indexOf s n = None \<longleftrightarrow> \<not> str_includes s n"
  by (simp add: indexOf_def indexOf_from_def Let_def index_scan_None)

lemma indexOf_Some:
  assumes "indexOf s n = Some k"
  shows "k + length n \<le> length s" "startsWith (drop k s) n"
  using indexOf_from_Some [of s n 0 k] assms by (simp_all add: indexOf_def)

subsection \<open>Trimming\<close>

lemma trimStart_trimmed: "s \<noteq> [] \<Longrightarrow> \<not> is_ws (hd s) \<Longrightarrow> trimStart s = s"
  by (cases s) (auto simp: trimStart_def)

lemma hd_trimStart: "trimStart s \<noteq> [] \<Longrightarrow> \<not> is_ws (hd (trimStart s))"
  by (simp add: trimStart_def hd_dropWhile)

lemma last_trimEnd: "trimEnd s \<noteq> [] \<Longrightarrow> \<not> is_ws (last (trimEnd s))"
  by (simp add: trimEnd_def last_rev hd_dropWhile)

lemma prefix_trimEnd: "prefix (trimEnd s) s"
  unfolding trimEnd_def suffix_to_prefix [symmetric]
  by (metis rev_rev_ident suffix_dropWhile suffix_to_prefix)

lemma suffix_trimStart: "suffix (trimStart s) s"
  by (simp add: trimStart_def suffix_dropWhile)

lemma sublist_trim: "sublist (trim s) s"
  unfolding trim_def
  using prefix_imp_sublist [OF prefix_trimEnd [of "trimStart s"]]
    suffix_imp_sublist [OF suffix_trimStart [of s]]
  by (rule sublist_order.order_trans)

lemma set_trim: "set (trim s) \<subseteq> set s"
  using sublist_trim set_mono_sublist by blast

lemma length_trim_le: "length (trim s) \<le> length s"
  by (rule sublist_length_le [OF sublist_trim])

definition trimmed :: "string \<Rightarrow> bool" where
  "trimmed s \<longleftrightarrow> s = [] \<or> (\<not> is_ws (hd s) \<and> \<not> is_ws (last s))"

lemma trimEnd_id: "s = [] \<or> \<not> is_ws (last s) \<Longrightarrow> trimEnd s = s"
  by (cases s rule: rev_cases) (auto simp: trimEnd_def)

lemma trim_id [js_norm]: "trimmed s \<Longrightarrow> trim s = s"
  unfolding trimmed_def trim_def
  by (cases s) (auto simp: trimStart_def trimEnd_id simp del: last.simps)

lemma trimmed_trim [simp]: "trimmed (trim s)"
proof (cases "trim s = []")
  case True
  then show ?thesis by (simp add: trimmed_def)
next
  case False
  have "\<not> is_ws (last (trim s))"
    using False unfolding trim_def by (rule last_trimEnd)
  moreover have "hd (trim s) = hd (trimStart s)" "trimStart s \<noteq> []"
    using False prefix_trimEnd [of "trimStart s"] unfolding trim_def
    by (auto simp: prefix_def hd_append)
      (metis hd_append2 prefix_def prefix_trimEnd)
  ultimately show ?thesis
    using hd_trimStart by (simp add: trimmed_def)
qed

lemma trim_trim [simp]: "trim (trim s) = trim s"
  by (simp add: trim_id)

lemma trim_Nil [simp]: "trim [] = []"
  by (simp add: trim_def trimStart_def trimEnd_def)

lemma trim_eq_Nil_iff: "trim s = [] \<longleftrightarrow> (\<forall>c \<in> set s. is_ws c)"
proof
  assume "trim s = []"
  then have "\<forall>c \<in> set (trimStart s). is_ws c"
    by (simp add: trim_def trimEnd_def)
  then have "trimStart s = []"
    using hd_trimStart hd_in_set by blast
  then show "\<forall>c \<in> set s. is_ws c"
    by (simp add: trimStart_def)
next
  assume "\<forall>c \<in> set s. is_ws c"
  then have "trimStart s = []"
    by (simp add: trimStart_def)
  then show "trim s = []"
    by (simp add: trim_def trimEnd_def)
qed

lemma trimmed_no_ws: "\<forall>c \<in> set s. \<not> is_ws c \<Longrightarrow> trimmed s"
  by (auto simp: trimmed_def)

lemma trim_no_ws [js_norm]: "\<forall>c \<in> set s. \<not> is_ws c \<Longrightarrow> trim s = s"
  by (simp add: trimmed_no_ws trim_id)

subsection \<open>Splitting and joining\<close>

lemma split_on_not_Nil [simp]: "split_on d s \<noteq> []"
  by (induction s) (auto split: list.splits)

lemma split_on_pieces: "p \<in> set (split_on d s) \<Longrightarrow> d \<notin> set p"
  by (induction s arbitrary: p) (fastforce split: list.splits if_splits)+

lemma set_split_on: "p \<in> set (split_on d s) \<Longrightarrow> set p \<subseteq> set s"
  by (induction s arbitrary: p) (fastforce split: list.splits if_splits)+

lemma split_on_no_sep: "d \<notin> set s \<Longrightarrow> split_on d s = [s]"
  by (induction s) auto

lemma join_split_on: "join [d] (split_on d s) = s"
proof (induction s)
  case Nil
  then show ?case by simp
next
  case (Cons c s)
  obtain p ps where s: "split_on d s = p # ps"
    by (cases "split_on d s") auto
  with Cons show ?case by (cases ps) auto
qed

lemma split_on_append_sep: "d \<notin> set p \<Longrightarrow> split_on d (p @ d # s) = p # split_on d s"
  by (induction p) auto

lemma split_on_join:
  "ps \<noteq> [] \<Longrightarrow> \<forall>p \<in> set ps. d \<notin> set p \<Longrightarrow> split_on d (join [d] ps) = ps"
  by (induction "[d]" ps rule: join.induct) (auto simp: split_on_no_sep split_on_append_sep)

lemma join_eq_Nil: "\<forall>p \<in> set ps. p \<noteq> [] \<Longrightarrow> join sep ps = [] \<longleftrightarrow> ps = []"
  by (induction sep ps rule: join.induct) auto

lemma split_on_join_nonempty:
  "\<forall>p \<in> set ps. d \<notin> set p \<and> p \<noteq> [] \<Longrightarrow> filter nonempty (split_on d (join [d] ps)) = ps"
  by (cases "ps = []") (simp_all add: split_on_join)

lemma set_join: "set (join sep ps) \<subseteq> set sep \<union> (\<Union>p \<in> set ps. set p)"
  by (induction sep ps rule: join.induct) auto

subsection \<open>Words\<close>

lemma words_by_pieces: "w \<in> set (words_by p s) \<Longrightarrow> w \<noteq> [] \<and> (\<forall>c \<in> set w. p c)"
proof (induction p s rule: words_by.induct)
  case (1 p s)
  show ?case
  proof (cases "dropWhile (\<lambda>c. \<not> p c) s")
    case Nil
    with 1 show ?thesis by (simp add: words_by.simps [of p s])
  next
    case (Cons c t)
    then have pc: "p c"
      by (simp add: dropWhile_eq_Cons_conv)
    from Cons have eq: "words_by p s = takeWhile p (c # t) # words_by p (dropWhile p (c # t))"
      by (simp add: words_by.simps [of p s])
    show ?thesis
    proof (cases "w = takeWhile p (c # t)")
      case True
      with pc show ?thesis by (auto dest: set_takeWhileD)
    next
      case False
      with "1.prems" eq have "w \<in> set (words_by p (dropWhile p (c # t)))" by simp
      with "1.IH" [OF Cons] show ?thesis by blast
    qed
  qed
qed

lemma words_by_Nil [simp]: "words_by p [] = []"
  by (simp add: words_by.simps)

lemma words_by_single: "s \<noteq> [] \<Longrightarrow> \<forall>c \<in> set s. p c \<Longrightarrow> words_by p s = [s]"
proof -
  assume ne: "s \<noteq> []" and all: "\<forall>c \<in> set s. p c"
  then obtain c t where s: "s = c # t" by (cases s) auto
  have "takeWhile p s = s" "dropWhile p s = []"
    using all by (simp_all add: takeWhile_eq_all_conv)
  moreover have "dropWhile (\<lambda>c. \<not> p c) s = s"
    using all s by simp
  ultimately show ?thesis
    using s by (subst words_by.simps) simp
qed

lemma ws_words_pieces: "w \<in> set (ws_words s) \<Longrightarrow> w \<noteq> [] \<and> (\<forall>c \<in> set w. \<not> is_ws c)"
  unfolding ws_words_def by (drule words_by_pieces) simp

subsection \<open>Decimal numbers\<close>

lemma digit_value_digit_char [simp]: "n < 10 \<Longrightarrow> digit_value (digit_char n) = n"
  by (simp add: digit_value_def digit_char_def)

lemma is_digit_digit_char [simp]: "n < 10 \<Longrightarrow> is_digit (digit_char n)"
  by (simp add: is_digit_def char_between_def digit_char_def)

lemma digits_value_append: "digits_value a (s @ t) = digits_value (digits_value a s) t"
  by (induction a s rule: digits_value.induct) auto

lemma digits_value_nat_str [simp]: "digits_value 0 (nat_str n) = n"
proof (induction n rule: nat_str.induct)
  case (1 n)
  then show ?case
    by (cases "n < 10") (simp_all add: nat_str.simps [of n] digits_value_append)
qed

lemma nat_str_inj: "nat_str m = nat_str n \<longleftrightarrow> m = n"
  by (metis digits_value_nat_str)

lemma nat_str_digits: "\<forall>c \<in> set (nat_str n). is_digit c"
proof (induction n rule: nat_str.induct)
  case (1 n)
  then show ?case
    by (cases "n < 10") (simp_all add: nat_str.simps [of n])
qed

lemma nat_str_nonempty [simp]: "nat_str n \<noteq> []"
  by (subst nat_str.simps) simp

lemma digit_char_eval [js_simps]:
  "digit_char 0 = CHR ''0''" "digit_char 1 = CHR ''1''" "digit_char 2 = CHR ''2''"
  "digit_char 3 = CHR ''3''" "digit_char 4 = CHR ''4''" "digit_char 5 = CHR ''5''"
  "digit_char 6 = CHR ''6''" "digit_char 7 = CHR ''7''" "digit_char 8 = CHR ''8''"
  "digit_char 9 = CHR ''9''"
  by code_simp+

section \<open>Lemmas on arrays\<close>

lemma set_dedup_seen: "set (dedup_seen seen xs) = set xs - set seen"
  by (induction seen xs rule: dedup_seen.induct) auto

lemma set_dedup [simp]: "set (dedup xs) = set xs"
  by (simp add: dedup_def set_dedup_seen)

lemma distinct_dedup_seen: "distinct (dedup_seen seen xs)"
  by (induction seen xs rule: dedup_seen.induct) (auto simp: set_dedup_seen)

lemma distinct_dedup [simp]: "distinct (dedup xs)"
  by (simp add: dedup_def distinct_dedup_seen)

lemma subseq_dedup_seen: "subseq (dedup_seen seen xs) xs"
  by (induction seen xs rule: dedup_seen.induct) auto

lemma subseq_dedup: "subseq (dedup xs) xs"
  by (simp add: dedup_def subseq_dedup_seen)

lemma dedup_seen_distinct:
  "distinct xs \<Longrightarrow> set xs \<inter> set seen = {} \<Longrightarrow> dedup_seen seen xs = xs"
  by (induction seen xs rule: dedup_seen.induct) auto

lemma dedup_id [js_norm]: "distinct xs \<Longrightarrow> dedup xs = xs"
  by (simp add: dedup_def dedup_seen_distinct)

lemma length_dedup_le: "length (dedup xs) \<le> length xs"
  using subseq_dedup list_emb_length by blast

lemma dedup_eq_Nil [simp]: "dedup xs = [] \<longleftrightarrow> xs = []"
  by (metis set_dedup set_empty)

lemma set_dedup_key: "set (map f (dedup_key f seen xs)) = f ` set xs - set seen"
  by (induction f seen xs rule: dedup_key.induct) auto

lemma distinct_dedup_key: "distinct (map f (dedup_key f seen xs))"
proof (induction f seen xs rule: dedup_key.induct)
  case (2 f seen x xs)
  then show ?case
    using set_dedup_key [of f "f x # seen" xs] by auto
qed simp

lemma subseq_dedup_key: "subseq (dedup_key f seen xs) xs"
  by (induction f seen xs rule: dedup_key.induct) auto

lemma dedup_key_ident: "dedup_key (\<lambda>x. x) seen xs = dedup_seen seen xs"
  by (induction seen xs rule: dedup_seen.induct) auto

lemma slice_length: "length (slice a b xs) = min (b - a) (length xs - a)"
  by (simp add: slice_def min_def)

lemma slice_decompose: "a \<le> b \<Longrightarrow> take a xs @ slice a b xs @ drop b xs = xs"
proof -
  assume "a \<le> b"
  then have "slice a b xs @ drop b xs = drop a xs"
    unfolding slice_def
    by (metis append_take_drop_id drop_drop le_add_diff_inverse2)
  then show ?thesis by simp
qed

lemma last_in_filter: "filter P xs \<noteq> [] \<Longrightarrow> P (last (filter P xs))"
  using last_in_set [of "filter P xs"] by simp

section \<open>Lemmas on lower-casing\<close>

lemma of_char_lower_char:
  "(of_char (lower_char c) :: nat) =
     (if has_upper_pair (of_char c) then of_char c + 32 else of_char c)"
proof -
  have "(of_char c :: nat) + 32 < 256" if "has_upper_pair (of_char c)"
    using that by (auto simp: has_upper_pair_def)
  then show ?thesis
    by (auto simp: lower_char_def Let_def)
qed

lemma lower_char_idem [simp]: "lower_char (lower_char c) = lower_char c"
proof -
  have "\<not> has_upper_pair (of_char (lower_char c))"
    by (auto simp: of_char_lower_char has_upper_pair_def)
  then show ?thesis
    by (simp add: lower_char_def [of "lower_char c"] Let_def)
qed

lemma toLowerCase_idem [simp]: "toLowerCase (toLowerCase s) = toLowerCase s"
  by (simp add: toLowerCase_def)

lemma length_toLowerCase [simp]: "length (toLowerCase s) = length s"
  by (simp add: toLowerCase_def)

lemma toLowerCase_append: "toLowerCase (s @ t) = toLowerCase s @ toLowerCase t"
  by (simp add: toLowerCase_def)

lemma toLowerCase_Nil_iff [simp]: "toLowerCase s = [] \<longleftrightarrow> s = []"
  by (simp add: toLowerCase_def)

lemma lower_char_id: "\<not> has_upper_pair (of_char c) \<Longrightarrow> lower_char c = c"
  by (simp add: lower_char_def Let_def)

lemma toLowerCase_id [js_norm]: "\<forall>c \<in> set s. \<not> has_upper_pair (of_char c) \<Longrightarrow> toLowerCase s = s"
  by (simp add: toLowerCase_def lower_char_id map_idI)

lemma lower_char_no_upper: "\<not> has_upper_pair (of_char (lower_char c))"
  by (auto simp: of_char_lower_char has_upper_pair_def)

lemma char_eq_code: "c = d \<longleftrightarrow> (of_char c :: nat) = of_char d"
  by simp

lemma is_ws_code: "is_ws d \<longleftrightarrow> (of_char d :: nat) \<in> {32, 9, 10, 11, 12, 13, 160}"
  unfolding is_ws_def char_eq_code by simp

lemma is_ws_lower_char [simp]: "is_ws (lower_char c) = is_ws c"
  unfolding is_ws_code by (auto simp: of_char_lower_char has_upper_pair_def)

section \<open>Normalising functions\<close>

text \<open>The contract many helpers of the client share: whatever comes in, a valid value goes out, and
  a valid value is left alone.\<close>

locale normaliser =
  fixes norm :: "'a \<Rightarrow> 'a" and valid :: "'a \<Rightarrow> bool"
  assumes norm_valid: "valid (norm x)"
    and norm_fixed: "valid x \<Longrightarrow> norm x = x"
begin

lemma norm_idem: "norm (norm x) = norm x"
  by (rule norm_fixed [OF norm_valid])

lemma valid_iff_fixed: "valid x \<longleftrightarrow> norm x = x"
  by (metis norm_fixed norm_valid)

lemma range_norm: "range norm = {x. valid x}"
  by (auto simp: image_iff norm_valid) (metis norm_fixed)

end

section \<open>State machines\<close>

text \<open>
  A component whose steps are actions, some of them not enabled in a state; a sequence of actions runs
  if each is enabled when its turn comes. An invariant that every enabled action keeps holds after
  every run.
\<close>

fun run_all :: "('a \<Rightarrow> 's \<Rightarrow> bool) \<Rightarrow> ('a \<Rightarrow> 's \<Rightarrow> 's) \<Rightarrow> 'a list \<Rightarrow> 's \<Rightarrow> 's option" where
  "run_all enabled perform [] s = Some s"
| "run_all enabled perform (a # as) s = (if enabled a s then run_all enabled perform as (perform a s) else None)"

lemma run_all_append:
  "run_all enabled perform (as @ bs) s = Option.bind (run_all enabled perform as s) (run_all enabled perform bs)"
  by (induction as arbitrary: s) auto

locale machine =
  fixes enabled :: "'a \<Rightarrow> 's \<Rightarrow> bool" and perform :: "'a \<Rightarrow> 's \<Rightarrow> 's" and holds :: "'s \<Rightarrow> bool"
  assumes keeps: "holds s \<Longrightarrow> enabled a s \<Longrightarrow> holds (perform a s)"
begin

lemma run_holds: "holds s \<Longrightarrow> run_all enabled perform as s = Some t \<Longrightarrow> holds t"
  by (induction as arbitrary: s) (auto split: if_splits intro: keeps)

lemma step_holds: "holds s \<Longrightarrow> run_all enabled perform as s = Some t \<Longrightarrow> enabled a t \<Longrightarrow> holds (perform a t)"
  by (blast intro: keeps run_holds)

end

end
