(* ===== verification/JS_Value.thy ===== *)
theory JS_Value
  imports JS_Prelude Complex_Main
begin

text \<open>
  JavaScript values and the coercions the shell's modules apply to them: \<open>Boolean(v)\<close>,
  \<open>String(v)\<close>, \<open>Number(v)\<close>, \<open>Number.parseInt(s, 10)\<close>, \<open>toFixed\<close>, \<open>Math.round\<close>, \<open>v || w\<close>,
  \<open>v ?? w\<close> and property access.

  The values are the data values a JSON document or a browser store can give (plus
  \<open>undefined\<close>): no functions, no symbols, no getters. A finite number is the exact rational
  it denotes, so rounding of floating-point arithmetic is not modelled; \<open>NaN\<close> and the two
  infinities are values of their own. \<open>String\<close> of a fraction is its decimal expansion, which
  is what a browser prints for a number written with at most fifteen significant digits.
  Property names of \<open>Object.prototype\<close> are outside the model: a missing key reads as
  \<open>undefined\<close>.
\<close>

section \<open>Numbers\<close>

datatype jnum = NaN | Infinity bool | Fin rat

fun is_finite_num :: "jnum \<Rightarrow> bool" where
  "is_finite_num (Fin r) = True"
| "is_finite_num n = False"

fun is_integer_num :: "jnum \<Rightarrow> bool" where
  "is_integer_num (Fin r) = (of_int \<lfloor>r\<rfloor> = r)"
| "is_integer_num n = False"

text \<open>The fraction digits of a number below one, at most \<open>k\<close> of them.\<close>

fun frac_digits :: "nat \<Rightarrow> rat \<Rightarrow> string" where
  "frac_digits 0 r = []"
| "frac_digits (Suc k) r =
     (if r = 0 then [] else digit_char (nat \<lfloor>10 * r\<rfloor>) # frac_digits k (10 * r - of_int \<lfloor>10 * r\<rfloor>))"

definition rat_str :: "rat \<Rightarrow> string" where
  "rat_str r =
     (if of_int \<lfloor>r\<rfloor> = r then int_str \<lfloor>r\<rfloor>
      else (if r < 0 then ''-'' else []) @ nat_str (nat \<lfloor>\<bar>r\<bar>\<rfloor>) @ ''.''
        @ frac_digits 20 (\<bar>r\<bar> - of_int \<lfloor>\<bar>r\<bar>\<rfloor>))"

fun num_str :: "jnum \<Rightarrow> string" where
  "num_str NaN = ''NaN''"
| "num_str (Infinity pos) = (if pos then ''Infinity'' else ''-Infinity'')"
| "num_str (Fin r) = rat_str r"

text \<open>\<open>Number(s)\<close> of a string: trimmed, empty is 0, then a decimal literal, \<open>Infinity\<close> or a
  prefixed integer.\<close>

definition split_sign :: "string \<Rightarrow> bool \<times> string" where
  "split_sign s = (case s of
       [] \<Rightarrow> (False, [])
     | c # t \<Rightarrow> if c = CHR ''-'' then (True, t) else if c = CHR ''+'' then (False, t) else (False, c # t))"

definition pow10 :: "bool \<Rightarrow> nat \<Rightarrow> rat" where
  "pow10 neg e = (if neg then 1 / 10 ^ e else 10 ^ e)"

definition parse_exponent :: "string \<Rightarrow> rat option" where
  "parse_exponent s = (case s of
       [] \<Rightarrow> Some 1
     | c # t \<Rightarrow>
         if c = CHR ''e'' \<or> c = CHR ''E''
         then (let (neg, ds) = split_sign t in
               if ds \<noteq> [] \<and> list_all is_digit ds then Some (pow10 neg (digits_value 0 ds)) else None)
         else None)"

definition parse_decimal :: "string \<Rightarrow> rat option" where
  "parse_decimal s =
     (let (neg, u) = split_sign s;
          ip = takeWhile is_digit u;
          r1 = dropWhile is_digit u;
          (fp, r2) = (case r1 of
              c # t \<Rightarrow> if c = CHR ''.'' then (takeWhile is_digit t, dropWhile is_digit t) else ([], r1)
            | [] \<Rightarrow> ([], []))
      in if ip = [] \<and> fp = [] then None
         else (case parse_exponent r2 of
             None \<Rightarrow> None
           | Some e \<Rightarrow>
               let v = (of_nat (digits_value 0 ip) + of_nat (digits_value 0 fp) / 10 ^ length fp) * e
               in Some (if neg then - v else v)))"

definition radix_digit :: "char \<Rightarrow> nat" where
  "radix_digit c =
     (if is_digit c then of_char c - 48
      else if char_between CHR ''a'' CHR ''f'' c then of_char c - 87
      else if char_between CHR ''A'' CHR ''F'' c then of_char c - 55 else 16)"

definition radix_value :: "nat \<Rightarrow> string \<Rightarrow> jnum" where
  "radix_value b s =
     (if s \<noteq> [] \<and> list_all (\<lambda>c. radix_digit c < b) s
      then Fin (of_nat (foldl (\<lambda>a c. b * a + radix_digit c) 0 s)) else NaN)"

definition str_num :: "string \<Rightarrow> jnum" where
  "str_num s =
     (let t = trim s in
      if t = [] then Fin 0
      else if t = ''Infinity'' \<or> t = ''+Infinity'' then Infinity True
      else if t = ''-Infinity'' then Infinity False
      else if startsWith t ''0x'' \<or> startsWith t ''0X'' then radix_value 16 (drop 2 t)
      else if startsWith t ''0o'' \<or> startsWith t ''0O'' then radix_value 8 (drop 2 t)
      else if startsWith t ''0b'' \<or> startsWith t ''0B'' then radix_value 2 (drop 2 t)
      else (case parse_decimal t of None \<Rightarrow> NaN | Some r \<Rightarrow> Fin r))"

text \<open>\<open>Number.parseInt(s, 10)\<close>: the longest prefix of digits after the sign.\<close>

definition parse_int :: "string \<Rightarrow> jnum" where
  "parse_int s =
     (let (neg, u) = split_sign (trimStart s); ds = takeWhile is_digit u in
      if ds = [] then NaN
      else Fin (of_int (if neg then - int (digits_value 0 ds) else int (digits_value 0 ds))))"

text \<open>\<open>toFixed(f)\<close>: the nearest multiple of \<open>10^-f\<close>, the larger one on a tie.\<close>

definition toFixed :: "nat \<Rightarrow> rat \<Rightarrow> string" where
  "toFixed f r =
     (let n = nat \<lfloor>\<bar>r\<bar> * 10 ^ f + 1 / 2\<rfloor>;
          ds = padStart (Suc f) CHR ''0'' (nat_str n);
          k = length ds - f
      in (if r < 0 then ''-'' else [])
         @ (if f = 0 then ds else take k ds @ ''.'' @ drop k ds))"

definition round_num :: "rat \<Rightarrow> int" where
  "round_num r = \<lfloor>r + 1 / 2\<rfloor>"

section \<open>Values\<close>

datatype jsval =
    JUndef
  | JNull
  | JBool bool
  | JNum jnum
  | JStr string
  | JArr "jsval list"
  | JObj "(string \<times> jsval) list"

type_synonym jsobj = "(string \<times> jsval) list"

abbreviation JInt :: "int \<Rightarrow> jsval" where
  "JInt i \<equiv> JNum (Fin (of_int i))"

fun truthy :: "jsval \<Rightarrow> bool" where
  "truthy JUndef = False"
| "truthy JNull = False"
| "truthy (JBool b) = b"
| "truthy (JNum n) = (n \<noteq> NaN \<and> n \<noteq> Fin 0)"
| "truthy (JStr s) = (s \<noteq> [])"
| "truthy (JArr xs) = True"
| "truthy (JObj kvs) = True"

fun to_str :: "jsval \<Rightarrow> string" and to_str_elems :: "jsval list \<Rightarrow> string list" where
  "to_str JUndef = ''undefined''"
| "to_str JNull = ''null''"
| "to_str (JBool b) = (if b then ''true'' else ''false'')"
| "to_str (JNum n) = num_str n"
| "to_str (JStr s) = s"
| "to_str (JArr xs) = join '','' (to_str_elems xs)"
| "to_str (JObj kvs) = ''[object Object]''"
| "to_str_elems [] = []"
| "to_str_elems (x # xs) =
     (if x = JUndef \<or> x = JNull then [] else to_str x) # to_str_elems xs"

fun to_num :: "jsval \<Rightarrow> jnum" where
  "to_num JUndef = NaN"
| "to_num JNull = Fin 0"
| "to_num (JBool b) = Fin (if b then 1 else 0)"
| "to_num (JNum n) = n"
| "to_num (JStr s) = str_num s"
| "to_num (JArr xs) = str_num (to_str (JArr xs))"
| "to_num (JObj kvs) = NaN"

definition js_or :: "jsval \<Rightarrow> jsval \<Rightarrow> jsval" where
  "js_or a b = (if truthy a then a else b)"

definition js_nullish :: "jsval \<Rightarrow> jsval \<Rightarrow> jsval" where
  "js_nullish a b = (if a = JUndef \<or> a = JNull then b else a)"

text \<open>\<open>String(v || d)\<close> for a string \<open>d\<close>.\<close>

definition str_or :: "jsval \<Rightarrow> string \<Rightarrow> string" where
  "str_or v d = to_str (js_or v (JStr d))"

text \<open>\<open>Number(v || 0)\<close>.\<close>

definition num_or_zero :: "jsval \<Rightarrow> jnum" where
  "num_or_zero v = to_num (js_or v (JInt 0))"

fun is_str :: "jsval \<Rightarrow> bool" where
  "is_str (JStr s) = True"
| "is_str v = False"

fun is_arr :: "jsval \<Rightarrow> bool" where
  "is_arr (JArr xs) = True"
| "is_arr v = False"

text \<open>\<open>v && typeof v === 'object'\<close>: arrays included.\<close>

fun is_object :: "jsval \<Rightarrow> bool" where
  "is_object (JArr xs) = True"
| "is_object (JObj kvs) = True"
| "is_object v = False"

text \<open>\<open>v && typeof v === 'object' && !Array.isArray(v)\<close>.\<close>

fun is_plain :: "jsval \<Rightarrow> bool" where
  "is_plain (JObj kvs) = True"
| "is_plain v = False"

text \<open>\<open>typeof v\<close> is string, number or boolean.\<close>

fun is_scalar :: "jsval \<Rightarrow> bool" where
  "is_scalar (JStr s) = True"
| "is_scalar (JNum n) = True"
| "is_scalar (JBool b) = True"
| "is_scalar v = False"

text \<open>\<open>Array.isArray(v) ? v : []\<close>.\<close>

fun arr_items :: "jsval \<Rightarrow> jsval list" where
  "arr_items (JArr xs) = xs"
| "arr_items v = []"

text \<open>The own entries of an object, as \<open>Object.entries\<close> or a spread reads them.\<close>

fun obj_entries :: "jsval \<Rightarrow> jsobj" where
  "obj_entries (JObj kvs) = kvs"
| "obj_entries v = []"

definition obj_get :: "jsobj \<Rightarrow> string \<Rightarrow> jsval" where
  "obj_get ob k = (case map_of ob k of None \<Rightarrow> JUndef | Some v \<Rightarrow> v)"

text \<open>\<open>v?.k\<close>.\<close>

definition jprop :: "jsval \<Rightarrow> string \<Rightarrow> jsval" where
  "jprop v k = obj_get (obj_entries v) k"

text \<open>Assignment to a property and \<open>delete\<close>.\<close>

fun obj_set :: "jsobj \<Rightarrow> string \<Rightarrow> jsval \<Rightarrow> jsobj" where
  "obj_set [] k v = [(k, v)]"
| "obj_set ((j, w) # ob) k v = (if j = k then (k, v) # ob else (j, w) # obj_set ob k v)"

definition obj_delete :: "jsobj \<Rightarrow> string \<Rightarrow> jsobj" where
  "obj_delete ob k = filter (\<lambda>(j, w). j \<noteq> k) ob"

definition obj_has :: "jsobj \<Rightarrow> string \<Rightarrow> bool" where
  "obj_has ob k \<longleftrightarrow> k \<in> fst ` set ob"

text \<open>\<open>{...a, ...b}\<close>.\<close>

definition obj_assign :: "jsobj \<Rightarrow> jsobj \<Rightarrow> jsobj" where
  "obj_assign a b = foldl (\<lambda>ob (k, v). obj_set ob k v) a b"

section \<open>Lemmas\<close>

lemma truthy_js_or: "truthy (js_or a b) \<longleftrightarrow> truthy a \<or> truthy b"
  by (simp add: js_or_def)

lemma str_or_JStr [simp]: "str_or (JStr s) [] = s"
  by (simp add: str_or_def js_or_def)

lemma str_or_falsy: "\<not> truthy v \<Longrightarrow> str_or v d = d"
  by (simp add: str_or_def js_or_def)

lemma str_or_simps [simp]:
  "str_or JUndef d = d" "str_or JNull d = d" "str_or (JBool False) d = d"
  "s \<noteq> [] \<Longrightarrow> str_or (JStr s) d = s" "str_or (JStr []) d = d"
  by (simp_all add: str_or_def js_or_def)

lemma int_str_zero: "rat_str 0 = ''0''"
  by code_simp

lemma rat_str_of_int [simp]: "rat_str (of_int i) = int_str i"
  by (simp add: rat_str_def)

lemma obj_get_set: "obj_get (obj_set ob k v) j = (if j = k then v else obj_get ob j)"
  by (induction ob k v rule: obj_set.induct) (auto simp: obj_get_def)

lemma obj_get_set_same [simp]: "obj_get (obj_set ob k v) k = v"
  by (simp add: obj_get_set)

lemma obj_has_set [simp]: "obj_has (obj_set ob k v) j \<longleftrightarrow> j = k \<or> obj_has ob j"
  by (induction ob k v rule: obj_set.induct) (auto simp: obj_has_def)

lemma obj_has_delete [simp]: "obj_has (obj_delete ob k) j \<longleftrightarrow> j \<noteq> k \<and> obj_has ob j"
  by (force simp: obj_has_def obj_delete_def image_iff)

lemma obj_get_delete: "obj_get (obj_delete ob k) j = (if j = k then JUndef else obj_get ob j)"
  by (induction ob) (auto simp: obj_get_def obj_delete_def)

lemma obj_get_absent: "\<not> obj_has ob k \<Longrightarrow> obj_get ob k = JUndef"
  by (auto simp: obj_get_def obj_has_def split: option.splits dest: map_of_SomeD)
     (metis fst_conv image_eqI map_of_SomeD)

lemma keys_obj_set: "map fst (obj_set ob k v) = (if obj_has ob k then map fst ob else map fst ob @ [k])"
  by (induction ob k v rule: obj_set.induct) (auto simp: obj_has_def)

lemma distinct_obj_set: "distinct (map fst ob) \<Longrightarrow> distinct (map fst (obj_set ob k v))"
  by (auto simp: keys_obj_set obj_has_def)

lemma jprop_JObj [simp]: "jprop (JObj ob) k = obj_get ob k"
  by (simp add: jprop_def)

lemma jprop_simps [simp]:
  "jprop JUndef k = JUndef" "jprop JNull k = JUndef" "jprop (JStr s) k = JUndef"
  "jprop (JNum n) k = JUndef" "jprop (JBool b) k = JUndef" "jprop (JArr xs) k = JUndef"
  by (simp_all add: jprop_def obj_get_def)

lemma is_plain_iff: "is_plain v \<longleftrightarrow> (\<exists>ob. v = JObj ob)"
  by (cases v) auto

lemma is_object_truthy: "is_object v \<Longrightarrow> truthy v"
  by (cases v) auto

lemma digit_nat_str:
  assumes "n < 10"
  shows "nat_str n = [digit_char n]"
  using assms by (simp add: nat_str.simps)

lemma parse_decimal_nat_str: "parse_decimal (nat_str n) = Some (of_nat n)"
proof -
  obtain c t where s: "nat_str n = c # t" by (cases "nat_str n") auto
  have d: "\<forall>x \<in> set (nat_str n). is_digit x" by (rule nat_str_digits)
  then have "is_digit c" using s by simp
  then have "c \<noteq> CHR ''-''" "c \<noteq> CHR ''+''"
    by (auto simp: is_digit_def char_between_def)
  then have sp: "split_sign (nat_str n) = (False, nat_str n)"
    by (simp add: split_sign_def s)
  have tw: "takeWhile is_digit (nat_str n) = nat_str n" "dropWhile is_digit (nat_str n) = []"
    using d by (simp_all add: takeWhile_eq_all_conv)
  show ?thesis
    by (simp add: parse_decimal_def parse_exponent_def Let_def sp tw)
qed

lemma nat_str_no_ws: "\<forall>c \<in> set (nat_str n). \<not> is_ws c"
  using nat_str_digits [of n] by (auto simp: is_digit_def char_between_def is_ws_code)

lemma parse_int_nat_str: "parse_int (nat_str n) = Fin (of_nat n)"
proof -
  obtain c t where s: "nat_str n = c # t" by (cases "nat_str n") auto
  have d: "\<forall>x \<in> set (nat_str n). is_digit x" by (rule nat_str_digits)
  then have "is_digit c" using s by simp
  then have "c \<noteq> CHR ''-''" "c \<noteq> CHR ''+''" by (auto simp: is_digit_def char_between_def)
  moreover have "trimStart (nat_str n) = nat_str n"
    using nat_str_no_ws [of n] s by (intro trimStart_trimmed) auto
  ultimately have "split_sign (trimStart (nat_str n)) = (False, nat_str n)"
    by (simp add: split_sign_def s)
  moreover have tw: "takeWhile is_digit (nat_str n) = nat_str n"
    using d by (simp add: takeWhile_eq_all_conv)
  ultimately show ?thesis by (simp add: parse_int_def Let_def tw)
qed

lemma parse_int_Fin_int: "parse_int s = Fin r \<Longrightarrow> \<exists>i. r = of_int i"
  by (auto simp: parse_int_def Let_def split: prod.splits if_splits)
     (metis of_int_minus of_int_of_nat_eq)+

lemma parse_int_int_str: "parse_int (int_str i) = Fin (of_int i)"
proof (cases "i < 0")
  case True
  let ?s = "nat_str (nat (- i))"
  have tw: "takeWhile is_digit ?s = ?s"
    using nat_str_digits by (simp add: takeWhile_eq_all_conv)
  show ?thesis
    using True by (simp add: parse_int_def int_str_def Let_def trimStart_def is_ws_def split_sign_def tw)
next
  case False
  then show ?thesis using parse_int_nat_str [of "nat i"] by (simp add: int_str_def)
qed

lemma parse_decimal_int_str: "parse_decimal (int_str i) = Some (of_int i)"
proof (cases "i < 0")
  case True
  let ?s = "nat_str (nat (- i))"
  have tw: "takeWhile is_digit ?s = ?s" "dropWhile is_digit ?s = []"
    using nat_str_digits [of "nat (- i)"] by (simp_all add: takeWhile_eq_all_conv)
  show ?thesis
    using True by (simp add: parse_decimal_def parse_exponent_def int_str_def Let_def split_sign_def tw)
next
  case False
  then show ?thesis using parse_decimal_nat_str [of "nat i"] by (simp add: int_str_def)
qed

lemma int_str_chars: "c \<in> set (int_str i) \<Longrightarrow> is_digit c \<or> c = CHR ''-''"
  using nat_str_digits by (auto simp: int_str_def split: if_splits)

lemma int_str_no_ws: "\<forall>c \<in> set (int_str i). \<not> is_ws c"
  using int_str_chars [of _ i] by (fastforce simp: is_digit_def char_between_def is_ws_code)

lemma int_str_nonempty [simp]: "int_str i \<noteq> []"
  by (simp add: int_str_def)

text \<open>\<open>Number(String(i))\<close> is the integer.\<close>

lemma str_num_int_str [simp]: "str_num (int_str i) = Fin (of_int i)"
proof -
  let ?s = "int_str i"
  have nin: "c \<notin> set ?s" if "\<not> is_digit c" "c \<noteq> CHR ''-''" for c using int_str_chars that by blast
  have "CHR ''I'' \<notin> set ?s" by (rule nin) (simp_all add: is_digit_def char_between_def)
  then have inf: "?s \<noteq> ''Infinity''" "?s \<noteq> ''+Infinity''" "?s \<noteq> ''-Infinity''" by force+
  have pre: "\<not> startsWith ?s [CHR ''0'', x]" if "\<not> is_digit x" "x \<noteq> CHR ''-''" for x
    using nin [OF that] startsWith_set [of ?s "[CHR ''0'', x]"] by auto
  have "trim ?s = ?s" by (rule trim_no_ws) (rule int_str_no_ws)
  then show ?thesis
    by (simp add: str_num_def Let_def inf pre is_digit_def char_between_def parse_decimal_int_str)
qed

lemma obj_get_append: "obj_get (a @ b) k = (if obj_has a k then obj_get a k else obj_get b k)"
  by (induction a) (auto simp: obj_get_def obj_has_def)

lemma obj_get_Cons: "obj_get ((j, v) # ob) k = (if j = k then v else obj_get ob k)"
  by (simp add: obj_get_def)

lemma obj_get_Nil [simp]: "obj_get [] k = JUndef"
  by (simp add: obj_get_def)

lemma obj_has_simps [simp]: "\<not> obj_has [] k" "obj_has ((j, v) # ob) k \<longleftrightarrow> j = k \<or> obj_has ob k"
  "obj_has (a @ b) k \<longleftrightarrow> obj_has a k \<or> obj_has b k"
  by (auto simp: obj_has_def)

end
