(* ===== verification/JS_Regex.thy ===== *)
theory JS_Regex
  imports JS_Prelude
begin

text \<open>
  JavaScript regular expressions as a datatype with a backtracking matcher. The matcher
  returns the list of all ways to match at a position in the order a backtracking engine
  tries them, so the head of the list is the match the engine reports: greedy stars put the
  longer matches first, lazy ones the shorter, and an iteration that consumes nothing fails,
  as in the ECMAScript specification. A source pattern is transcribed once into a term of
  type \<open>rx\<close> and its operations (\<open>test\<close>, \<open>exec\<close>, \<open>replace\<close>, \<open>matchAll\<close>) are the functions
  below. \<open>rlang\<close> is the reference meaning of the anchor-free part, a set of strings, and
  \<open>rx_full_lang\<close> says that a pattern anchored on both sides accepts exactly that set.
\<close>

section \<open>Patterns and the matcher\<close>

datatype rx =
    REps
  | RChr "char \<Rightarrow> bool"
  | RSeq rx rx
  | RAlt rx rx
  | RStar bool rx
  | RCap nat rx
  | RBol
  | REol
  | RWordB
  | RLook rx

text \<open>A position: the characters before it (nearest first), those after it, the captures.\<close>

type_synonym rpos = "string \<times> string \<times> (nat \<times> string) list"

fun rest_of :: "rpos \<Rightarrow> string" where
  "rest_of (b, s, cs) = s"

definition word_char :: "char \<Rightarrow> bool" where
  "word_char c \<longleftrightarrow> is_alnum c \<or> c = CHR ''_''"

fun at_word_boundary :: "string \<Rightarrow> string \<Rightarrow> bool" where
  "at_word_boundary b s =
     ((b \<noteq> [] \<and> word_char (hd b)) \<noteq> (s \<noteq> [] \<and> word_char (hd s)))"

text \<open>The iterations of a star, with fuel: every iteration consumes at least one character,
  so the length of the rest is enough fuel.\<close>

fun star_iter :: "bool \<Rightarrow> (rpos \<Rightarrow> rpos list) \<Rightarrow> nat \<Rightarrow> rpos \<Rightarrow> rpos list" where
  "star_iter g f 0 st = [st]"
| "star_iter g f (Suc n) st =
     (let more = concat (map (star_iter g f n)
                   (filter (\<lambda>st'. length (rest_of st') < length (rest_of st)) (f st)))
      in if g then more @ [st] else st # more)"

primrec rxm :: "rx \<Rightarrow> rpos \<Rightarrow> rpos list" where
  "rxm REps st = [st]"
| "rxm (RChr p) st = (case st of (b, s, cs) \<Rightarrow>
     (case s of [] \<Rightarrow> [] | c # t \<Rightarrow> if p c then [(c # b, t, cs)] else []))"
| "rxm (RSeq r1 r2) st = concat (map (rxm r2) (rxm r1 st))"
| "rxm (RAlt r1 r2) st = rxm r1 st @ rxm r2 st"
| "rxm (RStar g r) st = star_iter g (rxm r) (length (rest_of st)) st"
| "rxm (RCap n r) st = (case st of (b, s, cs) \<Rightarrow>
     map (\<lambda>(b', s', cs'). (b', s', (n, take (length s - length s') s) # cs')) (rxm r st))"
| "rxm RBol st = (case st of (b, s, cs) \<Rightarrow> if b = [] then [st] else [])"
| "rxm REol st = (case st of (b, s, cs) \<Rightarrow> if s = [] then [st] else [])"
| "rxm RWordB st = (case st of (b, s, cs) \<Rightarrow> if at_word_boundary b s then [st] else [])"
| "rxm (RLook r) st = (if rxm r st = [] then [] else [st])"

subsection \<open>Derived patterns\<close>

fun rx_lit :: "string \<Rightarrow> rx" where
  "rx_lit [] = REps"
| "rx_lit (c # s) = RSeq (RChr (\<lambda>x. x = c)) (rx_lit s)"

text \<open>A literal under the \<open>i\<close> flag.\<close>

fun rx_lit_i :: "string \<Rightarrow> rx" where
  "rx_lit_i [] = REps"
| "rx_lit_i (c # s) = RSeq (RChr (\<lambda>x. lower_char x = lower_char c)) (rx_lit_i s)"

fun rx_seq :: "rx list \<Rightarrow> rx" where
  "rx_seq [] = REps"
| "rx_seq [r] = r"
| "rx_seq (r # q # rs) = RSeq r (rx_seq (q # rs))"

fun rx_alt :: "rx list \<Rightarrow> rx" where
  "rx_alt [] = RChr (\<lambda>_. False)"
| "rx_alt [r] = r"
| "rx_alt (r # q # rs) = RAlt r (rx_alt (q # rs))"

definition rx_opt :: "rx \<Rightarrow> rx" where
  "rx_opt r = RAlt r REps"

definition rx_star :: "rx \<Rightarrow> rx" where
  "rx_star r = RStar True r"

definition rx_plus :: "rx \<Rightarrow> rx" where
  "rx_plus r = RSeq r (RStar True r)"

text \<open>\<open>r{0,n}\<close> and \<open>r{m,m+n}\<close>.\<close>

fun rx_upto :: "nat \<Rightarrow> rx \<Rightarrow> rx" where
  "rx_upto 0 r = REps"
| "rx_upto (Suc n) r = RAlt (RSeq r (rx_upto n r)) REps"

fun rx_rep :: "nat \<Rightarrow> nat \<Rightarrow> rx \<Rightarrow> rx" where
  "rx_rep 0 n r = rx_upto n r"
| "rx_rep (Suc m) n r = RSeq r (rx_rep m n r)"

definition rx_any :: rx where
  "rx_any = RChr (\<lambda>c. c \<noteq> CHR 0x0A \<and> c \<noteq> CHR 0x0D)"

definition rx_ws :: rx where
  "rx_ws = RChr is_ws"

definition rx_nonws :: rx where
  "rx_nonws = RChr (\<lambda>c. \<not> is_ws c)"

definition rx_digit :: rx where
  "rx_digit = RChr is_digit"

definition rx_anchored :: "rx \<Rightarrow> rx" where
  "rx_anchored r = RSeq RBol (RSeq r REol)"

section \<open>The operations of RegExp and String\<close>

text \<open>The match at one position, then the leftmost match from a position on.\<close>

definition rx_at :: "rx \<Rightarrow> string \<Rightarrow> string \<Rightarrow> rpos option" where
  "rx_at r b s = (case rxm r (b, s, []) of [] \<Rightarrow> None | st # _ \<Rightarrow> Some st)"

fun rx_search :: "rx \<Rightarrow> string \<Rightarrow> string \<Rightarrow> (string \<times> string \<times> rpos) option" where
  "rx_search r b [] = map_option (\<lambda>st. (b, [], st)) (rx_at r b [])"
| "rx_search r b (c # s) = (case rx_at r b (c # s) of
       Some st \<Rightarrow> Some (b, c # s, st)
     | None \<Rightarrow> rx_search r (c # b) s)"

definition rx_test :: "rx \<Rightarrow> string \<Rightarrow> bool" where
  "rx_test r s = (rx_search r [] s \<noteq> None)"

text \<open>\<open>s.match(re)\<close> without the \<open>g\<close> flag: the matched text and the captures.\<close>

definition rx_exec :: "rx \<Rightarrow> string \<Rightarrow> (string \<times> (nat \<times> string) list) option" where
  "rx_exec r s = (case rx_search r [] s of
       None \<Rightarrow> None
     | Some (b, t, (b', t', cs)) \<Rightarrow> Some (take (length t - length t') t, cs))"

text \<open>A capture group of a match; a group that took no part reads as \<^const>\<open>None\<close>.\<close>

definition rx_group :: "(string \<times> (nat \<times> string) list) \<Rightarrow> nat \<Rightarrow> string option" where
  "rx_group m n = map_of (snd m) n"

text \<open>\<open>String(m[n] || '')\<close>.\<close>

definition rx_group_str :: "(string \<times> (nat \<times> string) list) \<Rightarrow> nat \<Rightarrow> string" where
  "rx_group_str m n = (case rx_group m n of None \<Rightarrow> [] | Some s \<Rightarrow> s)"

text \<open>\<open>s.replace(re, f)\<close> without the \<open>g\<close> flag.\<close>

definition rx_replace :: "rx \<Rightarrow> (string \<times> (nat \<times> string) list \<Rightarrow> string) \<Rightarrow> string \<Rightarrow> string" where
  "rx_replace r f s = (case rx_search r [] s of
       None \<Rightarrow> s
     | Some (b, t, (b', t', cs)) \<Rightarrow> rev b @ f (take (length t - length t') t, cs) @ t')"

text \<open>\<open>s.replace(re, f)\<close> with the \<open>g\<close> flag, from a position on.\<close>

function rx_replace_from ::
  "rx \<Rightarrow> (string \<times> (nat \<times> string) list \<Rightarrow> string) \<Rightarrow> string \<Rightarrow> string \<Rightarrow> string" where
  "rx_replace_from r f b s = (case rx_at r b s of
       None \<Rightarrow> (case s of [] \<Rightarrow> [] | c # t \<Rightarrow> c # rx_replace_from r f (c # b) t)
     | Some (b', s', cs) \<Rightarrow>
         if length s' < length s
         then f (take (length s - length s') s, cs) @ rx_replace_from r f b' s'
         else f ([], cs) @ (case s of [] \<Rightarrow> [] | c # t \<Rightarrow> c # rx_replace_from r f (c # b) t))"
  by pat_completeness auto
termination
  by (relation "measure (\<lambda>(r, f, b, s). length s)") auto

declare rx_replace_from.simps [simp del]

definition rx_replace_all ::
  "rx \<Rightarrow> (string \<times> (nat \<times> string) list \<Rightarrow> string) \<Rightarrow> string \<Rightarrow> string" where
  "rx_replace_all r f s = rx_replace_from r f [] s"

text \<open>\<open>[...s.matchAll(re)]\<close>, from a position on.\<close>

function rx_matches_from :: "rx \<Rightarrow> string \<Rightarrow> string \<Rightarrow> (string \<times> (nat \<times> string) list) list" where
  "rx_matches_from r b s = (case rx_at r b s of
       None \<Rightarrow> (case s of [] \<Rightarrow> [] | c # t \<Rightarrow> rx_matches_from r (c # b) t)
     | Some (b', s', cs) \<Rightarrow>
         if length s' < length s
         then (take (length s - length s') s, cs) # rx_matches_from r b' s'
         else ([], cs) # (case s of [] \<Rightarrow> [] | c # t \<Rightarrow> rx_matches_from r (c # b) t))"
  by pat_completeness auto
termination
  by (relation "measure (\<lambda>(r, b, s). length s)") auto

declare rx_matches_from.simps [simp del]

definition rx_matchAll :: "rx \<Rightarrow> string \<Rightarrow> (string \<times> (nat \<times> string) list) list" where
  "rx_matchAll r s = rx_matches_from r [] s"

section \<open>The reference meaning\<close>

inductive_set star_lang :: "string set \<Rightarrow> string set" for A where
  star_Nil: "[] \<in> star_lang A"
| star_app: "u \<in> A \<Longrightarrow> v \<in> star_lang A \<Longrightarrow> u @ v \<in> star_lang A"

fun rlang :: "rx \<Rightarrow> string set" where
  "rlang REps = {[]}"
| "rlang (RChr p) = {[c] |c. p c}"
| "rlang (RSeq r1 r2) = {u @ v |u v. u \<in> rlang r1 \<and> v \<in> rlang r2}"
| "rlang (RAlt r1 r2) = rlang r1 \<union> rlang r2"
| "rlang (RStar g r) = star_lang (rlang r)"
| "rlang (RCap n r) = rlang r"
| "rlang RBol = {}"
| "rlang REol = {}"
| "rlang RWordB = {}"
| "rlang (RLook r) = {}"

fun anchor_free :: "rx \<Rightarrow> bool" where
  "anchor_free (RSeq r1 r2) = (anchor_free r1 \<and> anchor_free r2)"
| "anchor_free (RAlt r1 r2) = (anchor_free r1 \<and> anchor_free r2)"
| "anchor_free (RStar g r) = anchor_free r"
| "anchor_free (RCap n r) = anchor_free r"
| "anchor_free RBol = False"
| "anchor_free REol = False"
| "anchor_free RWordB = False"
| "anchor_free (RLook r) = False"
| "anchor_free r = True"


section \<open>Every match splits its input\<close>

definition splits :: "(rpos \<Rightarrow> rpos list) \<Rightarrow> bool" where
  "splits f \<longleftrightarrow> (\<forall>b s cs b' s' cs'. (b', s', cs') \<in> set (f (b, s, cs)) \<longrightarrow>
     (\<exists>w. s = w @ s' \<and> b' = rev w @ b))"

lemma splitsI:
  "(\<And>b s cs b' s' cs'. (b', s', cs') \<in> set (f (b, s, cs)) \<Longrightarrow> \<exists>w. s = w @ s' \<and> b' = rev w @ b) \<Longrightarrow> splits f"
  by (auto simp: splits_def)

lemma splitsD:
  "splits f \<Longrightarrow> (b', s', cs') \<in> set (f (b, s, cs)) \<Longrightarrow> \<exists>w. s = w @ s' \<and> b' = rev w @ b"
  unfolding splits_def by blast

lemma set_star_iter_Suc:
  "set (star_iter g f (Suc n) st) =
     insert st (\<Union>st' \<in> {st' \<in> set (f st). length (rest_of st') < length (rest_of st)}. set (star_iter g f n st'))"
  by (simp add: Let_def)

lemma splits_star_iter:
  assumes "splits f"
  shows "splits (star_iter g f n)"
proof (induction n)
  case 0
  show ?case by (auto intro: splitsI)
next
  case (Suc n)
  show ?case
  proof (rule splitsI)
    fix b s cs b' s' cs'
    assume "(b', s', cs') \<in> set (star_iter g f (Suc n) (b, s, cs))"
    then consider "(b', s', cs') = (b, s, cs)"
      | b1 s1 cs1 where "(b1, s1, cs1) \<in> set (f (b, s, cs))"
          "(b', s', cs') \<in> set (star_iter g f n (b1, s1, cs1))"
      unfolding set_star_iter_Suc by auto
    then show "\<exists>w. s = w @ s' \<and> b' = rev w @ b"
    proof cases
      case 1
      then show ?thesis by simp
    next
      case 2
      from splitsD [OF assms 2(1)] obtain u where u: "s = u @ s1" "b1 = rev u @ b" by auto
      from splitsD [OF Suc 2(2)] obtain v where v: "s1 = v @ s'" "b' = rev v @ b1" by auto
      from u v have "s = (u @ v) @ s' \<and> b' = rev (u @ v) @ b" by simp
      then show ?thesis by blast
    qed
  qed
qed

lemma splits_rxm: "splits (rxm r)"
proof (induction r)
  case (RChr p)
  show ?case
    by (rule splitsI) (auto split: list.splits if_splits)
next
  case (RSeq r1 r2)
  show ?case
  proof (rule splitsI)
    fix b s cs b' s' cs'
    assume "(b', s', cs') \<in> set (rxm (RSeq r1 r2) (b, s, cs))"
    then obtain b1 s1 cs1 where 1: "(b1, s1, cs1) \<in> set (rxm r1 (b, s, cs))"
      and 2: "(b', s', cs') \<in> set (rxm r2 (b1, s1, cs1))"
      by auto
    from splitsD [OF RSeq(1) 1] obtain u where u: "s = u @ s1" "b1 = rev u @ b" by auto
    from splitsD [OF RSeq(2) 2] obtain v where v: "s1 = v @ s'" "b' = rev v @ b1" by auto
    from u v have "s = (u @ v) @ s' \<and> b' = rev (u @ v) @ b" by simp
    then show "\<exists>w. s = w @ s' \<and> b' = rev w @ b" by blast
  qed
next
  case (RAlt r1 r2)
  show ?case
    by (rule splitsI) (auto dest: splitsD [OF RAlt(1)] splitsD [OF RAlt(2)])
next
  case (RStar g r)
  show ?case
    using splits_star_iter [OF RStar] by (auto simp: splits_def)
next
  case (RCap n r)
  show ?case
    by (rule splitsI) (auto dest: splitsD [OF RCap])
qed (auto simp: splits_def split: if_splits)

lemma rxm_split:
  assumes "(b', s', cs') \<in> set (rxm r (b, s, cs))"
  obtains w where "s = w @ s'" "b' = rev w @ b"
  using splitsD [OF splits_rxm assms] by blast

lemma rx_at_split:
  assumes "rx_at r b s = Some (b', s', cs)"
  obtains w where "s = w @ s'" "b' = rev w @ b"
proof -
  have "(b', s', cs) \<in> set (rxm r (b, s, []))"
    using assms by (auto simp: rx_at_def split: list.splits)
  then show thesis by (rule rxm_split) (rule that)
qed

section \<open>The matcher and the reference meaning agree\<close>

text \<open>\<open>recog f L\<close>: from any position the matcher \<open>f\<close> consumes exactly the words of \<open>L\<close>.\<close>

definition recog :: "(rpos \<Rightarrow> rpos list) \<Rightarrow> string set \<Rightarrow> bool" where
  "recog f L \<longleftrightarrow> (\<forall>b w s cs. (\<exists>cs'. (rev w @ b, s, cs') \<in> set (f (b, w @ s, cs))) \<longleftrightarrow> w \<in> L)"

lemma recogD: "recog f L \<Longrightarrow> (\<exists>cs'. (rev w @ b, s, cs') \<in> set (f (b, w @ s, cs))) \<longleftrightarrow> w \<in> L"
  by (simp add: recog_def)

lemma star_lang_unfold:
  "w \<in> star_lang A \<longleftrightarrow> w = [] \<or> (\<exists>u v. u \<noteq> [] \<and> w = u @ v \<and> u \<in> A \<and> v \<in> star_lang A)"
proof
  assume "w \<in> star_lang A"
  then show "w = [] \<or> (\<exists>u v. u \<noteq> [] \<and> w = u @ v \<and> u \<in> A \<and> v \<in> star_lang A)"
  proof (induction rule: star_lang.induct)
    case (star_app u v)
    then show ?case by (cases "u = []") auto
  qed simp
qed (auto intro: star_lang.intros)

lemma star_iter_sound:
  assumes "splits f" "recog f L"
  shows "(rev w @ b, s, cs') \<in> set (star_iter g f n (b, w @ s, cs)) \<Longrightarrow> w \<in> star_lang L"
proof (induction n arbitrary: b w cs)
  case 0
  then show ?case by (simp add: star_lang.star_Nil)
next
  case (Suc n)
  show ?case
  proof (cases "w = []")
    case True
    then show ?thesis by (simp add: star_lang.star_Nil)
  next
    case False
    then obtain b1 s1 cs1 where 1: "(b1, s1, cs1) \<in> set (f (b, w @ s, cs))"
      and 2: "(rev w @ b, s, cs') \<in> set (star_iter g f n (b1, s1, cs1))"
      using Suc.prems unfolding set_star_iter_Suc by auto
    from splitsD [OF assms(1) 1] obtain u where u: "w @ s = u @ s1" "b1 = rev u @ b" by auto
    from splitsD [OF splits_star_iter [OF assms(1)] 2] obtain v
      where v: "s1 = v @ s" "rev w @ b = rev v @ b1" by auto
    from u v have w: "w = u @ v" by simp
    have "u \<in> L"
      using recogD [OF assms(2), of u b s1 cs] 1 u by auto
    moreover have "v \<in> star_lang L"
      using Suc.IH [of v b1 cs1] 2 v by simp
    ultimately show ?thesis
      by (simp add: w star_lang.star_app)
  qed
qed

lemma star_iter_complete:
  assumes "recog f L"
  shows "w \<in> star_lang L \<Longrightarrow> length w \<le> n \<Longrightarrow>
    \<exists>cs'. (rev w @ b, s, cs') \<in> set (star_iter g f n (b, w @ s, cs))"
proof (induction n arbitrary: b w cs)
  case 0
  then show ?case by auto
next
  case (Suc n)
  show ?case
  proof (cases "w = []")
    case True
    then show ?thesis unfolding set_star_iter_Suc by auto
  next
    case False
    with Suc.prems(1) obtain u v where u: "u \<noteq> []" and w: "w = u @ v" and uL: "u \<in> L"
      and v: "v \<in> star_lang L"
      using star_lang_unfold [of w L] by auto
    obtain cs1 where 1: "(rev u @ b, v @ s, cs1) \<in> set (f (b, u @ (v @ s), cs))"
      using recogD [OF assms] uL by blast
    have "length v \<le> n"
      using Suc.prems(2) u w by (cases u) auto
    then obtain cs' where 2: "(rev v @ rev u @ b, s, cs') \<in> set (star_iter g f n (rev u @ b, v @ s, cs1))"
      using Suc.IH [OF v] by blast
    have "length (v @ s) < length (u @ (v @ s))"
      using u by simp
    with 1 2 show ?thesis
      unfolding set_star_iter_Suc w by force
  qed
qed

lemma recog_star:
  assumes "splits f" "recog f L"
  shows "recog (\<lambda>st. star_iter g f (length (rest_of st)) st) (star_lang L)"
  unfolding recog_def
  using star_iter_sound [OF assms] star_iter_complete [OF assms(2)]
  by (metis le_add1 length_append rest_of.simps)

lemma recog_seq:
  assumes "splits f1" "recog f1 L1" "splits f2" "recog f2 L2"
  shows "recog (\<lambda>st. concat (map f2 (f1 st))) {u @ v |u v. u \<in> L1 \<and> v \<in> L2}"
proof -
  have "(\<exists>cs'. (rev w @ b, s, cs') \<in> set (concat (map f2 (f1 (b, w @ s, cs))))) \<longleftrightarrow>
      (\<exists>u v. w = u @ v \<and> u \<in> L1 \<and> v \<in> L2)" (is "?l \<longleftrightarrow> ?r") for b w s cs
  proof
    assume ?l
    then obtain cs' b1 s1 cs1 where 1: "(b1, s1, cs1) \<in> set (f1 (b, w @ s, cs))"
      and 2: "(rev w @ b, s, cs') \<in> set (f2 (b1, s1, cs1))"
      by auto
    from splitsD [OF assms(1) 1] obtain u where u: "w @ s = u @ s1" "b1 = rev u @ b" by auto
    from splitsD [OF assms(3) 2] obtain v where v: "s1 = v @ s" "rev w @ b = rev v @ b1" by auto
    from u v have w: "w = u @ v" by simp
    have "u \<in> L1" using recogD [OF assms(2), of u b s1 cs] 1 u by auto
    moreover have "v \<in> L2" using recogD [OF assms(4), of v b1 s cs1] 2 v by auto
    ultimately show ?r using w by blast
  next
    assume ?r
    then obtain u v where w: "w = u @ v" and uv: "u \<in> L1" "v \<in> L2" by blast
    obtain cs1 where 1: "(rev u @ b, v @ s, cs1) \<in> set (f1 (b, u @ (v @ s), cs))"
      using recogD [OF assms(2)] uv by blast
    obtain cs2 where "(rev v @ rev u @ b, s, cs2) \<in> set (f2 (rev u @ b, v @ s, cs1))"
      using recogD [OF assms(4)] uv by blast
    with 1 w show ?l by force
  qed
  then show ?thesis by (auto simp: recog_def)
qed

theorem rxm_lang: "anchor_free r \<Longrightarrow> recog (rxm r) (rlang r)"
proof (induction r)
  case REps
  then show ?case by (auto simp: recog_def)
next
  case (RChr p)
  show ?case
    by (fastforce simp: recog_def append_eq_Cons_conv split: list.splits if_splits)
next
  case (RSeq r1 r2)
  then show ?case
    using recog_seq [OF splits_rxm _ splits_rxm, of r1 "rlang r1" r2 "rlang r2"] by simp
next
  case (RAlt r1 r2)
  then show ?case by (simp add: recog_def ex_disj_distrib)
next
  case (RStar g r)
  then show ?case
    using recog_star [OF splits_rxm, of r "rlang r" g] by simp
next
  case (RCap n r)
  have "(\<exists>cs'. (rev w @ b, s, cs') \<in> set (rxm (RCap n r) (b, w @ s, cs))) \<longleftrightarrow>
      (\<exists>cs'. (rev w @ b, s, cs') \<in> set (rxm r (b, w @ s, cs)))" for b w s cs
    by force
  with RCap show ?case by (simp add: recog_def)
qed simp_all

lemma rx_at_None: "rx_at r b s = None \<longleftrightarrow> rxm r (b, s, []) = []"
  by (auto simp: rx_at_def split: list.splits)

text \<open>A pattern between \<open>^\<close> and \<open>$\<close> accepts exactly the words of its meaning.\<close>

lemma rx_search_Bol: "b \<noteq> [] \<Longrightarrow> rx_search (RSeq RBol r) b s = None"
  by (induction "RSeq RBol r" b s rule: rx_search.induct) (auto simp: rx_at_def)

lemma rx_search_Bol_start:
  "rx_search (RSeq RBol r) [] s = map_option (\<lambda>st. ([], s, st)) (rx_at r [] s)"
  by (cases s) (auto simp: rx_at_def rx_search_Bol split: option.splits list.splits)

lemma rx_full_lang:
  assumes "anchor_free r"
  shows "rx_test (rx_anchored r) s \<longleftrightarrow> s \<in> rlang r"
proof -
  have "rx_test (rx_anchored r) s \<longleftrightarrow> rxm (RSeq r REol) ([], s, []) \<noteq> []"
    by (simp add: rx_test_def rx_anchored_def rx_search_Bol_start rx_at_None del: rxm.simps)
  also have "\<dots> \<longleftrightarrow> (\<exists>b' cs'. (b', [], cs') \<in> set (rxm r ([], s, [])))"
    by (force simp: filter_empty_conv concat_eq_Nil_conv split: if_splits)
  also have "\<dots> \<longleftrightarrow> (\<exists>cs'. (rev s @ [], [], cs') \<in> set (rxm r ([], s @ [], [])))"
    by (metis append_Nil2 rxm_split)
  also have "\<dots> \<longleftrightarrow> s \<in> rlang r"
    by (rule recogD [OF rxm_lang [OF assms]])
  finally show ?thesis .
qed

section \<open>The meaning of the derived patterns\<close>

lemma anchor_free_derived [simp]:
  "anchor_free (rx_lit s)" "anchor_free (rx_lit_i s)"
  "anchor_free (rx_opt r) = anchor_free r" "anchor_free (rx_star r) = anchor_free r"
  "anchor_free (rx_plus r) = anchor_free r" "anchor_free rx_any" "anchor_free rx_ws"
  "anchor_free rx_nonws" "anchor_free rx_digit"
proof -
  show "anchor_free (rx_lit s)" by (induction s) auto
  show "anchor_free (rx_lit_i s)" by (induction s) auto
qed (simp_all add: rx_opt_def rx_star_def rx_plus_def rx_any_def rx_ws_def rx_nonws_def rx_digit_def)

lemma anchor_free_seq [simp]: "anchor_free (rx_seq rs) = list_all anchor_free rs"
  by (induction rs rule: rx_seq.induct) auto

lemma anchor_free_alt [simp]: "anchor_free (rx_alt rs) = list_all anchor_free rs"
  by (induction rs rule: rx_alt.induct) auto

lemma anchor_free_upto [simp]: "anchor_free r \<Longrightarrow> anchor_free (rx_upto n r)"
  by (induction n) auto

lemma anchor_free_rep [simp]: "anchor_free r \<Longrightarrow> anchor_free (rx_rep m n r)"
  by (induction m) auto

lemma rlang_lit [simp]: "rlang (rx_lit s) = {s}"
  by (induction s) auto

lemma rlang_class_seq:
  "w \<in> rlang (RSeq (RChr p) r) \<longleftrightarrow> (\<exists>c t. w = c # t \<and> p c \<and> t \<in> rlang r)"
proof
  assume "w \<in> rlang (RSeq (RChr p) r)"
  then show "\<exists>c t. w = c # t \<and> p c \<and> t \<in> rlang r" by auto
next
  assume "\<exists>c t. w = c # t \<and> p c \<and> t \<in> rlang r"
  then obtain c t where "w = [c] @ t" "[c] \<in> rlang (RChr p)" "t \<in> rlang r" by auto
  then show "w \<in> rlang (RSeq (RChr p) r)" unfolding rlang.simps(3) by blast
qed

lemma star_lang_class: "w \<in> star_lang {[c] |c. p c} \<longleftrightarrow> (\<forall>c \<in> set w. p c)"
proof
  assume "w \<in> star_lang {[c] |c. p c}"
  then show "\<forall>c \<in> set w. p c"
    by (induction rule: star_lang.induct) auto
next
  assume "\<forall>c \<in> set w. p c"
  then show "w \<in> star_lang {[c] |c. p c}"
  proof (induction w)
    case (Cons c w)
    then show ?case
      using star_lang.star_app [of "[c]" "{[c] |c. p c}" w] by auto
  qed (simp add: star_lang.star_Nil)
qed

lemma rlang_star_class: "w \<in> rlang (rx_star (RChr p)) \<longleftrightarrow> (\<forall>c \<in> set w. p c)"
  by (simp add: rx_star_def star_lang_class)

lemma rlang_plus_class: "w \<in> rlang (rx_plus (RChr p)) \<longleftrightarrow> w \<noteq> [] \<and> (\<forall>c \<in> set w. p c)"
  by (cases w) (auto simp: rx_plus_def rlang_class_seq star_lang_class simp del: rlang.simps(3))

lemma rlang_upto_class: "w \<in> rlang (rx_upto n (RChr p)) \<longleftrightarrow> length w \<le> n \<and> (\<forall>c \<in> set w. p c)"
proof (induction n arbitrary: w)
  case (Suc n)
  then show ?case by (cases w) (auto simp: rlang_class_seq simp del: rlang.simps(3))
qed auto

lemma rlang_rep_class:
  "w \<in> rlang (rx_rep m n (RChr p)) \<longleftrightarrow> m \<le> length w \<and> length w \<le> m + n \<and> (\<forall>c \<in> set w. p c)"
proof (induction m arbitrary: w)
  case 0
  then show ?case by (simp add: rlang_upto_class)
next
  case (Suc m)
  then show ?case by (cases w) (auto simp: rlang_class_seq simp del: rlang.simps(3))
qed

lemma rlang_seq_Cons:
  "w \<in> rlang (rx_seq (r # q # rs)) \<longleftrightarrow> (\<exists>u v. w = u @ v \<and> u \<in> rlang r \<and> v \<in> rlang (rx_seq (q # rs)))"
  by auto

lemma rlang_alt: "rs \<noteq> [] \<Longrightarrow> w \<in> rlang (rx_alt rs) \<longleftrightarrow> (\<exists>r \<in> set rs. w \<in> rlang r)"
  by (induction rs rule: rx_alt.induct) auto

lemma rlang_opt [simp]: "w \<in> rlang (rx_opt r) \<longleftrightarrow> w \<in> rlang r \<or> w = []"
  by (auto simp: rx_opt_def)

section \<open>Replacement\<close>

text \<open>A replacement that gives every match back unchanged leaves the string as it is.\<close>

lemma rx_replace_from_fst: "rx_replace_from r fst b s = s"
proof (induction s arbitrary: b rule: length_induct)
  case (1 s)
  have tl: "rx_replace_from r fst b' t = t" if "s = c # t" for b' c t
    using 1 that by simp
  show ?case
  proof (cases "rx_at r b s")
    case None
    with tl show ?thesis
      by (subst rx_replace_from.simps) (auto split: list.splits)
  next
    case (Some st)
    then obtain b' s' cs where at: "rx_at r b s = Some (b', s', cs)" by (cases st) auto
    from at obtain w where w: "s = w @ s'" by (rule rx_at_split)
    show ?thesis
    proof (cases "length s' < length s")
      case True
      with 1 have "rx_replace_from r fst b' s' = s'" by blast
      with True at w show ?thesis
        by (subst rx_replace_from.simps) simp
    next
      case False
      with at tl show ?thesis
        by (subst rx_replace_from.simps) (auto split: list.splits)
    qed
  qed
qed

text \<open>A pattern that matches nowhere replaces nothing.\<close>

lemma rx_search_NoneD: "rx_search r b s = None \<Longrightarrow> rx_at r b s = None"
  by (cases s) (auto split: option.splits)

lemma rx_replace_from_None: "rx_search r b s = None \<Longrightarrow> rx_replace_from r f b s = s"
proof (induction r b s rule: rx_search.induct)
  case (1 r b)
  then show ?case by (subst rx_replace_from.simps) simp
next
  case (2 r b c s)
  then show ?case by (subst rx_replace_from.simps) (simp split: option.splits)
qed

lemma rx_replace_all_None: "\<not> rx_test r s \<Longrightarrow> rx_replace_all r f s = s"
  unfolding rx_test_def rx_replace_all_def by (rule rx_replace_from_None) blast

text \<open>Replacing a character class one character at a time is a map over the string.\<close>

lemma rx_replace_from_class:
  "rx_replace_from (RChr p) f b s = concat (map (\<lambda>c. if p c then f ([c], []) else [c]) s)"
proof (induction s arbitrary: b)
  case Nil
  then show ?case by (simp add: rx_replace_from.simps rx_at_def)
next
  case (Cons c s)
  then show ?case by (simp add: rx_replace_from.simps [of _ _ b] rx_at_def)
qed

lemma rx_replace_all_class:
  "rx_replace_all (RChr p) f s = concat (map (\<lambda>c. if p c then f ([c], []) else [c]) s)"
  by (simp add: rx_replace_all_def rx_replace_from_class)

section \<open>Matches at the start and greedy classes\<close>

text \<open>A match of a pattern that begins with \<open>^\<close> is a prefix and a word of the rest of the pattern.\<close>

lemma rx_at_lang:
  assumes "anchor_free r" "rx_at r b s = Some (b', s', cs)"
  obtains w where "s = w @ s'" "b' = rev w @ b" "w \<in> rlang r"
proof -
  have mem: "(b', s', cs) \<in> set (rxm r (b, s, []))"
    using assms(2) by (auto simp: rx_at_def split: list.splits)
  then obtain w where w: "s = w @ s'" "b' = rev w @ b" by (rule rxm_split)
  with mem have "w \<in> rlang r"
    using recogD [OF rxm_lang [OF assms(1)], of w b s' "[]"] by auto
  with w show thesis by (rule that)
qed

lemma rx_exec_Bol:
  assumes "anchor_free r" "rx_exec (RSeq RBol r) s = Some m"
  shows "fst m \<in> rlang r" "prefix (fst m) s"
proof -
  obtain b' s' cs where at: "rx_at r [] s = Some (b', s', cs)"
    and m: "m = (take (length s - length s') s, cs)"
    using assms(2) by (auto simp: rx_exec_def rx_search_Bol_start split: option.splits prod.splits)
  from assms(1) at obtain w where "s = w @ s'" "w \<in> rlang r" by (rule rx_at_lang)
  with m show "fst m \<in> rlang r" "prefix (fst m) s" by auto
qed

text \<open>A greedy star of a class tries the longest run first.\<close>

lemma rxm_star_class:
  "\<exists>others. rxm (rx_star (RChr p)) (b, s, cs) = (rev (takeWhile p s) @ b, dropWhile p s, cs) # others"
proof -
  have "\<exists>others. star_iter True (rxm (RChr p)) n (b, s, cs)
      = (rev (takeWhile p s) @ b, dropWhile p s, cs) # others" if "length s \<le> n" for n b
    using that
  proof (induction n arbitrary: s b)
    case (Suc n)
    show ?case
    proof (cases s)
      case (Cons c t)
      with Suc.prems Suc.IH [of t "c # b"] show ?thesis by auto
    qed simp
  qed simp
  then show ?thesis by (simp add: rx_star_def)
qed

lemma rx_at_plus_class:
  "rx_at (rx_plus (RChr p)) b s =
     (if s \<noteq> [] \<and> p (hd s) then Some (rev (takeWhile p s) @ b, dropWhile p s, []) else None)"
proof (cases s)
  case (Cons c t)
  with rxm_star_class [of p "c # b" t "[]"] show ?thesis
    by (auto simp: rx_at_def rx_plus_def rx_star_def)
qed (simp add: rx_at_def rx_plus_def)

text \<open>A delimited run: an opening character, a class that excludes the closing one, the closing one.\<close>

lemma rx_at_delimited:
  assumes "d \<notin> set w"
  shows "rx_at (rx_seq [rx_lit [d], rx_star (RChr (\<lambda>c. c \<noteq> d)), rx_lit [d]]) b (d # w @ d # rest)
     = Some (rev (d # w @ [d]) @ b, rest, [])"
proof -
  have tw: "takeWhile (\<lambda>c. c \<noteq> d) (w @ d # rest) = w" "dropWhile (\<lambda>c. c \<noteq> d) (w @ d # rest) = d # rest"
    using assms by (induction w) auto
  obtain others where "rxm (rx_star (RChr (\<lambda>c. c \<noteq> d))) (d # b, w @ d # rest, []) = (rev w @ d # b, d # rest, []) # others"
    using rxm_star_class [of "\<lambda>c. c \<noteq> d" "d # b" "w @ d # rest" "[]"] tw by auto
  then show ?thesis by (simp add: rx_at_def)
qed

lemma rx_at_alt:
  "rx_at (RAlt r q) b s = (case rx_at r b s of None \<Rightarrow> rx_at q b s | Some st \<Rightarrow> Some st)"
  by (auto simp: rx_at_def split: list.splits)

lemma rx_search_Some:
  "rx_search r b s = Some (b', t, st) \<Longrightarrow> rev b @ s = rev b' @ t \<and> rx_at r b' t = Some st"
  by (induction r b s rule: rx_search.induct) (auto split: option.splits)

section \<open>Captures\<close>

fun no_cap :: "rx \<Rightarrow> bool" where
  "no_cap (RSeq r1 r2) = (no_cap r1 \<and> no_cap r2)"
| "no_cap (RAlt r1 r2) = (no_cap r1 \<and> no_cap r2)"
| "no_cap (RStar g r) = no_cap r"
| "no_cap (RCap n r) = False"
| "no_cap r = True"

lemma no_cap_derived [simp]:
  "no_cap (rx_lit s)" "no_cap (rx_lit_i s)" "no_cap (rx_opt r) = no_cap r" "no_cap (rx_star r) = no_cap r"
  "no_cap (rx_plus r) = no_cap r" "no_cap rx_any" "no_cap rx_ws" "no_cap rx_nonws" "no_cap rx_digit"
proof -
  show "no_cap (rx_lit s)" by (induction s) auto
  show "no_cap (rx_lit_i s)" by (induction s) auto
qed (simp_all add: rx_opt_def rx_star_def rx_plus_def rx_any_def rx_ws_def rx_nonws_def rx_digit_def)

lemma no_cap_upto [simp]: "no_cap r \<Longrightarrow> no_cap (rx_upto n r)"
  by (induction n) auto

lemma no_cap_rep [simp]: "no_cap r \<Longrightarrow> no_cap (rx_rep m n r)"
  by (induction m) auto

lemma star_iter_cap:
  assumes "\<And>b s cs b' s' cs'. (b', s', cs') \<in> set (f (b, s, cs)) \<Longrightarrow> cs' = cs"
  shows "(b', s', cs') \<in> set (star_iter g f n (b, s, cs)) \<Longrightarrow> cs' = cs"
proof (induction n arbitrary: b s cs)
  case (Suc n)
  then consider "(b', s', cs') = (b, s, cs)"
    | b1 s1 cs1 where "(b1, s1, cs1) \<in> set (f (b, s, cs))" "(b', s', cs') \<in> set (star_iter g f n (b1, s1, cs1))"
    unfolding set_star_iter_Suc by auto
  then show ?case
  proof cases
    case 2
    then show ?thesis using assms Suc.IH by blast
  qed simp
qed simp

lemma rxm_no_cap: "no_cap r \<Longrightarrow> (b', s', cs') \<in> set (rxm r (b, s, cs)) \<Longrightarrow> cs' = cs"
proof (induction r arbitrary: b s cs b' s' cs')
  case (RSeq r1 r2)
  then show ?case by fastforce
next
  case (RStar g r)
  then show ?case using star_iter_cap [of "rxm r"] by auto
qed (auto split: list.splits if_splits)

text \<open>The ways a piece without captures matches are the splits by a word of its language; a captured
  piece records that word. These two rules read off what the groups of a match hold.\<close>

lemma rxm_piece:
  assumes "anchor_free r" "no_cap r"
  shows "(b', s', cs') \<in> set (rxm r (b, s, cs)) \<longleftrightarrow>
    (\<exists>w \<in> rlang r. s = w @ s' \<and> b' = rev w @ b \<and> cs' = cs)"
proof
  assume m: "(b', s', cs') \<in> set (rxm r (b, s, cs))"
  then obtain w where w: "s = w @ s'" "b' = rev w @ b" by (rule rxm_split)
  moreover have "w \<in> rlang r"
    using recogD [OF rxm_lang [OF assms(1)], of w b s' cs] m w by auto
  ultimately show "\<exists>w \<in> rlang r. s = w @ s' \<and> b' = rev w @ b \<and> cs' = cs"
    using rxm_no_cap [OF assms(2) m] by blast
next
  assume "\<exists>w \<in> rlang r. s = w @ s' \<and> b' = rev w @ b \<and> cs' = cs"
  then obtain w where w: "w \<in> rlang r" "s = w @ s'" "b' = rev w @ b" "cs' = cs" by blast
  then obtain cs1 where m: "(rev w @ b, s', cs1) \<in> set (rxm r (b, w @ s', cs))"
    using recogD [OF rxm_lang [OF assms(1)]] by blast
  moreover have "cs1 = cs" by (rule rxm_no_cap [OF assms(2) m])
  ultimately show "(b', s', cs') \<in> set (rxm r (b, s, cs))" using w by simp
qed

lemma rxm_cap_piece:
  assumes "anchor_free r" "no_cap r"
  shows "(b', s', cs') \<in> set (rxm (RCap n r) (b, s, cs)) \<longleftrightarrow>
    (\<exists>w \<in> rlang r. s = w @ s' \<and> b' = rev w @ b \<and> cs' = (n, w) # cs)"
proof
  assume "(b', s', cs') \<in> set (rxm (RCap n r) (b, s, cs))"
  then obtain cs1 where "(b', s', cs1) \<in> set (rxm r (b, s, cs))"
    and cs': "cs' = (n, take (length s - length s') s) # cs1"
    by auto
  then show "\<exists>w \<in> rlang r. s = w @ s' \<and> b' = rev w @ b \<and> cs' = (n, w) # cs"
    unfolding rxm_piece [OF assms] by auto
next
  assume "\<exists>w \<in> rlang r. s = w @ s' \<and> b' = rev w @ b \<and> cs' = (n, w) # cs"
  then obtain w where "w \<in> rlang r" "s = w @ s'" "b' = rev w @ b" "cs' = (n, w) # cs" by blast
  then have "(b', s', cs) \<in> set (rxm r (b, s, cs))" "cs' = (n, take (length s - length s') s) # cs"
    unfolding rxm_piece [OF assms] by auto
  then show "(b', s', cs') \<in> set (rxm (RCap n r) (b, s, cs))" by force
qed

lemma rxm_seq_mem:
  "p \<in> set (rxm (RSeq r1 r2) st) \<longleftrightarrow> (\<exists>b s cs. (b, s, cs) \<in> set (rxm r1 st) \<and> p \<in> set (rxm r2 (b, s, cs)))"
  by auto

lemma rxm_alt_mem: "p \<in> set (rxm (RAlt r1 r2) st) \<longleftrightarrow> p \<in> set (rxm r1 st) \<or> p \<in> set (rxm r2 st)"
  by auto

lemma rx_at_mem: "rx_at r b s = Some st \<Longrightarrow> st \<in> set (rxm r (b, s, []))"
  by (auto simp: rx_at_def simp del: rxm.simps split: list.splits)

lemma rx_exec_anchored:
  assumes "rx_exec (rx_anchored r) s = Some m"
  shows "fst m = s" "\<exists>b. (b, [], snd m) \<in> set (rxm r ([], s, []))"
proof -
  obtain b' s' cs where at: "rx_at (RSeq r REol) [] s = Some (b', s', cs)"
    and m: "m = (take (length s - length s') s, cs)"
    using assms by (auto simp: rx_exec_def rx_anchored_def rx_search_Bol_start split: option.splits prod.splits)
  then have "(b', s', cs) \<in> set (rxm (RSeq r REol) ([], s, []))"
    by (intro rx_at_mem)
  then have "s' = []" "(b', s', cs) \<in> set (rxm r ([], s, []))"
    by (auto split: if_splits)
  with m show "fst m = s" "\<exists>b. (b, [], snd m) \<in> set (rxm r ([], s, []))" by auto
qed

lemma rx_exec_anchored_None:
  "rx_exec (rx_anchored r) s = None \<longleftrightarrow> (\<forall>b cs. (b, [], cs) \<notin> set (rxm r ([], s, [])))"
proof -
  have "rx_exec (rx_anchored r) s = None \<longleftrightarrow> rxm (RSeq r REol) ([], s, []) = []"
    by (auto simp: rx_exec_def rx_anchored_def rx_search_Bol_start rx_at_def
        simp del: rxm.simps split: option.splits list.splits)
  also have "\<dots> \<longleftrightarrow> (\<forall>b cs. (b, [], cs) \<notin> set (rxm r ([], s, [])))"
    by (force simp: filter_empty_conv concat_eq_Nil_conv split: if_splits)
  finally show ?thesis .
qed

text \<open>Rules that read a sequence from left to right.\<close>

lemma rxm_seq_piece:
  assumes "anchor_free r1" "no_cap r1"
  shows "p \<in> set (rxm (RSeq r1 r2) (b, s, cs)) \<longleftrightarrow>
    (\<exists>w t. w \<in> rlang r1 \<and> s = w @ t \<and> p \<in> set (rxm r2 (rev w @ b, t, cs)))"
  unfolding rxm_seq_mem rxm_piece [OF assms] by blast

lemma rxm_seq_cap:
  assumes "anchor_free r1" "no_cap r1"
  shows "p \<in> set (rxm (RSeq (RCap n r1) r2) (b, s, cs)) \<longleftrightarrow>
    (\<exists>w t. w \<in> rlang r1 \<and> s = w @ t \<and> p \<in> set (rxm r2 (rev w @ b, t, (n, w) # cs)))"
  unfolding rxm_seq_mem rxm_cap_piece [OF assms] by blast

lemma rxm_seq_lit:
  "p \<in> set (rxm (RSeq (rx_lit l) r2) (b, s, cs)) \<longleftrightarrow>
    (\<exists>t. s = l @ t \<and> p \<in> set (rxm r2 (rev l @ b, t, cs)))"
  by (simp add: rxm_seq_piece del: rxm.simps rx_lit.simps)

lemma rxm_seq_alt:
  "p \<in> set (rxm (RSeq (RAlt r1 r2) r3) st) \<longleftrightarrow> p \<in> set (rxm (RSeq r1 r3) st) \<or> p \<in> set (rxm (RSeq r2 r3) st)"
  by auto

lemma rxm_seq_assoc:
  "p \<in> set (rxm (RSeq (RSeq r1 r2) r3) st) \<longleftrightarrow> p \<in> set (rxm (RSeq r1 (RSeq r2 r3)) st)"
  by auto

section \<open>Unanchored tests\<close>

text \<open>An unanchored pattern tests positive exactly when a word of its language occurs.\<close>

lemma ex_append_Cons: "(\<exists>u v. c # s = u @ v \<and> P (rev u @ b) v) \<longleftrightarrow> P b (c # s) \<or> (\<exists>u v. s = u @ v \<and> P (rev (c # u) @ b) v)"
proof
  assume "\<exists>u v. c # s = u @ v \<and> P (rev u @ b) v"
  then obtain u v where "c # s = u @ v" "P (rev u @ b) v" by blast
  then show "P b (c # s) \<or> (\<exists>u v. s = u @ v \<and> P (rev (c # u) @ b) v)" by (cases u) auto
next
  assume "P b (c # s) \<or> (\<exists>u v. s = u @ v \<and> P (rev (c # u) @ b) v)"
  then show "\<exists>u v. c # s = u @ v \<and> P (rev u @ b) v"
  proof (elim disjE exE conjE)
    assume "P b (c # s)"
    then show ?thesis by (intro exI [of _ "[]"] exI [of _ "c # s"]) simp
  next
    fix u v
    assume "s = u @ v" "P (rev (c # u) @ b) v"
    then show ?thesis by (intro exI [of _ "c # u"] exI [of _ v]) simp
  qed
qed

lemma rx_search_iff: "rx_search r b s \<noteq> None \<longleftrightarrow> (\<exists>u v. s = u @ v \<and> rxm r (rev u @ b, v, []) \<noteq> [])"
proof (induction r b s rule: rx_search.induct)
  case (1 r b)
  then show ?case by (simp add: rx_at_None)
next
  case (2 r b c s)
  show ?case
  proof (cases "rx_at r b (c # s)")
    case None
    then have "rxm r (b, c # s, []) = []" by (simp add: rx_at_None)
    moreover have "rx_search r (c # b) s \<noteq> None \<longleftrightarrow> (\<exists>u v. s = u @ v \<and> rxm r (rev u @ c # b, v, []) \<noteq> [])"
      using 2 None by blast
    moreover have "(\<exists>u v. c # s = u @ v \<and> rxm r (rev u @ b, v, []) \<noteq> [])
        \<longleftrightarrow> rxm r (b, c # s, []) \<noteq> [] \<or> (\<exists>u v. s = u @ v \<and> rxm r (rev (c # u) @ b, v, []) \<noteq> [])"
      by (rule ex_append_Cons [where P = "\<lambda>b v. rxm r (b, v, []) \<noteq> []"])
    ultimately show ?thesis using None by (simp add: append_assoc)
  next
    case (Some st)
    then have "rxm r (rev [] @ b, c # s, []) \<noteq> []" using rx_at_None [of r b "c # s"] by simp
    then show ?thesis using Some by (metis append_Nil option.distinct(1) rx_search.simps(2) option.simps(5))
  qed
qed

lemma rx_test_lang:
  assumes "anchor_free r"
  shows "rx_test r s \<longleftrightarrow> (\<exists>w \<in> rlang r. sublist w s)"
proof
  assume "rx_test r s"
  then obtain u v where s: "s = u @ v" and ne: "rxm r (rev u, v, []) \<noteq> []"
    using rx_search_iff [of r "[]" s] by (auto simp: rx_test_def)
  then obtain b' s' cs' where m: "(b', s', cs') \<in> set (rxm r (rev u, v, []))" by (metis list.set_sel(1) prod_cases3)
  then obtain w where w: "v = w @ s'" "b' = rev w @ rev u" by (rule rxm_split)
  then have "w \<in> rlang r" using m recogD [OF rxm_lang [OF assms], where w = w and b = "rev u" and s = s'] by blast
  then show "\<exists>w \<in> rlang r. sublist w s" using s w by (auto simp: sublist_def)
next
  assume "\<exists>w \<in> rlang r. sublist w s"
  then obtain w u t where w: "w \<in> rlang r" "s = u @ w @ t" by (auto simp: sublist_def)
  then have "rxm r (rev u @ [], w @ t, []) \<noteq> []"
    using recogD [OF rxm_lang [OF assms], where w = w and b = "rev u" and s = t and cs = "[]"] by fastforce
  then show "rx_test r s" using w(2) rx_search_iff [of r "[]" s] by (auto simp: rx_test_def)
qed

end
