(* ===== verification/Runner_Core.thy ===== *)
theory Runner_Core
  imports JS_Value JS_Regex
begin

text \<open>
  The parser of synthetic post-filter commands, \<open>app/static/js/core/runner_core.js\<close>: a
  command line \<open>base | stage | ... > path\<close> whose stages (grep, head, tail, wc -l, sort, uniq,
  jq) run in the browser over the lines the base command printed. Three outcomes are
  distinguished as in the code: \<open>false\<close> when the line has neither \<open>|\<close> nor \<open>>\<close>, \<open>null\<close> when
  it has one but is refused, and a parsed specification.
\<close>

section \<open>Durations\<close>

definition formatElapsed :: "rat \<Rightarrow> string" where
  "formatElapsed totalSecs =
     (if totalSecs < 60 then toFixed 1 totalSecs @ ''s''
      else let h = \<lfloor>totalSecs / 3600\<rfloor>;
               m = \<lfloor>(totalSecs - of_int (3600 * \<lfloor>totalSecs / 3600\<rfloor>)) / 60\<rfloor>;
               s = toFixed 1 (totalSecs - of_int (60 * \<lfloor>totalSecs / 60\<rfloor>))
           in if h > 0 then int_str h @ ''h '' @ int_str m @ ''m '' @ s @ ''s''
              else int_str m @ ''m '' @ s @ ''s'')"

section \<open>Tokens\<close>

definition isQuotedToken :: "string \<Rightarrow> bool" where
  "isQuotedToken value =
     (if length value < 2 then False
      else (hd value = DQ \<or> hd value = SQ) \<and> last value = hd value)"

definition unquoteToken :: "string \<Rightarrow> string" where
  "unquoteToken value =
     (if length value \<ge> 2 \<and> (hd value = DQ \<or> hd value = SQ) \<and> last value = hd value
      then slice 1 (length value - 1) value else value)"

definition isValidOutputSinkPath :: "string \<Rightarrow> bool" where
  "isValidOutputSinkPath path =
     (if path = [] \<or> path \<noteq> trim path \<or> startsWith path ''/'' \<or> str_includes path [BSL] then False
      else if list_ex (\<lambda>c. (of_char c :: nat) < 32) path then False
      else let parts = split_on CHR ''/'' path in
        parts \<noteq> [] \<and>
        list_all (\<lambda>part. part \<noteq> [] \<and> part \<noteq> ''.'' \<and> part \<noteq> ''..'' \<and> length part \<le> 255) parts)"

section \<open>JSON selectors\<close>

datatype selector =
    SelIdentity
  | SelField "string list"
  | SelIterate "string list"
  | SelHas "string list"
  | SelEq "string list" string
  | SelContains "string list" string

definition jsonSelectorPath :: "string \<Rightarrow> string list" where
  "jsonSelectorPath value = filter nonempty (split_on CHR ''.'' value)"

definition name_head :: rx where
  "name_head = RChr (\<lambda>c. is_alpha c \<or> c = CHR ''_'')"

definition name_rest :: rx where
  "name_rest = rx_star (RChr (\<lambda>c. is_alnum c \<or> c = CHR ''_'' \<or> c = CHR ''-''))"

definition path_rest :: rx where
  "path_rest = rx_star (RChr (\<lambda>c. is_alnum c \<or> c = CHR ''_'' \<or> c = CHR ''.'' \<or> c = CHR ''-''))"

definition unsafe_selector_re :: rx where
  "unsafe_selector_re = RChr (\<lambda>c. c = BTICK \<or> c = CHR '';'' \<or> c = CHR ''{'' \<or> c = CHR ''}''
     \<or> c = CHR ''$'' \<or> c = BSL)"

definition quoted_value :: rx where
  "quoted_value = rx_seq [rx_lit [DQ], RCap 2 (rx_rep 0 200 (RChr (\<lambda>c. c \<noteq> DQ))), rx_lit [DQ]]"

definition has_re :: rx where
  "has_re = rx_anchored (rx_seq
     [rx_lit ''select(has('', rx_lit [DQ], RCap 1 (RSeq name_head name_rest), rx_lit [DQ], rx_lit ''))''])"

definition eq_re :: rx where
  "eq_re = rx_anchored (rx_seq
     [rx_lit ''select(.'', RCap 1 (RSeq name_head path_rest), rx_star rx_ws, rx_lit ''=='',
      rx_star rx_ws, quoted_value, rx_lit '')''])"

definition contains_re :: rx where
  "contains_re = rx_anchored (rx_seq
     [rx_lit ''select(.'', RCap 1 (RSeq name_head path_rest), rx_plus rx_ws, rx_lit ''contains'',
      rx_plus rx_ws, quoted_value, rx_lit '')''])"

definition field_re :: rx where
  "field_re = rx_anchored (rx_seq
     [rx_lit ''.'', RCap 1 (RSeq name_head path_rest), rx_opt (RCap 2 (rx_lit ''[]''))])"

definition parseJsonSelectorExpression :: "string \<Rightarrow> selector option" where
  "parseJsonSelectorExpression expression =
     (let text = trim expression in
      if text = [] \<or> length text > 160 then None
      else if rx_test unsafe_selector_re text then None
      else case rx_exec has_re text of
        Some m \<Rightarrow> Some (SelHas [rx_group_str m 1])
      | None \<Rightarrow> (case rx_exec eq_re text of
        Some m \<Rightarrow> Some (SelEq (jsonSelectorPath (rx_group_str m 1)) (rx_group_str m 2))
      | None \<Rightarrow> (case rx_exec contains_re text of
        Some m \<Rightarrow> Some (SelContains (jsonSelectorPath (rx_group_str m 1)) (rx_group_str m 2))
      | None \<Rightarrow>
        if text = ''.'' then Some SelIdentity
        else if text = ''.[]'' then Some (SelIterate [])
        else (case rx_exec field_re text of
          Some m \<Rightarrow>
            let path = jsonSelectorPath (rx_group_str m 1) in
            if path = [] then None
            else if rx_group_str m 2 \<noteq> [] then Some (SelIterate path) else Some (SelField path)
        | None \<Rightarrow> None))))"

section \<open>Stages\<close>

datatype stage =
    StGrep (pattern: string) (ignoreCase: bool) (invertMatch: bool) (extended: bool)
  | StHead nat
  | StTail nat
  | StWcL
  | StSort (sort_reverse: bool) (sort_numeric: bool) (sort_unique: bool)
  | StUniq bool
  | StJq selector (jq_raw: bool) (jq_compact: bool)

fun stage_kind :: "stage \<Rightarrow> string" where
  "stage_kind (StGrep p i v e) = ''grep''"
| "stage_kind (StHead n) = ''head''"
| "stage_kind (StTail n) = ''tail''"
| "stage_kind StWcL = ''wc_l''"
| "stage_kind (StSort r n u) = ''sort''"
| "stage_kind (StUniq c) = ''uniq''"
| "stage_kind (StJq s r c) = ''jq''"

record grep_options =
  opt_ignoreCase :: bool
  opt_invertMatch :: bool
  opt_extended :: bool

text \<open>The flags of one \<open>-ivE\<close> token; any other letter refuses the stage.\<close>

fun grep_flags :: "string \<Rightarrow> grep_options \<Rightarrow> grep_options option" where
  "grep_flags [] opts = Some opts"
| "grep_flags (f # fs) opts =
     (if f = CHR ''i'' then grep_flags fs (opts\<lparr>opt_ignoreCase := True\<rparr>)
      else if f = CHR ''v'' then grep_flags fs (opts\<lparr>opt_invertMatch := True\<rparr>)
      else if f = CHR ''E'' then grep_flags fs (opts\<lparr>opt_extended := True\<rparr>)
      else None)"

definition short_flag_re :: rx where
  "short_flag_re = RSeq RBol (RSeq (rx_lit ''-'') (RChr (\<lambda>c. c \<noteq> CHR ''-'')))"

text \<open>The argument loop of \<open>grep\<close>, over the raw tokens that remain.\<close>

fun grep_args :: "string list \<Rightarrow> string option \<Rightarrow> grep_options \<Rightarrow> stage option" where
  "grep_args [] pat opts = (case pat of
       None \<Rightarrow> None
     | Some p \<Rightarrow> Some (StGrep p (opt_ignoreCase opts) (opt_invertMatch opts) (opt_extended opts)))"
| "grep_args (raw # rest) pat opts =
     (let token = unquoteToken raw in
      if pat \<noteq> None then None
      else if isQuotedToken raw then grep_args rest (Some token) opts
      else if token = ''--'' \<or> token = ''-e''
      then (case rest of [] \<Rightarrow> None | next # rest' \<Rightarrow> grep_args rest' (Some (unquoteToken next)) opts)
      else if rx_test short_flag_re token
      then (case grep_flags (drop 1 token) opts of None \<Rightarrow> None | Some opts' \<Rightarrow> grep_args rest pat opts')
      else grep_args rest (Some token) opts)"

definition dash_digits_re :: rx where
  "dash_digits_re = rx_anchored (RSeq (rx_lit ''-'') (rx_plus rx_digit))"

definition digits_re :: rx where
  "digits_re = rx_anchored (rx_plus rx_digit)"

definition sort_flag_re :: rx where
  "sort_flag_re = rx_anchored (RSeq (rx_lit ''-'')
     (rx_plus (RChr (\<lambda>c. c = CHR ''r'' \<or> c = CHR ''n'' \<or> c = CHR ''u''))))"

text \<open>The argument loop of \<open>jq\<close>.\<close>

definition isRawFlag :: "string \<Rightarrow> bool" where
  "isRawFlag token \<longleftrightarrow> token = ''-r'' \<or> token = ''--raw-output''"

definition isCompactFlag :: "string \<Rightarrow> bool" where
  "isCompactFlag token \<longleftrightarrow> token = ''-c'' \<or> token = ''--compact-output''"

fun jq_args :: "string list \<Rightarrow> string option \<Rightarrow> bool \<Rightarrow> bool \<Rightarrow> (string option \<times> bool \<times> bool) option" where
  "jq_args [] expr raw cpt = Some (expr, raw, cpt)"
| "jq_args (token # rest) expr raw cpt =
     (if isRawFlag token then jq_args rest expr True cpt
      else if isCompactFlag token then jq_args rest expr raw True
      else if expr \<noteq> None then None
      else jq_args rest (Some token) raw cpt)"

definition head_tail_count :: "string list \<Rightarrow> nat option" where
  "head_tail_count toks = (case toks of
       [_] \<Rightarrow> Some 10
     | [_, a] \<Rightarrow> if rx_test dash_digits_re a then Some (digits_value 0 (drop 1 a)) else None
     | [_, a, b] \<Rightarrow> if a = ''-n'' \<and> rx_test digits_re b then Some (digits_value 0 b) else None
     | _ \<Rightarrow> None)"

definition parseStage :: "string list \<Rightarrow> stage option" where
  "parseStage stageTokens =
     (if stageTokens = [] then None
      else
        let toks = map unquoteToken stageTokens;
            helper = toLowerCase (hd toks)
        in
        if helper = ''grep''
        then grep_args (tl stageTokens) None
               \<lparr>opt_ignoreCase = False, opt_invertMatch = False, opt_extended = False\<rparr>
        else if helper = ''head'' then map_option StHead (head_tail_count toks)
        else if helper = ''tail'' then map_option StTail (head_tail_count toks)
        else if helper = ''wc'' then (if tl toks = [''-l''] then Some StWcL else None)
        else if helper = ''sort'' then
          (case tl toks of
             [] \<Rightarrow> Some (StSort False False False)
           | [flag] \<Rightarrow>
               let chars = drop 1 flag in
               if rx_test sort_flag_re flag \<and> length (dedup chars) = length flag - 1
               then Some (StSort (CHR ''r'' \<in> set chars) (CHR ''n'' \<in> set chars) (CHR ''u'' \<in> set chars))
               else None
           | _ \<Rightarrow> None)
        else if helper = ''uniq'' then
          (if tl toks = [] then Some (StUniq False)
           else if tl toks = [''-c''] then Some (StUniq True) else None)
        else if helper = ''jq'' then
          (case jq_args (tl toks) None False False of
             None \<Rightarrow> None
           | Some (expr, raw, cpt) \<Rightarrow>
               (case parseJsonSelectorExpression (case expr of None \<Rightarrow> [] | Some e \<Rightarrow> e) of
                  None \<Rightarrow> None
                | Some sel \<Rightarrow> Some (StJq sel raw cpt)))
        else None)"

section \<open>Commands\<close>

datatype sink = SinkAppend string | SinkRedirect string | SinkTee string

fun sink_path :: "sink \<Rightarrow> string" where
  "sink_path (SinkAppend p) = p"
| "sink_path (SinkRedirect p) = p"
| "sink_path (SinkTee p) = p"

fun sink_kind :: "sink \<Rightarrow> string" where
  "sink_kind (SinkAppend p) = ''append''"
| "sink_kind (SinkRedirect p) = ''redirect''"
| "sink_kind (SinkTee p) = ''tee''"

record spec =
  spec_kind :: string
  baseCommand :: string
  stages :: "stage list"
  spec_sink :: "sink option"

text \<open>The three results of the parser: \<open>false\<close>, \<open>null\<close> and an object.\<close>

datatype parse_result = NotSynthetic | Refused | Parsed spec

definition token_re :: rx where
  "token_re = rx_alt
     [rx_seq [rx_lit [DQ], rx_star (RChr (\<lambda>c. c \<noteq> DQ)), rx_lit [DQ]],
      rx_seq [rx_lit [SQ], rx_star (RChr (\<lambda>c. c \<noteq> SQ)), rx_lit [SQ]],
      rx_lit ''&&'',
      RSeq (rx_lit ''|'') (rx_opt (rx_lit ''|'')),
      RSeq (rx_lit '';'') (rx_opt (rx_lit '';'')),
      RSeq (rx_lit ''>'') (rx_opt (rx_lit ''>'')),
      rx_lit ''<'',
      rx_plus (RChr (\<lambda>c. \<not> is_ws c \<and> c \<notin> set ''|&;<>''))]"

definition numbered_redirect_re :: rx where
  "numbered_redirect_re = rx_seq
     [RAlt RBol rx_ws, rx_plus rx_digit, rx_lit ''>'', rx_opt (rx_lit ''>'')]"

definition shell_tokens :: "string \<Rightarrow> string list" where
  "shell_tokens cmd = map fst (rx_matchAll token_re cmd)"

definition refused_tokens :: "string list" where
  "refused_tokens = [''&&'', ''||'', '';'', '';;'', ''<'', ''&'']"

text \<open>The positions of the tokens that satisfy a predicate.\<close>

definition token_indexes :: "(string \<Rightarrow> bool) \<Rightarrow> string list \<Rightarrow> nat list" where
  "token_indexes p tokens = filter (\<lambda>i. p (tokens ! i)) [0..<length tokens]"

text \<open>The redirect at the end of the line: \<open>None\<close> refuses the command, otherwise the sink
  and the tokens before it.\<close>

definition parse_redirect :: "string list \<Rightarrow> (sink option \<times> string list) option" where
  "parse_redirect tokens =
     (case token_indexes (\<lambda>t. t \<in> {''>'', ''>>''}) tokens of
        [] \<Rightarrow> Some (None, tokens)
      | i # others \<Rightarrow>
          if others \<noteq> [] \<or> i = 0 \<or> i + 2 \<noteq> length tokens then None
          else let path = trim (unquoteToken (last tokens)) in
            if \<not> isValidOutputSinkPath path then None
            else Some (Some (if tokens ! i = ''>>'' then SinkAppend path else SinkRedirect path),
                       take i tokens))"

text \<open>The loop over the ends of the stages; a \<open>tee\<close> stage is only allowed as the last one.\<close>

fun parse_stages ::
  "string list \<Rightarrow> nat \<Rightarrow> nat list \<Rightarrow> stage list \<Rightarrow> sink option \<Rightarrow> (stage list \<times> sink option) option" where
  "parse_stages tokens start [] acc snk = Some (acc, snk)"
| "parse_stages tokens start (e # ends) acc snk =
     (let stageTokens = slice start e tokens;
          helper = toLowerCase (unquoteToken (case stageTokens of [] \<Rightarrow> [] | t # _ \<Rightarrow> t))
      in if helper = ''tee''
         then (if snk \<noteq> None \<or> ends \<noteq> [] \<or> length stageTokens \<noteq> 2 then None
               else let path = trim (unquoteToken (stageTokens ! 1)) in
                 if \<not> isValidOutputSinkPath path then None
                 else parse_stages tokens (Suc e) ends acc (Some (SinkTee path)))
         else (case parseStage stageTokens of
             None \<Rightarrow> None
           | Some st \<Rightarrow> parse_stages tokens (Suc e) ends (acc @ [st]) snk))"

definition first_kind :: "stage list \<Rightarrow> sink option \<Rightarrow> string" where
  "first_kind sts snk = (case sts of
       st # _ \<Rightarrow> stage_kind st
     | [] \<Rightarrow> (case snk of Some k \<Rightarrow> sink_kind k | None \<Rightarrow> []))"

text \<open>From the end of the redirect check on: the pipes, the stages and the result object.\<close>

definition parse_pipeline :: "sink option \<Rightarrow> string list \<Rightarrow> parse_result" where
  "parse_pipeline snk toks =
     (let pipes = token_indexes (\<lambda>t. t = ''|'') toks in
      if (pipes = [] \<and> snk = None) \<or> (pipes \<noteq> [] \<and> hd pipes = 0) then Refused
      else (case (if pipes = [] then Some ([], snk)
                  else parse_stages toks (Suc (hd pipes)) (tl pipes @ [length toks]) [] snk) of
              None \<Rightarrow> Refused
            | Some (sts, snk') \<Rightarrow>
                Parsed \<lparr>spec_kind = first_kind sts snk',
                        baseCommand = join '' '' (map unquoteToken
                          (take (if pipes = [] then length toks else hd pipes) toks)),
                        stages = sts,
                        spec_sink = snk'\<rparr>))"

definition parse_tokens :: "string list \<Rightarrow> parse_result" where
  "parse_tokens tokens =
     (if tokens = [] then Refused
      else if list_ex (\<lambda>t. t \<in> set refused_tokens) tokens then Refused
      else (case parse_redirect tokens of
          None \<Rightarrow> Refused
        | Some (snk, toks) \<Rightarrow> parse_pipeline snk toks))"

definition parseSyntheticPostFilterCommand :: "string \<Rightarrow> parse_result" where
  "parseSyntheticPostFilterCommand cmd =
     (if cmd = [] \<or> (\<not> str_includes cmd ''|'' \<and> \<not> str_includes cmd ''>'') then NotSynthetic
      else if str_includes cmd [BTICK] \<or> str_includes cmd ''$('' then Refused
      else if rx_test numbered_redirect_re cmd then Refused
      else parse_tokens (shell_tokens cmd))"

definition isSyntheticPostFilterCommand :: "string \<Rightarrow> bool" where
  "isSyntheticPostFilterCommand cmd =
     (case parseSyntheticPostFilterCommand cmd of Parsed _ \<Rightarrow> True | _ \<Rightarrow> False)"

definition parsed_kind_is :: "string \<Rightarrow> string \<Rightarrow> bool" where
  "parsed_kind_is cmd k =
     (case parseSyntheticPostFilterCommand cmd of Parsed sp \<Rightarrow> spec_kind sp = k | _ \<Rightarrow> False)"

definition isSyntheticSortCommand :: "string \<Rightarrow> bool" where
  "isSyntheticSortCommand cmd = parsed_kind_is cmd ''sort''"

definition isSyntheticUniqCommand :: "string \<Rightarrow> bool" where
  "isSyntheticUniqCommand cmd = parsed_kind_is cmd ''uniq''"

definition isSyntheticGrepCommand :: "string \<Rightarrow> bool" where
  "isSyntheticGrepCommand cmd = parsed_kind_is cmd ''grep''"

definition isSyntheticHeadCommand :: "string \<Rightarrow> bool" where
  "isSyntheticHeadCommand cmd = parsed_kind_is cmd ''head''"

definition isSyntheticTailCommand :: "string \<Rightarrow> bool" where
  "isSyntheticTailCommand cmd = parsed_kind_is cmd ''tail''"

definition isSyntheticWcLineCountCommand :: "string \<Rightarrow> bool" where
  "isSyntheticWcLineCountCommand cmd = parsed_kind_is cmd ''wc_l''"

definition isSyntheticJqCommand :: "string \<Rightarrow> bool" where
  "isSyntheticJqCommand cmd = parsed_kind_is cmd ''jq''"

section \<open>Sink paths\<close>

text \<open>The reference notion of a path inside the workspace: segments joined by slashes, none of
  them empty, \<open>.\<close> or \<open>..\<close>, no control character and no backslash.\<close>

definition inside_workspace :: "string \<Rightarrow> bool" where
  "inside_workspace p \<longleftrightarrow> trimmed p \<and>
     (\<forall>c \<in> set p. 32 \<le> (of_char c :: nat) \<and> c \<noteq> BSL) \<and>
     (\<exists>parts. parts \<noteq> [] \<and> p = join ''/'' parts \<and>
        (\<forall>part \<in> set parts. CHR ''/'' \<notin> set part \<and> part \<notin> {[], ''.'', ''..''} \<and> length part \<le> 255))"

lemma isValidOutputSinkPath_iff: "isValidOutputSinkPath p \<longleftrightarrow> inside_workspace p"
proof
  assume v: "isValidOutputSinkPath p"
  then have parts: "\<forall>part \<in> set (split_on CHR ''/'' p).
      CHR ''/'' \<notin> set part \<and> part \<notin> {[], ''.'', ''..''} \<and> length part \<le> 255"
    by (auto simp: isValidOutputSinkPath_def Let_def list_all_iff split_on_pieces split: if_splits)
  have "trim p = p"
    using v by (auto simp: isValidOutputSinkPath_def split: if_splits)
  then have "trimmed p"
    using trimmed_trim [of p] by simp
  moreover have "\<forall>c \<in> set p. 32 \<le> (of_char c :: nat) \<and> c \<noteq> BSL"
    using v
    by (auto simp: isValidOutputSinkPath_def list_ex_iff str_includes_single not_less split: if_splits)
  ultimately show "inside_workspace p"
    unfolding inside_workspace_def
    by (intro conjI exI [of _ "split_on CHR ''/'' p"] parts)
       (simp_all only: join_split_on split_on_not_Nil not_False_eq_True)
next
  assume iw: "inside_workspace p"
  then have tr: "trimmed p" and ch: "\<forall>c \<in> set p. 32 \<le> (of_char c :: nat) \<and> c \<noteq> BSL"
    unfolding inside_workspace_def by blast+
  from iw obtain parts where parts: "parts \<noteq> []" "p = join ''/'' parts"
    "\<forall>part \<in> set parts. CHR ''/'' \<notin> set part \<and> part \<notin> {[], ''.'', ''..''} \<and> length part \<le> 255"
    unfolding inside_workspace_def by blast
  have split: "split_on CHR ''/'' p = parts"
    using split_on_join [OF parts(1), of "CHR ''/''"] parts by simp
  have "p \<noteq> []"
    using join_eq_Nil [of parts "''/''"] parts by auto
  moreover have "\<not> startsWith p ''/''"
  proof
    assume "startsWith p ''/''"
    then have "\<exists>t. p = CHR ''/'' # t" by (cases p) auto
    then have "hd (split_on CHR ''/'' p) = []" by auto
    then show False using split parts by (cases parts) auto
  qed
  moreover have "trim p = p"
    using tr by (rule trim_id)
  moreover have "BSL \<notin> set p"
    using ch by blast
  moreover have "\<not> list_ex (\<lambda>c. (of_char c :: nat) < 32) p"
    unfolding list_ex_iff using ch by (meson not_less)
  moreover have "list_all (\<lambda>part. part \<noteq> [] \<and> part \<noteq> ''.'' \<and> part \<noteq> ''..'' \<and> length part \<le> 255)
      (split_on CHR ''/'' p)"
    using parts(3) split by (simp add: list_all_iff)
  ultimately show "isValidOutputSinkPath p"
    by (simp add: isValidOutputSinkPath_def str_includes_single)
qed

section \<open>What a parsed command looks like\<close>

lemma parse_redirect_sink:
  "parse_redirect tokens = Some (Some k, toks) \<Longrightarrow> isValidOutputSinkPath (sink_path k)"
  by (auto simp: parse_redirect_def Let_def split: list.splits if_splits)

lemma parse_redirect_prefix: "parse_redirect tokens = Some (snk, toks) \<Longrightarrow> prefix toks tokens"
  by (auto simp: parse_redirect_def Let_def take_is_prefix split: list.splits if_splits)

lemma parse_stages_sink:
  "parse_stages tokens start ends acc snk = Some (sts, Some k) \<Longrightarrow>
   (\<forall>k'. snk = Some k' \<longrightarrow> isValidOutputSinkPath (sink_path k')) \<Longrightarrow> isValidOutputSinkPath (sink_path k)"
  by (induction tokens start ends acc snk rule: parse_stages.induct)
     (auto simp: Let_def split: if_splits option.splits)

text \<open>The number of stages: one per \<open>|\<close>, less a \<open>tee\<close>.\<close>

lemma parse_stages_length:
  "parse_stages tokens start ends acc snk = Some (sts, snk') \<Longrightarrow>
   length sts + (case (snk, snk') of (None, Some _) \<Rightarrow> 1 | _ \<Rightarrow> 0) = length acc + length ends"
  by (induction tokens start ends acc snk rule: parse_stages.induct)
     (auto simp: Let_def split: if_splits option.splits)

lemma parse_stages_result:
  assumes "parse_stages tokens start ends acc snk = Some (sts, snk')" "ends \<noteq> []"
  shows "sts \<noteq> [] \<or> snk' \<noteq> None"
  using parse_stages_length [OF assms(1)] assms(2) by (auto split: option.splits)

lemma parse_pipelineE:
  assumes "parse_pipeline snk toks = Parsed sp"
  obtains "token_indexes (\<lambda>t. t = ''|'') toks = []" "snk \<noteq> None"
      "stages sp = []" "spec_sink sp = snk" "baseCommand sp = join '' '' (map unquoteToken toks)"
      "spec_kind sp = first_kind [] snk"
    | i pipes where "token_indexes (\<lambda>t. t = ''|'') toks = Suc i # pipes"
      "parse_stages toks (Suc (Suc i)) (pipes @ [length toks]) [] snk = Some (stages sp, spec_sink sp)"
      "baseCommand sp = join '' '' (map unquoteToken (take (Suc i) toks))"
      "spec_kind sp = first_kind (stages sp) (spec_sink sp)"
proof (cases "token_indexes (\<lambda>t. t = ''|'') toks")
  case Nil
  with assms that(1) show thesis
    by (auto simp: parse_pipeline_def split: if_splits)
next
  case (Cons j pipes)
  then obtain i where "j = Suc i"
    using assms by (cases j) (simp_all add: parse_pipeline_def)
  with Cons assms that(2) show thesis
    by (auto simp: parse_pipeline_def Let_def split: if_splits option.splits)
qed

lemma parse_ParsedE:
  assumes "parseSyntheticPostFilterCommand cmd = Parsed sp"
  obtains snk toks where
    "BTICK \<notin> set cmd" "\<not> str_includes cmd ''$(''"
    "\<forall>t \<in> set (shell_tokens cmd). t \<notin> set refused_tokens"
    "parse_redirect (shell_tokens cmd) = Some (snk, toks)"
    "parse_pipeline snk toks = Parsed sp"
proof -
  have guard: "\<not> str_includes cmd [BTICK]" "\<not> str_includes cmd ''$(''"
    and pt: "parse_tokens (shell_tokens cmd) = Parsed sp"
    using assms unfolding parseSyntheticPostFilterCommand_def by (metis parse_result.distinct)+
  from pt have "\<forall>t \<in> set (shell_tokens cmd). t \<notin> set refused_tokens"
    by (auto simp: parse_tokens_def list_ex_iff split: if_splits)
  moreover from pt obtain snk toks where "parse_redirect (shell_tokens cmd) = Some (snk, toks)"
    "parse_pipeline snk toks = Parsed sp"
    by (auto simp: parse_tokens_def split: if_splits option.splits)
  ultimately show thesis
    using guard that by (simp add: str_includes_single)
qed

lemma stage_kind_nonempty [simp]: "stage_kind st \<noteq> []"
  by (cases st) auto

lemma sink_kind_nonempty [simp]: "sink_kind k \<noteq> []"
  by (cases k) auto

lemma parsed_sink_valid:
  assumes "parseSyntheticPostFilterCommand cmd = Parsed sp" "spec_sink sp = Some k"
  shows "isValidOutputSinkPath (sink_path k)"
  using assms(1)
proof (rule parse_ParsedE)
  fix snk toks
  assume r: "parse_redirect (shell_tokens cmd) = Some (snk, toks)"
    and st: "parse_pipeline snk toks = Parsed sp"
  have "\<forall>k'. snk = Some k' \<longrightarrow> isValidOutputSinkPath (sink_path k')"
    using r parse_redirect_sink by blast
  then show ?thesis
    using st assms(2) by (auto elim!: parse_pipelineE dest: parse_stages_sink)
qed

text \<open>\<^bold>\<open>C1.\<close> A command that is accepted with an output sink (\<open>>\<close>, \<open>>>\<close> or \<open>tee\<close>) writes to a path
  inside the workspace: relative, no empty, \<open>.\<close> or \<open>..\<close> segment, no backslash and no control
  character. No quoting, spacing or position of the redirect gets around the check.\<close>

theorem parsed_sink_inside_workspace:
  assumes "parseSyntheticPostFilterCommand cmd = Parsed sp"
    and "spec_sink sp = Some k"
  shows "inside_workspace (sink_path k)"
  using parsed_sink_valid [OF assms] by (simp add: isValidOutputSinkPath_iff)

theorem parsed_sink_inside_workspace_witness:
  "parseSyntheticPostFilterCommand ''ls | grep a >> out/f.txt'' =
     Parsed \<lparr>spec_kind = ''grep'', baseCommand = ''ls'', stages = [StGrep ''a'' False False False],
       spec_sink = Some (SinkAppend ''out/f.txt'')\<rparr> \<and> inside_workspace ''out/f.txt''"
proof -
  have p: "parseSyntheticPostFilterCommand ''ls | grep a >> out/f.txt'' =
     Parsed \<lparr>spec_kind = ''grep'', baseCommand = ''ls'', stages = [StGrep ''a'' False False False],
       spec_sink = Some (SinkAppend ''out/f.txt'')\<rparr>"
    by code_simp
  from parsed_sink_inside_workspace [OF p, of "SinkAppend ''out/f.txt''"] show ?thesis
    using p by simp
qed

end
