(* ===== verification/Runner_Roundtrip.thy ===== *)
theory Runner_Roundtrip
  imports Runner_Core
begin

text \<open>
  The command-line parser of \<open>Runner_Core\<close> inverts a printer: tokens joined by blanks are
  tokenised back, and a printed pipeline of stages and a sink parses to itself. The printer is
  the reference here; it has no counterpart in the code.
\<close>

section \<open>Tokenising\<close>

definition plain_word :: "string \<Rightarrow> bool" where
  "plain_word t \<longleftrightarrow> t \<noteq> [] \<and> (\<forall>c \<in> set t. \<not> is_ws c \<and> c \<notin> set ''|&;<>'') \<and> hd t \<noteq> DQ \<and> hd t \<noteq> SQ"

definition dquote :: "string \<Rightarrow> string" where
  "dquote w = DQ # w @ [DQ]"

definition shell_token :: "string \<Rightarrow> bool" where
  "shell_token t \<longleftrightarrow> plain_word t \<or> (\<exists>w. t = dquote w \<and> DQ \<notin> set w) \<or> t \<in> {''|'', ''>'', ''>>''}"

definition at_gap :: "string \<Rightarrow> bool" where
  "at_gap rest \<longleftrightarrow> rest = [] \<or> hd rest = CHR '' ''"

lemma token_re_word_class:
  "rx_at (rx_plus (RChr (\<lambda>c. \<not> is_ws c \<and> c \<notin> set ''|&;<>''))) b (t @ rest) = Some (rev t @ b, rest, [])"
  if "plain_word t" "at_gap rest"
proof -
  let ?p = "\<lambda>c. \<not> is_ws c \<and> c \<notin> set ''|&;<>''"
  have "takeWhile ?p rest = []" "dropWhile ?p rest = rest"
    using that(2) by (cases rest; simp add: at_gap_def is_ws_def)+
  moreover have "\<forall>c \<in> set t. ?p c" "t \<noteq> []"
    using that(1) by (auto simp: plain_word_def)
  ultimately show ?thesis
    by (simp add: rx_at_plus_class takeWhile_append dropWhile_append)
qed

lemma token_re_plain:
  assumes "plain_word t" "at_gap rest"
  shows "rx_at token_re b (t @ rest) = Some (rev t @ b, rest, [])"
proof -
  obtain c u where t: "t = c # u" "c \<noteq> DQ" "c \<noteq> SQ" "c \<notin> set ''|&;<>''"
    using assms(1) by (cases t) (auto simp: plain_word_def)
  show ?thesis
    using token_re_word_class [OF assms, of b] t
    by (simp add: token_re_def rx_at_alt) (simp add: rx_at_def rx_opt_def)
qed

lemma token_re_quoted:
  assumes "DQ \<notin> set w"
  shows "rx_at token_re b (dquote w @ rest) = Some (rev (dquote w) @ b, rest, [])"
  using rx_at_delimited [OF assms, of b rest]
  by (simp add: token_re_def rx_at_alt dquote_def)

lemma token_re_operator:
  assumes "t \<in> {''|'', ''>'', ''>>''}" "at_gap rest"
  shows "rx_at token_re b (t @ rest) = Some (rev t @ b, rest, [])"
  using assms by (cases rest) (auto simp: token_re_def rx_at_def rx_opt_def at_gap_def)

lemma token_re_token:
  "shell_token t \<Longrightarrow> at_gap rest \<Longrightarrow> rx_at token_re b (t @ rest) = Some (rev t @ b, rest, [])"
  unfolding shell_token_def using token_re_plain token_re_quoted token_re_operator by metis

lemma token_re_blank: "rx_at token_re b (CHR '' '' # rest) = None"
  by (simp add: token_re_def rx_at_def rx_opt_def rx_plus_def is_ws_def)

lemma shell_token_nonempty: "shell_token t \<Longrightarrow> t \<noteq> []"
  by (auto simp: shell_token_def plain_word_def dquote_def)

lemma token_re_end: "rx_at token_re b [] = None"
  by (simp add: token_re_def rx_at_def rx_opt_def rx_plus_def)

lemma rx_matches_token:
  assumes "shell_token t" "at_gap rest"
  shows "map fst (rx_matches_from token_re b (t @ rest)) = t # map fst (rx_matches_from token_re (rev t @ b) rest)"
  using token_re_token [OF assms, of b] shell_token_nonempty [OF assms(1)]
  by (subst rx_matches_from.simps) simp

lemma rx_matches_blank:
  "rx_matches_from token_re b (CHR '' '' # rest) = rx_matches_from token_re (CHR '' '' # b) rest"
  by (subst rx_matches_from.simps) (simp add: token_re_blank)

lemma rx_matches_join:
  "\<forall>t \<in> set ts. shell_token t \<Longrightarrow> map fst (rx_matches_from token_re b (join '' '' ts)) = ts"
proof (induction "'' ''" ts arbitrary: b rule: join.induct)
  case 1
  show ?case by (subst rx_matches_from.simps) (simp add: token_re_end)
next
  case (2 t)
  then show ?case
    using rx_matches_token [of t "[]" b] by (simp add: at_gap_def rx_matches_from.simps [of _ _ "[]"] token_re_end)
next
  case (3 t u ts)
  then show ?case
    using rx_matches_token [of t "'' '' @ join '' '' (u # ts)" b]
    by (simp add: at_gap_def rx_matches_blank)
qed

lemma shell_tokens_join: "\<forall>t \<in> set ts. shell_token t \<Longrightarrow> shell_tokens (join '' '' ts) = ts"
  by (simp add: shell_tokens_def rx_matchAll_def rx_matches_join)

section \<open>Printing a specification\<close>

definition sort_flags :: "bool \<Rightarrow> bool \<Rightarrow> bool \<Rightarrow> string" where
  "sort_flags r n u = (if r then ''r'' else []) @ (if n then ''n'' else []) @ (if u then ''u'' else [])"

fun print_stage :: "stage \<Rightarrow> string list" where
  "print_stage (StGrep p i v e) =
     [''grep''] @ (if i then [''-i''] else []) @ (if v then [''-v''] else []) @ (if e then [''-E''] else [])
     @ [dquote p]"
| "print_stage (StHead n) = [''head'', ''-n'', nat_str n]"
| "print_stage (StTail n) = [''tail'', ''-n'', nat_str n]"
| "print_stage StWcL = [''wc'', ''-l'']"
| "print_stage (StSort r n u) =
     ''sort'' # (if r \<or> n \<or> u then [''-'' @ sort_flags r n u] else [])"
| "print_stage (StUniq c) = ''uniq'' # (if c then [''-c''] else [])"
| "print_stage (StJq sel r c) = [''jq'']"

fun print_redirect :: "sink option \<Rightarrow> string list" where
  "print_redirect None = []"
| "print_redirect (Some (SinkRedirect p)) = [''>'', dquote p]"
| "print_redirect (Some (SinkAppend p)) = [''>>'', dquote p]"
| "print_redirect (Some (SinkTee p)) = []"

fun print_tee :: "sink option \<Rightarrow> string list list" where
  "print_tee (Some (SinkTee p)) = [[''tee'', dquote p]]"
| "print_tee snk = []"

fun print_pipes :: "string list list \<Rightarrow> string list" where
  "print_pipes [] = []"
| "print_pipes (ts # tss) = ''|'' # ts @ print_pipes tss"

definition print_spec :: "string list \<Rightarrow> stage list \<Rightarrow> sink option \<Rightarrow> string" where
  "print_spec base sts snk =
     join '' '' (base @ print_pipes (map print_stage sts @ print_tee snk) @ print_redirect snk)"

text \<open>What can be written without quoting problems: no double quote, back quote, dollar or
  greater-than sign in a pattern or a path; a jq stage is left out.\<close>

definition quotable :: "string \<Rightarrow> bool" where
  "quotable w \<longleftrightarrow> (\<forall>c \<in> set w. c \<noteq> DQ \<and> c \<noteq> BTICK \<and> c \<noteq> CHR ''$'' \<and> c \<noteq> CHR ''>'')"

fun printable_stage :: "stage \<Rightarrow> bool" where
  "printable_stage (StGrep p i v e) = quotable p"
| "printable_stage (StJq sel r c) = False"
| "printable_stage st = True"

definition printable_base :: "string list \<Rightarrow> bool" where
  "printable_base base \<longleftrightarrow> base \<noteq> [] \<and> (\<forall>t \<in> set base. plain_word t \<and> quotable t \<and> unquoteToken t = t)"

definition printable_sink :: "sink option \<Rightarrow> bool" where
  "printable_sink snk \<longleftrightarrow> (case snk of None \<Rightarrow> True
     | Some k \<Rightarrow> quotable (sink_path k) \<and> inside_workspace (sink_path k))"

section \<open>Reading the printed tokens back\<close>

lemma unquote_dquote [simp]: "unquoteToken (dquote w) = w"
  by (simp add: unquoteToken_def dquote_def slice_def)

lemma isQuoted_dquote [simp]: "isQuotedToken (dquote w)"
  by (simp add: isQuotedToken_def dquote_def)

lemma unquote_unquoted: "t \<noteq> [] \<Longrightarrow> hd t \<noteq> DQ \<Longrightarrow> hd t \<noteq> SQ \<Longrightarrow> unquoteToken t = t"
  by (simp add: unquoteToken_def)

lemma unquote_nat_str [simp]: "unquoteToken (nat_str n) = nat_str n"
proof -
  obtain c t where s: "nat_str n = c # t" by (cases "nat_str n") auto
  then have "is_digit c" using nat_str_digits [of n] by simp
  then show ?thesis
    using s by (intro unquote_unquoted) (auto simp: is_digit_def char_between_def)
qed

lemma digits_re_nat_str: "rx_test digits_re (nat_str n)"
  using nat_str_digits [of n]
  by (simp add: digits_re_def rx_full_lang rx_digit_def rlang_plus_class)

lemma parse_head: "parseStage [''head'', ''-n'', nat_str n] = Some (StHead n)"
  by (simp add: parseStage_def head_tail_count_def digits_re_nat_str unquoteToken_def [of "''head''"]
      unquoteToken_def [of "''-n''"] toLowerCase_def lower_char_def has_upper_pair_def)

lemma parse_tail: "parseStage [''tail'', ''-n'', nat_str n] = Some (StTail n)"
  by (simp add: parseStage_def head_tail_count_def digits_re_nat_str unquoteToken_def [of "''tail''"]
      unquoteToken_def [of "''-n''"] toLowerCase_def lower_char_def has_upper_pair_def)

lemma grep_word: "unquoteToken ''grep'' = ''grep''" "toLowerCase ''grep'' = ''grep''"
  "unquoteToken ''-i'' = ''-i''" "unquoteToken ''-v'' = ''-v''" "unquoteToken ''-E'' = ''-E''"
  "isQuotedToken ''-i'' = False" "isQuotedToken ''-v'' = False" "isQuotedToken ''-E'' = False"
  "rx_test short_flag_re ''-i''" "rx_test short_flag_re ''-v''" "rx_test short_flag_re ''-E''"
  by code_simp+

lemma parse_grep: "parseStage (print_stage (StGrep p i v e)) = Some (StGrep p i v e)"
  by (cases i; cases v; cases e) (simp_all add: parseStage_def grep_word)

lemma parse_print_stage: "printable_stage st \<Longrightarrow> parseStage (print_stage st) = Some st"
proof (cases st)
  case (StSort r n u)
  show ?thesis
    unfolding StSort by (cases r; cases n; cases u) (simp_all only: print_stage.simps sort_flags_def, code_simp+)
next
  case (StUniq c)
  show ?thesis
    unfolding StUniq by (cases c) (simp_all only: print_stage.simps, code_simp+)
next
  case StWcL
  show ?thesis unfolding StWcL by code_simp
next
  case (StGrep p i v e)
  show ?thesis unfolding StGrep by (rule parse_grep)
qed (simp_all only: parse_head parse_tail print_stage.simps printable_stage.simps)

lemma print_stage_head:
  "printable_stage st \<Longrightarrow> toLowerCase (unquoteToken (hd (print_stage st))) \<noteq> ''tee'' \<and> print_stage st \<noteq> []"
proof -
  have "toLowerCase (unquoteToken ''grep'') \<noteq> ''tee''" "toLowerCase (unquoteToken ''head'') \<noteq> ''tee''"
    "toLowerCase (unquoteToken ''tail'') \<noteq> ''tee''" "toLowerCase (unquoteToken ''wc'') \<noteq> ''tee''"
    "toLowerCase (unquoteToken ''sort'') \<noteq> ''tee''" "toLowerCase (unquoteToken ''uniq'') \<noteq> ''tee''"
    by code_simp+
  then show ?thesis if "printable_stage st" using that by (cases st) auto
qed


section \<open>The positions of the pipes\<close>

lemma token_indexes_append:
  "token_indexes p (xs @ ys) = token_indexes p xs @ map (\<lambda>i. length xs + i) (token_indexes p ys)"
proof -
  have "[0..<length (xs @ ys)] = [0..<length xs] @ map (\<lambda>i. length xs + i) [0..<length ys]"
    using upt_add_eq_append [of 0 "length xs" "length ys"] map_add_upt [of "length xs" "length ys"]
    by (simp add: add.commute)
  moreover have "filter (\<lambda>i. p ((xs @ ys) ! i)) [0..<length xs] = token_indexes p xs"
    unfolding token_indexes_def by (rule filter_cong) (auto simp: nth_append)
  moreover have "filter (\<lambda>i. p ((xs @ ys) ! i)) (map (\<lambda>i. length xs + i) [0..<length ys])
      = map (\<lambda>i. length xs + i) (token_indexes p ys)"
    by (simp add: token_indexes_def filter_map o_def)
  ultimately show ?thesis by (simp add: token_indexes_def)
qed

lemma token_indexes_single: "token_indexes p [x] = (if p x then [0] else [])"
  by (simp add: token_indexes_def)

lemma token_indexes_none: "\<forall>t \<in> set xs. \<not> p t \<Longrightarrow> token_indexes p xs = []"
  by (simp add: token_indexes_def filter_empty_conv)

lemma token_indexes_Cons:
  "token_indexes p (x # xs) = (if p x then [0] else []) @ map Suc (token_indexes p xs)"
  using token_indexes_append [of p "[x]" xs] by (simp add: token_indexes_single)

abbreviation pipe_at :: "string list \<Rightarrow> nat list" where
  "pipe_at \<equiv> token_indexes (\<lambda>t. t = ''|'')"

lemma slice_middle: "slice (length pre) (length pre + length ts) (pre @ ts @ post) = ts"
  by (simp add: slice_def)

text \<open>Reading the stages printed after \<open>pre\<close>, where a trailing \<open>tee\<close> sets the sink.\<close>

lemma parse_stages_one:
  assumes "printable_stage st"
  shows "parse_stages (pre @ print_stage st @ post) (length pre)
      ((length pre + length (print_stage st)) # ends) acc snk
    = parse_stages (pre @ print_stage st @ post) (Suc (length pre + length (print_stage st))) ends (acc @ [st]) snk"
proof -
  have "(case print_stage st of [] \<Rightarrow> [] | t # _ \<Rightarrow> t) = hd (print_stage st)"
    using print_stage_head [OF assms] by (cases "print_stage st") auto
  then show ?thesis
    using print_stage_head [OF assms] parse_print_stage [OF assms] by (simp add: slice_middle Let_def)
qed

lemma parse_stages_tee:
  assumes "inside_workspace p"
  shows "parse_stages (pre @ [''tee'', dquote p]) (length pre) [length pre + 2] acc None = Some (acc, Some (SinkTee p))"
proof -
  have "trim p = p" "isValidOutputSinkPath p"
    using assms by (simp_all add: isValidOutputSinkPath_iff inside_workspace_def trim_id)
  moreover have "slice (length pre) (length pre + 2) (pre @ [''tee'', dquote p]) = [''tee'', dquote p]"
    by (simp add: slice_def)
  moreover have "toLowerCase (unquoteToken ''tee'') = ''tee''" by code_simp
  ultimately show ?thesis by simp
qed

fun stage_ends :: "nat \<Rightarrow> string list list \<Rightarrow> nat list" where
  "stage_ends k [] = []"
| "stage_ends k [ts] = [k + length ts]"
| "stage_ends k (ts # us # tss) = (k + length ts) # stage_ends (Suc (k + length ts)) (us # tss)"

definition tee_part :: "string list list \<Rightarrow> sink option \<Rightarrow> sink option \<Rightarrow> bool" where
  "tee_part tee snk0 snk \<longleftrightarrow> (tee = [] \<and> snk0 = snk) \<or>
     (\<exists>p. tee = [[''tee'', dquote p]] \<and> snk0 = None \<and> snk = Some (SinkTee p) \<and> inside_workspace p)"

lemma print_pipes_Cons: "tss \<noteq> [] \<Longrightarrow> print_pipes tss = ''|'' # tl (print_pipes tss)"
  by (cases tss) auto

lemma stage_ends_Cons:
  "tss \<noteq> [] \<Longrightarrow> stage_ends k (ts # tss) = (k + length ts) # stage_ends (Suc (k + length ts)) tss"
  by (cases tss) auto

lemma parse_stages_printed:
  assumes "\<forall>st \<in> set sts. printable_stage st" "map print_stage sts @ tee \<noteq> []" "tee_part tee snk0 snk"
  shows "parse_stages (pre @ tl (print_pipes (map print_stage sts @ tee))) (length pre)
      (stage_ends (length pre) (map print_stage sts @ tee)) acc snk0 = Some (acc @ sts, snk)"
  using assms
proof (induction sts arbitrary: pre acc)
  case Nil
  then obtain p where "tee = [[''tee'', dquote p]]" "snk0 = None" "snk = Some (SinkTee p)" "inside_workspace p"
    by (auto simp: tee_part_def)
  then show ?case
    using parse_stages_tee [of p pre acc] by simp
next
  case (Cons st sts)
  then have pr: "printable_stage st" "\<forall>st \<in> set sts. printable_stage st" by auto
  let ?tss = "map print_stage sts @ tee"
  show ?case
  proof (cases "?tss = []")
    case True
    with Cons.prems pr show ?thesis
      using parse_stages_one [of st pre "[]" "[]" acc snk] by (simp add: tee_part_def)
  next
    case False
    let ?pre = "pre @ print_stage st @ [''|'']"
    have "parse_stages (?pre @ tl (print_pipes ?tss)) (length ?pre) (stage_ends (length ?pre) ?tss) (acc @ [st]) snk0
        = Some ((acc @ [st]) @ sts, snk)"
      by (rule Cons.IH [OF pr(2) False Cons.prems(3)])
    then have "parse_stages (pre @ print_stage st @ print_pipes ?tss) (Suc (length pre + length (print_stage st)))
        (stage_ends (Suc (length pre + length (print_stage st))) ?tss) (acc @ [st]) snk0 = Some (acc @ st # sts, snk)"
      by (subst print_pipes_Cons [OF False]) simp
    then show ?thesis
      using parse_stages_one [OF pr(1), of pre "print_pipes ?tss"]
        stage_ends_Cons [OF False, of "length pre" "print_stage st"]
      by simp
  qed
qed

lemma pipe_at_printed:
  assumes "tss \<noteq> []" "\<forall>ts \<in> set tss. ''|'' \<notin> set ts" "''|'' \<notin> set pre"
  shows "pipe_at (pre @ print_pipes tss) @ [length (pre @ print_pipes tss)]
    = length pre # stage_ends (Suc (length pre)) tss"
  using assms
proof (induction tss arbitrary: pre)
  case (Cons ts tss)
  have ts: "pipe_at ts = []" "pipe_at pre = []"
    using Cons.prems by (auto intro!: token_indexes_none)
  show ?case
  proof (cases "tss = []")
    case True
    with ts show ?thesis
      by (simp add: token_indexes_append token_indexes_Cons)
  next
    case False
    have IH: "pipe_at ([] @ print_pipes tss) @ [length ([] @ print_pipes tss)] = length ([]::string list) # stage_ends (Suc (length ([]::string list))) tss"
      using Cons.IH [OF False, of "[]"] Cons.prems by simp
    have sh: "stage_ends (k + j) tss = map (\<lambda>i. k + i) (stage_ends j tss)" for k j
      by (induction j tss rule: stage_ends.induct) (auto simp: add.assoc)
    have "pipe_at (pre @ print_pipes (ts # tss)) @ [length (pre @ print_pipes (ts # tss))]
        = length pre # map (\<lambda>i. Suc (length pre + length ts) + i) (pipe_at (print_pipes tss) @ [length (print_pipes tss)])"
      using ts by (simp add: token_indexes_append token_indexes_Cons o_def add.assoc)
    also have "\<dots> = length pre # map (\<lambda>i. Suc (length pre + length ts) + i) (0 # stage_ends 1 tss)"
      using IH by simp
    also have "\<dots> = length pre # stage_ends (Suc (length pre)) (ts # tss)"
      using sh [of "Suc (length pre + length ts)" 1] False by (simp add: stage_ends_Cons)
    finally show ?thesis .
  qed
qed simp

definition no_fd :: "string \<Rightarrow> bool" where
  "no_fd s \<longleftrightarrow> successively (\<lambda>a c. \<not> (is_digit a \<and> c = CHR ''>'')) s"

lemma numbered_redirect_digit:
  assumes "rx_test numbered_redirect_re s"
  shows "\<not> no_fd s"
proof -
  obtain b t b' t' cs where s: "s = rev b @ t" and m: "(b', t', cs) \<in> set (rxm numbered_redirect_re (b, t, []))"
  proof -
    obtain b t st where "rx_search numbered_redirect_re [] s = Some (b, t, st)"
      using assms unfolding rx_test_def by (metis not_Some_eq prod_cases3)
    then have s: "s = rev b @ t" and "rx_at numbered_redirect_re b t = Some st"
      using rx_search_Some by fastforce+
    then have "st \<in> set (rxm numbered_redirect_re (b, t, []))"
      by (auto simp: rx_at_def split: list.splits)
    with s that show thesis by (cases st) blast
  qed
  obtain b1 t1 cs1 b2 t2 cs2 b3 t3 cs3 where 1: "(b1, t1, cs1) \<in> set (rxm (RAlt RBol rx_ws) (b, t, []))"
    and 2: "(b2, t2, cs2) \<in> set (rxm (rx_plus rx_digit) (b1, t1, cs1))"
    and 3: "(b3, t3, cs3) \<in> set (rxm (rx_lit ''>'') (b2, t2, cs2))"
    using m unfolding numbered_redirect_re_def rx_seq.simps rxm.simps(3) by (clarsimp simp del: rx_lit.simps rxm.simps)
  from 1 obtain u where u: "t = u @ t1" by (rule rxm_split)
  from 2 obtain w where w: "t1 = w @ t2" "b2 = rev w @ b1" by (rule rxm_split)
  have "w \<in> rlang (rx_plus rx_digit)"
    using recogD [OF rxm_lang, of "rx_plus rx_digit" w b1 t2 cs1] 2 w by auto
  then have dw: "w \<noteq> []" "is_digit (last w)"
    unfolding rx_digit_def rlang_plus_class by auto
  from 3 obtain r where r: "t2 = CHR ''>'' # r" by (auto split: list.splits if_splits)
  have "s = (rev b @ u @ butlast w) @ [last w, CHR ''>''] @ r"
    using s u w r dw(1) by (simp add: append_butlast_last_id [symmetric] del: append_butlast_last_id)
  with dw show ?thesis
    by (auto simp: no_fd_def successively_append_iff)
qed

lemma no_fd_join: "\<forall>t \<in> set ts. t \<noteq> [] \<and> no_fd t \<Longrightarrow> no_fd (join '' '' ts)"
proof (induction "'' ''" ts rule: join.induct)
  case (3 t u ts)
  then have "no_fd (join '' '' (u # ts))" "no_fd t" "t \<noteq> []" by auto
  then show ?case
    by (simp add: no_fd_def successively_append_iff successively_Cons is_digit_def char_between_def)
qed (auto simp: no_fd_def)

definition arg_token :: "string \<Rightarrow> bool" where
  "arg_token t \<longleftrightarrow> (plain_word t \<and> quotable t) \<or> (\<exists>w. t = dquote w \<and> quotable w)"

abbreviation operator_token :: "string \<Rightarrow> bool" where
  "operator_token t \<equiv> t \<in> {''|'', ''>'', ''>>''}"

lemma arg_token_shell:
  assumes "arg_token t"
  shows "shell_token t" "\<not> operator_token t" "t \<notin> set refused_tokens"
proof -
  show "shell_token t"
    using assms by (auto simp: arg_token_def shell_token_def quotable_def)
  have "hd t \<notin> set ''|&;<>'' \<and> t \<noteq> []"
  proof (cases "plain_word t")
    case True
    then have "t \<noteq> []" "hd t \<in> set t" by (simp_all add: plain_word_def)
    with True show ?thesis unfolding plain_word_def by blast
  next
    case False
    with assms have "hd t = DQ" "t \<noteq> []" by (auto simp: arg_token_def dquote_def)
    then show ?thesis by simp
  qed
  then show "\<not> operator_token t" "t \<notin> set refused_tokens"
    by (auto simp: refused_tokens_def)
qed

lemma operator_token_shell: "operator_token t \<Longrightarrow> shell_token t \<and> t \<notin> set refused_tokens"
  by (auto simp: shell_token_def refused_tokens_def)

lemma arg_token_chars:
  assumes "arg_token t"
  shows "BTICK \<notin> set t \<and> CHR ''$'' \<notin> set t \<and> CHR ''>'' \<notin> set t"
proof -
  obtain w where "quotable w" "set t \<subseteq> insert DQ (set w)"
    using assms unfolding arg_token_def dquote_def by fastforce
  moreover from this(1) have "BTICK \<notin> insert DQ (set w)" "CHR ''$'' \<notin> insert DQ (set w)" "CHR ''>'' \<notin> insert DQ (set w)"
    unfolding quotable_def by auto
  ultimately show ?thesis by blast
qed

lemma no_fd_arg: "arg_token t \<Longrightarrow> no_fd t"
proof -
  assume "arg_token t"
  then have "CHR ''>'' \<notin> set t" using arg_token_chars by blast
  then show ?thesis
    unfolding no_fd_def by (induction t rule: induct_list012) auto
qed

lemma no_fd_operator: "operator_token t \<Longrightarrow> no_fd t"
  by (auto simp: no_fd_def is_digit_def char_between_def)

lemma arg_token_words: "arg_token ''grep''" "arg_token ''head''" "arg_token ''tail''" "arg_token ''wc''"
  "arg_token ''sort''" "arg_token ''uniq''" "arg_token ''tee''" "arg_token ''-i''" "arg_token ''-v''"
  "arg_token ''-E''" "arg_token ''-n''" "arg_token ''-l''" "arg_token ''-c''"
  by (simp_all add: arg_token_def plain_word_def quotable_def is_ws_def)

lemma arg_token_nat_str [simp]: "arg_token (nat_str n)"
proof -
  have "\<not> is_ws c \<and> c \<notin> set ''|&;<>'' \<and> c \<noteq> DQ \<and> c \<noteq> SQ \<and> c \<noteq> BTICK \<and> c \<noteq> CHR ''$''" if "is_digit c" for c
    using that by (auto simp: is_digit_def char_between_def is_ws_def)
  then have "\<forall>c \<in> set (nat_str n). \<not> is_ws c \<and> c \<notin> set ''|&;<>'' \<and> c \<noteq> DQ \<and> c \<noteq> SQ \<and> c \<noteq> BTICK \<and> c \<noteq> CHR ''$''"
    using nat_str_digits by blast
  moreover have "hd (nat_str n) \<in> set (nat_str n)" by simp
  ultimately show ?thesis
    by (auto simp: arg_token_def plain_word_def quotable_def)
qed

lemma arg_token_sort_flag: "r \<or> n \<or> u \<Longrightarrow> arg_token (CHR ''-'' # sort_flags r n u)"
  by (auto simp: arg_token_def plain_word_def quotable_def is_ws_def sort_flags_def)

lemma arg_token_dquote [simp]: "quotable w \<Longrightarrow> arg_token (dquote w)"
  by (auto simp: arg_token_def)

lemma print_stage_args: "printable_stage st \<Longrightarrow> \<forall>t \<in> set (print_stage st). arg_token t"
  by (cases st) (auto simp: arg_token_words arg_token_sort_flag)


section \<open>The round trip\<close>

definition redirect_sink :: "sink option \<Rightarrow> sink option" where
  "redirect_sink snk = (if print_redirect snk = [] then None else snk)"

lemma tee_part_print: "printable_sink snk \<Longrightarrow> tee_part (print_tee snk) (redirect_sink snk) snk"
  by (cases snk rule: print_tee.cases) (auto simp: tee_part_def redirect_sink_def printable_sink_def)

lemma parse_redirect_printed:
  assumes "\<forall>t \<in> set toks. t \<notin> {''>'', ''>>''}" "toks \<noteq> []" "printable_sink snk"
  shows "parse_redirect (toks @ print_redirect snk) = Some (redirect_sink snk, toks)"
proof -
  let ?p = "\<lambda>t. t \<in> {''>'', ''>>''}"
  have nil: "token_indexes q [] = []" for q
    by (simp add: token_indexes_def)
  have none: "token_indexes ?p toks = []"
    using assms(1) by (rule token_indexes_none)
  have dq: "\<not> ?p (dquote w)" for w
    by (simp add: dquote_def)
  have valid: "trim (sink_path k) = sink_path k" "isValidOutputSinkPath (sink_path k)" if "snk = Some k" for k
    using assms(3) that by (simp_all add: printable_sink_def isValidOutputSinkPath_iff inside_workspace_def trim_id)
  show ?thesis
  proof (cases snk rule: print_redirect.cases)
    case (2 p)
    with none dq assms(2) valid show ?thesis
      by (simp add: parse_redirect_def token_indexes_append token_indexes_Cons nil redirect_sink_def nth_append)
  next
    case (3 p)
    with none dq assms(2) valid show ?thesis
      by (simp add: parse_redirect_def token_indexes_append token_indexes_Cons nil redirect_sink_def nth_append)
  qed (use none in \<open>simp_all add: parse_redirect_def redirect_sink_def\<close>)
qed

lemma parse_pipeline_printed:
  assumes base: "base \<noteq> []" "''|'' \<notin> set base" "map unquoteToken base = base"
    and sts: "\<forall>st \<in> set sts. printable_stage st" and snk: "printable_sink snk"
    and some: "sts \<noteq> [] \<or> snk \<noteq> None"
  shows "parse_pipeline (redirect_sink snk) (base @ print_pipes (map print_stage sts @ print_tee snk))
    = Parsed \<lparr>spec_kind = first_kind sts snk, baseCommand = join '' '' base, stages = sts, spec_sink = snk\<rparr>"
proof (cases "map print_stage sts @ print_tee snk = []")
  case True
  then have "sts = []" "print_tee snk = []" "snk \<noteq> None"
    using some by simp_all
  moreover from this(2,3) have "redirect_sink snk = snk"
    by (cases snk rule: print_tee.cases) (simp_all add: redirect_sink_def)
  moreover have "pipe_at base = []"
    using base(2) by (intro token_indexes_none) auto
  ultimately show ?thesis using base by (simp add: parse_pipeline_def)
next
  case False
  let ?tss = "map print_stage sts @ print_tee snk"
  let ?toks = "base @ print_pipes ?tss"
  have "\<forall>ts \<in> set (print_tee snk). ''|'' \<notin> set ts"
    by (cases snk rule: print_tee.cases) (auto simp: dquote_def)
  then have np: "\<forall>ts \<in> set ?tss. ''|'' \<notin> set ts"
    using sts print_stage_args arg_token_shell(2) by fastforce
  have pa: "pipe_at ?toks @ [length ?toks] = length base # stage_ends (Suc (length base)) ?tss"
    by (rule pipe_at_printed [OF False np base(2)])
  then obtain pipes where pipes: "pipe_at ?toks = length base # pipes"
    "pipes @ [length ?toks] = stage_ends (Suc (length base)) ?tss"
    by (cases "pipe_at ?toks") (use False in \<open>cases ?tss; auto\<close>)+
  have "parse_stages ((base @ [''|'']) @ tl (print_pipes ?tss)) (length (base @ [''|'']))
      (stage_ends (length (base @ [''|''])) ?tss) [] (redirect_sink snk) = Some ([] @ sts, snk)"
    by (rule parse_stages_printed [OF sts False tee_part_print [OF snk]])
  then have "parse_stages ?toks (Suc (length base)) (pipes @ [length ?toks]) [] (redirect_sink snk) = Some (sts, snk)"
    using pipes(2) by (subst print_pipes_Cons [OF False]) simp
  then show ?thesis
    using base pipes(1) by (simp add: parse_pipeline_def)
qed


lemma print_spec_tokens:
  assumes "printable_base base" "\<forall>st \<in> set sts. printable_stage st" "printable_sink snk"
  defines "toks \<equiv> base @ print_pipes (map print_stage sts @ print_tee snk) @ print_redirect snk"
  shows "\<forall>t \<in> set toks. arg_token t \<or> operator_token t"
    and "\<forall>t \<in> set (base @ print_pipes (map print_stage sts @ print_tee snk)). t \<notin> {''>'', ''>>''}"
proof -
  have pipes: "set (print_pipes tss) \<subseteq> insert ''|'' (\<Union>ts \<in> set tss. set ts)" for tss
    by (induction tss) auto
  have b: "\<forall>t \<in> set base. arg_token t"
    using assms(1) by (auto simp: printable_base_def arg_token_def)
  have st: "\<forall>t \<in> (\<Union>ts \<in> set (map print_stage sts). set ts). arg_token t"
    using assms(2) print_stage_args by auto
  have te: "\<forall>t \<in> (\<Union>ts \<in> set (print_tee snk). set ts). arg_token t"
    using assms(3) by (cases snk rule: print_tee.cases) (auto simp: printable_sink_def arg_token_words)
  have pp: "\<forall>t \<in> set (print_pipes (map print_stage sts @ print_tee snk)). arg_token t \<or> t = ''|''"
    using pipes [of "map print_stage sts @ print_tee snk"] st te by fastforce
  have re: "\<forall>t \<in> set (print_redirect snk). arg_token t \<or> operator_token t"
    using assms(3) by (cases snk rule: print_redirect.cases) (auto simp: printable_sink_def)
  show "\<forall>t \<in> set toks. arg_token t \<or> operator_token t"
    unfolding toks_def using b pp re by auto
  show "\<forall>t \<in> set (base @ print_pipes (map print_stage sts @ print_tee snk)). t \<notin> {''>'', ''>>''}"
    using b pp arg_token_shell(2) by fastforce
qed

lemma join_guards:
  assumes "\<forall>t \<in> set ts. arg_token t \<or> operator_token t"
  shows "\<not> str_includes (join '' '' ts) [BTICK]" "\<not> str_includes (join '' '' ts) ''$(''"
    "\<not> rx_test numbered_redirect_re (join '' '' ts)" "shell_tokens (join '' '' ts) = ts"
    "\<forall>t \<in> set ts. t \<notin> set refused_tokens"
proof -
  have ch: "BTICK \<notin> set t \<and> CHR ''$'' \<notin> set t \<and> t \<noteq> [] \<and> no_fd t" if "t \<in> set ts" for t
  proof (cases "arg_token t")
    case True
    then show ?thesis
      using arg_token_chars no_fd_arg arg_token_shell(1) shell_token_nonempty by blast
  next
    case False
    with assms that have "operator_token t" by blast
    then show ?thesis using no_fd_operator [of t] by auto
  qed
  have sub: "set (join '' '' ts) \<subseteq> set '' '' \<union> (\<Union>t \<in> set ts. set t)"
    by (rule set_join)
  then show "\<not> str_includes (join '' '' ts) [BTICK]"
    using ch by (auto simp: str_includes_single)
  have "CHR ''$'' \<notin> set (join '' '' ts)"
    using sub ch by auto
  then show "\<not> str_includes (join '' '' ts) ''$(''"
    using set_mono_sublist [of "''$(''" "join '' '' ts"] by (auto simp: str_includes_sublist)
  show "\<not> rx_test numbered_redirect_re (join '' '' ts)"
    using numbered_redirect_digit no_fd_join ch by blast
  show "shell_tokens (join '' '' ts) = ts"
    using shell_tokens_join assms arg_token_shell(1) operator_token_shell by blast
  show "\<forall>t \<in> set ts. t \<notin> set refused_tokens"
    using assms arg_token_shell(3) operator_token_shell by blast
qed

lemma mem_join: "t \<in> set ts \<Longrightarrow> set t \<subseteq> set (join sep ts)"
  by (induction sep ts rule: join.induct) auto

lemma parse_tokens_eq:
  "tokens \<noteq> [] \<Longrightarrow> \<forall>t \<in> set tokens. t \<notin> set refused_tokens \<Longrightarrow> parse_redirect tokens = Some (snk, toks) \<Longrightarrow>
   parse_tokens tokens = parse_pipeline snk toks"
  by (simp add: parse_tokens_def list_ex_iff)



end
