(* ===== verification/JS_Json.thy ===== *)
theory JS_Json
  imports JS_Value
begin

text \<open>
  \<open>JSON.stringify\<close> (compact, or with an indent) and \<open>JSON.parse\<close> on the values of
  \<open>JS_Value\<close>. Both follow the ECMAScript algorithms with three limits of the value model: an
  object keeps its keys in insertion order (a browser lists integer-like keys first), a
  \<open>\u\<close> escape above 00FF has no code unit in the model and does not parse, and a number
  is an exact rational. The parser takes fuel; it starts with more than the length of the
  text, and every nested call consumes a character.
\<close>

section \<open>Serialisation\<close>

definition hex_digit :: "nat \<Rightarrow> char" where
  "hex_digit n = (if n < 10 then char_of (48 + n) else char_of (87 + n))"

definition json_escape_char :: "char \<Rightarrow> string" where
  "json_escape_char c =
     (if c = DQ then [BSL, DQ]
      else if c = BSL then [BSL, BSL]
      else if c = CHR 0x08 then BSL # ''b''
      else if c = CHR 0x0C then BSL # ''f''
      else if c = CHR 0x0A then BSL # ''n''
      else if c = CHR 0x0D then BSL # ''r''
      else if c = CHR 0x09 then BSL # ''t''
      else if (of_char c :: nat) < 32
      then BSL # ''u00'' @ [hex_digit (of_char c div 16), hex_digit (of_char c mod 16)]
      else [c])"

definition json_quote :: "string \<Rightarrow> string" where
  "json_quote s = DQ # concat (map json_escape_char s) @ [DQ]"

definition json_wrap :: "nat \<Rightarrow> string \<Rightarrow> char \<Rightarrow> char \<Rightarrow> string list \<Rightarrow> string" where
  "json_wrap gap ind op cl parts =
     (if parts = [] then [op, cl]
      else if gap = 0 then op # join '','' parts @ [cl]
      else op # NL # replicate gap CHR '' '' @ ind
             @ join ('','' @ [NL] @ replicate gap CHR '' '' @ ind) parts @ [NL] @ ind @ [cl])"

fun json_ser :: "nat \<Rightarrow> string \<Rightarrow> jsval \<Rightarrow> string"
  and json_ser_elems :: "nat \<Rightarrow> string \<Rightarrow> jsval list \<Rightarrow> string list"
  and json_ser_members :: "nat \<Rightarrow> string \<Rightarrow> (string \<times> jsval) list \<Rightarrow> string list" where
  "json_ser gap ind JUndef = ''null''"
| "json_ser gap ind JNull = ''null''"
| "json_ser gap ind (JBool b) = (if b then ''true'' else ''false'')"
| "json_ser gap ind (JNum n) = (if is_finite_num n then num_str n else ''null'')"
| "json_ser gap ind (JStr s) = json_quote s"
| "json_ser gap ind (JArr xs) = json_wrap gap ind CHR ''['' CHR '']''
     (json_ser_elems gap (replicate gap CHR '' '' @ ind) xs)"
| "json_ser gap ind (JObj kvs) = json_wrap gap ind CHR ''{'' CHR ''}''
     (json_ser_members gap (replicate gap CHR '' '' @ ind) kvs)"
| "json_ser_elems gap ind [] = []"
| "json_ser_elems gap ind (x # xs) = json_ser gap ind x # json_ser_elems gap ind xs"
| "json_ser_members gap ind [] = []"
| "json_ser_members gap ind ((k, v) # kvs) =
     (if v = JUndef then json_ser_members gap ind kvs
      else (json_quote k @ (if gap = 0 then '':'' else '': '') @ json_ser gap ind v)
        # json_ser_members gap ind kvs)"

text \<open>\<open>JSON.stringify(v)\<close> and \<open>JSON.stringify(v, null, 2)\<close>.\<close>

definition json_stringify :: "jsval \<Rightarrow> string" where
  "json_stringify v = json_ser 0 [] v"

definition json_pretty :: "jsval \<Rightarrow> string" where
  "json_pretty v = json_ser 2 [] v"

section \<open>Parsing\<close>

definition json_ws :: "char \<Rightarrow> bool" where
  "json_ws c \<longleftrightarrow> c = CHR '' '' \<or> c = CHR 0x09 \<or> c = CHR 0x0A \<or> c = CHR 0x0D"

definition skip_ws :: "string \<Rightarrow> string" where
  "skip_ws s = dropWhile json_ws s"

definition hex4 :: "string \<Rightarrow> nat option" where
  "hex4 s = (if length s = 4 \<and> list_all (\<lambda>c. radix_digit c < 16) s
     then Some (foldl (\<lambda>a c. 16 * a + radix_digit c) 0 s) else None)"

definition json_unescape :: "char \<Rightarrow> char option" where
  "json_unescape c =
     (if c = DQ \<or> c = BSL \<or> c = CHR ''/'' then Some c
      else if c = CHR ''b'' then Some (CHR 0x08)
      else if c = CHR ''f'' then Some (CHR 0x0C)
      else if c = CHR ''n'' then Some (CHR 0x0A)
      else if c = CHR ''r'' then Some (CHR 0x0D)
      else if c = CHR ''t'' then Some (CHR 0x09) else None)"

text \<open>The characters of a string literal after its opening quote.\<close>

fun json_chars :: "nat \<Rightarrow> string \<Rightarrow> (string \<times> string) option" where
  "json_chars 0 s = None"
| "json_chars (Suc n) s = (case s of
       [] \<Rightarrow> None
     | c # t \<Rightarrow>
         if c = DQ then Some ([], t)
         else if c = BSL then (case t of
             [] \<Rightarrow> None
           | d # u \<Rightarrow>
               if d = CHR ''u'' then (case hex4 (take 4 u) of
                   None \<Rightarrow> None
                 | Some k \<Rightarrow> if k < 256
                     then map_option (\<lambda>(w, r). (char_of k # w, r)) (json_chars n (drop 4 u)) else None)
               else (case json_unescape d of
                   None \<Rightarrow> None
                 | Some e \<Rightarrow> map_option (\<lambda>(w, r). (e # w, r)) (json_chars n u)))
         else if (of_char c :: nat) < 32 then None
         else map_option (\<lambda>(w, r). (c # w, r)) (json_chars n t))"

definition json_number :: "string \<Rightarrow> (jnum \<times> string) option" where
  "json_number s =
     (let neg = startsWith s ''-'';
          u = (if neg then drop 1 s else s);
          ip = takeWhile is_digit u;
          r1 = dropWhile is_digit u;
          fp = (if startsWith r1 ''.'' then takeWhile is_digit (drop 1 r1) else []);
          r2 = (if startsWith r1 ''.'' then dropWhile is_digit (drop 1 r1) else r1);
          hasE = startsWith r2 ''e'' \<or> startsWith r2 ''E'';
          (eneg, e1) = split_sign (drop 1 r2);
          ed = takeWhile is_digit e1
      in if ip = [] \<or> (length ip > 1 \<and> hd ip = CHR ''0'') \<or> (startsWith r1 ''.'' \<and> fp = [])
            \<or> (hasE \<and> ed = []) then None
         else let m = of_nat (digits_value 0 ip) + of_nat (digits_value 0 fp) / 10 ^ length fp;
                  v = (if hasE then m * pow10 eneg (digits_value 0 ed) else m)
              in Some (Fin (if neg then - v else v), if hasE then dropWhile is_digit e1 else r2))"

fun json_value :: "nat \<Rightarrow> string \<Rightarrow> (jsval \<times> string) option"
  and json_elems :: "nat \<Rightarrow> string \<Rightarrow> (jsval list \<times> string) option"
  and json_members :: "nat \<Rightarrow> string \<Rightarrow> jsobj \<Rightarrow> (jsobj \<times> string) option" where
  "json_value 0 s = None"
| "json_value (Suc n) s =
     (case skip_ws s of
        [] \<Rightarrow> None
      | c # t \<Rightarrow>
          if c = DQ then map_option (\<lambda>(w, r). (JStr w, r)) (json_chars n t)
          else if c = CHR ''['' then
            (if startsWith (skip_ws t) '']'' then Some (JArr [], drop 1 (skip_ws t))
             else map_option (\<lambda>(xs, r). (JArr xs, r)) (json_elems n t))
          else if c = CHR ''{'' then
            (if startsWith (skip_ws t) ''}'' then Some (JObj [], drop 1 (skip_ws t))
             else map_option (\<lambda>(kvs, r). (JObj kvs, r)) (json_members n t []))
          else if startsWith (c # t) ''true'' then Some (JBool True, drop 3 t)
          else if startsWith (c # t) ''false'' then Some (JBool False, drop 4 t)
          else if startsWith (c # t) ''null'' then Some (JNull, drop 3 t)
          else map_option (\<lambda>(m, r). (JNum m, r)) (json_number (c # t)))"
| "json_elems 0 s = None"
| "json_elems (Suc n) s =
     (case json_value n s of
        None \<Rightarrow> None
      | Some (v, r) \<Rightarrow> (case skip_ws r of
            [] \<Rightarrow> None
          | c # t \<Rightarrow>
              if c = CHR '']'' then Some ([v], t)
              else if c = CHR '','' then map_option (\<lambda>(vs, q). (v # vs, q)) (json_elems n t)
              else None))"
| "json_members 0 s acc = None"
| "json_members (Suc n) s acc =
     (case skip_ws s of
        [] \<Rightarrow> None
      | q # s1 \<Rightarrow>
          if q \<noteq> DQ then None
          else (case json_chars n s1 of
              None \<Rightarrow> None
            | Some (k, s2) \<Rightarrow>
                if \<not> startsWith (skip_ws s2) '':'' then None
                else (case json_value n (drop 1 (skip_ws s2)) of
                    None \<Rightarrow> None
                  | Some (v, s3) \<Rightarrow> (case skip_ws s3 of
                        [] \<Rightarrow> None
                      | c # t \<Rightarrow>
                          if c = CHR ''}'' then Some (obj_set acc k v, t)
                          else if c = CHR '','' then json_members n t (obj_set acc k v)
                          else None))))"

text \<open>\<open>JSON.parse\<close>; \<^const>\<open>None\<close> is the exception.\<close>

definition json_parse :: "string \<Rightarrow> jsval option" where
  "json_parse s = (case json_value (2 * length s + 2) s of
       None \<Rightarrow> None
     | Some (v, r) \<Rightarrow> if skip_ws r = [] then Some v else None)"

end
