(* ===== verification/JS_Sort.thy ===== *)
theory JS_Sort
  imports JS_Value
begin

text \<open>
  \<open>Array.prototype.sort\<close> with a comparator: a stable sort, here by insertion from left to
  right, an element going after those it compares equal to. For a consistent comparator the
  result of any stable sorting algorithm is the same list; the locale \<open>comparator\<close> states
  consistency once and derives that the result is a sorted, stable rearrangement.
\<close>

fun insert_by :: "('a \<Rightarrow> 'a \<Rightarrow> int) \<Rightarrow> 'a \<Rightarrow> 'a list \<Rightarrow> 'a list" where
  "insert_by cmp x [] = [x]"
| "insert_by cmp x (y # ys) = (if cmp x y < 0 then x # y # ys else y # insert_by cmp x ys)"

definition js_sort :: "('a \<Rightarrow> 'a \<Rightarrow> int) \<Rightarrow> 'a list \<Rightarrow> 'a list" where
  "js_sort cmp xs = foldl (\<lambda>acc x. insert_by cmp x acc) [] xs"

text \<open>The sign of \<open>a - b\<close>, where \<open>NaN\<close> counts as zero.\<close>

fun num_rank :: "jnum \<Rightarrow> int \<times> rat" where
  "num_rank (Fin r) = (0, r)"
| "num_rank (Infinity pos) = (if pos then 1 else - 1, 0)"
| "num_rank NaN = (0, 0)"

definition cmp_num :: "jnum \<Rightarrow> jnum \<Rightarrow> int" where
  "cmp_num a b =
     (if a = NaN \<or> b = NaN then 0
      else let (i, p) = num_rank a; (j, q) = num_rank b in
        if i < j \<or> (i = j \<and> p < q) then - 1 else if i = j \<and> p = q then 0 else 1)"

text \<open>\<open>a - b || c - d\<close>: the second comparison decides when the first is zero.\<close>

definition cmp_then :: "int \<Rightarrow> int \<Rightarrow> int" where
  "cmp_then a b = (if a = 0 then b else a)"

lemma mset_insert_by [simp]: "mset (insert_by cmp x ys) = add_mset x (mset ys)"
  by (induction ys) auto

lemma mset_js_sort_aux: "mset (foldl (\<lambda>acc x. insert_by cmp x acc) acc xs) = mset acc + mset xs"
  by (induction xs arbitrary: acc) auto

lemma mset_js_sort [simp]: "mset (js_sort cmp xs) = mset xs"
  by (simp add: js_sort_def mset_js_sort_aux)

lemma set_js_sort [simp]: "set (js_sort cmp xs) = set xs"
  by (metis mset_js_sort set_mset_mset)

lemma length_js_sort [simp]: "length (js_sort cmp xs) = length xs"
  by (metis mset_js_sort size_mset)

lemma js_sort_Nil [simp]: "js_sort cmp [] = []"
  by (simp add: js_sort_def)

locale comparator =
  fixes cmp :: "'a \<Rightarrow> 'a \<Rightarrow> int"
  assumes flip: "cmp x y < 0 \<longleftrightarrow> 0 < cmp y x"
    and trans_le: "cmp x y \<le> 0 \<Longrightarrow> cmp y z \<le> 0 \<Longrightarrow> cmp x z \<le> 0"
begin

lemma flip_le: "cmp x y \<le> 0 \<longleftrightarrow> 0 \<le> cmp y x"
  using flip [of y x] by auto

lemma sorted_insert_by:
  "sorted_wrt (\<lambda>a b. cmp a b \<le> 0) ys \<Longrightarrow> sorted_wrt (\<lambda>a b. cmp a b \<le> 0) (insert_by cmp x ys)"
proof (induction ys)
  case (Cons y ys)
  have set_ins: "set (insert_by cmp x ys) = insert x (set ys)"
    by (metis mset_insert_by set_mset_add_mset_insert set_mset_mset)
  show ?case
  proof (cases "cmp x y < 0")
    case True
    then have "cmp x y \<le> 0" by simp
    with True Cons.prems show ?thesis by (auto intro: trans_le [of x y])
  next
    case False
    then have "cmp y x \<le> 0" using flip_le [of y x] by simp
    with False Cons show ?thesis by (simp add: set_ins)
  qed
qed simp

lemma sorted_js_sort: "sorted_wrt (\<lambda>a b. cmp a b \<le> 0) (js_sort cmp xs)"
proof -
  have "sorted_wrt (\<lambda>a b. cmp a b \<le> 0) acc \<Longrightarrow>
      sorted_wrt (\<lambda>a b. cmp a b \<le> 0) (foldl (\<lambda>acc x. insert_by cmp x acc) acc xs)" for acc
    by (induction xs arbitrary: acc) (auto simp: sorted_insert_by)
  then show ?thesis by (simp add: js_sort_def)
qed

lemma insert_by_filter:
  assumes eq: "\<And>a b. P a \<Longrightarrow> P b \<Longrightarrow> cmp a b = 0"
    and srt: "sorted_wrt (\<lambda>a b. cmp a b \<le> 0) ys"
  shows "filter P (insert_by cmp x ys) = filter P ys @ filter P [x]"
  using srt
proof (induction ys)
  case (Cons y ys)
  show ?case
  proof (cases "cmp x y < 0")
    case True
    have "\<not> P z" if "z \<in> set (y # ys)" "P x" for z
    proof
      assume "P z"
      with eq that have z: "cmp z x = 0" by simp
      have "cmp y z \<le> 0" using that(1) Cons.prems eq [of y y] flip_le [of y y] by auto
      with z have "cmp y x \<le> 0" by (auto intro: trans_le [of y z])
      with True flip_le [of y x] show False by simp
    qed
    with True show ?thesis by (auto simp: filter_empty_conv)
  next
    case False
    with Cons show ?thesis by simp
  qed
qed simp

lemma js_sort_stable:
  assumes "\<And>a b. P a \<Longrightarrow> P b \<Longrightarrow> cmp a b = 0"
  shows "filter P (js_sort cmp xs) = filter P xs"
proof -
  have "sorted_wrt (\<lambda>a b. cmp a b \<le> 0) acc \<Longrightarrow>
      filter P (foldl (\<lambda>acc x. insert_by cmp x acc) acc xs) = filter P acc @ filter P xs" for acc
  proof (induction xs arbitrary: acc)
    case (Cons x xs)
    then show ?case
      using insert_by_filter [of P, OF assms] by (simp add: sorted_insert_by)
  qed simp
  then show ?thesis by (simp add: js_sort_def)
qed

end

lemma cmp_num_flip: "cmp_num a b < 0 \<longleftrightarrow> 0 < cmp_num b a"
  by (auto simp: cmp_num_def Let_def split: prod.splits)

lemma cmp_num_le:
  "a \<noteq> NaN \<Longrightarrow> b \<noteq> NaN \<Longrightarrow> cmp_num a b \<le> 0 \<longleftrightarrow>
   fst (num_rank a) < fst (num_rank b) \<or> (fst (num_rank a) = fst (num_rank b) \<and> snd (num_rank a) \<le> snd (num_rank b))"
  by (auto simp: cmp_num_def Let_def split: prod.splits)

lemma cmp_num_trans:
  assumes "a \<noteq> NaN" "b \<noteq> NaN" "c \<noteq> NaN" "cmp_num a b \<le> 0" "cmp_num b c \<le> 0"
  shows "cmp_num a c \<le> 0"
  using assms by (auto simp: cmp_num_le)

lemma cmp_then_neg: "cmp_then a b < 0 \<longleftrightarrow> a < 0 \<or> (a = 0 \<and> b < 0)"
  and cmp_then_pos: "0 < cmp_then a b \<longleftrightarrow> 0 < a \<or> (a = 0 \<and> 0 < b)"
  and cmp_then_le: "cmp_then a b \<le> 0 \<longleftrightarrow> a < 0 \<or> (a = 0 \<and> b \<le> 0)"
  by (auto simp: cmp_then_def)

text \<open>Comparing first by one consistent comparator and then by another is consistent.\<close>

lemma comparator_then:
  assumes "comparator f" "comparator g"
  shows "comparator (\<lambda>x y. cmp_then (f x y) (g x y))"
proof -
  note F = comparator.flip [OF assms(1)] comparator.flip_le [OF assms(1)]
  note G = comparator.flip [OF assms(2)] comparator.flip_le [OF assms(2)]
  note T = comparator.trans_le [OF assms(1)] comparator.trans_le [OF assms(2)]
  show ?thesis
  proof
    fix x y
    show "cmp_then (f x y) (g x y) < 0 \<longleftrightarrow> 0 < cmp_then (f y x) (g y x)"
      using F [of x y] F [of y x] G [of x y] by (auto simp: cmp_then_neg cmp_then_pos)
  next
    fix x y z
    assume xy: "cmp_then (f x y) (g x y) \<le> 0" and yz: "cmp_then (f y z) (g y z) \<le> 0"
    then have f: "f x y \<le> 0" "f y z \<le> 0" by (auto simp: cmp_then_le)
    then have xz: "f x z \<le> 0" by (rule T(1))
    show "cmp_then (f x z) (g x z) \<le> 0"
    proof (cases "f x z = 0")
      case True
      then have "f z x \<le> 0" using F(2) [of z x] by simp
      then have "f z y \<le> 0" "f y x \<le> 0" using f T(1) by blast+
      then have "f x y = 0" "f y z = 0" using f F(2) [of z y] F(2) [of y x] by auto
      with xy yz have "g x y \<le> 0" "g y z \<le> 0" by (auto simp: cmp_then_def)
      then have "g x z \<le> 0" by (rule T(2))
      with True show ?thesis by (simp add: cmp_then_def)
    next
      case False
      with xz show ?thesis by (simp add: cmp_then_le)
    qed
  qed
qed

lemma comparator_inv: "comparator f \<Longrightarrow> comparator (\<lambda>x y. f (g x) (g y))"
  by (rule comparator.intro) (auto simp: comparator.flip intro: comparator.trans_le)

lemma comparator_int: "comparator (\<lambda>x y. (x::int) - y)"
  by (rule comparator.intro) auto

lemma comparator_swap: "comparator f \<Longrightarrow> comparator (\<lambda>x y. f y x)"
  by (rule comparator.intro) (auto simp: comparator.flip intro: comparator.trans_le)

interpretation int_cmp: comparator "\<lambda>x y. (x::int) - y"
  by (rule comparator_int)

end
