(* ===== verification/Runner_Filter.thy ===== *)
theory Runner_Filter
  imports Runner_Core JS_Json JS_Sort
begin

text \<open>
  The post-filter stages of \<open>app/static/js/core/runner_core.js\<close> applied to buffered output
  lines: \<open>applySyntheticPostFilterLines\<close> and the JSON selector stage.

  The record \<open>filter_env\<close> holds what the browser supplies and the repository does not define:
  the \<open>RegExp\<close> constructor on a pattern the user typed (an error message, or the test function of the
  compiled pattern), \<open>localeCompare\<close>, and the configured line cap.
\<close>

record filter_env =
  regExp :: "string \<Rightarrow> bool \<Rightarrow> string + (string \<Rightarrow> bool)"
  localeCompare :: "string \<Rightarrow> string \<Rightarrow> int"
  maxOutputLines :: jsval
  app_max_output_lines :: jsval

section \<open>Items\<close>

definition textOf :: "jsval \<Rightarrow> string" where
  "textOf item =
     (if truthy item \<and> jprop item ''text'' \<noteq> JUndef then to_str (jprop item ''text'')
      else str_or item [])"

definition plainItem :: "string \<Rightarrow> jsval" where
  "plainItem text = JObj [(''text'', JStr text), (''cls'', JStr [])]"

definition errorItem :: "string \<Rightarrow> jsval" where
  "errorItem msg = JObj [(''text'', JStr (''[error] '' @ msg)), (''cls'', JStr ''exit-fail'')]"

definition syntheticPostFilterLineLimit :: "filter_env \<Rightarrow> nat" where
  "syntheticPostFilterLineLimit env =
     (let configured = (if maxOutputLines env \<noteq> JUndef then maxOutputLines env
                        else app_max_output_lines env)
      in case parse_int (to_str configured) of
           Fin r \<Rightarrow> if r > 0 then nat \<lfloor>r\<rfloor> else 0
         | _ \<Rightarrow> 0)"

section \<open>The JSON selector stage\<close>

fun jsonPathValue :: "jsval \<Rightarrow> string list \<Rightarrow> jsval" where
  "jsonPathValue current [] = current"
| "jsonPathValue current (part # path) =
     (if \<not> is_plain current then JUndef
      else if \<not> obj_has (obj_entries current) part then JUndef
      else jsonPathValue (jprop current part) path)"

definition jsonFilterText :: "jsval \<Rightarrow> string" where
  "jsonFilterText value =
     (if value = JUndef then []
      else if value = JNull then ''null''
      else if is_scalar value then to_str value
      else json_stringify value)"

fun selectJsonValues :: "jsval \<Rightarrow> selector \<Rightarrow> jsval list" where
  "selectJsonValues value SelIdentity = [value]"
| "selectJsonValues value (SelField path) =
     filter (\<lambda>item. item \<noteq> JUndef) [jsonPathValue value path]"
| "selectJsonValues value (SelIterate path) =
     arr_items (if path \<noteq> [] then jsonPathValue value path else value)"
| "selectJsonValues value (SelHas path) =
     (if jsonPathValue value path \<noteq> JUndef then [value] else [])"
| "selectJsonValues value (SelEq path expected) =
     (if jsonFilterText (jsonPathValue value path) = expected then [value] else [])"
| "selectJsonValues value (SelContains path needle) =
     (if str_includes (jsonFilterText (jsonPathValue value path)) needle then [value] else [])"

definition formatJsonSelectorValue :: "jsval \<Rightarrow> bool \<Rightarrow> bool \<Rightarrow> string" where
  "formatJsonSelectorValue value raw cpt =
     (if raw \<and> (value = JNull \<or> is_scalar value)
      then (if value = JNull then ''null'' else to_str value)
      else if cpt then json_stringify value else json_pretty value)"

text \<open>The lines parsed one by one; \<^const>\<open>None\<close> when one of them is not JSON.\<close>

fun parse_jsonl :: "string list \<Rightarrow> jsval list option" where
  "parse_jsonl [] = Some []"
| "parse_jsonl (line # lines) = (case json_parse line of
       None \<Rightarrow> None
     | Some v \<Rightarrow> map_option (\<lambda>vs. v # vs) (parse_jsonl lines))"

definition parseJsonInputItems :: "jsval list \<Rightarrow> string + jsval list" where
  "parseJsonInputItems items =
     (let lines = filter (\<lambda>line. trim line \<noteq> []) (map textOf items) in
      if lines = [] then Inr []
      else case parse_jsonl lines of
        Some vs \<Rightarrow> Inr vs
      | None \<Rightarrow> (case json_parse (join [NL] lines) of
            Some v \<Rightarrow> Inr [v]
          | None \<Rightarrow> Inl ''jq expected JSON or JSONL input''))"

fun select_all :: "selector \<Rightarrow> jsval list \<Rightarrow> jsval list \<Rightarrow> string + jsval list" where
  "select_all sel [] selected = Inr selected"
| "select_all sel (v # vs) selected =
     (let selected' = selected @ selectJsonValues v sel in
      if length selected' > 1000 then Inl ''jq output exceeded the 1000-line safety cap''
      else select_all sel vs selected')"

fun format_all :: "bool \<Rightarrow> bool \<Rightarrow> jsval list \<Rightarrow> nat \<Rightarrow> jsval list \<Rightarrow> string + jsval list" where
  "format_all raw cpt [] totalChars outputItems = Inr outputItems"
| "format_all raw cpt (v # vs) totalChars outputItems =
     (let text = formatJsonSelectorValue v raw cpt;
          totalChars' = totalChars + length text
      in if totalChars' > 200000 then Inl ''jq output exceeded the 200 KB safety cap''
         else format_all raw cpt vs totalChars' (outputItems @ map plainItem (split_on NL text)))"

definition applyJsonSelectorStage ::
  "jsval list \<Rightarrow> selector \<Rightarrow> bool \<Rightarrow> bool \<Rightarrow> string + jsval list" where
  "applyJsonSelectorStage items sel raw cpt =
     (case parseJsonInputItems items of
        Inl err \<Rightarrow> Inl err
      | Inr values \<Rightarrow> (case select_all sel values [] of
            Inl err \<Rightarrow> Inl err
          | Inr selected \<Rightarrow> format_all raw cpt selected 0 []))"

section \<open>The other stages\<close>

definition numeric_prefix_re :: rx where
  "numeric_prefix_re = RSeq RBol (rx_seq
     [rx_opt (RChr (\<lambda>c. c = CHR ''-'' \<or> c = CHR ''+'')), rx_plus rx_digit,
      rx_opt (rx_lit ''.''), rx_star rx_digit])"

definition sort_number :: "string \<Rightarrow> jnum" where
  "sort_number text = (case rx_exec numeric_prefix_re text of
       Some m \<Rightarrow> str_num (fst m)
     | None \<Rightarrow> Infinity False)"

definition sort_cmp :: "filter_env \<Rightarrow> bool \<Rightarrow> jsval \<Rightarrow> jsval \<Rightarrow> int" where
  "sort_cmp env numeric a b =
     (let aText = trimStart (textOf a); bText = trimStart (textOf b) in
      if numeric then cmp_num (sort_number aText) (sort_number bText)
      else localeCompare env (toLowerCase aText) (toLowerCase bText))"

text \<open>One uniq line, then the scan with the previous text and its count.\<close>

definition uniq_line :: "bool \<Rightarrow> nat \<Rightarrow> string \<Rightarrow> jsval" where
  "uniq_line cnt n previous =
     plainItem (if cnt then padStart 7 CHR '' '' (nat_str n) @ '' '' @ previous else previous)"

definition uniq_flush :: "bool \<Rightarrow> string option \<Rightarrow> nat \<Rightarrow> jsval list" where
  "uniq_flush cnt previous n = (case previous of None \<Rightarrow> [] | Some p \<Rightarrow> [uniq_line cnt n p])"

fun uniq_scan :: "bool \<Rightarrow> string option \<Rightarrow> nat \<Rightarrow> jsval list \<Rightarrow> jsval list" where
  "uniq_scan cnt previous n [] = uniq_flush cnt previous n"
| "uniq_scan cnt previous n (item # items) =
     (let text = textOf item in
      if Some text = previous then uniq_scan cnt previous (Suc n) items
      else uniq_flush cnt previous n @ uniq_scan cnt (Some text) 1 items)"

definition grep_matcher :: "filter_env \<Rightarrow> string \<Rightarrow> bool \<Rightarrow> bool \<Rightarrow> string + (string \<Rightarrow> bool)" where
  "grep_matcher env pat ic ext =
     (if ext then (case regExp env pat ic of
          Inl msg \<Rightarrow> Inl (''Invalid synthetic grep regex: '' @ msg)
        | Inr test \<Rightarrow> Inr test)
      else let needle = (if ic then toLowerCase pat else pat)
           in Inr (\<lambda>line. str_includes (if ic then toLowerCase line else line) needle))"

text \<open>One stage: the next items, or the error line that replaces the whole result.\<close>

fun apply_stage :: "filter_env \<Rightarrow> stage \<Rightarrow> jsval list \<Rightarrow> string + jsval list" where
  "apply_stage env (StGrep pat ic ivt ext) items =
     (case grep_matcher env pat ic ext of
        Inl msg \<Rightarrow> Inl msg
      | Inr matches \<Rightarrow> Inr (filter (\<lambda>item. if ivt then \<not> matches (textOf item) else matches (textOf item)) items))"
| "apply_stage env (StHead n) items = Inr (take n items)"
| "apply_stage env (StTail n) items = Inr (if n > 0 then drop (length items - n) items else [])"
| "apply_stage env StWcL items = Inr [plainItem (nat_str (length items))]"
| "apply_stage env (StSort reverse numeric unique) items =
     (let srt = js_sort (sort_cmp env numeric) items;
          ordered = (if reverse then rev srt else srt)
      in Inr (if unique then dedup_key textOf [] ordered else ordered))"
| "apply_stage env (StUniq cnt) items = Inr (uniq_scan cnt None 0 items)"
| "apply_stage env (StJq sel raw cpt) items =
     (let lineLimit = syntheticPostFilterLineLimit env in
      if lineLimit \<noteq> 0 \<and> length items > lineLimit
      then Inl ''jq input exceeded the buffered line safety cap''
      else applyJsonSelectorStage items sel raw cpt)"

fun applySyntheticPostFilterLines :: "filter_env \<Rightarrow> jsval list \<Rightarrow> stage list \<Rightarrow> jsval list" where
  "applySyntheticPostFilterLines env items [] = items"
| "applySyntheticPostFilterLines env items (st # sts) =
     (case apply_stage env st items of
        Inl msg \<Rightarrow> [errorItem msg]
      | Inr items' \<Rightarrow> applySyntheticPostFilterLines env items' sts)"

section \<open>Sorting\<close>

lemma textOf_plainItem [simp]: "textOf (plainItem t) = t"
  by (simp add: textOf_def plainItem_def obj_get_def)

text \<open>The key of the numeric sort is a number or minus infinity, never \<open>NaN\<close>.\<close>

lemma parse_decimal_digits:
  assumes "ip \<noteq> []" "list_all is_digit ip" "list_all is_digit fp" "dot = [] \<and> fp = [] \<or> dot = ''.''"
    and "sg = [] \<or> sg = ''-'' \<or> sg = ''+''"
  shows "\<exists>r. parse_decimal (sg @ ip @ dot @ fp) = Some r"
proof -
  obtain c t where ip: "ip = c # t" using assms(1) by (cases ip) auto
  then have "c \<noteq> CHR ''-''" "c \<noteq> CHR ''+''"
    using assms(2) by (auto simp: is_digit_def char_between_def)
  then have sp: "\<exists>neg. split_sign (sg @ ip @ dot @ fp) = (neg, ip @ dot @ fp)"
    using assms(5) ip by (auto simp: split_sign_def)
  have d: "\<forall>x \<in> set ip. is_digit x" "\<forall>x \<in> set fp. is_digit x"
    using assms(2,3) by (auto simp: list_all_iff)
  have dd: "\<not> is_digit CHR ''.''" by (simp add: is_digit_def char_between_def)
  have tw: "takeWhile is_digit (ip @ dot @ fp) = ip" "dropWhile is_digit (ip @ dot @ fp) = dot @ fp"
    using d assms(4) dd by (auto simp: takeWhile_append dropWhile_append)
  have fw: "takeWhile is_digit fp = fp" "dropWhile is_digit fp = []"
    using d(2) by (simp_all add: takeWhile_eq_all_conv)
  from sp obtain neg where "split_sign (sg @ ip @ dot @ fp) = (neg, ip @ dot @ fp)" by blast
  then show ?thesis
    using assms(1,4) by (auto simp: parse_decimal_def Let_def tw fw parse_exponent_def)
qed

lemma str_num_sign_digits:
  assumes "ip \<noteq> []" "list_all is_digit ip" "list_all is_digit fp" "dot = [] \<and> fp = [] \<or> dot = ''.''"
    and "sg = [] \<or> sg = ''-'' \<or> sg = ''+''"
  shows "str_num (sg @ ip @ dot @ fp) \<noteq> NaN"
proof -
  let ?w = "sg @ ip @ dot @ fp"
  have dig: "is_digit c \<Longrightarrow> \<not> is_ws c \<and> c \<noteq> CHR ''x'' \<and> c \<noteq> CHR ''X'' \<and> c \<noteq> CHR ''o'' \<and> c \<noteq> CHR ''O'' \<and> c \<noteq> CHR ''b'' \<and> c \<noteq> CHR ''B''" for c
    by (auto simp: is_digit_def char_between_def is_ws_def)
  have chars: "\<not> is_ws c \<and> c \<noteq> CHR ''x'' \<and> c \<noteq> CHR ''X'' \<and> c \<noteq> CHR ''o'' \<and> c \<noteq> CHR ''O'' \<and> c \<noteq> CHR ''b'' \<and> c \<noteq> CHR ''B''"
    if "c \<in> set ?w" for c
  proof -
    have "is_digit c \<or> c = CHR ''.'' \<or> c = CHR ''-'' \<or> c = CHR ''+''"
      using that assms by (auto simp: list_all_iff)
    then show ?thesis
      by (elim disjE) (use dig in blast, simp_all add: is_ws_def)
  qed
  then have "trim ?w = ?w" by (intro trim_no_ws) blast
  moreover have "\<not> startsWith ?w [CHR ''0'', x]" if "x \<notin> set ?w" for x
    using that startsWith_set [of ?w "[CHR ''0'', x]" x] by (auto simp del: startsWith.simps)
  moreover obtain r where "parse_decimal ?w = Some r"
    using parse_decimal_digits [OF assms] by blast
  moreover have "CHR ''x'' \<notin> set ?w" "CHR ''X'' \<notin> set ?w" "CHR ''o'' \<notin> set ?w"
    "CHR ''O'' \<notin> set ?w" "CHR ''b'' \<notin> set ?w" "CHR ''B'' \<notin> set ?w"
    using chars by blast+
  ultimately show ?thesis
    unfolding str_num_def Let_def by simp
qed

lemma sort_number_not_NaN: "sort_number t \<noteq> NaN"
proof (cases "rx_exec numeric_prefix_re t")
  case (Some m)
  let ?r = "rx_seq [rx_opt (RChr (\<lambda>c. c = CHR ''-'' \<or> c = CHR ''+'')), rx_plus rx_digit,
      rx_opt (rx_lit ''.''), rx_star rx_digit]"
  have "fst m \<in> rlang ?r"
    using rx_exec_Bol(1) [of ?r t m] Some by (simp add: numeric_prefix_re_def)
  then obtain sg ip dot fp where w: "fst m = sg @ ip @ dot @ fp"
    and "sg = [] \<or> sg = ''-'' \<or> sg = ''+''" "ip \<noteq> []" "list_all is_digit ip" "dot = [] \<or> dot = ''.''" "list_all is_digit fp"
    unfolding rlang_seq_Cons rx_seq.simps(2) rx_digit_def rlang_plus_class rlang_star_class rlang_opt
    by (auto simp: list_all_iff)
  then have "str_num (sg @ ip @ dot @ fp) \<noteq> NaN"
  proof (cases "dot = []")
    case True
    with str_num_sign_digits [of "ip @ fp" "[]" "[]" sg] show ?thesis
      using \<open>sg = [] \<or> sg = ''-'' \<or> sg = ''+''\<close> \<open>ip \<noteq> []\<close> \<open>list_all is_digit ip\<close> \<open>list_all is_digit fp\<close> by simp
  next
    case False
    then show ?thesis
      using str_num_sign_digits [of ip fp "''.''" sg] \<open>dot = [] \<or> dot = ''.''\<close>
        \<open>sg = [] \<or> sg = ''-'' \<or> sg = ''+''\<close> \<open>ip \<noteq> []\<close> \<open>list_all is_digit ip\<close> \<open>list_all is_digit fp\<close> by simp
  qed
  with Some w show ?thesis by (simp add: sort_number_def)
qed (simp add: sort_number_def)

interpretation numeric_sort: comparator "sort_cmp env True"
  by unfold_locales
    (auto simp: sort_cmp_def Let_def cmp_num_flip intro: cmp_num_trans [OF sort_number_not_NaN sort_number_not_NaN sort_number_not_NaN])

lemma text_sort_comparator:
  "comparator (localeCompare env) \<Longrightarrow> comparator (sort_cmp env False)"
  using comparator_inv [of "localeCompare env" "\<lambda>a. toLowerCase (trimStart (textOf a))"]
  by (simp add: sort_cmp_def [abs_def] Let_def)

definition sorted_by :: "(jsval \<Rightarrow> jsval \<Rightarrow> int) \<Rightarrow> bool \<Rightarrow> jsval list \<Rightarrow> bool" where
  "sorted_by cmp reverse out \<longleftrightarrow> sorted_wrt (\<lambda>a b. cmp a b \<le> 0) (if reverse then rev out else out)"

lemma sort_stage_correct:
  assumes "comparator (sort_cmp env numeric)"
  shows "\<exists>out. apply_stage env (StSort reverse numeric False) items = Inr out \<and> mset out = mset items
    \<and> sorted_by (sort_cmp env numeric) reverse out"
  using comparator.sorted_js_sort [OF assms, of items]
  by (auto simp: Let_def sorted_by_def)


section \<open>uniq is run-length encoding\<close>

fun runs :: "string list \<Rightarrow> (nat \<times> string) list" where
  "runs [] = []"
| "runs (t # ts) = (case runs ts of
       [] \<Rightarrow> [(1, t)]
     | (n, u) # rs \<Rightarrow> if t = u then (Suc n, u) # rs else (1, t) # (n, u) # rs)"

lemma runs_expand: "concat (map (\<lambda>(n, t). replicate n t) (runs ts)) = ts"
  by (induction ts rule: runs.induct) (auto split: list.splits prod.splits if_splits)

lemma runs_pos: "(n, t) \<in> set (runs ts) \<Longrightarrow> 0 < n"
  by (induction ts arbitrary: n t rule: runs.induct) (auto split: list.splits if_splits)

lemma runs_Nil_iff [simp]: "runs ts = [] \<longleftrightarrow> ts = []"
  by (cases ts) (auto split: list.splits if_splits)

lemma hd_runs: "runs ts = (n, t) # rs \<Longrightarrow> hd ts = t"
  by (cases ts) (auto split: list.splits if_splits)

lemma runs_remdups_adj: "map snd (runs ts) = remdups_adj ts"
proof (induction ts)
  case (Cons t ts)
  then show ?case by (cases ts) (auto split: list.splits dest: hd_runs)
qed simp

text \<open>The scan that has already seen \<open>n\<close> copies of \<open>p\<close>.\<close>

lemma uniq_scan_runs:
  "uniq_scan cnt (Some p) (Suc n) items =
     (case runs (map textOf items) of
        (m, u) # rs \<Rightarrow> if u = p then map (\<lambda>(k, t). uniq_line cnt k t) ((Suc n + m, p) # rs)
          else map (\<lambda>(k, t). uniq_line cnt k t) ((Suc n, p) # (m, u) # rs)
      | [] \<Rightarrow> [uniq_line cnt (Suc n) p])"
proof (induction items arbitrary: p n)
  case Nil
  then show ?case by (simp add: uniq_flush_def)
next
  case (Cons item items)
  then show ?case
    by (auto simp: Let_def uniq_flush_def split: list.splits prod.splits if_splits)
qed

lemma uniq_stage_runs:
  "uniq_scan cnt None 0 items = map (\<lambda>(k, t). uniq_line cnt k t) (runs (map textOf items))"
proof (cases items)
  case (Cons item items')
  then show ?thesis
    using uniq_scan_runs [of cnt "textOf item" 0 items']
    by (auto simp: Let_def uniq_flush_def split: list.splits prod.splits)
qed (simp add: uniq_flush_def)

text \<open>\<^bold>\<open>C4.\<close> \<open>uniq\<close> prints each run of equal adjacent lines once (and \<open>uniq -c\<close> prefixes its length): its
  output is the run-length encoding \<open>runs\<close> of the input, which expands back to the input and
  whose texts are the input without adjacent repetitions.\<close>

theorem uniq_run_length:
  "apply_stage env (StUniq cnt) items = Inr (map (\<lambda>(k, t). uniq_line cnt k t) (runs (map textOf items)))
   \<and> concat (map (\<lambda>(k, t). replicate k t) (runs (map textOf items))) = map textOf items
   \<and> map snd (runs (map textOf items)) = remdups_adj (map textOf items)"
  by (simp add: uniq_stage_runs runs_expand runs_remdups_adj)

section \<open>Selection stages\<close>

fun selects :: "stage \<Rightarrow> bool" where
  "selects (StGrep p i v e) = True"
| "selects (StHead n) = True"
| "selects (StTail n) = True"
| "selects (StSort r n u) = True"
| "selects st = False"

lemma mset_subseq: "subseq xs ys \<Longrightarrow> mset xs \<subseteq># mset ys"
  by (induction rule: list_emb.induct) (auto intro: subset_mset.order_trans)

lemma apply_stage_selects:
  assumes "selects st" "apply_stage env st items = Inr out"
  shows "mset out \<subseteq># mset items"
proof (cases st)
  case (StHead n)
  have "mset (take n items) \<subseteq># mset items"
    by (metis append_take_drop_id mset_append mset_subset_eq_add_left)
  with StHead assms show ?thesis by simp
next
  case (StTail n)
  have "mset (drop (length items - n) items) \<subseteq># mset items"
    by (metis append_take_drop_id mset_append mset_subset_eq_add_right)
  with StTail assms show ?thesis by (auto split: if_splits)
next
  case (StSort r n u)
  have "mset (dedup_key textOf [] xs) \<subseteq># mset xs" for xs
    by (rule mset_subseq [OF subseq_dedup_key])
  from this [of "js_sort (sort_cmp env n) items"] this [of "rev (js_sort (sort_cmp env n) items)"] StSort assms
  show ?thesis by (auto simp: Let_def split: if_splits)
qed (use assms in \<open>auto split: sum.splits\<close>)

lemma apply_error_single: "apply_stage env st items = Inl msg \<Longrightarrow>
   applySyntheticPostFilterLines env items (st # sts) = [errorItem msg]"
  by simp


definition sample_env :: filter_env where
  "sample_env = \<lparr>regExp = (\<lambda>p i. Inl ''Unterminated group''), localeCompare = (\<lambda>a b. int (length a) - int (length b)),
     maxOutputLines = JUndef, app_max_output_lines = JInt 50\<rparr>"


section \<open>Safety caps of the jq stage\<close>

lemma select_all_bound: "length acc \<le> 1000 \<Longrightarrow> select_all sel vs acc = Inr out \<Longrightarrow> length out \<le> 1000"
  by (induction sel vs acc rule: select_all.induct) (auto simp: Let_def split: if_splits)

lemma length_split_on: "length (split_on d s) \<le> Suc (length s)"
  by (induction s) (auto split: list.splits)

lemma format_all_bound:
  "format_all raw cpt vs tot acc = Inr out \<Longrightarrow> tot \<le> 200000 \<Longrightarrow>
   length out + tot \<le> length acc + length vs + 200000"
proof (induction raw cpt vs tot acc rule: format_all.induct)
  case (2 raw cpt v vs tot acc)
  let ?text = "formatJsonSelectorValue v raw cpt"
  have "length out + (tot + length ?text) \<le> length (acc @ map plainItem (split_on NL ?text)) + length vs + 200000"
    using 2 by (auto simp: Let_def split: if_splits)
  then show ?case using length_split_on [of NL ?text] by simp
qed auto

text \<open>A jq stage never floods the page: it either fails with an error line or returns at most
  201000 lines (1000 values of 200000 characters in all), and it accepts at most the configured
  number of input lines.\<close>

theorem jq_stage_bounded:
  assumes "apply_stage env (StJq sel raw cpt) items = Inr out"
  shows "length out \<le> 201000
    \<and> (0 < syntheticPostFilterLineLimit env \<longrightarrow> length items \<le> syntheticPostFilterLineLimit env)"
proof -
  have "applyJsonSelectorStage items sel raw cpt = Inr out"
    and lim: "0 < syntheticPostFilterLineLimit env \<longrightarrow> length items \<le> syntheticPostFilterLineLimit env"
    using assms by (auto simp: Let_def split: if_splits)
  then obtain vs selected where s: "select_all sel vs [] = Inr selected"
    and f: "format_all raw cpt selected 0 [] = Inr out"
    by (auto simp: applyJsonSelectorStage_def split: sum.splits)
  have "length selected \<le> 1000" using select_all_bound [OF _ s] by simp
  with format_all_bound [OF f] lim show ?thesis by simp
qed

theorem jq_stage_bounded_witness:
  "length [plainItem ''7''] \<le> 201000 \<and>
   length [JStr ''{}'', JStr (''{'' @ [DQ] @ ''a'' @ [DQ] @ '':7}'')] \<le> syntheticPostFilterLineLimit sample_env"
proof -
  have pos: "0 < syntheticPostFilterLineLimit sample_env" by code_simp
  have "apply_stage sample_env (StJq (SelField [''a'']) True False)
      [JStr ''{}'', JStr (''{'' @ [DQ] @ ''a'' @ [DQ] @ '':7}'')] = Inr [plainItem ''7'']"
  proof -
    have "parseJsonInputItems [JStr ''{}'', JStr (''{'' @ [DQ] @ ''a'' @ [DQ] @ '':7}'')]
        = Inr [JObj [], JObj [(''a'', JInt 7)]]"
      "formatJsonSelectorValue (JInt 7) True False = ''7''"
      "syntheticPostFilterLineLimit sample_env = 50"
      by code_simp+
    then show ?thesis
      by (simp add: applyJsonSelectorStage_def obj_has_def obj_get_def)
  qed
  from jq_stage_bounded [OF this] pos show ?thesis by blast
qed

end
