(* ===== verification/Command_Lifecycle.thy ===== *)
theory Command_Lifecycle
  imports JS_Value
begin

text \<open>
  The completion contract of terminal commands, \<open>app/static/js/features/runner/command_lifecycle.js\<close>:
  normalised results, the state a running command collects, and the coordinator that settles each
  result once. The callbacks of the coordinator are parameters that may throw; what it calls, and in
  which order, is the list of events it returns.
\<close>

section \<open>Normalised lines and results\<close>

definition COMMAND_RESULT_STATUSES :: "string list" where
  "COMMAND_RESULT_STATUSES = [''idle'', ''ok'', ''fail'', ''killed'']"

definition COMMAND_RESULT_PERSISTENCE :: "string list" where
  "COMMAND_RESULT_PERSISTENCE = [''none'', ''client'', ''server'']"

definition MAX_COMPLETION_KEYS :: nat where
  "MAX_COMPLETION_KEYS = 4096"

record command_line =
  cl_text :: string
  cl_cls :: string
  cl_kind :: "string option"
  cl_role :: "string option"
  cl_metadata :: "jsobj option"
  cl_rendered :: bool

text \<open>\<open>typeof v === 'string' && v\<close>, and an object that is no array.\<close>

fun text_field :: "jsval \<Rightarrow> string option" where
  "text_field (JStr s) = (if s = [] then None else Some s)"
| "text_field v = None"

fun plain_field :: "jsval \<Rightarrow> jsobj option" where
  "plain_field (JObj ob) = Some ob"
| "plain_field v = None"

definition normalizeCommandLine :: "jsval \<Rightarrow> command_line" where
  "normalizeCommandLine line =
     (let value = (if is_plain line then line else JObj [(''text'', line)]) in
      \<lparr>cl_text = to_str (js_nullish (jprop value ''text'') (JStr [])), cl_cls = str_or (jprop value ''cls'') [],
       cl_kind = text_field (jprop value ''kind''), cl_role = text_field (jprop value ''role''),
       cl_metadata = plain_field (jprop value ''metadata''), cl_rendered = (jprop value ''rendered'' = JBool True)\<rparr>)"

definition commandExitCode :: "string \<Rightarrow> jsval \<Rightarrow> int" where
  "commandExitCode status exitCode =
     (let fallback = (if status = ''fail'' then 1 else if status = ''killed'' then - 15 else 0) in
      if exitCode = JNull \<or> exitCode = JUndef \<or> exitCode = JStr [] then fallback
      else case to_num exitCode of Fin r \<Rightarrow> if of_int \<lfloor>r\<rfloor> = r then \<lfloor>r\<rfloor> else fallback | _ \<Rightarrow> fallback)"

definition commandStatus :: "string \<Rightarrow> jsval \<Rightarrow> string" where
  "commandStatus status exitCode =
     (let value = (if status \<in> set COMMAND_RESULT_STATUSES then status else []) in
      if value = ''killed'' then ''killed'' else if value = ''fail'' then ''fail'' else if value = ''ok'' then ''ok''
      else if commandExitCode value exitCode = 0 then ''ok'' else ''fail'')"

definition normalizeCommandEffects :: "jsval \<Rightarrow> string list" where
  "normalizeCommandEffects effects = map fst (filter (\<lambda>(k, enabled). enabled = JBool True) (obj_entries effects))"

record command_result =
  cr_command :: string
  cr_safeCommand :: string
  cr_tabId :: string
  cr_source :: string
  cr_completionKey :: string
  cr_lines :: "command_line list"
  cr_status :: string
  cr_exitCode :: int
  cr_persistence :: string
  cr_recordRecent :: bool
  cr_renderExit :: bool
  cr_elapsed :: string
  cr_suppressExitLine :: bool
  cr_effects :: "string list"
  cr_metadata :: jsobj
  cr_savedRun :: "jsobj option"

text \<open>\<open>source.k ?? base.k\<close> and \<open>source.k || base.k\<close>.\<close>

definition pick :: "jsval \<Rightarrow> jsval \<Rightarrow> string \<Rightarrow> jsval" where
  "pick source base k = js_nullish (jprop source k) (jprop base k)"

definition pick_or :: "jsval \<Rightarrow> jsval \<Rightarrow> string \<Rightarrow> jsval" where
  "pick_or source base k = js_or (jprop source k) (jprop base k)"

definition pick_str :: "jsval \<Rightarrow> jsval \<Rightarrow> string \<Rightarrow> string \<Rightarrow> string" where
  "pick_str source base k d = to_str (js_nullish (pick source base k) (JStr d))"

definition normalizePersistence :: "string \<Rightarrow> string" where
  "normalizePersistence value = (if value \<in> set COMMAND_RESULT_PERSISTENCE then value else ''none'')"

definition normalizeCommandResult :: "jsval \<Rightarrow> jsval \<Rightarrow> command_result" where
  "normalizeCommandResult result defaults =
     (let source = (if is_plain result then result else JObj []);
          base = (if is_plain defaults then defaults else JObj []);
          rawStatus = toLowerCase (str_or (pick_or source base ''status'') ''idle'');
          rawExitCode = js_nullish (pick source base ''exitCode'') JNull;
          status = commandStatus rawStatus rawExitCode;
          command = trim (pick_str source base ''command'' []);
          safeCommand = trim (pick_str source base ''safeCommand'' command);
          tabId = pick_str source base ''tabId'' [];
          lines = (if is_arr (jprop source ''lines'') then arr_items (jprop source ''lines'') else arr_items (jprop base ''lines''));
          metadata = (case plain_field (jprop source ''metadata'') of Some ob \<Rightarrow> ob
            | None \<Rightarrow> (case plain_field (jprop base ''metadata'') of Some ob \<Rightarrow> ob | None \<Rightarrow> []))
      in \<lparr>cr_command = command, cr_safeCommand = safeCommand, cr_tabId = tabId,
          cr_source = str_or (pick_or source base ''source'') ''browser'',
          cr_completionKey = pick_str source base ''completionKey''
            (str_or (pick_or source base ''source'') ''command'' @ '':'' @ tabId @ '':'' @ safeCommand),
          cr_lines = map normalizeCommandLine lines, cr_status = status,
          cr_exitCode = commandExitCode status rawExitCode,
          cr_persistence = normalizePersistence (toLowerCase (str_or (pick_or source base ''persistence'') ''none'')),
          cr_recordRecent = (pick source base ''recordRecent'' = JBool True),
          cr_renderExit = (pick source base ''renderExit'' = JBool True),
          cr_elapsed = pick_str source base ''elapsed'' [],
          cr_suppressExitLine = (pick source base ''suppressExitLine'' = JBool True),
          cr_effects = normalizeCommandEffects (pick_or source base ''effects''),
          cr_metadata = metadata, cr_savedRun = None\<rparr>)"

section \<open>A running command\<close>

record execution =
  ex_command :: string
  ex_safeCommand :: string
  ex_tabId :: string
  ex_source :: string
  ex_completionKey :: string
  ex_persistence :: jsval
  ex_recordRecent :: jsval
  ex_status :: string
  ex_exitCode :: "int option"
  ex_lines :: "command_line list"
  ex_effects :: jsobj
  ex_pending :: bool
  ex_delegated :: bool
  ex_completed :: bool

text \<open>
  \<open>commandExecutionSequence\<close> is passed in and returned. The arguments are the properties of the
  object the function destructures, with the defaults of its signature applied by the caller.
\<close>

definition createCommandExecution :: "nat \<Rightarrow> jsval \<Rightarrow> jsval \<Rightarrow> jsval \<Rightarrow> jsval \<Rightarrow> jsval \<Rightarrow> jsval \<Rightarrow> nat \<times> execution" where
  "createCommandExecution sequence command safeCommand tabId source persistence recordRecent =
     (Suc sequence,
      \<lparr>ex_command = trim (str_or command []), ex_safeCommand = trim (to_str (js_or safeCommand (js_or command (JStr [])))),
       ex_tabId = str_or tabId [], ex_source = str_or source ''browser'',
       ex_completionKey = ''client:'' @ nat_str (Suc sequence), ex_persistence = persistence,
       ex_recordRecent = recordRecent, ex_status = ''idle'', ex_exitCode = None, ex_lines = [], ex_effects = [],
       ex_pending = False, ex_delegated = False, ex_completed = False\<rparr>)"

text \<open>
  \<open>appendLine\<close> with the presence of the two streaming callbacks; the second result is the line handed to
  one of them, if any.
\<close>

definition appendLine :: "bool \<Rightarrow> bool \<Rightarrow> execution \<Rightarrow> jsval \<Rightarrow> jsval \<Rightarrow> jsval \<Rightarrow> execution \<times> command_line option" where
  "appendLine hasStream hasPending st text cls metadata =
     (let line = normalizeCommandLine (JObj [(''text'', text), (''cls'', cls), (''metadata'', metadata)]);
          streamed = (hasStream \<or> (ex_pending st \<and> hasPending));
          stored = (if streamed then line\<lparr>cl_rendered := True\<rparr> else line)
      in (st\<lparr>ex_lines := ex_lines st @ [stored]\<rparr>, if streamed then Some line else None))"

definition captureRenderedLine :: "execution \<Rightarrow> jsval \<Rightarrow> jsval \<Rightarrow> jsval \<Rightarrow> execution" where
  "captureRenderedLine st text cls metadata =
     st\<lparr>ex_lines := ex_lines st @ [normalizeCommandLine
        (JObj [(''text'', text), (''cls'', cls), (''metadata'', metadata), (''rendered'', JBool True)])]\<rparr>"

definition setStatus :: "execution \<Rightarrow> string \<Rightarrow> jsval \<Rightarrow> execution" where
  "setStatus st status exitCode =
     (let st1 = st\<lparr>ex_status := (if status \<in> set COMMAND_RESULT_STATUSES then status else ''idle'')\<rparr> in
      if exitCode = JNull \<or> exitCode = JUndef \<or> exitCode = JStr [] then st1
      else case to_num exitCode of
        Fin r \<Rightarrow> if of_int \<lfloor>r\<rfloor> = r then st1\<lparr>ex_exitCode := Some \<lfloor>r\<rfloor>\<rparr> else st1
      | _ \<Rightarrow> st1)"

definition setRecordRecent :: "execution \<Rightarrow> jsval \<Rightarrow> execution" where
  "setRecordRecent st enabled = st\<lparr>ex_recordRecent := JBool (enabled = JBool True)\<rparr>"

definition setSafeCommand :: "execution \<Rightarrow> jsval \<Rightarrow> execution" where
  "setSafeCommand st value =
     (let safeCommand = trim (str_or value []) in if safeCommand \<noteq> [] then st\<lparr>ex_safeCommand := safeCommand\<rparr> else st)"

definition setPersistence :: "execution \<Rightarrow> string \<Rightarrow> execution" where
  "setPersistence st value = st\<lparr>ex_persistence := JStr (normalizePersistence value)\<rparr>"

definition requestEffect :: "execution \<Rightarrow> jsval \<Rightarrow> jsval \<Rightarrow> execution" where
  "requestEffect st name enabled =
     (let key = trim (str_or name []) in
      if key \<noteq> [] then st\<lparr>ex_effects := obj_set (ex_effects st) key (JBool (enabled = JBool True))\<rparr> else st)"

definition setPending :: "execution \<Rightarrow> jsval \<Rightarrow> execution" where
  "setPending st enabled = st\<lparr>ex_pending := (enabled = JBool True)\<rparr>"

definition delegate :: "execution \<Rightarrow> execution" where
  "delegate st = st\<lparr>ex_delegated := True, ex_persistence := JStr ''none'', ex_recordRecent := JBool False\<rparr>"

definition markCompleted :: "execution \<Rightarrow> execution" where
  "markCompleted st = st\<lparr>ex_completed := True\<rparr>"

text \<open>The objects behind the records, as a spread or a callback sees them.\<close>

definition opt_entry :: "string \<Rightarrow> jsval option \<Rightarrow> jsobj" where
  "opt_entry k v = (case v of None \<Rightarrow> [] | Some w \<Rightarrow> [(k, w)])"

definition line_obj :: "command_line \<Rightarrow> jsval" where
  "line_obj l = JObj ([(''text'', JStr (cl_text l)), (''cls'', JStr (cl_cls l))]
     @ opt_entry ''kind'' (map_option JStr (cl_kind l)) @ opt_entry ''role'' (map_option JStr (cl_role l))
     @ opt_entry ''metadata'' (map_option JObj (cl_metadata l))
     @ (if cl_rendered l then [(''rendered'', JBool True)] else []))"

definition execution_obj :: "execution \<Rightarrow> jsobj" where
  "execution_obj st =
     [(''command'', JStr (ex_command st)), (''safeCommand'', JStr (ex_safeCommand st)), (''tabId'', JStr (ex_tabId st)),
      (''source'', JStr (ex_source st)), (''completionKey'', JStr (ex_completionKey st)), (''persistence'', ex_persistence st),
      (''recordRecent'', ex_recordRecent st), (''status'', JStr (ex_status st)),
      (''exitCode'', case ex_exitCode st of None \<Rightarrow> JNull | Some n \<Rightarrow> JInt n),
      (''lines'', JArr (map line_obj (ex_lines st))), (''effects'', JObj (ex_effects st)), (''pending'', JBool (ex_pending st)),
      (''delegated'', JBool (ex_delegated st)), (''completed'', JBool (ex_completed st))]"

definition toResult :: "execution \<Rightarrow> jsval \<Rightarrow> command_result" where
  "toResult st overrides =
     (let merged = obj_assign (execution_obj st) (obj_entries overrides);
          lines = (if is_arr (jprop overrides ''lines'') then jprop overrides ''lines'' else JArr (map line_obj (ex_lines st)));
          effects = JObj (obj_assign (ex_effects st) (obj_entries (jprop overrides ''effects'')))
      in normalizeCommandResult (JObj (obj_set (obj_set merged ''lines'' lines) ''effects'' effects)) (JObj []))"

definition result_obj :: "command_result \<Rightarrow> jsval" where
  "result_obj r = JObj
     [(''command'', JStr (cr_command r)), (''safeCommand'', JStr (cr_safeCommand r)), (''tabId'', JStr (cr_tabId r)),
      (''source'', JStr (cr_source r)), (''completionKey'', JStr (cr_completionKey r)),
      (''lines'', JArr (map line_obj (cr_lines r))), (''status'', JStr (cr_status r)), (''exitCode'', JInt (cr_exitCode r)),
      (''persistence'', JStr (cr_persistence r)), (''recordRecent'', JBool (cr_recordRecent r)),
      (''renderExit'', JBool (cr_renderExit r)), (''elapsed'', JStr (cr_elapsed r)),
      (''suppressExitLine'', JBool (cr_suppressExitLine r)),
      (''effects'', JObj (map (\<lambda>k. (k, JBool True)) (cr_effects r))), (''metadata'', JObj (cr_metadata r))]"

section \<open>The completion coordinator\<close>

type_synonym failure = string

text \<open>
  The callbacks: absent (\<^const>\<open>None\<close>), or a function that may fail. \<open>persistClient\<close> is awaited and
  gives the saved run.
\<close>

record callbacks =
  renderLine :: "(command_line \<Rightarrow> command_result \<Rightarrow> failure option) option"
  renderExit :: "(command_result \<Rightarrow> failure option) option"
  applyStatus :: "(command_result \<Rightarrow> failure option) option"
  recordRecent :: "(string \<Rightarrow> command_result \<Rightarrow> jsval \<Rightarrow> failure option) option"
  persistClient :: "(command_result \<Rightarrow> failure + jsval) option"
  afterComplete :: "(command_result \<Rightarrow> failure option) option"
  onError :: "(failure \<Rightarrow> command_result \<Rightarrow> failure option) option"

datatype event = RenderLine command_line | RenderExit | ApplyStatus | PersistClient | RecordRecent string
  | AfterComplete | OnError failure

datatype outcome = Skipped command_result | Completed command_result | Failed command_result failure | Rejected failure

text \<open>A callback that is called when it is present: the event, and the failure that ends the sequence.\<close>

definition call :: "event \<Rightarrow> failure option option \<Rightarrow> event list \<times> failure option" where
  "call e r = (case r of None \<Rightarrow> ([], None) | Some f \<Rightarrow> ([e], f))"

definition and_then :: "event list \<times> failure option \<Rightarrow> event list \<times> failure option \<Rightarrow> event list \<times> failure option" where
  "and_then a b = (case snd a of None \<Rightarrow> (fst a @ fst b, snd b) | Some f \<Rightarrow> a)"

definition render_lines :: "callbacks \<Rightarrow> command_result \<Rightarrow> event list \<times> failure option" where
  "render_lines cb r = foldr (\<lambda>l rest. and_then (call (RenderLine l) (map_option (\<lambda>f. f l r) (renderLine cb))) rest)
     (filter (\<lambda>l. \<not> cl_rendered l) (cr_lines r)) ([], None)"

text \<open>The part before the await, and the awaited saved run.\<close>

definition present_result :: "callbacks \<Rightarrow> command_result \<Rightarrow> event list \<times> failure option" where
  "present_result cb r =
     and_then (render_lines cb r)
       (and_then (if cr_renderExit r \<and> \<not> cr_suppressExitLine r then call RenderExit (map_option (\<lambda>f. f r) (renderExit cb)) else ([], None))
          (call ApplyStatus (map_option (\<lambda>f. f r) (applyStatus cb))))"

definition persist_result :: "callbacks \<Rightarrow> command_result \<Rightarrow> event list \<times> (failure + (jsval \<times> command_result))" where
  "persist_result cb r = (case persistClient cb of
       None \<Rightarrow> ([], Inr (JNull, r))
     | Some f \<Rightarrow>
         if cr_persistence r \<noteq> ''client'' then ([], Inr (JNull, r))
         else ([PersistClient], case f r of
             Inl e \<Rightarrow> Inl e
           | Inr savedRun \<Rightarrow> (case plain_field savedRun of
               None \<Rightarrow> Inr (savedRun, r)
             | Some ob \<Rightarrow>
                 let savedCommand = trim (str_or (obj_get ob ''command'') []);
                     r1 = r\<lparr>cr_savedRun := Some ob\<rparr>
                 in Inr (savedRun, if savedCommand \<noteq> [] then r1\<lparr>cr_safeCommand := savedCommand\<rparr> else r1))))"

definition finish_result :: "callbacks \<Rightarrow> jsval \<Rightarrow> command_result \<Rightarrow> event list \<times> failure option" where
  "finish_result cb savedRun r =
     and_then (if cr_recordRecent r \<and> cr_safeCommand r \<noteq> []
               then call (RecordRecent (cr_safeCommand r)) (map_option (\<lambda>f. f (cr_safeCommand r) r savedRun) (recordRecent cb))
               else ([], None))
       (call AfterComplete (map_option (\<lambda>f. f r) (afterComplete cb)))"

definition fail_result :: "callbacks \<Rightarrow> event list \<Rightarrow> command_result \<Rightarrow> failure \<Rightarrow> event list \<times> outcome" where
  "fail_result cb evs r e = (case onError cb of
       None \<Rightarrow> (evs, Failed r e)
     | Some f \<Rightarrow> (evs @ [OnError e], case f e r of None \<Rightarrow> Failed r e | Some e2 \<Rightarrow> Rejected e2))"

definition settle :: "callbacks \<Rightarrow> command_result \<Rightarrow> event list \<times> outcome" where
  "settle cb r = (case present_result cb r of
       (evs, Some e) \<Rightarrow> fail_result cb evs r e
     | (evs, None) \<Rightarrow> (case persist_result cb r of
           (evs2, Inl e) \<Rightarrow> fail_result cb (evs @ evs2) r e
         | (evs2, Inr (saved, r2)) \<Rightarrow> (case finish_result cb saved r2 of
               (evs3, Some e) \<Rightarrow> fail_result cb (evs @ evs2 @ evs3) r2 e
             | (evs3, None) \<Rightarrow> (evs @ evs2 @ evs3, Completed r2))))"

text \<open>\<open>completedKeys\<close> is the list of the keys in insertion order.\<close>

definition remember_key :: "string list \<Rightarrow> string \<Rightarrow> string list" where
  "remember_key keys k =
     (let added = (if k \<in> set keys then keys else keys @ [k]) in
      if length added > MAX_COMPLETION_KEYS then drop 1 added else added)"

definition complete :: "callbacks \<Rightarrow> string list \<Rightarrow> jsval \<Rightarrow> jsval \<Rightarrow> string list \<times> event list \<times> outcome" where
  "complete cb keys value defaults =
     (let r = normalizeCommandResult value defaults in
      if cr_completionKey r \<in> set keys then (keys, [], Skipped r)
      else (remember_key keys (cr_completionKey r), settle cb r))"

definition hasCompleted :: "string list \<Rightarrow> jsval \<Rightarrow> bool" where
  "hasCompleted keys key \<longleftrightarrow> str_or key [] \<in> set keys"

section \<open>Normalising twice\<close>

definition valid_line :: "command_line \<Rightarrow> bool" where
  "valid_line l \<longleftrightarrow> cl_kind l \<noteq> Some [] \<and> cl_role l \<noteq> Some []"

definition valid_result :: "command_result \<Rightarrow> bool" where
  "valid_result r \<longleftrightarrow> trimmed (cr_command r) \<and> trimmed (cr_safeCommand r) \<and> list_all valid_line (cr_lines r)
     \<and> cr_status r \<in> {''ok'', ''fail'', ''killed''} \<and> cr_persistence r \<in> set COMMAND_RESULT_PERSISTENCE
     \<and> cr_source r \<noteq> [] \<and> cr_savedRun r = None"

lemma text_field_nonempty: "text_field v \<noteq> Some []"
  by (cases v) auto

lemma valid_normalizeCommandLine: "valid_line (normalizeCommandLine v)"
  by (simp add: valid_line_def normalizeCommandLine_def Let_def text_field_nonempty)

lemma obj_get_opt_entry: "obj_get (opt_entry j v @ ob) k = (if j = k \<and> v \<noteq> None then the v else obj_get ob k)"
  by (cases v) (auto simp: opt_entry_def obj_get_def)

lemma text_field_opt: "v \<noteq> Some [] \<Longrightarrow> text_field (if v \<noteq> None then JStr (the v) else JUndef) = v"
  by (cases v) auto

lemma plain_field_opt: "plain_field (if v \<noteq> None then JObj (the v) else JUndef) = v"
  by (cases v) auto

lemma normalize_line_obj: "valid_line l \<Longrightarrow> normalizeCommandLine (line_obj l) = l"
  by (cases l; cases "cl_kind l"; cases "cl_role l"; cases "cl_metadata l"; cases "cl_rendered l")
    (simp_all add: normalizeCommandLine_def line_obj_def jprop_def Let_def obj_get_def opt_entry_def
      js_nullish_def str_or_def js_or_def valid_line_def)

lemma commandStatus_final: "s \<in> {''ok'', ''fail'', ''killed''} \<Longrightarrow> commandStatus s x = s"
  by (auto simp: commandStatus_def COMMAND_RESULT_STATUSES_def)

lemma commandStatus_range: "commandStatus s x \<in> {''ok'', ''fail'', ''killed''}"
  by (simp add: commandStatus_def Let_def)

lemma commandExitCode_int [simp]: "commandExitCode s (JInt n) = n"
  by (simp add: commandExitCode_def Let_def)

lemma normalizePersistence_range: "normalizePersistence v \<in> set COMMAND_RESULT_PERSISTENCE"
  by (simp add: normalizePersistence_def COMMAND_RESULT_PERSISTENCE_def)

lemma normalizePersistence_id: "v \<in> set COMMAND_RESULT_PERSISTENCE \<Longrightarrow> normalizePersistence v = v"
  by (simp add: normalizePersistence_def)

lemma persistence_lower: "v \<in> set COMMAND_RESULT_PERSISTENCE \<Longrightarrow> toLowerCase v = v \<and> v \<noteq> []"
proof -
  have "list_all (\<lambda>v. toLowerCase v = v \<and> v \<noteq> []) COMMAND_RESULT_PERSISTENCE" by code_simp
  then show "v \<in> set COMMAND_RESULT_PERSISTENCE \<Longrightarrow> toLowerCase v = v \<and> v \<noteq> []" by (simp add: list_all_iff)
qed

lemma status_lower: "s \<in> {''ok'', ''fail'', ''killed''} \<Longrightarrow> toLowerCase s = s \<and> s \<noteq> []"
proof -
  have "list_all (\<lambda>v. toLowerCase v = v \<and> v \<noteq> []) [''ok'', ''fail'', ''killed'']" by code_simp
  then show "s \<in> {''ok'', ''fail'', ''killed''} \<Longrightarrow> toLowerCase s = s \<and> s \<noteq> []" by auto
qed

lemma effects_obj: "normalizeCommandEffects (JObj (map (\<lambda>k. (k, JBool True)) ks)) = ks"
  by (induction ks) (simp_all add: normalizeCommandEffects_def)

lemma valid_normalizeCommandResult:
  "cr_source (normalizeCommandResult v d) \<noteq> [] \<Longrightarrow> valid_result (normalizeCommandResult v d)"
  using commandStatus_range normalizePersistence_range
  by (auto simp: valid_result_def normalizeCommandResult_def Let_def list_all_iff valid_normalizeCommandLine)

lemma jprop_result_obj:
  "jprop (result_obj r) ''command'' = JStr (cr_command r)" "jprop (result_obj r) ''safeCommand'' = JStr (cr_safeCommand r)"
  "jprop (result_obj r) ''tabId'' = JStr (cr_tabId r)" "jprop (result_obj r) ''source'' = JStr (cr_source r)"
  "jprop (result_obj r) ''completionKey'' = JStr (cr_completionKey r)"
  "jprop (result_obj r) ''lines'' = JArr (map line_obj (cr_lines r))" "jprop (result_obj r) ''status'' = JStr (cr_status r)"
  "jprop (result_obj r) ''exitCode'' = JInt (cr_exitCode r)" "jprop (result_obj r) ''persistence'' = JStr (cr_persistence r)"
  "jprop (result_obj r) ''recordRecent'' = JBool (cr_recordRecent r)" "jprop (result_obj r) ''renderExit'' = JBool (cr_renderExit r)"
  "jprop (result_obj r) ''elapsed'' = JStr (cr_elapsed r)" "jprop (result_obj r) ''suppressExitLine'' = JBool (cr_suppressExitLine r)"
  "jprop (result_obj r) ''effects'' = JObj (map (\<lambda>k. (k, JBool True)) (cr_effects r))"
  "jprop (result_obj r) ''metadata'' = JObj (cr_metadata r)"
  by (simp_all add: result_obj_def jprop_def obj_get_def)

lemma normalize_result_obj:
  assumes "valid_result r"
  shows "normalizeCommandResult (result_obj r) d = r"
proof -
  have pl: "is_plain (result_obj r)" by (simp add: result_obj_def)
  have st: "commandStatus (cr_status r) x = cr_status r" "toLowerCase (cr_status r) = cr_status r" "cr_status r \<noteq> []" for x
    using assms commandStatus_final status_lower unfolding valid_result_def by blast+
  have pe: "toLowerCase (cr_persistence r) = cr_persistence r" "cr_persistence r \<noteq> []"
    "normalizePersistence (cr_persistence r) = cr_persistence r"
    using assms persistence_lower normalizePersistence_id unfolding valid_result_def by blast+
  have li: "map (normalizeCommandLine \<circ> line_obj) (cr_lines r) = cr_lines r"
    using assms normalize_line_obj unfolding valid_result_def by (auto simp: list_all_iff intro: map_idI)
  have tr: "trim (cr_command r) = cr_command r" "trim (cr_safeCommand r) = cr_safeCommand r" "cr_source r \<noteq> []" "cr_savedRun r = None"
    using assms by (auto simp: valid_result_def trim_id)
  show ?thesis
    unfolding normalizeCommandResult_def
    by (simp add: Let_def pl jprop_result_obj pick_def pick_or_def pick_str_def str_or_def js_nullish_def js_or_def st pe li tr effects_obj)
qed

interpretation result_norm: normaliser "\<lambda>r. normalizeCommandResult (result_obj r) (JObj [])" valid_result
proof
  fix r
  have "is_plain (result_obj r)" by (simp add: result_obj_def)
  then have "cr_source (normalizeCommandResult (result_obj r) (JObj [])) \<noteq> []"
    by (simp add: normalizeCommandResult_def Let_def str_or_def pick_or_def jprop_result_obj js_or_def)
  then show "valid_result (normalizeCommandResult (result_obj r) (JObj []))" by (rule valid_normalizeCommandResult)
next
  fix r
  assume "valid_result r"
  then show "normalizeCommandResult (result_obj r) (JObj []) = r" by (rule normalize_result_obj)
qed

text \<open>
  Every layer of the terminal may normalise a command result again without changing it: the
  normal form of any value, under any defaults, is left alone by a second normalisation under any other
  defaults, and its status is a settled one (never \<open>idle\<close>) and its persistence a known one. (A result
  whose source is written as an empty array is the one exception: its source reads as empty.)
\<close>

theorem normalise_result_twice:
  assumes "cr_source (normalizeCommandResult v d) \<noteq> []"
  shows "normalizeCommandResult (result_obj (normalizeCommandResult v d)) d' = normalizeCommandResult v d
    \<and> cr_status (normalizeCommandResult v d) \<in> {''ok'', ''fail'', ''killed''}
    \<and> cr_persistence (normalizeCommandResult v d) \<in> set COMMAND_RESULT_PERSISTENCE"
  using valid_normalizeCommandResult [OF assms] normalize_result_obj unfolding valid_result_def by simp

theorem normalise_result_twice_witness:
  "normalizeCommandResult (result_obj (normalizeCommandResult (JObj [(''command'', JStr '' id ''), (''exitCode'', JStr ''2'')]) JNull))
       (JObj [(''exitCode'', JInt 0)])
     = normalizeCommandResult (JObj [(''command'', JStr '' id ''), (''exitCode'', JStr ''2'')]) JNull
   \<and> cr_status (normalizeCommandResult (JObj [(''command'', JStr '' id ''), (''exitCode'', JStr ''2'')]) JNull) = ''fail''"
proof -
  let ?v = "JObj [(''command'', JStr '' id ''), (''exitCode'', JStr ''2'')]"
  have "cr_source (normalizeCommandResult ?v JNull) \<noteq> []" by code_simp
  moreover have "cr_status (normalizeCommandResult ?v JNull) = ''fail''" by code_simp
  ultimately show ?thesis using normalise_result_twice [of ?v JNull "JObj [(''exitCode'', JInt 0)]"] by simp
qed

section \<open>Each key settles once\<close>

fun complete_all :: "callbacks \<Rightarrow> string list \<Rightarrow> (jsval \<times> jsval) list \<Rightarrow> string list \<times> (event list \<times> outcome) list" where
  "complete_all cb keys [] = (keys, [])"
| "complete_all cb keys ((v, d) # cs) =
     (case complete cb keys v d of (keys1, res) \<Rightarrow> (case complete_all cb keys1 cs of (keys2, rest) \<Rightarrow> (keys2, res # rest)))"

definition call_key :: "jsval \<times> jsval \<Rightarrow> string" where
  "call_key c = cr_completionKey (normalizeCommandResult (fst c) (snd c))"

fun is_skipped :: "event list \<times> outcome \<Rightarrow> bool" where
  "is_skipped (evs, Skipped r) = True"
| "is_skipped (evs, oc) = False"

definition settled_keys :: "callbacks \<Rightarrow> string list \<Rightarrow> (jsval \<times> jsval) list \<Rightarrow> string list" where
  "settled_keys cb keys calls =
     map (call_key \<circ> fst) (filter (\<lambda>(c, res). \<not> is_skipped res) (zip calls (snd (complete_all cb keys calls))))"

definition recent :: "nat \<Rightarrow> 'a list \<Rightarrow> 'a list" where
  "recent n xs = drop (length xs - n) xs"

definition apart :: "nat \<Rightarrow> 'a list \<Rightarrow> bool" where
  "apart n xs \<longleftrightarrow> (\<forall>j<length xs. \<forall>i<j. j - i \<le> n \<longrightarrow> xs ! i \<noteq> xs ! j)"

lemma not_skipped_fail: "\<not> is_skipped (fail_result cb evs r e)"
  by (auto simp: fail_result_def split: option.splits)

lemma not_skipped_settle: "\<not> is_skipped (settle cb r)"
  by (auto simp: settle_def not_skipped_fail split: option.splits sum.splits prod.splits)

lemma settled_keys_Nil [simp]: "settled_keys cb keys [] = []"
  by (simp add: settled_keys_def)

lemma settled_keys_Cons:
  "settled_keys cb keys (c # cs) =
     (if call_key c \<in> set keys then settled_keys cb keys cs
      else call_key c # settled_keys cb (remember_key keys (call_key c)) cs)"
  by (cases c) (auto simp: settled_keys_def complete_def call_key_def Let_def not_skipped_settle split: prod.splits)

lemma complete_all_keys_Cons:
  "fst (complete_all cb keys (c # cs)) =
     (if call_key c \<in> set keys then fst (complete_all cb keys cs)
      else fst (complete_all cb (remember_key keys (call_key c)) cs))"
  by (cases c) (auto simp: complete_def call_key_def Let_def split: prod.splits)

lemma remember_key_recent:
  assumes "k \<notin> set (recent MAX_COMPLETION_KEYS h)"
  shows "remember_key (recent MAX_COMPLETION_KEYS h) k = recent MAX_COMPLETION_KEYS (h @ [k])"
proof (cases "MAX_COMPLETION_KEYS \<le> length h")
  case True
  then have "Suc (length h) - MAX_COMPLETION_KEYS = Suc (length h - MAX_COMPLETION_KEYS)" by (rule Suc_diff_le)
  moreover have "0 < MAX_COMPLETION_KEYS" by (simp add: MAX_COMPLETION_KEYS_def)
  ultimately show ?thesis using assms True by (simp add: remember_key_def recent_def Let_def)
next
  case False
  then show ?thesis using assms by (simp add: remember_key_def recent_def)
qed

lemma apart_append:
  assumes "apart n h" "k \<notin> set (recent n h)"
  shows "apart n (h @ [k])"
proof -
  have "h ! i \<noteq> k" if "i < length h" "length h - i \<le> n" for i
  proof -
    have "drop (length h - n) h ! (i - (length h - n)) = h ! i" using that by simp
    moreover have "i - (length h - n) < length (drop (length h - n) h)" using that by simp
    ultimately have "h ! i \<in> set (recent n h)" unfolding recent_def by (metis nth_mem)
    then show ?thesis using assms(2) by blast
  qed
  then show ?thesis using assms(1) by (auto simp: apart_def nth_append less_Suc_eq)
qed

lemma distinct_recent:
  assumes "apart n xs"
  shows "distinct (recent n xs)"
proof -
  let ?m = "length xs - n"
  have "xs ! (?m + i) \<noteq> xs ! (?m + j)" if "i < j" "j < length xs - ?m" for i j
    using assms that unfolding apart_def by simp
  then have "xs ! (?m + i) \<noteq> xs ! (?m + j)" if "i < length xs - ?m" "j < length xs - ?m" "i \<noteq> j" for i j
    using that by (metis nat_neq_iff)
  then show ?thesis unfolding distinct_conv_nth recent_def by simp
qed

lemma settled_history:
  assumes "apart MAX_COMPLETION_KEYS h" and keys: "keys = recent MAX_COMPLETION_KEYS h"
  shows "fst (complete_all cb keys cs) = recent MAX_COMPLETION_KEYS (h @ settled_keys cb keys cs)
     \<and> apart MAX_COMPLETION_KEYS (h @ settled_keys cb keys cs)
     \<and> call_key ` set cs \<subseteq> set (h @ settled_keys cb keys cs)
     \<and> set (settled_keys cb keys cs) \<subseteq> call_key ` set cs"
  using assms
proof (induction cs arbitrary: h keys)
  case Nil
  then show ?case by simp
next
  case (Cons c cs)
  show ?case
  proof (cases "call_key c \<in> set keys")
    case True
    then have "call_key c \<in> set h" using Cons.prems(2) unfolding recent_def by (auto dest: in_set_dropD)
    with True Cons.IH [OF Cons.prems] show ?thesis
      by (auto simp: settled_keys_Cons complete_all_keys_Cons)
  next
    case False
    have "apart MAX_COMPLETION_KEYS (h @ [call_key c])"
      using Cons.prems False by (intro apart_append) simp_all
    moreover have "remember_key keys (call_key c) = recent MAX_COMPLETION_KEYS (h @ [call_key c])"
      using remember_key_recent False Cons.prems(2) by blast
    ultimately show ?thesis
      using Cons.IH [of "h @ [call_key c]" "remember_key keys (call_key c)"] False
      by (auto simp: settled_keys_Cons complete_all_keys_Cons)
  qed
qed

text \<open>
  \<^bold>\<open>C28.\<close> A command result is settled once. Whatever sequence of results a coordinator is given, with
  whatever callbacks: every key is settled, only keys of the sequence are, no key is settled a second
  time until 4096 other settlements have passed, and the set the coordinator remembers is exactly the
  4096 most recent ones, so its memory stays bounded.
\<close>

theorem settles_once:
  "set (settled_keys cb [] cs) = call_key ` set cs
   \<and> apart MAX_COMPLETION_KEYS (settled_keys cb [] cs)
   \<and> fst (complete_all cb [] cs) = recent MAX_COMPLETION_KEYS (settled_keys cb [] cs)
   \<and> length (fst (complete_all cb [] cs)) \<le> MAX_COMPLETION_KEYS
   \<and> distinct (fst (complete_all cb [] cs))"
proof -
  have "apart MAX_COMPLETION_KEYS ([] :: string list)" "[] = recent MAX_COMPLETION_KEYS ([] :: string list)"
    by (simp_all add: apart_def recent_def)
  note h = settled_history [OF this, of cb cs, simplified]
  have "distinct (recent n xs)" if "apart n xs" for n and xs :: "string list"
    using that by (rule distinct_recent)
  moreover have "length (recent n xs) \<le> n" for n and xs :: "string list" by (simp add: recent_def)
  ultimately show ?thesis using h by auto
qed

section \<open>The order of the effects\<close>

definition recent_command :: "callbacks \<Rightarrow> command_result \<Rightarrow> string" where
  "recent_command cb r = (case snd (persist_result cb r) of Inl e \<Rightarrow> cr_safeCommand r | Inr (saved, r2) \<Rightarrow> cr_safeCommand r2)"

definition expected_events :: "callbacks \<Rightarrow> command_result \<Rightarrow> event list" where
  "expected_events cb r =
     (if renderLine cb = None then [] else map RenderLine (filter (\<lambda>l. \<not> cl_rendered l) (cr_lines r)))
     @ (if cr_renderExit r \<and> \<not> cr_suppressExitLine r \<and> renderExit cb \<noteq> None then [RenderExit] else [])
     @ (if applyStatus cb = None then [] else [ApplyStatus])
     @ (if cr_persistence r = ''client'' \<and> persistClient cb \<noteq> None then [PersistClient] else [])
     @ (if cr_recordRecent r \<and> recent_command cb r \<noteq> [] \<and> recordRecent cb \<noteq> None then [RecordRecent (recent_command cb r)] else [])
     @ (if afterComplete cb = None then [] else [AfterComplete])"

definition runs_to :: "event list \<times> failure option \<Rightarrow> event list \<Rightarrow> bool" where
  "runs_to a evs \<longleftrightarrow> prefix (fst a) evs \<and> (snd a = None \<longrightarrow> fst a = evs)"

lemma runs_to_and_then: "runs_to a xs \<Longrightarrow> runs_to b ys \<Longrightarrow> runs_to (and_then a b) (xs @ ys)"
  by (auto simp: runs_to_def and_then_def split: option.splits)

lemma runs_to_call: "runs_to (call e r) (if r = None then [] else [e])"
  by (cases r) (auto simp: runs_to_def call_def)

lemma runs_to_skip: "runs_to ([], None) []"
  by (simp add: runs_to_def)

lemma runs_to_call_if:
  "runs_to (if c then call e (map_option f v) else ([], None)) (if c \<and> v \<noteq> None then [e] else [])"
  using runs_to_call [of e "map_option f v"] runs_to_skip by auto

lemma runs_to_render:
  "runs_to (render_lines cb r) (if renderLine cb = None then [] else map RenderLine (filter (\<lambda>l. \<not> cl_rendered l) (cr_lines r)))"
proof -
  have "runs_to (foldr (\<lambda>l rest. and_then (call (RenderLine l) (map_option (\<lambda>f. f l r) (renderLine cb))) rest) ls ([], None))
      (if renderLine cb = None then [] else map RenderLine ls)" for ls
  proof (induction ls)
    case (Cons l ls)
    show ?case
      using runs_to_and_then [OF runs_to_call [of "RenderLine l" "map_option (\<lambda>f. f l r) (renderLine cb)"] Cons]
      by (simp split: if_splits)
  qed (simp add: runs_to_skip)
  then show ?thesis unfolding render_lines_def .
qed

lemma runs_to_present:
  "runs_to (present_result cb r)
     ((if renderLine cb = None then [] else map RenderLine (filter (\<lambda>l. \<not> cl_rendered l) (cr_lines r)))
      @ (if (cr_renderExit r \<and> \<not> cr_suppressExitLine r) \<and> renderExit cb \<noteq> None then [RenderExit] else [])
      @ (if applyStatus cb = None then [] else [ApplyStatus]))"
  unfolding present_result_def
  using runs_to_call [of ApplyStatus "map_option (\<lambda>f. f r) (applyStatus cb)"]
  by (intro runs_to_and_then runs_to_render runs_to_call_if) simp

lemma runs_to_finish:
  "runs_to (finish_result cb saved r)
     ((if (cr_recordRecent r \<and> cr_safeCommand r \<noteq> []) \<and> recordRecent cb \<noteq> None then [RecordRecent (cr_safeCommand r)] else [])
      @ (if afterComplete cb = None then [] else [AfterComplete]))"
  unfolding finish_result_def
  using runs_to_call [of AfterComplete "map_option (\<lambda>f. f r) (afterComplete cb)"]
  by (intro runs_to_and_then runs_to_call_if) simp

lemma persist_events:
  "fst (persist_result cb r) = (if cr_persistence r = ''client'' \<and> persistClient cb \<noteq> None then [PersistClient] else [])"
  by (auto simp: persist_result_def split: option.splits)

lemma persist_recordRecent: "persist_result cb r = (evs, Inr (saved, r2)) \<Longrightarrow> cr_recordRecent r2 = cr_recordRecent r"
  by (auto simp: persist_result_def Let_def split: option.splits if_splits sum.splits)

definition settled_in_order :: "callbacks \<Rightarrow> event list \<Rightarrow> event list \<times> outcome \<Rightarrow> bool" where
  "settled_in_order cb expected res \<longleftrightarrow>
     (case snd res of
        Skipped r \<Rightarrow> False
      | Completed r \<Rightarrow> fst res = expected
      | Failed r e \<Rightarrow> (\<exists>done. prefix done expected \<and> fst res = done @ (if onError cb = None then [] else [OnError e]))
      | Rejected e2 \<Rightarrow> (\<exists>done e. prefix done expected \<and> fst res = done @ [OnError e]))"

lemma fail_in_order: "prefix evs expected \<Longrightarrow> settled_in_order cb expected (fail_result cb evs r e)"
  by (auto simp: settled_in_order_def fail_result_def split: option.splits)

lemma settle_in_order: "settled_in_order cb (expected_events cb r) (settle cb r)"
proof -
  let ?pre = "(if renderLine cb = None then [] else map RenderLine (filter (\<lambda>l. \<not> cl_rendered l) (cr_lines r)))
      @ (if (cr_renderExit r \<and> \<not> cr_suppressExitLine r) \<and> renderExit cb \<noteq> None then [RenderExit] else [])
      @ (if applyStatus cb = None then [] else [ApplyStatus])"
  let ?per = "if cr_persistence r = ''client'' \<and> persistClient cb \<noteq> None then [PersistClient] else []"
  let ?c = "recent_command cb r"
  let ?fin = "(if (cr_recordRecent r \<and> ?c \<noteq> []) \<and> recordRecent cb \<noteq> None then [RecordRecent ?c] else [])
      @ (if afterComplete cb = None then [] else [AfterComplete])"
  have ex: "expected_events cb r = ?pre @ ?per @ ?fin" unfolding expected_events_def by simp
  obtain evs fo where p: "present_result cb r = (evs, fo)" by fastforce
  have pre: "prefix evs ?pre" "fo = None \<Longrightarrow> evs = ?pre" using runs_to_present [of cb r] unfolding p runs_to_def fst_conv snd_conv by blast+
  show ?thesis
  proof (cases fo)
    case (Some e)
    have "prefix evs (expected_events cb r)" unfolding ex using pre(1) by (rule prefix_prefix)
    then show ?thesis by (simp add: settle_def p Some fail_in_order)
  next
    case None
    obtain evs2 out where q: "persist_result cb r = (evs2, out)" by fastforce
    have evs2: "evs2 = ?per" using persist_events [of cb r] unfolding q fst_conv .
    show ?thesis
    proof (cases out)
      case (Inl e)
      have "prefix (evs @ evs2) (expected_events cb r)" unfolding ex pre(2) [OF None] evs2 by simp
      then show ?thesis by (simp add: settle_def p None q Inl fail_in_order)
    next
      case (Inr sr)
      obtain saved r2 where sr: "sr = (saved, r2)" by fastforce
      have c: "cr_safeCommand r2 = ?c" by (simp add: recent_command_def q Inr sr)
      have rr: "cr_recordRecent r2 = cr_recordRecent r" using q Inr sr persist_recordRecent by blast
      obtain evs3 fo3 where f: "finish_result cb saved r2 = (evs3, fo3)" by fastforce
      have fin: "prefix evs3 ?fin" "fo3 = None \<Longrightarrow> evs3 = ?fin"
        using runs_to_finish [of cb saved r2] unfolding f runs_to_def fst_conv snd_conv c rr by blast+
      have "prefix (evs @ evs2 @ evs3) (expected_events cb r)" unfolding ex pre(2) [OF None] evs2 using fin(1) by simp
      then show ?thesis
      proof (cases fo3)
        case None2: None
        have "evs @ evs2 @ evs3 = expected_events cb r" unfolding ex pre(2) [OF None] evs2 fin(2) [OF None2] by simp
        then show ?thesis by (simp add: settle_def p None q Inr sr f None2 settled_in_order_def)
      next
        case (Some e)
        then show ?thesis using \<open>prefix (evs @ evs2 @ evs3) _\<close> by (simp add: settle_def p None q Inr sr f fail_in_order)
      qed
    qed
  qed
qed

text \<open>
  The effects of settling a result come in one order: first the lines that were not streamed
  already (each once, in order), then the exit line, the status, the persisted run, the recent command
  (the one the saved run carries, when it carries one) and last the follow-up. A callback that throws
  ends the sequence there and only the error handler follows; a result whose key is already settled has
  no effect at all and leaves the coordinator as it was.
\<close>

theorem completion_order:
  "case complete cb keys v d of (keys', evs, oc) \<Rightarrow>
     if call_key (v, d) \<in> set keys then keys' = keys \<and> evs = [] \<and> oc = Skipped (normalizeCommandResult v d)
     else settled_in_order cb (expected_events cb (normalizeCommandResult v d)) (evs, oc) \<and> keys' = remember_key keys (call_key (v, d))"
proof -
  let ?r = "normalizeCommandResult v d"
  obtain evs oc where "settle cb ?r = (evs, oc)" by fastforce
  with settle_in_order [of cb ?r] show ?thesis
    by (simp add: complete_def Let_def call_key_def)
qed

end
