(* ===== verification/Shell_Startup.thy ===== *)
theory Shell_Startup
  imports JS_Value "HOL-Library.Sublist"
begin

text \<open>
  The start of a shell session, \<open>app/static/js/core/shell_startup.js\<close>, as a state machine: each call of
  \<open>start\<close> is a session with its own revision and three outstanding loads, which settle in any order; a
  change of scope invalidates the loads under way. The promise continuations are actions of their own,
  so every interleaving the event loop allows is a sequence of actions.
\<close>

section \<open>State and actions\<close>

datatype ready_state = Waiting | Resolved | Rejected

record session =
  current :: nat
  prefs_settled :: bool
  active_res :: "jsval option"
  history_res :: "jsval option"
  ready :: ready_state
  recall_done :: bool

datatype effect = Restore nat jsval | Hydrate nat jsval | OnError string

record shell =
  revision :: nat
  restored :: bool
  sessions :: "session list"
  log :: "effect list"

text \<open>
  An action names the session it belongs to. A load settles with a value or is rejected (\<^const>\<open>None\<close>);
  the flag of \<open>RunReady\<close> and \<open>RunRecall\<close> says whether the callback (\<open>restore\<close>, \<open>hydrate\<close>) returns.
\<close>

datatype action =
    PrefsSettled nat bool
  | ActiveSettled nat "jsval option"
  | HistorySettled nat "jsval option"
  | RunReady nat bool
  | RunRecall nat bool
  | ScopeChanged

definition no_runs :: jsval where
  "no_runs = JObj [(''runs'', JArr [])]"

definition start :: "shell \<Rightarrow> shell" where
  "start s = s\<lparr>revision := Suc (revision s),
     sessions := sessions s @ [\<lparr>current = Suc (revision s), prefs_settled = False, active_res = None, history_res = None,
       ready = Waiting, recall_done = False\<rparr>]\<rparr>"

definition initial_shell :: shell where
  "initial_shell = start \<lparr>revision = 0, restored = False, sessions = [], log = []\<rparr>"

definition set_session :: "nat \<Rightarrow> session \<Rightarrow> shell \<Rightarrow> shell" where
  "set_session i x s = s\<lparr>sessions := (sessions s)[i := x]\<rparr>"

definition emit :: "effect list \<Rightarrow> shell \<Rightarrow> shell" where
  "emit es s = s\<lparr>log := log s @ es\<rparr>"

text \<open>\<open>x.runs || []\<close>, where reading a property of null or undefined throws.\<close>

definition runs_of :: "jsval \<Rightarrow> jsval option" where
  "runs_of v = (if v = JNull \<or> v = JUndef then None else Some (js_or (jprop v ''runs'') (JArr [])))"

definition prefs_step :: "nat \<Rightarrow> bool \<Rightarrow> session \<Rightarrow> shell \<Rightarrow> shell option" where
  "prefs_step i ok x s =
     (if prefs_settled x then None
      else Some (set_session i (x\<lparr>prefs_settled := True\<rparr>) (emit (if ok then [] else [OnError ''failed to apply session preferences'']) s)))"

definition active_step :: "nat \<Rightarrow> jsval option \<Rightarrow> session \<Rightarrow> shell \<Rightarrow> shell option" where
  "active_step i res x s =
     (if active_res x \<noteq> None then None
      else Some (case res of
          Some v \<Rightarrow> set_session i (x\<lparr>active_res := Some v\<rparr>) s
        | None \<Rightarrow> set_session i (x\<lparr>active_res := Some no_runs\<rparr>) (emit [OnError ''failed to load /history/active''] s)))"

definition history_step :: "nat \<Rightarrow> jsval option \<Rightarrow> session \<Rightarrow> shell \<Rightarrow> shell option" where
  "history_step i res x s =
     (if history_res x \<noteq> None then None
      else Some (case res of
          Some v \<Rightarrow> set_session i (x\<lparr>history_res := Some v\<rparr>) s
        | None \<Rightarrow> set_session i (x\<lparr>history_res := Some no_runs\<rparr>) (emit [OnError ''failed to load /history/commands''] s)))"

definition fail_session :: "nat \<Rightarrow> session \<Rightarrow> shell \<Rightarrow> shell" where
  "fail_session i x s = set_session i (x\<lparr>ready := Rejected, recall_done := True\<rparr>) (emit [OnError ''failed to restore shell session''] s)"

definition ready_step :: "nat \<Rightarrow> bool \<Rightarrow> session \<Rightarrow> shell \<Rightarrow> shell option" where
  "ready_step i ok x s =
     (if ready x \<noteq> Waiting \<or> \<not> prefs_settled x then None
      else case active_res x of
        None \<Rightarrow> None
      | Some active \<Rightarrow>
          if current x \<noteq> revision s then Some (set_session i (x\<lparr>ready := Resolved\<rparr>) s)
          else (case runs_of active of
              None \<Rightarrow> Some (fail_session i x s)
            | Some runs \<Rightarrow>
                if ok then Some (set_session i (x\<lparr>ready := Resolved\<rparr>) (emit [Restore (current x) runs] s)\<lparr>restored := True\<rparr>)
                else Some (fail_session i x s)))"

definition recall_step :: "nat \<Rightarrow> bool \<Rightarrow> session \<Rightarrow> shell \<Rightarrow> shell option" where
  "recall_step i ok x s =
     (if ready x \<noteq> Resolved \<or> recall_done x then None
      else case history_res x of
        None \<Rightarrow> None
      | Some data \<Rightarrow>
          let s1 = set_session i (x\<lparr>recall_done := True\<rparr>) s in
          if current x \<noteq> revision s then Some s1
          else (case runs_of data of
              None \<Rightarrow> Some (emit [OnError ''failed to restore shell session''] s1)
            | Some runs \<Rightarrow> Some (emit [if ok then Hydrate (current x) runs else OnError ''failed to restore shell session''] s1)))"

definition scopeChanged :: "shell \<Rightarrow> shell" where
  "scopeChanged s = (let s1 = s\<lparr>revision := Suc (revision s)\<rparr> in if restored s then s1 else start s1)"

definition in_session :: "nat \<Rightarrow> (session \<Rightarrow> shell \<Rightarrow> shell option) \<Rightarrow> shell \<Rightarrow> shell option" where
  "in_session i f s = (if i < length (sessions s) then f (sessions s ! i) s else None)"

text \<open>One action: the next state, or \<^const>\<open>None\<close> when the action is not enabled.\<close>

fun step :: "action \<Rightarrow> shell \<Rightarrow> shell option" where
  "step (PrefsSettled i ok) s = in_session i (prefs_step i ok) s"
| "step (ActiveSettled i res) s = in_session i (active_step i res) s"
| "step (HistorySettled i res) s = in_session i (history_step i res) s"
| "step (RunReady i ok) s = in_session i (ready_step i ok) s"
| "step (RunRecall i ok) s = in_session i (recall_step i ok) s"
| "step ScopeChanged s = Some (scopeChanged s)"

inductive reachable :: "shell \<Rightarrow> bool" where
  init: "reachable initial_shell"
| step: "reachable s \<Longrightarrow> step a s = Some t \<Longrightarrow> reachable t"

fun steps :: "action list \<Rightarrow> shell \<Rightarrow> shell option" where
  "steps [] s = Some s"
| "steps (a # as) s = (case step a s of None \<Rightarrow> None | Some t \<Rightarrow> steps as t)"

lemma steps_reachable: "reachable s \<Longrightarrow> steps as s = Some t \<Longrightarrow> reachable t"
  by (induction as arbitrary: s) (auto split: option.splits intro: reachable.step)

text \<open>The effects on the shell: what was restored and what was hydrated, in order.\<close>

fun applies :: "effect \<Rightarrow> bool" where
  "applies (OnError c) = False"
| "applies e = True"

definition applied :: "shell \<Rightarrow> effect list" where
  "applied s = filter applies (log s)"

section \<open>The invariant\<close>

text \<open>
  No session is newer than the revision and no two share theirs. Before the restoration nothing is
  applied and the newest session is current and has not resolved; after it, what is applied is that
  restoration, or it and the recall of the same session, and a session that is still current has
  resolved (and, in the second case, recalled).
\<close>

definition current_sessions :: "shell \<Rightarrow> session list" where
  "current_sessions s = filter (\<lambda>x. current x = revision s) (sessions s)"

definition applied_shape :: "shell \<Rightarrow> bool" where
  "applied_shape s \<longleftrightarrow>
     (if restored s then
        (\<exists>c runs. applied s = [Restore c runs] \<and> (\<forall>x \<in> set (current_sessions s). current x = c \<and> ready x = Resolved))
        \<or> (\<exists>c runs data. applied s = [Restore c runs, Hydrate c data]
             \<and> (\<forall>x \<in> set (current_sessions s). ready x = Resolved \<and> recall_done x))
      else applied s = [] \<and> (\<exists>x \<in> set (current_sessions s). ready x \<noteq> Resolved))"

definition shell_inv :: "shell \<Rightarrow> bool" where
  "shell_inv s \<longleftrightarrow>
     distinct (map current (sessions s)) \<and> (\<forall>x \<in> set (sessions s). current x \<le> revision s) \<and> applied_shape s"

lemma applied_simps [simp]:
  "applied (emit es s) = applied s @ filter applies es" "applied (set_session i x s) = applied s"
  "applied (s\<lparr>restored := b\<rparr>) = applied s" "applied (s\<lparr>revision := n\<rparr>) = applied s" "applied (start s) = applied s"
  by (simp_all add: applied_def emit_def set_session_def start_def)

lemma shell_fields [simp]:
  "revision (emit es s) = revision s" "restored (emit es s) = restored s" "sessions (emit es s) = sessions s"
  "revision (set_session i x s) = revision s" "restored (set_session i x s) = restored s"
  "sessions (set_session i x s) = (sessions s)[i := x]"
  by (simp_all add: emit_def set_session_def)

lemma inv_unique:
  assumes "shell_inv s" "x \<in> set (current_sessions s)" "y \<in> set (current_sessions s)"
  shows "x = y"
proof -
  have "inj_on current (set (sessions s))" using assms(1) by (simp add: shell_inv_def distinct_map)
  then show ?thesis using assms(2,3) unfolding current_sessions_def by (auto elim: inj_onD)
qed

lemma session_update:
  assumes "i < length (sessions s)" "current x' = current (sessions s ! i)" "revision t = revision s"
    "sessions t = (sessions s)[i := x']"
  shows "map current (sessions t) = map current (sessions s)"
    and "set (current_sessions t) \<subseteq> insert x' (set (current_sessions s))"
    and "x' \<in> set (current_sessions t) \<longleftrightarrow> sessions s ! i \<in> set (current_sessions s)"
    and "y \<in> set (current_sessions s) \<Longrightarrow> y \<noteq> sessions s ! i \<Longrightarrow> y \<in> set (current_sessions t)"
proof -
  show "map current (sessions t) = map current (sessions s)"
    using assms by (simp add: map_update list_update_same_conv)
  show "set (current_sessions t) \<subseteq> insert x' (set (current_sessions s))"
    using assms set_update_subset_insert [of "sessions s" i x'] unfolding current_sessions_def by auto
  show "x' \<in> set (current_sessions t) \<longleftrightarrow> sessions s ! i \<in> set (current_sessions s)"
    using assms by (auto simp: current_sessions_def set_update_memI)
  show "y \<in> set (current_sessions s) \<Longrightarrow> y \<noteq> sessions s ! i \<Longrightarrow> y \<in> set (current_sessions t)"
    using assms by (auto simp: current_sessions_def in_set_conv_nth) (metis nth_list_update_neq)
qed

text \<open>A session that only collects loads, gives up, or is stale keeps the invariant.\<close>

lemma inv_update:
  assumes inv: "shell_inv s" and i: "i < length (sessions s)" and x: "x = sessions s ! i" and cur: "current x' = current x"
    and rd: "current x = revision s \<Longrightarrow> ready x' = ready x \<or> (ready x = Waiting \<and> ready x' = Rejected)"
    and rc: "current x = revision s \<Longrightarrow> recall_done x \<Longrightarrow> recall_done x'"
    and t: "revision t = revision s" "restored t = restored s" "sessions t = (sessions s)[i := x']" "applied t = applied s"
  shows "shell_inv t"
proof -
  have cur': "current x' = current (sessions s ! i)" using cur x by simp
  note u = session_update [OF i cur' t(1,3)]
  have all: "\<forall>y \<in> set (sessions t). current y \<le> revision t"
    using inv u(1) t(1) unfolding shell_inv_def by (metis (no_types, lifting) imageE image_eqI list.set_map)
  have xc: "x \<in> set (current_sessions s)" if "x' \<in> set (current_sessions t)" using u(3) that x by simp
  have old: "y = x' \<and> x \<in> set (current_sessions s) \<or> y \<in> set (current_sessions s)" if "y \<in> set (current_sessions t)" for y
    using that u(2) xc by blast
  have keep: "ready x = Resolved \<Longrightarrow> ready x' = Resolved" "recall_done x \<Longrightarrow> recall_done x'" if "x \<in> set (current_sessions s)"
    using that rd rc by (auto simp: current_sessions_def)
  have "applied_shape t"
  proof (cases "restored s")
    case True
    have "\<forall>y \<in> set (current_sessions t). current y = c \<and> ready y = Resolved"
      if "\<forall>y \<in> set (current_sessions s). current y = c \<and> ready y = Resolved" for c
      using that old keep(1) cur by metis
    moreover have "\<forall>y \<in> set (current_sessions t). ready y = Resolved \<and> recall_done y"
      if "\<forall>y \<in> set (current_sessions s). ready y = Resolved \<and> recall_done y"
      using that old keep by metis
    ultimately show ?thesis using inv True t unfolding shell_inv_def applied_shape_def by (metis (no_types, lifting))
  next
    case False
    then obtain y where y: "y \<in> set (current_sessions s)" "ready y \<noteq> Resolved" "applied s = []"
      using inv unfolding shell_inv_def applied_shape_def by auto
    have "\<exists>y \<in> set (current_sessions t). ready y \<noteq> Resolved"
    proof (cases "y = x")
      case True
      then have "x' \<in> set (current_sessions t)" "ready x' \<noteq> Resolved"
        using y u(3) x rd by (auto simp: current_sessions_def)
      then show ?thesis by blast
    qed (use u(4) x y in blast)
    then show ?thesis using y(3) False t unfolding applied_shape_def by simp
  qed
  then show ?thesis using all inv u(1) unfolding shell_inv_def by simp
qed

lemma inv_prefs: "shell_inv s \<Longrightarrow> i < length (sessions s) \<Longrightarrow> prefs_step i ok (sessions s ! i) s = Some t \<Longrightarrow> shell_inv t"
  by (erule (1) inv_update [where x = "sessions s ! i" and x' = "(sessions s ! i)\<lparr>prefs_settled := True\<rparr>"])
    (auto simp: prefs_step_def split: if_splits)

lemma inv_active: "shell_inv s \<Longrightarrow> i < length (sessions s) \<Longrightarrow> active_step i res (sessions s ! i) s = Some t \<Longrightarrow> shell_inv t"
  by (erule (1) inv_update [where x = "sessions s ! i" and x' = "(sessions s ! i)\<lparr>active_res := Some (case res of None \<Rightarrow> no_runs | Some v \<Rightarrow> v)\<rparr>"])
    (auto simp: active_step_def split: if_splits option.splits)

lemma inv_history: "shell_inv s \<Longrightarrow> i < length (sessions s) \<Longrightarrow> history_step i res (sessions s ! i) s = Some t \<Longrightarrow> shell_inv t"
  by (erule (1) inv_update [where x = "sessions s ! i" and x' = "(sessions s ! i)\<lparr>history_res := Some (case res of None \<Rightarrow> no_runs | Some v \<Rightarrow> v)\<rparr>"])
    (auto simp: history_step_def split: if_splits option.splits)

lemma inv_fail: "shell_inv s \<Longrightarrow> i < length (sessions s) \<Longrightarrow> ready (sessions s ! i) = Waiting \<Longrightarrow> shell_inv (fail_session i (sessions s ! i) s)"
  by (erule (1) inv_update [where x = "sessions s ! i" and x' = "(sessions s ! i)\<lparr>ready := Rejected, recall_done := True\<rparr>"]) (auto simp: fail_session_def)

lemma inv_ready:
  assumes inv: "shell_inv s" and i: "i < length (sessions s)" and st: "ready_step i ok (sessions s ! i) s = Some t"
  shows "shell_inv t"
proof -
  let ?x = "sessions s ! i" and ?x' = "(sessions s ! i)\<lparr>ready := Resolved\<rparr>"
  have w: "ready ?x = Waiting" using st by (auto simp: ready_step_def split: if_splits)
  consider (stale) "current ?x \<noteq> revision s" "t = set_session i ?x' s"
    | (fail) "t = fail_session i ?x s"
    | (live) runs where "current ?x = revision s"
        "t = set_session i ?x' (emit [Restore (current ?x) runs] s)\<lparr>restored := True\<rparr>"
    using st by (auto simp: ready_step_def split: if_splits option.splits)
  then show ?thesis
  proof cases
    case stale
    show ?thesis unfolding stale(2) by (rule inv_update [OF inv i refl, where x' = ?x']) (use stale(1) in auto)
  next
    case fail
    then show ?thesis using inv_fail inv i w by simp
  next
    case live
    have xc: "?x \<in> set (current_sessions s)" using live(1) i by (simp add: current_sessions_def)
    have nr: "\<not> restored s" using inv xc w unfolding shell_inv_def applied_shape_def by auto
    have cur': "current ?x' = current ?x" by simp
    note u = session_update [OF i cur', of t]
    have t: "revision t = revision s" "sessions t = (sessions s)[i := ?x']" using live(2) by simp_all
    have "\<forall>y \<in> set (current_sessions t). current y = current ?x \<and> ready y = Resolved"
    proof
      fix y assume y: "y \<in> set (current_sessions t)"
      have "inj_on current (set (sessions t))" using inv u(1) [OF t] by (metis distinct_map shell_inv_def)
      moreover have "?x' \<in> set (current_sessions t)" using u(3) [OF t] xc by blast
      ultimately have "y = ?x'" using y unfolding current_sessions_def by (auto elim: inj_onD)
      then show "current y = current ?x \<and> ready y = Resolved" by simp
    qed
    then have "applied_shape t" using live nr inv unfolding applied_shape_def shell_inv_def by simp
    moreover have "\<forall>y \<in> set (sessions t). current y \<le> revision t"
      using inv u(1) [OF t] t(1) unfolding shell_inv_def by (metis (no_types, lifting) imageE image_eqI list.set_map)
    ultimately show ?thesis using inv u(1) [OF t] unfolding shell_inv_def by simp
  qed
qed

lemma inv_recall:
  assumes inv: "shell_inv s" and i: "i < length (sessions s)" and st: "recall_step i ok (sessions s ! i) s = Some t"
  shows "shell_inv t"
proof -
  let ?x = "sessions s ! i" and ?x' = "(sessions s ! i)\<lparr>recall_done := True\<rparr>"
  have w: "ready ?x = Resolved" "\<not> recall_done ?x" using st by (auto simp: recall_step_def split: if_splits)
  consider (stale) "t = set_session i ?x' s" | (quiet) m where "t = emit [OnError m] (set_session i ?x' s)"
    | (live) data where "current ?x = revision s" "t = emit [Hydrate (current ?x) data] (set_session i ?x' s)"
    using st by (auto simp: recall_step_def Let_def split: if_splits option.splits)
  then show ?thesis
  proof cases
    case stale
    show ?thesis unfolding stale by (rule inv_update [OF inv i refl, where x' = ?x']) auto
  next
    case quiet
    show ?thesis unfolding quiet by (rule inv_update [OF inv i refl, where x' = ?x']) auto
  next
    case live
    have xc: "?x \<in> set (current_sessions s)" using live(1) i by (simp add: current_sessions_def)
    have rs: "restored s" using inv xc w inv_unique [OF inv xc] unfolding shell_inv_def applied_shape_def by (metis (no_types, lifting))
    obtain runs where ap: "applied s = [Restore (current ?x) runs]"
      using inv rs xc w unfolding shell_inv_def applied_shape_def by auto
    have cur': "current ?x' = current ?x" by simp
    have t: "revision t = revision s" "sessions t = (sessions s)[i := ?x']" using live(2) by simp_all
    note u = session_update [OF i cur' t]
    have one: "\<forall>y \<in> set (current_sessions t). y = ?x'"
    proof
      fix y assume y: "y \<in> set (current_sessions t)"
      have "inj_on current (set (sessions t))" using inv u(1) by (metis distinct_map shell_inv_def)
      moreover have "?x' \<in> set (current_sessions t)" using u(3) xc by blast
      ultimately show "y = ?x'" using y unfolding current_sessions_def by (auto elim: inj_onD)
    qed
    then have "\<forall>y \<in> set (current_sessions t). ready y = Resolved \<and> recall_done y" using w(1) by (metis session.select_convs(5,6) session.surjective session.update_convs(6))
    then have "applied_shape t" using live rs ap unfolding applied_shape_def by simp
    moreover have "\<forall>y \<in> set (sessions t). current y \<le> revision t"
      using inv u(1) t(1) unfolding shell_inv_def by (metis (no_types, lifting) imageE image_eqI list.set_map)
    ultimately show ?thesis using inv u(1) unfolding shell_inv_def by simp
  qed
qed

lemma inv_scope:
  assumes "shell_inv s"
  shows "shell_inv (scopeChanged s)"
proof -
  have "current x \<le> revision s" if "x \<in> set (sessions s)" for x using assms that by (simp add: shell_inv_def)
  then have "current x \<noteq> Suc (revision s)" "current x \<noteq> Suc (Suc (revision s))" if "x \<in> set (sessions s)" for x using that by fastforce+
  then have n: "current_sessions (s\<lparr>revision := Suc (revision s)\<rparr>) = []" "Suc (Suc (revision s)) \<notin> current ` set (sessions s)"
    by (simp_all add: current_sessions_def filter_empty_conv) (metis imageE)
  show ?thesis
  proof (cases "restored s")
    case True
    then show ?thesis using assms n(1) by (auto simp: scopeChanged_def shell_inv_def applied_shape_def le_SucI)
  next
    case False
    then show ?thesis using assms n(2)
      by (auto simp: scopeChanged_def start_def shell_inv_def applied_shape_def current_sessions_def le_SucI applied_def)
  qed
qed

lemma inv_initial: "shell_inv initial_shell"
  by (simp add: initial_shell_def start_def shell_inv_def applied_shape_def current_sessions_def applied_def)

lemma reachable_inv: "reachable s \<Longrightarrow> shell_inv s"
proof (induction rule: reachable.induct)
  case init
  show ?case by (rule inv_initial)
next
  case (step s a t)
  then show ?case
    by (cases a) (auto simp: in_session_def intro: inv_prefs inv_active inv_history inv_ready inv_recall inv_scope split: if_splits)
qed

text \<open>
  \<^bold>\<open>C30.\<close> However the loads, their continuations and the changes of scope interleave, the shell is
  restored at most once and recalled at most once, in this order and from one and the same start: the
  effects applied are a prefix of one restoration and the recall of the session that was restored, and
  the restored flag is exactly whether the restoration took place.
\<close>

theorem startup_applies_once:
  assumes "reachable s"
  shows "(\<exists>c runs data. prefix (applied s) [Restore c runs, Hydrate c data]) \<and> (restored s \<longleftrightarrow> applied s \<noteq> [])"
proof -
  have "applied_shape s" using reachable_inv [OF assms] by (simp add: shell_inv_def)
  then show ?thesis unfolding applied_shape_def by (cases "restored s") fastforce+
qed

lemma step_applies_current:
  assumes "step a s = Some t" "applied t = applied s @ [e]"
  shows "case e of Restore c runs \<Rightarrow> c = revision s | Hydrate c data \<Rightarrow> c = revision s | OnError m \<Rightarrow> False"
proof (cases a)
  case (PrefsSettled i ok)
  then show ?thesis using assms by (auto simp: in_session_def prefs_step_def split: if_splits)
next
  case (ActiveSettled i res)
  then show ?thesis using assms by (auto simp: in_session_def active_step_def split: if_splits option.splits)
next
  case (HistorySettled i res)
  then show ?thesis using assms by (auto simp: in_session_def history_step_def split: if_splits option.splits)
next
  case (RunReady i ok)
  then show ?thesis using assms by (auto simp: in_session_def ready_step_def fail_session_def split: if_splits option.splits)
next
  case (RunRecall i ok)
  then show ?thesis using assms by (auto simp: in_session_def recall_step_def Let_def split: if_splits option.splits)
next
  case ScopeChanged
  then show ?thesis using assms by (auto simp: scopeChanged_def Let_def split: if_splits)
qed

lemma startup_progress:
  assumes "reachable s" "\<not> restored s"
  shows "\<exists>i<length (sessions s). current (sessions s ! i) = revision s \<and> ready (sessions s ! i) \<noteq> Resolved
     \<and> (ready (sessions s ! i) = Waiting \<and> prefs_settled (sessions s ! i) \<and> active_res (sessions s ! i) = Some v \<and> runs_of v = Some runs
         \<longrightarrow> (\<exists>t. step (RunReady i True) s = Some t \<and> restored t \<and> applied t = [Restore (revision s) runs]))"
proof -
  have "applied_shape s" using reachable_inv [OF assms(1)] by (simp add: shell_inv_def)
  then obtain x where x: "x \<in> set (current_sessions s)" "ready x \<noteq> Resolved" and ap: "applied s = []"
    using assms(2) unfolding applied_shape_def by auto
  then obtain i where i: "i < length (sessions s)" "sessions s ! i = x" "current x = revision s"
    by (auto simp: current_sessions_def in_set_conv_nth)
  have "\<exists>t. step (RunReady i True) s = Some t \<and> restored t \<and> applied t = [Restore (revision s) runs]"
    if "ready x = Waiting" "prefs_settled x" "active_res x = Some v" "runs_of v = Some runs"
    using that i ap by (simp add: in_session_def ready_step_def)
  with i x(2) show ?thesis by blast
qed

theorem startup_applies_once_witness:
  "\<exists>s. steps [PrefsSettled 0 False, ActiveSettled 0 None] initial_shell = Some s \<and> restored s = (applied s \<noteq> [])"
proof -
  obtain s where s: "steps [PrefsSettled 0 False, ActiveSettled 0 None] initial_shell = Some s"
    by (simp add: initial_shell_def start_def in_session_def prefs_step_def active_step_def emit_def set_session_def)
  have "reachable s" using s by (rule steps_reachable [OF reachable.init])
  then show ?thesis using startup_applies_once [of s] s by blast
qed

text \<open>
  \<^bold>\<open>C31.\<close> A response that belongs to an older scope is never applied, and the start never gets stuck:
  whatever an action applies comes from the session of the revision at that moment; and as long as
  nothing is restored, there is a session of the current revision that has not finished, so once its
  preferences and its active runs have settled (with a readable answer) the next turn restores it,
  unless the restoration itself throws.
\<close>

theorem startup_current_only:
  assumes "reachable s"
  shows "(step a s = Some t \<and> applied t = applied s @ [e] \<longrightarrow> (case e of Restore c runs \<Rightarrow> c = revision s | Hydrate c data \<Rightarrow> c = revision s | OnError m \<Rightarrow> False))
    \<and> (\<not> restored s \<longrightarrow> (\<exists>i<length (sessions s). current (sessions s ! i) = revision s \<and> ready (sessions s ! i) \<noteq> Resolved
          \<and> (ready (sessions s ! i) = Waiting \<and> prefs_settled (sessions s ! i) \<and> active_res (sessions s ! i) = Some v \<and> runs_of v = Some runs
              \<longrightarrow> (\<exists>t. step (RunReady i True) s = Some t \<and> restored t \<and> applied t = [Restore (revision s) runs]))))"
  using step_applies_current startup_progress [OF assms] by blast

theorem startup_current_only_witness:
  "\<exists>s t. steps [ScopeChanged, PrefsSettled 1 True, ActiveSettled 1 None] initial_shell = Some s
     \<and> step (RunReady 1 True) s = Some t \<and> applied t = [Restore 3 (JArr [])] \<and> revision s = 3"
proof -
  obtain s where s: "steps [ScopeChanged, PrefsSettled 1 True, ActiveSettled 1 None] initial_shell = Some s"
    and f: "\<not> restored s" "revision s = 3" "applied s = []"
    by (simp add: initial_shell_def start_def scopeChanged_def in_session_def prefs_step_def active_step_def Let_def applied_def
        emit_def set_session_def)
  have r: "reachable s" using s by (rule steps_reachable [OF reachable.init])
  obtain t where t: "step (RunReady 1 True) s = Some t" "applied t = [] @ [Restore 3 (JArr [])]"
    using s by (auto simp: initial_shell_def start_def scopeChanged_def in_session_def prefs_step_def active_step_def ready_step_def
        Let_def applied_def emit_def set_session_def no_runs_def runs_of_def js_or_def jprop_def obj_get_def)
  then have "3 = revision s" using startup_current_only [OF r, of "RunReady 1 True" t "Restore 3 (JArr [])"] f by simp
  then show ?thesis using s t by auto
qed

end
