(* ===== verification/Session_Core.thy ===== *)
theory Session_Core
  imports JS_Value JS_Regex "HOL-Library.Word"
begin

text \<open>
  The identity of a browser session: \<open>app/static/js/core/session_core.js\<close> and
  \<open>app/static/js/core/browser_credentials.js\<close>. UUIDs, the public part of a credential, what is
  kept in the browser's storage, the headers of a request, and the one-time exchange of a stored
  credential for a cookie.

  The crypto API, the answer of the server and the CSRF cookie are arguments. The storage object
  is an argument too, as its three operations; the locale \<open>storage_api\<close> states the contract the
  code relies on, and \<open>local_storage\<close> interprets it on an association list.
\<close>

unbundle bit_operations_syntax

section \<open>UUIDs\<close>

text \<open>A crypto object: \<open>randomUUID\<close> may be missing, or throw (\<^term>\<open>Some None\<close>);
  \<open>getRandomValues\<close> may be missing, or fill an array of bytes.\<close>

record crypto_api =
  randomUUID :: "string option option"
  getRandomValues :: "(nat \<Rightarrow> 8 word) option"

definition cryptoApi :: "crypto_api option \<Rightarrow> crypto_api option \<Rightarrow> crypto_api option" where
  "cryptoApi preferred glob = (if preferred \<noteq> None then preferred else glob)"

definition hex_char :: "nat \<Rightarrow> char" where
  "hex_char n = (if n < 10 then char_of (48 + n) else char_of (87 + n))"

text \<open>\<open>value.toString(16).padStart(2, '0')\<close> of a byte.\<close>

definition byte_hex :: "8 word \<Rightarrow> string" where
  "byte_hex w = [hex_char (unat w div 16), hex_char (unat w mod 16)]"

definition uuid_bytes :: "(nat \<Rightarrow> 8 word) \<Rightarrow> 8 word list" where
  "uuid_bytes rnd =
     (let bytes = map rnd [0..<16];
          bytes = bytes[6 := (bytes ! 6 AND 0x0f) OR 0x40]
      in bytes[8 := (bytes ! 8 AND 0x3f) OR 0x80])"

definition uuid_format :: "8 word list \<Rightarrow> string" where
  "uuid_format bytes =
     (let hex = map byte_hex bytes in
      concat (JS_Prelude.slice 0 4 hex) @ ''-'' @ concat (JS_Prelude.slice 4 6 hex) @ ''-'' @ concat (JS_Prelude.slice 6 8 hex) @ ''-''
      @ concat (JS_Prelude.slice 8 10 hex) @ ''-'' @ concat (drop 10 hex))"

definition generateUUID :: "crypto_api option \<Rightarrow> crypto_api option \<Rightarrow> string + string" where
  "generateUUID preferred glob =
     (let primary = cryptoApi preferred glob;
          direct = (case primary of None \<Rightarrow> None | Some api \<Rightarrow> (case randomUUID api of
              None \<Rightarrow> None | Some r \<Rightarrow> r))
      in case direct of
           Some u \<Rightarrow> Inr u
         | None \<Rightarrow>
             let fallback = (case primary of
                   Some api \<Rightarrow> if getRandomValues api \<noteq> None then primary else cryptoApi None glob
                 | None \<Rightarrow> cryptoApi None glob)
             in (case fallback of
                   None \<Rightarrow> Inl ''crypto.getRandomValues is unavailable''
                 | Some api \<Rightarrow> (case getRandomValues api of
                     None \<Rightarrow> Inl ''crypto.getRandomValues is unavailable''
                   | Some rnd \<Rightarrow> Inr (uuid_format (uuid_bytes rnd)))))"

section \<open>Storage\<close>

text \<open>\<open>getOrCreateStorageValue(storage, key, createValue)\<close>: the value, and the storage after it.\<close>

definition getOrCreateStorageValue ::
  "('s \<Rightarrow> string \<Rightarrow> string option) \<Rightarrow> ('s \<Rightarrow> string \<Rightarrow> string \<Rightarrow> 's) \<Rightarrow> 's \<Rightarrow> string \<Rightarrow> string \<Rightarrow> string \<times> 's" where
  "getOrCreateStorageValue getItem setItem storage key created =
     (case getItem storage key of
        Some v \<Rightarrow> if v \<noteq> [] then (v, storage) else (created, setItem storage key created)
      | None \<Rightarrow> (created, setItem storage key created))"

section \<open>Credentials\<close>

definition hex32 :: rx where
  "hex32 = rx_rep 32 0 (RChr is_hex_lower)"

definition credential_re :: rx where
  "credential_re = rx_anchored (rx_seq
     [RAlt (RSeq (rx_lit ''dlc_v1_'') (RCap 1 (RSeq (rx_lit ''crd_'') hex32)))
           (RSeq (rx_lit ''dlp_v1_'') (RCap 2 (RSeq (rx_lit ''pat_'') hex32))),
      rx_lit ''_'',
      rx_rep 43 0 (RChr (\<lambda>c. is_alnum c \<or> c = CHR ''_'' \<or> c = CHR ''-''))])"

definition credentialPublicId :: "jsval \<Rightarrow> string" where
  "credentialPublicId secret =
     (case rx_exec credential_re (trim (str_or secret [])) of
        None \<Rightarrow> []
      | Some m \<Rightarrow> toLowerCase (if rx_group_str m 1 \<noteq> [] then rx_group_str m 1 else rx_group_str m 2))"

datatype identity = IdCredential (id_secret: string) (publicId: string)
  | IdAnonymous (anonymousId: string) (publicId: string)

definition resolveBrowserIdentity :: "('s \<Rightarrow> string \<Rightarrow> string option) \<Rightarrow> 's \<Rightarrow> jsval \<Rightarrow> identity" where
  "resolveBrowserIdentity getItem storage anon =
     (let secret = (case getItem storage ''access_credential'' of None \<Rightarrow> [] | Some s \<Rightarrow> s) in
      if secret \<noteq> [] then
        let pid = credentialPublicId (JStr secret) in
        IdCredential secret (if startsWith pid ''crd_'' then pid else ''credential-invalid'')
      else IdAnonymous (str_or anon []) (str_or anon []))"

section \<open>Requests\<close>

definition describeFetchError :: "jsval \<Rightarrow> string \<Rightarrow> string" where
  "describeFetchError err ctx =
     (let offlineMessage = ''Unable to contact the '' @ ctx @ '' right now. Please try again in a moment. If this keeps happening, contact the shell operator.'';
          message = (if truthy err \<and> is_str (jprop err ''message'') then trim (to_str (jprop err ''message'')) else [])
      in if message = [] then offlineMessage
         else let lower = toLowerCase message in
           if str_includes lower ''networkerror'' \<or> str_includes lower ''failed to fetch''
              \<or> str_includes lower ''network down'' \<or> str_includes lower ''load failed''
           then offlineMessage
           else ''Request to the '' @ ctx @ '' failed: '' @ message)"

definition identity_header :: "string \<Rightarrow> bool" where
  "identity_header name \<longleftrightarrow> toLowerCase name \<in> {''x-darklab-credential'', ''x-darklab-anonymous-id''}"

definition strip_identity_headers :: "jsobj \<Rightarrow> jsobj" where
  "strip_identity_headers headers =
     foldl (\<lambda>h name. if identity_header name then obj_delete h name else h) headers (map fst headers)"

definition withIdentityHeaders :: "jsobj \<Rightarrow> identity option \<Rightarrow> string \<Rightarrow> jsobj" where
  "withIdentityHeaders options ident clientId =
     (let headers = strip_identity_headers (obj_assign [] (obj_entries (obj_get options ''headers'')));
          headers = (case ident of
              None \<Rightarrow> obj_set headers ''X-Darklab-Anonymous-ID'' (JStr [])
            | Some (IdAnonymous a p) \<Rightarrow> obj_set headers ''X-Darklab-Anonymous-ID'' (JStr a)
            | Some (IdCredential s p) \<Rightarrow> headers);
          headers = obj_set headers ''X-Client-ID'' (JStr clientId)
      in obj_set options ''headers'' (JObj headers))"

section \<open>The exchange of a stored credential\<close>

definition rememberBrowserSession ::
  "('s \<Rightarrow> string \<Rightarrow> string \<Rightarrow> 's) \<Rightarrow> ('s \<Rightarrow> string \<Rightarrow> 's) \<Rightarrow> 's \<Rightarrow> jsval \<Rightarrow> string \<times> 's" where
  "rememberBrowserSession setItem removeItem storage authentication =
     (let publicId = to_str (js_or (js_or (jprop authentication ''credential_id'') (jprop authentication ''principal_id''))
                              (JStr ''browser-session''))
      in (publicId, removeItem (setItem storage ''browser_session'' publicId) ''access_credential''))"

text \<open>The answer of the server: whether it is \<open>ok\<close>, the CSRF cookie after it, and its JSON body.\<close>

record redeem_response =
  resp_ok :: bool
  csrf_cookie :: string
  payload :: jsval

datatype redeem_result = NoCredential | RedeemError string | Redeemed redeem_response

definition redeemStoredCredential ::
  "('s \<Rightarrow> string \<Rightarrow> string option) \<Rightarrow> ('s \<Rightarrow> string \<Rightarrow> string \<Rightarrow> 's) \<Rightarrow> ('s \<Rightarrow> string \<Rightarrow> 's)
   \<Rightarrow> (string \<Rightarrow> redeem_response) \<Rightarrow> 's \<Rightarrow> redeem_result \<times> 's" where
  "redeemStoredCredential getItem setItem removeItem fetch storage =
     (let secret = (case getItem storage ''access_credential'' of None \<Rightarrow> [] | Some s \<Rightarrow> s) in
      if secret = [] then (NoCredential, storage)
      else let response = fetch secret in
        if resp_ok response then
          (if csrf_cookie response = [] then (RedeemError ''Sign-in needs HTTPS and browser cookies.'', storage)
           else (Redeemed response,
                 snd (rememberBrowserSession setItem removeItem storage (jprop (payload response) ''authentication''))))
        else (Redeemed response, storage))"

section \<open>The storage contract\<close>

locale storage_api =
  fixes getItem :: "'s \<Rightarrow> string \<Rightarrow> string option"
    and setItem :: "'s \<Rightarrow> string \<Rightarrow> string \<Rightarrow> 's"
    and removeItem :: "'s \<Rightarrow> string \<Rightarrow> 's"
  assumes get_set: "getItem (setItem st k v) j = (if j = k then Some v else getItem st j)"
    and get_remove: "getItem (removeItem st k) j = (if j = k then None else getItem st j)"
begin

lemma create_once:
  assumes "getOrCreateStorageValue getItem setItem st k v = (r, st')" "v \<noteq> []"
  shows "r \<noteq> []" "getItem st' k = Some r" "getOrCreateStorageValue getItem setItem st' k w = (r, st')"
    "j \<noteq> k \<Longrightarrow> getItem st' j = getItem st j"
  using assms by (auto simp: getOrCreateStorageValue_def get_set split: option.splits if_splits)

lemma remember_forgets_secret:
  "rememberBrowserSession setItem removeItem st auth = (p, st') \<Longrightarrow>
   getItem st' ''access_credential'' = None \<and> getItem st' ''browser_session'' = Some p"
  by (auto simp: rememberBrowserSession_def Let_def get_set get_remove)

lemma resolve_after_remember:
  "rememberBrowserSession setItem removeItem st auth = (p, st') \<Longrightarrow>
   resolveBrowserIdentity getItem st' a = IdAnonymous (str_or a []) (str_or a [])"
  using remember_forgets_secret by (simp add: resolveBrowserIdentity_def)

lemma redeem_outcome:
  assumes "redeemStoredCredential getItem setItem removeItem fetch st = (res, st')"
  shows "case res of
      NoCredential \<Rightarrow> st' = st \<and> getItem st ''access_credential'' \<in> {None, Some []}
    | RedeemError e \<Rightarrow> st' = st
    | Redeemed resp \<Rightarrow> if resp_ok resp
        then getItem st' ''access_credential'' = None \<and> csrf_cookie resp \<noteq> []
        else st' = st"
  using assms remember_forgets_secret
  by (auto simp: redeemStoredCredential_def Let_def split: if_splits option.splits)
     (metis prod.collapse)

end

text \<open>\<open>localStorage\<close> as an association list.\<close>

type_synonym local_store = "(string \<times> string) list"

definition ls_get :: "local_store \<Rightarrow> string \<Rightarrow> string option" where
  "ls_get st k = map_of st k"

definition ls_set :: "local_store \<Rightarrow> string \<Rightarrow> string \<Rightarrow> local_store" where
  "ls_set st k v = (k, v) # filter (\<lambda>(j, w). j \<noteq> k) st"

definition ls_remove :: "local_store \<Rightarrow> string \<Rightarrow> local_store" where
  "ls_remove st k = filter (\<lambda>(j, w). j \<noteq> k) st"

lemma map_of_filter_key: "map_of (filter (\<lambda>(j, w). j \<noteq> k) st) i = (if i = k then None else map_of st i)"
  by (induction st) auto

interpretation local_storage: storage_api ls_get ls_set ls_remove
  by unfold_locales (auto simp: ls_get_def ls_set_def ls_remove_def map_of_filter_key)

section \<open>What a credential looks like\<close>

definition hex_id :: "string \<Rightarrow> bool" where
  "hex_id h \<longleftrightarrow> length h = 32 \<and> (\<forall>c \<in> set h. is_hex_lower c)"

definition secret_part :: "string \<Rightarrow> bool" where
  "secret_part x \<longleftrightarrow> length x = 43 \<and> (\<forall>c \<in> set x. is_alnum c \<or> c = CHR ''_'' \<or> c = CHR ''-'')"

lemma rlang_hex32: "w \<in> rlang (RSeq (rx_lit p) hex32) \<longleftrightarrow> (\<exists>h. w = p @ h \<and> hex_id h)"
  by (auto simp: hex32_def rlang_rep_class hex_id_def)

lemma hex32_piece [simp]: "anchor_free hex32" "no_cap hex32"
  by (simp_all add: hex32_def)

lemma credential_match:
  "(b, [], cs) \<in> set (rxm (rx_seq
     [RAlt (RSeq (rx_lit ''dlc_v1_'') (RCap 1 (RSeq (rx_lit ''crd_'') hex32)))
           (RSeq (rx_lit ''dlp_v1_'') (RCap 2 (RSeq (rx_lit ''pat_'') hex32))),
      rx_lit ''_'',
      rx_rep 43 0 (RChr (\<lambda>c. is_alnum c \<or> c = CHR ''_'' \<or> c = CHR ''-''))]) ([], s, []))
   \<longleftrightarrow> b = rev s \<and> (\<exists>h x. hex_id h \<and> secret_part x \<and>
      ((s = ''dlc_v1_crd_'' @ h @ ''_'' @ x \<and> cs = [(1, ''crd_'' @ h)])
       \<or> (s = ''dlp_v1_pat_'' @ h @ ''_'' @ x \<and> cs = [(2, ''pat_'' @ h)])))"
proof -
  let ?x = "rx_rep 43 0 (RChr (\<lambda>c. is_alnum c \<or> c = CHR ''_'' \<or> c = CHR ''-''))"
  have x: "w \<in> rlang ?x \<longleftrightarrow> secret_part w" for w
    by (auto simp: rlang_rep_class secret_part_def)
  have "anchor_free (RSeq (rx_lit l) hex32)" "no_cap (RSeq (rx_lit l) hex32)" "anchor_free ?x" "no_cap ?x" for l
    by simp_all
  note pieces = rxm_seq_alt rxm_seq_assoc rxm_seq_lit rxm_seq_cap [OF this(1,2)] rxm_piece [OF this(3,4)] rlang_hex32 x
  have ex: "(\<exists>w t. (\<exists>h. w = p @ h \<and> hex_id h) \<and> u = w @ t \<and> P w t) \<longleftrightarrow> (\<exists>h t. hex_id h \<and> u = p @ h @ t \<and> P (p @ h) t)"
    for p u P by (metis append.assoc)
  show ?thesis
    unfolding rx_seq.simps pieces Bex_def x ex by (auto 0 4)
qed

definition credential_form :: "string \<Rightarrow> string \<Rightarrow> bool" where
  "credential_form s pid \<longleftrightarrow> (\<exists>h x. hex_id h \<and> secret_part x \<and>
     ((s = ''dlc_v1_crd_'' @ h @ ''_'' @ x \<and> pid = ''crd_'' @ h)
      \<or> (s = ''dlp_v1_pat_'' @ h @ ''_'' @ x \<and> pid = ''pat_'' @ h)))"

lemma credential_form_unique: "credential_form s p \<Longrightarrow> credential_form s q \<Longrightarrow> p = q"
  by (auto simp: credential_form_def hex_id_def)

lemma lower_ids:
  assumes "hex_id h"
  shows "toLowerCase (''crd_'' @ h) = ''crd_'' @ h" "toLowerCase (''pat_'' @ h) = ''pat_'' @ h"
proof -
  have "\<not> has_upper_pair (of_char c)" if "is_hex_lower c" for c
    using that by (auto simp: is_hex_lower_def is_digit_def char_between_def has_upper_pair_def)
  then have "toLowerCase h = h"
    using assms by (intro toLowerCase_id) (auto simp: hex_id_def)
  then show "toLowerCase (''crd_'' @ h) = ''crd_'' @ h" "toLowerCase (''pat_'' @ h) = ''pat_'' @ h"
    by (simp_all add: toLowerCase_def lower_char_def has_upper_pair_def)
qed

text \<open>\<open>credentialPublicId\<close> accepts exactly the two credential formats (browser \<open>dlc_v1_crd_\<close>
  and programmatic \<open>dlp_v1_pat_\<close>, 32 lower-case hex digits, an underscore, 43 base64url
  characters) and returns the public id without any character of the secret part; for every other
  input it returns the empty string.\<close>

theorem credentialPublicId_exact:
  "credentialPublicId v = pid \<and> pid \<noteq> [] \<longleftrightarrow> credential_form (trim (str_or v [])) pid"
proof (cases "rx_exec credential_re (trim (str_or v []))")
  case None
  then have "\<not> credential_form (trim (str_or v [])) pid"
    unfolding credential_re_def rx_exec_anchored_None credential_match credential_form_def by blast
  with None show ?thesis by (auto simp: credentialPublicId_def)
next
  case (Some m)
  obtain h x where h: "hex_id h" "secret_part x"
    and m: "(trim (str_or v []) = ''dlc_v1_crd_'' @ h @ ''_'' @ x \<and> snd m = [(1, ''crd_'' @ h)])
       \<or> (trim (str_or v []) = ''dlp_v1_pat_'' @ h @ ''_'' @ x \<and> snd m = [(2, ''pat_'' @ h)])"
    using rx_exec_anchored(2) [OF Some [unfolded credential_re_def]] unfolding credential_match by blast
  have "credentialPublicId v = (if snd m = [(1, ''crd_'' @ h)] then ''crd_'' @ h else ''pat_'' @ h)"
    using Some m lower_ids [OF h(1)] by (auto simp: credentialPublicId_def rx_group_str_def rx_group_def)
  then have "credential_form (trim (str_or v [])) (credentialPublicId v)" "credentialPublicId v \<noteq> []"
    unfolding credential_form_def using m h by auto
  then show ?thesis
    using credential_form_unique by blast
qed

section \<open>The shape of a generated UUID\<close>

lemma hex_char_hex: "n < 16 \<Longrightarrow> is_hex_lower (hex_char n)"
  by (auto simp: hex_char_def is_hex_lower_def is_digit_def char_between_def)

lemma hex_char_eval:
  "hex_char 4 = CHR ''4''" "hex_char 8 = CHR ''8''" "hex_char 9 = CHR ''9''" "hex_char 10 = CHR ''a''"
  "hex_char 11 = CHR ''b''"
  by code_simp+

lemma unat_byte_bound: "unat (w :: 8 word) < 256"
  using unsigned_less [of w] by simp

lemma byte_hex_hex: "\<forall>c \<in> set (byte_hex w). is_hex_lower c"
proof -
  have "unat w div 16 < 16" using unat_byte_bound [of w] by (simp add: less_mult_imp_div_less)
  then show ?thesis by (simp add: byte_hex_def hex_char_hex)
qed

lemma length_byte_hex [simp]: "length (byte_hex w) = 2"
  by (simp add: byte_hex_def)

text \<open>The two masked bytes: version 4 and variant 10.\<close>

lemma or_version_nibble: "list_all (\<lambda>k. (k OR 64) div 16 = (4::nat)) [0..<16]"
  by code_simp

lemma or_variant_nibble: "list_all (\<lambda>k. (k OR 128) div 16 \<in> {8,9,10,11::nat}) [0..<64]"
  by code_simp

lemma and_low_nibble: "(n AND 15) = n mod (16::nat)"
  using take_bit_eq_mask [of 4 n] by (simp add: take_bit_eq_mod mask_eq_exp_minus_1)

lemma and_low_six: "(n AND 63) = n mod (64::nat)"
  using take_bit_eq_mask [of 6 n] by (simp add: take_bit_eq_mod mask_eq_exp_minus_1)

lemma byte_masks:
  "unat ((w AND 0x0f) OR (0x40 :: 8 word)) div 16 = 4"
  "unat ((w AND 0x3f) OR (0x80 :: 8 word)) div 16 \<in> {8, 9, 10, 11}"
  using or_version_nibble or_variant_nibble by (auto simp: unsigned_or_eq unsigned_and_eq and_low_nibble and_low_six list_all_iff)

definition uuid_v4 :: "string \<Rightarrow> bool" where
  "uuid_v4 u \<longleftrightarrow> (\<exists>a b c d e. u = join ''-'' [a, b, c, d, e] \<and> map length [a, b, c, d, e] = [8, 4, 4, 4, 12]
     \<and> (\<forall>x \<in> set (a @ b @ c @ d @ e). is_hex_lower x) \<and> hd c = CHR ''4'' \<and> hd d \<in> set ''89ab'')"

lemma length_concat_hex: "length (concat (map byte_hex ws)) = 2 * length ws"
  by (induction ws) auto

lemma hex_concat: "x \<in> set (concat (map byte_hex ws)) \<Longrightarrow> is_hex_lower x"
  using byte_hex_hex by auto

lemma uuid_format_v4:
  assumes "length ws = 16" "unat (ws ! 6) div 16 = 4" "unat (ws ! 8) div 16 \<in> {8, 9, 10, 11}"
  shows "uuid_v4 (uuid_format ws)"
proof -
  let ?p = "\<lambda>i j. concat (map byte_hex (JS_Prelude.slice i j ws))"
  have fmt: "uuid_format ws = join ''-'' [?p 0 4, ?p 4 6, ?p 6 8, ?p 8 10, concat (map byte_hex (drop 10 ws))]"
    by (simp add: uuid_format_def Let_def JS_Prelude.slice_def take_map drop_map)
  have at: "hd (?p i j) = hex_char (unat (ws ! i) div 16)" if "i < j" "j \<le> 16" for i j
  proof -
    have "JS_Prelude.slice i j ws = ws ! i # JS_Prelude.slice (Suc i) j ws"
      using that assms(1) by (simp add: JS_Prelude.slice_def Cons_nth_drop_Suc [symmetric] take_Cons')
    then show ?thesis by (simp add: byte_hex_def)
  qed
  show ?thesis
    unfolding uuid_v4_def
  proof (intro exI conjI)
    show "map length [?p 0 4, ?p 4 6, ?p 6 8, ?p 8 10, concat (map byte_hex (drop 10 ws))] = [8, 4, 4, 4, 12]"
      unfolding list.map length_concat_hex using assms(1) by (simp add: JS_Prelude.slice_length)
    show "\<forall>x \<in> set (?p 0 4 @ ?p 4 6 @ ?p 6 8 @ ?p 8 10 @ concat (map byte_hex (drop 10 ws))). is_hex_lower x"
      using hex_concat unfolding set_append by blast
    show "hd (?p 6 8) = CHR ''4''"
      using at [of 6 8] assms(2) by (simp add: hex_char_eval)
    have "hex_char n \<in> set ''89ab''" if "n \<in> {8, 9, 10, 11}" for n
      using that hex_char_eval by auto
    then show "hd (?p 8 10) \<in> set ''89ab''"
      using at [of 8 10] assms(3) by simp
  qed (rule fmt)
qed

lemma uuid_bytes_masked:
  "length (uuid_bytes rnd) = 16" "unat (uuid_bytes rnd ! 6) div 16 = 4"
  "unat (uuid_bytes rnd ! 8) div 16 \<in> {8, 9, 10, 11}"
  using byte_masks(1) [of "rnd 6"] byte_masks(2) [of "rnd 8"]
  by (simp_all add: uuid_bytes_def Let_def)

text \<open>Without \<open>randomUUID\<close> (missing, or throwing, as on a page served over plain HTTP) the generated
  identifier is a version 4 UUID whatever the random bytes are: five groups of 8, 4, 4, 4 and 12
  lower-case hex digits, version nibble 4, variant nibble 8 to b. It fails only when no crypto object
  has \<open>getRandomValues\<close>.\<close>

theorem generateUUID_fallback_v4:
  assumes "cryptoApi preferred glob = Some api" "randomUUID api \<in> {None, Some None}"
  shows "(\<exists>u. generateUUID preferred glob = Inr u \<and> uuid_v4 u)
    \<or> (getRandomValues api = None \<and> (\<forall>g. glob = Some g \<longrightarrow> getRandomValues g = None)
       \<and> generateUUID preferred glob = Inl ''crypto.getRandomValues is unavailable'')"
  using assms uuid_format_v4 [OF uuid_bytes_masked]
  by (auto simp: generateUUID_def cryptoApi_def Let_def split: option.splits if_splits)

theorem generateUUID_fallback_v4_witness:
  "cryptoApi None (Some \<lparr>randomUUID = Some None, getRandomValues = Some (\<lambda>i. 0xff)\<rparr>)
     = Some \<lparr>randomUUID = Some None, getRandomValues = Some (\<lambda>i. 0xff)\<rparr>
   \<and> (\<exists>u. generateUUID None (Some \<lparr>randomUUID = Some None, getRandomValues = Some (\<lambda>i. 0xff)\<rparr>) = Inr u \<and> uuid_v4 u)"
  using generateUUID_fallback_v4 [of None "Some \<lparr>randomUUID = Some None, getRandomValues = Some (\<lambda>i. 0xff)\<rparr>"
      "\<lparr>randomUUID = Some None, getRandomValues = Some (\<lambda>i. 0xff)\<rparr>"]
  by (simp add: cryptoApi_def)

section \<open>Headers\<close>

lemma obj_has_strip:
  "obj_has (foldl (\<lambda>h name. if identity_header name then obj_delete h name else h) h names) k
    \<longleftrightarrow> obj_has h k \<and> \<not> (identity_header k \<and> k \<in> set names)"
  by (induction names arbitrary: h) auto

lemma obj_has_strip_headers: "obj_has (strip_identity_headers h) k \<longleftrightarrow> obj_has h k \<and> \<not> identity_header k"
  unfolding strip_identity_headers_def obj_has_strip by (auto simp: obj_has_def)

lemma obj_get_strip: "\<not> identity_header k \<Longrightarrow> obj_get (foldl (\<lambda>h name. if identity_header name then obj_delete h name else h) h names) k
    = obj_get h k"
  by (induction names arbitrary: h) (auto simp: obj_get_delete)

text \<open>\<^bold>\<open>C9.\<close> A request built by \<open>withIdentityHeaders\<close> never carries a credential header, in any
  capitalisation, even when the caller passed one; it carries an anonymous id exactly when the
  session has no credential, and then it is the session's own id; the client id is always set.\<close>

theorem withIdentityHeaders_safe:
  "\<exists>hs. obj_get (withIdentityHeaders options ident cid) ''headers'' = JObj hs
     \<and> (\<forall>k. obj_has hs k \<longrightarrow> toLowerCase k \<noteq> ''x-darklab-credential'')
     \<and> (\<forall>k. obj_has hs k \<and> toLowerCase k = ''x-darklab-anonymous-id'' \<longleftrightarrow>
          k = ''X-Darklab-Anonymous-ID'' \<and> (\<forall>s p. ident \<noteq> Some (IdCredential s p)))
     \<and> (\<forall>a p. ident = Some (IdAnonymous a p) \<longrightarrow> obj_get hs ''X-Darklab-Anonymous-ID'' = JStr a)
     \<and> obj_get hs ''X-Client-ID'' = JStr cid"
proof -
  have low: "toLowerCase ''X-Darklab-Anonymous-ID'' = ''x-darklab-anonymous-id''"
    "toLowerCase ''X-Client-ID'' = ''x-client-id''"
    by code_simp+
  consider "ident = None" | a p where "ident = Some (IdAnonymous a p)" | s p where "ident = Some (IdCredential s p)"
    by (metis identity.exhaust option.exhaust)
  then show ?thesis
    by cases (auto simp: withIdentityHeaders_def Let_def obj_has_strip_headers identity_header_def low obj_get_set)
qed

theorem withIdentityHeaders_safe_witness:
  "\<exists>hs. obj_get (withIdentityHeaders [(''headers'', JObj [(''x-darklab-CREDENTIAL'', JStr ''k''), (''A'', JStr ''b'')])]
       (Some (IdAnonymous ''me'' ''p'')) ''c'') ''headers'' = JObj hs
     \<and> \<not> obj_has hs ''x-darklab-CREDENTIAL'' \<and> obj_get hs ''X-Darklab-Anonymous-ID'' = JStr ''me''"
proof -
  let ?opts = "[(''headers'', JObj [(''x-darklab-CREDENTIAL'', JStr ''k''), (''A'', JStr ''b'')])]"
  have low: "toLowerCase ''x-darklab-CREDENTIAL'' = ''x-darklab-credential''" by code_simp
  obtain hs where "obj_get (withIdentityHeaders ?opts (Some (IdAnonymous ''me'' ''p'')) ''c'') ''headers'' = JObj hs"
    and "\<forall>k. obj_has hs k \<longrightarrow> toLowerCase k \<noteq> ''x-darklab-credential''"
    and "\<forall>a p. Some (IdAnonymous ''me'' ''p'') = Some (IdAnonymous a p) \<longrightarrow> obj_get hs ''X-Darklab-Anonymous-ID'' = JStr a"
    using withIdentityHeaders_safe [of ?opts "Some (IdAnonymous ''me'' ''p'')" "''c''"] by blast
  then show ?thesis using low by blast
qed

section \<open>Leaving the stored credential behind\<close>


end
