(* ===== verification/Preferences_Core.thy ===== *)
theory Preferences_Core
  imports JS_Value JS_Regex
begin

text \<open>
  Session preferences, \<open>app/static/js/core/app_preferences_core.js\<close>: the supported values, one
  coercion per preference, and the normalisation of a snapshot that came from the server or from the
  browser cache. A snapshot is any value; the result is an object with every preference at a
  supported value.
\<close>

section \<open>Supported values\<close>

definition session_preference_keys :: "string list" where
  "session_preference_keys =
     [''pref_active_project_id'', ''pref_theme_name'', ''pref_timestamps'', ''pref_line_numbers'',
      ''pref_welcome_intro'', ''pref_share_redaction_default'', ''pref_project_auto_link_external_runs'',
      ''pref_project_auto_link_run_entities'', ''pref_run_notify'', ''pref_command_outcome_summaries'',
      ''pref_hud_clock'', ''pref_prompt_username'', ''pref_compare_view_mode'', ''pref_compare_context'',
      ''pref_options_modal_last_tab'', ''pref_tour_seen_version'', ''pref_constellation_full_day'']"

definition welcome_intro_modes :: "string list" where
  "welcome_intro_modes = [''animated'', ''disable_animation'', ''remove'']"

definition share_redaction_default_modes :: "string list" where
  "share_redaction_default_modes = [''unset'', ''redacted'', ''raw'']"

definition hud_clock_modes :: "string list" where
  "hud_clock_modes = [''utc'', ''local'']"

definition compare_view_modes :: "string list" where
  "compare_view_modes = [''auto'', ''side_by_side'', ''unified'', ''changes_only'', ''findings_only'']"

definition compare_context_modes :: "string list" where
  "compare_context_modes = [''3'', ''10'', ''all'']"

definition options_modal_tabs :: "string list" where
  "options_modal_tabs = [''preferences'', ''access'', ''secrets'', ''teams'', ''notifications'']"

section \<open>Coercions\<close>

definition coerceMode :: "jsval \<Rightarrow> string list \<Rightarrow> string \<Rightarrow> jsval" where
  "coerceMode value modes fallback = (if value \<in> JStr ` set modes then value else JStr fallback)"

definition coerceTimestampMode :: "string list \<Rightarrow> jsval \<Rightarrow> jsval" where
  "coerceTimestampMode modes value = coerceMode value modes ''off''"

definition coerceLineNumberMode :: "jsval \<Rightarrow> jsval" where
  "coerceLineNumberMode value = (if value = JStr ''on'' then JStr ''on'' else JStr ''off'')"

definition coerceWelcomeIntroMode :: "jsval \<Rightarrow> jsval" where
  "coerceWelcomeIntroMode value = coerceMode value welcome_intro_modes ''animated''"

definition coerceShareRedactionDefaultMode :: "jsval \<Rightarrow> jsval" where
  "coerceShareRedactionDefaultMode value = coerceMode value share_redaction_default_modes ''unset''"

definition coerceRunNotifyMode :: "jsval \<Rightarrow> jsval" where
  "coerceRunNotifyMode value = (if value = JStr ''on'' then JStr ''on'' else JStr ''off'')"

definition coerceCommandOutcomeSummariesMode :: "jsval \<Rightarrow> jsval" where
  "coerceCommandOutcomeSummariesMode value = (if value = JStr ''off'' then JStr ''off'' else JStr ''on'')"

definition coerceConstellationFullDayMode :: "jsval \<Rightarrow> jsval" where
  "coerceConstellationFullDayMode value = (if value = JStr ''on'' then JStr ''on'' else JStr ''off'')"

definition coerceHudClockMode :: "jsval \<Rightarrow> jsval" where
  "coerceHudClockMode value = coerceMode value hud_clock_modes ''utc''"

definition coerceCompareViewMode :: "jsval \<Rightarrow> jsval" where
  "coerceCompareViewMode value = coerceMode value compare_view_modes ''auto''"

definition coerceCompareContextMode :: "jsval \<Rightarrow> jsval" where
  "coerceCompareContextMode value =
     coerceMode (JStr (toLowerCase (trim (str_or value [])))) compare_context_modes ''3''"

definition coerceOptionsModalTab :: "jsval \<Rightarrow> jsval" where
  "coerceOptionsModalTab value =
     coerceMode (JStr (toLowerCase (trim (str_or value [])))) options_modal_tabs ''preferences''"

definition username_char :: "char \<Rightarrow> bool" where
  "username_char c \<longleftrightarrow> is_alnum c \<or> c = CHR ''.'' \<or> c = CHR ''_'' \<or> c = CHR ''-''"

definition prompt_username_re :: rx where
  "prompt_username_re = rx_anchored (rx_rep 1 31 (RChr username_char))"

definition normalizePromptUsername :: "jsval \<Rightarrow> jsval" where
  "normalizePromptUsername value =
     (let username = trim (str_or value []) in
      JStr (if rx_test prompt_username_re username then username else []))"

definition coerceTourSeenVersion :: "jsval \<Rightarrow> jsval" where
  "coerceTourSeenVersion value =
     (if value = JNull \<or> value = JUndef \<or> value = JStr [] then JStr []
      else case parse_int (trim (to_str value)) of
        Fin r \<Rightarrow> if r \<ge> 1 then JNum (Fin r) else JStr []
      | _ \<Rightarrow> JStr [])"

definition coerceAutoLink :: "jsval \<Rightarrow> jsval" where
  "coerceAutoLink value = (if value = JStr ''off'' then JStr ''off'' else JStr ''on'')"

section \<open>Snapshots\<close>

definition defaultSessionPreferences :: "jsval \<Rightarrow> jsobj" where
  "defaultSessionPreferences defaultTheme =
     [(''pref_theme_name'', js_or defaultTheme (JStr ''darklab_obsidian.yaml'')),
      (''pref_active_project_id'', JStr []),
      (''pref_timestamps'', JStr ''off''),
      (''pref_line_numbers'', JStr ''off''),
      (''pref_welcome_intro'', JStr ''animated''),
      (''pref_share_redaction_default'', JStr ''unset''),
      (''pref_project_auto_link_external_runs'', JStr ''on''),
      (''pref_project_auto_link_run_entities'', JStr ''on''),
      (''pref_run_notify'', JStr ''off''),
      (''pref_command_outcome_summaries'', JStr ''on''),
      (''pref_hud_clock'', JStr ''utc''),
      (''pref_prompt_username'', JStr []),
      (''pref_compare_view_mode'', JStr ''auto''),
      (''pref_compare_context'', JStr ''3''),
      (''pref_options_modal_last_tab'', JStr ''preferences''),
      (''pref_tour_seen_version'', JStr []),
      (''pref_constellation_full_day'', JStr ''off'')]"

text \<open>The assignments \<open>prefs.k = coerce(source.k)\<close>, in the order of the code.\<close>

definition pref_coercions :: "string list \<Rightarrow> (string \<times> (jsval \<Rightarrow> jsval)) list" where
  "pref_coercions timestampModes =
     [(''pref_timestamps'', coerceTimestampMode timestampModes),
      (''pref_line_numbers'', coerceLineNumberMode),
      (''pref_welcome_intro'', coerceWelcomeIntroMode),
      (''pref_share_redaction_default'', coerceShareRedactionDefaultMode),
      (''pref_project_auto_link_external_runs'', coerceAutoLink),
      (''pref_project_auto_link_run_entities'', coerceAutoLink),
      (''pref_run_notify'', coerceRunNotifyMode),
      (''pref_command_outcome_summaries'', coerceCommandOutcomeSummariesMode),
      (''pref_hud_clock'', coerceHudClockMode),
      (''pref_prompt_username'', normalizePromptUsername),
      (''pref_compare_view_mode'', coerceCompareViewMode),
      (''pref_compare_context'', coerceCompareContextMode),
      (''pref_options_modal_last_tab'', coerceOptionsModalTab),
      (''pref_tour_seen_version'', coerceTourSeenVersion),
      (''pref_constellation_full_day'', coerceConstellationFullDayMode)]"

definition assign_coerced :: "jsval \<Rightarrow> (string \<times> (jsval \<Rightarrow> jsval)) list \<Rightarrow> jsobj \<Rightarrow> jsobj" where
  "assign_coerced source table prefs = foldl (\<lambda>p (k, f). obj_set p k (f (jprop source k))) prefs table"

definition project_id_re :: rx where
  "project_id_re = rx_anchored (RSeq (rx_lit ''prj_'') (rx_rep 16 0 (RChr is_hex_lower)))"

definition normalizeSessionPreferences :: "string list \<Rightarrow> jsval \<Rightarrow> jsobj \<Rightarrow> jsobj" where
  "normalizeSessionPreferences timestampModes source defaults =
     (let theme = jprop source ''pref_theme_name'';
          project = jprop source ''pref_active_project_id'';
          p1 = (if is_str theme \<and> trim (to_str theme) \<noteq> []
                then obj_set defaults ''pref_theme_name'' (JStr (trim (to_str theme))) else defaults);
          p2 = (if is_str project \<and> rx_test project_id_re (to_str project)
                then obj_set p1 ''pref_active_project_id'' project else p1)
      in assign_coerced source (pref_coercions timestampModes) p2)"

definition sessionPreferenceCacheKey :: "string \<Rightarrow> string" where
  "sessionPreferenceCacheKey sessionId = ''session_pref_cache:'' @ sessionId"

section \<open>Each coercion normalises\<close>

definition one_of :: "string list \<Rightarrow> jsval \<Rightarrow> bool" where
  "one_of modes v \<longleftrightarrow> v \<in> JStr ` set modes"

lemma coerceMode_normaliser: "fb \<in> set modes \<Longrightarrow> normaliser (\<lambda>v. coerceMode v modes fb) (one_of modes)"
  by unfold_locales (auto simp: coerceMode_def one_of_def)

lemma switch_normaliser:
  "normaliser (\<lambda>v. if v = JStr a then JStr a else JStr b) (one_of [a, b])"
  by unfold_locales (auto simp: one_of_def)

lemma lowered_normaliser:
  assumes "fb \<in> set modes" "\<forall>m \<in> set modes. toLowerCase (trim m) = m"
  shows "normaliser (\<lambda>v. coerceMode (JStr (toLowerCase (trim (str_or v [])))) modes fb) (one_of modes)"
  using assms by unfold_locales (auto simp: coerceMode_def one_of_def)

interpretation welcome_intro: normaliser coerceWelcomeIntroMode "one_of welcome_intro_modes"
  unfolding coerceWelcomeIntroMode_def [abs_def] by (rule coerceMode_normaliser) (simp add: welcome_intro_modes_def)

interpretation share_redaction: normaliser coerceShareRedactionDefaultMode "one_of share_redaction_default_modes"
  unfolding coerceShareRedactionDefaultMode_def [abs_def]
  by (rule coerceMode_normaliser) (simp add: share_redaction_default_modes_def)

interpretation hud_clock: normaliser coerceHudClockMode "one_of hud_clock_modes"
  unfolding coerceHudClockMode_def [abs_def] by (rule coerceMode_normaliser) (simp add: hud_clock_modes_def)

interpretation compare_view: normaliser coerceCompareViewMode "one_of compare_view_modes"
  unfolding coerceCompareViewMode_def [abs_def] by (rule coerceMode_normaliser) (simp add: compare_view_modes_def)

lemma lowered_modes:
  "\<forall>m \<in> set compare_context_modes. toLowerCase (trim m) = m"
  "\<forall>m \<in> set options_modal_tabs. toLowerCase (trim m) = m"
  by code_simp+

interpretation compare_context: normaliser coerceCompareContextMode "one_of compare_context_modes"
  unfolding coerceCompareContextMode_def [abs_def]
  by (rule lowered_normaliser [OF _ lowered_modes(1)]) (simp add: compare_context_modes_def)

interpretation options_tab: normaliser coerceOptionsModalTab "one_of options_modal_tabs"
  unfolding coerceOptionsModalTab_def [abs_def]
  by (rule lowered_normaliser [OF _ lowered_modes(2)]) (simp add: options_modal_tabs_def)

definition username_ok :: "jsval \<Rightarrow> bool" where
  "username_ok v \<longleftrightarrow> (\<exists>u. v = JStr u \<and> length u \<le> 32 \<and> (\<forall>c \<in> set u. username_char c))"

lemma username_char_not_ws: "username_char c \<Longrightarrow> \<not> is_ws c"
  by (auto simp: username_char_def is_alnum_def is_alpha_def is_lower_def is_upper_def is_digit_def
      char_between_def is_ws_code)

lemma prompt_username_lang:
  "rx_test prompt_username_re u \<longleftrightarrow> 1 \<le> length u \<and> length u \<le> 32 \<and> (\<forall>c \<in> set u. username_char c)"
proof -
  have "anchor_free (rx_rep 1 31 (RChr username_char))"
    by (rule anchor_free_rep) simp
  then show ?thesis
    unfolding prompt_username_re_def by (simp only: rx_full_lang rlang_rep_class) simp
qed

interpretation prompt_username: normaliser normalizePromptUsername username_ok
proof
  show "username_ok (normalizePromptUsername v)" for v
    by (auto simp: normalizePromptUsername_def Let_def prompt_username_lang username_ok_def)
next
  fix v
  assume "username_ok v"
  then obtain u where u: "v = JStr u" "length u \<le> 32" "\<forall>c \<in> set u. username_char c"
    by (auto simp: username_ok_def)
  then have "trim u = u" by (intro trim_no_ws) (auto dest: username_char_not_ws)
  with u show "normalizePromptUsername v = v"
    by (cases "u = []") (auto simp: normalizePromptUsername_def prompt_username_lang Suc_le_eq)
qed

definition tour_version_ok :: "jsval \<Rightarrow> bool" where
  "tour_version_ok v \<longleftrightarrow> v = JStr [] \<or> (\<exists>i \<ge> 1. v = JInt i)"

interpretation tour_version: normaliser coerceTourSeenVersion tour_version_ok
proof
  show "tour_version_ok (coerceTourSeenVersion v)" for v
    by (auto simp: coerceTourSeenVersion_def tour_version_ok_def split: jnum.splits dest!: parse_int_Fin_int)
next
  fix v
  assume "tour_version_ok v"
  then consider "v = JStr []" | i where "i \<ge> 1" "v = JInt i" by (auto simp: tour_version_ok_def)
  then show "coerceTourSeenVersion v = v"
  proof cases
    case 2
    then have "parse_int (trim (to_str v)) = Fin (of_int i)"
      using parse_int_nat_str [of "nat i"] trim_no_ws [OF nat_str_no_ws [of "nat i"]] by (simp add: int_str_def)
    with 2 show ?thesis by (simp add: coerceTourSeenVersion_def)
  qed (simp add: coerceTourSeenVersion_def)
qed

section \<open>The normalised snapshot\<close>

text \<open>What each preference may hold.\<close>

definition pref_domains :: "string list \<Rightarrow> (string \<times> (jsval \<Rightarrow> bool)) list" where
  "pref_domains modes =
     [(''pref_timestamps'', one_of modes),
      (''pref_line_numbers'', one_of [''on'', ''off'']),
      (''pref_welcome_intro'', one_of welcome_intro_modes),
      (''pref_share_redaction_default'', one_of share_redaction_default_modes),
      (''pref_project_auto_link_external_runs'', one_of [''off'', ''on'']),
      (''pref_project_auto_link_run_entities'', one_of [''off'', ''on'']),
      (''pref_run_notify'', one_of [''on'', ''off'']),
      (''pref_command_outcome_summaries'', one_of [''off'', ''on'']),
      (''pref_hud_clock'', one_of hud_clock_modes),
      (''pref_prompt_username'', username_ok),
      (''pref_compare_view_mode'', one_of compare_view_modes),
      (''pref_compare_context'', one_of compare_context_modes),
      (''pref_options_modal_last_tab'', one_of options_modal_tabs),
      (''pref_tour_seen_version'', tour_version_ok),
      (''pref_constellation_full_day'', one_of [''on'', ''off''])]"

definition project_id_ok :: "jsval \<Rightarrow> bool" where
  "project_id_ok v \<longleftrightarrow> v = JStr [] \<or> (\<exists>h. v = JStr (''prj_'' @ h) \<and> length h = 16 \<and> (\<forall>c \<in> set h. is_hex_lower c))"

definition theme_ok :: "jsval \<Rightarrow> bool" where
  "theme_ok v \<longleftrightarrow> (\<exists>t. v = JStr t \<and> t \<noteq> [] \<and> trimmed t)"

definition prefs_ok :: "string list \<Rightarrow> jsobj \<Rightarrow> bool" where
  "prefs_ok modes p \<longleftrightarrow> set (map fst p) = set session_preference_keys \<and> distinct (map fst p)
     \<and> theme_ok (obj_get p ''pref_theme_name'') \<and> project_id_ok (obj_get p ''pref_active_project_id'')
     \<and> list_all (\<lambda>(k, ok). ok (obj_get p k)) (pref_domains modes)"

lemma coercions_normalise:
  assumes "''off'' \<in> set modes"
  shows "list_all2 (\<lambda>(k, f) (j, ok). k = j \<and> normaliser f ok) (pref_coercions modes) (pref_domains modes)"
proof -
  have "normaliser (coerceTimestampMode modes) (one_of modes)"
    unfolding coerceTimestampMode_def [abs_def] by (rule coerceMode_normaliser [OF assms])
  moreover have "normaliser coerceLineNumberMode (one_of [''on'', ''off''])" "normaliser coerceRunNotifyMode (one_of [''on'', ''off''])"
    "normaliser coerceConstellationFullDayMode (one_of [''on'', ''off''])"
    "normaliser coerceAutoLink (one_of [''off'', ''on''])" "normaliser coerceCommandOutcomeSummariesMode (one_of [''off'', ''on''])"
    unfolding coerceLineNumberMode_def [abs_def] coerceRunNotifyMode_def [abs_def] coerceAutoLink_def [abs_def]
      coerceConstellationFullDayMode_def [abs_def] coerceCommandOutcomeSummariesMode_def [abs_def]
    by (rule switch_normaliser)+
  ultimately show ?thesis
    by (simp add: pref_coercions_def pref_domains_def welcome_intro.normaliser_axioms share_redaction.normaliser_axioms
        hud_clock.normaliser_axioms prompt_username.normaliser_axioms compare_view.normaliser_axioms
        compare_context.normaliser_axioms options_tab.normaliser_axioms tour_version.normaliser_axioms)
qed

lemma assign_coerced_get:
  assumes "distinct (map fst table)"
  shows "obj_get (assign_coerced src table p) k =
    (case map_of table k of Some f \<Rightarrow> f (jprop src k) | None \<Rightarrow> obj_get p k)"
  using assms
proof (induction table arbitrary: p)
  case (Cons kf table)
  then show ?case
    by (cases kf) (auto simp: assign_coerced_def obj_get_set dom_map_of_conv_image_fst split: option.splits
        dest: map_of_SomeD intro: rev_image_eqI)
qed (simp add: assign_coerced_def)

lemma assign_coerced_keys:
  "set (map fst table) \<subseteq> set (map fst p) \<Longrightarrow> map fst (assign_coerced src table p) = map fst p"
proof (induction table arbitrary: p)
  case (Cons kf table)
  then have "map fst (obj_set p (fst kf) (snd kf (jprop src (fst kf)))) = map fst p"
    by (auto simp: keys_obj_set obj_has_def)
  with Cons.prems Cons.IH [of "obj_set p (fst kf) (snd kf (jprop src (fst kf)))"] show ?case
    by (simp add: assign_coerced_def case_prod_beta)
qed (simp add: assign_coerced_def)

lemma obj_ext:
  assumes "map fst a = map fst b" "distinct (map fst a)" "\<And>k. obj_has a k \<Longrightarrow> obj_get a k = obj_get b k"
  shows "a = b"
  using assms
proof (induction a arbitrary: b)
  case (Cons x a)
  then obtain y b' where b: "b = y # b'" "fst y = fst x" "map fst a = map fst b'" by (cases b) auto
  have "obj_get (x # a) (fst x) = snd x" "obj_get b (fst x) = snd y"
    using b(2) by (cases x; cases y; simp add: obj_get_def b(1))+
  then have "snd x = snd y"
    using Cons.prems(3) [of "fst x"] by (simp add: obj_has_def)
  moreover have "a = b'"
  proof (rule Cons.IH)
    show "obj_get a k = obj_get b' k" if "obj_has a k" for k
    proof -
      have "k \<noteq> fst x" using that Cons.prems(2) by (force simp: obj_has_def)
      then show ?thesis
        using Cons.prems(3) [of k] that b by (cases x; cases y) (auto simp: obj_get_def obj_has_def)
    qed
  qed (use b Cons.prems in auto)
  ultimately show ?case using b by (simp add: prod_eq_iff)
qed simp

lemma coercions_keys: "map fst (pref_coercions modes) = map fst (pref_domains modes)"
  "distinct (map fst (pref_coercions modes))"
  by (simp_all add: pref_coercions_def pref_domains_def)

lemma normalized_coerced_get:
  assumes "(k, f) \<in> set (pref_coercions modes)"
  shows "obj_get (normalizeSessionPreferences modes src d) k = f (jprop src k)"
proof -
  have "map_of (pref_coercions modes) k = Some f"
    using assms coercions_keys(2) by (rule map_of_is_SomeI [rotated])
  then show ?thesis
    by (simp add: normalizeSessionPreferences_def Let_def assign_coerced_get [OF coercions_keys(2)])
qed

lemma default_keys:
  "set (map fst (defaultSessionPreferences th)) = set session_preference_keys"
  "distinct (map fst (defaultSessionPreferences th))"
  "set (map fst (pref_coercions modes)) \<subseteq> set (map fst (defaultSessionPreferences th))"
  by (simp_all add: defaultSessionPreferences_def session_preference_keys_def pref_coercions_def insert_commute)

lemma not_coerced: "map_of (pref_coercions modes) ''pref_theme_name'' = None"
  "map_of (pref_coercions modes) ''pref_active_project_id'' = None"
  by (simp_all add: pref_coercions_def)

lemma default_get:
  "obj_get (defaultSessionPreferences th) ''pref_theme_name'' = js_or th (JStr ''darklab_obsidian.yaml'')"
  "obj_get (defaultSessionPreferences th) ''pref_active_project_id'' = JStr []"
  by (simp_all add: defaultSessionPreferences_def obj_get_def)

lemma normalized_theme:
  "obj_get (normalizeSessionPreferences modes src d) ''pref_theme_name'' =
     (let theme = jprop src ''pref_theme_name'' in
      if is_str theme \<and> trim (to_str theme) \<noteq> [] then JStr (trim (to_str theme)) else obj_get d ''pref_theme_name'')"
  by (simp add: normalizeSessionPreferences_def Let_def assign_coerced_get [OF coercions_keys(2)] not_coerced obj_get_set)

lemma normalized_project:
  "obj_get (normalizeSessionPreferences modes src d) ''pref_active_project_id'' =
     (let project = jprop src ''pref_active_project_id'' in
      if is_str project \<and> rx_test project_id_re (to_str project) then project else obj_get d ''pref_active_project_id'')"
  by (simp add: normalizeSessionPreferences_def Let_def assign_coerced_get [OF coercions_keys(2)] not_coerced obj_get_set)

lemma normalized_keys:
  "map fst (normalizeSessionPreferences modes src (defaultSessionPreferences th)) = map fst (defaultSessionPreferences th)"
proof -
  let ?d = "defaultSessionPreferences th"
  have "obj_has ?d ''pref_theme_name''" "obj_has ?d ''pref_active_project_id''"
    by (simp_all add: obj_has_def defaultSessionPreferences_def)
  then have k: "map fst (obj_set ?d ''pref_theme_name'' v) = map fst ?d"
    "map fst (obj_set ?d ''pref_active_project_id'' w) = map fst ?d"
    "map fst (obj_set (obj_set ?d ''pref_theme_name'' v) ''pref_active_project_id'' w) = map fst ?d" for v w
    by (simp_all add: keys_obj_set)
  show ?thesis
    unfolding normalizeSessionPreferences_def Let_def
    by (subst assign_coerced_keys) (use k default_keys(3) in \<open>auto simp del: set_map\<close>)
qed

lemma project_id_lang: "rx_test project_id_re s \<longleftrightarrow> project_id_ok (JStr s) \<and> s \<noteq> []"
proof -
  have "anchor_free (RSeq (rx_lit ''prj_'') (rx_rep 16 0 (RChr is_hex_lower)))"
    by (simp del: rx_lit.simps)
  then have "rx_test project_id_re s \<longleftrightarrow> s \<in> rlang (RSeq (rx_lit ''prj_'') (rx_rep 16 0 (RChr is_hex_lower)))"
    unfolding project_id_re_def by (rule rx_full_lang)
  also have "\<dots> \<longleftrightarrow> (\<exists>h. s = ''prj_'' @ h \<and> h \<in> rlang (rx_rep 16 0 (RChr is_hex_lower)))"
    by simp
  also have "\<dots> \<longleftrightarrow> project_id_ok (JStr s) \<and> s \<noteq> []"
    unfolding rlang_rep_class project_id_ok_def by auto
  finally show ?thesis .
qed

lemma normalized_ok:
  assumes "''off'' \<in> set modes" "theme_ok (js_or th (JStr ''darklab_obsidian.yaml''))"
  shows "prefs_ok modes (normalizeSessionPreferences modes src (defaultSessionPreferences th))"
    (is "prefs_ok modes ?r")
  unfolding prefs_ok_def
proof (intro conjI)
  show "set (map fst ?r) = set session_preference_keys" "distinct (map fst ?r)"
    unfolding normalized_keys by (rule default_keys)+
  show "theme_ok (obj_get ?r ''pref_theme_name'')"
    using assms(2) by (auto simp: normalized_theme Let_def default_get theme_ok_def)
  show "project_id_ok (obj_get ?r ''pref_active_project_id'')"
    by (cases "jprop src ''pref_active_project_id''")
       (auto simp: normalized_project Let_def default_get project_id_lang project_id_ok_def)
  show "list_all (\<lambda>(k, ok). ok (obj_get ?r k)) (pref_domains modes)"
  proof (unfold list_all_length, intro allI impI)
    fix i
    assume i: "i < length (pref_domains modes)"
    obtain k f where kf: "pref_coercions modes ! i = (k, f)" by fastforce
    obtain j ok where jo: "pref_domains modes ! i = (j, ok)" by fastforce
    have len: "length (pref_coercions modes) = length (pref_domains modes)"
      using coercions_keys(1) map_eq_imp_length_eq by blast
    have "k = j" "normaliser f ok"
      using list_all2_nthD2 [OF coercions_normalise [OF assms(1)] i] kf jo by auto
    moreover have "(k, f) \<in> set (pref_coercions modes)"
      using i len kf by (metis nth_mem)
    ultimately show "case pref_domains modes ! i of (k, ok) \<Rightarrow> ok (obj_get ?r k)"
      using jo by (simp add: normalized_coerced_get normaliser.norm_valid)
  qed
qed

lemma normalized_fixed:
  assumes "''off'' \<in> set modes" "prefs_ok modes p" "map fst p = map fst (defaultSessionPreferences th)"
  shows "normalizeSessionPreferences modes (JObj p) (defaultSessionPreferences th) = p" (is "?r = p")
proof (rule obj_ext)
  show "map fst ?r = map fst p" using normalized_keys assms(3) by simp
  show "distinct (map fst ?r)" unfolding normalized_keys by (rule default_keys)
  fix k
  assume "obj_has ?r k"
  then have "k \<in> set session_preference_keys"
    using normalized_keys default_keys(1) unfolding obj_has_def by (metis set_map)
  moreover have "set session_preference_keys =
      insert ''pref_theme_name'' (insert ''pref_active_project_id'' (set (map fst (pref_coercions modes))))"
    by (simp add: session_preference_keys_def pref_coercions_def insert_commute)
  ultimately consider "k = ''pref_theme_name''" | "k = ''pref_active_project_id''" | "k \<in> set (map fst (pref_coercions modes))"
    by blast
  then show "obj_get ?r k = obj_get p k"
  proof cases
    case 1
    then show ?thesis
      using assms(2) by (auto simp: prefs_ok_def normalized_theme theme_ok_def trim_id)
  next
    case 2
    have "project_id_ok (obj_get p ''pref_active_project_id'')"
      using assms(2) by (simp add: prefs_ok_def)
    moreover have "project_id_ok (JStr s) \<Longrightarrow> rx_test project_id_re s \<or> s = []" for s
      using project_id_lang by blast
    moreover obtain s where "obj_get p ''pref_active_project_id'' = JStr s"
      using calculation(1) unfolding project_id_ok_def by blast
    ultimately show ?thesis
      unfolding 2 normalized_project Let_def jprop_JObj default_get
      by (metis is_str.simps(1) to_str.simps(5))
  next
    case 3
    then obtain i f where i: "i < length (pref_coercions modes)" "pref_coercions modes ! i = (k, f)"
      by (auto simp: in_set_conv_nth)
    have len: "length (pref_coercions modes) = length (pref_domains modes)"
      using coercions_keys(1) map_eq_imp_length_eq by blast
    obtain j ok where jo: "pref_domains modes ! i = (j, ok)" by fastforce
    have "k = j" "normaliser f ok"
      using list_all2_nthD [OF coercions_normalise [OF assms(1)] i(1)] i(2) jo by auto
    moreover have "ok (obj_get p j)"
      using assms(2) i(1) len jo by (auto simp: prefs_ok_def list_all_length)
    moreover have "(k, f) \<in> set (pref_coercions modes)"
      using i by (metis nth_mem)
    ultimately show ?thesis
      by (simp add: normalized_coerced_get normaliser.norm_fixed)
  qed
qed

text \<open>Whatever value arrives as a preference snapshot (from the server, from a stale cache, or
  not an object at all), normalising it gives an object with exactly the known preferences, each at a
  supported value, and normalising that object again changes nothing.\<close>

theorem preferences_normalised:
  assumes "''off'' \<in> set modes" "theme_ok (js_or th (JStr ''darklab_obsidian.yaml''))"
  shows "prefs_ok modes (normalizeSessionPreferences modes raw (defaultSessionPreferences th))
    \<and> normalizeSessionPreferences modes (JObj (normalizeSessionPreferences modes raw (defaultSessionPreferences th)))
        (defaultSessionPreferences th)
      = normalizeSessionPreferences modes raw (defaultSessionPreferences th)"
  using normalized_fixed [OF assms(1) normalized_ok [OF assms] normalized_keys] normalized_ok [OF assms] by blast

theorem preferences_normalised_witness:
  "prefs_ok [''off'', ''elapsed'', ''clock'']
     (normalizeSessionPreferences [''off'', ''elapsed'', ''clock'']
       (JObj [(''pref_timestamps'', JStr ''clock''), (''pref_tour_seen_version'', JStr '' 12x''), (''pref_hud_clock'', JInt 3)])
       (defaultSessionPreferences JUndef))"
proof -
  have "theme_ok (js_or JUndef (JStr ''darklab_obsidian.yaml''))"
    by (simp add: theme_ok_def js_or_def trimmed_def is_ws_def)
  then show ?thesis
    using preferences_normalised [of "[''off'', ''elapsed'', ''clock'']" JUndef] by simp
qed

end
