(* ===== verification/Workspace_Core.thy ===== *)
theory Workspace_Core
  imports JS_Value JS_Regex
begin

text \<open>
  Paths of the session workspace, \<open>app/static/js/core/workspace_core.js\<close>. A path argument is a
  string; \<open>undefined\<close> is the empty string, as the default arguments make it. An exception is the left
  component of the result.
\<close>

section \<open>Sizes\<close>

definition zero_fraction_re :: rx where
  "zero_fraction_re = rx_seq [rx_lit ''.0'', REol]"

definition scaled :: "rat \<Rightarrow> string" where
  "scaled v = rx_replace zero_fraction_re (\<lambda>m. []) (toFixed 1 v)"

definition formatBytes :: "jsval \<Rightarrow> string" where
  "formatBytes bytes =
     (case to_num bytes of
        NaN \<Rightarrow> ''0 B''
      | Infinity pos \<Rightarrow> if pos then ''Infinity MB'' else ''-Infinity B''
      | Fin value \<Rightarrow>
          if value < 1024 then rat_str value @ '' B''
          else if value < 1024 * 1024 then scaled (value / 1024) @ '' KB''
          else scaled (value / (1024 * 1024)) @ '' MB'')"

section \<open>Paths\<close>

definition path_parts :: "string \<Rightarrow> string list" where
  "path_parts path = filter nonempty (split_on CHR ''/'' path)"

definition normalizeDir :: "string \<Rightarrow> string" where
  "normalizeDir path = join ''/'' (filter nonempty (map trim (split_on CHR ''/'' path)))"

datatype path_error = EscapesWorkspace | UnsupportedCharacters

text \<open>The loop over the segments, with the stack of names kept so far.\<close>

fun walk_parts :: "string list \<Rightarrow> string list \<Rightarrow> path_error + string list" where
  "walk_parts baseParts [] = Inr baseParts"
| "walk_parts baseParts (part # rest) =
     (let trm = trim part in
      if trm = [] \<or> trm = ''.'' then walk_parts baseParts rest
      else if trm = ''..'' then
        (if baseParts \<noteq> [] then walk_parts (butlast baseParts) rest else Inl EscapesWorkspace)
      else if str_includes trm [BSL] \<or> str_includes trm [CHR 0x00] then Inl UnsupportedCharacters
      else walk_parts (baseParts @ [trm]) rest)"

definition normalizeCommandPath :: "string \<Rightarrow> string \<Rightarrow> path_error + string" where
  "normalizeCommandPath path cwd =
     (let raw = trim path;
          baseParts = (if startsWith raw ''/'' then [] else path_parts (normalizeDir cwd))
      in map_sum id (join ''/'') (walk_parts baseParts (path_parts raw)))"

definition displayPath :: "string \<Rightarrow> string" where
  "displayPath path = (let normalized = normalizeDir path in
     if normalized \<noteq> [] then CHR ''/'' # normalized else ''/'')"

definition parentDir :: "string \<Rightarrow> string" where
  "parentDir path = join ''/'' (butlast (path_parts (normalizeDir path)))"

definition basename :: "string \<Rightarrow> string" where
  "basename path = (let parts = path_parts path in if parts \<noteq> [] then last parts else path)"

section \<open>Segments\<close>

definition dir_segment :: "string \<Rightarrow> bool" where
  "dir_segment s \<longleftrightarrow> s \<noteq> [] \<and> trimmed s \<and> CHR ''/'' \<notin> set s"

definition safe_segment :: "string \<Rightarrow> bool" where
  "safe_segment s \<longleftrightarrow> dir_segment s \<and> s \<noteq> ''.'' \<and> s \<noteq> ''..'' \<and> BSL \<notin> set s \<and> CHR 0x00 \<notin> set s"

definition clean_dir :: "string \<Rightarrow> bool" where
  "clean_dir p \<longleftrightarrow> (\<exists>parts. p = join ''/'' parts \<and> (\<forall>s \<in> set parts. dir_segment s))"

definition safe_path :: "string \<Rightarrow> bool" where
  "safe_path p \<longleftrightarrow> (\<exists>parts. p = join ''/'' parts \<and> (\<forall>s \<in> set parts. safe_segment s))"

lemma path_parts_join:
  "\<forall>s \<in> set parts. dir_segment s \<Longrightarrow> path_parts (join ''/'' parts) = parts"
  unfolding path_parts_def by (rule split_on_join_nonempty) (auto simp: dir_segment_def)

lemma path_parts_pieces: "s \<in> set (path_parts p) \<Longrightarrow> s \<noteq> [] \<and> CHR ''/'' \<notin> set s"
  by (auto simp: path_parts_def split_on_pieces)

lemma normalizeDir_parts:
  "\<forall>s \<in> set (filter nonempty (map trim (split_on CHR ''/'' p))). dir_segment s"
  using set_trim split_on_pieces by (fastforce simp: dir_segment_def)

lemma path_parts_normalizeDir:
  "path_parts (normalizeDir p) = filter nonempty (map trim (split_on CHR ''/'' p))"
  unfolding normalizeDir_def by (rule path_parts_join [OF normalizeDir_parts])

interpretation dir_norm: normaliser normalizeDir clean_dir
proof
  fix p
  show "clean_dir (normalizeDir p)"
    unfolding clean_dir_def normalizeDir_def using normalizeDir_parts by blast
next
  fix p
  assume "clean_dir p"
  then obtain parts where p: "p = join ''/'' parts" and ok: "\<forall>s \<in> set parts. dir_segment s"
    by (auto simp: clean_dir_def)
  show "normalizeDir p = p"
  proof (cases "parts = []")
    case True
    with p show ?thesis by (simp add: normalizeDir_def)
  next
    case False
    have "split_on CHR ''/'' p = parts"
      using split_on_join [OF False, of "CHR ''/''"] ok p by (auto simp: dir_segment_def)
    moreover have "map trim parts = parts"
      using ok by (intro map_idI) (simp add: dir_segment_def trim_id)
    moreover have "filter nonempty parts = parts"
      using ok by (simp add: dir_segment_def filter_id_conv)
    ultimately show ?thesis by (simp add: normalizeDir_def p)
  qed
qed

lemma safe_clean: "safe_path p \<Longrightarrow> clean_dir p"
  by (auto simp: safe_path_def clean_dir_def safe_segment_def)

lemma safe_path_obtain:
  assumes "safe_path p"
  obtains parts where "p = join ''/'' parts" "path_parts p = parts" "\<forall>s \<in> set parts. safe_segment s"
proof -
  from assms obtain parts where p: "p = join ''/'' parts" and s: "\<forall>s \<in> set parts. safe_segment s"
    unfolding safe_path_def by blast
  have "path_parts (join ''/'' parts) = parts"
    by (rule path_parts_join) (use s in \<open>simp add: safe_segment_def\<close>)
  with p s show thesis using that by simp
qed

lemma safe_path_parts: "safe_path p \<Longrightarrow> \<forall>s \<in> set (path_parts p). safe_segment s"
  by (erule safe_path_obtain) simp

lemma safe_path_join_parts: "safe_path p \<Longrightarrow> join ''/'' (path_parts p) = p"
  by (erule safe_path_obtain) simp

section \<open>Resolving a path\<close>

text \<open>The three ways one segment goes on.\<close>

lemma walk_parts_ConsE:
  assumes "walk_parts base (part # rest) = Inr out"
  obtains "trim part \<in> {[], ''.''}" "walk_parts base rest = Inr out"
    | "trim part = ''..''" "base \<noteq> []" "walk_parts (butlast base) rest = Inr out"
    | "trim part \<notin> {[], ''.'', ''..''}" "BSL \<notin> set (trim part)" "CHR 0x00 \<notin> set (trim part)"
      "walk_parts (base @ [trim part]) rest = Inr out"
  using assms that by (auto simp: Let_def str_includes_single split: if_splits)

lemma walk_parts_safe:
  "walk_parts base parts = Inr out \<Longrightarrow> \<forall>s \<in> set base. safe_segment s \<Longrightarrow>
   \<forall>s \<in> set parts. CHR ''/'' \<notin> set s \<Longrightarrow> \<forall>s \<in> set out. safe_segment s"
proof (induction parts arbitrary: base)
  case (Cons part rest)
  have rest: "\<forall>s \<in> set rest. CHR ''/'' \<notin> set s" using Cons.prems(3) by simp
  from Cons.prems(1) show ?case
  proof (rule walk_parts_ConsE)
    assume "walk_parts base rest = Inr out"
    then show ?thesis by (rule Cons.IH [OF _ Cons.prems(2) rest])
  next
    assume "walk_parts (butlast base) rest = Inr out"
    moreover have "\<forall>s \<in> set (butlast base). safe_segment s"
      using Cons.prems(2) by (blast dest: in_set_butlastD)
    ultimately show ?thesis using rest by (rule Cons.IH)
  next
    assume t: "trim part \<notin> {[], ''.'', ''..''}" "BSL \<notin> set (trim part)" "CHR 0x00 \<notin> set (trim part)"
      and w: "walk_parts (base @ [trim part]) rest = Inr out"
    have "CHR ''/'' \<notin> set (trim part)"
      using Cons.prems(3) set_trim [of part] by auto
    with t have "safe_segment (trim part)"
      by (simp add: safe_segment_def dir_segment_def)
    with Cons.prems(2) have "\<forall>s \<in> set (base @ [trim part]). safe_segment s" by simp
    with w show ?thesis using rest by (rule Cons.IH)
  qed
qed simp

lemma normalizeCommandPath_safe:
  assumes "normalizeCommandPath path cwd = Inr p" "safe_path cwd"
  shows "safe_path p"
proof -
  let ?base = "if startsWith (trim path) ''/'' then [] else path_parts (normalizeDir cwd)"
  obtain out where w: "walk_parts ?base (path_parts (trim path)) = Inr out" and p: "p = join ''/'' out"
    using assms(1) unfolding normalizeCommandPath_def Let_def
    by (cases "walk_parts ?base (path_parts (trim path))") auto
  have "\<forall>s \<in> set ?base. safe_segment s"
    using assms(2) safe_path_parts by (simp add: dir_norm.norm_fixed safe_clean)
  then have "\<forall>s \<in> set out. safe_segment s"
    by (rule walk_parts_safe [OF w]) (simp add: path_parts_pieces)
  with p show ?thesis by (auto simp: safe_path_def)
qed

text \<open>Directories reached from the workspace root by changing directory any number of times.\<close>

inductive cwd_reachable :: "string \<Rightarrow> bool" where
  cwd_root: "cwd_reachable []"
| cwd_step: "cwd_reachable cwd \<Longrightarrow> normalizeCommandPath path cwd = Inr p \<Longrightarrow> cwd_reachable p"

lemma cwd_reachable_safe: "cwd_reachable cwd \<Longrightarrow> safe_path cwd"
proof (induction rule: cwd_reachable.induct)
  case cwd_root
  show ?case unfolding safe_path_def by (rule exI [of _ "[]"]) simp
next
  case (cwd_step cwd path p)
  then show ?case by (blast intro: normalizeCommandPath_safe)
qed

text \<open>\<^bold>\<open>C11.\<close> No sequence of path arguments leaves the session workspace: from the root, every directory
  reached through \<open>normalizeCommandPath\<close> is a slash-joined list of names, none of them empty, \<open>.\<close> or
  \<open>..\<close>, without slashes, backslashes or NUL, and so is every path resolved against it.\<close>

theorem command_path_inside_workspace:
  assumes "cwd_reachable cwd" "normalizeCommandPath path cwd = Inr p"
  shows "safe_path cwd \<and> safe_path p \<and> normalizeDir p = p"
  using normalizeCommandPath_safe [OF assms(2) cwd_reachable_safe [OF assms(1)]] cwd_reachable_safe [OF assms(1)]
  by (simp add: dir_norm.norm_fixed safe_clean)

theorem command_path_inside_workspace_witness:
  "normalizeCommandPath ''../b/./c'' ''a'' = Inr ''b/c'' \<and> safe_path ''b/c''"
proof -
  have a: "normalizeCommandPath ''a'' [] = Inr ''a''" by code_simp
  have p: "normalizeCommandPath ''../b/./c'' ''a'' = Inr ''b/c''" by code_simp
  have "cwd_reachable ''a''" by (rule cwd_step [OF cwd_root a])
  from command_path_inside_workspace [OF this p] p show ?thesis by simp
qed

section \<open>When a path is refused\<close>

text \<open>The names and the parent steps among the first segments of a path.\<close>

definition seg_effect :: "string \<Rightarrow> int" where
  "seg_effect part = (if trim part \<in> {[], ''.''} then 0 else if trim part = ''..'' then - 1 else 1)"

definition seg_bad :: "string \<Rightarrow> bool" where
  "seg_bad part \<longleftrightarrow> trim part \<noteq> ''..'' \<and> (BSL \<in> set (trim part) \<or> CHR 0x00 \<in> set (trim part))"

definition escapes_at :: "nat \<Rightarrow> string list \<Rightarrow> nat \<Rightarrow> bool" where
  "escapes_at base parts k \<longleftrightarrow> k \<le> length parts \<and> int base + sum_list (map seg_effect (take k parts)) < 0
     \<and> (\<forall>part \<in> set (take k parts). \<not> seg_bad part)"

lemma walk_parts_Cons:
  "walk_parts base (part # rest) =
     (if seg_bad part then Inl UnsupportedCharacters
      else if int (length base) + seg_effect part < 0 then Inl EscapesWorkspace
      else walk_parts (if seg_effect part = 0 then base else if seg_effect part < 0 then butlast base
                       else base @ [trim part]) rest)"
  by (auto simp: Let_def seg_bad_def seg_effect_def str_includes_single)

lemma escapes_at_Cons:
  "(\<exists>k. escapes_at n (part # rest) k) \<longleftrightarrow>
     \<not> seg_bad part \<and> (int n + seg_effect part < 0 \<or> (\<exists>k. escapes_at (nat (int n + seg_effect part)) rest k))"
proof -
  have split: "(\<exists>k. escapes_at n (part # rest) k) \<longleftrightarrow> (\<exists>k. escapes_at n (part # rest) (Suc k))"
    by (metis (no_types, lifting) escapes_at_def add_0_right list.simps(8) not0_implies_Suc of_nat_0_le_iff not_less sum_list.Nil take0)
  show ?thesis
  proof (cases "int n + seg_effect part < 0")
    case True
    have "escapes_at n (part # rest) (Suc 0) \<longleftrightarrow> \<not> seg_bad part"
      using True by (simp add: escapes_at_def)
    moreover have "escapes_at n (part # rest) (Suc k) \<Longrightarrow> \<not> seg_bad part" for k
      by (simp add: escapes_at_def)
    ultimately show ?thesis unfolding split using True by blast
  next
    case False
    then have "escapes_at n (part # rest) (Suc k) \<longleftrightarrow> \<not> seg_bad part \<and> escapes_at (nat (int n + seg_effect part)) rest k" for k
      by (auto simp: escapes_at_def)
    then show ?thesis unfolding split using False by auto
  qed
qed

lemma walk_parts_escape: "walk_parts base parts = Inl EscapesWorkspace \<longleftrightarrow> (\<exists>k. escapes_at (length base) parts k)"
proof (induction parts arbitrary: base)
  case Nil
  then show ?case by (simp add: escapes_at_def)
next
  case (Cons part rest)
  let ?base = "if seg_effect part = 0 then base else if seg_effect part < 0 then butlast base else base @ [trim part]"
  have eff: "seg_effect part \<in> {- 1, 0, 1}" by (simp add: seg_effect_def)
  have len: "length ?base = nat (int (length base) + seg_effect part)" if "\<not> int (length base) + seg_effect part < 0"
    using that eff by auto
  show ?case
  proof (cases "seg_bad part \<or> int (length base) + seg_effect part < 0")
    case False
    then have "length ?base = nat (int (length base) + seg_effect part)"
      using len by blast
    with False show ?thesis
      unfolding walk_parts_Cons escapes_at_Cons
      using Cons.IH [of ?base] by (simp only: simp_thms if_False de_Morgan_disj)
  qed (auto simp: walk_parts_Cons escapes_at_Cons simp del: walk_parts.simps)
qed

text \<open>\<^bold>\<open>C12.\<close> \<open>normalizeCommandPath\<close> refuses a path as escaping exactly when some prefix of its segments goes up
  more often than the directory it starts from and the names before it allow, no segment of that
  prefix having an unsupported character.\<close>

theorem command_path_escape_iff:
  "normalizeCommandPath path cwd = Inl EscapesWorkspace \<longleftrightarrow>
     (\<exists>k. escapes_at (if startsWith (trim path) ''/'' then 0 else length (path_parts (normalizeDir cwd)))
        (path_parts (trim path)) k)"
  unfolding normalizeCommandPath_def Let_def
  using walk_parts_escape [of "if startsWith (trim path) ''/'' then [] else path_parts (normalizeDir cwd)" "path_parts (trim path)"]
  by (cases "walk_parts (if startsWith (trim path) ''/'' then [] else path_parts (normalizeDir cwd)) (path_parts (trim path))")
     (auto split: if_splits)

section \<open>Parents and base names\<close>

lemma join_snoc: "xs \<noteq> [] \<Longrightarrow> join sep (xs @ [x]) = join sep xs @ sep @ x"
  by (induction sep xs rule: join.induct) auto

text \<open>A workspace path is its parent directory, a slash and its base name; displaying it and
  normalising the result gives the path back.\<close>

lemma parent_basename:
  assumes "safe_path p" "p \<noteq> []"
  shows "(if parentDir p = [] then basename p = p else parentDir p @ ''/'' @ basename p = p)
    \<and> safe_path (parentDir p) \<and> normalizeDir (displayPath p) = p"
  using assms(1)
proof (rule safe_path_obtain)
  fix parts
  assume p: "p = join ''/'' parts" and pp: "path_parts p = parts" and safe: "\<forall>s \<in> set parts. safe_segment s"
  have norm: "normalizeDir p = p"
    using assms(1) by (simp add: dir_norm.norm_fixed safe_clean)
  from p assms(2) have ne: "parts \<noteq> []" by auto
  have pd: "parentDir p = join ''/'' (butlast parts)" and bn: "basename p = last parts"
    using ne by (simp_all add: parentDir_def basename_def norm pp Let_def)
  have "\<forall>s \<in> set (butlast parts). safe_segment s" using safe by (blast dest: in_set_butlastD)
  then have "safe_path (parentDir p)" and e: "parentDir p = [] \<longleftrightarrow> butlast parts = []"
    unfolding pd safe_path_def using join_eq_Nil [of "butlast parts" "''/''"]
    by (auto simp: safe_segment_def dir_segment_def)
  moreover have "if parentDir p = [] then basename p = p else parentDir p @ ''/'' @ basename p = p"
    using e ne join_snoc [of "butlast parts" "''/''" "last parts"] p pd bn
    by (metis append_butlast_last_id append_Nil join.simps(2))
  moreover have "normalizeDir (displayPath p) = p"
    using norm assms(2) by (simp add: displayPath_def Let_def normalizeDir_def)
  ultimately show ?thesis by blast
qed

end
