(* ===== verification/Utils_Core.thy ===== *)
theory Utils_Core
  imports JS_Value JS_Regex
begin

text \<open>
  Shared text helpers of \<open>app/static/js/core/utils.js\<close>: HTML and RegExp escaping, redaction rules
  applied before a snapshot is shared, the omission of intel output from shares, and the Markdown
  subset of the operator notice. The \<open>RegExp\<close> constructor on an operator's pattern is the argument
  \<open>compile\<close>: it gives \<^const>\<open>None\<close> when the constructor throws, otherwise what
  \<open>value.replace(regex, replacement)\<close> does.
\<close>

section \<open>Escaping\<close>

definition replace_char :: "char \<Rightarrow> string \<Rightarrow> string \<Rightarrow> string" where
  "replace_char c r s = rx_replace_all (RChr (\<lambda>x. x = c)) (\<lambda>m. r) s"

definition escapeHtml :: "string \<Rightarrow> string" where
  "escapeHtml t = replace_char CHR ''>'' ''&gt;'' (replace_char CHR ''<'' ''&lt;'' (replace_char CHR ''&'' ''&amp;'' t))"

definition regex_special :: "char \<Rightarrow> bool" where
  "regex_special c \<longleftrightarrow> c \<in> set ''.*+?^${}()|[]'' \<or> c = BSL"

definition escapeRegex :: "string \<Rightarrow> string" where
  "escapeRegex s = rx_replace_all (RChr regex_special) (\<lambda>m. BSL # fst m) s"

section \<open>Redaction\<close>

type_synonym regexp_compile = "string \<Rightarrow> string \<Rightarrow> (string \<Rightarrow> string \<Rightarrow> string) option"

record redaction_rule =
  rule_label :: string
  rule_pattern :: string
  rule_replacement :: string
  rule_flags :: string
  rule_regex :: "string \<Rightarrow> string \<Rightarrow> string"

definition redaction_flags :: "jsval \<Rightarrow> string" where
  "redaction_flags v = (if is_str v
     then dedup (filter (\<lambda>ch. ch = CHR ''i'' \<or> ch = CHR ''m'') (toLowerCase (to_str v))) else [])"

definition normalizeRedactionRule :: "regexp_compile \<Rightarrow> jsval \<Rightarrow> redaction_rule option" where
  "normalizeRedactionRule compile rule =
     (if \<not> is_object rule then None
      else let pat = (if is_str (jprop rule ''pattern'') then to_str (jprop rule ''pattern'') else []);
               replacement = (if is_str (jprop rule ''replacement'') then to_str (jprop rule ''replacement'') else ''[redacted]'');
               flags = redaction_flags (jprop rule ''flags'')
           in if trim pat = [] then None
              else case compile pat (CHR ''g'' # flags) of
                None \<Rightarrow> None
              | Some re \<Rightarrow> Some \<lparr>
                  rule_label = (if is_str (jprop rule ''label'') then trim (to_str (jprop rule ''label'')) else []),
                  rule_pattern = pat, rule_replacement = replacement, rule_flags = flags, rule_regex = re\<rparr>)"

definition normalizeRedactionRules :: "regexp_compile \<Rightarrow> jsval \<Rightarrow> redaction_rule list" where
  "normalizeRedactionRules compile rules = List.map_filter (normalizeRedactionRule compile) (arr_items rules)"

definition applyRedactionRules :: "regexp_compile \<Rightarrow> jsval \<Rightarrow> jsval \<Rightarrow> string" where
  "applyRedactionRules compile text rules =
     foldl (\<lambda>value rule. rule_regex rule value (rule_replacement rule))
       (to_str (js_nullish text (JStr []))) (normalizeRedactionRules compile rules)"

text \<open>\<open>{...item}\<close>: an array spreads to its indexes.\<close>

definition spread :: "jsval \<Rightarrow> jsobj" where
  "spread v = (case v of JArr xs \<Rightarrow> zip (map nat_str [0..<length xs]) xs | _ \<Rightarrow> obj_entries v)"

definition redactLineEntry :: "regexp_compile \<Rightarrow> jsval \<Rightarrow> jsval \<Rightarrow> jsval" where
  "redactLineEntry compile rules item =
     (if is_str item then JStr (applyRedactionRules compile item rules)
      else if \<not> is_object item \<or> \<not> is_str (jprop item ''text'') then JNull
      else JObj (obj_set (spread item) ''text'' (JStr (applyRedactionRules compile (jprop item ''text'') rules))))"

definition redactLineEntries :: "regexp_compile \<Rightarrow> jsval \<Rightarrow> jsval \<Rightarrow> jsval list" where
  "redactLineEntries compile entries rules = filter truthy (map (redactLineEntry compile rules) (arr_items entries))"

section \<open>Intel output stays out of shares\<close>

definition raw_only_placeholder :: string where
  "raw_only_placeholder = ''Intel data omitted from share''"

definition isRawOnlyIntelEntry :: "jsval \<Rightarrow> bool" where
  "isRawOnlyIntelEntry item \<longleftrightarrow>
     is_object item \<and> toLowerCase (trim (str_or (jprop item ''command_root'') [])) = ''intel''"

definition rawOnlyPlaceholderEntry :: "jsval \<Rightarrow> jsval" where
  "rawOnlyPlaceholderEntry source =
     JObj ([(''text'', JStr raw_only_placeholder), (''cls'', JStr ''notice''), (''raw_only'', JBool True),
            (''command_root'', JStr ''intel'')]
       @ (if is_str (jprop source ''tsC'') then [(''tsC'', jprop source ''tsC'')] else [])
       @ (if is_str (jprop source ''tsE'') then [(''tsE'', jprop source ''tsE'')] else [])
       @ (case jprop source ''line_number'' of
            JNum n \<Rightarrow> if is_integer_num n then [(''line_number'', JNum n)] else []
          | _ \<Rightarrow> []))"

fun omit_loop :: "bool \<Rightarrow> jsval list \<Rightarrow> jsval list" where
  "omit_loop inIntelGroup [] = []"
| "omit_loop inIntelGroup (item # items) =
     (if isRawOnlyIntelEntry item
      then (if inIntelGroup then omit_loop True items
            else rawOnlyPlaceholderEntry item # omit_loop True items)
      else if is_str item then item # omit_loop False items
      else if is_object item then JObj (spread item) # omit_loop False items
      else omit_loop False items)"

definition omitRawOnlyLineEntries :: "jsval \<Rightarrow> jsval list" where
  "omitRawOnlyLineEntries entries = omit_loop False (arr_items entries)"

section \<open>The operator notice\<close>

definition motd_bold_re :: rx where
  "motd_bold_re = rx_seq [rx_lit ''**'', RCap 1 (RSeq rx_any (RStar False rx_any)), rx_lit ''**'']"

definition motd_code_re :: rx where
  "motd_code_re = rx_seq [rx_lit [BTICK], RCap 1 (rx_plus (RChr (\<lambda>c. c \<noteq> BTICK))), rx_lit [BTICK]]"

definition motd_link_re :: rx where
  "motd_link_re = rx_seq [rx_lit ''['', RCap 1 (rx_plus (RChr (\<lambda>c. c \<noteq> CHR '']''))), rx_lit '']('',
     RCap 2 (rx_seq [rx_lit ''http'', rx_opt (rx_lit ''s''), rx_lit ''://'', rx_plus (RChr (\<lambda>c. c \<noteq> CHR '')''))]),
     rx_lit '')'']"

definition renderMotd :: "string \<Rightarrow> string" where
  "renderMotd text =
     (let s1 = rx_replace_all motd_bold_re (\<lambda>m. ''<strong>'' @ rx_group_str m 1 @ ''</strong>'') (escapeHtml text);
          s2 = rx_replace_all motd_code_re (\<lambda>m. ''<code>'' @ rx_group_str m 1 @ ''</code>'') s1;
          s3 = rx_replace_all motd_link_re (\<lambda>m. ''<a href='' @ [DQ] @ rx_group_str m 2 @ [DQ] @ '' target='' @ [DQ]
                 @ ''_blank'' @ [DQ] @ '' rel='' @ [DQ] @ ''noopener'' @ [DQ] @ ''>'' @ rx_group_str m 1 @ ''</a>'') s2
      in replace_char NL ''<br>'' s3)"

section \<open>Escaping is character-wise and reversible\<close>

definition html_entity :: "char \<Rightarrow> string" where
  "html_entity c = (if c = CHR ''&'' then ''&amp;'' else if c = CHR ''<'' then ''&lt;''
     else if c = CHR ''>'' then ''&gt;'' else [c])"

lemma replace_char_map: "replace_char c r s = concat (map (\<lambda>x. if x = c then r else [x]) s)"
  by (simp add: replace_char_def rx_replace_all_class)

lemma escapeHtml_map: "escapeHtml t = concat (map html_entity t)"
  unfolding escapeHtml_def replace_char_map by (induction t) (auto simp: html_entity_def)

text \<open>Reading the three entities back.\<close>

fun decode_html :: "string \<Rightarrow> string" where
  "decode_html [] = []"
| "decode_html (c # t) =
     (if startsWith (c # t) ''&amp;'' then CHR ''&'' # decode_html (drop 4 t)
      else if startsWith (c # t) ''&lt;'' then CHR ''<'' # decode_html (drop 3 t)
      else if startsWith (c # t) ''&gt;'' then CHR ''>'' # decode_html (drop 3 t)
      else c # decode_html t)"

lemma decode_entity: "decode_html (html_entity c @ s) = c # decode_html s"
  by (simp add: html_entity_def)

text \<open>Escaped text has no angle bracket and, with the three entities decoded, is the original text: the
  three passes of \<open>escapeHtml\<close> do not escape their own output again.\<close>

theorem escapeHtml_faithful:
  "CHR ''<'' \<notin> set (escapeHtml t) \<and> CHR ''>'' \<notin> set (escapeHtml t) \<and> decode_html (escapeHtml t) = t"
proof -
  have "decode_html (concat (map html_entity t)) = t"
    by (induction t) (simp_all add: decode_entity)
  moreover have "CHR ''<'' \<notin> set (concat (map html_entity t)) \<and> CHR ''>'' \<notin> set (concat (map html_entity t))"
    by (induction t) (auto simp: html_entity_def)
  ultimately show ?thesis by (simp add: escapeHtml_map)
qed

text \<open>A double quote in a link target ends the \<open>href\<close> attribute: the notice can add attributes.\<close>

lemma renderMotd_quote_breaks_out:
  "renderMotd (''[x](https://a'' @ [DQ] @ '' onclick='' @ [DQ] @ ''f)'') =
     ''<a href='' @ [DQ] @ ''https://a'' @ [DQ] @ '' onclick='' @ [DQ] @ ''f'' @ [DQ] @ '' target='' @ [DQ]
     @ ''_blank'' @ [DQ] @ '' rel='' @ [DQ] @ ''noopener'' @ [DQ] @ ''>x</a>''"
  by code_simp

section \<open>Omission\<close>

lemma placeholder_intel [simp]: "isRawOnlyIntelEntry (rawOnlyPlaceholderEntry s)"
proof -
  have "toLowerCase (trim ''intel'') = ''intel''" by code_simp
  then show ?thesis
    by (simp add: isRawOnlyIntelEntry_def rawOnlyPlaceholderEntry_def obj_get_def)
qed

definition kept_entry :: "jsval \<Rightarrow> bool" where
  "kept_entry item \<longleftrightarrow> \<not> isRawOnlyIntelEntry item \<and> (is_str item \<or> is_object item)"

definition plain_copy :: "jsval \<Rightarrow> jsval" where
  "plain_copy item = (if is_str item then item else JObj (spread item))"

lemma plain_copy_intel: "isRawOnlyIntelEntry (plain_copy item) \<Longrightarrow> is_plain item \<Longrightarrow> isRawOnlyIntelEntry item"
  by (cases item) (auto simp: plain_copy_def isRawOnlyIntelEntry_def spread_def)

lemma jprop_index_object:
  assumes "k \<notin> set (map nat_str [0..<length xs])"
  shows "jprop (JObj (zip (map nat_str [0..<length xs]) xs)) k = JUndef"
  using assms by (auto simp: obj_get_def split: option.splits dest!: map_of_SomeD set_zip_leftD)

lemma command_root_not_index: "''command_root'' \<noteq> nat_str n"
proof
  assume "''command_root'' = nat_str n"
  then have "is_digit CHR ''c''"
    using nat_str_digits [of n] by (metis list.set_intros(1))
  then show False by (simp add: is_digit_def char_between_def)
qed

lemma plain_copy_not_intel: "kept_entry item \<Longrightarrow> \<not> isRawOnlyIntelEntry (plain_copy item)"
proof (cases item)
  case (JArr xs)
  have "''command_root'' \<notin> set (map nat_str [0..<length xs])"
    using command_root_not_index by auto
  then have "jprop (JObj (spread item)) ''command_root'' = JUndef"
    unfolding JArr spread_def jsval.case by (rule jprop_index_object)
  then show ?thesis
    by (simp add: isRawOnlyIntelEntry_def plain_copy_def JArr toLowerCase_def)
qed (auto simp: kept_entry_def isRawOnlyIntelEntry_def plain_copy_def spread_def)

lemma omit_loop_kept:
  "filter (\<lambda>e. \<not> isRawOnlyIntelEntry e) (omit_loop g items) = map plain_copy (filter kept_entry items)"
proof (induction g items rule: omit_loop.induct)
  case (2 g item items)
  show ?case
  proof (cases "isRawOnlyIntelEntry item")
    case True
    with 2 show ?thesis by (auto simp: kept_entry_def)
  next
    case False
    show ?thesis
    proof (cases "is_str item \<or> is_object item")
      case True
      with False have k: "kept_entry item" by (simp add: kept_entry_def)
      from True False have "omit_loop g (item # items) = plain_copy item # omit_loop False items"
        by (auto simp: plain_copy_def)
      with k 2 False True show ?thesis
        using plain_copy_not_intel [OF k] by (auto simp: plain_copy_def)
    next
      case c: False
      with False 2 show ?thesis by (auto simp: kept_entry_def)
    qed
  qed
qed simp

lemma omit_loop_intel:
  "e \<in> set (omit_loop g items) \<Longrightarrow> isRawOnlyIntelEntry e \<Longrightarrow> \<exists>src \<in> set items. e = rawOnlyPlaceholderEntry src"
proof (induction g items rule: omit_loop.induct)
  case (2 g item items)
  show ?case
  proof (cases "e = plain_copy item \<and> kept_entry item")
    case True
    then have False
      using "2.prems"(2) plain_copy_not_intel by metis
    then show ?thesis ..
  next
    case False
    with 2 show ?thesis by (auto simp: plain_copy_def kept_entry_def split: if_splits)
  qed
qed simp


end
