(* ===== verification/Run_Output_Model.thy ===== *)
theory Run_Output_Model
  imports JS_Value
begin

text \<open>
  Line events of a command's output, \<open>app/static/js/core/run_output_model.js\<close>: the wire format
  (schema version 1), the legacy CSS class it replaces, and the classification of noise lines. A wire
  payload is any value; a line event is a record. The optional collector of unknown enum values is
  modelled as the list of calls made to it.
\<close>

section \<open>Vocabularies\<close>

definition line_kind_values :: "string list" where
  "line_kind_values = [''info'', ''notice'', ''warn'', ''error'']"

definition line_role_values :: "string list" where
  "line_role_values = [''body'', ''prompt-echo'', ''section-header'', ''kv'', ''help-row'', ''pty-marker'',
     ''progress'', ''status-line'', ''success'', ''denied'', ''exit-ok'', ''exit-fail'']"

definition line_signal_values :: "string list" where
  "line_signal_values = [''findings'', ''warnings'', ''errors'', ''summaries'']"

definition line_noise_kind_values :: "string list" where
  "line_noise_kind_values = [''progress'', ''status'', ''boilerplate'']"

definition legacy_kind_by_cls :: "(string \<times> string) list" where
  "legacy_kind_by_cls = [([], ''info''), (''output'', ''info''), (''out'', ''info''), (''cmd'', ''info''),
     (''notice'', ''notice''), (''builtin-note'', ''notice''), (''welcome-output'', ''notice''),
     (''warn'', ''warn''), (''warning'', ''warn''), (''error'', ''error'')]"

definition legacy_role_by_cls :: "(string \<times> string) list" where
  "legacy_role_by_cls = [([], ''body''), (''output'', ''body''), (''out'', ''body''), (''notice'', ''body''),
     (''warn'', ''body''), (''warning'', ''body''), (''error'', ''body''), (''builtin-note'', ''body''),
     (''builtin-spacer'', ''body''), (''welcome-output'', ''body''), (''cmd'', ''prompt-echo''),
     (''prompt-echo'', ''prompt-echo''), (''builtin-section'', ''section-header''), (''builtin-kv'', ''kv''),
     (''builtin-help-row'', ''help-row''), (''builtin-faq-q'', ''help-row''), (''builtin-faq-a'', ''help-row''),
     (''pty-marker'', ''pty-marker''), (''progress'', ''progress''), (''status-line'', ''status-line''),
     (''builtin-success'', ''success''), (''denied'', ''denied''), (''exit-ok'', ''exit-ok''),
     (''exit-fail'', ''exit-fail'')]"

definition kind_legacy_cls :: "(string \<times> string) list" where
  "kind_legacy_cls = [(''info'', []), (''notice'', ''notice''), (''warn'', ''warn''), (''error'', ''error'')]"

definition role_legacy_cls :: "(string \<times> string) list" where
  "role_legacy_cls = [(''body'', []), (''prompt-echo'', ''prompt-echo''), (''section-header'', ''builtin-section''),
     (''kv'', ''builtin-kv''), (''help-row'', ''builtin-help-row''), (''pty-marker'', ''pty-marker''),
     (''progress'', ''progress''), (''status-line'', ''status-line''), (''success'', ''builtin-success''),
     (''denied'', ''denied''), (''exit-ok'', ''exit-ok''), (''exit-fail'', ''exit-fail'')]"

definition noise_kind_by_role :: "(string \<times> string) list" where
  "noise_kind_by_role = [(''progress'', ''progress''), (''status-line'', ''status'')]"

text \<open>\<open>TABLE[k] || ''\<close>.\<close>

definition table_or_empty :: "(string \<times> string) list \<Rightarrow> string \<Rightarrow> string" where
  "table_or_empty table k = (case map_of table k of None \<Rightarrow> [] | Some v \<Rightarrow> v)"

section \<open>Legacy classes\<close>

definition legacyClsTokens :: "jsval \<Rightarrow> string list" where
  "legacyClsTokens value = (let text = trim (str_or value []) in
     if text = [] then [[]] else ws_words text)"

fun first_known :: "(string \<times> string) list \<Rightarrow> string \<Rightarrow> string list \<Rightarrow> string" where
  "first_known table fallback [] = fallback"
| "first_known table fallback (token # tokens) =
     (case map_of table token of Some v \<Rightarrow> v | None \<Rightarrow> first_known table fallback tokens)"

definition legacyClsToKind :: "jsval \<Rightarrow> string" where
  "legacyClsToKind value = first_known legacy_kind_by_cls ''info'' (legacyClsTokens value)"

definition legacyClsToRole :: "jsval \<Rightarrow> string" where
  "legacyClsToRole value = first_known legacy_role_by_cls ''body'' (legacyClsTokens value)"

section \<open>Fields\<close>

type_synonym unknowns = "(string \<times> string) list"

definition enumValue :: "string list \<Rightarrow> jsval \<Rightarrow> string option \<Rightarrow> string \<Rightarrow> string option \<times> unknowns" where
  "enumValue values value fallback family =
     (if value = JUndef \<or> value = JNull \<or> value = JStr [] then (fallback, [])
      else if to_str value \<in> set values then (Some (to_str value), [])
      else (fallback, [(family, to_str value)]))"

definition is_bool :: "jsval \<Rightarrow> bool" where
  "is_bool v \<longleftrightarrow> (case v of JBool b \<Rightarrow> True | _ \<Rightarrow> False)"

definition optionalInt :: "jsval \<Rightarrow> int option" where
  "optionalInt value =
     (if value = JUndef \<or> value = JNull \<or> is_bool value then None
      else case parse_int (to_str value) of Fin r \<Rightarrow> Some \<lfloor>r\<rfloor> | _ \<Rightarrow> None)"

record entity =
  ent_type :: string
  ent_value :: string
  canonical_value :: string
  confidence :: string
  source_line :: "int option"
  ent_start :: "int option"
  ent_end :: "int option"

definition trimmed_or :: "jsval \<Rightarrow> string \<Rightarrow> string" where
  "trimmed_or v d = (let t = trim (str_or v []) in if t \<noteq> [] then t else d)"

definition entityFromWire :: "jsval \<Rightarrow> entity option" where
  "entityFromWire payload =
     (if \<not> is_object payload then None
      else let type = trim (str_or (jprop payload ''type'') []);
               canonicalValue = trim (str_or (jprop payload ''canonical_value'') []);
               start = optionalInt (jprop payload ''start'');
               fin = optionalInt (jprop payload ''end'');
               half = (start = None \<or> fin = None)
           in if type = [] \<or> canonicalValue = [] then None
              else Some \<lparr>ent_type = type,
                ent_value = trimmed_or (jprop payload ''value'') canonicalValue,
                canonical_value = canonicalValue,
                confidence = trimmed_or (jprop payload ''confidence'') ''medium'',
                source_line = optionalInt (jprop payload ''source_line''),
                ent_start = (if half then None else start),
                ent_end = (if half then None else fin)\<rparr>)"

definition int_field :: "string \<Rightarrow> int option \<Rightarrow> jsobj" where
  "int_field k v = (case v of None \<Rightarrow> [] | Some i \<Rightarrow> [(k, JInt i)])"

definition str_field :: "string \<Rightarrow> string \<Rightarrow> jsobj" where
  "str_field k s = (if s \<noteq> [] then [(k, JStr s)] else [])"

definition arr_field :: "string \<Rightarrow> jsval list \<Rightarrow> jsobj" where
  "arr_field k xs = (if xs \<noteq> [] then [(k, JArr xs)] else [])"

definition entityToWire :: "entity \<Rightarrow> jsval" where
  "entityToWire ent = JObj
     ([(''type'', JStr (ent_type ent)), (''value'', JStr (ent_value ent)),
       (''canonical_value'', JStr (canonical_value ent)), (''confidence'', JStr (confidence ent))]
      @ int_field ''source_line'' (source_line ent)
      @ int_field ''start'' (ent_start ent) @ int_field ''end'' (ent_end ent))"

definition signalsFromWire :: "jsval \<Rightarrow> string list \<times> unknowns" where
  "signalsFromWire value =
     (let items = map to_str (arr_items value) in
      (filter (\<lambda>s. s \<in> set line_signal_values) items,
       map (\<lambda>s. (''signal'', s)) (filter (\<lambda>s. s \<notin> set line_signal_values) items)))"

definition entitiesFromWire :: "jsval \<Rightarrow> entity list" where
  "entitiesFromWire value = List.map_filter entityFromWire (arr_items value)"

section \<open>Events\<close>

record line_event =
  ev_text :: string
  ev_kind :: string
  ev_role :: string
  legacy_cls :: string
  ts_clock :: string
  ts_elapsed :: string
  ev_signals :: "string list"
  line_index :: "int option"
  command_root :: string
  ev_target :: string
  ev_entities :: "entity list"
  noise_kind :: "string option"
  noise_reason :: string

definition or_default :: "string \<Rightarrow> string \<Rightarrow> string" where
  "or_default s d = (if s \<noteq> [] then s else d)"

definition legacyClsForEvent :: "line_event \<Rightarrow> string" where
  "legacyClsForEvent event =
     (if legacy_cls event \<noteq> [] then legacy_cls event
      else let role = or_default (ev_role event) ''body'' in
        if role \<noteq> ''body'' then table_or_empty role_legacy_cls role
        else table_or_empty kind_legacy_cls (or_default (ev_kind event) ''info''))"

definition noiseKindForRole :: "string \<Rightarrow> string option" where
  "noiseKindForRole role = map_of noise_kind_by_role role"

definition noiseKindForEvent :: "line_event \<Rightarrow> string option" where
  "noiseKindForEvent event =
     (if ev_signals event \<noteq> [] then None
      else if ev_kind event = ''warn'' \<or> ev_kind event = ''error'' then None
      else if noise_kind event \<noteq> None \<and> noise_kind event \<noteq> Some [] then noise_kind event
      else noiseKindForRole (or_default (ev_role event) ''body''))"

definition isNoiseLineEvent :: "line_event \<Rightarrow> bool" where
  "isNoiseLineEvent event \<longleftrightarrow> noiseKindForEvent event \<noteq> None"

definition legacyPayload :: "line_event \<Rightarrow> jsobj" where
  "legacyPayload event =
     [(''text'', JStr (ev_text event)), (''cls'', JStr (legacyClsForEvent event)),
      (''tsC'', JStr (ts_clock event)), (''tsE'', JStr (ts_elapsed event))]
     @ arr_field ''signals'' (map JStr (ev_signals event))
     @ int_field ''line_index'' (line_index event)
     @ str_field ''command_root'' (command_root event)
     @ str_field ''target'' (ev_target event)
     @ arr_field ''entities'' (map entityToWire (ev_entities event))
     @ (case noiseKindForEvent event of
          None \<Rightarrow> []
        | Some k \<Rightarrow> (''noise_kind'', JStr k) # str_field ''noise_reason'' (noise_reason event))"

definition fromWireLineEvent :: "jsval \<Rightarrow> line_event \<times> unknowns" where
  "fromWireLineEvent payload =
     (let item = (if is_object payload then payload else JObj []);
          clsValue = js_or (jprop item ''cls'') (JStr []);
          (kind, u1) = enumValue line_kind_values (jprop item ''kind'') (Some (legacyClsToKind clsValue)) ''kind'';
          (role, u2) = enumValue line_role_values (jprop item ''role'') (Some (legacyClsToRole clsValue)) ''role'';
          (noise, u3) = enumValue line_noise_kind_values (jprop item ''noise_kind'') (noiseKindForRole (the role)) ''noise_kind'';
          (signals, u4) = signalsFromWire (jprop item ''signals'')
      in (\<lparr>ev_text = str_or (jprop item ''text'') [], ev_kind = the kind, ev_role = the role,
            legacy_cls = str_or clsValue [], ts_clock = str_or (jprop item ''tsC'') [],
            ts_elapsed = str_or (jprop item ''tsE'') [], ev_signals = signals,
            line_index = optionalInt (jprop item ''line_index''),
            command_root = str_or (jprop item ''command_root'') [],
            ev_target = str_or (jprop item ''target'') [],
            ev_entities = entitiesFromWire (jprop item ''entities''),
            noise_kind = noise,
            noise_reason = (if noise \<noteq> None then str_or (jprop item ''noise_reason'') [] else [])\<rparr>,
          u1 @ u2 @ u3 @ u4))"

definition toLegacyWireLineEvent :: "line_event \<Rightarrow> jsval" where
  "toLegacyWireLineEvent event = JObj (legacyPayload event)"

definition toWireLineEvent :: "line_event \<Rightarrow> jsval" where
  "toWireLineEvent event = JObj (obj_set (obj_set (obj_set (legacyPayload event)
     ''v'' (JInt 1)) ''kind'' (JStr (or_default (ev_kind event) ''info'')))
     ''role'' (JStr (or_default (ev_role event) ''body'')))"

definition eventSearchText :: "line_event \<Rightarrow> string" where
  "eventSearchText event = ev_text event"

section \<open>Well-formed events\<close>

definition entity_ok :: "entity \<Rightarrow> bool" where
  "entity_ok ent \<longleftrightarrow> (\<forall>s \<in> {ent_type ent, ent_value ent, canonical_value ent, confidence ent}. s \<noteq> [] \<and> trimmed s)
     \<and> (ent_start ent = None \<longleftrightarrow> ent_end ent = None)"

definition event_ok :: "line_event \<Rightarrow> bool" where
  "event_ok ev \<longleftrightarrow> ev_kind ev \<in> set line_kind_values \<and> ev_role ev \<in> set line_role_values
     \<and> set (ev_signals ev) \<subseteq> set line_signal_values
     \<and> (\<forall>k. noise_kind ev = Some k \<longrightarrow> k \<in> set line_noise_kind_values)
     \<and> (\<forall>ent \<in> set (ev_entities ev). entity_ok ent)"

lemma nonempty_vocabularies:
  "k \<in> set line_kind_values \<Longrightarrow> k \<noteq> []" "r \<in> set line_role_values \<Longrightarrow> r \<noteq> []" "n \<in> set line_noise_kind_values \<Longrightarrow> n \<noteq> []"
  by (auto simp: line_kind_values_def line_role_values_def line_noise_kind_values_def)

lemma first_known_range:
  "fb \<in> V \<Longrightarrow> snd ` set table \<subseteq> V \<Longrightarrow> first_known table fb ts \<in> V"
  by (induction ts) (auto split: option.splits dest!: map_of_SomeD)

lemma legacy_kind_value: "legacyClsToKind v \<in> set line_kind_values"
  unfolding legacyClsToKind_def
  by (rule first_known_range) (simp_all add: legacy_kind_by_cls_def line_kind_values_def)

lemma legacy_role_value: "legacyClsToRole v \<in> set line_role_values"
  unfolding legacyClsToRole_def
  by (rule first_known_range) (simp_all add: legacy_role_by_cls_def line_role_values_def)

lemma noise_for_role_value: "noiseKindForRole r = Some k \<Longrightarrow> k \<in> set line_noise_kind_values"
  by (auto simp: noiseKindForRole_def noise_kind_by_role_def line_noise_kind_values_def split: if_splits)

lemma trimmed_or_ok: "d \<noteq> [] \<Longrightarrow> trimmed d \<Longrightarrow> trimmed_or v d \<noteq> [] \<and> trimmed (trimmed_or v d)"
  by (simp add: trimmed_or_def Let_def)

lemma entityFromWire_ok: "entityFromWire p = Some ent \<Longrightarrow> entity_ok ent"
proof -
  assume a: "entityFromWire p = Some ent"
  have m: "trimmed ''medium''" by (simp add: trimmed_def is_ws_def)
  from a show ?thesis
    using trimmed_or_ok [OF _ m] trimmed_or_ok [OF _ trimmed_trim]
    by (auto simp: entityFromWire_def Let_def entity_ok_def split: if_splits)
qed

lemma enumValue_range:
  "enumValue values v fb fam = (Some x, u) \<Longrightarrow> fb = None \<or> the fb \<in> set values \<Longrightarrow> x \<in> set values"
  by (auto simp: enumValue_def split: if_splits)

lemma enumValue_Some: "\<exists>x u. enumValue values v (Some fb) fam = (Some x, u)"
  by (auto simp: enumValue_def)

text \<open>\<^bold>\<open>C17.\<close> Reading any wire payload (a full version 1 event, a legacy entry with only a CSS class, or a
  value that is not an object) gives a well-formed line event: kind, role, signals and noise kind are
  from the vocabularies and every entity has a type and a canonical value.\<close>

theorem fromWire_wellformed: "event_ok (fst (fromWireLineEvent payload))"
proof -
  let ?item = "if is_object payload then payload else JObj []"
  let ?cls = "js_or (jprop ?item ''cls'') (JStr [])"
  obtain kind u1 where k: "enumValue line_kind_values (jprop ?item ''kind'') (Some (legacyClsToKind ?cls)) ''kind'' = (Some kind, u1)"
    using enumValue_Some by blast
  obtain role u2 where r: "enumValue line_role_values (jprop ?item ''role'') (Some (legacyClsToRole ?cls)) ''role'' = (Some role, u2)"
    using enumValue_Some by blast
  obtain noise u3 where n: "enumValue line_noise_kind_values (jprop ?item ''noise_kind'') (noiseKindForRole role) ''noise_kind'' = (noise, u3)"
    by fastforce
  have "kind \<in> set line_kind_values" "role \<in> set line_role_values"
    using enumValue_range [OF k] enumValue_range [OF r] legacy_kind_value legacy_role_value by simp_all
  moreover have "x \<in> set line_noise_kind_values" if "noise = Some x" for x
    using enumValue_range [OF n [unfolded that]] noise_for_role_value by (cases "noiseKindForRole role") auto
  moreover have "set (fst (signalsFromWire v)) \<subseteq> set line_signal_values" for v
    by (auto simp: signalsFromWire_def Let_def)
  moreover have "\<forall>ent \<in> set (entitiesFromWire v). entity_ok ent" for v
    by (auto simp: entitiesFromWire_def List.map_filter_def entityFromWire_ok)
  ultimately show ?thesis
    unfolding fromWireLineEvent_def Let_def k r n
    by (simp add: event_ok_def n case_prod_beta)
qed

section \<open>Round trip\<close>

lemma optionalInt_JInt [simp]: "optionalInt (JInt i) = Some i"
  by (simp add: optionalInt_def is_bool_def parse_int_int_str)

lemma optionalInt_JUndef [simp]: "optionalInt JUndef = None"
  by (simp add: optionalInt_def)

lemma field_simps_wire:
  "obj_has (int_field k v) j \<longleftrightarrow> j = k \<and> v \<noteq> None" "obj_has (str_field k t) j \<longleftrightarrow> j = k \<and> t \<noteq> []"
  "obj_has (arr_field k xs) j \<longleftrightarrow> j = k \<and> xs \<noteq> []"
  "obj_get (int_field k v) k = (case v of None \<Rightarrow> JUndef | Some i \<Rightarrow> JInt i)"
  "obj_get (str_field k t) k = (if t = [] then JUndef else JStr t)"
  "obj_get (arr_field k xs) k = (if xs = [] then JUndef else JArr xs)"
  by (auto simp: int_field_def str_field_def arr_field_def obj_get_Cons split: option.splits)

lemma obj_get_fields:
  "j \<noteq> k \<Longrightarrow> obj_get (int_field k v) j = JUndef" "j \<noteq> k \<Longrightarrow> obj_get (str_field k t) j = JUndef"
  "j \<noteq> k \<Longrightarrow> obj_get (arr_field k xs) j = JUndef"
  by (auto simp: int_field_def str_field_def arr_field_def obj_get_Cons split: option.splits)

lemmas wire_get = obj_get_append obj_get_Cons obj_get_set field_simps_wire obj_get_fields

lemma optionalInt_int_field [simp]: "optionalInt (obj_get (int_field k v) k) = v"
  by (simp add: field_simps_wire split: option.splits)

lemma entity_round_trip: "entity_ok ent \<Longrightarrow> entityFromWire (entityToWire ent) = Some ent"
proof -
  assume ok: "entity_ok ent"
  have t: "trim (ent_type ent) = ent_type ent" "trim (ent_value ent) = ent_value ent"
    "trim (canonical_value ent) = canonical_value ent" "trim (confidence ent) = confidence ent"
    using ok by (simp_all add: entity_ok_def trim_id)
  have ne: "ent_type ent \<noteq> []" "ent_value ent \<noteq> []" "canonical_value ent \<noteq> []" "confidence ent \<noteq> []"
    using ok by (simp_all add: entity_ok_def)
  have se: "ent_start ent = None \<longleftrightarrow> ent_end ent = None"
    using ok by (simp add: entity_ok_def)
  show ?thesis
    using se ne t
    by (cases ent) (auto simp: entityFromWire_def entityToWire_def wire_get Let_def trimmed_or_def split: option.splits)
qed

lemma entities_round_trip:
  "\<forall>ent \<in> set es. entity_ok ent \<Longrightarrow> entitiesFromWire (if es = [] then JUndef else JArr (map entityToWire es)) = es"
proof -
  have "\<forall>ent \<in> set es. entity_ok ent \<Longrightarrow> List.map_filter entityFromWire (map entityToWire es) = es"
    by (induction es) (simp_all add: List.map_filter_simps entity_round_trip)
  then show "\<forall>ent \<in> set es. entity_ok ent \<Longrightarrow> ?thesis"
    by (simp add: entitiesFromWire_def List.map_filter_simps)
qed

lemma signals_round_trip:
  assumes "set ss \<subseteq> set line_signal_values"
  shows "signalsFromWire (if ss = [] then JUndef else JArr (map JStr ss)) = (ss, [])"
proof -
  have "filter (\<lambda>s. s \<in> set line_signal_values) ss = ss" "filter (\<lambda>s. s \<notin> set line_signal_values) ss = []"
    using assms by (auto simp: filter_id_conv filter_empty_conv)
  then show ?thesis by (simp add: signalsFromWire_def o_def)
qed

lemma toWire_fields:
  "jprop (toWireLineEvent ev) ''text'' = JStr (ev_text ev)"
  "jprop (toWireLineEvent ev) ''cls'' = JStr (legacyClsForEvent ev)"
  "jprop (toWireLineEvent ev) ''tsC'' = JStr (ts_clock ev)"
  "jprop (toWireLineEvent ev) ''tsE'' = JStr (ts_elapsed ev)"
  "jprop (toWireLineEvent ev) ''kind'' = JStr (or_default (ev_kind ev) ''info'')"
  "jprop (toWireLineEvent ev) ''role'' = JStr (or_default (ev_role ev) ''body'')"
  "jprop (toWireLineEvent ev) ''signals'' = (if ev_signals ev = [] then JUndef else JArr (map JStr (ev_signals ev)))"
  "jprop (toWireLineEvent ev) ''entities'' = (if ev_entities ev = [] then JUndef else JArr (map entityToWire (ev_entities ev)))"
  "optionalInt (jprop (toWireLineEvent ev) ''line_index'') = line_index ev"
  "str_or (jprop (toWireLineEvent ev) ''command_root'') [] = command_root ev"
  "str_or (jprop (toWireLineEvent ev) ''target'') [] = ev_target ev"
  "jprop (toWireLineEvent ev) ''noise_kind'' = (case noiseKindForEvent ev of None \<Rightarrow> JUndef | Some k \<Rightarrow> JStr k)"
  "str_or (jprop (toWireLineEvent ev) ''noise_reason'') [] = (if noiseKindForEvent ev = None then [] else noise_reason ev)"
  "is_object (toWireLineEvent ev)"
  by (simp_all add: toWireLineEvent_def legacyPayload_def wire_get split: option.splits)

text \<open>What one trip over the wire makes explicit: the legacy class and the noise kind.\<close>

definition settled :: "line_event \<Rightarrow> line_event" where
  "settled ev = ev\<lparr>legacy_cls := legacyClsForEvent ev,
     noise_kind := (case noiseKindForEvent ev of Some k \<Rightarrow> Some k | None \<Rightarrow> noiseKindForRole (ev_role ev)),
     noise_reason := (if noiseKindForEvent ev = None then [] else noise_reason ev)\<rparr>"

lemma enumValue_known: "s \<noteq> [] \<Longrightarrow> s \<in> set values \<Longrightarrow> enumValue values (JStr s) fb fam = (Some s, [])"
  by (simp add: enumValue_def)

lemma noiseKindForEvent_value:
  "event_ok ev \<Longrightarrow> noiseKindForEvent ev = Some k \<Longrightarrow> k \<in> set line_noise_kind_values"
  by (auto simp: noiseKindForEvent_def event_ok_def dest: noise_for_role_value split: if_splits)

lemma wire_trip:
  assumes "event_ok ev"
  shows "fromWireLineEvent (toWireLineEvent ev) = (settled ev, [])"
proof -
  have kr: "ev_kind ev \<noteq> []" "ev_kind ev \<in> set line_kind_values" "ev_role ev \<noteq> []" "ev_role ev \<in> set line_role_values"
    using assms nonempty_vocabularies by (auto simp: event_ok_def)
  have d: "or_default (ev_kind ev) x = ev_kind ev" "or_default (ev_role ev) x = ev_role ev" for x
    using kr by (simp_all add: or_default_def)
  have cls: "js_or (JStr c) (JStr []) = JStr c" for c
    by (simp add: js_or_def)
  have k: "enumValue line_kind_values (JStr (ev_kind ev)) fb fam = (Some (ev_kind ev), [])"
    "enumValue line_role_values (JStr (ev_role ev)) fb fam = (Some (ev_role ev), [])" for fb fam
    using kr by (simp_all add: enumValue_known)
  have n: "enumValue line_noise_kind_values (case noiseKindForEvent ev of None \<Rightarrow> JUndef | Some k \<Rightarrow> JStr k)
      (noiseKindForRole (ev_role ev)) fam
    = (case noiseKindForEvent ev of Some k \<Rightarrow> Some k | None \<Rightarrow> noiseKindForRole (ev_role ev), [])" for fam
    using noiseKindForEvent_value [OF assms] nonempty_vocabularies(3)
    by (auto simp: enumValue_def split: option.splits)
  have se: "signalsFromWire (if ev_signals ev = [] then JUndef else JArr (map JStr (ev_signals ev))) = (ev_signals ev, [])"
    "entitiesFromWire (if ev_entities ev = [] then JUndef else JArr (map entityToWire (ev_entities ev))) = ev_entities ev"
    using assms signals_round_trip entities_round_trip by (simp_all add: event_ok_def)
  show ?thesis
    unfolding fromWireLineEvent_def Let_def if_P [OF toWire_fields(14)] toWire_fields d cls k option.sel prod.case n se
    by (simp add: settled_def split: option.splits)
qed

lemma settled_stable: "legacyClsForEvent (settled ev) = legacyClsForEvent ev" "noiseKindForEvent (settled ev) = noiseKindForEvent ev"
proof -
  show "legacyClsForEvent (settled ev) = legacyClsForEvent ev"
    by (cases "legacyClsForEvent ev = []")
       (auto simp: settled_def legacyClsForEvent_def Let_def split: if_splits)
  show "noiseKindForEvent (settled ev) = noiseKindForEvent ev"
    by (auto simp: settled_def noiseKindForEvent_def or_default_def noiseKindForRole_def noise_kind_by_role_def
        split: option.splits)
qed

lemma toWire_settled:
  assumes "event_ok ev"
  shows "toWireLineEvent (settled ev) = toWireLineEvent ev"
proof -
  have same: "ev_text (settled ev) = ev_text ev" "ts_clock (settled ev) = ts_clock ev" "ts_elapsed (settled ev) = ts_elapsed ev"
    "ev_signals (settled ev) = ev_signals ev" "line_index (settled ev) = line_index ev" "command_root (settled ev) = command_root ev"
    "ev_target (settled ev) = ev_target ev" "ev_entities (settled ev) = ev_entities ev" "ev_kind (settled ev) = ev_kind ev"
    "ev_role (settled ev) = ev_role ev"
    "noise_reason (settled ev) = (if noiseKindForEvent ev = None then [] else noise_reason ev)"
    by (simp_all add: settled_def)
  show ?thesis
    unfolding toWireLineEvent_def legacyPayload_def same settled_stable by (simp split: option.splits)
qed


definition sample_event :: line_event where
  "sample_event = \<lparr>ev_text = ''80/tcp open'', ev_kind = ''notice'', ev_role = ''progress'', legacy_cls = [],
     ts_clock = ''10:00:01'', ts_elapsed = [], ev_signals = [''findings''], line_index = Some 3,
     command_root = ''nmap'', ev_target = ''10.0.0.1'',
     ev_entities = [\<lparr>ent_type = ''port'', ent_value = ''80'', canonical_value = ''80/tcp'', confidence = ''high'',
       source_line = Some 3, ent_start = Some 0, ent_end = Some 6\<rparr>],
     noise_kind = None, noise_reason = []\<rparr>"


end
