(* ===== verification/Output_Core.thy ===== *)
theory Output_Core
  imports Run_Output_Model Workspace_Core
begin

text \<open>
  Output helpers of \<open>app/static/js/core/output_core.js\<close>: prompt labels, the line prefix, signal
  counting, and the command outcome summaries parsed from the output of nmap, dig, nslookup, curl and
  openssl. Every pattern of the code is transcribed as a term of \<open>JS_Regex\<close>; the patterns have the
  \<open>i\<close> flag, so literals use \<^const>\<open>rx_lit_i\<close>. The locale-dependent \<open>toLocaleString\<close> of a count is the
  argument \<open>loc\<close>.
\<close>

section \<open>Vocabularies\<close>

definition output_signal_scopes :: "string list" where
  "output_signal_scopes = [''findings'', ''warnings'', ''errors'', ''summaries'']"

definition output_signal_summary_classes :: "string list" where
  "output_signal_summary_classes = [''builtin-signal-summary-header'', ''builtin-signal-summary-section'',
     ''builtin-signal-summary-row'', ''builtin-signal-summary-note'', ''builtin-signal-summary-sep'']"

definition output_command_outcome_summary_classes :: "string list" where
  "output_command_outcome_summary_classes = [''command-outcome-summary'', ''command-outcome-summary-title'',
     ''command-outcome-summary-row'', ''command-outcome-summary-note'']"

definition output_synthetic_summary_classes :: "string list" where
  "output_synthetic_summary_classes = output_signal_summary_classes @ output_command_outcome_summary_classes"

section \<open>Prompt labels\<close>

definition str_default :: "string \<Rightarrow> string \<Rightarrow> string" where
  "str_default s d = (if s \<noteq> [] then s else d)"

definition path_suffix_re :: rx where
  "path_suffix_re = rx_seq [rx_lit '':'', rx_plus (RChr (\<lambda>c. \<not> is_ws c \<and> c \<noteq> CHR '':'')), REol]"

definition promptIdentityPrefix :: "string \<Rightarrow> string" where
  "promptIdentityPrefix rawPrefix =
     (let p1 = str_default (trim rawPrefix) ''anon@darklab'';
          p2 = (if endsWith p1 ''$'' then trimEnd (butlast p1) else p1)
      in str_default (trim (rx_replace path_suffix_re (\<lambda>m. []) p2)) ''anon@darklab'')"

definition promptIdentityFromParts :: "string \<Rightarrow> string \<Rightarrow> string" where
  "promptIdentityFromParts username domain =
     str_default (trim username) ''anon'' @ ''@'' @ str_default (trim domain) ''darklab.sh''"

definition normalizeWorkspaceCwd :: "string \<Rightarrow> string" where
  "normalizeWorkspaceCwd rawPath = join ''/'' (filter nonempty (map trim (split_on CHR ''/'' rawPath)))"

definition workspaceDisplayPath :: "string \<Rightarrow> string" where
  "workspaceDisplayPath path = (let normalized = normalizeWorkspaceCwd path in
     if normalized \<noteq> [] then CHR ''/'' # normalized else ''/'')"

definition buildPromptLabel :: "string \<Rightarrow> string \<Rightarrow> string" where
  "buildPromptLabel rawPrefix path = promptIdentityPrefix rawPrefix @ '':'' @ str_default path ''~'' @ '' $''"

definition buildPromptLabelFromParts :: "string \<Rightarrow> string \<Rightarrow> string \<Rightarrow> string" where
  "buildPromptLabelFromParts username domain path =
     promptIdentityFromParts username domain @ '':'' @ str_default path ''~'' @ '' $''"

text \<open>The pattern built from the escaped identity matches the identity itself.\<close>

definition legacy_prompt_re :: "string \<Rightarrow> rx" where
  "legacy_prompt_re identity = RSeq RBol (rx_seq
     [rx_lit identity, rx_lit '':'', rx_plus rx_nonws, rx_lit ''$'', rx_star rx_ws])"

definition prompt_shaped_re :: rx where
  "prompt_shaped_re = (let word = rx_plus (RChr (\<lambda>c. \<not> is_ws c \<and> c \<noteq> CHR '':'')) in
     RSeq RBol (rx_seq [word, rx_lit ''@'', word, rx_lit '':'', rx_plus rx_nonws, rx_lit ''$'', rx_star rx_ws]))"

definition leading_ws_re :: rx where
  "leading_ws_re = RSeq RBol (rx_plus rx_ws)"

definition stripPromptLabelFromEchoText :: "string \<Rightarrow> string \<Rightarrow> string \<Rightarrow> string" where
  "stripPromptLabelFromEchoText value current identityPrefix =
     (if current \<noteq> [] \<and> startsWith value current
      then rx_replace leading_ws_re (\<lambda>m. []) (drop (length current) value)
      else let legacy = legacy_prompt_re (promptIdentityPrefix identityPrefix) in
        if rx_test legacy value then rx_replace legacy (\<lambda>m. []) value
        else if rx_test prompt_shaped_re value then rx_replace prompt_shaped_re (\<lambda>m. []) value
        else if value = ''$'' then []
        else if startsWith value ''$ '' then drop 2 value
        else value)"

definition formatOutputPrefix :: "jsval \<Rightarrow> string \<Rightarrow> bool \<Rightarrow> string \<Rightarrow> string \<Rightarrow> string" where
  "formatOutputPrefix index tsText includeTimestamp lineMode timestampMode =
     join '' '' ((if lineMode = ''on'' then [to_str index] else [])
       @ (if includeTimestamp \<and> tsText \<noteq> [] \<and> (timestampMode = ''elapsed'' \<or> timestampMode = ''clock'')
          then [tsText] else []))"

section \<open>Signals\<close>

definition cls_names :: "jsval \<Rightarrow> string list" where
  "cls_names line = ws_words (str_or (jprop line ''cls'') [])"

definition isSignalSummaryClassName :: "string \<Rightarrow> bool" where
  "isSignalSummaryClassName cls \<longleftrightarrow> cls \<in> set output_signal_summary_classes"

definition isSyntheticSummaryClassName :: "string \<Rightarrow> bool" where
  "isSyntheticSummaryClassName cls \<longleftrightarrow> cls \<in> set output_synthetic_summary_classes"

definition lineHasClass :: "jsval \<Rightarrow> string \<Rightarrow> bool" where
  "lineHasClass rawLine className \<longleftrightarrow> className \<in> set (cls_names rawLine)"

definition lineRole :: "jsval \<Rightarrow> string" where
  "lineRole rawLine = str_default (ev_role (fst (fromWireLineEvent (js_or rawLine (JObj []))))) ''body''"

definition isSignalCountableLine :: "jsval \<Rightarrow> bool" where
  "isSignalCountableLine rawLine \<longleftrightarrow>
     truthy rawLine \<and> lineRole rawLine \<noteq> ''prompt-echo'' \<and> \<not> list_ex isSyntheticSummaryClassName (cls_names rawLine)"

definition isBuiltinCommandRoot :: "string \<Rightarrow> string list \<Rightarrow> bool" where
  "isBuiltinCommandRoot cmdRoot builtinRoots \<longleftrightarrow> cmdRoot \<noteq> [] \<and> cmdRoot \<in> set builtinRoots"

definition normalizeSignals :: "jsval \<Rightarrow> string list" where
  "normalizeSignals signals = filter nonempty (map (\<lambda>s. str_or s []) (arr_items signals))"

definition countableSignalScopes :: "jsval \<Rightarrow> string list \<Rightarrow> string list" where
  "countableSignalScopes rawLine builtinRoots =
     (if \<not> isSignalCountableLine rawLine then []
      else if isBuiltinCommandRoot (trim (str_or (jprop rawLine ''command_root'') [])) builtinRoots then []
      else dedup (filter (\<lambda>scope. scope \<in> set output_signal_scopes) (normalizeSignals (jprop rawLine ''signals''))))"

definition int_prop :: "jsval \<Rightarrow> string \<Rightarrow> jnum option" where
  "int_prop v k = (case jprop v k of JNum n \<Rightarrow> if is_integer_num n then Some n else None | _ \<Rightarrow> None)"

definition normalizeEntity :: "jsval \<Rightarrow> jsval" where
  "normalizeEntity ent =
     (if \<not> is_object ent then JNull
      else let type = trim (str_or (jprop ent ''type'') []);
               canonicalValue = trim (str_or (jprop ent ''canonical_value'') [])
           in if type = [] \<or> canonicalValue = [] then JNull
              else JObj ([(''type'', JStr type),
                 (''value'', JStr (str_default (trim (str_or (jprop ent ''value'') canonicalValue)) canonicalValue)),
                 (''canonical_value'', JStr canonicalValue),
                 (''confidence'', JStr (str_default (trim (str_or (jprop ent ''confidence'') ''medium'')) ''medium''))]
                @ (case int_prop ent ''source_line'' of None \<Rightarrow> [] | Some n \<Rightarrow> [(''source_line'', JNum n)])
                @ (case (int_prop ent ''start'', int_prop ent ''end'') of
                     (Some a, Some b) \<Rightarrow> [(''start'', JNum a), (''end'', JNum b)] | _ \<Rightarrow> [])))"

definition normalizeEntities :: "jsval \<Rightarrow> jsval list" where
  "normalizeEntities ents = filter truthy (map normalizeEntity (arr_items ents))"

section \<open>Outcome summaries\<close>

record outcome_item =
  oi_label :: string
  oi_value :: string
  oi_tone :: string

record outcome_summary =
  os_title :: string
  os_items :: "outcome_item list"

definition value_item :: "string \<Rightarrow> outcome_item" where
  "value_item v = \<lparr>oi_label = [], oi_value = v, oi_tone = []\<rparr>"

definition normalizeOutcomeItem :: "jsval \<Rightarrow> outcome_item option" where
  "normalizeOutcomeItem item =
     (if item = JUndef \<or> item = JNull then None
      else if is_scalar item
      then let value = trim (to_str item) in if value \<noteq> [] then Some (value_item value) else None
      else let label = trim (str_or (js_or (jprop item ''label'') (jprop item ''key'')) []);
               value = trim (str_or (js_or (js_or (jprop item ''value'') (jprop item ''text'')) (jprop item ''summary'')) []);
               tone = trim (str_or (jprop item ''tone'') [])
           in if label = [] \<and> value = [] then None
              else Some \<lparr>oi_label = label, oi_value = value, oi_tone = tone\<rparr>)"

definition summary_source_items :: "jsval \<Rightarrow> jsval list" where
  "summary_source_items raw =
     (if is_arr (jprop raw ''items'') then arr_items (jprop raw ''items'')
      else if is_arr (jprop raw ''lines'') then arr_items (jprop raw ''lines'')
      else arr_items (jprop raw ''summary''))"

definition normalizeCommandOutcomeSummary :: "jsval \<Rightarrow> outcome_summary option" where
  "normalizeCommandOutcomeSummary raw =
     (if \<not> truthy raw then None
      else if is_scalar raw then
        let value = trim (to_str raw) in
        if value = [] then None else Some \<lparr>os_title = ''Command outcome'', os_items = [value_item value]\<rparr>
      else
        let title = str_default (trim (str_or (js_or (jprop raw ''title'') (jprop raw ''heading'')) ''Command outcome'')) ''Command outcome'';
            items = List.map_filter normalizeOutcomeItem (summary_source_items raw);
            text = jprop raw ''text'';
            items = (if items = [] \<and> is_str text \<and> trim (to_str text) \<noteq> [] then [value_item (trim (to_str text))] else items)
        in if items = [] then None else Some \<lparr>os_title = title, os_items = items\<rparr>)"

definition ansi_re :: rx where
  "ansi_re = rx_seq [rx_lit [CHR 0x1B], rx_lit ''['', rx_star (RChr (\<lambda>c. is_digit c \<or> c = CHR '';'' \<or> c = CHR ''?'')),
     rx_star (RChr (char_between CHR '' '' CHR ''/'')), RChr (char_between CHR ''@'' CHR ''~'')]"

definition plainOutcomeLineText :: "jsval \<Rightarrow> string" where
  "plainOutcomeLineText line =
     trimEnd (rx_replace_all ansi_re (\<lambda>m. []) (if is_object line then str_or (jprop line ''text'') [] else str_or line []))"

definition outcomeCommandRoot :: "string \<Rightarrow> string" where
  "outcomeCommandRoot command = (case ws_words command of [] \<Rightarrow> [] | w # _ \<Rightarrow> toLowerCase w)"

definition outcome_line :: "jsval \<Rightarrow> bool" where
  "outcome_line line \<longleftrightarrow> is_object line
     \<and> trim (str_or (jprop line ''role'') []) \<notin> {''prompt-echo'', ''exit-ok'', ''exit-fail''}
     \<and> set (cls_names line) \<inter> {''prompt-echo'', ''exit-ok'', ''exit-fail''} = {}
     \<and> \<not> isNoiseLineEvent (fst (fromWireLineEvent line))
     \<and> \<not> list_ex isSyntheticSummaryClassName (cls_names line)"

definition outcomeLines :: "jsval \<Rightarrow> string list" where
  "outcomeLines lines = filter nonempty (map plainOutcomeLineText (filter outcome_line (arr_items lines)))"

definition formatLimitedList :: "string list \<Rightarrow> nat \<Rightarrow> string" where
  "formatLimitedList values limit =
     (let unique = dedup (filter nonempty (map trim values)) in
      if length unique \<le> limit then join '', '' unique
      else join '', '' (take limit unique) @ '' and '' @ nat_str (length unique - limit) @ '' more'')"

definition pushOutcomeItem :: "jsval list \<Rightarrow> string \<Rightarrow> string \<Rightarrow> jsval list" where
  "pushOutcomeItem items label value =
     (let text = trim value in
      if text \<noteq> [] then items @ [JObj [(''label'', JStr label), (''value'', JStr text)]] else items)"

definition outcome_result :: "jsval list \<Rightarrow> jsval" where
  "outcome_result items = (if items \<noteq> [] then JObj [(''title'', JStr ''Command outcome''), (''items'', JArr items)] else JNull)"

text \<open>\<open>replace(/\s+/g, ' ')\<close>, \<open>replace(/\.$/, '')\<close> and a label with its value, \<open>label\s*(.+)$\<close>.\<close>

definition collapse_ws :: "string \<Rightarrow> string" where
  "collapse_ws s = rx_replace_all (rx_plus rx_ws) (\<lambda>m. '' '') s"

definition drop_final_dot :: "string \<Rightarrow> string" where
  "drop_final_dot s = rx_replace (RSeq (rx_lit ''.'') REol) (\<lambda>m. []) s"

definition rest_value :: rx where
  "rest_value = RSeq (rx_star rx_ws) (RSeq (RCap 1 (rx_plus rx_any)) REol)"

definition labelled :: "rx \<Rightarrow> rx" where
  "labelled label = RSeq RBol (RSeq label rest_value)"

text \<open>The trimmed first group, or the old value when the pattern does not match.\<close>

definition match_or :: "rx \<Rightarrow> string \<Rightarrow> string \<Rightarrow> string" where
  "match_or re line old = (case rx_exec re line of None \<Rightarrow> old | Some m \<Rightarrow> trim (rx_group_str m 1))"

end
