(* ===== verification/Outcome_Parsers.thy ===== *)
theory Outcome_Parsers
  imports Output_Core
begin

text \<open>
  The outcome parsers of \<open>app/static/js/core/output_core.js\<close>: one pass over the output lines of nmap,
  dig, nslookup, curl or openssl s_client that keeps a few values and returns the items of a summary.
  Each parser is its state as a record, one step per line with the code's early returns, and the items
  built at the end.
\<close>

text \<open>\<open>toUpperCase\<close> in the ISO 8859-1 range; \<open>\<^verbatim>\<open>sharp s\<close>\<close> becomes two letters, and the two letters
  whose capitals lie outside the range are left alone.\<close>

definition upper_str :: "char \<Rightarrow> string" where
  "upper_str c = (let n = (of_char c :: nat) in
     if (97 \<le> n \<and> n \<le> 122) \<or> (224 \<le> n \<and> n \<le> 254 \<and> n \<noteq> 247) then [char_of (n - 32)]
     else if n = 223 then ''SS'' else [c])"

definition toUpperCase :: "string \<Rightarrow> string" where
  "toUpperCase s = concat (map upper_str s)"

definition lit_i_seq :: "string list \<Rightarrow> rx" where
  "lit_i_seq ws = rx_alt (map rx_lit_i ws)"

section \<open>nmap\<close>

record nmap_state =
  openPorts :: "string list"
  osHints :: "string list"
  hostsUp :: string

definition nmap_port_re :: rx where
  "nmap_port_re = RSeq RBol (rx_seq
     [rx_star rx_ws,
      RCap 1 (rx_seq [rx_rep 1 4 rx_digit, rx_lit ''/'', lit_i_seq [''tcp'', ''udp'']]),
      rx_plus rx_ws, rx_lit_i ''open'', rx_star rx_nonws, rx_plus rx_ws,
      rx_opt (RCap 2 (rx_plus rx_nonws)), rx_star rx_ws, RCap 3 (rx_star rx_any), REol])"

definition nmap_done_re :: rx where
  "nmap_done_re = rx_seq [rx_lit_i ''Nmap done:'', rx_plus rx_ws, rx_star rx_any, rx_lit ''('',
     RCap 1 (rx_plus rx_digit), rx_plus rx_ws, rx_lit_i ''host'', rx_opt (rx_lit_i ''s''), rx_plus rx_ws,
     rx_lit_i ''up)'']"

definition nmap_service_re :: rx where
  "nmap_service_re = RSeq (rx_lit_i ''Service Info:'') rest_value"

definition nmap_os_re :: rx where
  "nmap_os_re = rx_seq [lit_i_seq [''OS details'', ''Running''], rx_lit '':'', rest_value]"

definition nmap_port_text :: "string \<times> (nat \<times> string) list \<Rightarrow> string" where
  "nmap_port_text m = join '' '' (filter nonempty
     [toLowerCase (rx_group_str m 1), trim (rx_group_str m 2), trim (collapse_ws (rx_group_str m 3))])"

definition hint_of :: "rx \<Rightarrow> string \<Rightarrow> string list" where
  "hint_of re line = (case rx_exec re line of None \<Rightarrow> [] | Some m \<Rightarrow> [trim (collapse_ws (rx_group_str m 1))])"

definition nmap_step :: "(nat \<Rightarrow> string) \<Rightarrow> nmap_state \<Rightarrow> string \<Rightarrow> nmap_state" where
  "nmap_step loc st line =
     (case rx_exec nmap_port_re line of
        Some m \<Rightarrow> st\<lparr>openPorts := openPorts st @ [nmap_port_text m]\<rparr>
      | None \<Rightarrow>
          let st1 = (case rx_exec nmap_done_re line of
                None \<Rightarrow> st
              | Some m \<Rightarrow> st\<lparr>hostsUp := loc (digits_value 0 (rx_group_str m 1)) @ '' up''\<rparr>)
          in st1\<lparr>osHints := osHints st1 @ hint_of nmap_service_re line @ hint_of nmap_os_re line\<rparr>)"

definition nmap_items :: "(nat \<Rightarrow> string) \<Rightarrow> nmap_state \<Rightarrow> jsval list" where
  "nmap_items loc st =
     (let i1 = pushOutcomeItem [] ''Hosts'' (hostsUp st);
          i2 = pushOutcomeItem i1 ''Open ports'' (if openPorts st \<noteq> []
                 then loc (length (openPorts st)) @ '' ('' @ formatLimitedList (openPorts st) 10 @ '')'' else [])
      in pushOutcomeItem i2 ''OS / service hints'' (formatLimitedList (osHints st) 3))"

definition parseNmapOutcome :: "(nat \<Rightarrow> string) \<Rightarrow> string list \<Rightarrow> jsval" where
  "parseNmapOutcome loc lines =
     outcome_result (nmap_items loc (foldl (nmap_step loc) \<lparr>openPorts = [], osHints = [], hostsUp = []\<rparr> lines))"

section \<open>dig\<close>

record dig_state =
  recordTypes :: "string list"
  answerRecords :: "string list"
  dig_status :: string
  answerCount :: "nat option"
  dig_server :: string
  queryTime :: string
  inAnswer :: bool

definition dig_status_re :: rx where
  "dig_status_re = rx_seq [rx_lit_i ''HEADER<<-'', rx_star (RChr (\<lambda>c. c \<noteq> CHR '','')), rx_lit '','', rx_star rx_ws,
     rx_lit_i ''status:'', rx_star rx_ws, RCap 1 (rx_plus (RChr (\<lambda>c. is_alnum c \<or> c = CHR ''_'' \<or> c = CHR ''-'')))]"

definition dig_answer_re :: rx where
  "dig_answer_re = rx_seq [RWordB, rx_lit_i ''ANSWER:'', rx_star rx_ws, RCap 1 (rx_plus rx_digit)]"

definition dig_answer_section_re :: rx where
  "dig_answer_section_re = RSeq RBol (rx_seq [rx_lit '';;'', rx_star rx_ws, rx_lit_i ''ANSWER SECTION:''])"

definition dig_other_section_re :: rx where
  "dig_other_section_re = RSeq RBol (rx_seq [rx_lit '';;'', rx_star rx_ws,
     lit_i_seq [''AUTHORITY'', ''ADDITIONAL'', ''QUESTION''], rx_lit_i '' SECTION:''])"

definition dig_server_re :: rx where
  "dig_server_re = RSeq RBol (rx_seq [rx_lit '';;'', rx_star rx_ws, rx_lit_i ''SERVER:'', rest_value])"

definition dig_time_re :: rx where
  "dig_time_re = RSeq RBol (rx_seq [rx_lit '';;'', rx_star rx_ws, rx_lit_i ''Query time:'', rest_value])"

text \<open>\<open>line.trim().split(/\s+/)\<close>.\<close>

definition split_ws :: "string \<Rightarrow> string list" where
  "split_ws line = (if ws_words line = [] then [[]] else ws_words line)"

text \<open>The words from \<open>IN\<close> on, when there is one followed by another word.\<close>

fun after_in :: "string list \<Rightarrow> (string \<times> string list) option" where
  "after_in [] = None"
| "after_in (w # ws) =
     (if toUpperCase w = ''IN'' then (case ws of [] \<Rightarrow> None | t # vs \<Rightarrow> Some (t, vs)) else after_in ws)"

definition dig_answer_line :: "dig_state \<Rightarrow> string \<Rightarrow> dig_state" where
  "dig_answer_line st line =
     (let parts = split_ws line in
      case after_in parts of
        None \<Rightarrow> st
      | Some (t, vs) \<Rightarrow>
          let owner = drop_final_dot (hd parts);
              recordType = toUpperCase t;
              value = trim (join '' '' vs)
          in st\<lparr>recordTypes := recordTypes st @ [recordType],
                answerRecords := answerRecords st @
                  (if owner \<noteq> [] \<and> recordType \<noteq> [] \<and> value \<noteq> [] then [owner @ '' '' @ recordType @ '' '' @ value] else [])\<rparr>)"

definition dig_step :: "dig_state \<Rightarrow> string \<Rightarrow> dig_state" where
  "dig_step st line =
     (let st1 = (case rx_exec dig_status_re line of None \<Rightarrow> st
            | Some m \<Rightarrow> st\<lparr>dig_status := toUpperCase (rx_group_str m 1)\<rparr>);
          st2 = (case rx_exec dig_answer_re line of None \<Rightarrow> st1
            | Some m \<Rightarrow> st1\<lparr>answerCount := Some (digits_value 0 (rx_group_str m 1))\<rparr>)
      in if rx_test dig_answer_section_re line then st2\<lparr>inAnswer := True\<rparr>
         else
           let st3 = (if rx_test dig_other_section_re line then st2\<lparr>inAnswer := False\<rparr> else st2);
               st4 = (if inAnswer st3 \<and> \<not> startsWith line '';'' then dig_answer_line st3 line else st3)
           in st4\<lparr>dig_server := match_or dig_server_re line (dig_server st4),
                  queryTime := match_or dig_time_re line (queryTime st4)\<rparr>)"

definition dig_items :: "dig_state \<Rightarrow> jsval list" where
  "dig_items st =
     (let i1 = pushOutcomeItem [] ''Status'' (dig_status st);
          i2 = pushOutcomeItem i1 ''Answers'' (case answerCount st of None \<Rightarrow> [] | Some n \<Rightarrow> nat_str n);
          i3 = pushOutcomeItem i2 ''Answer records'' (formatLimitedList (answerRecords st) 4);
          i4 = pushOutcomeItem i3 ''Record types'' (formatLimitedList (recordTypes st) 6);
          i5 = pushOutcomeItem i4 ''Resolver'' (dig_server st)
      in pushOutcomeItem i5 ''Query time'' (queryTime st))"

definition dig_start :: dig_state where
  "dig_start = \<lparr>recordTypes = [], answerRecords = [], dig_status = [], answerCount = None, dig_server = [],
     queryTime = [], inAnswer = False\<rparr>"

definition parseDigOutcome :: "string list \<Rightarrow> jsval" where
  "parseDigOutcome lines = outcome_result (dig_items (foldl dig_step dig_start lines))"

section \<open>nslookup\<close>

record nslookup_state =
  aRecords :: "string list"
  mxRecords :: "string list"
  txtRecords :: "string list"
  ns_types :: "string list"
  resolver :: string
  currentName :: string
  ns_inAnswer :: bool

definition ns_server_re :: rx where
  "ns_server_re = labelled (rx_lit_i ''Server:'')"

definition ns_address_re :: rx where
  "ns_address_re = labelled (rx_lit_i ''Address:'')"

definition ns_name_re :: rx where
  "ns_name_re = labelled (rx_lit_i ''Name:'')"

definition ns_nonauth_re :: rx where
  "ns_nonauth_re = RSeq RBol (rx_lit_i ''Non-authoritative answer:'')"

definition ns_auth_re :: rx where
  "ns_auth_re = RSeq RBol (rx_lit_i ''Authoritative answers can be found from:'')"

definition ns_record_re :: "string \<Rightarrow> rx" where
  "ns_record_re word = RSeq RBol (rx_seq [RCap 1 (rx_plus rx_nonws), rx_plus rx_ws, rx_lit_i word, rx_star rx_ws,
     rx_lit ''='', rx_star rx_ws, RCap 2 (rx_plus rx_any), REol])"

definition edge_quotes_re :: rx where
  "edge_quotes_re = RAlt (RSeq RBol (rx_lit [DQ])) (RSeq (rx_lit [DQ]) REol)"

definition cleanNslookupName :: "string \<Rightarrow> string" where
  "cleanNslookupName value = drop_final_dot (trim value)"

text \<open>The last two tests of the loop body: mail exchangers and text records.\<close>

definition ns_record_step :: "nslookup_state \<Rightarrow> string \<Rightarrow> nslookup_state" where
  "ns_record_step st line =
     (case rx_exec (ns_record_re ''mail exchanger'') line of
        Some m \<Rightarrow> st\<lparr>ns_types := ns_types st @ [''MX''],
            mxRecords := mxRecords st @ [cleanNslookupName (rx_group_str m 1) @ '' MX '' @ drop_final_dot (trim (rx_group_str m 2))]\<rparr>
      | None \<Rightarrow>
     (case rx_exec (ns_record_re ''text'') line of
        Some m \<Rightarrow> st\<lparr>ns_types := ns_types st @ [''TXT''],
            txtRecords := txtRecords st @ [cleanNslookupName (rx_group_str m 1) @ '' TXT ''
              @ rx_replace_all edge_quotes_re (\<lambda>q. []) (trim (rx_group_str m 2))]\<rparr>
      | None \<Rightarrow> st))"

definition nslookup_step :: "nslookup_state \<Rightarrow> string \<Rightarrow> nslookup_state" where
  "nslookup_step st line =
     (case rx_exec ns_server_re line of Some m \<Rightarrow> st\<lparr>resolver := trim (rx_group_str m 1)\<rparr>
      | None \<Rightarrow>
        let am = rx_exec ns_address_re line;
            address = (case am of None \<Rightarrow> [] | Some m \<Rightarrow> trim (rx_group_str m 1))
        in if \<not> ns_inAnswer st \<and> am \<noteq> None then
             st\<lparr>resolver := (if resolver st \<noteq> [] then resolver st @ '' ('' @ address @ '')'' else address)\<rparr>
           else if rx_test ns_nonauth_re line then st\<lparr>ns_inAnswer := True\<rparr>
           else if rx_test ns_auth_re line then st\<lparr>ns_inAnswer := False\<rparr>
           else (case rx_exec ns_name_re line of
               Some m \<Rightarrow> st\<lparr>currentName := cleanNslookupName (rx_group_str m 1)\<rparr>
             | None \<Rightarrow>
               if ns_inAnswer st \<and> currentName st \<noteq> [] \<and> am \<noteq> None then
                 st\<lparr>ns_types := ns_types st @ [''A''], aRecords := aRecords st @ [currentName st @ '' A '' @ address]\<rparr>
               else ns_record_step st line))"

definition nslookup_items :: "nslookup_state \<Rightarrow> jsval list" where
  "nslookup_items st =
     (let n = length (aRecords st) + length (mxRecords st) + length (txtRecords st);
          i1 = pushOutcomeItem [] ''Answers'' (if n \<noteq> 0 then nat_str n else []);
          i2 = pushOutcomeItem i1 ''A records'' (formatLimitedList (aRecords st) 4);
          i3 = pushOutcomeItem i2 ''MX records'' (formatLimitedList (mxRecords st) 4);
          i4 = pushOutcomeItem i3 ''TXT records'' (formatLimitedList (txtRecords st) 3);
          i5 = pushOutcomeItem i4 ''Record types'' (formatLimitedList (ns_types st) 6)
      in pushOutcomeItem i5 ''Resolver'' (resolver st))"

definition nslookup_start :: nslookup_state where
  "nslookup_start = \<lparr>aRecords = [], mxRecords = [], txtRecords = [], ns_types = [], resolver = [], currentName = [],
     ns_inAnswer = False\<rparr>"

definition parseNslookupOutcome :: "string list \<Rightarrow> jsval" where
  "parseNslookupOutcome lines = outcome_result (nslookup_items (foldl nslookup_step nslookup_start lines))"

section \<open>curl\<close>

record curl_state =
  statuses :: "string list"
  contentType :: string
  contentLength :: string
  finalUrl :: string
  tlsHint :: string

definition curl_prefix :: rx where
  "curl_prefix = rx_seq [rx_star rx_ws, rx_star (rx_lit ''<''), rx_star rx_ws]"

definition curl_status_re :: rx where
  "curl_status_re = RSeq RBol (rx_seq
     [curl_prefix, rx_lit_i ''HTTP/'',
      rx_alt [RSeq rx_digit (rx_opt (RSeq (rx_lit ''.'') rx_digit)), rx_lit ''2'', rx_lit ''3''],
      rx_plus rx_ws, RCap 1 (rx_rep 3 0 rx_digit),
      rx_opt (RSeq (rx_plus rx_ws) (RCap 2 (rx_plus rx_any))), REol])"

definition curl_header_re :: "string \<Rightarrow> rx" where
  "curl_header_re name = labelled (RSeq curl_prefix (rx_lit_i name))"

definition curl_tls_re :: rx where
  "curl_tls_re = rx_alt [rx_lit_i ''SSL certificate problem'', rx_lit_i ''certificate verify failed'',
     rx_seq [rx_lit_i ''TLS'', rx_star rx_any, rx_lit_i ''alert''], rx_lit_i ''Failed to connect'',
     rx_lit_i ''Could not resolve host'']"

definition curl_own_prefix_re :: rx where
  "curl_own_prefix_re = RSeq RBol (rx_seq [rx_star rx_ws, rx_lit_i ''curl:'', rx_star rx_ws])"

definition curl_status_text :: "string \<times> (nat \<times> string) list \<Rightarrow> string" where
  "curl_status_text m = rx_group_str m 1 @ (if rx_group_str m 2 \<noteq> [] then '' '' @ trim (rx_group_str m 2) else [])"

definition curl_step :: "curl_state \<Rightarrow> string \<Rightarrow> curl_state" where
  "curl_step st line =
     st\<lparr>statuses := statuses st @ (case rx_exec curl_status_re line of None \<Rightarrow> [] | Some m \<Rightarrow> [curl_status_text m]),
        contentType := match_or (curl_header_re ''content-type:'') line (contentType st),
        contentLength := match_or (curl_header_re ''content-length:'') line (contentLength st),
        finalUrl := match_or (curl_header_re ''location:'') line (finalUrl st),
        tlsHint := (if rx_test curl_tls_re line
          then trim (collapse_ws (rx_replace curl_own_prefix_re (\<lambda>m. []) line)) else tlsHint st)\<rparr>"

definition curl_items :: "curl_state \<Rightarrow> jsval list" where
  "curl_items st =
     (let i1 = pushOutcomeItem [] ''Final status'' (if statuses st \<noteq> [] then last (statuses st) else []);
          i2 = pushOutcomeItem i1 ''Redirects'' (if length (statuses st) > 1 then nat_str (length (statuses st) - 1) else []);
          i3 = pushOutcomeItem i2 ''Final URL'' (finalUrl st);
          i4 = pushOutcomeItem i3 ''Content type'' (contentType st);
          i5 = pushOutcomeItem i4 ''Content length'' (contentLength st)
      in pushOutcomeItem i5 ''Connection / TLS'' (tlsHint st))"

definition curl_start :: curl_state where
  "curl_start = \<lparr>statuses = [], contentType = [], contentLength = [], finalUrl = [], tlsHint = []\<rparr>"

definition parseCurlOutcome :: "string list \<Rightarrow> jsval" where
  "parseCurlOutcome lines = outcome_result (curl_items (foldl curl_step curl_start lines))"

section \<open>openssl s_client\<close>

record openssl_state =
  ssl_subject :: string
  issuer :: string
  notBefore :: string
  notAfter :: string
  verify :: string
  protocol :: string
  cipher :: string

definition s_client_re :: rx where
  "s_client_re = rx_seq [RWordB, rx_lit_i ''s_client'', RWordB]"

definition ssl_cipher_re :: rx where
  "ssl_cipher_re = labelled (rx_seq [rx_star rx_ws, rx_lit_i ''Cipher'', rx_star rx_ws, rx_lit '':''])"

definition ssl_new_re :: rx where
  "ssl_new_re = RSeq RBol (rx_seq [rx_star rx_ws, rx_lit_i ''New,'', rx_star rx_ws,
     RCap 1 (rx_plus (RChr (\<lambda>c. c \<noteq> CHR '',''))), rx_lit '','', rx_star rx_ws, rx_lit_i ''Cipher is'', rx_plus rx_ws,
     RCap 2 (rx_plus rx_any), REol])"

definition ssl_date_re :: "string list \<Rightarrow> rx" where
  "ssl_date_re names = labelled (rx_seq [lit_i_seq names, rx_star rx_ws, rx_lit ''=''])"

definition ssl_verify_re :: rx where
  "ssl_verify_re = RSeq (rx_lit_i ''Verify return code:'') rest_value"

definition ssl_protocol_re :: rx where
  "ssl_protocol_re = labelled (rx_seq [rx_star rx_ws, rx_lit_i ''Protocol'', rx_star rx_ws, rx_lit '':''])"

definition openssl_step :: "openssl_state \<Rightarrow> string \<Rightarrow> openssl_state" where
  "openssl_step st line =
     (let st1 = st\<lparr>ssl_subject := match_or (labelled (rx_lit_i ''subject='')) line (ssl_subject st),
            issuer := match_or (labelled (rx_lit_i ''issuer='')) line (issuer st),
            notBefore := match_or (ssl_date_re [''notBefore'', ''Not Before'']) line (notBefore st),
            notAfter := match_or (ssl_date_re [''notAfter'', ''Not After'']) line (notAfter st),
            verify := match_or ssl_verify_re line (verify st),
            protocol := match_or ssl_protocol_re line (protocol st)\<rparr>
      in case rx_exec ssl_cipher_re line of
           Some m \<Rightarrow> st1\<lparr>cipher := trim (rx_group_str m 1)\<rparr>
         | None \<Rightarrow> (case rx_exec ssl_new_re line of
             Some m \<Rightarrow> st1\<lparr>protocol := (if protocol st1 = [] then trim (rx_group_str m 1) else protocol st1),
                          cipher := trim (rx_group_str m 2)\<rparr>
           | None \<Rightarrow> st1))"

definition openssl_items :: "openssl_state \<Rightarrow> jsval list" where
  "openssl_items st =
     (let i1 = pushOutcomeItem [] ''Subject'' (ssl_subject st);
          i2 = pushOutcomeItem i1 ''Issuer'' (issuer st);
          i3 = pushOutcomeItem i2 ''Validity'' (join '' to '' (filter nonempty [notBefore st, notAfter st]));
          i4 = pushOutcomeItem i3 ''Verification'' (verify st);
          i5 = pushOutcomeItem i4 ''Protocol'' (protocol st)
      in pushOutcomeItem i5 ''Cipher'' (cipher st))"

definition openssl_start :: openssl_state where
  "openssl_start = \<lparr>ssl_subject = [], issuer = [], notBefore = [], notAfter = [], verify = [], protocol = [], cipher = []\<rparr>"

definition parseOpenSslOutcome :: "string \<Rightarrow> string list \<Rightarrow> jsval" where
  "parseOpenSslOutcome command lines =
     (if \<not> rx_test s_client_re command then JNull
      else outcome_result (openssl_items (foldl openssl_step openssl_start lines)))"

section \<open>The summary of a command\<close>

definition parse_outcome :: "(nat \<Rightarrow> string) \<Rightarrow> string \<Rightarrow> string \<Rightarrow> string list \<Rightarrow> jsval" where
  "parse_outcome loc cmdRoot command lines =
     (if cmdRoot = ''nmap'' then parseNmapOutcome loc lines
      else if cmdRoot = ''dig'' then parseDigOutcome lines
      else if cmdRoot = ''nslookup'' then parseNslookupOutcome lines
      else if cmdRoot = ''curl'' then parseCurlOutcome lines
      else if cmdRoot = ''openssl'' then parseOpenSslOutcome command lines
      else JNull)"

definition buildCommandOutcomeSummary :: "(nat \<Rightarrow> string) \<Rightarrow> string \<Rightarrow> jsval \<Rightarrow> outcome_summary option" where
  "buildCommandOutcomeSummary loc command rawLines =
     (let cmdRoot = outcomeCommandRoot command; lines = outcomeLines rawLines in
      if cmdRoot = [] \<or> lines = [] then None
      else normalizeCommandOutcomeSummary (parse_outcome loc cmdRoot command lines))"

section \<open>What a summary looks like\<close>

definition item_ok :: "outcome_item \<Rightarrow> bool" where
  "item_ok it \<longleftrightarrow> (oi_label it \<noteq> [] \<or> oi_value it \<noteq> []) \<and> trimmed (oi_label it) \<and> trimmed (oi_value it) \<and> trimmed (oi_tone it)"

definition summary_ok :: "outcome_summary \<Rightarrow> bool" where
  "summary_ok sm \<longleftrightarrow> os_title sm \<noteq> [] \<and> trimmed (os_title sm) \<and> os_items sm \<noteq> [] \<and> (\<forall>it \<in> set (os_items sm). item_ok it)"

lemma trimmed_Nil [simp]: "trimmed []"
  by (simp add: trimmed_def)

lemma value_item_ok: "v \<noteq> [] \<Longrightarrow> trimmed v \<Longrightarrow> item_ok (value_item v)"
  by (simp add: item_ok_def value_item_def)

lemma normalizeOutcomeItem_ok: "normalizeOutcomeItem v = Some it \<Longrightarrow> item_ok it"
  by (auto simp: normalizeOutcomeItem_def Let_def item_ok_def value_item_def split: if_splits)

lemma map_filter_items_ok: "\<forall>it \<in> set (List.map_filter normalizeOutcomeItem xs). item_ok it"
  by (auto simp: List.map_filter_def normalizeOutcomeItem_ok)

lemma title_ok: "trimmed ''Command outcome''"
  by (simp add: trimmed_def is_ws_def)

lemma normalize_summary_ok:
  assumes "normalizeCommandOutcomeSummary raw = Some sm"
  shows "summary_ok sm"
proof (cases "is_scalar raw")
  case True
  with assms have "trim (to_str raw) \<noteq> []" "sm = \<lparr>os_title = ''Command outcome'', os_items = [value_item (trim (to_str raw))]\<rparr>"
    by (auto simp: normalizeCommandOutcomeSummary_def Let_def split: if_splits)
  then show ?thesis
    using value_item_ok [of "trim (to_str raw)"] title_ok by (simp add: summary_ok_def)
next
  case False
  define items where "items = List.map_filter normalizeOutcomeItem (summary_source_items raw)"
  define title where "title = str_default (trim (str_or (js_or (jprop raw ''title'') (jprop raw ''heading'')) ''Command outcome'')) ''Command outcome''"
  define body where "body = trim (to_str (jprop raw ''text''))"
  have "title \<noteq> []" "trimmed title"
    by (simp_all add: title_def str_default_def title_ok)
  moreover have "\<forall>it \<in> set items. item_ok it"
    unfolding items_def by (rule map_filter_items_ok)
  moreover have "body \<noteq> [] \<Longrightarrow> item_ok (value_item body)"
    by (rule value_item_ok) (simp_all add: body_def)
  moreover have e: "normalizeCommandOutcomeSummary raw = (if \<not> truthy raw then None
      else let its = (if items = [] \<and> is_str (jprop raw ''text'') \<and> body \<noteq> [] then [value_item body] else items)
           in if its = [] then None else Some \<lparr>os_title = title, os_items = its\<rparr>)"
    using False unfolding normalizeCommandOutcomeSummary_def Let_def items_def title_def body_def by (simp only: if_False)
  ultimately show ?thesis
    using assms [unfolded e Let_def] unfolding summary_ok_def by (auto split: if_splits)
qed

text \<open>A command outcome summary is never blank: whatever the command and its output lines, a summary
  that is shown has a title and at least one item, and every item has a label or a value, without
  surrounding white space.\<close>

theorem outcome_summary_wellformed:
  assumes "buildCommandOutcomeSummary loc command rawLines = Some sm"
  shows "summary_ok sm"
  using assms normalize_summary_ok unfolding buildCommandOutcomeSummary_def Let_def
  by (metis option.distinct(1))

theorem outcome_summary_wellformed_witness:
  "\<exists>sm. buildCommandOutcomeSummary nat_str ''nslookup x'' (JArr [JObj [(''text'', JStr ''Server: a'')]]) = Some sm
    \<and> length (os_items sm) = 1 \<and> summary_ok sm"
proof -
  have r: "buildCommandOutcomeSummary nat_str ''nslookup x'' (JArr [JObj [(''text'', JStr ''Server: a'')]])
    = Some \<lparr>os_title = ''Command outcome'', os_items = [\<lparr>oi_label = ''Resolver'', oi_value = ''a'', oi_tone = []\<rparr>]\<rparr>"
    by code_simp
  from r outcome_summary_wellformed [OF r] show ?thesis by simp
qed

section \<open>Counting open ports\<close>

definition port_line :: "string \<Rightarrow> bool" where
  "port_line line \<longleftrightarrow> rx_exec nmap_port_re line \<noteq> None"

lemma nmap_step_ports:
  "openPorts (nmap_step loc st line) = openPorts st @ (case rx_exec nmap_port_re line of None \<Rightarrow> [] | Some m \<Rightarrow> [nmap_port_text m])"
  by (auto simp: nmap_step_def Let_def split: option.splits)

lemma nmap_fold_ports:
  "openPorts (foldl (nmap_step loc) st lines) = openPorts st @ map (\<lambda>l. nmap_port_text (the (rx_exec nmap_port_re l))) (filter port_line lines)"
  by (induction lines arbitrary: st) (auto simp: nmap_step_ports port_line_def split: option.splits)

text \<open>The open-port count of an nmap summary is the number of output lines that report an open port, and
  the ports are listed in output order, each once.\<close>

lemma nmap_ports_counted:
  "openPorts (foldl (nmap_step loc) \<lparr>openPorts = [], osHints = [], hostsUp = []\<rparr> lines)
     = map (\<lambda>l. nmap_port_text (the (rx_exec nmap_port_re l))) (filter port_line lines)
   \<and> length (openPorts (foldl (nmap_step loc) \<lparr>openPorts = [], osHints = [], hostsUp = []\<rparr> lines))
     = length (filter port_line lines)"
  using nmap_fold_ports [of loc "\<lparr>openPorts = [], osHints = [], hostsUp = []\<rparr>" lines] by simp

section \<open>Prompt echoes\<close>

lemma strip_leading_ws: "rx_replace leading_ws_re (\<lambda>m. []) s = trimStart s"
proof -
  have "rx_search leading_ws_re [] s = map_option (\<lambda>st. ([], s, st)) (rx_at (rx_plus rx_ws) [] s)"
    unfolding leading_ws_re_def by (rule rx_search_Bol_start)
  moreover have "rx_at (rx_plus rx_ws) [] s =
      (if s \<noteq> [] \<and> is_ws (hd s) then Some (rev (takeWhile is_ws s) @ [], dropWhile is_ws s, []) else None)"
    unfolding rx_ws_def by (rule rx_at_plus_class)
  moreover have "\<not> (s \<noteq> [] \<and> is_ws (hd s)) \<Longrightarrow> dropWhile is_ws s = s"
    by (cases s) auto
  ultimately show ?thesis
    by (auto simp: rx_replace_def trimStart_def)
qed

text \<open>The echo of a command under the current prompt label gives the command back: stripping the label
  that was built for any identity and directory returns the command text exactly, if it does not
  start with white space.\<close>

theorem strip_built_label:
  assumes "cmd = [] \<or> \<not> is_ws (hd cmd)"
  shows "stripPromptLabelFromEchoText (buildPromptLabel pre path @ '' '' @ cmd) (buildPromptLabel pre path) identityPrefix = cmd"
proof -
  have "buildPromptLabel pre path \<noteq> []" by (simp add: buildPromptLabel_def)
  moreover have "trimStart ('' '' @ cmd) = cmd"
    using assms by (cases cmd) (auto simp: trimStart_def is_ws_def)
  ultimately show ?thesis
    by (simp add: stripPromptLabelFromEchoText_def strip_leading_ws)
qed

theorem strip_built_label_witness:
  "buildPromptLabel '' ops@lab:~ $'' ''/logs'' = ''ops@lab:/logs $''
   \<and> stripPromptLabelFromEchoText ''ops@lab:/logs $ nmap -sV x'' ''ops@lab:/logs $'' [] = ''nmap -sV x''"
proof -
  have l: "buildPromptLabel '' ops@lab:~ $'' ''/logs'' = ''ops@lab:/logs $''" by code_simp
  have "stripPromptLabelFromEchoText (buildPromptLabel '' ops@lab:~ $'' ''/logs'' @ '' '' @ ''nmap -sV x'')
      (buildPromptLabel '' ops@lab:~ $'' ''/logs'') [] = ''nmap -sV x''"
    by (rule strip_built_label) (simp add: is_ws_def)
  with l show ?thesis by simp
qed

section \<open>Signal counts\<close>

text \<open>A line counts at most once per signal scope and only in a known scope; prompt echoes, lines of a
  generated summary and output of the shell's built-in commands never count.\<close>

lemma countable_scopes:
  "distinct (countableSignalScopes line roots) \<and> set (countableSignalScopes line roots) \<subseteq> set output_signal_scopes
   \<and> (lineRole line = ''prompt-echo'' \<or> (\<exists>c \<in> set (cls_names line). isSyntheticSummaryClassName c)
      \<or> trim (str_or (jprop line ''command_root'') []) \<in> set roots - {[]}
      \<longrightarrow> countableSignalScopes line roots = [])"
  by (auto simp: countableSignalScopes_def isSignalCountableLine_def isBuiltinCommandRoot_def list_ex_iff)

end
