(* ===== verification/Search_Core.thy ===== *)
theory Search_Core
  imports JS_Value JS_Regex
begin

text \<open>
  Labels, counts and the grouped summary of the search bar, \<open>app/static/js/core/search_core.js\<close>.
  The two characters outside the ISO 8859-1 range (the bullet between counts and the ellipsis of a
  placeholder) are the arguments \<open>bullet\<close> and \<open>ellipsis\<close>.
\<close>

section \<open>Labels\<close>

definition search_scope_labels :: "(string \<times> string) list" where
  "search_scope_labels = [(''text'', ''text''), (''findings'', ''findings''), (''warnings'', ''warnings''),
     (''errors'', ''errors''), (''summaries'', ''summaries'')]"

definition search_summary_limit :: nat where
  "search_summary_limit = 25"

definition scope_label :: "string \<Rightarrow> string \<Rightarrow> string" where
  "scope_label scope fallback = (case map_of search_scope_labels scope of Some l \<Rightarrow> l | None \<Rightarrow> fallback)"

definition searchScopeButtonLabel :: "string \<Rightarrow> jsval \<Rightarrow> string" where
  "searchScopeButtonLabel scope cnt =
     (if scope = ''text'' then ''text'' else scope_label scope ''undefined'' @ '' ('' @ to_str cnt @ '')'')"

definition drop_final_s :: "string \<Rightarrow> string" where
  "drop_final_s s = rx_replace (RSeq (rx_lit ''s'') REol) (\<lambda>m. []) s"

definition searchScopeUnitLabel :: "string \<Rightarrow> jsval \<Rightarrow> string" where
  "searchScopeUnitLabel scope cnt =
     (if scope = ''summaries'' then (if cnt = JInt 1 then ''summary'' else ''summaries'')
      else let base = scope_label scope ''matches'' in if cnt = JInt 1 then drop_final_s base else base)"

text \<open>\<open>v > 0\<close>.\<close>

definition positive :: "jsval \<Rightarrow> bool" where
  "positive v \<longleftrightarrow> (case to_num v of Fin r \<Rightarrow> 0 < r | Infinity pos \<Rightarrow> pos | NaN \<Rightarrow> False)"

definition count_phrase :: "jsval \<Rightarrow> string \<Rightarrow> string \<Rightarrow> string list" where
  "count_phrase v one many =
     (if positive v then [to_str v @ '' '' @ (if v = JInt 1 then one else many)] else [])"

definition formatFindingSummary :: "string \<Rightarrow> jsval \<Rightarrow> string" where
  "formatFindingSummary bullet counts = join ('' '' @ bullet @ '' '')
     (count_phrase (jprop counts ''findings'') ''finding'' ''findings''
      @ count_phrase (jprop counts ''warnings'') ''warning'' ''warnings''
      @ count_phrase (jprop counts ''errors'') ''error'' ''errors''
      @ count_phrase (jprop counts ''summaries'') ''summary'' ''summaries'')"

definition searchNoMatchesLabel :: "string \<Rightarrow> string" where
  "searchNoMatchesLabel scope = (if scope = ''text'' then ''no matches'' else ''no '' @ scope_label scope ''matches'')"

definition searchInputPlaceholder :: "string \<Rightarrow> string \<Rightarrow> string" where
  "searchInputPlaceholder ellipsis scope =
     (if scope = ''text'' then ''Search output'' @ ellipsis
      else if scope = ''summaries'' then ''Jump between summary lines'' @ ellipsis
      else ''Jump between '' @ scope_label scope ''matches'' @ ellipsis)"

section \<open>Counts\<close>

text \<open>\<open>Math.max(0, n)\<close>.\<close>

fun max_zero :: "jnum \<Rightarrow> jnum" where
  "max_zero NaN = NaN"
| "max_zero (Infinity pos) = (if pos then Infinity True else Fin 0)"
| "max_zero (Fin r) = Fin (max 0 r)"

definition normalizeSignalCounts :: "jsval \<Rightarrow> jsobj" where
  "normalizeSignalCounts counts =
     map (\<lambda>k. (k, JNum (max_zero (num_or_zero (jprop counts k))))) [''findings'', ''warnings'', ''errors'', ''summaries'']"

definition summaryCommandRoot :: "string \<Rightarrow> string" where
  "summaryCommandRoot command = (case ws_words command of [] \<Rightarrow> [] | w # _ \<Rightarrow> toLowerCase w)"

text \<open>A section is a two-element array \<open>[scope, lines]\<close>.\<close>

definition section_scope :: "jsval \<Rightarrow> jsval" where
  "section_scope sec = (case arr_items sec of s # _ \<Rightarrow> s | [] \<Rightarrow> JUndef)"

definition section_lines :: "jsval \<Rightarrow> jsval list" where
  "section_lines sec = (case arr_items sec of _ # l # _ \<Rightarrow> arr_items l | _ \<Rightarrow> [])"

definition summarySectionsTotal :: "jsval \<Rightarrow> nat" where
  "summarySectionsTotal sections = foldl (\<lambda>sum sec. sum + length (section_lines sec)) 0 (arr_items sections)"

section \<open>Counting repeated lines\<close>

text \<open>The loop of \<open>summaryCompactLines\<close> and \<open>summaryCommandLabels\<close>: the keys in first-seen order and
  the \<open>Map\<close> of their counts.\<close>

fun count_bump :: "string \<Rightarrow> (string \<times> nat) list \<Rightarrow> (string \<times> nat) list" where
  "count_bump k [] = [(k, 1)]"
| "count_bump k ((j, n) # m) = (if j = k then (j, Suc n) # m else (j, n) # count_bump k m)"

definition count_texts :: "string list \<Rightarrow> (string \<times> nat) list" where
  "count_texts texts = foldl (\<lambda>m text. if text = [] then m else count_bump text m) [] texts"

definition counted_label :: "string \<times> nat \<Rightarrow> string" where
  "counted_label p = (case p of (line, n) \<Rightarrow> if n > 1 then line @ '' ('' @ nat_str n @ '')'' else line)"

definition summaryCompactLines :: "jsval \<Rightarrow> string list" where
  "summaryCompactLines lines = map counted_label (count_texts (map (\<lambda>l. trim (str_or l [])) (arr_items lines)))"

definition summaryCommandLabels :: "jsval \<Rightarrow> string list" where
  "summaryCommandLabels items =
     map counted_label (count_texts (map (\<lambda>it. trim (str_or (jprop it ''command'') [])) (arr_items items)))"

section \<open>Merging and grouping\<close>

definition find_section :: "string \<Rightarrow> jsval \<Rightarrow> jsval list" where
  "find_section scope item = (case find (\<lambda>sec. section_scope sec = JStr scope) (arr_items (jprop item ''sections'')) of
     None \<Rightarrow> [] | Some sec \<Rightarrow> section_lines sec)"

definition summaryMergeSections :: "jsval \<Rightarrow> (string \<times> jsval list) list" where
  "summaryMergeSections items =
     map (\<lambda>scope. (scope, concat (map (find_section scope) (arr_items items)))) [''findings'', ''warnings'', ''errors'', ''summaries'']"

text \<open>Push a value into the group with an equal key, or into a new last group.\<close>

fun group_push :: "'k \<Rightarrow> ('v \<Rightarrow> 'v) \<Rightarrow> 'v \<Rightarrow> ('k \<times> 'v) list \<Rightarrow> ('k \<times> 'v) list" where
  "group_push k f v0 [] = [(k, f v0)]"
| "group_push k f v0 ((j, v) # gs) = (if j = k then (j, f v) # gs else (j, v) # group_push k f v0 gs)"

type_synonym target_groups = "(jsval \<times> jsval list) list"

definition group_item :: "(jsval \<times> target_groups) list \<Rightarrow> jsval \<Rightarrow> (jsval \<times> target_groups) list" where
  "group_item groups item =
     (let rt = jprop item ''root''; tg = jprop item ''target'' in
      if \<not> truthy rt \<or> \<not> truthy tg then groups
      else group_push rt (group_push tg (\<lambda>its. its @ [item]) []) [] groups)"

definition summaryGroupedItems :: "jsval \<Rightarrow> (jsval \<times> target_groups) list" where
  "summaryGroupedItems items = foldl group_item [] (arr_items items)"

section \<open>Counting agrees with its specification\<close>

definition count_spec :: "string list \<Rightarrow> (string \<times> nat) list" where
  "count_spec texts = (let ts = filter nonempty texts in map (\<lambda>t. (t, count_list ts t)) (dedup ts))"

lemma dedup_seen_snoc:
  "dedup_seen seen (xs @ [x]) = dedup_seen seen xs @ (if x \<in> set xs \<union> set seen then [] else [x])"
  by (induction seen xs rule: dedup_seen.induct) auto

lemma dedup_snoc: "dedup (xs @ [x]) = dedup xs @ (if x \<in> set xs then [] else [x])"
  by (simp add: dedup_def dedup_seen_snoc)

lemma count_bump_map:
  "distinct ks \<Longrightarrow> count_bump k (map (\<lambda>t. (t, f t)) ks) =
     (if k \<in> set ks then map (\<lambda>t. (t, if t = k then Suc (f t) else f t)) ks else map (\<lambda>t. (t, f t)) ks @ [(k, 1)])"
  by (induction ks) auto

lemma count_texts_spec: "count_texts texts = count_spec texts"
proof (induction texts rule: rev_induct)
  case (snoc x xs)
  let ?ts = "filter nonempty xs"
  show ?case
  proof (cases "x = []")
    case False
    have "count_texts (xs @ [x]) = count_bump x (map (\<lambda>t. (t, count_list ?ts t)) (dedup ?ts))"
      using snoc False by (simp add: count_texts_def count_spec_def Let_def)
    also have "\<dots> = count_spec (xs @ [x])"
      using False by (auto simp: count_bump_map count_spec_def Let_def dedup_snoc)
    finally show ?thesis .
  qed (use snoc in \<open>simp add: count_texts_def count_spec_def\<close>)
qed (simp add: count_texts_def count_spec_def)

section \<open>Grouping loses nothing\<close>

definition group_values :: "(jsval \<times> target_groups) list \<Rightarrow> jsval multiset" where
  "group_values groups = sum_list (map (\<lambda>(r, ts). sum_list (map (\<lambda>(t, its). mset its) ts)) groups)"

lemma keys_group_push:
  "map fst (group_push k f v0 gs) = (if k \<in> set (map fst gs) then map fst gs else map fst gs @ [k])"
  by (induction k f v0 gs rule: group_push.induct) auto

lemma sum_group_push:
  assumes "\<And>v. h (f v) = h v + a" "h v0 = 0"
  shows "sum_list (map (\<lambda>(j, v). h v) (group_push k f v0 gs)) = sum_list (map (\<lambda>(j, v). h v) gs) + (a :: 'm :: comm_monoid_add)"
  by (induction gs) (auto simp: assms ac_simps)

lemma group_item_values:
  "group_values (group_item groups item) = group_values groups +
     (if truthy (jprop item ''root'') \<and> truthy (jprop item ''target'') then {#item#} else {#})"
proof -
  let ?tv = "\<lambda>ts :: target_groups. sum_list (map (\<lambda>(t, its). mset its) ts)"
  have inner: "?tv (group_push tg (\<lambda>its. its @ [item]) [] ts) = ?tv ts + {#item#}" for tg ts
    by (rule sum_group_push) auto
  have "sum_list (map (\<lambda>(r, ts). ?tv ts) (group_push rt (group_push tg (\<lambda>its. its @ [item]) []) [] groups))
      = sum_list (map (\<lambda>(r, ts). ?tv ts) groups) + {#item#}" for rt tg
    by (rule sum_group_push) (auto simp: inner)
  then show ?thesis by (simp add: group_item_def group_values_def Let_def)
qed

lemma grouped_values:
  "group_values (foldl group_item groups items) = group_values groups +
     mset (filter (\<lambda>it. truthy (jprop it ''root'') \<and> truthy (jprop it ''target'')) items)"
  by (induction items arbitrary: groups) (auto simp: group_item_values)

lemma grouped_distinct: "distinct (map fst groups) \<Longrightarrow> distinct (map fst (foldl group_item groups items))"
proof (induction items arbitrary: groups)
  case (Cons item items)
  have "distinct (map fst (group_item groups item))"
    using Cons.prems by (auto simp: group_item_def Let_def keys_group_push simp del: set_map)
  with Cons.IH show ?case by simp
qed simp

text \<open>The summary of repeated lines lists each distinct non-empty line once, in first-seen order, with
  its exact number of occurrences, and grouping runs by command root and target keeps every run
  that has both, exactly once, with one group per root.\<close>

theorem summary_counts_and_groups:
  "summaryCompactLines lines = map counted_label (count_spec (map (\<lambda>l. trim (str_or l [])) (arr_items lines)))
   \<and> group_values (summaryGroupedItems items) =
       mset (filter (\<lambda>it. truthy (jprop it ''root'') \<and> truthy (jprop it ''target'')) (arr_items items))
   \<and> distinct (map fst (summaryGroupedItems items))"
  using grouped_values [of "[]" "arr_items items"] grouped_distinct [of "[]" "arr_items items"]
  by (simp add: summaryCompactLines_def count_texts_spec summaryGroupedItems_def group_values_def)

end
