(* ===== verification/JS_Url.thy ===== *)
theory JS_Url
  imports JS_Json
begin

text \<open>
  \<open>URLSearchParams\<close>: an ordered list of name and value pairs, its serialisation
  (application/x-www-form-urlencoded, UTF-8) and its parser. The locale \<open>query_params\<close> is what the
  history and workflow code relies on; the interpretation proves it for the serialiser and parser
  below.
\<close>

definition form_safe :: "char \<Rightarrow> bool" where
  "form_safe c \<longleftrightarrow> is_alnum c \<or> c = CHR ''*'' \<or> c = CHR ''-'' \<or> c = CHR ''.'' \<or> c = CHR ''_''"

definition upper_hex :: "nat \<Rightarrow> char" where
  "upper_hex n = (if n < 10 then char_of (48 + n) else char_of (55 + n))"

definition percent :: "nat \<Rightarrow> string" where
  "percent n = [CHR ''%'', upper_hex (n div 16), upper_hex (n mod 16)]"

definition form_char :: "char \<Rightarrow> string" where
  "form_char c =
     (let n = of_char c in
      if form_safe c then [c]
      else if c = CHR '' '' then ''+''
      else if n < 128 then percent n
      else percent (192 + n div 64) @ percent (128 + n mod 64))"

definition form_encode :: "string \<Rightarrow> string" where
  "form_encode s = concat (map form_char s)"

type_synonym params = "(string \<times> string) list"

definition params_str :: "params \<Rightarrow> string" where
  "params_str ps = join ''&'' (map (\<lambda>(k, v). form_encode k @ ''='' @ form_encode v) ps)"

text \<open>Percent-decoding into bytes, then UTF-8 for the code units of the model.\<close>

fun percent_decode :: "string \<Rightarrow> nat list" where
  "percent_decode [] = []"
| "percent_decode (c # s) =
     (if c = CHR ''+'' then 32 # percent_decode s
      else case s of
        a # b # t \<Rightarrow>
          if c = CHR ''%'' \<and> radix_digit a < 16 \<and> radix_digit b < 16
          then (16 * radix_digit a + radix_digit b) # percent_decode t
          else of_char c # percent_decode s
      | _ \<Rightarrow> of_char c # percent_decode s)"

fun utf8_decode :: "nat list \<Rightarrow> string" where
  "utf8_decode [] = []"
| "utf8_decode (n # ns) =
     (if n < 128 then char_of n # utf8_decode ns
      else case ns of
        m # ms \<Rightarrow> if (n = 194 \<or> n = 195) \<and> 128 \<le> m \<and> m < 192
                  then char_of (64 * (n - 192) + (m - 128)) # utf8_decode ms
                  else CHR ''?'' # utf8_decode ns
      | [] \<Rightarrow> CHR ''?'' # utf8_decode ns)"

definition form_decode :: "string \<Rightarrow> string" where
  "form_decode s = utf8_decode (percent_decode s)"

definition parse_pair :: "string \<Rightarrow> string \<times> string" where
  "parse_pair s = (form_decode (takeWhile (\<lambda>c. c \<noteq> CHR ''='') s), form_decode (drop 1 (dropWhile (\<lambda>c. c \<noteq> CHR ''='') s)))"

definition parse_params :: "string \<Rightarrow> params" where
  "parse_params s = map parse_pair (filter nonempty (split_on CHR ''&'' s))"

fun params_set :: "params \<Rightarrow> string \<Rightarrow> string \<Rightarrow> params" where
  "params_set [] k v = [(k, v)]"
| "params_set ((j, w) # ps) k v = (if j = k then (k, v) # filter (\<lambda>(i, u). i \<noteq> k) ps else (j, w) # params_set ps k v)"

definition params_delete :: "params \<Rightarrow> string \<Rightarrow> params" where
  "params_delete ps k = filter (\<lambda>(j, w). j \<noteq> k) ps"

section \<open>The contract\<close>

locale query_params =
  fixes ser :: "params \<Rightarrow> string" and pars :: "string \<Rightarrow> params"
  assumes pars_ser: "pars (ser ps) = ps"
begin

lemma ser_inj: "ser ps = ser qs \<longleftrightarrow> ps = qs"
  by (metis pars_ser)

lemma ser_query_eq: "ser ps = ser [] \<longleftrightarrow> ps = []"
  by (rule ser_inj)

end

lemma radix_upper_hex: "n < 16 \<Longrightarrow> radix_digit (upper_hex n) = n"
  by (auto simp: upper_hex_def radix_digit_def is_digit_def char_between_def)

lemma percent_decode_percent: "n < 256 \<Longrightarrow> percent_decode (percent n @ s) = n # percent_decode s"
proof -
  assume "n < 256"
  then have "n div 16 < 16" by (simp add: less_mult_imp_div_less)
  then show ?thesis by (simp add: percent_def radix_upper_hex)
qed

definition utf8_bytes :: "char \<Rightarrow> nat list" where
  "utf8_bytes c = (let n = of_char c in if n < 128 then [n] else [192 + n div 64, 128 + n mod 64])"

lemma of_char_bound: "(of_char (c :: char) :: nat) < 256"
  by simp

lemma of_char_div_bound: "(of_char (c :: char) :: nat) div 64 < 4"
  by (rule less_mult_imp_div_less) simp

lemma form_safe_small: "form_safe c \<Longrightarrow> (of_char c :: nat) < 128 \<and> c \<noteq> CHR ''+'' \<and> c \<noteq> CHR ''%'' \<and> c \<noteq> CHR ''&'' \<and> c \<noteq> CHR ''=''"
  by (auto simp: form_safe_def is_alnum_def is_alpha_def is_lower_def is_upper_def is_digit_def char_between_def)

lemma percent_decode_char: "percent_decode (form_char c @ s) = utf8_bytes c @ percent_decode s"
proof (cases "form_safe c")
  case True
  then have "form_char c = [c]" "utf8_bytes c = [of_char c]"
    using form_safe_small by (simp_all add: form_char_def utf8_bytes_def)
  moreover have "percent_decode (c # s) = of_char c # percent_decode s"
    using form_safe_small [OF True] by (auto split: list.splits)
  ultimately show ?thesis by simp
next
  case False
  show ?thesis
  proof (cases "(of_char c :: nat) < 128")
    case True
    with False show ?thesis
      by (auto simp: form_char_def utf8_bytes_def Let_def percent_decode_percent)
  next
    case big: False
    have "192 + (of_char c :: nat) div 64 < 256" "128 + (of_char c :: nat) mod 64 < 256"
      using of_char_div_bound [of c] by simp_all
    with False big show ?thesis
      by (auto simp: form_char_def utf8_bytes_def Let_def percent_decode_percent)
  qed
qed

lemma utf8_decode_char: "utf8_decode (utf8_bytes c @ ns) = c # utf8_decode ns"
proof (cases "(of_char c :: nat) < 128")
  case True
  then show ?thesis by (simp add: utf8_bytes_def)
next
  case False
  let ?n = "of_char c :: nat"
  have "?n div 64 < 4" by (rule of_char_div_bound)
  moreover have "2 \<le> ?n div 64" using False by (simp add: less_eq_div_iff_mult_less_eq)
  ultimately have "?n div 64 = 2 \<or> ?n div 64 = 3" by linarith
  moreover have "64 * (?n div 64) + ?n mod 64 = ?n" by simp
  ultimately have "char_of (64 * (192 + ?n div 64 - 192) + (128 + ?n mod 64 - 128)) = c"
    "192 + ?n div 64 = 194 \<or> 192 + ?n div 64 = 195"
    by auto
  with False show ?thesis by (auto simp: utf8_bytes_def Let_def)
qed

lemma form_decode_encode [simp]: "form_decode (form_encode s) = s"
proof -
  have "percent_decode (form_encode s) = concat (map utf8_bytes s)"
    unfolding form_encode_def by (induction s) (simp_all add: percent_decode_char)
  moreover have "utf8_decode (concat (map utf8_bytes s)) = s"
    by (induction s) (simp_all add: utf8_decode_char)
  ultimately show ?thesis by (simp add: form_decode_def)
qed

lemma upper_hex_safe: "n < 16 \<Longrightarrow> upper_hex n \<noteq> CHR ''&'' \<and> upper_hex n \<noteq> CHR ''=''"
  by (auto simp: upper_hex_def char_eq_code)

lemma form_char_clean: "CHR ''&'' \<notin> set (form_char c) \<and> CHR ''='' \<notin> set (form_char c)"
proof -
  have p: "n < 256 \<Longrightarrow> CHR ''&'' \<notin> set (percent n) \<and> CHR ''='' \<notin> set (percent n)" for n
  proof -
    assume "n < 256"
    then have "n div 16 < 16" by (simp add: less_mult_imp_div_less)
    then show ?thesis using upper_hex_safe [of "n div 16"] upper_hex_safe [of "n mod 16"] by (auto simp: percent_def)
  qed
  have "192 + (of_char c :: nat) div 64 < 256" "128 + (of_char c :: nat) mod 64 < 256"
    using of_char_div_bound [of c] by simp_all
  with p of_char_bound [of c] show ?thesis
    using form_safe_small [of c] by (auto simp: form_char_def Let_def)
qed

lemma form_encode_clean: "CHR ''&'' \<notin> set (form_encode s)" "CHR ''='' \<notin> set (form_encode s)"
  using form_char_clean by (auto simp: form_encode_def)

lemma parse_pair_str: "parse_pair (form_encode k @ ''='' @ form_encode v) = (k, v)"
proof -
  have "takeWhile (\<lambda>c. c \<noteq> CHR ''='') (form_encode k @ CHR ''='' # form_encode v) = form_encode k"
    "dropWhile (\<lambda>c. c \<noteq> CHR ''='') (form_encode k @ CHR ''='' # form_encode v) = CHR ''='' # form_encode v"
    using form_encode_clean(2) [of k] by (auto simp: takeWhile_append dropWhile_append)
  then show ?thesis by (simp add: parse_pair_def)
qed

interpretation search_params: query_params params_str parse_params
proof
  fix ps :: params
  let ?qs = "map (\<lambda>(k, v). form_encode k @ ''='' @ form_encode v) ps"
  have "\<forall>q \<in> set ?qs. CHR ''&'' \<notin> set q \<and> q \<noteq> []"
    using form_encode_clean(1) by auto
  then have "filter nonempty (split_on CHR ''&'' (params_str ps)) = ?qs"
    unfolding params_str_def by (rule split_on_join_nonempty)
  then show "parse_params (params_str ps) = ps"
    unfolding parse_params_def by (simp add: o_def case_prod_beta parse_pair_str [simplified])
qed

lemma params_str_Nil: "params_str ps = [] \<longleftrightarrow> ps = []"
  using search_params.ser_query_eq [of ps] by (simp add: params_str_def [of "[]"])

section \<open>Setting and deleting\<close>

lemma params_delete_set [simp]: "params_delete (params_set ps k v) k = params_delete ps k"
  by (induction ps k v rule: params_set.induct) (auto simp: params_delete_def)

lemma params_delete_set_other: "j \<noteq> k \<Longrightarrow> params_delete (params_set ps k v) j = params_set (params_delete ps j) k v"
  by (induction ps k v rule: params_set.induct) (auto simp: params_delete_def filter_filter intro: filter_cong)

lemma params_set_nonempty [simp]: "params_set ps k v \<noteq> []"
  by (induction ps k v rule: params_set.induct) auto

lemma params_set_fresh: "k \<notin> fst ` set ps \<Longrightarrow> params_set ps k v = ps @ [(k, v)]"
  by (induction ps k v rule: params_set.induct) auto

end
