(* ===== verification/History_Core.thy ===== *)
theory History_Core
  imports JS_Url JS_Sort
begin

text \<open>
  The run history, \<open>app/static/js/core/history_core.js\<close>: filters, the request and delete URLs built
  from them, command recall, exit codes and durations. Dates are not interpreted: a timestamp is the
  number of milliseconds the browser's date parser gives (\<^const>\<open>None\<close> for an invalid date), and the
  localised text of a date is an argument, as is the dash of the label of a missing exit code.
\<close>

section \<open>Filters\<close>

definition normalizeFilterValue :: "jsval \<Rightarrow> string" where
  "normalizeFilterValue value = (if is_str value then trim (to_str value) else [])"

text \<open>\<open>state.k || 'all'\<close>, and \<open>state.k && state.k !== 'all'\<close>.\<close>

definition filter_or_all :: "jsval \<Rightarrow> string \<Rightarrow> jsval" where
  "filter_or_all state k = js_or (jprop state k) (JStr ''all'')"

definition filter_chosen :: "jsval \<Rightarrow> string \<Rightarrow> bool" where
  "filter_chosen state k \<longleftrightarrow> truthy (jprop state k) \<and> jprop state k \<noteq> JStr ''all''"

definition filter_given :: "jsval \<Rightarrow> string \<Rightarrow> bool" where
  "filter_given state k \<longleftrightarrow> truthy (jprop state k)"

definition hasActiveServerFilters :: "jsval \<Rightarrow> bool" where
  "hasActiveServerFilters state \<longleftrightarrow>
     filter_or_all state ''type'' \<noteq> JStr ''all'' \<or> filter_given state ''q'' \<or> filter_given state ''commandRoot''
     \<or> filter_chosen state ''signal'' \<or> filter_chosen state ''kind'' \<or> filter_given state ''entity''
     \<or> filter_chosen state ''entityType'' \<or> filter_or_all state ''exitCode'' \<noteq> JStr ''all''
     \<or> filter_or_all state ''dateRange'' \<noteq> JStr ''all'' \<or> filter_chosen state ''projectId''"

definition hasAnyFilters :: "jsval \<Rightarrow> bool" where
  "hasAnyFilters filters \<longleftrightarrow> hasActiveServerFilters filters \<or> truthy (jprop filters ''starredOnly'')"

definition run_only_defaults :: jsobj where
  "run_only_defaults = [(''commandRoot'', JStr []), (''signal'', JStr ''all''), (''kind'', JStr ''all''), (''entity'', JStr []),
     (''entityType'', JStr ''all''), (''exitCode'', JStr ''all''), (''starredOnly'', JBool False)]"

definition resetRunOnlyFilters :: "jsval \<Rightarrow> jsobj" where
  "resetRunOnlyFilters filters = obj_assign (obj_assign [] (obj_entries filters)) run_only_defaults"

definition labelForType :: "string \<Rightarrow> string" where
  "labelForType type =
     (if type = ''runs'' then ''runs'' else if type = ''runs_builtin'' then ''built-in runs''
      else if type = ''runs_external'' then ''external runs'' else if type = ''snapshots'' then ''snapshots''
      else ''history items'')"

definition summaryLabel :: "string \<Rightarrow> jsval \<Rightarrow> string" where
  "summaryLabel type totalCount =
     (let singular = (totalCount = JInt 1) in
      if type = ''runs'' then (if singular then ''stored run'' else ''stored runs'')
      else if type = ''runs_builtin'' then (if singular then ''built-in run'' else ''built-in runs'')
      else if type = ''runs_external'' then (if singular then ''external run'' else ''external runs'')
      else if type = ''snapshots'' then (if singular then ''stored snapshot'' else ''stored snapshots'')
      else (if singular then ''stored item'' else ''stored items''))"

definition command_root_of :: "jsval \<Rightarrow> string" where
  "command_root_of run =
     (if is_str run then trim (to_str run)
      else if truthy run \<and> is_str (jprop run ''command'')
      then (case ws_words (to_str (jprop run ''command'')) of [] \<Rightarrow> [] | w # _ \<Rightarrow> w) else [])"

definition commandRootsFromRuns :: "(string \<Rightarrow> string \<Rightarrow> int) \<Rightarrow> jsval \<Rightarrow> string list" where
  "commandRootsFromRuns lc runs = js_sort lc (dedup (filter nonempty (map command_root_of (arr_items runs))))"

text \<open>\<open>Math.max(0, Number(limit) || 0)\<close> as the end of a slice.\<close>

definition slice_limit :: "rat \<Rightarrow> jnum \<Rightarrow> nat \<Rightarrow> nat" where
  "slice_limit low n len = (case n of
       Fin r \<Rightarrow> nat \<lfloor>max low r\<rfloor> | Infinity pos \<Rightarrow> if pos then len else nat \<lfloor>low\<rfloor> | NaN \<Rightarrow> nat \<lfloor>low\<rfloor>)"

definition rootMatches :: "jsval \<Rightarrow> jsval \<Rightarrow> jsval \<Rightarrow> jsval list" where
  "rootMatches suggestions query limit =
     (let value = toLowerCase (normalizeFilterValue query) in
      if value = [] then []
      else let hits = filter (\<lambda>r. startsWith (toLowerCase (str_or r [])) value) (arr_items suggestions)
           in take (slice_limit 0 (to_num limit) (length hits)) hits)"

definition filter_item :: "bool \<Rightarrow> string \<Rightarrow> string \<Rightarrow> (string \<times> string) list" where
  "filter_item shown key label = (if shown then [(key, label)] else [])"

definition exit_filter_label :: "jsval \<Rightarrow> (string \<times> string) list" where
  "exit_filter_label exitCode =
     (if exitCode = JStr ''0'' then [(''exitCode'', ''exit: 0'')]
      else if exitCode = JStr ''nonzero'' then [(''exitCode'', ''exit: failed'')]
      else if exitCode = JStr ''-15'' then [(''exitCode'', ''exit: terminated'')]
      else if exitCode = JStr ''incomplete'' then [(''exitCode'', ''exit: incomplete'')] else [])"

definition activeFilterItems :: "jsval \<Rightarrow> (string \<times> string) list" where
  "activeFilterItems state =
     (let type = filter_or_all state ''type''; dateRange = filter_or_all state ''dateRange'' in
      filter_item (type \<noteq> JStr ''all'') ''type'' (''type: '' @ labelForType (to_str type))
      @ filter_item (filter_given state ''q'') ''q'' (''search: '' @ to_str (jprop state ''q''))
      @ filter_item (filter_given state ''commandRoot'') ''commandRoot'' (''command: '' @ to_str (jprop state ''commandRoot''))
      @ filter_item (filter_chosen state ''signal'') ''signal'' (''signal: '' @ to_str (jprop state ''signal''))
      @ filter_item (filter_chosen state ''kind'') ''kind'' (''kind: '' @ to_str (jprop state ''kind''))
      @ filter_item (filter_given state ''entity'') ''entity'' (''entity: '' @ to_str (jprop state ''entity''))
      @ filter_item (filter_chosen state ''entityType'') ''entityType'' (''entity_type: '' @ to_str (jprop state ''entityType''))
      @ exit_filter_label (filter_or_all state ''exitCode'')
      @ filter_item (dateRange \<noteq> JStr ''all'') ''dateRange'' (''date: '' @ to_str dateRange)
      @ filter_item (filter_chosen state ''projectId'') ''projectId''
          (''project: '' @ to_str (js_or (jprop state ''projectLabel'') (jprop state ''projectId'')))
      @ filter_item (truthy (jprop state ''starredOnly'')) ''starredOnly'' ''starred'')"

section \<open>Request URLs\<close>

definition set_if :: "bool \<Rightarrow> string \<Rightarrow> string \<Rightarrow> params \<Rightarrow> params" where
  "set_if shown k v ps = (if shown then params_set ps k v else ps)"

definition filter_params :: "jsval \<Rightarrow> params \<Rightarrow> params" where
  "filter_params state ps =
     (let type = filter_or_all state ''type''; exitCode = filter_or_all state ''exitCode'';
          dateRange = filter_or_all state ''dateRange'';
          p1 = set_if (type \<noteq> JStr ''all'') ''type'' (to_str type) ps;
          p2 = set_if (filter_given state ''q'') ''q'' (to_str (jprop state ''q'')) p1;
          p3 = set_if (filter_given state ''commandRoot'') ''command_root'' (to_str (jprop state ''commandRoot'')) p2;
          p4 = set_if (filter_chosen state ''signal'') ''signal'' (to_str (jprop state ''signal'')) p3;
          p5 = set_if (filter_chosen state ''kind'') ''kind'' (to_str (jprop state ''kind'')) p4;
          p6 = set_if (filter_given state ''entity'') ''entity'' (to_str (jprop state ''entity'')) p5;
          p7 = set_if (filter_chosen state ''entityType'') ''entity_type'' (to_str (jprop state ''entityType'')) p6;
          p8 = set_if (exitCode \<noteq> JStr ''all'') ''exit_code'' (to_str exitCode) p7;
          p9 = set_if (dateRange \<noteq> JStr ''all'') ''date_range'' (to_str dateRange) p8;
          p10 = set_if (filter_chosen state ''projectId'') ''project_id'' (to_str (jprop state ''projectId'')) p9
      in set_if (truthy (jprop state ''starredOnly'')) ''starred_only'' ''1'' p10)"

definition request_params :: "jsval \<Rightarrow> jsval \<Rightarrow> params" where
  "request_params state pageState =
     filter_params state
       (params_set (params_set (params_set [] ''page'' (to_str (js_or (jprop pageState ''page'') (JInt 1))))
          ''page_size'' (to_str (js_or (jprop pageState ''pageSize'') (JInt 1)))) ''include_total'' ''1'')"

definition with_query :: "string \<Rightarrow> string \<Rightarrow> string" where
  "with_query base query = (if query \<noteq> [] then base @ ''?'' @ query else base)"

definition buildRequestUrl :: "jsval \<Rightarrow> jsval \<Rightarrow> string" where
  "buildRequestUrl state paging = with_query ''/history'' (params_str (request_params state paging))"

record delete_context =
  deleteUrl :: string
  previewUrl :: string
  filtered :: bool

text \<open>The query of a URL path, as \<open>new URL(path, base).searchParams\<close> reads it.\<close>

definition url_query :: "string \<Rightarrow> params" where
  "url_query url = parse_params (drop 1 (dropWhile (\<lambda>c. c \<noteq> CHR ''?'') url))"

definition buildDeleteContext :: "jsval \<Rightarrow> delete_context" where
  "buildDeleteContext state =
     (let ps = url_query (buildRequestUrl state (JObj [(''page'', JInt 1), (''pageSize'', JInt 1)]));
          query = params_str (params_delete (params_delete (params_delete ps ''page'') ''page_size'') ''include_total'')
      in \<lparr>deleteUrl = with_query ''/history'' query, previewUrl = with_query ''/history/delete-preview'' query,
          filtered = hasAnyFilters state\<rparr>)"

section \<open>Command recall\<close>

definition historyLimit :: "jsval \<Rightarrow> nat \<Rightarrow> nat" where
  "historyLimit appConfig len =
     (case to_num (jprop appConfig ''recent_commands_limit'') of
        Fin r \<Rightarrow> if r = 0 then 50 else nat \<lfloor>max 1 r\<rfloor>
      | Infinity pos \<Rightarrow> if pos then len else 1
      | NaN \<Rightarrow> 50)"

definition recall_limit :: "jsval \<Rightarrow> nat \<Rightarrow> nat" where
  "recall_limit limit len =
     (case to_num limit of
        Fin r \<Rightarrow> if r = 0 then 50 else nat \<lfloor>max 1 r\<rfloor>
      | Infinity pos \<Rightarrow> if pos then len else 1
      | NaN \<Rightarrow> 50)"

definition commandRecallHistory :: "jsval \<Rightarrow> jsval \<Rightarrow> jsval \<Rightarrow> string list" where
  "commandRecallHistory tab globalHistory limit =
     (let local = arr_items (jprop tab ''commandHistory'');
          cmds = map (\<lambda>c. str_or c []) (local @ arr_items globalHistory);
          kept = dedup (filter nonempty cmds)
      in take (recall_limit limit (length kept)) kept)"

section \<open>Exit codes\<close>

definition graceful_termination_exit_codes :: "rat list" where
  "graceful_termination_exit_codes = [- 15]"

definition exitCodeNumber :: "jsval \<Rightarrow> rat option" where
  "exitCodeNumber exitCode =
     (if exitCode = JNull \<or> exitCode = JUndef \<or> exitCode = JStr [] then None
      else case to_num exitCode of Fin r \<Rightarrow> Some r | _ \<Rightarrow> None)"

definition isGracefulTerminationExitCode :: "jsval \<Rightarrow> bool" where
  "isGracefulTerminationExitCode exitCode \<longleftrightarrow>
     (case exitCodeNumber exitCode of None \<Rightarrow> False | Some c \<Rightarrow> c \<in> set graceful_termination_exit_codes)"

definition isFailedExitCode :: "jsval \<Rightarrow> bool" where
  "isFailedExitCode exitCode \<longleftrightarrow>
     (case exitCodeNumber exitCode of None \<Rightarrow> False | Some c \<Rightarrow> c \<noteq> 0 \<and> c \<notin> set graceful_termination_exit_codes)"

definition exitLabel :: "string \<Rightarrow> jsval \<Rightarrow> string" where
  "exitLabel dash exitCode = (case exitCodeNumber exitCode of
       None \<Rightarrow> ''exit '' @ dash
     | Some c \<Rightarrow> if isGracefulTerminationExitCode (JNum (Fin c)) then ''terminated'' else ''exit '' @ rat_str c)"

definition exitClass :: "jsval \<Rightarrow> string" where
  "exitClass exitCode = (case exitCodeNumber exitCode of
       None \<Rightarrow> ''exit-neutral''
     | Some c \<Rightarrow> if c = 0 then ''exit-ok'' else if isFailedExitCode (JNum (Fin c)) then ''exit-fail'' else ''exit-neutral'')"

section \<open>Times\<close>

definition relativeTime :: "string \<Rightarrow> rat option \<Rightarrow> rat \<Rightarrow> string" where
  "relativeTime dateLabel startedAt now = (case startedAt of
       None \<Rightarrow> []
     | Some t \<Rightarrow>
         let diffSec = round_num ((now - t) / 1000) in
         if diffSec < 45 then ''just now''
         else if diffSec < 3600 then int_str (round_num (of_int diffSec / 60)) @ ''m ago''
         else if diffSec < 86400 then int_str (round_num (of_int diffSec / 3600)) @ ''h ago''
         else if diffSec < 604800 then int_str (round_num (of_int diffSec / 86400)) @ ''d ago''
         else dateLabel)"

definition elapsedSeconds :: "(jsval \<Rightarrow> rat option) \<Rightarrow> jsval \<Rightarrow> jnum option" where
  "elapsedSeconds date_ms run =
     (case to_num (js_nullish (jprop run ''elapsed_seconds'') (jprop run ''duration_seconds'')) of
        Fin r \<Rightarrow> if r \<ge> 0 then Some (Fin r)
          else (case (date_ms (jprop run ''started''), date_ms (jprop run ''finished'')) of
                  (Some a, Some b) \<Rightarrow> Some (Fin (max 0 ((b - a) / 1000))) | _ \<Rightarrow> None)
      | _ \<Rightarrow> (case (date_ms (jprop run ''started''), date_ms (jprop run ''finished'')) of
                  (Some a, Some b) \<Rightarrow> Some (Fin (max 0 ((b - a) / 1000))) | _ \<Rightarrow> None))"

definition rat_mod :: "rat \<Rightarrow> rat \<Rightarrow> rat" where
  "rat_mod a b = a - b * of_int \<lfloor>a / b\<rfloor>"

definition duration_label :: "rat \<Rightarrow> string" where
  "duration_label secs =
     (if secs \<ge> 3600 then
        (let hours = \<lfloor>secs / 3600\<rfloor>; minutes = \<lfloor>rat_mod secs 3600 / 60\<rfloor> in
         if minutes \<noteq> 0 then int_str hours @ ''h '' @ int_str minutes @ ''m'' else int_str hours @ ''h'')
      else if secs \<ge> 60 then
        (let minutes = \<lfloor>secs / 60\<rfloor>; seconds = round_num (rat_mod secs 60) in
         if seconds \<noteq> 0 then int_str minutes @ ''m '' @ int_str seconds @ ''s'' else int_str minutes @ ''m'')
      else toFixed (if secs \<ge> 10 then 0 else 1) secs @ ''s'')"

definition elapsedLabel :: "(jsval \<Rightarrow> rat option) \<Rightarrow> jsval \<Rightarrow> string" where
  "elapsedLabel date_ms run = (case elapsedSeconds date_ms run of Some (Fin t) \<Rightarrow> duration_label t | _ \<Rightarrow> [])"

definition compareFormatDuration :: "jsval \<Rightarrow> string" where
  "compareFormatDuration seconds =
     (if seconds = JNull \<or> seconds = JUndef then ''n/a''
      else case to_num seconds of
        NaN \<Rightarrow> ''n/a''
      | Infinity pos \<Rightarrow> if pos then ''Infinitym NaNs'' else ''-Infinityms''
      | Fin value \<Rightarrow>
          if value < 1 then int_str (round_num (value * 1000)) @ ''ms''
          else if value < 60 then toFixed (if value < 10 then 1 else 0) value @ ''s''
          else int_str \<lfloor>value / 60\<rfloor> @ ''m '' @ int_str (round_num (rat_mod value 60)) @ ''s'')"

definition compareFormatDelta :: "jsval \<Rightarrow> string \<Rightarrow> string" where
  "compareFormatDelta value sfx = (case to_num value of
       Fin r \<Rightarrow> if r = 0 then ''0'' @ sfx else (if r > 0 then ''+'' else []) @ rat_str r @ sfx
     | _ \<Rightarrow> ''0'' @ sfx)"

section \<open>The delete request and the list request\<close>

lemma set_if_fresh: "k \<notin> fst ` set ps \<Longrightarrow> set_if b k v ps = ps @ filter_item b k v"
  by (simp add: set_if_def filter_item_def params_set_fresh)

lemma filter_item_key [simp]: "x \<in> fst ` set (filter_item b k v) \<longleftrightarrow> b \<and> x = k"
  by (auto simp: filter_item_def)

lemma filter_item_Nil [simp]: "filter_item b k v = [] \<longleftrightarrow> \<not> b"
  by (simp add: filter_item_def)

text \<open>
  The optional parameters as a list: the key, the value and whether it is present. Setting them one
  after the other appends the present ones, when no key is repeated.
\<close>

definition filter_fields :: "jsval \<Rightarrow> (bool \<times> string \<times> string) list" where
  "filter_fields state =
     [(filter_or_all state ''type'' \<noteq> JStr ''all'', ''type'', to_str (filter_or_all state ''type'')),
      (filter_given state ''q'', ''q'', to_str (jprop state ''q'')),
      (filter_given state ''commandRoot'', ''command_root'', to_str (jprop state ''commandRoot'')),
      (filter_chosen state ''signal'', ''signal'', to_str (jprop state ''signal'')),
      (filter_chosen state ''kind'', ''kind'', to_str (jprop state ''kind'')),
      (filter_given state ''entity'', ''entity'', to_str (jprop state ''entity'')),
      (filter_chosen state ''entityType'', ''entity_type'', to_str (jprop state ''entityType'')),
      (filter_or_all state ''exitCode'' \<noteq> JStr ''all'', ''exit_code'', to_str (filter_or_all state ''exitCode'')),
      (filter_or_all state ''dateRange'' \<noteq> JStr ''all'', ''date_range'', to_str (filter_or_all state ''dateRange'')),
      (filter_chosen state ''projectId'', ''project_id'', to_str (jprop state ''projectId'')),
      (truthy (jprop state ''starredOnly''), ''starred_only'', ''1'')]"

definition filter_query :: "jsval \<Rightarrow> params" where
  "filter_query state = concat (map (\<lambda>(b, k, v). filter_item b k v) (filter_fields state))"

lemma foldl_set_if:
  "distinct (map (fst \<circ> snd) xs) \<Longrightarrow> fst ` set ps \<inter> set (map (fst \<circ> snd) xs) = {} \<Longrightarrow>
     foldl (\<lambda>ps (b, k, v). set_if b k v ps) ps xs = ps @ concat (map (\<lambda>(b, k, v). filter_item b k v) xs)"
proof (induction xs arbitrary: ps)
  case (Cons x xs)
  obtain b k v where x: "x = (b, k, v)" by (cases x)
  have "fst ` set (ps @ filter_item b k v) \<subseteq> insert k (fst ` set ps)" by (auto simp: filter_item_def)
  moreover have "insert k (fst ` set ps) \<inter> set (map (fst \<circ> snd) xs) = {}"
    using Cons.prems unfolding x list.map o_apply fst_conv snd_conv distinct.simps by auto
  ultimately have "fst ` set (ps @ filter_item b k v) \<inter> set (map (fst \<circ> snd) xs) = {}" by blast
  moreover have "set_if b k v ps = ps @ filter_item b k v"
    using Cons.prems(2) by (intro set_if_fresh) (auto simp: x)
  ultimately show ?case using Cons.IH Cons.prems(1) by (simp add: x)
qed simp

lemma filter_params_foldl: "filter_params state ps = foldl (\<lambda>ps (b, k, v). set_if b k v ps) ps (filter_fields state)"
  unfolding filter_params_def filter_fields_def Let_def foldl.simps prod.case by (rule refl)

lemma filter_query_Nil: "filter_query state = [] \<longleftrightarrow> \<not> hasAnyFilters state"
  unfolding filter_query_def filter_fields_def hasAnyFilters_def hasActiveServerFilters_def list.map concat.simps prod.case
    append_is_Nil_conv filter_item_Nil by argo

lemma filter_field_keys:
  "map (fst \<circ> snd) (filter_fields state) = [''type'', ''q'', ''command_root'', ''signal'', ''kind'', ''entity'', ''entity_type'',
     ''exit_code'', ''date_range'', ''project_id'', ''starred_only'']"
  by (simp only: filter_fields_def list.map o_apply fst_conv snd_conv)

definition paging_keys :: "string list" where
  "paging_keys = [''page'', ''page_size'', ''include_total'']"

lemma filter_fields_distinct:
  "distinct (map (fst \<circ> snd) (filter_fields state))" "set paging_keys \<inter> set (map (fst \<circ> snd) (filter_fields state)) = {}"
  unfolding filter_field_keys paging_keys_def by simp_all

lemma filter_params_append:
  assumes "fst ` set ps \<subseteq> set paging_keys"
  shows "filter_params state ps = ps @ filter_query state"
proof -
  have "fst ` set ps \<inter> set (map (fst \<circ> snd) (filter_fields state)) = {}"
    using assms filter_fields_distinct(2) by blast
  then show ?thesis unfolding filter_params_foldl filter_query_def by (intro foldl_set_if filter_fields_distinct(1))
qed

lemma filter_query_keys: "fst ` set (filter_query state) \<subseteq> set (map (fst \<circ> snd) (filter_fields state))"
  unfolding filter_query_def by (force simp: filter_item_def split: if_splits)

lemma filter_query_delete: "k \<in> set paging_keys \<Longrightarrow> params_delete (filter_query state) k = filter_query state"
  using filter_query_keys [of state] filter_fields_distinct(2) [of state] unfolding params_delete_def
  by (intro filter_True) force

definition paging_query :: "jsval \<Rightarrow> params" where
  "paging_query pageState =
     [(''page'', to_str (js_or (jprop pageState ''page'') (JInt 1))),
      (''page_size'', to_str (js_or (jprop pageState ''pageSize'') (JInt 1))), (''include_total'', ''1'')]"

lemma request_params_eq: "request_params state paging = paging_query paging @ filter_query state"
  unfolding request_params_def paging_query_def by (simp add: filter_params_append paging_keys_def)

lemma url_query_with: "CHR ''?'' \<notin> set base \<Longrightarrow> url_query (with_query base (params_str ps)) = ps"
proof -
  assume "CHR ''?'' \<notin> set base"
  then have d: "dropWhile (\<lambda>c. c \<noteq> CHR ''?'') base = []" "\<And>t. dropWhile (\<lambda>c. c \<noteq> CHR ''?'') (base @ CHR ''?'' # t) = CHR ''?'' # t"
    by (induction base) auto
  show ?thesis
    using search_params.pars_ser [of ps] search_params.pars_ser [of "[]"]
    by (cases "ps = []") (simp_all add: url_query_def with_query_def params_str_Nil d, simp add: params_str_def)
qed

lemma url_query_request: "url_query (buildRequestUrl state paging) = paging_query paging @ filter_query state"
  by (simp add: buildRequestUrl_def url_query_with request_params_eq)

lemma delete_paging_query:
  "params_delete (params_delete (params_delete (paging_query paging @ filter_query state) ''page'') ''page_size'') ''include_total''
     = filter_query state"
proof -
  have "params_delete (ps @ qs) k = params_delete ps k @ params_delete qs k" for ps qs k by (simp add: params_delete_def)
  then show ?thesis
    by (simp add: filter_query_delete paging_keys_def) (simp add: paging_query_def params_delete_def)
qed

text \<open>
  The requests that list the history and that delete it select the same items: reading the
  query of the delete URL, and of the preview URL, gives exactly the parameters of the list request
  without its three paging parameters; and the context is marked as filtered if and only if the delete
  URL carries any restriction at all, so an unmarked context is the one that deletes everything.
\<close>

theorem delete_matches_list:
  "url_query (buildRequestUrl state paging) = paging_query paging @ url_query (deleteUrl (buildDeleteContext state))
   \<and> url_query (previewUrl (buildDeleteContext state)) = url_query (deleteUrl (buildDeleteContext state))
   \<and> (filtered (buildDeleteContext state) \<longleftrightarrow> deleteUrl (buildDeleteContext state) \<noteq> ''/history'')"
proof -
  have d: "buildDeleteContext state =
      \<lparr>deleteUrl = with_query ''/history'' (params_str (filter_query state)),
       previewUrl = with_query ''/history/delete-preview'' (params_str (filter_query state)), filtered = hasAnyFilters state\<rparr>"
    unfolding buildDeleteContext_def url_query_request delete_paging_query Let_def by (rule refl)
  have "with_query ''/history'' (params_str (filter_query state)) \<noteq> ''/history'' \<longleftrightarrow> hasAnyFilters state"
    using filter_query_Nil [of state] by (auto simp: with_query_def params_str_Nil)
  then show ?thesis unfolding d by (simp add: url_query_request url_query_with)
qed

section \<open>Command recall\<close>

definition recall_pool :: "jsval \<Rightarrow> string list" where
  "recall_pool history = filter nonempty (map (\<lambda>c. str_or c []) (arr_items history))"

lemma dedup_seen_append: "dedup_seen seen (xs @ ys) = dedup_seen seen xs @ dedup_seen (rev (dedup_seen seen xs) @ seen) ys"
  by (induction seen xs rule: dedup_seen.induct) simp_all

lemma commandRecallHistory_eq:
  "commandRecallHistory tab globalHistory limit =
     (let kept = dedup (recall_pool (jprop tab ''commandHistory'') @ recall_pool globalHistory)
      in take (recall_limit limit (length kept)) kept)"
  by (simp add: commandRecallHistory_def recall_pool_def Let_def)

lemma card_dedup: "length (dedup xs) = card (set xs)"
  by (metis distinct_card distinct_dedup set_dedup)

text \<open>
  Command recall never offers a blank or a repeated command; it offers commands of the tab and
  of the global history only, in their order; it offers as many of the different ones as the limit
  allows; and the tab's own commands come before every other command.
\<close>

theorem recall_history:
  "distinct (commandRecallHistory tab globalHistory limit)
   \<and> subseq (commandRecallHistory tab globalHistory limit) (recall_pool (jprop tab ''commandHistory'') @ recall_pool globalHistory)
   \<and> (let n = card (set (recall_pool (jprop tab ''commandHistory'')) \<union> set (recall_pool globalHistory))
      in length (commandRecallHistory tab globalHistory limit) = min n (recall_limit limit n))
   \<and> (prefix (commandRecallHistory tab globalHistory limit) (dedup (recall_pool (jprop tab ''commandHistory'')))
      \<or> prefix (dedup (recall_pool (jprop tab ''commandHistory''))) (commandRecallHistory tab globalHistory limit))"
proof -
  let ?own = "recall_pool (jprop tab ''commandHistory'')" and ?g = "recall_pool globalHistory"
  let ?r = "commandRecallHistory tab globalHistory limit"
  have r: "?r = take (recall_limit limit (card (set ?own \<union> set ?g))) (dedup (?own @ ?g))"
    by (simp add: commandRecallHistory_eq Let_def card_dedup)
  have "prefix ?r (dedup (?own @ ?g))" unfolding r by (rule take_is_prefix)
  moreover have "prefix (dedup ?own) (dedup (?own @ ?g))" by (simp add: dedup_def dedup_seen_append)
  ultimately have "prefix ?r (dedup ?own) \<or> prefix (dedup ?own) ?r" by (rule prefix_same_cases)
  moreover have "subseq ?r (?own @ ?g)"
    unfolding r by (meson subseq_dedup subseq_order.trans take_is_prefix prefix_imp_subseq)
  moreover have "length ?r = min (card (set ?own \<union> set ?g)) (recall_limit limit (card (set ?own \<union> set ?g)))"
    unfolding r by (simp add: card_dedup)
  ultimately show ?thesis unfolding Let_def r by simp
qed

section \<open>Exit codes and durations\<close>

text \<open>
  Every recorded exit code falls in exactly one of three classes: success is zero and only zero
  however the code is written (a number or its decimal string), a failure is any other number but the
  graceful termination -15, and everything else (the graceful termination and every missing or
  unreadable code) is neutral; the failed test agrees with the class.
\<close>

lemma exit_class_trichotomy:
  "(exitClass c = ''exit-ok'' \<longleftrightarrow> exitCodeNumber c = Some 0)
   \<and> (exitClass c = ''exit-fail'' \<longleftrightarrow> isFailedExitCode c)
   \<and> (exitClass c = ''exit-neutral'' \<longleftrightarrow> exitCodeNumber c = None \<or> isGracefulTerminationExitCode c)
   \<and> exitClass (JInt n) = exitClass (JStr (int_str n))"
proof -
  have num: "exitCodeNumber (JNum (Fin r)) = Some r" for r by (simp add: exitCodeNumber_def)
  have "exitCodeNumber (JStr (int_str n)) = Some (of_int n)"
    by (simp add: exitCodeNumber_def)
  then show ?thesis
    by (cases "exitCodeNumber c")
      (simp_all add: exitClass_def isFailedExitCode_def isGracefulTerminationExitCode_def num graceful_termination_exit_codes_def)
qed

lemma duration_sixty_seconds: "duration_label (1196 / 10) = ''1m 60s''"
  by code_simp

end
