(* ===== verification/Autocomplete_Core.thy ===== *)
theory Autocomplete_Core
  imports Utils_Core JS_Sort
begin

text \<open>
  The autocomplete helpers, \<open>app/static/js/core/autocomplete_core.js\<close>: token context, matching and
  ranking, recent target values, display limits, highlighting and the shared prefix. The browser's URL
  parser is a parameter of the two helpers that use it.
\<close>

section \<open>Items\<close>

definition RECENT_VALUE_LIMIT :: nat where
  "RECENT_VALUE_LIMIT = 10"

definition escapeHtmlText :: "jsval \<Rightarrow> string" where
  "escapeHtmlText value =
     replace_char SQ ''&#39;'' (replace_char DQ ''&quot;'' (replace_char CHR ''>'' ''&gt;''
       (replace_char CHR ''<'' ''&lt;'' (replace_char CHR ''&'' ''&amp;'' (to_str (js_nullish value (JStr [])))))))"

definition itemText :: "jsval \<Rightarrow> string" where
  "itemText item =
     (if is_object item then trim (to_str (js_or (jprop item ''label'') (js_or (jprop item ''value'') (JStr []))))
      else trim (str_or item []))"

definition itemInsertValue :: "jsval \<Rightarrow> string" where
  "itemInsertValue item =
     (if is_object item
      then trim (to_str (js_or (jprop item ''insertValue'') (js_or (jprop item ''value'') (js_or (jprop item ''label'') (JStr [])))))
      else trim (str_or item []))"

definition itemInsertText :: "jsval \<Rightarrow> string" where
  "itemInsertText item =
     (if is_object item then
        (if truthy (jprop item ''hintOnly'') then []
         else str_or (js_nullish (jprop item ''insertValue'') (js_nullish (jprop item ''value'') (jprop item ''label''))) [])
      else str_or item [])"

definition itemDescription :: "jsval \<Rightarrow> string" where
  "itemDescription item = (if is_object item then trim (str_or (jprop item ''description'') []) else [])"

definition item_hint :: "jsval \<Rightarrow> bool" where
  "item_hint item \<longleftrightarrow> is_object item \<and> truthy (jprop item ''hintOnly'')"

section \<open>The token at the cursor\<close>

record token =
  tok_value :: string
  tok_start :: nat
  tok_end :: nat

text \<open>\<open>/\S+/g\<close> from a position on.\<close>

function scan_tokens :: "nat \<Rightarrow> string \<Rightarrow> token list" where
  "scan_tokens pos s =
     (case dropWhile is_ws s of
        [] \<Rightarrow> []
      | c # t \<Rightarrow>
          let w = takeWhile (\<lambda>c. \<not> is_ws c) (c # t); b = pos + length (takeWhile is_ws s) in
          \<lparr>tok_value = w, tok_start = b, tok_end = b + length w\<rparr>
            # scan_tokens (b + length w) (dropWhile (\<lambda>c. \<not> is_ws c) (c # t)))"
  by pat_completeness auto
termination
proof (relation "measure (\<lambda>(p, s). length s)")
  fix s c t w b and pos :: nat
  assume "dropWhile is_ws s = c # t"
  then show "((b + length w, dropWhile (\<lambda>c. \<not> is_ws c) (c # t)), pos, s) \<in> measure (\<lambda>(p, s). length s)"
    using length_dropWhile_skip [of "\<lambda>c. \<not> is_ws c" s c t] by simp
qed simp

declare scan_tokens.simps [simp del]

record token_context =
  tc_text :: string
  tc_cursor :: nat
  tc_tokens :: "token list"
  tc_currentToken :: string
  tc_tokenStart :: nat
  tc_tokenEnd :: nat
  tc_previousToken :: "string option"
  tc_commandRoot :: string
  tc_atWhitespace :: bool

definition clamp_cursor :: "int option \<Rightarrow> nat \<Rightarrow> nat" where
  "clamp_cursor cursorPos n = (case cursorPos of None \<Rightarrow> n | Some c \<Rightarrow> nat (max 0 (min c (int n))))"

definition tokenContextFromText :: "jsval \<Rightarrow> int option \<Rightarrow> nat \<Rightarrow> token_context" where
  "tokenContextFromText value cursorPos offset =
     (let text = str_or value [];
          cursor = clamp_cursor cursorPos (length text);
          tokens = scan_tokens 0 text;
          containing = (case find (\<lambda>t. tok_start t < cursor \<and> cursor \<le> tok_end t) tokens of
              Some t \<Rightarrow> Some t
            | None \<Rightarrow> find (\<lambda>t. cursor = tok_start t \<and> cursor = tok_end t) tokens);
          tokenStart = (case containing of None \<Rightarrow> cursor | Some t \<Rightarrow> tok_start t);
          tokenEnd = (case containing of None \<Rightarrow> cursor | Some t \<Rightarrow> tok_end t);
          before = filter (\<lambda>t. tok_end t \<le> tokenStart) tokens
      in \<lparr>tc_text = text, tc_cursor = cursor, tc_tokens = tokens,
          tc_currentToken = (case containing of None \<Rightarrow> [] | Some t \<Rightarrow> tok_value t),
          tc_tokenStart = tokenStart + offset, tc_tokenEnd = tokenEnd + offset,
          tc_previousToken = (if before = [] then None else Some (tok_value (last before))),
          tc_commandRoot = (case tokens of [] \<Rightarrow> [] | t # _ \<Rightarrow> toLowerCase (tok_value t)),
          tc_atWhitespace = (containing = None)\<rparr>)"

record completion_item =
  ci_value :: string
  ci_label :: string
  ci_description :: string
  ci_replaceStart :: nat
  ci_replaceEnd :: nat
  ci_insertValue :: string
  ci_hintOnly :: bool

definition buildItem :: "string \<Rightarrow> string \<Rightarrow> nat \<Rightarrow> nat \<Rightarrow> string option \<Rightarrow> string option \<Rightarrow> jsval \<Rightarrow> completion_item" where
  "buildItem value description replaceStart replaceEnd insertValue label hintOnly =
     (let resolved = truthy hintOnly in
      \<lparr>ci_value = value, ci_label = (case label of Some l \<Rightarrow> if l = [] then value else l | None \<Rightarrow> value),
       ci_description = description, ci_replaceStart = replaceStart, ci_replaceEnd = replaceEnd,
       ci_insertValue = (if resolved then [] else case insertValue of Some v \<Rightarrow> v | None \<Rightarrow> value),
       ci_hintOnly = resolved\<rparr>)"

section \<open>Matching\<close>

definition searchFields :: "jsval \<Rightarrow> string list" where
  "searchFields item = dedup (filter nonempty (map trim [itemInsertValue item, itemText item]))"

definition segment_char :: "char \<Rightarrow> bool" where
  "segment_char c \<longleftrightarrow> is_ws c \<or> c \<in> set ''/._:@=-'' \<or> c = BSL"

definition starts_segment :: "string \<Rightarrow> nat \<Rightarrow> bool" where
  "starts_segment text i \<longleftrightarrow>
     segment_char (text ! (i - 1)) \<or> ((is_lower (text ! (i - 1)) \<or> is_digit (text ! (i - 1))) \<and> is_upper (text ! i))"

text \<open>
  The loop over \<open>indexOf(q, index + 1)\<close> visits the occurrences of \<open>q\<close> from position 1 on, in order; both
  tests of a position are inside the text, as \<open>q\<close> is not empty.
\<close>

definition boundaryIndex :: "string \<Rightarrow> string \<Rightarrow> nat option" where
  "boundaryIndex text query =
     (let q = toLowerCase query; lower = toLowerCase text in
      if text = [] \<or> q = [] then None
      else find (\<lambda>i. startsWith (drop i lower) q \<and> starts_segment text i) [1..<length text])"

fun orderedFuzzy :: "string \<Rightarrow> string \<Rightarrow> nat \<Rightarrow> nat option \<Rightarrow> nat list option" where
  "orderedFuzzy lower [] from prev = Some []"
| "orderedFuzzy lower (c # q) from prev =
     (case indexOf_from lower [c] from of
        None \<Rightarrow> None
      | Some found \<Rightarrow>
          if (case prev of None \<Rightarrow> False | Some p \<Rightarrow> found - p > 2) then None
          else map_option (\<lambda>is. found # is) (orderedFuzzy lower q (Suc found) (Some found)))"

definition orderedFuzzyMatchIndexes :: "string \<Rightarrow> string \<Rightarrow> nat list option" where
  "orderedFuzzyMatchIndexes lower query = orderedFuzzy lower query 0 None"

definition swap_at :: "nat \<Rightarrow> string \<Rightarrow> string" where
  "swap_at i q = take i q @ [q ! Suc i, q ! i] @ drop (i + 2) q"

definition first_some :: "('a \<Rightarrow> 'b option) \<Rightarrow> 'a list \<Rightarrow> 'b option" where
  "first_some f xs = (case filter (\<lambda>x. f x \<noteq> None) xs of [] \<Rightarrow> None | x # _ \<Rightarrow> f x)"

definition fuzzyMatchIndexes :: "string \<Rightarrow> string \<Rightarrow> nat list option" where
  "fuzzyMatchIndexes text query =
     (let q = toLowerCase query; lower = toLowerCase text in
      if text = [] \<or> length q < 2 then None
      else case orderedFuzzyMatchIndexes lower q of
        Some is \<Rightarrow> Some is
      | None \<Rightarrow> first_some (\<lambda>i. orderedFuzzyMatchIndexes lower (swap_at i q))
          (filter (\<lambda>i. q ! i \<noteq> q ! Suc i) [0..<length q - 1]))"

definition length_penalty :: "string \<Rightarrow> string \<Rightarrow> rat" where
  "length_penalty text q = of_nat (length text - length q) / 100"

definition scoreField :: "string \<Rightarrow> string \<Rightarrow> rat option" where
  "scoreField value query =
     (let text = trim value; lower = toLowerCase text; q = toLowerCase query in
      if text = [] \<or> q = [] then None
      else if lower = q then Some 0
      else if startsWith lower q then Some 100
      else case boundaryIndex text q of
        Some i \<Rightarrow> Some (200 + of_nat i + length_penalty text q)
      | None \<Rightarrow> (case indexOf lower q of
          Some i \<Rightarrow> Some (300 + of_nat i + length_penalty text q)
        | None \<Rightarrow> (case fuzzyMatchIndexes text q of
            None \<Rightarrow> None
          | Some is \<Rightarrow>
              let first = hd is; span = last is - first + 1; gapPenalty = span - length q in
              Some (400 + of_nat first + of_nat (gapPenalty * 2) + length_penalty text q))))"

record scored =
  sc_item :: jsval
  sc_score :: rat
  sc_index :: nat

definition scoreItem :: "jsval \<Rightarrow> string \<Rightarrow> nat \<Rightarrow> scored option" where
  "scoreItem item query originalIndex =
     (let q = toLowerCase (trim query) in
      if q = [] then Some \<lparr>sc_item = item, sc_score = of_nat originalIndex, sc_index = originalIndex\<rparr>
      else let fieldScores = List.map_filter (\<lambda>(fieldIndex, field). map_option (\<lambda>s. s + of_nat fieldIndex / 2) (scoreField field q))
                 (enumerate 0 (searchFields item))
           in case fieldScores of
             [] \<Rightarrow> None
           | s # ss \<Rightarrow> Some \<lparr>sc_item = item, sc_score = foldl min s ss, sc_index = originalIndex\<rparr>)"

definition cmp_scored :: "scored \<Rightarrow> scored \<Rightarrow> int" where
  "cmp_scored l r = cmp_then (cmp_num (Fin (sc_score l)) (Fin (sc_score r))) (int (sc_index l) - int (sc_index r))"

definition filterItems :: "jsval list \<Rightarrow> string \<Rightarrow> jsval list" where
  "filterItems items query =
     (let q = toLowerCase (trim query) in
      if q = [] then items
      else let hintOnly = filter item_hint items; concrete = filter (\<lambda>i. \<not> item_hint i) items
           in map sc_item (js_sort cmp_scored
                (List.map_filter (\<lambda>(index, item). scoreItem item q index) (enumerate 0 concrete))) @ hintOnly)"

section \<open>Recent targets\<close>

definition strip_final_dot :: "string \<Rightarrow> string" where
  "strip_final_dot s = (if s \<noteq> [] \<and> last s = CHR ''.'' then butlast s else s)"

definition domain_char :: "char \<Rightarrow> bool" where
  "domain_char c \<longleftrightarrow> is_lower c \<or> is_digit c \<or> c = CHR ''-''"

text \<open>\<open>/^[a-z0-9](?:[a-z0-9-]*[a-z0-9])?$/\<close> with the length test.\<close>

definition domain_label :: "string \<Rightarrow> bool" where
  "domain_label l \<longleftrightarrow> 1 \<le> length l \<and> length l \<le> 63 \<and> list_all domain_char l \<and> hd l \<noteq> CHR ''-'' \<and> last l \<noteq> CHR ''-''"

definition all_digits :: "string \<Rightarrow> bool" where
  "all_digits s \<longleftrightarrow> s \<noteq> [] \<and> list_all is_digit s"

definition isDomainValue :: "string \<Rightarrow> bool" where
  "isDomainValue value \<longleftrightarrow>
     (let text = strip_final_dot (toLowerCase (trim value)); labels = split_on CHR ''.'' text in
      text \<noteq> [] \<and> length text \<le> 253 \<and> CHR ''/'' \<notin> set text \<and> CHR '':'' \<notin> set text \<and> CHR ''@'' \<notin> set text
      \<and> CHR ''.'' \<in> set text \<and> \<not> list_all all_digits labels \<and> 2 \<le> length labels \<and> list_all domain_label labels)"

text \<open>\<open>/^\d{1,3}(?:\.\d{1,3}){3}$/\<close> and the octet test.\<close>

definition short_digits :: "string \<Rightarrow> bool" where
  "short_digits p \<longleftrightarrow> all_digits p \<and> length p \<le> 3"

definition octet :: "string \<Rightarrow> bool" where
  "octet p \<longleftrightarrow> (case parse_int p of
       Fin r \<Rightarrow> of_int \<lfloor>r\<rfloor> = r \<and> 0 \<le> r \<and> r \<le> 255 \<and> num_str (Fin r) = p
     | _ \<Rightarrow> False)"

definition isIPv4Address :: "string \<Rightarrow> bool" where
  "isIPv4Address value \<longleftrightarrow>
     (let parts = split_on CHR ''.'' (trim value) in length parts = 4 \<and> list_all short_digits parts \<and> list_all octet parts)"

text \<open>The parts of a parsed URL the helpers use; \<open>new URL(s)\<close> throws as \<^const>\<open>None\<close>.\<close>

record url_parts =
  protocol :: string
  username :: string
  password :: string
  hostname :: string
  port :: string
  pathname :: string
  search :: string
  hash :: string

record url_api =
  parse_url :: "string \<Rightarrow> url_parts option"
  set_hostname :: "string \<Rightarrow> url_parts \<Rightarrow> url_parts"
  url_str :: "url_parts \<Rightarrow> string"

definition isIPv6Address :: "url_api \<Rightarrow> string \<Rightarrow> bool" where
  "isIPv6Address api value \<longleftrightarrow>
     (let text = trim value in
      text \<noteq> [] \<and> CHR '':'' \<in> set text \<and> \<not> list_ex (\<lambda>c. is_ws c \<or> c = CHR ''/'') text
      \<and> (case parse_url api (''http://['' @ text @ '']'') of None \<Rightarrow> False | Some u \<Rightarrow> hostname u \<noteq> []))"

definition normalizeRecentDomain :: "string \<Rightarrow> string" where
  "normalizeRecentDomain value =
     (let text = strip_final_dot (toLowerCase (trim value)) in if isDomainValue text then text else [])"

definition strip_brackets :: "string \<Rightarrow> string" where
  "strip_brackets s =
     (let t = (if s \<noteq> [] \<and> hd s = CHR ''['' then tl s else s) in
      if t \<noteq> [] \<and> last t = CHR '']'' then butlast t else t)"

definition normalizeRecentIp :: "url_api \<Rightarrow> string \<Rightarrow> string" where
  "normalizeRecentIp api value =
     (let text = toLowerCase (trim value) in
      if isIPv4Address text then text
      else if \<not> isIPv6Address api text then []
      else case parse_url api (''http://['' @ text @ '']'') of
        None \<Rightarrow> []
      | Some u \<Rightarrow> toLowerCase (strip_brackets (hostname u)))"

definition normalizeRecentUrl :: "url_api \<Rightarrow> string \<Rightarrow> string" where
  "normalizeRecentUrl api value =
     (let text = trim value in
      if text = [] \<or> list_ex is_ws text then []
      else case parse_url api text of
        None \<Rightarrow> []
      | Some parsed \<Rightarrow>
          if protocol parsed \<notin> {''http:'', ''https:''} \<or> username parsed \<noteq> [] \<or> password parsed \<noteq> [] \<or> hostname parsed = [] then []
          else url_str api ((set_hostname api (strip_final_dot (toLowerCase (hostname parsed)))
                 (parsed\<lparr>protocol := toLowerCase (protocol parsed)\<rparr>))\<lparr>search := [], hash := []\<rparr>))"

text \<open>
  \<open>/^\s*(\d{1,5})(?:\s*-\s*(\d{1,5}))?\s*$/\<close>: the classes are disjoint, so the greedy match is the only one.
\<close>

definition port_number :: "string \<Rightarrow> (string \<times> string) option" where
  "port_number s =
     (let t = trimStart s; ds = takeWhile is_digit t in
      if ds = [] \<or> length ds > 5 then None else Some (ds, trimStart (dropWhile is_digit t)))"

definition port_range :: "string \<Rightarrow> (nat \<times> nat) option" where
  "port_range part =
     (case port_number part of
        None \<Rightarrow> None
      | Some (ds, rest) \<Rightarrow>
          (case rest of
             [] \<Rightarrow> Some (digits_value 0 ds, digits_value 0 ds)
           | c # t \<Rightarrow>
               if c \<noteq> CHR ''-'' then None
               else (case port_number t of
                   Some (es, []) \<Rightarrow> Some (digits_value 0 ds, digits_value 0 es)
                 | _ \<Rightarrow> None)))"

definition valid_range :: "nat \<times> nat \<Rightarrow> bool" where
  "valid_range r \<longleftrightarrow> 1 \<le> fst r \<and> fst r \<le> 65535 \<and> 1 \<le> snd r \<and> snd r \<le> 65535 \<and> fst r \<le> snd r"

definition range_text :: "nat \<times> nat \<Rightarrow> string" where
  "range_text r = (if fst r = snd r then nat_str (fst r) else nat_str (fst r) @ ''-'' @ nat_str (snd r))"

fun port_parts :: "string list \<Rightarrow> string list \<Rightarrow> string list option" where
  "port_parts [] acc = Some acc"
| "port_parts (part # parts) acc =
     (case port_range part of
        None \<Rightarrow> None
      | Some r \<Rightarrow>
          if \<not> valid_range r then None
          else port_parts parts (if range_text r \<in> set acc then acc else acc @ [range_text r]))"

definition normalizeRecentPortSet :: "string \<Rightarrow> string" where
  "normalizeRecentPortSet value =
     (case port_parts (split_on CHR '','' (trim value)) [] of None \<Rightarrow> [] | Some ps \<Rightarrow> join '','' ps)"

definition normalizeRecentValue :: "url_api \<Rightarrow> jsval \<Rightarrow> jsval \<Rightarrow> string \<times> string" where
  "normalizeRecentValue api kind value =
     (let normalizedKind = toLowerCase (trim (str_or kind [])); text = str_or value [] in
      if normalizedKind = ''domain'' then (''domain'', normalizeRecentDomain text)
      else if normalizedKind = ''ip'' then (''ip'', normalizeRecentIp api text)
      else if normalizedKind = ''url'' then (''url'', normalizeRecentUrl api text)
      else if normalizedKind = ''port_set'' then (''port_set'', normalizeRecentPortSet text)
      else ([], []))"

definition recent_push :: "(string \<times> string) list \<Rightarrow> string \<times> string \<Rightarrow> (string \<times> string) list" where
  "recent_push next kv =
     (if fst kv = [] \<or> snd kv = [] \<or> kv \<in> set next
         \<or> length (filter (\<lambda>e. fst e = fst kv) next) \<ge> RECENT_VALUE_LIMIT
      then next else next @ [kv])"

definition normalizeRecentValueList :: "url_api \<Rightarrow> jsval \<Rightarrow> (string \<times> string) list" where
  "normalizeRecentValueList api items =
     foldl recent_push []
       (map (\<lambda>item. normalizeRecentValue api
               (if is_object item then jprop item ''kind'' else JStr []) (if is_object item then jprop item ''value'' else JStr []))
          (arr_items items))"

definition normalizeWordlistCategories :: "jsval \<Rightarrow> string list" where
  "normalizeWordlistCategories value =
     (if is_arr value then filter nonempty (map (\<lambda>i. toLowerCase (trim (str_or i []))) (arr_items value))
      else let text = toLowerCase (trim (str_or value [])) in if text \<noteq> [] then [text] else [])"

section \<open>Display\<close>

definition limit_visible :: "jsval list \<Rightarrow> nat \<Rightarrow> jsval list" where
  "limit_visible items n =
     (let visible = take n items in
      if list_ex item_hint visible then visible
      else case find item_hint (drop n items) of
        None \<Rightarrow> visible
      | Some hint \<Rightarrow> take (n - 1) visible @ [hint])"

definition limitItemsForDisplay :: "jsval \<Rightarrow> jsval \<Rightarrow> jsval list" where
  "limitItemsForDisplay items maxItems =
     (case to_num maxItems of
        NaN \<Rightarrow> []
      | Infinity pos \<Rightarrow> if pos then arr_items items else []
      | Fin r \<Rightarrow>
          if r \<le> 0 then []
          else if of_nat (length (arr_items items)) \<le> r then arr_items items
          else limit_visible (arr_items items) (nat \<lfloor>r\<rfloor>))"

definition esc :: "string \<Rightarrow> string" where
  "esc s = escapeHtmlText (JStr s)"

definition mark :: "string \<Rightarrow> string" where
  "mark s = ''<span class='' @ [DQ] @ ''ac-match'' @ [DQ] @ ''>'' @ s @ ''</span>''"

definition highlightedLabel :: "string \<Rightarrow> string \<Rightarrow> string" where
  "highlightedLabel text q =
     (if text = [] \<or> q = [] then esc text
      else case indexOf (toLowerCase text) (toLowerCase q) of
        Some i \<Rightarrow> esc (take i text) @ mark (esc (JS_Prelude.slice i (i + length q) text)) @ esc (drop (i + length q) text)
      | None \<Rightarrow> (case fuzzyMatchIndexes text q of
          None \<Rightarrow> esc text
        | Some is \<Rightarrow> concat (map (\<lambda>(i, c). if i \<in> set is then mark (esc [c]) else esc [c]) (enumerate 0 text))))"

fun common_length :: "string \<Rightarrow> string \<Rightarrow> nat" where
  "common_length (a # as) (b # bs) = (if a = b then Suc (common_length as bs) else 0)"
| "common_length as bs = 0"

definition completion_prefix :: "jsval \<Rightarrow> string" where
  "completion_prefix item = (if is_object item then trim (str_or (jprop item ''completionPrefix'') []) else [])"

definition sharedPrefix :: "jsval \<Rightarrow> string" where
  "sharedPrefix items = (case arr_items items of
       [] \<Rightarrow> []
     | item0 # rest \<Rightarrow>
         let completionPrefix = completion_prefix item0 in
         if completionPrefix \<noteq> [] \<and> list_all (\<lambda>i. is_object i \<and> completion_prefix i = completionPrefix) (item0 # rest)
         then completionPrefix
         else let first = itemInsertValue item0; lower0 = toLowerCase first in
              take (foldl (\<lambda>e i. common_length (take e lower0) (toLowerCase (itemInsertValue i))) (length first) rest) first)"

section \<open>Ranking\<close>

definition by_score :: "scored \<Rightarrow> scored \<Rightarrow> int" where
  "by_score l r = cmp_num (Fin (sc_score l)) (Fin (sc_score r))"

interpretation score_cmp: comparator by_score
proof
  fix x y z
  show "by_score x y < 0 \<longleftrightarrow> 0 < by_score y x" unfolding by_score_def by (rule cmp_num_flip)
  show "by_score x y \<le> 0 \<Longrightarrow> by_score y z \<le> 0 \<Longrightarrow> by_score x z \<le> 0"
    unfolding by_score_def by (rule cmp_num_trans) simp_all
qed

lemma by_score_le: "by_score l r \<le> 0 \<longleftrightarrow> sc_score l \<le> sc_score r"
  by (simp add: by_score_def cmp_num_le)

lemma by_score_zero: "sc_score l = sc_score r \<Longrightarrow> by_score l r = 0"
  by (simp add: by_score_def cmp_num_def)

text \<open>Elements that arrive in the order of their index are sorted by the score alone: ties never arise.\<close>

lemma insert_by_index:
  "\<forall>y \<in> set ys. sc_index y < sc_index x \<Longrightarrow> insert_by cmp_scored x ys = insert_by by_score x ys"
proof (induction ys)
  case (Cons y ys)
  then have "cmp_scored x y < 0 \<longleftrightarrow> by_score x y < 0"
    by (auto simp: cmp_scored_def by_score_def cmp_then_neg)
  with Cons show ?case by simp
qed simp

lemma js_sort_index:
  assumes "sorted_wrt (\<lambda>a b. sc_index a < sc_index b) xs"
  shows "js_sort cmp_scored xs = js_sort by_score xs"
proof -
  have "\<forall>x \<in> set xs. \<forall>a \<in> set acc. sc_index a < sc_index x \<Longrightarrow>
      foldl (\<lambda>acc x. insert_by cmp_scored x acc) acc xs = foldl (\<lambda>acc x. insert_by by_score x acc) acc xs" for acc
    using assms
  proof (induction xs arbitrary: acc)
    case (Cons x xs)
    have "insert_by cmp_scored x acc = insert_by by_score x acc" using Cons.prems by (intro insert_by_index) simp
    moreover have "set (insert_by by_score x acc) = insert x (set acc)"
      by (metis mset_insert_by set_mset_add_mset_insert set_mset_mset)
    ultimately show ?case using Cons by simp
  qed simp
  from this [of "[]"] show ?thesis by (simp add: js_sort_def)
qed

definition item_score :: "string \<Rightarrow> jsval \<Rightarrow> rat option" where
  "item_score q item = map_option sc_score (scoreItem item q 0)"

lemma scoreItem_eq:
  assumes "toLowerCase (trim q) \<noteq> []"
  shows "scoreItem item q n = map_option (\<lambda>s. \<lparr>sc_item = item, sc_score = s, sc_index = n\<rparr>) (item_score q item)"
  using assms by (auto simp: item_score_def scoreItem_def Let_def split: list.splits)

definition scored_from :: "string \<Rightarrow> nat \<Rightarrow> jsval list \<Rightarrow> scored list" where
  "scored_from q n items = List.map_filter (\<lambda>(index, item). scoreItem item q index) (enumerate n items)"

lemma scored_from_simps:
  assumes "toLowerCase (trim q) \<noteq> []"
  shows "scored_from q n [] = []"
    and "scored_from q n (i # is) = (case item_score q i of
           None \<Rightarrow> scored_from q (Suc n) is
         | Some s \<Rightarrow> \<lparr>sc_item = i, sc_score = s, sc_index = n\<rparr> # scored_from q (Suc n) is)"
  by (auto simp: scored_from_def map_filter_simps scoreItem_eq [OF assms] split: option.splits)

lemma scored_from_props:
  assumes q: "toLowerCase (trim q) \<noteq> []"
  shows "sorted_wrt (\<lambda>a b. sc_index a < sc_index b) (scored_from q n is)"
    and "\<forall>x \<in> set (scored_from q n is). n \<le> sc_index x \<and> item_score q (sc_item x) = Some (sc_score x)"
    and "map sc_item (scored_from q n is) = filter (\<lambda>i. item_score q i \<noteq> None) is"
proof -
  have "sorted_wrt (\<lambda>a b. sc_index a < sc_index b) (scored_from q n is)
      \<and> (\<forall>x \<in> set (scored_from q n is). n \<le> sc_index x \<and> item_score q (sc_item x) = Some (sc_score x))
      \<and> map sc_item (scored_from q n is) = filter (\<lambda>i. item_score q i \<noteq> None) is"
    by (induction "is" arbitrary: n)
      (force simp: scored_from_simps [OF q] Suc_le_eq split: option.splits)+
  then show "sorted_wrt (\<lambda>a b. sc_index a < sc_index b) (scored_from q n is)"
    and "\<forall>x \<in> set (scored_from q n is). n \<le> sc_index x \<and> item_score q (sc_item x) = Some (sc_score x)"
    and "map sc_item (scored_from q n is) = filter (\<lambda>i. item_score q i \<noteq> None) is" by blast+
qed

lemma filter_map_scored:
  "\<forall>x \<in> set xs. item_score q (sc_item x) = Some (sc_score x) \<Longrightarrow>
     filter (\<lambda>i. item_score q i = Some s) (map sc_item xs) = map sc_item (filter (\<lambda>x. sc_score x = s) xs)"
  by (induction xs) auto

lemma sorted_map_scored:
  "\<forall>x \<in> set xs. item_score q (sc_item x) = Some (sc_score x) \<Longrightarrow> sorted_wrt (\<lambda>a b. by_score a b \<le> 0) xs \<Longrightarrow>
     sorted_wrt (\<le>) (map (the \<circ> item_score q) (map sc_item xs))"
  by (induction xs) (auto simp: by_score_le)

lemma trimmed_lower: "trimmed (toLowerCase (trim s))"
  using trimmed_trim [of s] by (cases "trim s = []") (auto simp: trimmed_def toLowerCase_def hd_map last_map)

lemma filterItems_eq:
  assumes "toLowerCase (trim query) \<noteq> []"
  shows "filterItems items query =
    map sc_item (js_sort by_score (scored_from (toLowerCase (trim query)) 0 (filter (\<lambda>i. \<not> item_hint i) items))) @ filter item_hint items"
proof -
  have "trimmed (toLowerCase (trim query))" by (rule trimmed_lower)
  then have q: "toLowerCase (trim (toLowerCase (trim query))) \<noteq> []" using assms by (simp add: trim_id)
  show ?thesis
    using assms js_sort_index [OF scored_from_props(1) [OF q]]
    by (simp add: filterItems_def Let_def scored_from_def)
qed

text \<open>
  \<^bold>\<open>C32.\<close> Filtering suggestions by a query drops exactly the concrete items that do not match it and
  ranks the rest: the result is the matching items, every one as often as it was given, in ascending
  order of their score, items of equal score in their original order, followed by all the hints in
  their original order.
\<close>

theorem filterItems_ranked:
  assumes "q = toLowerCase (trim query)" "q \<noteq> []"
  shows "\<exists>ranked. filterItems items query = ranked @ filter item_hint items
    \<and> mset ranked = mset (filter (\<lambda>i. \<not> item_hint i \<and> item_score q i \<noteq> None) items)
    \<and> sorted_wrt (\<le>) (map (the \<circ> item_score q) ranked)
    \<and> (\<forall>s. filter (\<lambda>i. item_score q i = Some s) ranked = filter (\<lambda>i. \<not> item_hint i \<and> item_score q i = Some s) items)"
proof -
  let ?xs = "scored_from q 0 (filter (\<lambda>i. \<not> item_hint i) items)" and ?ys = "js_sort by_score (scored_from q 0 (filter (\<lambda>i. \<not> item_hint i) items))"
  have "trimmed q" unfolding assms(1) by (rule trimmed_lower)
  then have q: "toLowerCase (trim q) \<noteq> []" using assms by (simp add: trim_id)
  note p = scored_from_props [OF q, of 0 "filter (\<lambda>i. \<not> item_hint i) items"]
  have sc: "\<forall>x \<in> set ?ys. item_score q (sc_item x) = Some (sc_score x)" using p(2) by simp
  have "mset (map sc_item ?ys) = mset (map sc_item ?xs)" by simp
  then have ms: "mset (map sc_item ?ys) = mset (filter (\<lambda>i. \<not> item_hint i \<and> item_score q i \<noteq> None) items)"
    unfolding p(3) by (simp add: conj_commute)
  have "filter (\<lambda>i. item_score q i = Some s) (map sc_item ?ys) = filter (\<lambda>i. \<not> item_hint i \<and> item_score q i = Some s) items" for s
  proof -
    have "filter (\<lambda>i. item_score q i = Some s) (map sc_item ?ys) = map sc_item (filter (\<lambda>x. sc_score x = s) ?ys)"
      by (rule filter_map_scored [OF sc])
    also have "filter (\<lambda>x. sc_score x = s) ?ys = filter (\<lambda>x. sc_score x = s) ?xs"
      by (rule score_cmp.js_sort_stable) (simp add: by_score_zero)
    also have "map sc_item (filter (\<lambda>x. sc_score x = s) ?xs) = filter (\<lambda>i. item_score q i = Some s) (map sc_item ?xs)"
      using p(2) by (intro filter_map_scored [symmetric]) blast
    also have "\<dots> = filter (\<lambda>i. \<not> item_hint i \<and> item_score q i = Some s) items"
      unfolding p(3) by (auto simp: conj_commute intro: filter_cong)
    finally show ?thesis .
  qed
  moreover have "sorted_wrt (\<le>) (map (the \<circ> item_score q) (map sc_item ?ys))"
    by (rule sorted_map_scored [OF sc score_cmp.sorted_js_sort])
  moreover have "filterItems items query = map sc_item ?ys @ filter item_hint items"
    using filterItems_eq [of query items] assms by simp
  ultimately show ?thesis using ms by blast
qed

theorem filterItems_ranked_witness:
  "\<exists>ranked. filterItems [JStr ''an'', JStr ''n''] '' N'' = ranked @ filter item_hint [JStr ''an'', JStr ''n'']
     \<and> mset ranked = mset (filter (\<lambda>i. \<not> item_hint i \<and> item_score ''n'' i \<noteq> None) [JStr ''an'', JStr ''n''])"
proof -
  have "''n'' = toLowerCase (trim '' N'')" by code_simp
  then show ?thesis using filterItems_ranked [of "''n''" "'' N''" "[JStr ''an'', JStr ''n'']"] by blast
qed

section \<open>Recent targets\<close>

lemma nat_str_length: "n \<le> 65535 \<Longrightarrow> length (nat_str n) \<le> 5"
  by (simp add: nat_str.simps)

lemma port_number_nat:
  assumes "n \<le> 65535" "\<forall>c \<in> set (take 1 rest). \<not> is_digit c \<and> \<not> is_ws c"
  shows "port_number (nat_str n @ rest) = Some (nat_str n, rest)"
proof -
  have d: "\<forall>c \<in> set (nat_str n). is_digit c" by (rule nat_str_digits)
  have "trimStart (nat_str n @ rest) = nat_str n @ rest"
    using nat_str_no_ws [of n] by (intro trimStart_trimmed) (auto simp: hd_append)
  moreover have "takeWhile is_digit (nat_str n @ rest) = nat_str n" "dropWhile is_digit (nat_str n @ rest) = rest"
    using d assms(2) by (cases rest; simp add: takeWhile_append2 dropWhile_append2)+
  moreover have "trimStart rest = rest" using assms(2) by (cases rest) (simp_all add: trimStart_def)
  ultimately show ?thesis using nat_str_length [OF assms(1)] by (simp add: port_number_def)
qed

lemma port_range_text: "valid_range r \<Longrightarrow> port_range (range_text r) = Some r"
proof -
  assume v: "valid_range r"
  have minus: "\<not> is_digit CHR ''-''" "\<not> is_ws CHR ''-''" by (simp_all add: is_digit_def char_between_def is_ws_def)
  have "port_number (nat_str (fst r) @ ''-'' @ nat_str (snd r)) = Some (nat_str (fst r), ''-'' @ nat_str (snd r))"
    "port_number (nat_str (snd r) @ []) = Some (nat_str (snd r), [])" "port_number (nat_str (fst r) @ []) = Some (nat_str (fst r), [])"
    by (rule port_number_nat; use v minus in \<open>simp add: valid_range_def\<close>)+
  then show ?thesis by (cases r) (auto simp: port_range_def range_text_def)
qed

lemma port_parts_texts:
  "list_all valid_range rs \<Longrightarrow> distinct (acc @ map range_text rs) \<Longrightarrow>
     port_parts (map range_text rs) acc = Some (acc @ map range_text rs)"
  by (induction rs arbitrary: acc) (auto simp: port_range_text)

lemma range_text_inj: "valid_range a \<Longrightarrow> valid_range b \<Longrightarrow> range_text a = range_text b \<longleftrightarrow> a = b"
  by (metis option.inject port_range_text)

lemma port_parts_valid:
  "port_parts parts acc = Some ps \<Longrightarrow> acc = map range_text rs \<Longrightarrow> distinct rs \<Longrightarrow> list_all valid_range rs \<Longrightarrow>
     \<exists>rs'. ps = map range_text rs' \<and> distinct rs' \<and> list_all valid_range rs' \<and> (parts \<noteq> [] \<longrightarrow> rs' \<noteq> []) \<and> length rs \<le> length rs'"
proof (induction parts arbitrary: acc rs)
  case (Cons part parts)
  obtain r where r: "port_range part = Some r" "valid_range r"
    and rec: "port_parts parts (if range_text r \<in> set acc then acc else acc @ [range_text r]) = Some ps"
    using Cons.prems(1) by (auto split: option.splits if_splits)
  show ?case
  proof (cases "range_text r \<in> set acc")
    case True
    then have "rs \<noteq> []" using Cons.prems(2) by auto
    with Cons.IH [OF _ Cons.prems(2-4)] rec True show ?thesis by fastforce
  next
    case False
    then have "acc @ [range_text r] = map range_text (rs @ [r])" "distinct (rs @ [r])" "list_all valid_range (rs @ [r])"
      using Cons.prems r by auto
    from Cons.IH [OF _ this] rec False show ?thesis by fastforce
  qed
qed auto

definition port_set_normal :: "string \<Rightarrow> bool" where
  "port_set_normal s \<longleftrightarrow> s = [] \<or> (\<exists>rs. rs \<noteq> [] \<and> distinct rs \<and> list_all valid_range rs \<and> s = join '','' (map range_text rs))"

lemma range_text_chars: "c \<in> set (range_text r) \<Longrightarrow> is_digit c \<or> c = CHR ''-''"
  using nat_str_digits by (auto simp: range_text_def split: if_splits)

lemma range_text_no_comma: "CHR '','' \<notin> set (range_text r)"
  using range_text_chars [of "CHR '',''" r] by (auto simp: is_digit_def char_between_def)

interpretation port_norm: normaliser normalizeRecentPortSet port_set_normal
proof
  fix s
  show "port_set_normal (normalizeRecentPortSet s)"
    using port_parts_valid [of "split_on CHR '','' (trim s)" "[]" _ "[]"]
    by (auto simp: port_set_normal_def normalizeRecentPortSet_def split: option.splits)
next
  fix s
  assume "port_set_normal s"
  then consider "s = []" | rs where "rs \<noteq> []" "distinct rs" "list_all valid_range rs" "s = join '','' (map range_text rs)"
    unfolding port_set_normal_def by blast
  then show "normalizeRecentPortSet s = s"
  proof cases
    case 1
    have "port_range [] = None" by (simp add: port_range_def port_number_def trimStart_def)
    then show ?thesis using 1 by (simp add: normalizeRecentPortSet_def)
  next
    case 2
    have "is_digit c \<or> c = CHR ''-'' \<or> c = CHR '',''" if "c \<in> set s" for c
      using that 2(4) set_join [of "'',''" "map range_text rs"] range_text_chars by fastforce
    then have "\<forall>c \<in> set s. \<not> is_ws c" by (force simp: is_digit_def char_between_def is_ws_code)
    then have "trim s = s" by (rule trim_no_ws)
    moreover have "split_on CHR '','' s = map range_text rs"
      unfolding 2(4) using 2(1) range_text_no_comma by (intro split_on_join) auto
    moreover have "distinct (map range_text rs)"
      using 2 range_text_inj by (auto simp: distinct_map inj_on_def list_all_iff)
    ultimately show ?thesis using port_parts_texts [of rs "[]"] 2 by (simp add: normalizeRecentPortSet_def)
  qed
qed

text \<open>
  A recent port set is stored in a normal form: either nothing (some part was not a port or an
  ascending range between 1 and 65535), or a comma-separated list of different valid ranges, in which
  the normalisation finds nothing left to change. Every such list is reached, so no valid set is lost.
\<close>

theorem port_set_normal_form:
  "(normalizeRecentPortSet v = [] \<or> (\<exists>rs. rs \<noteq> [] \<and> distinct rs \<and> list_all valid_range rs
      \<and> normalizeRecentPortSet v = join '','' (map range_text rs)))
   \<and> normalizeRecentPortSet (normalizeRecentPortSet v) = normalizeRecentPortSet v
   \<and> range normalizeRecentPortSet = {s. port_set_normal s}"
  using port_norm.norm_valid [of v] port_norm.norm_idem [of v] port_norm.range_norm unfolding port_set_normal_def by blast

lemma octet_iff: "short_digits p \<and> octet p \<longleftrightarrow> (\<exists>n\<le>255. p = nat_str n)"
proof
  assume h: "short_digits p \<and> octet p"
  then obtain r where r: "0 \<le> r" "r \<le> 255" "of_int \<lfloor>r\<rfloor> = r" "p = num_str (Fin r)"
    by (auto simp: octet_def split: jnum.splits)
  have "p = rat_str (of_int \<lfloor>r\<rfloor>)" unfolding r(3) r(4) by simp
  then have "p = int_str \<lfloor>r\<rfloor>" unfolding rat_str_of_int .
  moreover have b: "0 \<le> \<lfloor>r\<rfloor>" "nat \<lfloor>r\<rfloor> \<le> 255" using r by (simp_all add: floor_le_iff nat_le_iff)
  ultimately have "p = nat_str (nat \<lfloor>r\<rfloor>)" by (simp add: int_str_def)
  with b(2) show "\<exists>n\<le>255. p = nat_str n" by blast
next
  assume "\<exists>n\<le>255. p = nat_str n"
  then obtain n where n: "n \<le> 255" "p = nat_str n" by blast
  have "length (nat_str n) \<le> 3" using n(1) by (simp add: nat_str.simps)
  moreover have "octet p"
    using n rat_str_of_int [of "int n"] by (simp add: octet_def parse_int_nat_str int_str_def)
  ultimately show "short_digits p \<and> octet p"
    using nat_str_digits [of n] by (simp add: n(2) short_digits_def all_digits_def list_all_iff)
qed

text \<open>
  The IPv4 test accepts, up to surrounding blanks, exactly the dotted-decimal notations of the
  32-bit addresses: four numbers between 0 and 255 in canonical decimal form, without leading zeros.
\<close>

theorem ipv4_exact:
  "isIPv4Address v \<longleftrightarrow>
     (\<exists>a b c d. a \<le> 255 \<and> b \<le> 255 \<and> c \<le> 255 \<and> d \<le> 255 \<and> trim v = join ''.'' (map nat_str [a, b, c, d]))"
proof
  assume "isIPv4Address v"
  then obtain p1 p2 p3 p4 where sp: "split_on CHR ''.'' (trim v) = [p1, p2, p3, p4]"
    and ps: "\<forall>p \<in> {p1, p2, p3, p4}. short_digits p \<and> octet p"
    by (auto simp: isIPv4Address_def Let_def length_Suc_conv numeral_eq_Suc)
  obtain a b c d where "a \<le> 255" "b \<le> 255" "c \<le> 255" "d \<le> 255" "[p1, p2, p3, p4] = map nat_str [a, b, c, d]"
    using ps unfolding octet_iff by auto
  then show "\<exists>a b c d. a \<le> 255 \<and> b \<le> 255 \<and> c \<le> 255 \<and> d \<le> 255 \<and> trim v = join ''.'' (map nat_str [a, b, c, d])"
    using join_split_on [of "CHR ''.''" "trim v"] unfolding sp by metis
next
  assume "\<exists>a b c d. a \<le> 255 \<and> b \<le> 255 \<and> c \<le> 255 \<and> d \<le> 255 \<and> trim v = join ''.'' (map nat_str [a, b, c, d])"
  then obtain a b c d where n: "a \<le> 255" "b \<le> 255" "c \<le> 255" "d \<le> 255" and t: "trim v = join ''.'' (map nat_str [a, b, c, d])"
    by blast
  have "CHR ''.'' \<notin> set (nat_str n)" for n using nat_str_digits [of n] by (auto simp: is_digit_def char_between_def)
  then have "split_on CHR ''.'' (trim v) = map nat_str [a, b, c, d]" unfolding t by (intro split_on_join) auto
  moreover have "short_digits (nat_str n) \<and> octet (nat_str n)" if "n \<le> 255" for n using octet_iff that by blast
  ultimately show "isIPv4Address v" using n by (simp add: isIPv4Address_def)
qed

end
