(* ===== verification/Workflow_Core.thy ===== *)
theory Workflow_Core
  imports Session_Core JS_Regex JS_Json
begin

text \<open>
  Workflows, \<open>app/static/js/features/workflows\<close>: the identity and lookup of \<open>workflow_catalog.js\<close> and the
  input values of \<open>workflow_parameters.js\<close>, which are kept in \<open>localStorage\<close>, offered from several sources
  and rendered into the commands of the steps. The session and the team that own the values are
  arguments; a failing write to the storage leaves it as it is.
\<close>

section \<open>The catalog\<close>

definition slug_char :: "char \<Rightarrow> bool" where
  "slug_char c \<longleftrightarrow> is_lower c \<or> is_digit c"

definition strip_dashes :: "string \<Rightarrow> string" where
  "strip_dashes s = rev (dropWhile (\<lambda>c. c = CHR ''-'') (rev (dropWhile (\<lambda>c. c = CHR ''-'') s)))"

definition workflowSlug :: "jsval \<Rightarrow> string" where
  "workflowSlug value =
     (let slug = strip_dashes (rx_replace_all (rx_plus (RChr (\<lambda>c. \<not> slug_char c))) (\<lambda>m. ''-'') (toLowerCase (trim (str_or value []))))
      in if slug = [] then ''workflow'' else slug)"

definition workflowStorageKey :: "jsval \<Rightarrow> string" where
  "workflowStorageKey workflow =
     (let id = trim (str_or (jprop workflow ''id'') []) in
      if id \<noteq> [] then id
      else trim (str_or (jprop workflow ''title'') []) @ ''::'' @ trim (str_or (jprop workflow ''description'') []))"

definition workflowLookupKeys :: "jsval \<Rightarrow> string list" where
  "workflowLookupKeys workflow =
     (let id = trim (str_or (jprop workflow ''id'') []); title = trim (str_or (jprop workflow ''title'') []) in
      dedup (filter nonempty (map (\<lambda>k. toLowerCase (trim k)) [id, title, workflowSlug (JStr title)])))"

definition workflowCliName :: "jsval \<Rightarrow> string" where
  "workflowCliName workflow =
     workflowSlug (js_or (jprop workflow ''title'')
       (js_or (JStr (trim (str_or (jprop workflow ''id'') []))) (JStr ''workflow'')))"

definition catalog_setItems :: "jsval \<Rightarrow> jsval list" where
  "catalog_setItems nextItems = arr_items nextItems"

definition pick_unique :: "string \<Rightarrow> jsval list \<Rightarrow> (jsval option \<times> string) option" where
  "pick_unique selector ms = (case ms of
       [] \<Rightarrow> None
     | [w] \<Rightarrow> Some (Some w, [])
     | _ \<Rightarrow> Some (None, ''ambiguous workflow '' @ [SQ] @ selector @ [SQ] @ '': '' @ join '', '' (map workflowCliName (take 5 ms))))"

definition find_workflow :: "jsval list \<Rightarrow> jsval \<Rightarrow> jsval option \<times> string" where
  "find_workflow items selector =
     (let query = toLowerCase (trim (str_or selector [])); shown = to_str selector in
      if query = [] then (None, ''workflow name is required'')
      else case pick_unique shown (filter (\<lambda>w. query \<in> set (workflowLookupKeys w)) items) of
        Some r \<Rightarrow> r
      | None \<Rightarrow>
          (case pick_unique shown (filter (\<lambda>w. list_ex (\<lambda>key. str_includes key query) (workflowLookupKeys w)) items) of
             Some r \<Rightarrow> r
           | None \<Rightarrow> (None, ''workflow not found: '' @ shown)))"

section \<open>Input values and their storage\<close>

definition WORKFLOW_INPUT_STATE_KEY :: string where
  "WORKFLOW_INPUT_STATE_KEY = ''workflow_input_state_v2''"

definition LEGACY_WORKFLOW_INPUT_STATE_KEY :: string where
  "LEGACY_WORKFLOW_INPUT_STATE_KEY = ''workflow_input_state_v1''"

definition WORKFLOW_TOKEN_RE :: rx where
  "WORKFLOW_TOKEN_RE = rx_seq [rx_lit ''{{'', rx_star rx_ws,
     RCap 1 (RSeq (RChr is_lower) (rx_star (RChr (\<lambda>c. is_lower c \<or> is_digit c \<or> c = CHR ''_'')))), rx_star rx_ws, rx_lit ''}}'']"

definition workflowInputStorageKey :: "jsval \<Rightarrow> jsval \<Rightarrow> jsval \<Rightarrow> string" where
  "workflowInputStorageKey activeTeam sessionId workflow =
     (let teamId = trim (to_str (js_or (jprop workflow ''team_id'') (js_or activeTeam (JStr []))));
          person = trim (str_or sessionId ''anonymous'');
          ownerKey = (if teamId \<noteq> [] then ''team:'' @ teamId else ''personal:'' @ (if person = [] then ''anonymous'' else person))
      in ownerKey @ ''::'' @ workflowStorageKey workflow)"

text \<open>The own properties of an object or an array, as a spread copies them.\<close>

fun own_entries :: "jsval \<Rightarrow> jsobj" where
  "own_entries (JObj ob) = ob"
| "own_entries (JArr xs) = zip (map nat_str [0..<length xs]) xs"
| "own_entries v = []"

definition readWorkflowInputState :: "local_store \<Rightarrow> jsval \<times> local_store" where
  "readWorkflowInputState st =
     (let st1 = ls_remove st LEGACY_WORKFLOW_INPUT_STATE_KEY in
      case ls_get st1 WORKFLOW_INPUT_STATE_KEY of
        None \<Rightarrow> (JObj [], st1)
      | Some raw \<Rightarrow>
          if raw = [] then (JObj [], st1)
          else (case json_parse raw of
              None \<Rightarrow> (JObj [], st1)
            | Some parsed \<Rightarrow> (if is_object parsed then parsed else JObj [], st1)))"

definition writeWorkflowInputState :: "bool \<Rightarrow> jsobj \<Rightarrow> local_store \<Rightarrow> local_store" where
  "writeWorkflowInputState writable nextState st =
     (if writable then ls_set st WORKFLOW_INPUT_STATE_KEY (json_stringify (JObj nextState)) else st)"

definition sanitizeWorkflowInputValue :: "jsval \<Rightarrow> jsval \<Rightarrow> string" where
  "sanitizeWorkflowInputValue input value =
     (let raw = trim (to_str (js_nullish value (JStr []))) in
      if \<not> truthy input \<or> raw = [] then raw
      else if jprop input ''type'' = JStr ''port'' then filter is_digit raw
      else raw)"

definition input_id :: "jsval \<Rightarrow> string" where
  "input_id input = to_str (jprop input ''id'')"

definition input_sensitive :: "jsval \<Rightarrow> bool" where
  "input_sensitive input \<longleftrightarrow> truthy (jprop input ''sensitive'')"

definition workflow_inputs :: "jsval \<Rightarrow> jsval list" where
  "workflow_inputs workflow = arr_items (jprop workflow ''inputs'')"

definition getWorkflowInputValues :: "jsval \<Rightarrow> jsobj" where
  "getWorkflowInputValues workflow =
     foldl (\<lambda>values input. obj_set values (input_id input)
        (JStr (sanitizeWorkflowInputValue input (js_or (jprop input ''default'') (JStr []))))) [] (workflow_inputs workflow)"

text \<open>The merge of the saved values: the values in use and those that are kept in the storage.\<close>

definition keep_saved :: "jsval \<Rightarrow> jsobj \<times> jsobj \<Rightarrow> string \<times> jsval \<Rightarrow> jsobj \<times> jsobj" where
  "keep_saved workflow acc kv =
     (case find (\<lambda>input. jprop input ''id'' = JStr (fst kv)) (workflow_inputs workflow) of
        None \<Rightarrow> acc
      | Some input \<Rightarrow>
          if input_sensitive input then acc
          else let normalized = JStr (sanitizeWorkflowInputValue input (snd kv)) in
               (obj_set (fst acc) (fst kv) normalized, obj_set (snd acc) (fst kv) normalized))"

definition store_retained :: "bool \<Rightarrow> string \<Rightarrow> jsobj \<Rightarrow> jsobj \<Rightarrow> local_store \<Rightarrow> local_store" where
  "store_retained writable storageKey retained state st =
     writeWorkflowInputState writable
       (if retained \<noteq> [] then obj_set state storageKey (JObj retained) else obj_delete state storageKey) st"

definition loadWorkflowInputValues :: "bool \<Rightarrow> string \<Rightarrow> jsval \<Rightarrow> local_store \<Rightarrow> jsobj \<times> local_store" where
  "loadWorkflowInputValues writable storageKey workflow st =
     (let base = getWorkflowInputValues workflow;
          (state, st1) = readWorkflowInputState st;
          saved = obj_get (own_entries state) storageKey
      in if \<not> is_object saved then (base, st1)
         else let (next, retained) = foldl (keep_saved workflow) (base, []) (own_entries saved) in
              if json_stringify (JObj retained) \<noteq> json_stringify saved
              then (next, store_retained writable storageKey retained (own_entries state) st1)
              else (next, st1))"

definition retained_values :: "jsval \<Rightarrow> jsval \<Rightarrow> jsobj" where
  "retained_values workflow values =
     foldl (\<lambda>retained input.
        if \<not> truthy (jprop input ''id'') \<or> input_sensitive input then retained
        else obj_set retained (input_id input) (JStr (sanitizeWorkflowInputValue input (jprop values (input_id input)))))
       [] (workflow_inputs workflow)"

definition persistWorkflowInputValues :: "bool \<Rightarrow> string \<Rightarrow> jsval \<Rightarrow> jsval \<Rightarrow> local_store \<Rightarrow> local_store" where
  "persistWorkflowInputValues writable storageKey workflow values st =
     (let (state, st1) = readWorkflowInputState st
      in store_retained writable storageKey (retained_values workflow values) (own_entries state) st1)"

section \<open>The values on offer\<close>

definition allowed_project_types :: "string \<Rightarrow> string list" where
  "allowed_project_types type =
     (if type = ''target'' then [''domain'', ''host'', ''ip'', ''cidr'', ''url'', ''port_set'', ''target'']
      else if type = ''domain'' then [''domain''] else if type = ''host'' then [''domain'', ''ip'', ''host'']
      else if type = ''url'' then [''url''] else [])"

definition recent_kinds :: "string \<Rightarrow> string list" where
  "recent_kinds type =
     (if type = ''target'' then [''domain'', ''ip'', ''url'', ''port_set''] else if type = ''domain'' then [''domain'']
      else if type = ''host'' then [''domain'', ''ip''] else if type = ''url'' then [''url'']
      else if type = ''port_set'' then [''port_set''] else [])"

record source_option =
  so_value :: jsval
  so_description :: jsval

definition source_options :: "string \<Rightarrow> jsval list \<Rightarrow> jsval \<Rightarrow> jsval list \<Rightarrow> jsval \<Rightarrow> source_option list" where
  "source_options type projectTargets recentValues files wordlists =
     map (\<lambda>t. \<lparr>so_value = jprop t ''value'', so_description = JStr ''Project target''\<rparr>)
       (filter (\<lambda>t. str_or (jprop t ''type'') ''target'' \<in> set (allowed_project_types type)) projectTargets)
     @ concat (map (\<lambda>kind. map (\<lambda>v. \<lparr>so_value = v, so_description = JStr ''Recent value''\<rparr>)
         (arr_items (jprop recentValues kind))) (recent_kinds type))
     @ (if type = ''workspace_path'' \<or> type = ''wordlist''
        then map (\<lambda>i. \<lparr>so_value = jprop i ''value'', so_description = JStr ''Files''\<rparr>) files else [])
     @ (if type = ''wordlist''
        then map (\<lambda>i. \<lparr>so_value = jprop i ''value'', so_description = js_or (jprop i ''description'') (JStr ''Packaged wordlist'')\<rparr>)
               (arr_items wordlists) else [])"

definition option_text :: "source_option \<Rightarrow> string" where
  "option_text item = trim (str_or (so_value item) [])"

definition workflowInputSourceOptions :: "jsval \<Rightarrow> jsval list \<Rightarrow> jsval \<Rightarrow> jsval list \<Rightarrow> jsval \<Rightarrow> source_option list" where
  "workflowInputSourceOptions input projectTargets recentValues files wordlists =
     map (\<lambda>item. item\<lparr>so_value := JStr (option_text item)\<rparr>)
       (dedup_key (\<lambda>item. toLowerCase (option_text item)) []
          (filter (\<lambda>item. option_text item \<noteq> []) (source_options (str_or (jprop input ''type'') ''text'') projectTargets recentValues files wordlists)))"

section \<open>Rendering\<close>

definition renderWorkflowCommandTemplate :: "jsval \<Rightarrow> jsobj \<Rightarrow> string" where
  "renderWorkflowCommandTemplate template values =
     rx_replace_all WORKFLOW_TOKEN_RE
       (\<lambda>m. let token = rx_group_str m 1 in if obj_has values token then to_str (obj_get values token) else fst m)
       (str_or template [])"

definition workflowTemplateTokens :: "jsval \<Rightarrow> string list" where
  "workflowTemplateTokens template = dedup (map (\<lambda>m. rx_group_str m 1) (rx_matchAll WORKFLOW_TOKEN_RE (str_or template [])))"

definition workflowInputsReady :: "jsval \<Rightarrow> jsobj \<Rightarrow> bool" where
  "workflowInputsReady workflow values \<longleftrightarrow>
     list_all (\<lambda>input. \<not> truthy (jprop input ''required'') \<or> trim (str_or (obj_get values (input_id input)) []) \<noteq> [])
       (workflow_inputs workflow)"

definition sensitive_names :: "jsval \<Rightarrow> string list" where
  "sensitive_names workflow = dedup (map (\<lambda>i. str_or (jprop i ''id'') []) (filter input_sensitive (workflow_inputs workflow)))"

definition display_values :: "jsval \<Rightarrow> jsobj \<Rightarrow> jsobj" where
  "display_values workflow values =
     foldl (\<lambda>d name. if obj_has d name then obj_set d name (JStr ''[hidden]'') else d) values (sensitive_names workflow)"

record rendered_step =
  rs_step :: jsval
  pendingCaptureNames :: "string list"
  sensitiveInputNames :: "string list"
  displayCmd :: string
  renderedCmd :: string

definition step_cmd :: "jsval \<Rightarrow> jsval" where
  "step_cmd step = js_or (jprop step ''cmd'') (JStr [])"

definition step_captures :: "jsval \<Rightarrow> string list" where
  "step_captures step = map (\<lambda>c. to_str (jprop c ''name'')) (filter (\<lambda>c. truthy (jprop c ''name'')) (arr_items (jprop step ''captures'')))"

definition render_step :: "jsval \<Rightarrow> jsobj \<Rightarrow> string list \<Rightarrow> jsval \<Rightarrow> rendered_step" where
  "render_step workflow values captureNames step =
     (let usedTokens = workflowTemplateTokens (step_cmd step) in
      \<lparr>rs_step = step, pendingCaptureNames = filter (\<lambda>t. t \<in> set captureNames) usedTokens,
       sensitiveInputNames = filter (\<lambda>t. t \<in> set (sensitive_names workflow)) usedTokens,
       displayCmd = trim (renderWorkflowCommandTemplate (step_cmd step) (display_values workflow values)),
       renderedCmd = trim (renderWorkflowCommandTemplate (step_cmd step) values)\<rparr>)"

fun render_steps :: "jsval \<Rightarrow> jsobj \<Rightarrow> string list \<Rightarrow> jsval list \<Rightarrow> rendered_step list" where
  "render_steps workflow values captureNames [] = []"
| "render_steps workflow values captureNames (step # steps) =
     render_step workflow values captureNames step
       # render_steps workflow values (captureNames @ step_captures step) steps"

definition buildRenderedWorkflow :: "jsval \<Rightarrow> jsval \<Rightarrow> bool \<times> rendered_step list" where
  "buildRenderedWorkflow workflow values =
     (workflowInputsReady workflow (own_entries values),
      render_steps workflow (own_entries values) [] (arr_items (jprop workflow ''steps'')))"

section \<open>Secrets stay out of the storage and of the display\<close>

text \<open>
  Two assignments of values look the same from outside when they have the same names in the same order
  and agree on every name that is not the name of a sensitive input.
\<close>

definition same_public :: "jsval \<Rightarrow> jsobj \<Rightarrow> jsobj \<Rightarrow> bool" where
  "same_public workflow v w \<longleftrightarrow>
     list_all2 (\<lambda>a b. fst a = fst b \<and> (fst a \<in> set (sensitive_names workflow) \<or> snd a = snd b)) v w"

lemma same_public_get:
  assumes "same_public workflow v w" "k \<notin> set (sensitive_names workflow)"
  shows "obj_get v k = obj_get w k"
  using assms unfolding same_public_def by (induction rule: list_all2_induct) (auto simp: obj_get_def)

definition hide :: "string set \<Rightarrow> jsobj \<Rightarrow> jsobj" where
  "hide ns ob = map (\<lambda>(k, v). if k \<in> ns then (k, JStr ''[hidden]'') else (k, v)) ob"

lemma hide_keys: "map fst (hide ns ob) = map fst ob"
  by (auto simp: hide_def)

lemma hide_absent: "\<not> obj_has ob n \<Longrightarrow> hide {n} ob = ob"
  by (induction ob) (auto simp: hide_def)

lemma hide_one: "distinct (map fst ob) \<Longrightarrow> obj_has ob n \<Longrightarrow> obj_set ob n (JStr ''[hidden]'') = hide {n} ob"
proof (induction ob)
  case (Cons kv ob)
  obtain k v where kv: "kv = (k, v)" by fastforce
  show ?case
  proof (cases "k = n")
    case True
    then have "hide {n} ob = ob" using Cons.prems(1) by (intro hide_absent) (auto simp: kv obj_has_def)
    then show ?thesis using True by (simp add: kv hide_def)
  next
    case False
    then show ?thesis using Cons by (simp add: kv hide_def)
  qed
qed simp

lemma hide_hide: "hide ns (hide ms ob) = hide (ns \<union> ms) ob"
  by (auto simp: hide_def)

lemma display_values_hide: "distinct (map fst values) \<Longrightarrow> display_values workflow values = hide (set (sensitive_names workflow)) values"
proof -
  have "distinct (map fst ob) \<Longrightarrow>
      foldl (\<lambda>d name. if obj_has d name then obj_set d name (JStr ''[hidden]'') else d) ob ns = hide (set ns) ob" for ns ob
  proof (induction ns arbitrary: ob)
    case Nil
    then show ?case by (simp add: hide_def)
  next
    case (Cons n ns)
    have "(if obj_has ob n then obj_set ob n (JStr ''[hidden]'') else ob) = hide {n} ob"
      using Cons.prems hide_one hide_absent by simp
    then show ?case using Cons by (simp add: hide_keys hide_hide)
  qed
  then show "distinct (map fst values) \<Longrightarrow> display_values workflow values = hide (set (sensitive_names workflow)) values"
    by (simp add: display_values_def)
qed

lemma same_public_hide: "same_public workflow v w \<Longrightarrow> hide (set (sensitive_names workflow)) v = hide (set (sensitive_names workflow)) w"
  unfolding same_public_def hide_def by (induction rule: list_all2_induct) auto

lemma same_public_keys: "same_public workflow v w \<Longrightarrow> map fst v = map fst w"
  unfolding same_public_def by (induction rule: list_all2_induct) auto

lemma same_public_display:
  "same_public workflow v w \<Longrightarrow> distinct (map fst v) \<Longrightarrow> display_values workflow v = display_values workflow w"
  by (metis display_values_hide same_public_hide same_public_keys)

lemma render_steps_display:
  "display_values workflow v = display_values workflow w \<Longrightarrow>
     map displayCmd (render_steps workflow v cs steps) = map displayCmd (render_steps workflow w cs steps)"
  by (induction steps arbitrary: cs) (simp_all add: render_step_def Let_def)

lemma retained_values_public:
  assumes "\<And>input. input \<in> set (workflow_inputs workflow) \<Longrightarrow> truthy (jprop input ''id'') \<Longrightarrow> \<not> input_sensitive input \<Longrightarrow>
      jprop v (input_id input) = jprop w (input_id input)"
  shows "retained_values workflow v = retained_values workflow w"
proof -
  have "foldl (\<lambda>retained input.
        if \<not> truthy (jprop input ''id'') \<or> input_sensitive input then retained
        else obj_set retained (input_id input) (JStr (sanitizeWorkflowInputValue input (jprop v (input_id input))))) acc is
      = foldl (\<lambda>retained input.
        if \<not> truthy (jprop input ''id'') \<or> input_sensitive input then retained
        else obj_set retained (input_id input) (JStr (sanitizeWorkflowInputValue input (jprop w (input_id input))))) acc is"
    if "set is \<subseteq> set (workflow_inputs workflow)" for acc "is"
    using that assms by (induction "is" arbitrary: acc) auto
  then show ?thesis by (simp add: retained_values_def)
qed

text \<open>An input is identified by its id: no id names both a sensitive input and another one.\<close>

definition ids_separate :: "jsval \<Rightarrow> bool" where
  "ids_separate workflow \<longleftrightarrow>
     list_all (\<lambda>input. input_sensitive input \<or> input_id input \<notin> set (sensitive_names workflow)) (workflow_inputs workflow)"



section \<open>Finding a workflow\<close>

text \<open>
  A workflow is looked up without guessing: a name resolves to a workflow only when that is the
  one workflow of the catalog that has the name as a key, or, when none has, the one that has it inside
  a key; otherwise the answer is an error message and no workflow.
\<close>

theorem lookup_unambiguous:
  "let q = toLowerCase (trim (str_or selector [])) in
   case find_workflow items selector of
     (Some found, msg) \<Rightarrow> msg = [] \<and> q \<noteq> [] \<and>
       (filter (\<lambda>x. q \<in> set (workflowLookupKeys x)) items = [found]
        \<or> filter (\<lambda>x. q \<in> set (workflowLookupKeys x)) items = []
          \<and> filter (\<lambda>x. list_ex (\<lambda>key. str_includes key q) (workflowLookupKeys x)) items = [found])
   | (None, msg) \<Rightarrow> msg \<noteq> []"
  by (auto simp: find_workflow_def pick_unique_def Let_def split: list.splits option.splits)

end
