(* ===== verification/Run_Stream.thy ===== *)
theory Run_Stream
  imports JS_Json "HOL-Library.Sublist"
begin

text \<open>
  The output stream of a run, \<open>app/static/js/runner.js\<close>: server-sent events cut into frames, the queue
  of decoded messages that is drained in batches, and the life of the streams of one tab, which are
  subscribed, paused while the status monitor is open, resumed, detached and finished. The bytes are
  already decoded to text; the response of the server, the pace of the drain and the order of the
  events are actions, so every interleaving of the event loop is a sequence of actions.
\<close>

section \<open>Frames and messages\<close>

text \<open>\<open>buffer.split('\n\n')\<close>.\<close>

fun split_frames :: "string \<Rightarrow> string list" where
  "split_frames [] = [[]]"
| "split_frames [c] = [[c]]"
| "split_frames (c # d # s) =
     (if c = NL \<and> d = NL then [] # split_frames s
      else (case split_frames (d # s) of [] \<Rightarrow> [[c]] | p # ps \<Rightarrow> (c # p) # ps))"

text \<open>\<open>split(/\r?\n/)\<close>.\<close>

definition strip_cr :: "string \<Rightarrow> string" where
  "strip_cr l = (if l \<noteq> [] \<and> last l = CHR 0x0D then butlast l else l)"

definition sse_lines :: "string \<Rightarrow> string list" where
  "sse_lines part = (let ps = split_on NL part in map strip_cr (butlast ps) @ [last ps])"

definition sse_line :: "string \<times> string list \<Rightarrow> string \<Rightarrow> string \<times> string list" where
  "sse_line acc line =
     (if startsWith line ''id: '' then (trim (drop 4 line), snd acc)
      else if startsWith line ''data: '' then (fst acc, snd acc @ [drop 6 line])
      else acc)"

definition with_event_id :: "string \<Rightarrow> jsval \<Rightarrow> jsval" where
  "with_event_id eventId msg = (case msg of
       JObj ob \<Rightarrow> if eventId \<noteq> [] \<and> \<not> truthy (obj_get ob ''event_id'') then JObj (obj_set ob ''event_id'' (JStr eventId)) else msg
     | _ \<Rightarrow> msg)"

text \<open>The outer option is an exception of \<open>JSON.parse\<close>, the inner one the result null.\<close>

definition sseMessageFromChunk :: "string \<Rightarrow> jsval option option" where
  "sseMessageFromChunk part =
     (let (eventId, dataLines) = foldl sse_line ([], []) (sse_lines part) in
      if dataLines = [] then Some None
      else (case json_parse (join [NL] dataLines) of
          None \<Rightarrow> None
        | Some msg \<Rightarrow> Some (Some (with_event_id eventId msg))))"

definition frame_message :: "string \<Rightarrow> jsval list" where
  "frame_message part = (case sseMessageFromChunk part of
       Some (Some msg) \<Rightarrow> if truthy msg then [msg] else []
     | _ \<Rightarrow> [])"

definition frame_messages :: "string list \<Rightarrow> jsval list" where
  "frame_messages parts = concat (map frame_message parts)"

section \<open>Lines of a message\<close>

definition forEachStreamTextLine :: "jsval \<Rightarrow> string list" where
  "forEachStreamTextLine v =
     (let raw = to_str (js_nullish v (JStr [])) in
      if raw = [] then [[]]
      else let lines = split_on NL raw in if last lines = [] then butlast lines else lines)"

definition is_terminal :: "jsval \<Rightarrow> bool" where
  "is_terminal msg \<longleftrightarrow> truthy msg \<and>
     to_str (js_or (jprop msg ''type'') (js_or (jprop msg ''event'') (JStr []))) \<in> {''exit'', ''error''}"

section \<open>The streams of a tab\<close>

record stream =
  after :: string
  reader :: bool
  starting :: bool
  pausedForApi :: bool
  resumeAfterPause :: bool
  detached :: bool
  reading :: bool
  cancelled :: bool
  buffer :: string
  messageQueue :: "jsval list"
  messageQueueIndex :: nat
  messageQueueScheduled :: bool
  readDone :: bool
  sawTerminalEvent :: bool
  received :: string

text \<open>
  \<open>reading\<close> and \<open>cancelled\<close> are the state of the response body behind \<open>reader\<close>; \<open>received\<close> is all text it
  has given so far and is read by no operation. A tab keeps the streams in the order they were
  subscribed; \<open>currentStream\<close> is the entry of \<open>_runStreamStateByTabId\<close>.
\<close>

record tab_streams =
  streams :: "stream list"
  currentStream :: "nat option"
  lastEventId :: string
  runActive :: bool
  handled :: "(nat \<times> jsval) list"
  endedWithoutExit :: nat
  transportErrors :: nat

definition new_stream :: "string \<Rightarrow> stream" where
  "new_stream aft = \<lparr>after = aft, reader = False, starting = True, pausedForApi = False, resumeAfterPause = False, detached = False,
     reading = False, cancelled = False, buffer = [], messageQueue = [], messageQueueIndex = 0, messageQueueScheduled = False,
     readDone = False, sawTerminalEvent = False, received = []\<rparr>"

definition upd_stream :: "nat \<Rightarrow> (stream \<Rightarrow> stream) \<Rightarrow> tab_streams \<Rightarrow> tab_streams" where
  "upd_stream i f t = t\<lparr>streams := (streams t)[i := f (streams t ! i)]\<rparr>"

definition runStreamQueueLength :: "stream \<Rightarrow> nat" where
  "runStreamQueueLength st = length (messageQueue st) - messageQueueIndex st"

definition busy :: "stream \<Rightarrow> bool" where
  "busy st \<longleftrightarrow> (reader st \<or> starting st) \<and> \<not> pausedForApi st \<and> \<not> detached st"

definition subscribeRunStream :: "string \<Rightarrow> tab_streams \<Rightarrow> tab_streams" where
  "subscribeRunStream aft t =
     (if (case currentStream t of None \<Rightarrow> False | Some i \<Rightarrow> busy (streams t ! i)) then t
      else t\<lparr>streams := streams t @ [new_stream aft], currentStream := Some (length (streams t))\<rparr>)"

definition streamResumeAfterId :: "tab_streams \<Rightarrow> stream \<Rightarrow> string" where
  "streamResumeAfterId t st = (if lastEventId t \<noteq> [] then lastEventId t else after st)"

definition resubscribe :: "nat \<Rightarrow> tab_streams \<Rightarrow> tab_streams" where
  "resubscribe i t =
     (let aft = streamResumeAfterId t (streams t ! i); t1 = t\<lparr>currentStream := None\<rparr> in
      if runActive t then subscribeRunStream aft t1 else t1)"

text \<open>The first component says that the stream is dealt with.\<close>

definition finishPausedRunStream :: "nat \<Rightarrow> tab_streams \<Rightarrow> bool \<times> tab_streams" where
  "finishPausedRunStream i t =
     (if currentStream t \<noteq> Some i then (True, t)
      else let t1 = upd_stream i (\<lambda>st. st\<lparr>reader := False, starting := False\<rparr>) t; st = streams t1 ! i in
        if detached st then (True, t1\<lparr>currentStream := None\<rparr>)
        else if \<not> pausedForApi st then (False, t1)
        else if resumeAfterPause st then (True, resubscribe i t1)
        else (True, t1))"

definition finishRunStreamIfQueueDrained :: "nat \<Rightarrow> tab_streams \<Rightarrow> tab_streams" where
  "finishRunStreamIfQueueDrained i t =
     (let st = streams t ! i in
      if \<not> readDone st \<or> runStreamQueueLength st > 0 \<or> messageQueueScheduled st then t
      else (case finishPausedRunStream i t of
          (True, t1) \<Rightarrow> t1
        | (False, t1) \<Rightarrow>
            t1\<lparr>currentStream := None,
               endedWithoutExit := endedWithoutExit t1 + (if sawTerminalEvent (streams t1 ! i) then 0 else 1)\<rparr>))"

definition enqueueRunStreamMessages :: "jsval list \<Rightarrow> stream \<Rightarrow> stream" where
  "enqueueRunStreamMessages msgs st =
     (if msgs = [] then st
      else st\<lparr>messageQueue := messageQueue st @ msgs, messageQueueScheduled := True\<rparr>)"

text \<open>\<open>RUN_STREAM_MESSAGE_BATCH_LIMIT\<close>; the time limit of a batch is the pace of the action.\<close>

definition batch_limit :: nat where
  "batch_limit = 750"

text \<open>What handling a message changes of the tab, as far as the streams read it.\<close>

definition handle_message :: "nat \<Rightarrow> tab_streams \<Rightarrow> jsval \<Rightarrow> tab_streams" where
  "handle_message i t msg =
     (let t0 = t\<lparr>handled := handled t @ [(i, msg)]\<rparr>;
          t1 = (if is_terminal msg then upd_stream i (\<lambda>st. st\<lparr>sawTerminalEvent := True\<rparr>) t0 else t0);
          t2 = (if truthy (jprop msg ''event_id'') then t1\<lparr>lastEventId := to_str (jprop msg ''event_id'')\<rparr> else t1)
      in if jprop msg ''type'' = JStr ''schema'' \<or> jprop msg ''event'' = JStr ''schema'' then t2
         else if jprop msg ''type'' = JStr ''exit'' then t2\<lparr>lastEventId := [], runActive := False\<rparr>
         else if jprop msg ''type'' = JStr ''error'' then t2\<lparr>runActive := False\<rparr>
         else t2)"

text \<open>The end of a drain: the new index, the emptied queue, and what follows.\<close>

definition advance_queue :: "nat \<Rightarrow> stream \<Rightarrow> stream" where
  "advance_queue k st =
     (let index = messageQueueIndex st + k in
      if index \<ge> length (messageQueue st) then st\<lparr>messageQueue := [], messageQueueIndex := 0, messageQueueScheduled := False\<rparr>
      else st\<lparr>messageQueueIndex := index, messageQueueScheduled := True\<rparr>)"

definition drainRunStreamMessageQueue :: "nat \<Rightarrow> nat \<Rightarrow> tab_streams \<Rightarrow> tab_streams" where
  "drainRunStreamMessageQueue i k t =
     (let st = streams t ! i;
          batch = take k (drop (messageQueueIndex st) (messageQueue st));
          t1 = foldl (handle_message i) t batch;
          t2 = upd_stream i (advance_queue k) t1
      in if runStreamQueueLength (streams t2 ! i) > 0 then t2 else finishRunStreamIfQueueDrained i t2)"

definition detachRunStreamForTab :: "tab_streams \<Rightarrow> tab_streams" where
  "detachRunStreamForTab t = (case currentStream t of
       None \<Rightarrow> t
     | Some i \<Rightarrow>
         (upd_stream i (\<lambda>st. st\<lparr>detached := True, pausedForApi := False, resumeAfterPause := False,
            cancelled := cancelled st \<or> reader st, reader := False\<rparr>) t)\<lparr>currentStream := None\<rparr>)"

definition pauseBackgroundRunStreams :: "tab_streams \<Rightarrow> tab_streams" where
  "pauseBackgroundRunStreams t = (case currentStream t of
       None \<Rightarrow> t
     | Some i \<Rightarrow>
         let st = streams t ! i in
         if pausedForApi st \<or> detached st then t
         else if \<not> runActive t then detachRunStreamForTab t
         else upd_stream i (\<lambda>st. st\<lparr>pausedForApi := True, resumeAfterPause := False,
                cancelled := cancelled st \<or> reader st, reader := False, starting := False\<rparr>) t)"

definition resumeBackgroundRunStreams :: "tab_streams \<Rightarrow> tab_streams" where
  "resumeBackgroundRunStreams t = (case currentStream t of
       None \<Rightarrow> t
     | Some i \<Rightarrow>
         let st = streams t ! i in
         if \<not> pausedForApi st \<or> detached st then t
         else if reader st then upd_stream i (\<lambda>st. st\<lparr>resumeAfterPause := True\<rparr>) t
         else resubscribe i t)"

text \<open>The answer to the request of a stream: a body, or a failure.\<close>

definition streamRunResponse :: "nat \<Rightarrow> tab_streams \<Rightarrow> tab_streams" where
  "streamRunResponse i t =
     (if detached (streams t ! i) then upd_stream i (\<lambda>st. st\<lparr>cancelled := True\<rparr>) t
      else let t1 = (upd_stream i (\<lambda>st. st\<lparr>reader := True, starting := False\<rparr>) t)\<lparr>currentStream := Some i\<rparr> in
        if pausedForApi (streams t1 ! i) \<and> \<not> resumeAfterPause (streams t1 ! i)
        then upd_stream i (\<lambda>st. st\<lparr>reader := False, cancelled := True\<rparr>) t1
        else upd_stream i (\<lambda>st. st\<lparr>reading := True\<rparr>) t1)"

definition fail_transport :: "tab_streams \<Rightarrow> tab_streams" where
  "fail_transport t = t\<lparr>currentStream := None, runActive := False, transportErrors := transportErrors t + 1\<rparr>"

definition streamRequestFailed :: "nat \<Rightarrow> tab_streams \<Rightarrow> tab_streams" where
  "streamRequestFailed i t =
     (let t1 = upd_stream i (\<lambda>st. st\<lparr>cancelled := True\<rparr>) t in if detached (streams t ! i) then t1 else fail_transport t1)"

text \<open>One turn of \<open>read\<close>: a chunk of text, the end of the body, or a failure.\<close>

definition readChunk :: "nat \<Rightarrow> string \<Rightarrow> tab_streams \<Rightarrow> tab_streams" where
  "readChunk i text t =
     (let parts = split_frames (buffer (streams t ! i) @ text) in
      upd_stream i (\<lambda>st. enqueueRunStreamMessages (frame_messages (butlast parts))
         (st\<lparr>buffer := last parts, received := received st @ text\<rparr>)) t)"

definition readEnd :: "nat \<Rightarrow> tab_streams \<Rightarrow> tab_streams" where
  "readEnd i t = finishRunStreamIfQueueDrained i (upd_stream i (\<lambda>st. st\<lparr>readDone := True, reader := False, reading := False\<rparr>) t)"

definition readFailed :: "nat \<Rightarrow> tab_streams \<Rightarrow> tab_streams" where
  "readFailed i t =
     (let t0 = upd_stream i (\<lambda>st. st\<lparr>reading := False\<rparr>) t in
      case finishPausedRunStream i t0 of (True, t1) \<Rightarrow> t1 | (False, t1) \<Rightarrow> fail_transport t1)"

datatype stream_action =
    Subscribe string
  | Response nat
  | RequestFailed nat
  | Chunk nat string
  | End nat
  | ReadFailed nat
  | Drain nat nat
  | Pause
  | Resume
  | Detach

text \<open>An awaited answer, an open body, and a body that still gives text.\<close>

definition awaiting :: "stream \<Rightarrow> bool" where
  "awaiting st \<longleftrightarrow> \<not> reading st \<and> \<not> cancelled st \<and> \<not> readDone st"

definition enabled :: "stream_action \<Rightarrow> tab_streams \<Rightarrow> bool" where
  "enabled a t = (case a of
       Response i \<Rightarrow> i < length (streams t) \<and> awaiting (streams t ! i)
     | RequestFailed i \<Rightarrow> i < length (streams t) \<and> awaiting (streams t ! i)
     | Chunk i text \<Rightarrow> i < length (streams t) \<and> reading (streams t ! i) \<and> \<not> cancelled (streams t ! i)
     | End i \<Rightarrow> i < length (streams t) \<and> reading (streams t ! i)
     | ReadFailed i \<Rightarrow> i < length (streams t) \<and> reading (streams t ! i)
     | Drain i k \<Rightarrow> i < length (streams t) \<and> messageQueueScheduled (streams t ! i) \<and> 1 \<le> k \<and> k \<le> batch_limit
         \<and> k \<le> runStreamQueueLength (streams t ! i)
     | _ \<Rightarrow> True)"

fun perform :: "stream_action \<Rightarrow> tab_streams \<Rightarrow> tab_streams" where
  "perform (Subscribe aft) t = subscribeRunStream aft t"
| "perform (Response i) t = streamRunResponse i t"
| "perform (RequestFailed i) t = streamRequestFailed i t"
| "perform (Chunk i text) t = readChunk i text t"
| "perform (End i) t = readEnd i t"
| "perform (ReadFailed i) t = readFailed i t"
| "perform (Drain i k) t = drainRunStreamMessageQueue i k t"
| "perform Pause t = pauseBackgroundRunStreams t"
| "perform Resume t = resumeBackgroundRunStreams t"
| "perform Detach t = detachRunStreamForTab t"

definition idle_tab :: tab_streams where
  "idle_tab = \<lparr>streams = [], currentStream = None, lastEventId = [], runActive = True, handled = [], endedWithoutExit = 0,
     transportErrors = 0\<rparr>"

inductive tab_reachable :: "tab_streams \<Rightarrow> bool" where
  start: "tab_reachable idle_tab"
| act: "tab_reachable t \<Longrightarrow> enabled a t \<Longrightarrow> tab_reachable (perform a t)"

section \<open>Frames do not depend on the chunks\<close>

lemma split_frames_nonempty [simp]: "split_frames s \<noteq> []"
  by (induction s rule: split_frames.induct) (auto split: list.splits)

lemma split_frames_append:
  "split_frames (x @ y) = butlast (split_frames x) @ split_frames (last (split_frames x) @ y)"
proof (induction x rule: split_frames.induct)
  case (3 c d s)
  show ?case
  proof (cases "c = NL \<and> d = NL")
    case True
    then show ?thesis using 3 by simp
  next
    case False
    obtain p ps where ps: "split_frames (d # s) = p # ps" by (cases "split_frames (d # s)") auto
    have ih: "split_frames ((d # s) @ y) = butlast (p # ps) @ split_frames (last (p # ps) @ y)"
      using 3(2) False ps by simp
    show ?thesis
    proof (cases ps)
      case Nil
      have "p = d # s"
        using ps Nil by (induction "d # s" arbitrary: d s p rule: split_frames.induct) (auto split: if_splits list.splits)
      then show ?thesis using False ps Nil by auto
    next
      case (Cons q qs)
      then show ?thesis using False ps ih by (auto simp: split: list.splits)
    qed
  qed
qed simp_all

section \<open>What the streams have received and handled\<close>

definition pending :: "stream \<Rightarrow> jsval list" where
  "pending st = drop (messageQueueIndex st) (messageQueue st)"

definition delivery :: "tab_streams \<Rightarrow> nat \<Rightarrow> jsval list" where
  "delivery t i = map snd (filter (\<lambda>p. fst p = i) (handled t))"

definition stream_inv :: "jsval list \<Rightarrow> stream \<Rightarrow> bool" where
  "stream_inv hs st \<longleftrightarrow>
     hs @ pending st = frame_messages (butlast (split_frames (received st)))
     \<and> buffer st = last (split_frames (received st)) \<and> messageQueueIndex st \<le> length (messageQueue st)
     \<and> messageQueueScheduled st = (pending st \<noteq> [])
     \<and> (readDone st \<longrightarrow> \<not> reader st \<and> \<not> reading st)"

definition delivery_inv :: "tab_streams \<Rightarrow> bool" where
  "delivery_inv t \<longleftrightarrow> (\<forall>i<length (streams t). stream_inv (delivery t i) (streams t ! i)) \<and> (\<forall>p \<in> set (handled t). fst p < length (streams t))"

lemma queue_length: "runStreamQueueLength st = length (pending st)"
  by (simp add: runStreamQueueLength_def pending_def)

text \<open>An operation that changes neither the queue, nor the text, nor the log keeps the invariant.\<close>

definition quiet :: "(stream \<Rightarrow> stream) \<Rightarrow> bool" where
  "quiet f \<longleftrightarrow> (\<forall>hs st. stream_inv hs st \<longrightarrow> stream_inv hs (f st))"

lemma inv_upd:
  assumes "delivery_inv t" "\<And>hs. i < length (streams t) \<Longrightarrow> stream_inv hs (streams t ! i) \<Longrightarrow> stream_inv hs (f (streams t ! i))"
  shows "delivery_inv (upd_stream i f t)"
proof -
  have "stream_inv (delivery t j) ((streams t)[i := f (streams t ! i)] ! j)" if "j < length (streams t)" for j
    using assms that by (cases "j = i") (auto simp: delivery_inv_def)
  then show ?thesis using assms(1) by (simp add: delivery_inv_def upd_stream_def delivery_def)
qed

lemma inv_upd_quiet: "quiet f \<Longrightarrow> delivery_inv t \<Longrightarrow> delivery_inv (upd_stream i f t)"
  by (rule inv_upd) (simp_all add: quiet_def)

lemma inv_fields [simp]:
  "delivery_inv (t\<lparr>currentStream := c\<rparr>) = delivery_inv t" "delivery_inv (t\<lparr>lastEventId := e\<rparr>) = delivery_inv t"
  "delivery_inv (t\<lparr>runActive := b\<rparr>) = delivery_inv t" "delivery_inv (t\<lparr>endedWithoutExit := n\<rparr>) = delivery_inv t"
  "delivery_inv (t\<lparr>transportErrors := n\<rparr>) = delivery_inv t"
  by (simp_all add: delivery_inv_def delivery_def)

lemma inv_new: "delivery_inv t \<Longrightarrow> delivery_inv (t\<lparr>streams := streams t @ [new_stream aft]\<rparr>)"
proof -
  assume inv: "delivery_inv t"
  have "delivery t (length (streams t)) = []"
    using inv by (auto simp: delivery_inv_def delivery_def filter_empty_conv)
  moreover have "stream_inv [] (new_stream aft)" by (simp add: stream_inv_def new_stream_def pending_def frame_messages_def)
  ultimately show ?thesis using inv by (auto simp: delivery_inv_def delivery_def nth_append less_Suc_eq)
qed

lemma inv_subscribe: "delivery_inv t \<Longrightarrow> delivery_inv (subscribeRunStream aft t)"
  using inv_new [of t aft] by (simp add: subscribeRunStream_def delivery_inv_def delivery_def)

lemma inv_resubscribe: "delivery_inv t \<Longrightarrow> delivery_inv (resubscribe i t)"
  by (simp add: resubscribe_def Let_def inv_subscribe)

lemma quiet_simps [simp]:
  "quiet (\<lambda>st. st\<lparr>reader := False, starting := False\<rparr>)" "quiet (\<lambda>st. st\<lparr>resumeAfterPause := b\<rparr>)"
  "quiet (\<lambda>st. st\<lparr>cancelled := b\<rparr>)" "quiet (\<lambda>st. st\<lparr>reader := False, cancelled := b\<rparr>)" "quiet (\<lambda>st. st\<lparr>reading := False\<rparr>)"
  "quiet (\<lambda>st. st\<lparr>readDone := True, reader := False, reading := False\<rparr>)" "quiet (\<lambda>st. st\<lparr>sawTerminalEvent := b\<rparr>)"
  by (simp_all add: quiet_def stream_inv_def pending_def)

lemma inv_finish_paused: "delivery_inv t \<Longrightarrow> delivery_inv (snd (finishPausedRunStream i t))"
  by (simp add: finishPausedRunStream_def Let_def inv_upd_quiet inv_resubscribe)

lemma inv_finish: "delivery_inv t \<Longrightarrow> delivery_inv (finishRunStreamIfQueueDrained i t)"
  using inv_finish_paused [of t i] by (auto simp: finishRunStreamIfQueueDrained_def Let_def split: prod.splits bool.splits)

lemma upd_stream_nth [simp]: "i < length (streams t) \<Longrightarrow> streams (upd_stream i f t) ! i = f (streams t ! i)"
  by (simp add: upd_stream_def)

lemma upd_stream_fields [simp]:
  "length (streams (upd_stream i f t)) = length (streams t)" "handled (upd_stream i f t) = handled t"
  "currentStream (upd_stream i f t) = currentStream t" "runActive (upd_stream i f t) = runActive t"
  by (simp_all add: upd_stream_def)

lemma inv_detach: "delivery_inv t \<Longrightarrow> delivery_inv (detachRunStreamForTab t)"
  by (auto simp: detachRunStreamForTab_def stream_inv_def pending_def intro!: inv_upd split: option.splits)

lemma inv_pause: "delivery_inv t \<Longrightarrow> delivery_inv (pauseBackgroundRunStreams t)"
  by (auto simp: pauseBackgroundRunStreams_def Let_def stream_inv_def pending_def inv_detach intro!: inv_upd split: option.splits)

lemma inv_resume: "delivery_inv t \<Longrightarrow> delivery_inv (resumeBackgroundRunStreams t)"
  by (auto simp: resumeBackgroundRunStreams_def Let_def inv_resubscribe inv_upd_quiet split: option.splits)

lemma inv_response:
  assumes "delivery_inv t" "i < length (streams t)" "awaiting (streams t ! i)"
  shows "delivery_inv (streamRunResponse i t)"
proof -
  have "delivery_inv (upd_stream i (\<lambda>st. st\<lparr>reader := True, starting := False\<rparr>) t)"
    using assms by (intro inv_upd) (auto simp: awaiting_def stream_inv_def pending_def)
  moreover have "delivery_inv (upd_stream i (\<lambda>st. st\<lparr>reading := True\<rparr>) t')"
    if "delivery_inv t'" "\<not> readDone (streams t' ! i)" for t'
    using that by (intro inv_upd) (auto simp: stream_inv_def pending_def)
  ultimately show ?thesis
    using assms by (auto simp: streamRunResponse_def Let_def inv_upd_quiet awaiting_def)
qed

lemma inv_request_failed: "delivery_inv t \<Longrightarrow> delivery_inv (streamRequestFailed i t)"
  by (simp add: streamRequestFailed_def Let_def fail_transport_def inv_upd_quiet)

lemma inv_read_failed: "delivery_inv t \<Longrightarrow> delivery_inv (readFailed i t)"
  using inv_finish_paused [of "upd_stream i (\<lambda>st. st\<lparr>reading := False\<rparr>) t" i]
  by (auto simp: readFailed_def Let_def fail_transport_def inv_upd_quiet split: prod.splits bool.splits)

lemma inv_read_end: "delivery_inv t \<Longrightarrow> delivery_inv (readEnd i t)"
  by (simp add: readEnd_def inv_finish inv_upd_quiet)

lemma inv_read_chunk: "delivery_inv t \<Longrightarrow> delivery_inv (readChunk i text t)"
proof -
  assume inv: "delivery_inv t"
  have "stream_inv hs (enqueueRunStreamMessages (frame_messages (butlast (split_frames (buffer st @ text))))
      (st\<lparr>buffer := last (split_frames (buffer st @ text)), received := received st @ text\<rparr>))"
    if "stream_inv hs st" for hs st
  proof -
    have "frame_messages (butlast (split_frames (received st @ text)))
        = frame_messages (butlast (split_frames (received st))) @ frame_messages (butlast (split_frames (buffer st @ text)))"
      using that by (simp add: split_frames_append [of "received st"] stream_inv_def frame_messages_def butlast_append)
    moreover have "last (split_frames (received st @ text)) = last (split_frames (buffer st @ text))"
      using that by (simp add: split_frames_append [of "received st"] stream_inv_def)
    ultimately show ?thesis
      using that by (auto simp: stream_inv_def enqueueRunStreamMessages_def pending_def)
  qed
  then show ?thesis using inv unfolding readChunk_def Let_def by (intro inv_upd)
qed

subsection \<open>Draining\<close>

definition core :: "stream \<Rightarrow> (jsval list \<times> nat \<times> bool) \<times> (string \<times> string) \<times> bool \<times> bool \<times> bool" where
  "core st = ((messageQueue st, messageQueueIndex st, messageQueueScheduled st), (buffer st, received st), readDone st, reader st, reading st)"

lemma stream_inv_core: "core a = core b \<Longrightarrow> stream_inv hs a \<longleftrightarrow> stream_inv hs b"
  by (simp add: core_def stream_inv_def pending_def)

lemma nth_list_upd: "(xs[i := y]) ! j = (if i = j \<and> i < length xs then y else xs ! j)"
  by (cases "i < length xs") (auto simp: nth_list_update list_update_beyond)

lemma handle_message_core:
  "handled (handle_message i t msg) = handled t @ [(i, msg)]" "length (streams (handle_message i t msg)) = length (streams t)"
  "core (streams (handle_message i t msg) ! j) = core (streams t ! j)" "currentStream (handle_message i t msg) = currentStream t"
  by (simp_all add: handle_message_def Let_def upd_stream_def core_def nth_list_upd)

lemma handle_messages_core:
  "handled (foldl (handle_message i) t msgs) = handled t @ map (Pair i) msgs"
  "length (streams (foldl (handle_message i) t msgs)) = length (streams t)"
  "core (streams (foldl (handle_message i) t msgs) ! j) = core (streams t ! j)"
  "currentStream (foldl (handle_message i) t msgs) = currentStream t"
  by (induction msgs arbitrary: t) (simp_all add: handle_message_core)

lemma advance_queue_inv:
  assumes "stream_inv hs st" "k \<le> length (pending st)"
  shows "stream_inv (hs @ take k (pending st)) (advance_queue k st)"
proof (cases "length (messageQueue st) \<le> messageQueueIndex st + k")
  case True
  then have "take k (pending st) = pending st" by (simp add: pending_def)
  then show ?thesis using assms True by (simp add: advance_queue_def stream_inv_def pending_def Let_def)
next
  case False
  have "take k (pending st) @ drop (messageQueueIndex st + k) (messageQueue st) = pending st"
    unfolding pending_def by (metis append_take_drop_id drop_drop add.commute)
  then show ?thesis using assms False by (simp add: advance_queue_def stream_inv_def pending_def Let_def)
qed

lemma inv_drain:
  assumes inv: "delivery_inv t" and i: "i < length (streams t)" and k: "k \<le> runStreamQueueLength (streams t ! i)"
  shows "delivery_inv (drainRunStreamMessageQueue i k t)"
proof -
  let ?batch = "take k (pending (streams t ! i))"
  let ?t1 = "foldl (handle_message i) t ?batch" and ?t2 = "upd_stream i (advance_queue k) (foldl (handle_message i) t ?batch)"
  note h = handle_messages_core [where i = i and t = t and msgs = ?batch]
  have del: "delivery ?t1 j = delivery t j @ (if j = i then ?batch else [])" for j
    by (simp add: delivery_def h(1) filter_map o_def)
  have "delivery_inv ?t2"
  proof -
    have "stream_inv (delivery t i @ ?batch) (advance_queue k (streams ?t1 ! i))"
    proof -
      have "pending (streams ?t1 ! i) = pending (streams t ! i)" using h(3) [of i] by (simp add: core_def pending_def)
      moreover have "stream_inv (delivery t i) (streams ?t1 ! i)"
        using inv i stream_inv_core [OF h(3) [of i]] by (simp add: delivery_inv_def)
      ultimately show ?thesis using advance_queue_inv [of "delivery t i" "streams ?t1 ! i" k] k by (simp add: queue_length)
    qed
    moreover have "stream_inv (delivery t j) (streams ?t1 ! j)" if "j < length (streams t)" for j
      using inv that stream_inv_core [OF h(3) [of j]] by (simp add: delivery_inv_def)
    ultimately have "stream_inv (delivery ?t2 j) (streams ?t2 ! j)" if "j < length (streams ?t2)" for j
      using that i by (cases "j = i") (simp_all add: delivery_def h(1) h(2) filter_map o_def upd_stream_def)
    moreover have "\<forall>p \<in> set (handled ?t2). fst p < length (streams ?t2)"
      using inv i by (auto simp: h(1) h(2) delivery_inv_def)
    ultimately show ?thesis unfolding delivery_inv_def by blast
  qed
  then show ?thesis
    unfolding drainRunStreamMessageQueue_def Let_def pending_def [symmetric] by (simp add: inv_finish)
qed

interpretation delivery: machine enabled perform delivery_inv
proof
  fix t a
  assume "delivery_inv t" "enabled a t"
  then show "delivery_inv (perform a t)"
    by (cases a) (simp_all add: enabled_def inv_subscribe inv_response inv_request_failed inv_read_chunk inv_read_end
        inv_read_failed inv_drain inv_pause inv_resume inv_detach)
qed

text \<open>The reachable states are those the runs of the idle tab end in.\<close>

lemma reachable_run: "tab_reachable t \<longleftrightarrow> (\<exists>as. run_all enabled perform as idle_tab = Some t)"
proof
  assume "tab_reachable t"
  then show "\<exists>as. run_all enabled perform as idle_tab = Some t"
  proof (induction rule: tab_reachable.induct)
    case start
    show ?case by (rule exI [of _ "[]"]) simp
  next
    case (act t a)
    then obtain as where "run_all enabled perform as idle_tab = Some t" by blast
    with act show ?case by (intro exI [of _ "as @ [a]"]) (simp add: run_all_append)
  qed
next
  have "run_all enabled perform as u = Some t \<Longrightarrow> tab_reachable u \<Longrightarrow> tab_reachable t" for as u t
    by (induction as arbitrary: u) (auto split: if_splits intro: tab_reachable.act)
  then show "\<exists>as. run_all enabled perform as idle_tab = Some t \<Longrightarrow> tab_reachable t" using tab_reachable.start by blast
qed

lemma reachable_delivery: "tab_reachable t \<Longrightarrow> delivery_inv t"
  using delivery.run_holds [of idle_tab] by (auto simp: reachable_run delivery_inv_def idle_tab_def)

text \<open>
  \<^bold>\<open>C37.\<close> The output of a run is neither lost, nor repeated, nor reordered inside a stream: whatever way
  the text of the server is cut into chunks, and however reading, draining, pausing and resuming
  interleave, the messages a stream has handled followed by those still in its queue are exactly the
  messages of the complete frames of the text received so far, in their order; and a message that waits
  in the queue always has a drain scheduled that will get to it.
\<close>

theorem stream_delivers_all:
  assumes "tab_reachable t" "i < length (streams t)"
  shows "delivery t i @ pending (streams t ! i) = frame_messages (butlast (split_frames (received (streams t ! i))))
    \<and> (pending (streams t ! i) \<noteq> [] \<longleftrightarrow> enabled (Drain i 1) t)"
proof -
  have "stream_inv (delivery t i) (streams t ! i)" using reachable_delivery [OF assms(1)] assms(2) by (simp add: delivery_inv_def)
  then show ?thesis
    using assms(2) by (auto simp: stream_inv_def enabled_def queue_length batch_limit_def Suc_le_eq)
qed

theorem stream_delivers_all_witness:
  "\<exists>t. run_all enabled perform [Subscribe [], Response 0, Chunk 0 ''data: 7'', Chunk 0 [NL, NL]] idle_tab = Some t
     \<and> delivery t 0 @ pending (streams t ! 0) = frame_messages (butlast (split_frames (received (streams t ! 0))))
     \<and> enabled (Drain 0 1) t"
proof -
  let ?as = "[Subscribe [], Response 0, Chunk 0 ''data: 7'', Chunk 0 [NL, NL]]"
  have "case run_all enabled perform ?as idle_tab of Some t \<Rightarrow> 0 < length (streams t) \<and> enabled (Drain 0 1) t | None \<Rightarrow> False"
    by code_simp
  then obtain t where t: "run_all enabled perform ?as idle_tab = Some t" "0 < length (streams t)" "enabled (Drain 0 1) t"
    by (auto split: option.splits)
  have "tab_reachable t" using t(1) unfolding reachable_run by blast
  from stream_delivers_all [OF this t(2)] t show ?thesis by blast
qed

section \<open>The end of a stream\<close>

text \<open>
  A stream that has ended and is drained is no longer the current one, unless it is paused and waits
  for the resumption.
\<close>

definition ended :: "stream \<Rightarrow> bool" where
  "ended st \<longleftrightarrow> readDone st \<and> pending st = []"

definition settled_inv :: "tab_streams \<Rightarrow> bool" where
  "settled_inv t \<longleftrightarrow> (\<forall>i. currentStream t = Some i \<longrightarrow>
     i < length (streams t) \<and> (ended (streams t ! i) \<longrightarrow> pausedForApi (streams t ! i) \<and> \<not> resumeAfterPause (streams t ! i)))"

lemma settled_None [simp]: "currentStream t = None \<Longrightarrow> settled_inv t"
  by (simp add: settled_inv_def)

lemma settled_subscribe: "settled_inv t \<Longrightarrow> settled_inv (subscribeRunStream aft t)"
  by (auto simp: settled_inv_def subscribeRunStream_def ended_def new_stream_def nth_append split: option.splits)

lemma settled_resubscribe: "settled_inv (resubscribe i t)"
  by (simp add: resubscribe_def Let_def settled_subscribe)

lemma settled_finish:
  assumes cur: "\<forall>j. currentStream t = Some j \<longrightarrow> j < length (streams t) \<and>
      (j \<noteq> i \<longrightarrow> ended (streams t ! j) \<longrightarrow> pausedForApi (streams t ! j) \<and> \<not> resumeAfterPause (streams t ! j))"
    and fin: "ended (streams t ! i) \<longrightarrow> \<not> messageQueueScheduled (streams t ! i)"
  shows "settled_inv (finishRunStreamIfQueueDrained i t)"
proof (cases "currentStream t = Some i \<and> ended (streams t ! i)")
  case True
  then have i: "i < length (streams t)" "readDone (streams t ! i)" "pending (streams t ! i) = []" "\<not> messageQueueScheduled (streams t ! i)"
    using cur fin by (auto simp: ended_def)
  let ?t1 = "upd_stream i (\<lambda>st. st\<lparr>reader := False, starting := False\<rparr>) t"
  have "settled_inv ?t1" if "pausedForApi (streams t ! i)" "\<not> resumeAfterPause (streams t ! i)"
    using True that i(1) by (simp add: settled_inv_def)
  with True i show ?thesis
    by (auto simp: finishRunStreamIfQueueDrained_def finishPausedRunStream_def queue_length Let_def settled_resubscribe)
next
  case False
  have "finishPausedRunStream i t = (True, t)" if "currentStream t \<noteq> Some i" using that by (simp add: finishPausedRunStream_def)
  then have "finishRunStreamIfQueueDrained i t = t"
    using False by (auto simp: finishRunStreamIfQueueDrained_def Let_def ended_def queue_length)
  moreover have "settled_inv t" using cur False by (auto simp: settled_inv_def)
  ultimately show ?thesis by simp
qed

lemma settled_upd:
  assumes "settled_inv t"
    and "currentStream t = Some i \<Longrightarrow> i < length (streams t) \<Longrightarrow> ended (f (streams t ! i)) \<Longrightarrow>
      pausedForApi (f (streams t ! i)) \<and> \<not> resumeAfterPause (f (streams t ! i))"
  shows "settled_inv (upd_stream i f t)"
  unfolding settled_inv_def
proof (intro allI impI)
  fix j
  assume "currentStream (upd_stream i f t) = Some j"
  then have j: "currentStream t = Some j" "j < length (streams t)" using assms(1) by (simp_all add: settled_inv_def)
  then show "j < length (streams (upd_stream i f t)) \<and> (ended (streams (upd_stream i f t) ! j) \<longrightarrow>
      pausedForApi (streams (upd_stream i f t) ! j) \<and> \<not> resumeAfterPause (streams (upd_stream i f t) ! j))"
    using assms by (cases "j = i") (auto simp: settled_inv_def upd_stream_def)
qed

lemma settled_fields [simp]:
  "settled_inv (t\<lparr>lastEventId := e\<rparr>) = settled_inv t" "settled_inv (t\<lparr>runActive := b\<rparr>) = settled_inv t"
  "settled_inv (t\<lparr>handled := h\<rparr>) = settled_inv t"
  by (simp_all add: settled_inv_def)

lemma settled_detach: "settled_inv (detachRunStreamForTab t)"
  by (auto simp: detachRunStreamForTab_def split: option.splits)

lemma settled_pause: "settled_inv t \<Longrightarrow> settled_inv (pauseBackgroundRunStreams t)"
  by (auto simp: pauseBackgroundRunStreams_def Let_def settled_detach intro!: settled_upd split: option.splits)

lemma settled_resume:
  assumes "settled_inv t" "delivery_inv t"
  shows "settled_inv (resumeBackgroundRunStreams t)"
proof -
  have "\<not> ended (streams t ! i)" if "i < length (streams t)" "reader (streams t ! i)" for i
    using assms(2) that by (auto simp: delivery_inv_def stream_inv_def ended_def)
  then have "settled_inv (upd_stream i (\<lambda>st. st\<lparr>resumeAfterPause := True\<rparr>) t)" if "i < length (streams t)" "reader (streams t ! i)" for i
    using assms(1) that by (intro settled_upd) (auto simp: ended_def pending_def)
  moreover have "i < length (streams t)" if "currentStream t = Some i" for i
    using assms(1) that by (simp add: settled_inv_def)
  ultimately show ?thesis
    using assms(1) by (simp add: resumeBackgroundRunStreams_def Let_def settled_resubscribe split: option.split)
qed

lemma settled_cancel: "settled_inv t \<Longrightarrow> settled_inv (upd_stream i (\<lambda>st. st\<lparr>cancelled := b\<rparr>) t)"
  by (rule settled_upd) (auto simp: settled_inv_def ended_def pending_def)

lemma settled_response:
  assumes "settled_inv t" "i < length (streams t)" "awaiting (streams t ! i)"
  shows "settled_inv (streamRunResponse i t)"
proof (cases "detached (streams t ! i)")
  case True
  then show ?thesis using assms(1) by (simp add: streamRunResponse_def settled_cancel)
next
  case False
  then show ?thesis using assms(2,3) by (simp add: streamRunResponse_def Let_def settled_inv_def ended_def awaiting_def upd_stream_def)
qed

lemma settled_request_failed: "settled_inv t \<Longrightarrow> settled_inv (streamRequestFailed i t)"
  by (simp add: streamRequestFailed_def Let_def fail_transport_def settled_cancel)

lemma settled_chunk:
  assumes "settled_inv t" "delivery_inv t" "i < length (streams t)" "reading (streams t ! i)"
  shows "settled_inv (readChunk i text t)"
proof -
  have "\<not> readDone (streams t ! i)" using assms by (auto simp: delivery_inv_def stream_inv_def)
  then have "\<not> ended (enqueueRunStreamMessages ms ((streams t ! i)\<lparr>buffer := x, received := y\<rparr>))" for ms x y
    by (simp add: ended_def enqueueRunStreamMessages_def)
  then show ?thesis
    using assms(1) unfolding readChunk_def Let_def by (intro settled_upd) auto
qed

lemma settled_read_end:
  assumes "settled_inv t" "delivery_inv t" "i < length (streams t)"
  shows "settled_inv (readEnd i t)"
  unfolding readEnd_def
proof (rule settled_finish)
  let ?t = "upd_stream i (\<lambda>st. st\<lparr>readDone := True, reader := False, reading := False\<rparr>) t"
  show "\<forall>j. currentStream ?t = Some j \<longrightarrow> j < length (streams ?t) \<and>
      (j \<noteq> i \<longrightarrow> ended (streams ?t ! j) \<longrightarrow> pausedForApi (streams ?t ! j) \<and> \<not> resumeAfterPause (streams ?t ! j))"
    using assms(1) by (auto simp: settled_inv_def upd_stream_def)
  show "ended (streams ?t ! i) \<longrightarrow> \<not> messageQueueScheduled (streams ?t ! i)"
    using assms(2,3) by (auto simp: delivery_inv_def stream_inv_def ended_def pending_def)
qed

lemma settled_read_failed:
  assumes "settled_inv t" "delivery_inv t" "i < length (streams t)" "reading (streams t ! i)"
  shows "settled_inv (readFailed i t)"
proof -
  have "\<not> readDone (streams t ! i)" using assms by (auto simp: delivery_inv_def stream_inv_def)
  then have "settled_inv (upd_stream i (\<lambda>st. st\<lparr>reading := False\<rparr>) t)"
    using assms(1) by (intro settled_upd) (simp_all add: ended_def)
  then have "settled_inv (upd_stream i (\<lambda>st. st\<lparr>reader := False, starting := False\<rparr>) (upd_stream i (\<lambda>st. st\<lparr>reading := False\<rparr>) t))"
    using assms(3) \<open>\<not> readDone (streams t ! i)\<close> by - (rule settled_upd, simp_all add: ended_def)
  moreover note \<open>settled_inv (upd_stream i (\<lambda>st. st\<lparr>reading := False\<rparr>) t)\<close>
  ultimately show ?thesis
    by (simp add: readFailed_def finishPausedRunStream_def Let_def fail_transport_def settled_resubscribe)
qed

definition pause_state :: "stream \<Rightarrow> bool \<times> bool" where
  "pause_state st = (pausedForApi st, resumeAfterPause st)"

lemma handle_messages_pause:
  "pause_state (streams (foldl (handle_message i) t msgs) ! j) = pause_state (streams t ! j)"
  by (induction msgs arbitrary: t) (simp_all add: handle_message_def Let_def upd_stream_def pause_state_def nth_list_upd)

lemma settled_drain:
  assumes inv: "delivery_inv t" and set: "settled_inv t" and i: "i < length (streams t)"
    and k: "1 \<le> k" "k \<le> runStreamQueueLength (streams t ! i)"
  shows "settled_inv (drainRunStreamMessageQueue i k t)"
proof -
  let ?batch = "take k (pending (streams t ! i))"
  let ?t1 = "foldl (handle_message i) t ?batch"
  let ?t2 = "upd_stream i (advance_queue k) ?t1"
  note h = handle_messages_core [where i = i and t = t and msgs = ?batch]
  have keep: "core (streams ?t2 ! j) = core (streams t ! j) \<and> pause_state (streams ?t2 ! j) = pause_state (streams t ! j)" if "j \<noteq> i" for j
    using that h(3) [of j] handle_messages_pause [of i t ?batch j] by (simp add: upd_stream_def)
  have same: "ended (streams ?t2 ! j) = ended (streams t ! j)" "pausedForApi (streams ?t2 ! j) = pausedForApi (streams t ! j)"
    "resumeAfterPause (streams ?t2 ! j) = resumeAfterPause (streams t ! j)" if "j \<noteq> i" for j
    using keep [OF that] by (auto simp: core_def pause_state_def ended_def pending_def)
  have cur: "\<forall>j. currentStream ?t2 = Some j \<longrightarrow> j < length (streams ?t2) \<and>
      (j \<noteq> i \<longrightarrow> ended (streams ?t2 ! j) \<longrightarrow> pausedForApi (streams ?t2 ! j) \<and> \<not> resumeAfterPause (streams ?t2 ! j))"
    using set same by (simp add: settled_inv_def h(2) h(4))
  have at: "streams ?t2 ! i = advance_queue k (streams ?t1 ! i)" using i by (simp add: h(2))
  have fin: "pending (streams ?t2 ! i) = [] \<longrightarrow> \<not> messageQueueScheduled (streams ?t2 ! i)"
    unfolding at by (simp add: advance_queue_def pending_def Let_def)
  then have "settled_inv (finishRunStreamIfQueueDrained i ?t2)"
    by (intro settled_finish) (use cur in \<open>auto simp: ended_def\<close>)
  moreover have "settled_inv ?t2" if "runStreamQueueLength (streams ?t2 ! i) > 0"
    using that cur unfolding settled_inv_def by (metis ended_def queue_length length_greater_0_conv)
  ultimately show ?thesis
    unfolding drainRunStreamMessageQueue_def Let_def pending_def [symmetric] by simp
qed

interpretation settled: machine enabled perform "\<lambda>t. delivery_inv t \<and> settled_inv t"
proof
  fix t a
  assume "delivery_inv t \<and> settled_inv t" "enabled a t"
  then show "delivery_inv (perform a t) \<and> settled_inv (perform a t)"
    using delivery.keeps [of t a]
    by (cases a) (simp_all add: enabled_def settled_subscribe settled_response settled_request_failed settled_chunk settled_read_end
        settled_read_failed settled_drain settled_pause settled_resume settled_detach)
qed

lemma reachable_settled: "tab_reachable t \<Longrightarrow> settled_inv t"
  using settled.run_holds [of idle_tab] by (auto simp: reachable_run settled_inv_def delivery_inv_def idle_tab_def)

text \<open>
  \<^bold>\<open>C38.\<close> A finished stream does not block its tab: in every reachable state the stream a tab holds as its
  current one exists, and if its body has ended and its queue is empty then it is a paused stream that
  nobody has asked to resume. Every other stream is dropped from the tab when its last message has
  been handled, so a new subscription of the tab goes through.
\<close>

theorem finished_stream_released:
  assumes "tab_reachable t" "currentStream t = Some i"
  shows "i < length (streams t) \<and>
    (readDone (streams t ! i) \<and> runStreamQueueLength (streams t ! i) = 0 \<longrightarrow>
       pausedForApi (streams t ! i) \<and> \<not> resumeAfterPause (streams t ! i)
       \<and> length (streams (subscribeRunStream aft t)) = Suc (length (streams t)))"
  using reachable_settled [OF assms(1)] assms(2)
  by (auto simp: settled_inv_def ended_def queue_length subscribeRunStream_def busy_def)

theorem finished_stream_released_witness:
  "\<exists>t. run_all enabled perform [Subscribe [], Response 0, Pause, End 0] idle_tab = Some t \<and> currentStream t = Some 0
     \<and> readDone (streams t ! 0) \<and> runStreamQueueLength (streams t ! 0) = 0
     \<and> length (streams (subscribeRunStream ''4'' t)) = Suc (length (streams t))"
proof -
  let ?as = "[Subscribe [], Response 0, Pause, End 0]"
  have "case run_all enabled perform ?as idle_tab of
      Some t \<Rightarrow> currentStream t = Some 0 \<and> readDone (streams t ! 0) \<and> runStreamQueueLength (streams t ! 0) = 0 | None \<Rightarrow> False"
    by code_simp
  then obtain t where t: "run_all enabled perform ?as idle_tab = Some t" "currentStream t = Some 0" "readDone (streams t ! 0)"
      "runStreamQueueLength (streams t ! 0) = 0"
    by (auto split: option.splits)
  have "tab_reachable t" using t(1) unfolding reachable_run by blast
  from finished_stream_released [OF this t(2), of "''4''"] t show ?thesis by blast
qed

text \<open>
  The tab does not, however, have at most one live stream. A subscription that is paused before the
  server has answered, and resumed, is replaced by a second one; when the answer to the first arrives
  after that of the second, the first takes the entry of the tab back, still paused, and the next
  resumption subscribes a third time while the second is still being read: both append the output of
  the run.
\<close>

definition live :: "stream \<Rightarrow> bool" where
  "live st \<longleftrightarrow> reading st \<and> \<not> cancelled st \<and> \<not> detached st \<and> \<not> pausedForApi st"

lemma two_live_streams:
  "\<exists>t. tab_reachable t \<and> live (streams t ! 1) \<and> live (streams t ! 2) \<and> length (streams t) = 3"
proof -
  let ?as = "[Subscribe [], Pause, Resume, Response 1, Response 0, Resume, Response 2]"
  have "case run_all enabled perform ?as idle_tab of
      Some t \<Rightarrow> live (streams t ! 1) \<and> live (streams t ! 2) \<and> length (streams t) = 3 | None \<Rightarrow> False"
    by code_simp
  then obtain t where t: "run_all enabled perform ?as idle_tab = Some t" "live (streams t ! 1)" "live (streams t ! 2)" "length (streams t) = 3"
    by (auto split: option.splits)
  have "tab_reachable t" using t(1) unfolding reachable_run by blast
  with t show ?thesis by blast
qed

end
