(* ===== verification/Workspace_Commands.thy ===== *)
theory Workspace_Commands
  imports Workspace_Core JS_Sort
begin

text \<open>
  The commands of the workspace terminal, \<open>app/static/js/features/runner/runner_workspace.js\<close>: splitting a
  command line into words, the parsers of the file commands, and the resolution of their operands
  against the cached listing of the workspace
  (\<open>app/static/js/features/workspace/workspace_autocomplete_cache.js\<close>), glob patterns included.
  \<open>localeCompare\<close> is a parameter. The path helpers of \<open>core/workspace_core.js\<close> are always imported, so the
  local copy of the path walk that the file falls back on is not reached.
\<close>

section \<open>Words\<close>

definition quoted_rx :: "char \<Rightarrow> rx" where
  "quoted_rx q = rx_seq [RChr (\<lambda>c. c = q), rx_star (RChr (\<lambda>c. c \<noteq> q)), RChr (\<lambda>c. c = q)]"

definition command_token_re :: rx where
  "command_token_re = rx_alt [quoted_rx DQ, quoted_rx SQ, rx_plus rx_nonws]"

definition strip_quotes :: "string \<Rightarrow> string" where
  "strip_quotes token =
     (if length token \<ge> 2 \<and> (hd token = DQ \<and> last token = DQ \<or> hd token = SQ \<and> last token = SQ)
      then butlast (tl token) else token)"

definition workspaceCommandTokens :: "string \<Rightarrow> string list" where
  "workspaceCommandTokens cmd = map (\<lambda>m. strip_quotes (fst m)) (rx_matchAll command_token_re (trim cmd))"

text \<open>\<open>parts[n] || ''\<close>.\<close>

definition part_at :: "string list \<Rightarrow> nat \<Rightarrow> string" where
  "part_at parts n = (if n < length parts then parts ! n else [])"

abbreviation root_word :: "string list \<Rightarrow> string" where
  "root_word parts \<equiv> toLowerCase (part_at parts 0)"

abbreviation action_word :: "string list \<Rightarrow> string" where
  "action_word parts \<equiv> toLowerCase (part_at parts 1)"

section \<open>The parsers\<close>

record delete_command =
  d_target :: string
  d_recursive :: bool
  d_force :: bool
  d_usage :: string
  d_invalid :: bool

definition delete_flag_re :: rx where
  "delete_flag_re = rx_anchored (RSeq (RChr (\<lambda>c. c = CHR ''-'')) (rx_plus (RChr (\<lambda>c. c = CHR ''r'' \<or> c = CHR ''f''))))"

definition is_delete_flag :: "string \<Rightarrow> bool" where
  "is_delete_flag part = rx_test delete_flag_re part"

definition workspaceDeleteCommand :: "string \<Rightarrow> delete_command option" where
  "workspaceDeleteCommand cmd =
     (let parts = workspaceCommandTokens cmd;
          rt = root_word parts;
          fileAction = toLowerCase (if part_at parts 1 \<noteq> [] then part_at parts 1 else ''delete'');
          usage = (if rt = ''file'' then ''Usage: file '' @ fileAction @ '' [-r|-f|-rf] <file-or-folder>''
                   else ''Usage: rm [-r|-f|-rf] <file-or-folder>'');
          start = (if rt = ''file'' then 2 else 1 :: nat)
      in if rt = ''file'' \<and> action_word parts \<notin> {''rm'', ''delete''} then None
         else if rt \<noteq> ''rm'' \<and> rt \<noteq> ''file'' then None
         else
           let args = drop start parts;
               flags = filter is_delete_flag args;
               targets = filter (\<lambda>part. \<not> is_delete_flag part) args;
               invalid = (length targets \<noteq> 1 \<or> (\<exists>part \<in> set args. startsWith part ''-'' \<and> \<not> is_delete_flag part))
           in Some \<lparr>d_target = (if invalid then [] else hd targets),
                    d_recursive = (\<exists>flag \<in> set flags. str_includes flag ''r''),
                    d_force = (\<exists>flag \<in> set flags. str_includes flag ''f''),
                    d_usage = usage, d_invalid = invalid\<rparr>)"

definition workspaceDeleteTarget :: "string \<Rightarrow> string" where
  "workspaceDeleteTarget cmd = (case workspaceDeleteCommand cmd of
       Some parsed \<Rightarrow> if \<not> d_invalid parsed then d_target parsed else []
     | None \<Rightarrow> [])"

record transfer_command =
  t_source :: string
  t_destination :: string
  t_usage :: string
  t_invalid :: bool

text \<open>The two forms that a command of \<open>n\<close> operands has: its own word, or an action of \<open>file\<close>.\<close>

definition transfer :: "string list \<Rightarrow> nat \<Rightarrow> string \<Rightarrow> transfer_command" where
  "transfer parts n usage =
     \<lparr>t_source = (if length parts = n then parts ! (n - 2) else []),
      t_destination = (if length parts = n then parts ! (n - 1) else []),
      t_usage = usage, t_invalid = (length parts \<noteq> n)\<rparr>"

definition workspaceMoveCommand :: "string \<Rightarrow> transfer_command option" where
  "workspaceMoveCommand cmd =
     (let parts = workspaceCommandTokens cmd; rt = root_word parts in
      if rt = ''mv'' then Some (transfer parts 3 ''Usage: mv <source> <destination>'')
      else if rt \<noteq> ''file'' \<or> action_word parts \<noteq> ''move'' then None
      else Some (transfer parts 4 ''Usage: file move <source> <destination>''))"

definition workspaceCopyCommand :: "string \<Rightarrow> transfer_command option" where
  "workspaceCopyCommand cmd =
     (let parts = workspaceCommandTokens cmd; rt = root_word parts in
      if rt = ''cp'' then Some (transfer parts 3 ''Usage: cp <source> <destination>'')
      else if rt \<noteq> ''file'' \<or> action_word parts \<noteq> ''copy'' then None
      else Some (transfer parts 4 ''Usage: file copy <source> <destination>''))"

record touch_command =
  tc_target :: string
  tc_usage :: string
  tc_invalid :: bool

definition workspaceTouchCommand :: "string \<Rightarrow> touch_command option" where
  "workspaceTouchCommand cmd =
     (let parts = workspaceCommandTokens cmd; rt = root_word parts in
      if rt = ''touch'' then
        Some \<lparr>tc_target = (if length parts = 2 then parts ! 1 else []), tc_usage = ''Usage: touch <file>'',
              tc_invalid = (length parts \<noteq> 2)\<rparr>
      else if rt \<noteq> ''file'' \<or> action_word parts \<noteq> ''touch'' then None
      else Some \<lparr>tc_target = (if length parts = 3 then parts ! 2 else []), tc_usage = ''Usage: file touch <file>'',
                 tc_invalid = (length parts \<noteq> 3)\<rparr>)"

record list_command =
  l_target :: string
  l_long :: bool
  l_recursive :: bool
  l_usage :: string
  l_invalid :: bool

definition list_flag_re :: rx where
  "list_flag_re = rx_anchored (RSeq (RChr (\<lambda>c. c = CHR ''-'')) (rx_plus (RChr (\<lambda>c. c = CHR ''l'' \<or> c = CHR ''R''))))"

definition is_list_flag :: "string \<Rightarrow> bool" where
  "is_list_flag part = rx_test list_flag_re part"

definition list_arg :: "list_command \<times> string list \<Rightarrow> string \<Rightarrow> list_command \<times> string list" where
  "list_arg acc part = (case acc of (p, targets) \<Rightarrow>
     if is_list_flag part then
       (p\<lparr>l_long := l_long p \<or> str_includes part ''l'', l_recursive := l_recursive p \<or> str_includes part ''R''\<rparr>, targets)
     else if startsWith part ''-'' then (p\<lparr>l_invalid := True\<rparr>, targets)
     else (p, targets @ [part]))"

definition parseListArgs :: "string list \<Rightarrow> string \<Rightarrow> list_command" where
  "parseListArgs args usage =
     (let (p, targets) =
        foldl list_arg (\<lparr>l_target = [], l_long = False, l_recursive = False, l_usage = usage, l_invalid = False\<rparr>, []) args
      in p\<lparr>l_target := part_at targets 0, l_invalid := l_invalid p \<or> length targets > 1\<rparr>)"

definition workspaceListCommand :: "string list \<Rightarrow> list_command option" where
  "workspaceListCommand parts =
     (let rt = root_word parts in
      if rt = ''ll'' then Some ((parseListArgs (drop 1 parts) ''Usage: ll [-R] [folder]'')\<lparr>l_long := True\<rparr>)
      else if rt = ''file'' \<and> action_word parts \<notin> {''list'', ''ls''} then None
      else Some (parseListArgs (drop (if rt = ''file'' then 2 else 1) parts)
        (if rt = ''file'' then ''Usage: file list [-lR] [folder]'' else ''Usage: ls [-lR] [folder]'')))"

definition workspaceListTarget :: "string list \<Rightarrow> string" where
  "workspaceListTarget parts = (case workspaceListCommand parts of
       Some parsed \<Rightarrow> if \<not> l_invalid parsed then l_target parsed else []
     | None \<Rightarrow> [])"

record editor_command =
  e_action :: string
  e_target :: string
  e_invalid :: bool

definition workspaceEditorCommand :: "string \<Rightarrow> editor_command option" where
  "workspaceEditorCommand cmd =
     (let parts = workspaceCommandTokens cmd in
      if root_word parts \<noteq> ''file'' \<or> action_word parts \<notin> {''add'', ''edit''} then None
      else Some \<lparr>e_action = action_word parts, e_target = (if length parts = 3 then parts ! 2 else []),
                 e_invalid = (length parts > 3)\<rparr>)"

definition workspaceDownloadTarget :: "string \<Rightarrow> string" where
  "workspaceDownloadTarget cmd =
     (let parts = workspaceCommandTokens cmd in
      if root_word parts = ''file'' \<and> action_word parts = ''download'' \<and> length parts = 3 then parts ! 2 else [])"

text \<open>The options of \<open>diff\<close>; an operand that was not given is \<open>undefined\<close>.\<close>

record diff_command =
  f_mode :: string
  f_last :: bool
  f_left :: "string option"
  f_right :: "string option"
  f_usage :: string
  f_invalid :: bool

record diff_state =
  mode :: string
  modeSelected :: bool
  parseOptions :: bool
  s_invalid :: bool
  s_last :: bool
  operands :: "string list"

definition diff_modes :: "string \<Rightarrow> string option" where
  "diff_modes = map_of [(''-q'', ''brief''), (''--brief'', ''brief''), (''-u'', ''unified''), (''--unified'', ''unified''),
     (''-y'', ''side_by_side''), (''--side-by-side'', ''side_by_side'')]"

definition diff_part :: "diff_state \<Rightarrow> string \<Rightarrow> diff_state" where
  "diff_part st part =
     (if parseOptions st \<and> part = ''--'' then st\<lparr>parseOptions := False\<rparr>
      else if parseOptions st \<and> startsWith part ''-'' then
        (if part = ''--last'' then st\<lparr>s_invalid := s_invalid st \<or> s_last st, s_last := True\<rparr>
         else case diff_modes part of
             None \<Rightarrow> st\<lparr>s_invalid := True\<rparr>
           | Some selected \<Rightarrow>
               if modeSelected st \<and> selected \<noteq> mode st then st\<lparr>s_invalid := True\<rparr>
               else st\<lparr>mode := selected, modeSelected := True\<rparr>)
      else st\<lparr>operands := operands st @ [part]\<rparr>)"

definition workspaceDiffCommand :: "string \<Rightarrow> diff_command option" where
  "workspaceDiffCommand cmd =
     (let parts = workspaceCommandTokens cmd; rt = root_word parts; isFileCommand = (rt = ''file'') in
      if isFileCommand \<and> action_word parts \<noteq> ''diff'' then None
      else if \<not> isFileCommand \<and> rt \<noteq> ''diff'' then None
      else
        let usage = (if isFileCommand
              then ''Usage: file diff [-q|--brief|-u|--unified|-y|--side-by-side] [--last | <source1> <source2>]''
              else ''Usage: diff [-q|--brief|-u|--unified|-y|--side-by-side] [--last | <source1> <source2>]'');
            st = foldl diff_part \<lparr>mode = ''normal'', modeSelected = False, parseOptions = True, s_invalid = False, s_last = False,
                   operands = []\<rparr> (drop (if isFileCommand then 2 else 1) parts);
            ops = operands st;
            invalid = (s_invalid st \<or> s_last st \<and> ops \<noteq> [] \<or> \<not> s_last st \<and> length ops \<noteq> 2)
        in Some \<lparr>f_mode = mode st, f_last = s_last st,
             f_left = (if invalid then Some [] else if ops \<noteq> [] then Some (ops ! 0) else None),
             f_right = (if invalid then Some [] else if length ops > 1 then Some (ops ! 1) else None),
             f_usage = usage, f_invalid = invalid\<rparr>)"

text \<open>Which command lines the terminal takes itself; the flag is \<open>workspace_enabled\<close>.\<close>

definition isWorkspaceDeleteCommand :: "bool \<Rightarrow> string \<Rightarrow> bool" where
  "isWorkspaceDeleteCommand enabled cmd \<longleftrightarrow> enabled \<and>
     (let parts = workspaceCommandTokens cmd in
      root_word parts = ''rm'' \<or> root_word parts = ''file'' \<and> action_word parts \<in> {''rm'', ''delete''})"

definition isWorkspaceEditorCommand :: "bool \<Rightarrow> string \<Rightarrow> bool" where
  "isWorkspaceEditorCommand enabled cmd \<longleftrightarrow> enabled \<and>
     (let parts = workspaceCommandTokens cmd in root_word parts = ''file'' \<and> action_word parts \<in> {''add'', ''edit''})"

definition isWorkspaceDownloadCommand :: "bool \<Rightarrow> string \<Rightarrow> bool" where
  "isWorkspaceDownloadCommand enabled cmd \<longleftrightarrow> enabled \<and>
     (let parts = ws_words (trim cmd) in root_word parts = ''file'' \<and> action_word parts = ''download'')"

definition isWorkspaceMoveCommand :: "bool \<Rightarrow> string \<Rightarrow> bool" where
  "isWorkspaceMoveCommand enabled cmd \<longleftrightarrow> enabled \<and> workspaceMoveCommand cmd \<noteq> None"

definition isWorkspaceCopyCommand :: "bool \<Rightarrow> string \<Rightarrow> bool" where
  "isWorkspaceCopyCommand enabled cmd \<longleftrightarrow> enabled \<and> workspaceCopyCommand cmd \<noteq> None"

definition isWorkspaceTerminalCommand :: "bool \<Rightarrow> string \<Rightarrow> bool" where
  "isWorkspaceTerminalCommand enabled cmd \<longleftrightarrow>
     (let parts = workspaceCommandTokens cmd; rt = root_word parts in
      rt = ''diff'' \<or> enabled \<and>
        (rt \<in> {''cd'', ''pwd'', ''ls'', ''ll'', ''cat'', ''mkdir'', ''touch'', ''grep'', ''head'', ''tail'', ''wc'', ''sort'', ''uniq''}
         \<or> rt = ''file'' \<and> action_word parts \<in> {''list'', ''ls'', ''show'', ''diff'', ''touch'', ''add-dir'', ''mkdir''}))"

section \<open>The cached listing\<close>

text \<open>The objects of the listing are those of the payload of \<open>/workspace/files\<close>.\<close>

record ws_cache =
  loaded :: bool
  wfiles :: "jsobj list"
  wdirs :: "jsobj list"
  team_owner :: bool

record hint =
  h_value :: string
  h_description :: string

definition owner_word :: "ws_cache \<Rightarrow> string" where
  "owner_word c = (if team_owner c then ''team'' else ''personal'')"

definition getWorkspaceAutocompleteFileHints :: "ws_cache \<Rightarrow> hint list" where
  "getWorkspaceAutocompleteFileHints c =
     (if \<not> loaded c \<or> wfiles c = [] then []
      else filter (\<lambda>item. h_value item \<noteq> []) (map (\<lambda>file.
        \<lparr>h_value = trim (str_or (obj_get file ''path'') []),
         h_description = owner_word c @ '' file '' @ [CHR 0xB7] @ '' '' @ formatBytes (obj_get file ''size'')\<rparr>) (wfiles c)))"

definition getWorkspaceAutocompleteDirectoryHints :: "ws_cache \<Rightarrow> hint list" where
  "getWorkspaceAutocompleteDirectoryHints c =
     (if \<not> loaded c \<or> wdirs c = [] then []
      else filter (\<lambda>item. h_value item \<noteq> []) (map (\<lambda>directory.
        \<lparr>h_value = trim (str_or (obj_get directory ''path'') []), h_description = owner_word c @ '' folder''\<rparr>) (wdirs c)))"

section \<open>Paths\<close>

text \<open>\<open>split('/').filter(Boolean).join('/')\<close>.\<close>

definition squeeze :: "string \<Rightarrow> string" where
  "squeeze path = join ''/'' (path_parts path)"

definition normalizeWorkspaceTerminalPath :: "string \<Rightarrow> string" where
  "normalizeWorkspaceTerminalPath path = join ''/'' (filter nonempty (map trim (split_on CHR ''/'' path)))"

definition terminalDisplayPath :: "string \<Rightarrow> string" where
  "terminalDisplayPath path = displayPath (normalizeWorkspaceTerminalPath path)"

definition resolveWorkspaceCommandPath :: "string \<Rightarrow> string \<Rightarrow> bool \<Rightarrow> path_error + string" where
  "resolveWorkspaceCommandPath rawPath cwd defaultToCwd =
     (let txt = trim rawPath; normalizedCwd = normalizeWorkspaceTerminalPath cwd in
      if txt = [] \<and> defaultToCwd then Inr normalizedCwd
      else map_sum id normalizeWorkspaceTerminalPath (normalizeCommandPath (if txt \<noteq> [] then txt else ''.'') normalizedCwd))"

datatype entry_kind = AnyKind | DirectoryKind | FileKind

definition workspacePathExists :: "ws_cache \<Rightarrow> string \<Rightarrow> entry_kind \<Rightarrow> bool" where
  "workspacePathExists c path kind =
     (let target = squeeze path in
      if target = [] then kind \<noteq> FileKind
      else kind \<noteq> FileKind \<and> target \<in> h_value ` set (getWorkspaceAutocompleteDirectoryHints c)
         \<or> kind \<noteq> DirectoryKind \<and> target \<in> h_value ` set (getWorkspaceAutocompleteFileHints c))"

definition workspacePathHasGlob :: "string \<Rightarrow> bool" where
  "workspacePathHasGlob path = str_includes path ''*''"

text \<open>The pattern built for a segment: every character but the star stands for itself.\<close>

definition glob_char_rx :: "char \<Rightarrow> rx" where
  "glob_char_rx c = (if c = CHR ''*'' then rx_star (RChr (\<lambda>x. x \<noteq> CHR ''/'')) else RChr (\<lambda>x. x = c))"

definition workspaceGlobSegmentToRegExp :: "string \<Rightarrow> rx" where
  "workspaceGlobSegmentToRegExp segment = rx_anchored (rx_seq (map glob_char_rx segment))"

definition workspaceGlobMatches :: "string \<Rightarrow> string \<Rightarrow> bool" where
  "workspaceGlobMatches pattern path =
     (let patternParts = path_parts pattern; pathParts = path_parts path in
      length patternParts = length pathParts
      \<and> list_all2 (\<lambda>part name. rx_test (workspaceGlobSegmentToRegExp part) name) patternParts pathParts)"

record entry =
  en_path :: string
  en_kind :: entry_kind
  en_item :: "hint option"

type_synonym compare = "string \<Rightarrow> string \<Rightarrow> int"

definition workspaceEntryHints :: "compare \<Rightarrow> ws_cache \<Rightarrow> entry_kind \<Rightarrow> entry list" where
  "workspaceEntryHints lc c kind =
     (let dirs = map (\<lambda>item. \<lparr>en_path = squeeze (h_value item), en_kind = DirectoryKind, en_item = None\<rparr>)
                   (getWorkspaceAutocompleteDirectoryHints c);
          files = map (\<lambda>item. \<lparr>en_path = squeeze (h_value item), en_kind = FileKind, en_item = Some item\<rparr>)
                   (getWorkspaceAutocompleteFileHints c);
          entries = (if kind \<noteq> FileKind then dirs else []) @ (if kind \<noteq> DirectoryKind then files else [])
      in js_sort (\<lambda>a b. lc (en_path a) (en_path b)) (filter (\<lambda>e. en_path e \<noteq> []) entries))"

definition workspaceExpandPathPattern :: "compare \<Rightarrow> ws_cache \<Rightarrow> string \<Rightarrow> string \<Rightarrow> entry_kind \<Rightarrow> bool \<Rightarrow> path_error + entry list" where
  "workspaceExpandPathPattern lc c rawPath cwd kind defaultToCwd =
     (case resolveWorkspaceCommandPath rawPath cwd defaultToCwd of
        Inl e \<Rightarrow> Inl e
      | Inr target \<Rightarrow> Inr (
          if \<not> workspacePathHasGlob target then
            (if \<not> workspacePathExists c target kind then []
             else case find (\<lambda>item. en_path item = target) (workspaceEntryHints lc c kind) of
                 Some e \<Rightarrow> [e]
               | None \<Rightarrow> [\<lparr>en_path = target,
                     en_kind = (if target \<noteq> [] \<and> workspacePathExists c target FileKind then FileKind else DirectoryKind),
                     en_item = None\<rparr>])
          else filter (\<lambda>item. workspaceGlobMatches target (en_path item)) (workspaceEntryHints lc c kind)))"

definition resolveExistingWorkspaceCommandPath :: "ws_cache \<Rightarrow> string \<Rightarrow> string \<Rightarrow> entry_kind \<Rightarrow> bool \<Rightarrow> path_error + string" where
  "resolveExistingWorkspaceCommandPath c rawPath cwd kind defaultToCwd =
     (let txt = trim rawPath in
      case resolveWorkspaceCommandPath txt cwd defaultToCwd of
        Inl e \<Rightarrow> Inl e
      | Inr target \<Rightarrow>
          if workspacePathExists c target kind then Inr target
          else let normalizedRaw = squeeze txt in
            if txt \<noteq> [] \<and> \<not> startsWith txt ''/'' \<and> normalizedRaw \<noteq> [] \<and> normalizedRaw \<noteq> target
               \<and> workspacePathExists c normalizedRaw kind
            then Inr normalizedRaw else Inr target)"

section \<open>Paths resolve inside the workspace\<close>

lemma terminal_path_dir: "normalizeWorkspaceTerminalPath = normalizeDir"
  by (rule ext) (simp add: normalizeWorkspaceTerminalPath_def normalizeDir_def)

lemma resolve_safe:
  assumes "resolveWorkspaceCommandPath rawPath cwd dflt = Inr p" "safe_path cwd"
  shows "safe_path p"
proof -
  have cwd: "normalizeDir cwd = cwd" using assms(2) by (simp add: dir_norm.norm_fixed safe_clean)
  have "safe_path (normalizeDir q)" if "normalizeCommandPath r cwd = Inr q" for r q
    using normalizeCommandPath_safe [OF that assms(2)] by (simp add: dir_norm.norm_fixed safe_clean)
  with assms cwd show ?thesis
    by (auto simp: resolveWorkspaceCommandPath_def Let_def terminal_path_dir map_sum_def
        split: if_splits sum.splits)
qed

text \<open>The paths a listing names.\<close>

definition listed :: "ws_cache \<Rightarrow> string set" where
  "listed c = h_value ` set (getWorkspaceAutocompleteDirectoryHints c) \<union> h_value ` set (getWorkspaceAutocompleteFileHints c)"

lemma exists_listed: "workspacePathExists c p kind \<Longrightarrow> squeeze p \<noteq> [] \<Longrightarrow> squeeze p \<in> listed c"
  by (auto simp: workspacePathExists_def listed_def Let_def)

lemma path_parts_squeeze [simp]: "path_parts (squeeze p) = path_parts p"
  unfolding path_parts_def squeeze_def by (rule split_on_join_nonempty) (auto simp: split_on_pieces)

lemma squeeze_idem [simp]: "squeeze (squeeze p) = squeeze p"
  by (simp add: squeeze_def [of "squeeze p"]) (simp add: squeeze_def)

lemma squeeze_safe: "safe_path p \<Longrightarrow> squeeze p = p"
  by (simp add: squeeze_def safe_path_join_parts)

text \<open>
  An operand that names an existing entry resolves to a path below the workspace or to one the listing
  names.
\<close>

lemma resolve_existing_cases:
  assumes "resolveExistingWorkspaceCommandPath c rawPath cwd kind dflt = Inr p" "safe_path cwd"
  shows "safe_path p \<or> p \<in> listed c"
  using assms resolve_safe [OF _ assms(2)] exists_listed
  by (auto simp: resolveExistingWorkspaceCommandPath_def Let_def split: sum.splits if_splits) (metis squeeze_idem)

lemma entry_hints_listed:
  assumes "e \<in> set (workspaceEntryHints lc c kind)"
  shows "en_path e \<in> squeeze ` listed c"
  using assms by (auto simp: workspaceEntryHints_def Let_def listed_def split: if_splits)

lemma expand_listed:
  assumes "workspaceExpandPathPattern lc c rawPath cwd kind dflt = Inr es" "safe_path cwd" "e \<in> set es"
  shows "safe_path (en_path e) \<or> en_path e \<in> squeeze ` listed c"
  using assms resolve_safe [OF _ assms(2)] entry_hints_listed [of _ lc c kind]
  by (fastforce simp: workspaceExpandPathPattern_def find_Some_iff split: sum.splits if_splits option.splits)

section \<open>Glob patterns\<close>

text \<open>The usual meaning of a pattern: a star takes any number of characters, each of them no slash.\<close>

fun glob_ref :: "string \<Rightarrow> string \<Rightarrow> bool" where
  "glob_ref [] s = (s = [])"
| "glob_ref (c # p) [] = (c = CHR ''*'' \<and> glob_ref p [])"
| "glob_ref (c # p) (x # s) =
     (if c = CHR ''*'' then glob_ref p (x # s) \<or> x \<noteq> CHR ''/'' \<and> glob_ref (c # p) s
      else x = c \<and> glob_ref p s)"

lemma glob_ref_star:
  "glob_ref (CHR ''*'' # p) s \<longleftrightarrow> (\<exists>u v. s = u @ v \<and> (\<forall>x \<in> set u. x \<noteq> CHR ''/'') \<and> glob_ref p v)"
proof (induction s)
  case (Cons x s)
  show ?case
  proof
    assume "glob_ref (CHR ''*'' # p) (x # s)"
    then consider "glob_ref p (x # s)" | "x \<noteq> CHR ''/''" "glob_ref (CHR ''*'' # p) s" by auto
    then show "\<exists>u v. x # s = u @ v \<and> (\<forall>x \<in> set u. x \<noteq> CHR ''/'') \<and> glob_ref p v"
    proof cases
      case 1
      then show ?thesis by (intro exI [of _ "[]"] exI [of _ "x # s"]) simp
    next
      case 2
      then obtain u v where "s = u @ v" "\<forall>x \<in> set u. x \<noteq> CHR ''/''" "glob_ref p v" using Cons.IH by blast
      with 2 show ?thesis by (intro exI [of _ "x # u"] exI [of _ v]) simp
    qed
  next
    assume "\<exists>u v. x # s = u @ v \<and> (\<forall>x \<in> set u. x \<noteq> CHR ''/'') \<and> glob_ref p v"
    then obtain u v where uv: "x # s = u @ v" "\<forall>x \<in> set u. x \<noteq> CHR ''/''" "glob_ref p v" by blast
    show "glob_ref (CHR ''*'' # p) (x # s)"
    proof (cases u)
      case Nil
      with uv have "glob_ref p (x # s)" by simp
      then show ?thesis by simp
    next
      case (Cons y u')
      with uv have "glob_ref (CHR ''*'' # p) s" using Cons.IH by auto
      with Cons uv show ?thesis by simp
    qed
  qed
qed auto

lemma glob_ref_char: "c \<noteq> CHR ''*'' \<Longrightarrow> glob_ref (c # p) s \<longleftrightarrow> (\<exists>v. s = c # v \<and> glob_ref p v)"
  by (cases s) auto

lemma rlang_seq_unfold:
  "w \<in> rlang (rx_seq (r # rs)) \<longleftrightarrow> (\<exists>u v. w = u @ v \<and> u \<in> rlang r \<and> v \<in> rlang (rx_seq rs))"
  by (cases rs) auto

lemma glob_lang: "w \<in> rlang (rx_seq (map glob_char_rx segment)) \<longleftrightarrow> glob_ref segment w"
proof (induction segment arbitrary: w)
  case (Cons c segment)
  show ?case
  proof (cases "c = CHR ''*''")
    case True
    have "glob_char_rx c = rx_star (RChr (\<lambda>x. x \<noteq> CHR ''/''))" using True by (simp add: glob_char_rx_def)
    then show ?thesis
      unfolding list.map rlang_seq_unfold Cons.IH True glob_ref_star by (simp only: rlang_star_class)
  next
    case False
    have "u \<in> rlang (glob_char_rx c) \<longleftrightarrow> u = [c]" for u using False by (auto simp: glob_char_rx_def)
    then show ?thesis
      unfolding list.map rlang_seq_unfold Cons.IH glob_ref_char [OF False] by simp
  qed
qed simp

lemma glob_segment: "rx_test (workspaceGlobSegmentToRegExp segment) name \<longleftrightarrow> glob_ref segment name"
proof -
  have "anchor_free (rx_seq (map glob_char_rx segment))"
    unfolding anchor_free_seq list_all_iff by (auto simp: glob_char_rx_def rx_star_def)
  then show ?thesis unfolding workspaceGlobSegmentToRegExp_def by (simp only: rx_full_lang glob_lang)
qed


lemma glob_ref_literal: "CHR ''*'' \<notin> set p \<Longrightarrow> glob_ref p s \<longleftrightarrow> s = p"
proof (induction p arbitrary: s)
  case (Cons c p)
  then have "c \<noteq> CHR ''*''" "CHR ''*'' \<notin> set p" by auto
  then show ?case using Cons.IH unfolding glob_ref_char [OF \<open>c \<noteq> CHR ''*''\<close>] by blast
qed simp

lemma glob_without_star:
  assumes "CHR ''*'' \<notin> set pattern"
  shows "workspaceGlobMatches pattern path \<longleftrightarrow> squeeze path = squeeze pattern"
proof -
  have lit: "CHR ''*'' \<notin> set p" if "p \<in> set (path_parts pattern)" for p
    using assms that set_split_on by (fastforce simp: path_parts_def)
  have "list_all2 glob_ref ps qs \<longleftrightarrow> qs = ps" if "\<forall>p \<in> set ps. CHR ''*'' \<notin> set p" for ps qs
    using that by (induction ps arbitrary: qs) (auto simp: list_all2_Cons1 glob_ref_literal)
  then have "list_all2 glob_ref (path_parts pattern) ps \<longleftrightarrow> ps = path_parts pattern" for ps using lit by blast
  moreover have "squeeze path = squeeze pattern \<longleftrightarrow> path_parts path = path_parts pattern"
    by (metis path_parts_squeeze squeeze_def)
  ultimately have "squeeze path = squeeze pattern \<longleftrightarrow> list_all2 glob_ref (path_parts pattern) (path_parts path)" by simp
  then show ?thesis
    unfolding workspaceGlobMatches_def Let_def glob_segment by (metis list_all2_lengthD)
qed

end

