(* ===== verification/Workspace_Listing.thy ===== *)
theory Workspace_Listing
  imports Workspace_Commands
begin

text \<open>
  Listings of the workspace: the entries of one folder, \<open>app/static/js/workspace.js\<close>, and what \<open>ls\<close> and
  \<open>ll\<close> make of them, \<open>app/static/js/runner.js\<close>, the breadth-first walk of \<open>ls -R\<close> included. An entry is
  the object the code passes around; a folder of the \<open>Map\<close> is kept under its path.
\<close>

section \<open>The entries of a folder\<close>

definition child :: "string \<Rightarrow> string \<Rightarrow> string" where
  "child current name = (if current \<noteq> [] then current @ ''/'' @ name else name)"

definition folder_entry :: "string \<Rightarrow> string \<Rightarrow> jsval" where
  "folder_entry current name = JObj [(''name'', JStr name), (''path'', JStr (child current name))]"

definition set_folder :: "string \<Rightarrow> string \<Rightarrow> jsobj \<Rightarrow> jsobj" where
  "set_folder current name folders = obj_set folders (child current name) (folder_entry current name)"

abbreviation entry_path :: "jsobj \<Rightarrow> string" where
  "entry_path ob \<equiv> str_or (obj_get ob ''path'') []"

definition dir_step :: "string \<Rightarrow> jsobj \<Rightarrow> jsobj \<Rightarrow> jsobj" where
  "dir_step current folders directory =
     (let path = squeeze (entry_path directory); pre = (if current \<noteq> [] then current @ ''/'' else []) in
      if path = [] then folders
      else if current \<noteq> [] \<and> path \<noteq> current \<and> \<not> startsWith path pre then folders
      else if path = current then folders
      else let relative = (if current \<noteq> [] then drop (length pre) path else path); parts = path_parts relative in
        if length parts \<ge> 1 then set_folder current (hd parts) folders else folders)"

definition file_entry :: "jsobj \<Rightarrow> string \<Rightarrow> string \<Rightarrow> jsval" where
  "file_entry file path name = JObj (obj_assign file [(''path'', JStr path), (''name'', JStr name)])"

definition file_step :: "string \<Rightarrow> jsobj \<times> jsval list \<Rightarrow> jsobj \<Rightarrow> jsobj \<times> jsval list" where
  "file_step current acc file = (case acc of (folders, files) \<Rightarrow>
     let path = squeeze (entry_path file); pre = (if current \<noteq> [] then current @ ''/'' else []) in
     if path = [] then (folders, files)
     else if current \<noteq> [] \<and> path \<noteq> current \<and> \<not> startsWith path pre then (folders, files)
     else let relative = (if current \<noteq> [] then drop (length pre) path else path) in
       if relative = [] \<or> relative = path \<and> current \<noteq> [] \<and> \<not> startsWith path pre then (folders, files)
       else let parts = path_parts relative in
         if length parts > 1 then (set_folder current (hd parts) folders, files)
         else if length parts = 1 then (folders, files @ [file_entry file path (hd parts)])
         else (folders, files))"

record listing =
  folders :: "jsval list"
  files :: "jsval list"

definition name_of :: "jsval \<Rightarrow> string" where
  "name_of v = str_or (jprop v ''name'') []"

definition workspaceDirectEntries :: "compare \<Rightarrow> ws_cache \<Rightarrow> string \<Rightarrow> listing" where
  "workspaceDirectEntries lc c dir =
     (let current = normalizeDir dir;
          fs0 = foldl (dir_step current) [] (wdirs c);
          (fs, ds) = foldl (file_step current) (fs0, []) (wfiles c)
      in \<lparr>folders = js_sort (\<lambda>a b. lc (to_str (jprop a ''name'')) (to_str (jprop b ''name''))) (map snd fs),
          files = js_sort (\<lambda>a b. lc (name_of a) (name_of b)) ds\<rparr>)"

definition workspaceFolderFileCount :: "ws_cache \<Rightarrow> string \<Rightarrow> nat" where
  "workspaceFolderFileCount c path =
     (let normalized = normalizeDir path in
      if normalized = [] then 0
      else length (filter (\<lambda>file. startsWith (squeeze (entry_path file)) (normalized @ ''/'')) (wfiles c)))"

section \<open>Names\<close>

text \<open>\<open>s.replace(/\/+$/, '')\<close>.\<close>

definition strip_slashes :: "string \<Rightarrow> string" where
  "strip_slashes s = rev (dropWhile (\<lambda>x. x = CHR ''/'') (rev s))"

text \<open>\<open>String(entry && entry.name || entry && entry.path || '')\<close>.\<close>

definition label_of :: "jsval \<Rightarrow> string" where
  "label_of v = to_str (js_or (jprop v ''name'') (js_or (jprop v ''path'') (JStr [])))"

definition path_of :: "jsval \<Rightarrow> string" where
  "path_of v = squeeze (str_or (jprop v ''path'') [])"

definition workspaceListNames :: "listing \<Rightarrow> string list" where
  "workspaceListNames l =
     map (\<lambda>name. name @ ''/'') (filter nonempty (map (\<lambda>folder. strip_slashes (label_of folder)) (folders l)))
     @ filter nonempty (map label_of (files l))"

definition workspaceShortListLines :: "listing \<Rightarrow> string list" where
  "workspaceShortListLines l = (let names = workspaceListNames l in if names = [] then [''(empty)''] else [join '' '' names])"

definition padEnd :: "nat \<Rightarrow> string \<Rightarrow> string" where
  "padEnd n s = s @ replicate (n - length s) CHR '' ''"

definition workspaceFormatBytes :: "jsval \<Rightarrow> string" where
  "workspaceFormatBytes v = formatBytes v"

record row =
  r_name :: string
  r_type :: string
  r_size :: string
  r_modified :: string

definition mtime_of :: "jsval \<Rightarrow> string" where
  "mtime_of v = (if truthy (jprop v ''mtime'') then to_str (jprop v ''mtime'') else [])"

definition list_rows :: "listing \<Rightarrow> string \<Rightarrow> row list" where
  "list_rows l target =
     (if target \<noteq> [] then [\<lparr>r_name = ''../'', r_type = ''dir'', r_size = ''-'', r_modified = []\<rparr>] else [])
     @ map (\<lambda>folder. \<lparr>r_name = strip_slashes (label_of folder) @ ''/'', r_type = ''dir'', r_size = ''-'',
            r_modified = mtime_of folder\<rparr>) (folders l)
     @ map (\<lambda>file. \<lparr>r_name = label_of file, r_type = ''file'', r_size = workspaceFormatBytes (jprop file ''size''),
            r_modified = mtime_of file\<rparr>) (files l)"

definition width :: "(row \<Rightarrow> string) \<Rightarrow> row list \<Rightarrow> nat" where
  "width f rows = fold max (map (\<lambda>r. length (f r)) rows) 4"

definition workspaceListLines :: "listing \<Rightarrow> string \<Rightarrow> string list" where
  "workspaceListLines l target =
     (let rows = list_rows l target in
      if rows = [] then [''(empty)'']
      else map (\<lambda>r. trimEnd (join ''  ''
        ([padEnd (width r_name rows) (r_name r), padEnd (width r_type rows) (r_type r), padEnd (width r_size rows) (r_size r)]
         @ (if r_modified r \<noteq> [] then [r_modified r] else [])))) rows)"

definition workspaceRelativeListName :: "string \<Rightarrow> string \<Rightarrow> bool \<Rightarrow> string" where
  "workspaceRelativeListName path base isDirectory =
     (let normalized = squeeze path; normalizedBase = squeeze base;
          relative = squeeze (if normalizedBase \<noteq> [] \<and> startsWith normalized (normalizedBase @ ''/'')
                              then drop (length normalizedBase + 1) normalized else normalized)
      in if relative = [] then []
         else if isDirectory then strip_slashes relative @ ''/'' else relative)"

definition add_direct_folder :: "string \<Rightarrow> jsobj \<Rightarrow> string \<Rightarrow> string \<Rightarrow> jsobj" where
  "add_direct_folder normalizedBase fs path fallbackName =
     (let rel = workspaceRelativeListName path normalizedBase False;
          relative = (if rel \<noteq> [] then rel else strip_slashes fallbackName);
          parts = path_parts relative
      in if length parts \<noteq> 1 then fs else set_folder normalizedBase (hd parts) fs)"

definition direct_file :: "string \<Rightarrow> jsobj \<times> jsval list \<Rightarrow> jsval \<Rightarrow> jsobj \<times> jsval list" where
  "direct_file normalizedBase acc file = (case acc of (fs, ds) \<Rightarrow>
     let path = path_of file; parts = path_parts (workspaceRelativeListName path normalizedBase False) in
     if length parts > 1 then (add_direct_folder normalizedBase fs (child normalizedBase (hd parts)) (hd parts), ds)
     else if length parts = 1 then (fs, ds @ [file_entry (obj_entries file) path (hd parts)])
     else (fs, ds))"

definition workspaceDirectListEntries :: "compare \<Rightarrow> listing \<Rightarrow> string \<Rightarrow> listing" where
  "workspaceDirectListEntries lc entries base =
     (let normalizedBase = squeeze base;
          fs0 = foldl (\<lambda>fs folder. add_direct_folder normalizedBase fs (str_or (jprop folder ''path'') []) (name_of folder)) [] (folders entries);
          (fs, ds) = foldl (direct_file normalizedBase) (fs0, []) (files entries)
      in \<lparr>folders = js_sort (\<lambda>a b. lc (to_str (jprop a ''name'')) (to_str (jprop b ''name''))) (map snd fs),
          files = js_sort (\<lambda>a b. lc (name_of a) (name_of b)) ds\<rparr>)"

section \<open>The parts of a path below a folder\<close>

text \<open>The rest of a path after the names of a folder, and nothing for a path that is not below it.\<close>

definition below :: "string list \<Rightarrow> string list \<Rightarrow> string list" where
  "below Q P = (if take (length Q) P = Q then drop (length Q) P else [])"

lemma below_eq: "below Q P = r \<and> r \<noteq> [] \<longleftrightarrow> P = Q @ r \<and> r \<noteq> []"
  unfolding below_def by (metis append_take_drop_id append_eq_conv_conj)

lemma below_append [simp]: "below Q (Q @ r) = r"
  by (simp add: below_def)

lemma split_on_append: "split_on d (a @ d # b) = split_on d a @ split_on d b"
  by (induction d a rule: split_on.induct) (auto split: list.splits)

lemma join_append: "xs \<noteq> [] \<Longrightarrow> ys \<noteq> [] \<Longrightarrow> join sep (xs @ ys) = join sep xs @ sep @ join sep ys"
  by (induction sep xs rule: join.induct) (auto simp: neq_Nil_conv)

abbreviation seg :: "string \<Rightarrow> bool" where
  "seg s \<equiv> s \<noteq> [] \<and> CHR ''/'' \<notin> set s"

lemma split_on_join_segs: "P \<noteq> [] \<Longrightarrow> \<forall>s \<in> set P. seg s \<Longrightarrow> split_on CHR ''/'' (join ''/'' P) = P"
  using split_on_join [of P "CHR ''/''"] by simp

lemma startsWith_join:
  assumes "Q \<noteq> []" "\<forall>s \<in> set Q. seg s" "\<forall>s \<in> set P. seg s"
  shows "startsWith (join ''/'' P) (join ''/'' Q @ ''/'') \<longleftrightarrow> below Q P \<noteq> []"
proof
  assume "startsWith (join ''/'' P) (join ''/'' Q @ ''/'')"
  then obtain t where t: "join ''/'' P = join ''/'' Q @ CHR ''/'' # t"
    by (metis append.assoc append_Cons append_Nil startsWith_split)
  then have "P \<noteq> []" by auto
  with t have "P = Q @ split_on CHR ''/'' t"
    using split_on_join_segs [of P] split_on_join_segs [of Q] assms by (simp add: split_on_append)
  then show "below Q P \<noteq> []" by simp
next
  assume "below Q P \<noteq> []"
  then obtain r where "P = Q @ r" "r \<noteq> []" using below_eq by blast
  then show "startsWith (join ''/'' P) (join ''/'' Q @ ''/'')"
    using assms(1) by (simp add: join_append startsWith_prefix)
qed

lemma drop_join:
  assumes "Q \<noteq> []" "below Q P \<noteq> []"
  shows "drop (length (join ''/'' Q @ ''/'')) (join ''/'' P) = join ''/'' (below Q P)"
proof -
  obtain r where "P = Q @ r" "r \<noteq> []" using assms(2) below_eq by blast
  then show ?thesis using assms(1) by (simp add: join_append)
qed

abbreviation parts_of :: "jsobj \<Rightarrow> string list" where
  "parts_of ob \<equiv> path_parts (entry_path ob)"

lemma segs_path_parts: "\<forall>s \<in> set (path_parts p). seg s"
  by (simp add: path_parts_pieces)

lemma path_parts_join_segs: "\<forall>s \<in> set P. seg s \<Longrightarrow> path_parts (join ''/'' P) = P"
  unfolding path_parts_def by (rule split_on_join_nonempty) auto

lemma join_segs_Nil: "\<forall>s \<in> set P. seg s \<Longrightarrow> join ''/'' P = [] \<longleftrightarrow> P = []"
  by (rule join_eq_Nil) simp

lemma segs_below: "\<forall>s \<in> set P. seg s \<Longrightarrow> \<forall>s \<in> set (below Q P). seg s"
  by (auto simp: below_def dest: in_set_dropD)

text \<open>What the two loops make of one path, in terms of its names.\<close>

lemma below_relative:
  assumes Q: "\<forall>s \<in> set Q. seg s" and P: "\<forall>s \<in> set P. seg s"
  defines "pre \<equiv> if join ''/'' Q \<noteq> [] then join ''/'' Q @ ''/'' else []"
  shows "below Q P \<noteq> [] \<Longrightarrow> (if join ''/'' Q \<noteq> [] then drop (length pre) (join ''/'' P) else join ''/'' P) = join ''/'' (below Q P)"
    and "startsWith (join ''/'' P) pre \<and> join ''/'' P \<noteq> [] \<longleftrightarrow> below Q P \<noteq> []"
    and "below Q P \<noteq> [] \<Longrightarrow> join ''/'' P \<noteq> join ''/'' Q"
proof -
  show "(if join ''/'' Q \<noteq> [] then drop (length pre) (join ''/'' P) else join ''/'' P) = join ''/'' (below Q P)"
    if "below Q P \<noteq> []"
    using drop_join [OF _ that] join_segs_Nil [OF Q] by (cases "Q = []") (auto simp: pre_def below_def)
  show "startsWith (join ''/'' P) pre \<and> join ''/'' P \<noteq> [] \<longleftrightarrow> below Q P \<noteq> []"
    using startsWith_join [OF _ Q P] join_segs_Nil [OF Q] join_segs_Nil [OF P]
    by (cases "Q = []") (auto simp: pre_def below_def)
  show "join ''/'' P \<noteq> join ''/'' Q" if "below Q P \<noteq> []"
    using that path_parts_join_segs [OF Q] path_parts_join_segs [OF P] by (auto simp: below_def)
qed

lemma dir_step_below:
  assumes Q: "\<forall>s \<in> set Q. seg s"
  shows "dir_step (join ''/'' Q) fs d =
    (case below Q (parts_of d) of [] \<Rightarrow> fs | x # r \<Rightarrow> set_folder (join ''/'' Q) x fs)"
proof -
  let ?P = "parts_of d"
  note b = below_relative [OF Q segs_path_parts [of "entry_path d"]]
  have path: "squeeze (entry_path d) = join ''/'' ?P" by (simp add: squeeze_def)
  show ?thesis
  proof (cases "below Q ?P")
    case Nil
    with b(2) have "join ''/'' Q \<noteq> [] \<and> join ''/'' ?P \<noteq> [] \<longrightarrow> \<not> startsWith (join ''/'' ?P) (join ''/'' Q @ ''/'')" by auto
    moreover have "?P = [] \<or> join ''/'' Q \<noteq> []" using Nil join_segs_Nil [OF Q] by (cases "Q = []") (auto simp: below_def)
    ultimately show ?thesis using Nil by (auto simp: dir_step_def path Let_def)
  next
    case (Cons x r)
    have "path_parts (join ''/'' (x # r)) = x # r"
      using segs_below [OF segs_path_parts [of "entry_path d"], of Q] by (intro path_parts_join_segs) (simp add: Cons)
    with Cons b show ?thesis
      by (simp add: dir_step_def path Let_def del: join.simps)
  qed
qed

lemma file_step_below:
  assumes Q: "\<forall>s \<in> set Q. seg s"
  shows "file_step (join ''/'' Q) (fs, ds) f =
    (case below Q (parts_of f) of
       [] \<Rightarrow> (fs, ds)
     | [x] \<Rightarrow> (fs, ds @ [file_entry f (join ''/'' (parts_of f)) x])
     | x # y # r \<Rightarrow> (set_folder (join ''/'' Q) x fs, ds))"
proof -
  let ?P = "parts_of f"
  note b = below_relative [OF Q segs_path_parts [of "entry_path f"]]
  have path: "squeeze (entry_path f) = join ''/'' ?P" by (simp add: squeeze_def)
  show ?thesis
  proof (cases "below Q ?P")
    case Nil
    with b(2) have "join ''/'' Q \<noteq> [] \<and> join ''/'' ?P \<noteq> [] \<longrightarrow> \<not> startsWith (join ''/'' ?P) (join ''/'' Q @ ''/'')" by auto
    moreover have "?P = [] \<or> join ''/'' Q \<noteq> []" using Nil join_segs_Nil [OF Q] by (cases "Q = []") (auto simp: below_def)
    ultimately show ?thesis using Nil by (auto simp: file_step_def path Let_def)
  next
    case (Cons x r)
    have s: "\<forall>s \<in> set (x # r). seg s" using segs_below [OF segs_path_parts [of "entry_path f"], of Q] by (simp add: Cons)
    then have "path_parts (join ''/'' (x # r)) = x # r" "join ''/'' (x # r) \<noteq> []"
      using path_parts_join_segs [OF s] join_segs_Nil [OF s] by simp_all
    with Cons b show ?thesis
      by (cases r) (simp_all add: file_step_def path Let_def del: join.simps)
  qed
qed

section \<open>What a folder contains\<close>

text \<open>The names of the subfolders that the paths of the listing imply, and the files of the folder itself.\<close>

definition subnames :: "ws_cache \<Rightarrow> string list \<Rightarrow> string set" where
  "subnames c Q = {hd (below Q (parts_of d)) |d. d \<in> set (wdirs c) \<and> below Q (parts_of d) \<noteq> []}
     \<union> {hd (below Q (parts_of f)) |f. f \<in> set (wfiles c) \<and> length (below Q (parts_of f)) > 1}"

definition own_files :: "ws_cache \<Rightarrow> string list \<Rightarrow> jsobj list" where
  "own_files c Q = filter (\<lambda>f. length (below Q (parts_of f)) = 1) (wfiles c)"

definition listed_file :: "string list \<Rightarrow> jsobj \<Rightarrow> jsval" where
  "listed_file Q f = file_entry f (join ''/'' (parts_of f)) (hd (below Q (parts_of f)))"

lemma child_join: "\<forall>s \<in> set Q. seg s \<Longrightarrow> child (join ''/'' Q) x = join ''/'' (Q @ [x])"
  using join_segs_Nil [of Q] by (cases "Q = []") (simp_all add: child_def join_append)

lemma set_obj_set: "set (obj_set ob k v) \<subseteq> insert (k, v) (set ob)"
  by (induction ob k v rule: obj_set.induct) auto

lemma set_obj_set_stable: "(\<And>w. (k, w) \<in> set ob \<Longrightarrow> w = v) \<Longrightarrow> snd ` set (obj_set ob k v) = insert v (snd ` set ob)"
  by (induction ob k v rule: obj_set.induct) auto

definition folder_map :: "string list \<Rightarrow> string set \<Rightarrow> jsobj \<Rightarrow> bool" where
  "folder_map Q X fs \<longleftrightarrow> (\<forall>(k, v) \<in> set fs. \<exists>x. k = child (join ''/'' Q) x \<and> v = folder_entry (join ''/'' Q) x)
     \<and> snd ` set fs = folder_entry (join ''/'' Q) ` X"

lemma child_inj: "child q x = child q y \<longleftrightarrow> x = y"
  by (simp add: child_def)

lemma folder_map_set:
  assumes m: "folder_map Q X fs"
  shows "folder_map Q (insert x X) (set_folder (join ''/'' Q) x fs)"
proof -
  let ?k = "child (join ''/'' Q) x" and ?v = "folder_entry (join ''/'' Q) x"
  have e: "\<exists>x. k = child (join ''/'' Q) x \<and> v = folder_entry (join ''/'' Q) x" if "(k, v) \<in> set fs" for k v
    using m that by (auto simp: folder_map_def)
  have "w = ?v" if "(?k, w) \<in> set fs" for w using e [OF that] by (auto simp: child_inj)
  then have "snd ` set (obj_set fs ?k ?v) = insert ?v (snd ` set fs)" by (rule set_obj_set_stable)
  moreover have "\<exists>x. k = child (join ''/'' Q) x \<and> v = folder_entry (join ''/'' Q) x" if "(k, v) \<in> set (obj_set fs ?k ?v)" for k v
    using e [of k v] set_obj_set [of fs ?k ?v] that by blast
  ultimately show ?thesis using m unfolding folder_map_def set_folder_def by auto
qed

lemma foldl_dir_step:
  assumes Q: "\<forall>s \<in> set Q. seg s" and "folder_map Q X fs"
  shows "folder_map Q (X \<union> {hd (below Q (parts_of d)) |d. d \<in> set ds \<and> below Q (parts_of d) \<noteq> []})
    (foldl (dir_step (join ''/'' Q)) fs ds)"
  using assms(2)
proof (induction ds arbitrary: X fs)
  case (Cons d ds)
  let ?X = "if below Q (parts_of d) = [] then X else insert (hd (below Q (parts_of d))) X"
  have "folder_map Q ?X (dir_step (join ''/'' Q) fs d)"
    using Cons.prems by (auto simp: dir_step_below [OF Q] folder_map_set split: list.splits)
  note ih = Cons.IH [OF this]
  have "X \<union> {hd (below Q (parts_of e)) |e. e \<in> set (d # ds) \<and> below Q (parts_of e) \<noteq> []}
      = ?X \<union> {hd (below Q (parts_of e)) |e. e \<in> set ds \<and> below Q (parts_of e) \<noteq> []}" by auto
  with ih show ?case by simp
qed simp

lemma foldl_file_step:
  assumes Q: "\<forall>s \<in> set Q. seg s" and "folder_map Q X fs"
  shows "folder_map Q (X \<union> {hd (below Q (parts_of f)) |f. f \<in> set gs \<and> length (below Q (parts_of f)) > 1})
      (fst (foldl (file_step (join ''/'' Q)) (fs, ds) gs))
    \<and> snd (foldl (file_step (join ''/'' Q)) (fs, ds) gs)
      = ds @ map (listed_file Q) (filter (\<lambda>f. length (below Q (parts_of f)) = 1) gs)"
  using assms(2)
proof (induction gs arbitrary: X fs ds)
  case (Cons f gs)
  let ?b = "below Q (parts_of f)"
  let ?X = "if length ?b > 1 then insert (hd ?b) X else X"
  let ?ds = "if length ?b = 1 then ds @ [listed_file Q f] else ds"
  obtain fs' where step: "file_step (join ''/'' Q) (fs, ds) f = (fs', ?ds)" and m: "folder_map Q ?X fs'"
    using Cons.prems by (cases ?b; cases "tl ?b")
      (auto simp: file_step_below [OF Q] folder_map_set listed_file_def split: list.splits)
  have "X \<union> {hd (below Q (parts_of g)) |g. g \<in> set (f # gs) \<and> length (below Q (parts_of g)) > 1}
      = ?X \<union> {hd (below Q (parts_of g)) |g. g \<in> set gs \<and> length (below Q (parts_of g)) > 1}" by auto
  with Cons.IH [OF m, of ?ds] show ?case by (simp add: step)
qed simp

lemma direct_entries:
  fixes q
  defines "Q \<equiv> path_parts (normalizeDir q)"
  shows "set (folders (workspaceDirectEntries lc c q)) = folder_entry (join ''/'' Q) ` subnames c Q"
    and "mset (files (workspaceDirectEntries lc c q)) = mset (map (listed_file Q) (own_files c Q))"
proof -
  have Q: "\<forall>s \<in> set Q. seg s" unfolding Q_def by (rule segs_path_parts)
  have cur: "normalizeDir q = join ''/'' Q"
    unfolding Q_def path_parts_normalizeDir by (simp add: normalizeDir_def)
  note d = foldl_dir_step [OF Q, of "{}" "[]" "wdirs c"]
  note f = foldl_file_step [OF Q d, of "wfiles c" "[]"]
  obtain fs ds where r: "foldl (file_step (join ''/'' Q)) (foldl (dir_step (join ''/'' Q)) [] (wdirs c), []) (wfiles c) = (fs, ds)"
    by fastforce
  have empty: "folder_map Q {} []" by (simp add: folder_map_def)
  have "folder_map Q (subnames c Q) fs" "ds = map (listed_file Q) (own_files c Q)"
    using f [OF empty] r by (simp_all add: subnames_def own_files_def)
  then show "set (folders (workspaceDirectEntries lc c q)) = folder_entry (join ''/'' Q) ` subnames c Q"
    and "mset (files (workspaceDirectEntries lc c q)) = mset (map (listed_file Q) (own_files c Q))"
    by (simp_all add: workspaceDirectEntries_def Let_def cur r folder_map_def)
qed

section \<open>The walk of \<open>ls -R\<close>\<close>

definition renamed :: "jsval \<Rightarrow> string \<Rightarrow> string \<Rightarrow> jsval" where
  "renamed v path name = JObj (obj_assign (obj_entries v) [(''path'', JStr path), (''name'', JStr name)])"

definition visit_folder ::
  "string \<Rightarrow> string list \<times> jsval list \<times> string list \<Rightarrow> jsval \<Rightarrow> string list \<times> jsval list \<times> string list" where
  "visit_folder base acc folder = (case acc of (seen, fs, queue) \<Rightarrow>
     let path = path_of folder in
     if path = [] \<or> path \<in> set seen then (seen, fs, queue)
     else (seen @ [path], fs @ [renamed folder path (strip_slashes (workspaceRelativeListName path base True))], queue @ [path]))"

definition visit_file :: "string \<Rightarrow> jsval \<Rightarrow> jsval list" where
  "visit_file base file =
     (let path = path_of file in
      if path = [] then [] else [renamed file path (workspaceRelativeListName path base False)])"

text \<open>The paths a visit adds to the queue.\<close>

definition fresh :: "string list \<Rightarrow> jsval list \<Rightarrow> string list" where
  "fresh seen fs = dedup_seen seen (filter nonempty (map path_of fs))"

lemma dedup_seen_cong: "set a = set b \<Longrightarrow> dedup_seen a xs = dedup_seen b xs"
proof (induction xs arbitrary: a b)
  case (Cons x xs)
  have "dedup_seen (x # a) xs = dedup_seen (x # b) xs" by (rule Cons.IH) (simp add: Cons.prems)
  moreover have "dedup_seen a xs = dedup_seen b xs" by (rule Cons.IH) (rule Cons.prems)
  ultimately show ?case by (simp only: dedup_seen.simps Cons.prems)
qed simp

lemma visit_folders:
  "\<exists>out'. foldl (visit_folder base) (seen, out, queue) fs = (seen @ fresh seen fs, out', queue @ fresh seen fs)"
proof (induction fs arbitrary: seen out queue)
  case (Cons v fs)
  show ?case
  proof (cases "path_of v = [] \<or> path_of v \<in> set seen")
    case True
    then have "visit_folder base (seen, out, queue) v = (seen, out, queue)" "fresh seen (v # fs) = fresh seen fs"
      by (auto simp: visit_folder_def fresh_def Let_def)
    then show ?thesis using Cons.IH by simp
  next
    case False
    have "dedup_seen (seen @ [path_of v]) xs = dedup_seen (path_of v # seen) xs" for xs by (rule dedup_seen_cong) auto
    then have "fresh seen (v # fs) = path_of v # fresh (seen @ [path_of v]) fs" using False by (simp add: fresh_def)
    moreover obtain out' where "visit_folder base (seen, out, queue) v = (seen @ [path_of v], out', queue @ [path_of v])"
      using False by (simp add: visit_folder_def Let_def)
    ultimately show ?thesis using Cons.IH [of "seen @ [path_of v]" out' "queue @ [path_of v]"] by simp
  qed
qed (simp add: fresh_def)

lemma set_fresh: "set (fresh seen fs) = {p \<in> path_of ` set fs. p \<noteq> [] \<and> p \<notin> set seen}"
  by (auto simp: fresh_def set_dedup_seen)

lemma distinct_fresh [simp]: "distinct (fresh seen fs)"
  by (simp add: fresh_def distinct_dedup_seen)

text \<open>Every folder the walk can meet is a prefix of a listed path, so there are finitely many.\<close>

definition folder_universe :: "ws_cache \<Rightarrow> string set" where
  "folder_universe c = (\<Union>e \<in> set (wdirs c) \<union> set (wfiles c). (\<lambda>n. join ''/'' (take n (parts_of e))) ` {..length (parts_of e)})"

lemma finite_folder_universe [simp]: "finite (folder_universe c)"
  by (simp add: folder_universe_def)

lemma subname_parts: "x \<in> subnames c Q \<Longrightarrow> \<exists>e r. e \<in> set (wdirs c) \<union> set (wfiles c) \<and> parts_of e = Q @ x # r"
proof -
  assume "x \<in> subnames c Q"
  then obtain e where e: "e \<in> set (wdirs c) \<union> set (wfiles c)" "below Q (parts_of e) \<noteq> []" "x = hd (below Q (parts_of e))"
    unfolding subnames_def by force
  then have "parts_of e = Q @ x # tl (below Q (parts_of e))"
    using below_eq [of Q "parts_of e" "below Q (parts_of e)"] by simp
  with e(1) show ?thesis by blast
qed

lemma subname_seg: "x \<in> subnames c Q \<Longrightarrow> seg x"
proof -
  assume "x \<in> subnames c Q"
  then obtain e r where "parts_of e = Q @ x # r" using subname_parts by blast
  then have "x \<in> set (parts_of e)" by simp
  then show ?thesis using path_parts_pieces by blast
qed

lemma subname_universe: "x \<in> subnames c Q \<Longrightarrow> join ''/'' (Q @ [x]) \<in> folder_universe c"
proof -
  assume "x \<in> subnames c Q"
  then obtain e r where e: "e \<in> set (wdirs c) \<union> set (wfiles c)" "parts_of e = Q @ x # r" using subname_parts by blast
  have "join ''/'' (Q @ [x]) \<in> (\<lambda>n. join ''/'' (take n (Q @ x # r))) ` {..length (Q @ x # r)}"
  proof (rule image_eqI)
    show "join ''/'' (Q @ [x]) = join ''/'' (take (Suc (length Q)) (Q @ x # r))" by simp
    show "Suc (length Q) \<in> {..length (Q @ x # r)}" by simp
  qed
  then have "join ''/'' (Q @ [x]) \<in> (\<lambda>n. join ''/'' (take n (parts_of e))) ` {..length (parts_of e)}" unfolding e(2) .
  then show ?thesis unfolding folder_universe_def UN_iff by (rule bexI [where x = e]) (rule e(1))
qed

lemma path_of_folder_entry:
  "\<forall>s \<in> set Q. seg s \<Longrightarrow> seg x \<Longrightarrow> path_of (folder_entry (join ''/'' Q) x) = join ''/'' (Q @ [x])"
proof -
  assume Q: "\<forall>s \<in> set Q. seg s" "seg x"
  have "\<forall>s \<in> set (Q @ [x]). seg s" using Q by simp
  then have "path_parts (join ''/'' (Q @ [x])) = Q @ [x]" by (rule path_parts_join_segs)
  moreover have "str_or (jprop (folder_entry (join ''/'' Q) x) ''path'') [] = join ''/'' (Q @ [x])"
    unfolding child_join [OF Q(1), symmetric] by (simp add: folder_entry_def obj_get_Cons)
  ultimately show ?thesis by (simp add: path_of_def squeeze_def)
qed

lemma folder_paths:
  "path_of ` set (folders (workspaceDirectEntries lc c q))
     = (\<lambda>x. join ''/'' (path_parts (normalizeDir q) @ [x])) ` subnames c (path_parts (normalizeDir q))"
  unfolding direct_entries image_image
  by (rule image_cong [OF refl], rule path_of_folder_entry) (simp_all add: segs_path_parts subname_seg)

lemma fresh_universe: "set (fresh seen (folders (workspaceDirectEntries lc c q))) \<subseteq> folder_universe c"
  using subname_universe by (auto simp: set_fresh folder_paths simp flip: image_iff)

function rec_loop :: "compare \<Rightarrow> ws_cache \<Rightarrow> string \<Rightarrow> string list \<Rightarrow> string list \<Rightarrow> listing \<Rightarrow> listing" where
  "rec_loop lc c base [] seen out = out"
| "rec_loop lc c base (current # queue) seen out =
     (let entries = workspaceDirectEntries lc c current;
          (seen', fs, queue') = foldl (visit_folder base) (seen, folders out, queue) (folders entries)
      in rec_loop lc c base queue' seen' \<lparr>folders = fs, files = files out @ concat (map (visit_file base) (files entries))\<rparr>)"
  by pat_completeness auto
termination
proof (relation "inv_image (less_than <*lex*> less_than)
    (\<lambda>(lc, c, base, queue, seen, out). (card (folder_universe c - set seen), length queue))", goal_cases)
  case 1
  show ?case by (rule wf_inv_image) auto
next
  case (2 lc c base current queue seen out entries x seen' y fs queue')
  let ?new = "fresh seen (folders entries)"
  have new: "seen' = seen @ ?new" "queue' = queue @ ?new" using visit_folders [of base seen "folders out" queue "folders entries"] 2 by auto
  show ?case
  proof (cases "?new = []")
    case True
    then show ?thesis using new by simp
  next
    case False
    then obtain p where p: "p \<in> set ?new" by (cases ?new) auto
    then have "p \<in> folder_universe c" "p \<notin> set seen"
      using fresh_universe [of seen lc c current] 2(1) by (auto simp: set_fresh)
    then have "card (folder_universe c - set seen') < card (folder_universe c - set seen)"
      using p new(1) by (intro psubset_card_mono) auto
    then show ?thesis by simp
  qed
qed

definition workspaceRecursiveEntries :: "compare \<Rightarrow> ws_cache \<Rightarrow> string \<Rightarrow> listing" where
  "workspaceRecursiveEntries lc c base = rec_loop lc c base [squeeze base] [] \<lparr>folders = [], files = []\<rparr>"

section \<open>The walk finds every file once\<close>

text \<open>Paths without spaces around a name, which are the ones the normalisation of a folder keeps.\<close>

definition tidy :: "string list \<Rightarrow> bool" where
  "tidy P \<longleftrightarrow> (\<forall>s \<in> set P. trimmed s)"

definition tidy_cache :: "ws_cache \<Rightarrow> bool" where
  "tidy_cache c \<longleftrightarrow> (\<forall>e \<in> set (wdirs c) \<union> set (wfiles c). tidy (parts_of e))"

definition folder_path :: "string \<Rightarrow> bool" where
  "folder_path v \<longleftrightarrow> v = join ''/'' (path_parts v) \<and> tidy (path_parts v)"

lemma folder_path_norm: "folder_path v \<Longrightarrow> normalizeDir v = v"
proof -
  assume v: "folder_path v"
  have "\<forall>s \<in> set (path_parts v). dir_segment s"
    using v path_parts_pieces [of _ v] by (auto simp: folder_path_def tidy_def dir_segment_def)
  moreover have "v = join ''/'' (path_parts v)" using v by (simp only: folder_path_def)
  ultimately have "clean_dir v" unfolding clean_dir_def by blast
  then show ?thesis by (rule dir_norm.norm_fixed)
qed

lemma folder_path_child:
  assumes "tidy_cache c" "x \<in> subnames c (path_parts v)"
  shows "path_parts (join ''/'' (path_parts v @ [x])) = path_parts v @ [x]" "folder_path v \<Longrightarrow> folder_path (join ''/'' (path_parts v @ [x]))"
proof -
  have "seg x" by (rule subname_seg [OF assms(2)])
  then show pp: "path_parts (join ''/'' (path_parts v @ [x])) = path_parts v @ [x]"
    using segs_path_parts [of v] by (intro path_parts_join_segs) simp
  obtain e r where "e \<in> set (wdirs c) \<union> set (wfiles c)" "parts_of e = path_parts v @ x # r"
    using subname_parts [OF assms(2)] by blast
  then have "tidy (path_parts v @ x # r)" using assms(1) unfolding tidy_cache_def by metis
  then have "trimmed x" by (simp add: tidy_def)
  then show "folder_path v \<Longrightarrow> folder_path (join ''/'' (path_parts v @ [x]))"
    by (simp add: folder_path_def pp tidy_def)
qed

definition subpaths :: "ws_cache \<Rightarrow> string \<Rightarrow> string set" where
  "subpaths c v = (\<lambda>x. join ''/'' (path_parts v @ [x])) ` subnames c (path_parts v)"

definition below_name :: "string list \<Rightarrow> jsobj \<Rightarrow> string" where
  "below_name B f = join ''/'' (below B (parts_of f))"

lemma relative_below:
  assumes "below (path_parts base) P \<noteq> []" "\<forall>s \<in> set P. seg s"
  shows "workspaceRelativeListName (join ''/'' P) base False = join ''/'' (below (path_parts base) P)"
proof -
  let ?B = "path_parts base"
  have sq: "squeeze (join ''/'' P) = join ''/'' P" "squeeze base = join ''/'' ?B"
    using path_parts_join_segs [OF assms(2)] by (simp_all add: squeeze_def)
  have segs: "\<forall>s \<in> set (below ?B P). seg s" by (rule segs_below [OF assms(2)])
  then have "squeeze (join ''/'' (below ?B P)) = join ''/'' (below ?B P)" "join ''/'' (below ?B P) \<noteq> []"
    using path_parts_join_segs [OF segs] join_segs_Nil [OF segs] assms(1) by (simp_all add: squeeze_def)
  moreover have "(if join ''/'' ?B \<noteq> [] \<and> startsWith (join ''/'' P) (join ''/'' ?B @ ''/'')
      then drop (length (join ''/'' ?B) + 1) (join ''/'' P) else join ''/'' P) = join ''/'' (below ?B P)"
    using below_relative [OF segs_path_parts assms(2), of base] assms(1) by (cases "join ''/'' ?B = []") auto
  ultimately show ?thesis by (simp add: workspaceRelativeListName_def sq Let_def)
qed

lemma visit_listed_file:
  assumes "below (path_parts base) (parts_of f) \<noteq> []"
  shows "map name_of (visit_file base (listed_file Q f)) = [below_name (path_parts base) f]"
proof -
  let ?P = "parts_of f"
  have P: "\<forall>s \<in> set ?P. seg s" "?P \<noteq> []" using assms by (auto simp: path_parts_pieces below_def)
  then have "path_of (listed_file Q f) = join ''/'' ?P" "join ''/'' ?P \<noteq> []"
    using path_parts_join_segs [OF P(1)] join_segs_Nil [OF P(1)]
    by (simp_all add: path_of_def listed_file_def file_entry_def obj_assign_def obj_get_set squeeze_def)
  then show ?thesis
    using relative_below [OF assms P(1)]
    by (simp add: visit_file_def Let_def name_of_def renamed_def obj_assign_def below_name_def)
qed

text \<open>The state of the walk: the folders dealt with, and what is still in the queue.\<close>

definition walk_inv :: "ws_cache \<Rightarrow> string \<Rightarrow> string list \<Rightarrow> string list \<Rightarrow> string list \<Rightarrow> listing \<Rightarrow> bool" where
  "walk_inv c base hs queue seen out \<longleftrightarrow>
     distinct (hs @ queue) \<and> set (hs @ queue) = insert (squeeze base) (set seen) \<and> squeeze base \<notin> set seen
     \<and> (\<forall>v \<in> set hs. subpaths c v \<subseteq> set seen)
     \<and> (\<forall>v \<in> set (hs @ queue). folder_path v \<and> (\<exists>r. path_parts v = path_parts base @ r))
     \<and> mset (map name_of (files out)) = mset (concat (map (\<lambda>v. map (below_name (path_parts base)) (own_files c (path_parts v))) hs))"

lemma walk_step:
  fixes lc :: compare and fs :: "jsval list"
  assumes c: "tidy_cache c" and inv: "walk_inv c base hs (v # queue) seen out"
  defines "es \<equiv> workspaceDirectEntries lc c v"
  defines "new \<equiv> fresh seen (folders es)"
  shows "walk_inv c base (hs @ [v]) (queue @ new) (seen @ new) \<lparr>folders = fs, files = files out @ concat (map (visit_file base) (files es))\<rparr>"
proof -
  let ?V = "path_parts v" and ?B = "path_parts base"
  have v: "folder_path v" and r: "\<exists>r. ?V = ?B @ r" using inv by (auto simp: walk_inv_def)
  obtain r where r: "?V = ?B @ r" using r by blast
  have norm: "normalizeDir v = v" by (rule folder_path_norm [OF v])
  have paths: "path_of ` set (folders es) = subpaths c v" by (simp add: es_def folder_paths norm subpaths_def)
  have sub: "folder_path p \<and> (\<exists>r. path_parts p = ?B @ r) \<and> p \<noteq> squeeze base \<and> p \<noteq> []" if p: "p \<in> subpaths c v" for p
  proof -
    obtain x where x: "x \<in> subnames c ?V" "p = join ''/'' (?V @ [x])" using p unfolding subpaths_def by blast
    have pp: "path_parts p = ?V @ [x]" unfolding x(2) by (rule folder_path_child(1) [OF c x(1)])
    have "folder_path p" unfolding x(2) by (rule folder_path_child(2) [OF c x(1) v])
    moreover have "p \<noteq> squeeze base" using pp r by auto
    moreover have "p \<noteq> []" using pp by (auto simp: path_parts_def)
    ultimately show ?thesis using pp r by simp
  qed
  have new: "set new = subpaths c v - set seen" unfolding new_def set_fresh paths using sub by blast
  have own: "mset (map name_of (concat (map (visit_file base) (files es)))) = mset (map (below_name ?B) (own_files c ?V))"
  proof -
    have "map name_of (visit_file base (listed_file ?V f)) = [below_name ?B f]" if "f \<in> set (own_files c ?V)" for f
    proof (rule visit_listed_file)
      have "below ?V (parts_of f) \<noteq> []" using that by (auto simp: own_files_def)
      then obtain s where "parts_of f = ?V @ s" "s \<noteq> []" using below_eq by blast
      then show "below ?B (parts_of f) \<noteq> []" unfolding r by (simp add: below_def)
    qed
    then have one: "mset (map name_of (visit_file base (listed_file ?V f))) = {#below_name ?B f#}" if "f \<in># mset (own_files c ?V)" for f
      using that by simp
    have sum: "mset (map name_of (concat (map (visit_file base) xs))) = (\<Sum>x \<in># mset xs. mset (map name_of (visit_file base x)))" for xs
      by (induction xs) simp_all
    have "mset (files es) = image_mset (listed_file ?V) (mset (own_files c ?V))"
      using direct_entries(2) [of lc c v] by (simp add: es_def norm)
    then have "mset (map name_of (concat (map (visit_file base) (files es))))
        = (\<Sum>f \<in># mset (own_files c ?V). mset (map name_of (visit_file base (listed_file ?V f))))"
      by (simp only: sum image_mset.compositionality o_def)
    also have "\<dots> = (\<Sum>f \<in># mset (own_files c ?V). {#below_name ?B f#})"
      by (rule arg_cong [of _ _ sum_mset], rule image_mset_cong) (rule one)
    finally show ?thesis by (simp flip: image_mset.compositionality)
  qed
  show ?thesis
    using inv new sub own unfolding walk_inv_def by (auto simp: new_def)
qed

lemma walk_done:
  assumes "tidy_cache c" "walk_inv c base hs queue seen out"
  shows "\<exists>hs' seen'. walk_inv c base hs' [] seen' (rec_loop lc c base queue seen out)"
  using assms
proof (induction lc c base queue seen out arbitrary: hs rule: rec_loop.induct)
  case (2 lc c base current queue seen out)
  let ?es = "workspaceDirectEntries lc c current" and ?new = "fresh seen (folders (workspaceDirectEntries lc c current))"
  obtain fs where f: "foldl (visit_folder base) (seen, folders out, queue) (folders ?es) = (seen @ ?new, fs, queue @ ?new)"
    using visit_folders by blast
  have "walk_inv c base (hs @ [current]) (queue @ ?new) (seen @ ?new) \<lparr>folders = fs, files = files out @ concat (map (visit_file base) (files ?es))\<rparr>"
    by (rule walk_step [OF 2(2,3)])
  from "2.IH" [OF refl f [symmetric] refl refl 2(2) this] show ?case by (simp add: f Let_def)
qed auto

text \<open>A file lies in exactly one folder, so listing distinct folders lists no file twice.\<close>

lemma own_files_disjoint:
  "length (below V P) = 1 \<Longrightarrow> length (below W P) = 1 \<Longrightarrow> V = W"
proof -
  assume "length (below V P) = 1" "length (below W P) = 1"
  then have "P = V @ below V P \<and> length (below V P) = 1" "P = W @ below W P \<and> length (below W P) = 1"
    using below_eq [of V P "below V P"] below_eq [of W P "below W P"] by auto
  then show "V = W" by (metis append_eq_append_conv add_right_cancel length_append)
qed

lemma mset_own_files:
  assumes "distinct hs" "inj_on path_parts (set hs)"
  shows "mset (concat (map (\<lambda>v. map g (own_files c (path_parts v))) hs))
    = mset (map g (filter (\<lambda>f. \<exists>v \<in> set hs. length (below (path_parts v) (parts_of f)) = 1) (wfiles c)))"
  using assms
proof (induction hs)
  case (Cons v hs)
  let ?in = "\<lambda>f. length (below (path_parts v) (parts_of f)) = 1"
  let ?rest = "\<lambda>f. \<exists>w \<in> set hs. length (below (path_parts w) (parts_of f)) = 1"
  have disj: "\<not> (?in f \<and> ?rest f)" for f
  proof
    assume "?in f \<and> ?rest f"
    then obtain w where "w \<in> set hs" "path_parts v = path_parts w" using own_files_disjoint by blast
    then show False using Cons.prems by (auto simp: inj_on_def)
  qed
  have "mset (filter (\<lambda>f. ?in f \<or> ?rest f) xs) = mset (filter ?in xs) + mset (filter ?rest xs)" for xs
    using disj by (induction xs) auto
  moreover have "mset (concat (map (\<lambda>v. map g (own_files c (path_parts v))) hs)) = mset (map g (filter ?rest (wfiles c)))"
    using Cons.prems by (intro Cons.IH) auto
  ultimately show ?case by (simp add: own_files_def)
qed simp

lemma walk_member: "walk_inv c base hs queue seen out \<Longrightarrow> v \<in> set hs \<Longrightarrow> folder_path v \<and> (\<exists>r. path_parts v = path_parts base @ r)"
  unfolding walk_inv_def set_append by blast

lemma folder_path_inj: "folder_path v \<Longrightarrow> folder_path w \<Longrightarrow> path_parts v = path_parts w \<Longrightarrow> v = w"
  unfolding folder_path_def by metis

lemma walk_complete:
  assumes inv: "walk_inv c base hs [] seen out" and f: "f \<in> set (wfiles c)"
  shows "(\<exists>v \<in> set hs. length (below (path_parts v) (parts_of f)) = 1) \<longleftrightarrow> below (path_parts base) (parts_of f) \<noteq> []"
proof
  let ?B = "path_parts base" and ?P = "parts_of f"
  assume "\<exists>v \<in> set hs. length (below (path_parts v) ?P) = 1"
  then obtain v where v: "v \<in> set hs" "length (below (path_parts v) ?P) = 1" by blast
  obtain r where "path_parts v = ?B @ r" using walk_member [OF inv v(1)] by blast
  moreover obtain s where "?P = path_parts v @ s" "s \<noteq> []"
    using v(2) below_eq [of "path_parts v" ?P "below (path_parts v) ?P"] by auto
  ultimately have "?P = ?B @ (r @ s)" "r @ s \<noteq> []" by simp_all
  then show "below ?B ?P \<noteq> []" using below_eq [of ?B ?P "r @ s"] by simp
next
  let ?B = "path_parts base" and ?P = "parts_of f"
  assume "below ?B ?P \<noteq> []"
  then obtain r where P: "?P = ?B @ r" "r \<noteq> []" using below_eq by blast
  have segs: "\<forall>s \<in> set (?B @ take k r). seg s" for k
    using segs_path_parts [of "entry_path f"] P(1) by (auto dest: in_set_takeD)
  have pp: "path_parts (join ''/'' (?B @ take k r)) = ?B @ take k r" for k
    by (rule path_parts_join_segs [OF segs])
  have "join ''/'' (?B @ take k r) \<in> set hs" if "k < length r" for k
    using that
  proof (induction k)
    case 0
    then show ?case using inv by (auto simp: walk_inv_def squeeze_def)
  next
    case (Suc k)
    let ?V = "?B @ take k r"
    have b: "below ?V ?P = drop k r" unfolding P(1) using Suc.prems by (simp add: below_def)
    have "hd (drop k r) \<in> subnames c ?V" using f b Suc.prems by (fastforce simp: subnames_def)
    then have "join ''/'' (?V @ [r ! k]) \<in> subpaths c (join ''/'' ?V)"
      using Suc.prems unfolding subpaths_def pp by (simp add: hd_drop_conv_nth)
    moreover have "subpaths c (join ''/'' ?V) \<subseteq> set hs"
      using inv Suc by (auto simp: walk_inv_def)
    ultimately show ?case using Suc.prems by (simp add: take_Suc_conv_app_nth subset_iff)
  qed
  then have "join ''/'' (?B @ take (length r - 1) r) \<in> set hs" using P(2) by simp
  moreover have "length (below (?B @ take (length r - 1) r) ?P) = 1" unfolding P(1) using P(2) by (cases r) (simp_all add: below_def)
  ultimately show "\<exists>v \<in> set hs. length (below (path_parts v) ?P) = 1" using pp by metis
qed

text \<open>
  \<^bold>\<open>C40.\<close> \<open>ls -R\<close> shows every file below a folder exactly once, under its path relative to that folder: the
  names of the files that the breadth-first walk collects are, as a multiset, the relative paths of
  the files of the listing that lie below the folder, whatever the shape of the tree and whether or not
  the listing names the folders in between. The paths are those the normalisation of a folder keeps,
  without spaces around a name.
\<close>

theorem recursive_listing_complete:
  assumes "tidy_cache c" "tidy (path_parts base)"
  shows "mset (map name_of (files (workspaceRecursiveEntries lc c base)))
    = mset (map (\<lambda>f. join ''/'' (below (path_parts base) (path_parts (str_or (obj_get f ''path'') []))))
        (filter (\<lambda>f. below (path_parts base) (path_parts (str_or (obj_get f ''path'') [])) \<noteq> []) (wfiles c)))"
proof -
  let ?B = "path_parts base"
  have "folder_path (squeeze base)" using assms(2) by (simp add: folder_path_def) (simp add: squeeze_def)
  then have "walk_inv c base [] [squeeze base] [] \<lparr>folders = [], files = []\<rparr>" by (simp add: walk_inv_def)
  from walk_done [OF assms(1) this, of lc] obtain hs seen
    where w: "walk_inv c base hs [] seen (workspaceRecursiveEntries lc c base)"
    unfolding workspaceRecursiveEntries_def by blast
  then have hs: "distinct hs" by (simp add: walk_inv_def)
  have inj: "inj_on path_parts (set hs)"
    by (rule inj_onI) (use walk_member [OF w] folder_path_inj in blast)
  have "mset (map name_of (files (workspaceRecursiveEntries lc c base)))
      = mset (map (below_name ?B) (filter (\<lambda>f. \<exists>v \<in> set hs. length (below (path_parts v) (parts_of f)) = 1) (wfiles c)))"
    using w mset_own_files [OF hs inj, of "below_name ?B" c] by (simp add: walk_inv_def)
  also have "filter (\<lambda>f. \<exists>v \<in> set hs. length (below (path_parts v) (parts_of f)) = 1) (wfiles c)
      = filter (\<lambda>f. below ?B (parts_of f) \<noteq> []) (wfiles c)"
    by (rule filter_cong [OF refl]) (rule walk_complete [OF w])
  finally show ?thesis unfolding below_name_def .
qed

text \<open>A listing with a file in the folder and one two levels below it, and an unrelated one.\<close>

definition sample_cache :: ws_cache where
  "sample_cache = \<lparr>loaded = True, wfiles = map (\<lambda>p. [(''path'', JStr p)]) [''a/x'', ''a/b/c/y'', ''z''],
     wdirs = [[(''path'', JStr ''a'')]], team_owner = False\<rparr>"

theorem recursive_listing_complete_witness:
  "mset (map name_of (files (workspaceRecursiveEntries (\<lambda>a b. 0) sample_cache ''/a''))) = mset [''x'', ''b/c/y'']"
proof -
  have "tidy_cache sample_cache" "tidy (path_parts ''/a'')" by code_simp+
  note listing = recursive_listing_complete [OF this, of "\<lambda>a b. 0"]
  have "map (\<lambda>f. join ''/'' (below (path_parts ''/a'') (path_parts (str_or (obj_get f ''path'') []))))
      (filter (\<lambda>f. below (path_parts ''/a'') (path_parts (str_or (obj_get f ''path'') [])) \<noteq> []) (wfiles sample_cache))
    = [''x'', ''b/c/y'']" by code_simp
  with listing show ?thesis by simp
qed

end
