(* ===== verification/Workspace_Terminal.thy ===== *)
theory Workspace_Terminal
  imports Workspace_Listing Runner_Filter
begin

text \<open>
  The handlers of the workspace commands, \<open>app/static/js/runner.js\<close>, and the confirmation of a delete. A
  handler works on an execution: the lines it has written, its status, and the requests it has sent to
  the server, in order. The server is a parameter: its answer to a request may depend on all earlier
  ones. The permission to write and its message, \<open>localeCompare\<close>, the cached listing and the current
  folder are the environment of a command.
\<close>

section \<open>Requests and executions\<close>

datatype request =
    InfoReq string
  | DeleteReq string
  | MoveReq string string
  | CopyReq string string
  | MkdirReq string
  | TouchReq string
  | ReadReq string
  | DiffReq jsval

text \<open>A network failure with its message, or a response: \<open>ok\<close>, \<open>status\<close> and the body, \<open>{}\<close> if it is not JSON.\<close>

datatype reply = NetError string | Resp bool int jsval

type_synonym server = "request list \<Rightarrow> request \<Rightarrow> reply"

record ws_run =
  ex_lines :: "(string \<times> string) list"
  ex_status :: string
  ex_recent :: bool
  ex_refresh :: bool
  ex_requests :: "request list"

record term_env =
  te_compare :: compare
  te_cache :: ws_cache
  te_cwd :: string
  te_can_write :: bool
  te_denied :: "string \<Rightarrow> string"

definition put :: "string \<Rightarrow> string \<Rightarrow> ws_run \<Rightarrow> ws_run" where
  "put txt cls ex = ex\<lparr>ex_lines := ex_lines ex @ [(txt, cls)]\<rparr>"

definition fail_with :: "string \<Rightarrow> ws_run \<Rightarrow> ws_run" where
  "fail_with txt ex = (put txt ''exit-fail'' ex)\<lparr>ex_status := ''fail''\<rparr>"

definition send :: "server \<Rightarrow> request \<Rightarrow> ws_run \<Rightarrow> reply \<times> ws_run" where
  "send srv rq ex = (srv (ex_requests ex) rq, ex\<lparr>ex_requests := ex_requests ex @ [rq]\<rparr>)"

definition error_text :: "string \<Rightarrow> string \<Rightarrow> string" where
  "error_text msg dflt = ''[error] '' @ (if msg \<noteq> [] then msg else dflt)"

definition path_error_message :: "path_error \<Rightarrow> string" where
  "path_error_message e = (case e of
       EscapesWorkspace \<Rightarrow> ''path escapes the session workspace''
     | UnsupportedCharacters \<Rightarrow> ''file name contains unsupported characters'')"

text \<open>The message of a response that is not ok.\<close>

definition failure_message :: "string \<Rightarrow> int \<Rightarrow> jsval \<Rightarrow> string" where
  "failure_message what status data =
     (if truthy (jprop data ''error'') then to_str (jprop data ''error'') else what @ '' ('' @ int_str status @ '')'')"

section \<open>Deleting\<close>

text \<open>The operand, expanded: the paths that will be asked for.\<close>

definition delete_targets :: "term_env \<Rightarrow> string \<Rightarrow> string + string list" where
  "delete_targets env target =
     (case (if workspacePathHasGlob target
            then map_sum id (map en_path) (workspaceExpandPathPattern (te_compare env) (te_cache env) target (te_cwd env) AnyKind False)
            else map_sum id (\<lambda>p. [p]) (resolveExistingWorkspaceCommandPath (te_cache env) target (te_cwd env) AnyKind False)) of
        Inl e \<Rightarrow> Inl (path_error_message e)
      | Inr [] \<Rightarrow> Inl (''no matches: '' @ target)
      | Inr ps \<Rightarrow> Inr ps)"

definition target_info :: "string \<Rightarrow> jsval \<Rightarrow> jsobj" where
  "target_info path info =
     obj_assign (obj_entries info)
       [(''path'', JStr (if truthy (jprop info ''path'') then to_str (jprop info ''path'') else path))]"

fun gather_infos :: "server \<Rightarrow> string list \<Rightarrow> jsobj list \<Rightarrow> ws_run \<Rightarrow> (string + jsobj list) \<times> ws_run" where
  "gather_infos srv [] infos ex = (Inr infos, ex)"
| "gather_infos srv (p # ps) infos ex =
     (let path = squeeze p; (r, ex1) = send srv (InfoReq path) ex in
      case r of
        NetError msg \<Rightarrow> (Inl msg, ex1)
      | Resp ok status data \<Rightarrow>
          if \<not> ok then (Inl (failure_message ''file or folder was not found'' status data), ex1)
          else gather_infos srv ps (infos @ [target_info path data]) ex1)"

record confirm =
  c_infos :: "jsobj list"
  c_recursive :: bool
  c_execution :: ws_run

definition info_path :: "jsobj \<Rightarrow> string" where
  "info_path info = str_or (obj_get info ''path'') []"

definition is_dir_info :: "jsobj \<Rightarrow> bool" where
  "is_dir_info info \<longleftrightarrow> obj_get info ''kind'' = JStr ''directory''"

text \<open>\<open>Number(info.file_count) || 0\<close>; the numbers of a JSON body are finite.\<close>

definition file_count :: "jsobj \<Rightarrow> rat" where
  "file_count info = (case to_num (obj_get info ''file_count'') of Fin r \<Rightarrow> r | _ \<Rightarrow> 0)"

definition delete_question :: "string \<Rightarrow> jsobj list \<Rightarrow> string" where
  "delete_question target infos =
     (if length infos > 1 then ''delete '' @ nat_str (length infos) @ '' matched session items for '' @ [SQ] @ target @ [SQ] @ ''?''
      else ''delete session '' @ (if is_dir_info (hd infos) then ''folder'' else ''file'') @ '' '' @ [SQ] @ target @ [SQ] @ ''?'')"

definition delete_warning :: "rat \<Rightarrow> string" where
  "delete_warning n = ''warning: this will also delete '' @ rat_str n @ '' '' @ (if n = 1 then ''file'' else ''files'') @ '' in this folder.''"

definition folder_refusal :: "string \<Rightarrow> jsobj list \<Rightarrow> string" where
  "folder_refusal target infos =
     (let dirs = filter is_dir_info infos;
          folderLabel = (if length dirs = 1 then (if info_path (hd dirs) \<noteq> [] then info_path (hd dirs) else target)
                         else nat_str (length dirs) @ '' folders'');
          matchedText = (if length infos > 1 then folderLabel @ '' matched'' else folderLabel @ '' is a folder'')
      in ''[error] '' @ matchedText @ ''; use rm -r '' @ target @ '' or file delete -r '' @ target)"

definition delete_usage :: "delete_command option \<Rightarrow> string" where
  "delete_usage parsed = (case parsed of
       Some p \<Rightarrow> if d_usage p \<noteq> [] then d_usage p else ''Usage: rm [-r|-f|-rf] <file-or-folder>''
     | None \<Rightarrow> ''Usage: rm [-r|-f|-rf] <file-or-folder>'')"

text \<open>The first half of the handler, up to the question; the confirmation it sets, if any.\<close>

definition handleWorkspaceDeleteCommand :: "server \<Rightarrow> term_env \<Rightarrow> string \<Rightarrow> ws_run \<Rightarrow> ws_run \<times> confirm option" where
  "handleWorkspaceDeleteCommand srv env cmd ex =
     (let parsed = workspaceDeleteCommand cmd; target = workspaceDeleteTarget cmd in
      if \<not> te_can_write env then (fail_with (''[error] '' @ te_denied env ''delete Files'') ex, None)
      else if target = [] then (fail_with (delete_usage parsed) ex, None)
      else (case delete_targets env target of
          Inl msg \<Rightarrow> (fail_with (error_text msg ''file or folder was not found'') ex, None)
        | Inr ps \<Rightarrow> (case gather_infos srv ps [] ex of
            (Inl msg, ex1) \<Rightarrow> (fail_with (error_text msg ''file or folder was not found'') ex1, None)
          | (Inr infos, ex1) \<Rightarrow>
              let tgt = (if length infos = 1 then (if info_path (hd infos) \<noteq> [] then info_path (hd infos) else target) else target);
                  dirs = filter is_dir_info infos;
                  recursive = (case parsed of Some p \<Rightarrow> d_recursive p | None \<Rightarrow> False);
                  files = sum_list (map file_count infos)
              in if dirs \<noteq> [] \<and> \<not> recursive then (fail_with (folder_refusal tgt infos) ex1, None)
                 else
                   let ex2 = put (delete_question tgt infos) [] ex1;
                       ex3 = (if dirs \<noteq> [] \<and> files > 0 then put (delete_warning files) ''warning'' ex2 else ex2);
                       ex4 = ex3\<lparr>ex_status := ''idle''\<rparr>
                   in (ex4, Some \<lparr>c_infos = infos, c_recursive = recursive, c_execution = ex4\<rparr>))))"

text \<open>\<open>onYes\<close> and \<open>onNo\<close>.\<close>

definition delete_path :: "jsobj \<Rightarrow> string" where
  "delete_path info = squeeze (info_path info)"

fun delete_all :: "server \<Rightarrow> jsobj list \<Rightarrow> ws_run \<Rightarrow> string option \<times> ws_run" where
  "delete_all srv [] ex = (None, ex)"
| "delete_all srv (info # infos) ex =
     (let path = delete_path info; (r, ex1) = send srv (DeleteReq path) ex in
      case r of
        NetError msg \<Rightarrow> (Some msg, ex1)
      | Resp ok status data \<Rightarrow>
          if \<not> ok then (Some (failure_message ''file delete failed'' status data), ex1)
          else delete_all srv infos
            (put ((if is_dir_info info then ''file: removed folder '' else ''file: removed '') @ path) [] ex1))"

definition delete_yes :: "server \<Rightarrow> confirm \<Rightarrow> ws_run" where
  "delete_yes srv c = (case delete_all srv (c_infos c) (c_execution c) of
       (None, ex) \<Rightarrow> ex\<lparr>ex_refresh := True, ex_recent := True, ex_status := ''ok''\<rparr>
     | (Some msg, ex) \<Rightarrow> fail_with (error_text msg ''network error'') ex)"

definition delete_no :: "confirm \<Rightarrow> ws_run" where
  "delete_no c =
     (put (''Session '' @ (if length (c_infos c) > 1 then ''items'' else if is_dir_info (hd (c_infos c)) then ''folder'' else ''file'')
        @ '' delete canceled.'') [] (c_execution c))\<lparr>ex_recent := False, ex_status := ''idle''\<rparr>"

section \<open>Moving and copying\<close>

text \<open>
  The helpers of the Files panel either return the body of the response or throw with a message.
\<close>

definition call_helper :: "server \<Rightarrow> request \<Rightarrow> ws_run \<Rightarrow> (string + jsval) \<times> ws_run" where
  "call_helper srv rq ex = (case send srv rq ex of
       (NetError msg, ex1) \<Rightarrow> (Inl msg, ex1)
     | (Resp ok status data, ex1) \<Rightarrow> (Inr data, ex1))"

text \<open>\<open>moved.source || source\<close> and the like, as part of a text.\<close>

definition field_or :: "jsval \<Rightarrow> string \<Rightarrow> string \<Rightarrow> string" where
  "field_or v k dflt = to_str (js_or (jprop v k) (JStr dflt))"

fun move_all :: "server \<Rightarrow> string \<Rightarrow> string list \<Rightarrow> ws_run \<Rightarrow> string option \<times> ws_run" where
  "move_all srv destination [] ex = (None, ex)"
| "move_all srv destination (p # ps) ex =
     (let source = squeeze p in
      case call_helper srv (MoveReq source destination) ex of
        (Inl msg, ex1) \<Rightarrow> (Some msg, ex1)
      | (Inr data, ex1) \<Rightarrow>
          let moved = jprop data ''moved'' in
          move_all srv destination ps
            (put (''file: moved '' @ field_or moved ''source'' source @ '' to '' @ field_or moved ''destination'' destination) [] ex1))"

definition succeed :: "ws_run \<Rightarrow> ws_run" where
  "succeed ex = ex\<lparr>ex_refresh := True, ex_recent := True, ex_status := ''ok''\<rparr>"

definition handleWorkspaceMoveCommand :: "server \<Rightarrow> term_env \<Rightarrow> string \<Rightarrow> ws_run \<Rightarrow> ws_run" where
  "handleWorkspaceMoveCommand srv env cmd ex =
     (if \<not> te_can_write env then fail_with (''[error] '' @ te_denied env ''move Files'') ex
      else case workspaceMoveCommand cmd of
          None \<Rightarrow> fail_with ''Usage: file move <source> <destination>'' ex
        | Some p \<Rightarrow>
            if t_invalid p \<or> t_source p = [] \<or> t_destination p = [] then fail_with (t_usage p) ex
            else (case (delete_targets env (t_source p), resolveWorkspaceCommandPath (t_destination p) (te_cwd env) False) of
                (Inl msg, _) \<Rightarrow> fail_with (error_text msg ''file move failed'') ex
              | (_, Inl e) \<Rightarrow> fail_with (error_text (path_error_message e) ''file move failed'') ex
              | (Inr sources, Inr destination) \<Rightarrow>
                  if length sources > 1 \<and> \<not> workspacePathExists (te_cache env) destination DirectoryKind
                  then fail_with ''[error] destination must be an existing folder when moving multiple matches'' ex
                  else (case move_all srv destination sources ex of
                      (None, ex1) \<Rightarrow> succeed ex1
                    | (Some msg, ex1) \<Rightarrow> fail_with (error_text msg ''file move failed'') ex1)))"

definition handleWorkspaceCopyCommand :: "server \<Rightarrow> term_env \<Rightarrow> string \<Rightarrow> ws_run \<Rightarrow> ws_run" where
  "handleWorkspaceCopyCommand srv env cmd ex =
     (if \<not> te_can_write env then fail_with (''[error] '' @ te_denied env ''copy Files'') ex
      else case workspaceCopyCommand cmd of
          None \<Rightarrow> fail_with ''Usage: file copy <source> <destination>'' ex
        | Some p \<Rightarrow>
            if t_invalid p \<or> t_source p = [] \<or> t_destination p = [] then fail_with (t_usage p) ex
            else (case (resolveExistingWorkspaceCommandPath (te_cache env) (t_source p) (te_cwd env) FileKind False,
                        resolveWorkspaceCommandPath (t_destination p) (te_cwd env) False) of
                (Inl e, _) \<Rightarrow> fail_with (error_text (path_error_message e) ''file copy failed'') ex
              | (_, Inl e) \<Rightarrow> fail_with (error_text (path_error_message e) ''file copy failed'') ex
              | (Inr source, Inr destination) \<Rightarrow>
                  (case call_helper srv (CopyReq source destination) ex of
                      (Inl msg, ex1) \<Rightarrow> fail_with (error_text msg ''file copy failed'') ex1
                    | (Inr data, ex1) \<Rightarrow>
                        let copied = jprop data ''copied'' in
                        succeed (put (''file: copied '' @ field_or copied ''source'' source @ '' to ''
                          @ field_or copied ''destination'' destination) [] ex1))))"

section \<open>Standalone filters and listings\<close>

text \<open>\<open>raw.replace(/\r\n/g, '\n').replace(/\r/g, '\n')\<close>.\<close>

fun unix_newlines :: "string \<Rightarrow> string" where
  "unix_newlines [] = []"
| "unix_newlines [c] = [if c = CHR 0x0D then NL else c]"
| "unix_newlines (c # d # s) =
     (if c = CHR 0x0D \<and> d = NL then NL # unix_newlines s
      else (if c = CHR 0x0D then NL else c) # unix_newlines (d # s))"

definition workspaceSplitLines :: "string \<Rightarrow> jsval list" where
  "workspaceSplitLines raw =
     (if raw = [] then []
      else let lines = split_on NL (unix_newlines raw) in
        map plainItem (if last lines = [] then butlast lines else lines))"

definition grep_flag_re :: rx where
  "grep_flag_re = rx_anchored (RSeq (RChr (\<lambda>c. c = CHR ''-''))
     (rx_plus (RChr (\<lambda>c. c = CHR ''i'' \<or> c = CHR ''v'' \<or> c = CHR ''E''))))"

definition filter_stage :: "string \<Rightarrow> string \<Rightarrow> string \<Rightarrow> string + string \<times> spec" where
  "filter_stage path command err = (case parseSyntheticPostFilterCommand command of
       Parsed st \<Rightarrow> Inr (path, st)
     | _ \<Rightarrow> Inl err)"

text \<open>The outer option is the result null; an error message is the left component.\<close>

definition workspaceStandaloneFilterSpec :: "string list \<Rightarrow> (string + string \<times> spec) option" where
  "workspaceStandaloneFilterSpec parts =
     (let rt = root_word parts; n = length parts;
          file = (if parts = [] then [] else last parts);
          opt = (if n = 3 then parts ! 1 else []);
          with_option = (\<lambda>o1. if o1 \<noteq> [] then '' '' @ o1 else []) in
      if rt = ''grep'' then Some (
        if n < 3 then Inl ''Usage: grep [-i|-v|-E] <search> <file>''
        else
          let flags = takeWhile (rx_test grep_flag_re) (JS_Prelude.slice 1 (n - 2) parts); index = 1 + length flags in
          if index \<noteq> n - 2 then Inl ''Usage: grep [-i|-v|-E] <search> <file>''
          else filter_stage (parts ! (index + 1))
            (''cat x | grep '' @ join '' '' flags @ '' '' @ json_quote (parts ! index)) ''grep supports only -i, -v, and -E.'')
      else if rt = ''head'' \<or> rt = ''tail'' then Some (
        let usage = ''Usage: '' @ rt @ '' [-n N] <file>'' in
        if n < 2 then Inl usage
        else filter_stage file (''cat x | '' @ rt @ with_option (join '' '' (JS_Prelude.slice 1 (n - 1) parts))) usage)
      else if rt = ''wc'' then Some (
        if n \<noteq> 3 \<or> parts ! 1 \<noteq> ''-l'' then Inl ''Usage: wc -l <file>''
        else filter_stage (parts ! 2) ''cat x | wc -l'' [])
      else if rt = ''sort'' then Some (
        if n < 2 \<or> n > 3 then Inl ''Usage: sort [-r|-n|-u|-rn] <file>''
        else filter_stage file (''cat x | sort'' @ with_option opt) ''sort supports only -r, -n, and -u flags.'')
      else if rt = ''uniq'' then Some (
        if n < 2 \<or> n > 3 then Inl ''Usage: uniq [-c] <file>''
        else filter_stage file (''cat x | uniq'' @ with_option opt) ''uniq supports only -c.'')
      else None)"

definition match_listing :: "string \<Rightarrow> entry list \<Rightarrow> listing" where
  "match_listing cwd matches =
     \<lparr>folders = map (\<lambda>e. JObj [(''path'', JStr (en_path e)), (''name'', JStr (strip_slashes (workspaceRelativeListName (en_path e) cwd True)))])
        (filter (\<lambda>e. en_kind e = DirectoryKind) matches),
      files = map (\<lambda>e. JObj (obj_assign (case en_item e of None \<Rightarrow> [] | Some h \<Rightarrow> [(''value'', JStr (h_value h)), (''description'', JStr (h_description h))])
          [(''path'', JStr (en_path e)), (''name'', JStr (workspaceRelativeListName (en_path e) cwd False))]))
        (filter (\<lambda>e. en_kind e = FileKind) matches)\<rparr>"

definition runWorkspaceListCommand :: "term_env \<Rightarrow> string list \<Rightarrow> string + string list" where
  "runWorkspaceListCommand env parts =
     (let c = te_cache env; lc = te_compare env in
      case workspaceListCommand parts of
        None \<Rightarrow> Inl ''Usage: ls [-l] [folder]''
      | Some p \<Rightarrow>
          if l_invalid p then Inl (l_usage p)
          else if workspacePathHasGlob (l_target p) then
            (case workspaceExpandPathPattern lc c (l_target p) (te_cwd env) AnyKind True of
               Inl e \<Rightarrow> Inl (path_error_message e)
             | Inr [] \<Rightarrow> Inl (''no matches: '' @ l_target p)
             | Inr matches \<Rightarrow>
                 let entries = match_listing (normalizeWorkspaceTerminalPath (te_cwd env)) matches in
                 Inr (if l_long p then workspaceListLines entries [] else workspaceShortListLines entries))
          else
            (case resolveExistingWorkspaceCommandPath c (l_target p) (te_cwd env) DirectoryKind True of
               Inl e \<Rightarrow> Inl (path_error_message e)
             | Inr target \<Rightarrow>
                 let directoryExists = (target = [] \<or> workspacePathExists c target DirectoryKind);
                     isFile = (target \<in> h_value ` set (getWorkspaceAutocompleteFileHints c)) in
                 if \<not> directoryExists \<and> isFile then Inr [target]
                 else if \<not> directoryExists then Inl (''folder not found: '' @ terminalDisplayPath target)
                 else
                   let entries = (if l_recursive p then workspaceRecursiveEntries lc c target
                                  else workspaceDirectListEntries lc (workspaceDirectEntries lc c target) target) in
                   Inr (if l_long p then workspaceListLines entries target else workspaceShortListLines entries)))"

section \<open>The terminal command\<close>

text \<open>The two sources of a diff: a run reference stays, a path is resolved.\<close>

definition sourceReference :: "term_env \<Rightarrow> string \<Rightarrow> path_error + string" where
  "sourceReference env source =
     (if startsWith source ''run:'' then Inr source
      else map_sum id (\<lambda>p. ''file:'' @ p)
        (resolveExistingWorkspaceCommandPath (te_cache env) (if startsWith source ''file:'' then drop 5 source else source)
           (te_cwd env) FileKind False))"

definition opt_str :: "string option \<Rightarrow> string" where
  "opt_str v = (case v of None \<Rightarrow> [] | Some s \<Rightarrow> s)"

definition run_diff :: "server \<Rightarrow> term_env \<Rightarrow> string \<Rightarrow> string \<Rightarrow> ws_run \<Rightarrow> (string + jsval list) \<times> ws_run" where
  "run_diff srv env tabId cmd ex = (case workspaceDiffCommand cmd of
       None \<Rightarrow> (Inl ''Usage: diff <source1> <source2>'', ex)
     | Some p \<Rightarrow>
         if f_invalid p then (Inl (f_usage p), ex)
         else (case (if f_last p then Inr [] else sourceReference env (opt_str (f_left p)),
                     if f_last p then Inr [] else sourceReference env (opt_str (f_right p))) of
             (Inl e, _) \<Rightarrow> (Inl (path_error_message e), ex)
           | (_, Inl e) \<Rightarrow> (Inl (path_error_message e), ex)
           | (Inr left, Inr right) \<Rightarrow>
               (case send srv (DiffReq (JObj [(''left'', JStr left), (''right'', JStr right), (''last'', JBool (f_last p)),
                    (''tab_id'', JStr tabId), (''mode'', JStr (f_mode p))])) ex of
                   (NetError msg, ex1) \<Rightarrow> (Inl msg, ex1)
                 | (Resp ok status data, ex1) \<Rightarrow>
                     if \<not> ok then (Inl (failure_message ''diff failed'' status data), ex1)
                     else (Inr (map (\<lambda>l. plainItem (to_str l)) (arr_items (jprop data ''notices'') @ arr_items (jprop data ''lines''))), ex1))))"

definition created_path :: "jsval \<Rightarrow> string \<Rightarrow> string \<Rightarrow> string" where
  "created_path data k dflt = (if truthy (jprop (jprop data k) ''path'') then to_str (jprop (jprop data k) ''path'') else dflt)"

definition run_create :: "server \<Rightarrow> term_env \<Rightarrow> string \<Rightarrow> (string \<Rightarrow> request) \<Rightarrow> string \<Rightarrow> string \<Rightarrow> ws_run \<Rightarrow> (string + jsval list) \<times> ws_run" where
  "run_create srv env rawTarget rq k msg ex = (case resolveWorkspaceCommandPath rawTarget (te_cwd env) False of
       Inl e \<Rightarrow> (Inl (path_error_message e), ex)
     | Inr target \<Rightarrow> (case call_helper srv (rq target) ex of
         (Inl m, ex1) \<Rightarrow> (Inl m, ex1)
       | (Inr data, ex1) \<Rightarrow> (Inr [plainItem (msg @ created_path data k target)], ex1)))"

definition run_read :: "server \<Rightarrow> term_env \<Rightarrow> string \<Rightarrow> ws_run \<Rightarrow> (string + jsval list) \<times> ws_run" where
  "run_read srv env rawTarget ex =
     (case resolveExistingWorkspaceCommandPath (te_cache env) rawTarget (te_cwd env) FileKind False of
        Inl e \<Rightarrow> (Inl (path_error_message e), ex)
      | Inr target \<Rightarrow> (case call_helper srv (ReadReq target) ex of
          (Inl m, ex1) \<Rightarrow> (Inl m, ex1)
        | (Inr data, ex1) \<Rightarrow> (Inr (workspaceSplitLines (str_or (jprop data ''text'') [])), ex1)))"

text \<open>The output of a command, or the message it fails with; \<open>cd\<close> also gives the new folder.\<close>

definition terminal_output ::
  "server \<Rightarrow> term_env \<Rightarrow> filter_env \<Rightarrow> string \<Rightarrow> string \<Rightarrow> ws_run \<Rightarrow> (string + jsval list) \<times> ws_run \<times> string" where
  "terminal_output srv env fenv tabId cmd ex =
     (let parts = workspaceCommandTokens cmd; rt = root_word parts; act = action_word parts; n = length parts;
          cwd = te_cwd env; c = te_cache env; keep = (\<lambda>(r, ex1). (r, ex1, cwd)) in
      if rt = ''pwd'' then (Inr [plainItem (terminalDisplayPath cwd)], ex, cwd)
      else if rt = ''cd'' then
        (if n > 2 then (Inl ''Usage: cd [folder]'', ex, cwd)
         else case resolveExistingWorkspaceCommandPath c (if part_at parts 1 \<noteq> [] then part_at parts 1 else ''/'') cwd DirectoryKind False of
             Inl e \<Rightarrow> (Inl (path_error_message e), ex, cwd)
           | Inr target \<Rightarrow>
               if target \<noteq> [] \<and> \<not> workspacePathExists c target DirectoryKind
               then (Inl (''folder not found: '' @ terminalDisplayPath target), ex, cwd)
               else (Inr [plainItem (terminalDisplayPath target)], ex, normalizeWorkspaceTerminalPath target))
      else if rt = ''ls'' \<or> rt = ''ll'' \<or> rt = ''file'' \<and> act \<in> {''list'', ''ls''} then
        (map_sum id (map plainItem) (runWorkspaceListCommand env parts), ex, cwd)
      else if rt = ''cat'' \<or> rt = ''file'' \<and> act = ''show'' then
        (let k = (if rt = ''cat'' then 1 else 2) in
         if part_at parts k = [] \<or> n \<noteq> k + 1 then (Inl (if rt = ''cat'' then ''Usage: cat <file>'' else ''Usage: file show <file>''), ex, cwd)
         else keep (run_read srv env (part_at parts k) ex))
      else if rt = ''diff'' \<or> rt = ''file'' \<and> act = ''diff'' then keep (run_diff srv env tabId cmd ex)
      else if rt = ''mkdir'' \<or> rt = ''file'' \<and> act \<in> {''add-dir'', ''mkdir''} then
        (let k = (if rt = ''mkdir'' then 1 else 2) in
         if \<not> te_can_write env then (Inl (te_denied env ''create folders in Files''), ex, cwd)
         else if part_at parts k = [] \<or> n \<noteq> k + 1
         then (Inl (if rt = ''mkdir'' then ''Usage: mkdir <folder>'' else ''Usage: file add-dir <folder>''), ex, cwd)
         else keep (run_create srv env (part_at parts k) MkdirReq ''directory'' ''file: created folder '' ex))
      else if rt = ''touch'' \<or> rt = ''file'' \<and> act = ''touch'' then
        (if \<not> te_can_write env then (Inl (te_denied env ''touch Files''), ex, cwd)
         else case workspaceTouchCommand cmd of
             None \<Rightarrow> (Inl ''Usage: touch <file>'', ex, cwd)
           | Some p \<Rightarrow>
               if tc_invalid p \<or> tc_target p = [] then (Inl (tc_usage p), ex, cwd)
               else keep (run_create srv env (tc_target p) TouchReq ''file'' ''file: touched '' ex))
      else (case workspaceStandaloneFilterSpec parts of
          None \<Rightarrow> (Inl ''unsupported workspace command'', ex, cwd)
        | Some (Inl err) \<Rightarrow> (Inl (if err \<noteq> [] then err else ''unsupported workspace command''), ex, cwd)
        | Some (Inr (path, st)) \<Rightarrow> (case run_read srv env path ex of
            (Inl m, ex1) \<Rightarrow> (Inl m, ex1, cwd)
          | (Inr items, ex1) \<Rightarrow> (Inr (applySyntheticPostFilterLines fenv items (stages st)), ex1, cwd))))"

definition handleWorkspaceTerminalCommand ::
  "server \<Rightarrow> term_env \<Rightarrow> filter_env \<Rightarrow> string \<Rightarrow> string \<Rightarrow> ws_run \<Rightarrow> ws_run \<times> string" where
  "handleWorkspaceTerminalCommand srv env fenv tabId cmd ex = (case terminal_output srv env fenv tabId cmd ex of
       (Inr items, ex1, cwd) \<Rightarrow>
         (ex1\<lparr>ex_lines := ex_lines ex1 @ map (\<lambda>l. (to_str (jprop l ''text''), str_or (jprop l ''cls'') [])) items,
              ex_recent := True, ex_status := ''ok''\<rparr>, cwd)
     | (Inl msg, ex1, cwd) \<Rightarrow>
         ((fail_with (error_text msg ''workspace command failed'') ex1)\<lparr>ex_recent := False\<rparr>, cwd))"

section \<open>The prompt of a tab\<close>

text \<open>
  A tab with at most one confirmation pending; while there is one, a submitted line is the answer to it.
  The requests are all that the tab has sent.
\<close>

record prompt_tab =
  pt_pending :: "confirm option"
  pt_requests :: "request list"
  pt_notices :: nat

definition fresh_execution :: "request list \<Rightarrow> ws_run" where
  "fresh_execution rqs = \<lparr>ex_lines = [], ex_status = ''idle'', ex_recent = False, ex_refresh = False, ex_requests = rqs\<rparr>"

definition answer_word :: "string \<Rightarrow> string" where
  "answer_word cmd = toLowerCase (trim cmd)"

definition submit_prompt :: "server \<Rightarrow> term_env \<Rightarrow> string \<Rightarrow> prompt_tab \<Rightarrow> prompt_tab" where
  "submit_prompt srv env raw t =
     (let cmd = trim raw in
      if cmd = [] then t
      else (case pt_pending t of
          Some c \<Rightarrow>
            if answer_word cmd \<in> {''yes'', ''y''} then
              t\<lparr>pt_pending := None, pt_requests := ex_requests (delete_yes srv c)\<rparr>
            else if answer_word cmd \<in> {''no'', ''n''} then
              t\<lparr>pt_pending := None, pt_requests := ex_requests (delete_no c)\<rparr>
            else t\<lparr>pt_notices := pt_notices t + 1\<rparr>
        | None \<Rightarrow>
            if isWorkspaceDeleteCommand True cmd then
              (let (ex, c) = handleWorkspaceDeleteCommand srv env cmd (fresh_execution (pt_requests t)) in
               t\<lparr>pt_pending := c, pt_requests := ex_requests ex\<rparr>)
            else t))"

definition cancel_prompt :: "prompt_tab \<Rightarrow> prompt_tab" where
  "cancel_prompt t = (case pt_pending t of
       None \<Rightarrow> t
     | Some c \<Rightarrow> t\<lparr>pt_pending := None, pt_requests := ex_requests (delete_no c)\<rparr>)"

text \<open>A line submitted in some environment, or the prompt cancelled; both are always possible.\<close>

datatype prompt_action = SubmitLine term_env string | CancelPrompt

fun prompt_step :: "server \<Rightarrow> prompt_action \<Rightarrow> prompt_tab \<Rightarrow> prompt_tab" where
  "prompt_step srv (SubmitLine env raw) t = submit_prompt srv env raw t"
| "prompt_step srv CancelPrompt t = cancel_prompt t"

definition idle_prompt :: prompt_tab where
  "idle_prompt = \<lparr>pt_pending = None, pt_requests = [], pt_notices = 0\<rparr>"

definition prompt_reachable :: "server \<Rightarrow> prompt_tab \<Rightarrow> bool" where
  "prompt_reachable srv t \<longleftrightarrow> (\<exists>as. run_all (\<lambda>a t. True) (prompt_step srv) as idle_prompt = Some t)"

section \<open>What a delete sends\<close>

lemma requests_put [simp]: "ex_requests (put a b ex) = ex_requests ex" "ex_requests (fail_with a ex) = ex_requests ex"
  by (simp_all add: put_def fail_with_def)

lemma gather_requests:
  "\<exists>k. ex_requests (snd (gather_infos srv ps infos ex)) = ex_requests ex @ map (\<lambda>p. InfoReq (squeeze p)) (take k ps)"
proof (induction srv ps infos ex rule: gather_infos.induct)
  case (1 srv infos ex)
  show ?case by simp
next
  case (2 srv p ps infos ex)
  let ?path = "squeeze p"
  obtain r ex1 where s: "send srv (InfoReq ?path) ex = (r, ex1)" by fastforce
  have e: "ex_requests ex1 = ex_requests ex @ [InfoReq ?path]" using s by (auto simp: send_def)
  show ?case
  proof (cases "\<exists>status data. r = Resp True status data")
    case True
    then obtain status data where r: "r = Resp True status data" by blast
    from "2.IH" [OF refl s [symmetric] refl r] obtain k
      where "ex_requests (snd (gather_infos srv ps (infos @ [target_info ?path data]) ex1))
        = ex_requests ex1 @ map (\<lambda>p. InfoReq (squeeze p)) (take k ps)" by auto
    then show ?thesis using s r e by (intro exI [of _ "Suc k"]) simp
  next
    case False
    then show ?thesis using s e by (intro exI [of _ "Suc 0"]) (auto split: reply.splits)
  qed
qed

lemma delete_all_requests:
  "\<exists>k. ex_requests (snd (delete_all srv infos ex)) = ex_requests ex @ map (\<lambda>i. DeleteReq (delete_path i)) (take k infos)"
proof (induction srv infos ex rule: delete_all.induct)
  case (1 srv ex)
  show ?case by simp
next
  case (2 srv info infos ex)
  obtain r ex1 where s: "send srv (DeleteReq (delete_path info)) ex = (r, ex1)" by fastforce
  have e: "ex_requests ex1 = ex_requests ex @ [DeleteReq (delete_path info)]" using s by (auto simp: send_def)
  show ?case
  proof (cases "\<exists>status data. r = Resp True status data")
    case True
    then obtain status data where r: "r = Resp True status data" by blast
    let ?ex = "put ((if is_dir_info info then ''file: removed folder '' else ''file: removed '') @ delete_path info) [] ex1"
    from "2.IH" [OF refl s [symmetric] refl r] obtain k
      where "ex_requests (snd (delete_all srv infos ?ex)) = ex_requests ?ex @ map (\<lambda>i. DeleteReq (delete_path i)) (take k infos)" by auto
    then show ?thesis using s r e by (intro exI [of _ "Suc k"]) (simp add: Let_def)
  next
    case False
    then show ?thesis using s e by (intro exI [of _ "Suc 0"]) (auto simp: Let_def split: reply.splits)
  qed
qed

lemma delete_yes_requests:
  "\<exists>k. ex_requests (delete_yes srv c) = ex_requests (c_execution c) @ map (\<lambda>i. DeleteReq (delete_path i)) (take k (c_infos c))"
  using delete_all_requests [of srv "c_infos c" "c_execution c"] by (auto simp: delete_yes_def split: prod.splits option.splits)

lemma delete_no_requests [simp]: "ex_requests (delete_no c) = ex_requests (c_execution c)"
  by (simp add: delete_no_def)

text \<open>The first half only asks; a confirmation it leaves covers folders only with the flag \<open>-r\<close>.\<close>

lemma handle_delete_requests:
  assumes "handleWorkspaceDeleteCommand srv env cmd ex = (ex', c)"
  shows "\<exists>ps. ex_requests ex' = ex_requests ex @ map InfoReq ps"
    and "c = Some d \<Longrightarrow> c_execution d = ex' \<and> te_can_write env \<and> (c_recursive d \<or> (\<forall>i \<in> set (c_infos d). \<not> is_dir_info i))"
proof -
  have g: "\<exists>qs. ex_requests ex1 = ex_requests ex @ map InfoReq qs" if "gather_infos srv ps [] ex = (x, ex1)" for ps x ex1
    using gather_requests [of srv ps "[]" ex] that by (metis (no_types, lifting) map_map o_def snd_conv map_eq_conv)
  show "\<exists>ps. ex_requests ex' = ex_requests ex @ map InfoReq ps"
    using assms g by (fastforce simp: handleWorkspaceDeleteCommand_def Let_def split: if_splits sum.splits prod.splits)
  show "c_execution d = ex' \<and> te_can_write env \<and> (c_recursive d \<or> (\<forall>i \<in> set (c_infos d). \<not> is_dir_info i))" if "c = Some d"
    using assms that
    by (auto simp: handleWorkspaceDeleteCommand_def Let_def filter_empty_conv split: if_splits sum.splits prod.splits)
qed

lemma delete_targets_inside:
  assumes "delete_targets env target = Inr ps" "safe_path (te_cwd env)" "p \<in> set ps"
  shows "safe_path p \<or> p \<in> listed (te_cache env) \<or> p \<in> squeeze ` listed (te_cache env)"
proof (cases "workspacePathHasGlob target")
  case True
  then obtain es where es: "workspaceExpandPathPattern (te_compare env) (te_cache env) target (te_cwd env) AnyKind False = Inr es" "ps = map en_path es"
    using assms(1) by (auto simp: delete_targets_def map_sum_def split: sum.splits list.splits)
  then obtain e where "e \<in> set es" "p = en_path e" using assms(3) by auto
  then show ?thesis using expand_listed [OF es(1) assms(2)] by blast
next
  case False
  then have "resolveExistingWorkspaceCommandPath (te_cache env) target (te_cwd env) AnyKind False = Inr p"
    using assms(1,3) by (auto simp: delete_targets_def map_sum_def split: sum.splits list.splits)
  then show ?thesis using resolve_existing_cases [OF _ assms(2)] by blast
qed

definition prompt_inv :: "prompt_tab \<Rightarrow> bool" where
  "prompt_inv t \<longleftrightarrow> (\<forall>c. pt_pending t = Some c \<longrightarrow>
     ex_requests (c_execution c) = pt_requests t \<and> (c_recursive c \<or> (\<forall>i \<in> set (c_infos c). \<not> is_dir_info i)))"

interpretation prompt: machine "\<lambda>a t. True" "prompt_step srv" prompt_inv for srv
proof
  fix t a
  assume inv: "prompt_inv t"
  show "prompt_inv (prompt_step srv a t)"
  proof (cases a)
    case (SubmitLine env raw)
    then show ?thesis
      using inv handle_delete_requests(2) [of srv env "trim raw" "fresh_execution (pt_requests t)"]
      by (auto simp: prompt_inv_def submit_prompt_def Let_def split: option.splits prod.splits)
  next
    case CancelPrompt
    then show ?thesis using inv by (auto simp: prompt_inv_def cancel_prompt_def split: option.splits)
  qed
qed

lemma prompt_reachable_inv: "prompt_reachable srv t \<Longrightarrow> prompt_inv t"
proof -
  have "prompt_inv idle_prompt" by (simp add: prompt_inv_def idle_prompt_def)
  then show "prompt_reachable srv t \<Longrightarrow> prompt_inv t"
    using prompt.run_holds unfolding prompt_reachable_def by blast
qed

lemma submit_prompt_cases:
  assumes "prompt_inv t"
  shows "(\<exists>ps. pt_requests (submit_prompt srv env raw t) = pt_requests t @ map InfoReq ps)
    \<or> (\<exists>c. trim raw \<noteq> [] \<and> pt_pending t = Some c \<and> answer_word (trim raw) \<in> {''yes'', ''y''})"
proof (cases "pt_pending t")
  case None
  obtain ex c where h: "handleWorkspaceDeleteCommand srv env (trim raw) (fresh_execution (pt_requests t)) = (ex, c)" by fastforce
  obtain ps where "ex_requests ex = pt_requests t @ map InfoReq ps"
    using handle_delete_requests(1) [OF h] by (auto simp: fresh_execution_def)
  moreover have "pt_requests (submit_prompt srv env raw t) \<in> {pt_requests t @ map InfoReq [], ex_requests ex}"
    using None h by (simp add: submit_prompt_def Let_def)
  ultimately have "\<exists>ps. pt_requests (submit_prompt srv env raw t) = pt_requests t @ map InfoReq ps" by (metis insertE singletonD)
  then show ?thesis ..
next
  case (Some c)
  then have "ex_requests (c_execution c) = pt_requests t" using assms by (simp add: prompt_inv_def)
  then have "pt_requests (submit_prompt srv env raw t) = pt_requests t @ map InfoReq []"
    if "\<not> (trim raw \<noteq> [] \<and> answer_word (trim raw) \<in> {''yes'', ''y''})"
    using that Some by (cases "trim raw = []") (simp_all add: submit_prompt_def Let_def)
  then show ?thesis using Some by blast
qed


text \<open>A server that knows one file, and the two lines that delete it.\<close>

definition sample_server :: server where
  "sample_server hist rq = (case rq of
       InfoReq p \<Rightarrow> if p = ''notes'' then Resp True 200 (JObj [(''path'', JStr p), (''kind'', JStr ''file'')]) else Resp False 404 (JObj [])
     | _ \<Rightarrow> Resp True 200 (JObj []))"

definition sample_term :: term_env where
  "sample_term = \<lparr>te_compare = (\<lambda>a b. 0), te_cache = \<lparr>loaded = True, wfiles = [[(''path'', JStr ''notes'')]], wdirs = [], team_owner = False\<rparr>,
     te_cwd = [], te_can_write = True, te_denied = (\<lambda>a. [])\<rparr>"


section \<open>Reading and writing\<close>

fun is_write :: "request \<Rightarrow> bool" where
  "is_write (InfoReq p) = False"
| "is_write (ReadReq p) = False"
| "is_write (DiffReq b) = False"
| "is_write rq = True"

definition only_reads :: "ws_run \<Rightarrow> ws_run \<Rightarrow> bool" where
  "only_reads ex ex' \<longleftrightarrow> (\<exists>new. ex_requests ex' = ex_requests ex @ new \<and> (\<forall>rq \<in> set new. \<not> is_write rq))"

lemma only_reads_refl [simp]: "only_reads ex ex"
  by (auto simp: only_reads_def)

lemma only_reads_requests: "ex_requests ex1 = ex_requests ex2 \<Longrightarrow> only_reads ex ex1 = only_reads ex ex2"
  by (simp add: only_reads_def)

lemma only_reads_call: "call_helper srv rq ex = (r, ex1) \<Longrightarrow> \<not> is_write rq \<Longrightarrow> only_reads ex ex1"
  by (auto simp: call_helper_def send_def only_reads_def split: reply.splits)

lemma only_reads_read: "run_read srv env p ex = (r, ex1) \<Longrightarrow> only_reads ex ex1"
  by (auto simp: run_read_def split: sum.splits prod.splits dest: only_reads_call)

lemma only_reads_diff: "run_diff srv env tabId cmd ex = (r, ex1) \<Longrightarrow> only_reads ex ex1"
  by (auto simp: run_diff_def send_def only_reads_def split: option.splits if_splits sum.splits prod.splits reply.splits)

lemma terminal_output_only_reads:
  assumes "\<not> te_can_write env" "terminal_output srv env fenv tabId cmd ex = (r, ex1, cwd)"
  shows "only_reads ex ex1"
  using assms unfolding terminal_output_def Let_def
  by (auto split: if_splits sum.splits prod.splits option.splits dest: only_reads_read only_reads_diff)

text \<open>
  \<^bold>\<open>C26.\<close> A member without the right to change files changes none from the terminal: without the
  permission, a delete, move or copy command sends no request at all and asks for no confirmation, and
  any other workspace command, \<open>mkdir\<close> and \<open>touch\<close> included, sends only requests that read.
\<close>

theorem view_only_writes_nothing:
  assumes "\<not> te_can_write env"
  shows "ex_requests (fst (handleWorkspaceDeleteCommand srv env cmd ex)) = ex_requests ex
    \<and> snd (handleWorkspaceDeleteCommand srv env cmd ex) = None
    \<and> ex_requests (handleWorkspaceMoveCommand srv env cmd ex) = ex_requests ex
    \<and> ex_requests (handleWorkspaceCopyCommand srv env cmd ex) = ex_requests ex
    \<and> (\<exists>new. ex_requests (fst (handleWorkspaceTerminalCommand srv env fenv tabId cmd ex)) = ex_requests ex @ new
         \<and> (\<forall>rq \<in> set new. \<not> is_write rq))"
proof -
  obtain r ex1 cwd where t: "terminal_output srv env fenv tabId cmd ex = (r, ex1, cwd)" by (metis prod_cases3)
  have "ex_requests (fst (handleWorkspaceTerminalCommand srv env fenv tabId cmd ex)) = ex_requests ex1"
    by (simp add: handleWorkspaceTerminalCommand_def t split: sum.split)
  then have "only_reads ex (fst (handleWorkspaceTerminalCommand srv env fenv tabId cmd ex))"
    using terminal_output_only_reads [OF assms t] only_reads_requests by blast
  then show ?thesis
    using assms by (simp add: handleWorkspaceDeleteCommand_def handleWorkspaceMoveCommand_def handleWorkspaceCopyCommand_def
        Let_def only_reads_def)
qed

theorem view_only_writes_nothing_witness:
  "ex_requests (handleWorkspaceMoveCommand sample_server (sample_term\<lparr>te_can_write := False\<rparr>) ''mv notes old'' (fresh_execution [])) = []
   \<and> ex_requests (handleWorkspaceMoveCommand sample_server sample_term ''mv notes old'' (fresh_execution [])) = [MoveReq ''notes'' ''old'']"
proof
  have "\<not> te_can_write (sample_term\<lparr>te_can_write := False\<rparr>)" by simp
  from view_only_writes_nothing [OF this, of sample_server "''mv notes old''" "fresh_execution []"]
  show "ex_requests (handleWorkspaceMoveCommand sample_server (sample_term\<lparr>te_can_write := False\<rparr>) ''mv notes old'' (fresh_execution [])) = []"
    by (simp add: fresh_execution_def)
  show "ex_requests (handleWorkspaceMoveCommand sample_server sample_term ''mv notes old'' (fresh_execution [])) = [MoveReq ''notes'' ''old'']"
    by code_simp
qed

text \<open>Changing the folder of a tab keeps it inside the workspace.\<close>

lemma cd_stays_inside:
  assumes "handleWorkspaceTerminalCommand srv env fenv tabId cmd ex = (ex', cwd')" "safe_path (te_cwd env)"
    and listed: "\<forall>p \<in> listed (te_cache env). safe_path p"
  shows "safe_path cwd'"
proof -
  obtain r ex1 where t: "terminal_output srv env fenv tabId cmd ex = (r, ex1, cwd')"
    using assms(1) by (auto simp: handleWorkspaceTerminalCommand_def split: sum.splits prod.splits)
  have "cwd' = te_cwd env \<or> (\<exists>raw target. resolveExistingWorkspaceCommandPath (te_cache env) raw (te_cwd env) DirectoryKind False = Inr target
      \<and> cwd' = normalizeWorkspaceTerminalPath target)"
    using t unfolding terminal_output_def Let_def by (auto split: if_splits sum.splits prod.splits option.splits)
  moreover have "safe_path (normalizeWorkspaceTerminalPath p)" if "safe_path p" for p
    using that by (simp add: terminal_path_dir dir_norm.norm_fixed safe_clean)
  ultimately show ?thesis using resolve_existing_cases [OF _ assms(2)] assms(2) listed by blast
qed

end
