(* ===== verification/Command_Dispatch.thy ===== *)
theory Command_Dispatch
  imports Runner_Core Workspace_Commands
begin

text \<open>
  The run path of the terminal, \<open>submitCommand\<close> in \<open>app/static/js/runner.js\<close>: what happens to a submitted
  line, from the pending prompt through the client-side checks and the browser commands to the request
  that starts a run, and the masking of commands before they are recorded,
  \<open>app/static/js/features/runner/runner_persistence.js\<close>. The state of the page the code reads is a record;
  what the code does is the list of its actions, in order. The interactive commands
  (\<open>isInteractivePtyCommand\<close>) are a parameter.
\<close>

section \<open>Masking\<close>

text \<open>The suggestions behind \<open>(?:\s+([^\s|]+))?\<close> and \<open>(\s*secret\s+set\s+\S+)(?:\s+.+)\<close>.\<close>

definition credential_command_re :: rx where
  "credential_command_re = RSeq RBol (RSeq (rx_lit_i ''credential'')
     (rx_opt (RSeq (rx_plus rx_ws) (RCap 1 (rx_plus (RChr (\<lambda>c. \<not> is_ws c \<and> c \<noteq> CHR ''|'')))))))"

definition secret_prefix_re :: rx where
  "secret_prefix_re = rx_seq [rx_star rx_ws, rx_lit_i ''secret'', rx_plus rx_ws, rx_lit_i ''set'', rx_plus rx_ws, rx_plus rx_nonws]"

definition secret_set_re :: rx where
  "secret_set_re = rx_anchored (RSeq (RCap 1 secret_prefix_re) (RSeq (rx_plus rx_ws) (rx_plus rx_any)))"

definition historySafeCommand :: "string \<Rightarrow> string" where
  "historySafeCommand cmd =
     (let v = trim cmd in
      if v = [] then []
      else (case rx_exec credential_command_re v of
          Some m \<Rightarrow> if rx_group_str m 1 \<noteq> [] then ''credential '' @ toLowerCase (rx_group_str m 1) else ''credential status''
        | None \<Rightarrow> rx_replace secret_set_re (\<lambda>m. rx_group_str m 1) v))"

definition exitCodeFromStatus :: "string \<Rightarrow> nat" where
  "exitCodeFromStatus statusValue = (if statusValue = ''fail'' then 1 else 0)"

section \<open>Tests on the command line\<close>

text \<open>\<open>cmd.trim().split(/\s+/, 1)[0]\<close>.\<close>

definition first_word :: "string \<Rightarrow> string" where
  "first_word cmd = takeWhile (\<lambda>c. \<not> is_ws c) (trim cmd)"

definition isCredentialCommand :: "string \<Rightarrow> bool" where
  "isCredentialCommand cmd \<longleftrightarrow> toLowerCase (first_word cmd) = ''credential''"

definition isClientSideUiCommand :: "string \<Rightarrow> bool" where
  "isClientSideUiCommand cmd \<longleftrightarrow> toLowerCase (first_word cmd) \<in> {''theme'', ''config'', ''tour''}"

definition isClientSideSecretSetCommand :: "string \<Rightarrow> bool" where
  "isClientSideSecretSetCommand cmd =
     (let parts = ws_words (trim cmd) in toLowerCase (part_at parts 0) = ''secret'' \<and> toLowerCase (part_at parts 1) = ''set'')"

definition tab_close_re :: rx where
  "tab_close_re = rx_anchored (rx_alt [rx_lit_i ''exit'', rx_lit_i ''quit''])"

definition isTabCloseCommand :: "string \<Rightarrow> bool" where
  "isTabCloseCommand cmd = rx_test tab_close_re (trim cmd)"

definition isProjectWorkspaceCommand :: "string \<Rightarrow> bool" where
  "isProjectWorkspaceCommand cmd \<longleftrightarrow> toLowerCase (first_word cmd) = ''project''"

definition special_values :: "jsval \<Rightarrow> jsval list" where
  "special_values entry = (case entry of
       JStr s \<Rightarrow> [entry]
     | JArr xs \<Rightarrow> xs
     | JObj ob \<Rightarrow> filter truthy [obj_get ob ''command'', obj_get ob ''value'', obj_get ob ''insertValue'']
     | _ \<Rightarrow> [])"

definition known_specials :: "jsval \<Rightarrow> jsval list" where
  "known_specials rawKnown = (if is_arr rawKnown then arr_items rawKnown else concat (map (\<lambda>(k, v). special_values v) (obj_entries rawKnown)))"

definition fork_bomb_re :: rx where
  "fork_bomb_re = (let ws = rx_star rx_ws in rx_anchored (rx_seq
     [rx_lit '':()'', ws, rx_lit ''{'', ws, rx_lit '':'', ws, rx_lit ''|'', ws, rx_lit '':'', ws, rx_lit ''&'', ws, rx_lit ''}'', ws, rx_lit '';'', ws,
      rx_lit '':'']))"

definition squash_ws :: "string \<Rightarrow> string" where
  "squash_ws s = rx_replace_all (rx_plus rx_ws) (\<lambda>m. '' '') s"

definition isExactSpecialBuiltInCommand :: "jsval \<Rightarrow> string \<Rightarrow> bool" where
  "isExactSpecialBuiltInCommand specials cmd \<longleftrightarrow>
     JStr (squash_ws (toLowerCase (trim cmd))) \<in> set (known_specials specials) \<or> rx_test fork_bomb_re (trim cmd)"

definition shell_ops_re :: rx where
  "shell_ops_re = rx_alt [rx_lit ''&&'', RSeq (rx_lit ''|'') (rx_opt (rx_lit ''|'')), RSeq (rx_lit '';'') (rx_opt (rx_lit '';'')),
     rx_lit [BTICK], rx_lit ''$('', RSeq (rx_lit ''>'') (rx_opt (rx_lit ''>'')), rx_lit ''<'']"

definition fd_redirect_re :: rx where
  "fd_redirect_re = rx_seq [RAlt RBol rx_ws, rx_plus rx_digit, rx_lit ''>'', rx_opt (rx_lit ''>'')]"

text \<open>\<open>/(?<![\w:\/])\/data\b/\<close> and the same for \<open>/tmp\<close>, scanned from left to right with the character before.\<close>

fun names_dir :: "string \<Rightarrow> char option \<Rightarrow> string \<Rightarrow> bool" where
  "names_dir dir prev [] = False"
| "names_dir dir prev (c # s) =
     (startsWith (c # s) dir
        \<and> (case prev of None \<Rightarrow> True | Some p \<Rightarrow> \<not> (word_char p \<or> p = CHR '':'' \<or> p = CHR ''/''))
        \<and> (case drop (length dir) (c # s) of [] \<Rightarrow> True | d # _ \<Rightarrow> \<not> word_char d)
      \<or> names_dir dir (Some c) s)"

section \<open>The run path\<close>

datatype handler =
    HCredential | HSecret | HTerminal | HDelete | HMove | HCopy | HEditor | HDownload
  | HProbe | HWorkflow | HTheme | HConfig | HTour bool

datatype submit_action =
    CommandEcho string
  | OutputLine string string
  | PromptNewline
  | SetStatus string
  | SetLastExit nat
  | SettleWelcome
  | DropWelcome
  | NewTab
  | AnswerPrompt string
  | CloseTab
  | AddHistory string
  | RememberValues string
  | StartPty string
  | Browser handler string string
  | PostRun string

datatype submit_result = Accepted | Rejected | Settled

record page =
  settling :: bool
  pendingPrompt :: bool
  pendingSecret :: bool
  welcomeActive :: bool
  welcomeDone :: bool
  welcomeOwns :: bool
  tabRunning :: bool
  tabLimitReached :: bool
  acSpecialCommands :: jsval
  workspaceEnabled :: bool
  isInteractivePtyCommand :: "string \<Rightarrow> bool"
  mayRunCommands :: bool
  deniedMessage :: string

text \<open>A browser command: the base command the handler gets, without its filters, and what is recorded.\<close>

definition base_command :: "string \<Rightarrow> string" where
  "base_command cmd = (case parseSyntheticPostFilterCommand cmd of
       Parsed sp \<Rightarrow> if baseCommand sp \<noteq> [] then baseCommand sp else cmd
     | _ \<Rightarrow> cmd)"

definition browser :: "handler \<Rightarrow> string \<Rightarrow> submit_action" where
  "browser h cmd = Browser h (base_command cmd) (historySafeCommand cmd)"

definition denied :: "string \<Rightarrow> string \<Rightarrow> submit_action list" where
  "denied cmd msg = [CommandEcho cmd, OutputLine msg ''denied'', SetStatus ''fail'', SetLastExit 1]"

definition second_word :: "string \<Rightarrow> string" where
  "second_word cmd = toLowerCase (part_at (ws_words (trim cmd)) 1)"

text \<open>The commands the browser handles itself, in the order they are tried.\<close>

definition browser_route :: "page \<Rightarrow> string \<Rightarrow> submit_action option" where
  "browser_route pg cmd =
     (let en = workspaceEnabled pg; rt = toLowerCase (first_word cmd) in
      if isCredentialCommand cmd then Some (browser HCredential cmd)
      else if isClientSideSecretSetCommand cmd then Some (browser HSecret (historySafeCommand cmd))
      else if isWorkspaceTerminalCommand en cmd then Some (browser HTerminal cmd)
      else if isWorkspaceDeleteCommand en cmd then Some (browser HDelete cmd)
      else if isWorkspaceMoveCommand en cmd then Some (browser HMove cmd)
      else if isWorkspaceCopyCommand en cmd then Some (browser HCopy cmd)
      else if isWorkspaceEditorCommand en cmd then Some (browser HEditor cmd)
      else if isWorkspaceDownloadCommand en cmd then Some (browser HDownload cmd)
      else if rt = ''probe'' then Some (browser HProbe cmd)
      else if rt = ''workflow'' then Some (browser HWorkflow cmd)
      else if isClientSideUiCommand cmd then Some (
        if rt = ''theme'' then browser HTheme cmd
        else if rt = ''config'' then browser HConfig cmd
        else if second_word cmd = [] then Browser (HTour True) (historySafeCommand cmd) (historySafeCommand cmd)
        else browser (HTour False) cmd)
      else None)"

text \<open>A command for the server, if the member may run commands.\<close>

definition start_run :: "page \<Rightarrow> string \<Rightarrow> submit_action list" where
  "start_run pg cmd =
     (if \<not> mayRunCommands pg then [CommandEcho cmd, OutputLine (''[denied] '' @ deniedMessage pg) ''denied'', SetStatus ''fail'']
      else [CommandEcho cmd, SetStatus ''running'', PostRun cmd])"

text \<open>From the history on: every command that was not refused.\<close>

definition accepted_command :: "page \<Rightarrow> string \<Rightarrow> submit_action list" where
  "accepted_command pg cmd =
     [AddHistory (historySafeCommand cmd), RememberValues cmd] @
     (if isInteractivePtyCommand pg cmd then [StartPty cmd]
      else (case browser_route pg cmd of
          Some a \<Rightarrow> [a]
        | None \<Rightarrow> start_run pg cmd))"

definition checked_command :: "page \<Rightarrow> string \<Rightarrow> submit_action list \<times> submit_result" where
  "checked_command pg cmd =
     (if rx_test fd_redirect_re cmd then
        (denied cmd ''[denied] Only stdout redirection with >, >>, or final | tee is supported.'', Rejected)
      else if rx_test shell_ops_re cmd \<and> \<not> isSyntheticPostFilterCommand cmd \<and> \<not> isExactSpecialBuiltInCommand (acSpecialCommands pg) cmd then
        (denied cmd ''[denied] Shell operators (&&, |, ;, >, etc.) are not permitted.'', Rejected)
      else if names_dir ''/data'' None cmd \<or> names_dir ''/tmp'' None cmd then
        (denied cmd ''[denied] Access to /data and /tmp is not permitted.'', Rejected)
      else if isTabCloseCommand cmd then ([CloseTab], Accepted)
      else (accepted_command pg cmd, Accepted))"

definition answer_prompt :: "page \<Rightarrow> string \<Rightarrow> submit_action list" where
  "answer_prompt pg cmd = (if pendingSecret pg then [] else [CommandEcho cmd]) @ [AnswerPrompt cmd]"

definition submitCommand :: "page \<Rightarrow> string \<Rightarrow> submit_action list \<times> submit_result" where
  "submitCommand pg rawCmd =
     (let cmd = trim rawCmd in
      if settling pg then ([OutputLine ''[pending] The confirmed action is still starting.'' ''notice''], Accepted)
      else if cmd = [] then
        (if welcomeActive pg \<and> \<not> welcomeDone pg \<and> welcomeOwns pg then ([SettleWelcome], Settled)
         else if tabRunning pg then ([], Accepted)
         else ([PromptNewline, SetStatus ''idle''], Accepted))
      else if pendingPrompt pg then (answer_prompt pg cmd, Accepted)
      else
        let welcome = (if welcomeOwns pg then [DropWelcome] else []) in
        if tabRunning pg \<and> tabLimitReached pg then (welcome @ [NewTab], Rejected)
        else
          let tab = (if tabRunning pg then [NewTab] else []); (acts, res) = checked_command pg cmd in
          (welcome @ tab @ acts, res))"

section \<open>What reaches the server\<close>

lemma rlang_lit_opt: "w \<in> rlang (RSeq (rx_lit l) (rx_opt (rx_lit l))) \<longleftrightarrow> w = l \<or> w = l @ l"
  by auto

lemma shell_ops_anchor_free: "anchor_free shell_ops_re"
  by (simp add: shell_ops_re_def)

lemma rlang_shell_ops: "rlang shell_ops_re = {''&&'', ''|'', ''||'', '';'', '';;'', [BTICK], ''$('', ''>'', ''>>'', ''<''}"
  unfolding shell_ops_re_def set_eq_iff by (subst rlang_alt) (simp_all add: rlang_lit_opt del: rlang.simps(3) rx_lit.simps)

definition shell_operators :: "string set" where
  "shell_operators = {''&&'', ''|'', '';'', [BTICK], ''$('', ''>'', ''<''}"

lemma shell_ops_test: "rx_test shell_ops_re s \<longleftrightarrow> (\<exists>w \<in> shell_operators. str_includes s w)"
proof -
  have double: "sublist (a @ a) s \<Longrightarrow> sublist a s" for a
    unfolding sublist_def by (metis append.assoc)
  show ?thesis
    unfolding rx_test_lang [OF shell_ops_anchor_free] rlang_shell_ops str_includes_sublist shell_operators_def
    using double [of "''|''"] double [of "'';''"] double [of "''>''"] by auto
qed

text \<open>A protected folder is named when it stands alone: not inside a longer path, name or URL.\<close>

definition named_at :: "string \<Rightarrow> char option \<Rightarrow> string \<Rightarrow> string \<Rightarrow> bool" where
  "named_at dir prev u v \<longleftrightarrow>
     (case (if u = [] then prev else Some (last u)) of None \<Rightarrow> True | Some p \<Rightarrow> \<not> (word_char p \<or> p = CHR '':'' \<or> p = CHR ''/''))
     \<and> (v = [] \<or> \<not> word_char (hd v))"

lemma names_dir_iff:
  assumes "dir \<noteq> []"
  shows "names_dir dir prev s \<longleftrightarrow> (\<exists>u v. s = u @ dir @ v \<and> named_at dir prev u v)"
  using assms
proof (induction dir prev s rule: names_dir.induct)
  case (2 dir prev c s)
  have here: "startsWith (c # s) dir \<and> named_at dir prev [] (drop (length dir) (c # s)) \<longleftrightarrow> (\<exists>v. c # s = dir @ v \<and> named_at dir prev [] v)"
    by (metis startsWith_split startsWith_append append_eq_conv_conj)
  have later: "(\<exists>u v. s = u @ dir @ v \<and> named_at dir (Some c) u v) \<longleftrightarrow> (\<exists>u v. c # s = (c # u) @ dir @ v \<and> named_at dir prev (c # u) v)"
    by (simp add: named_at_def)
  have "(\<exists>u v. c # s = u @ dir @ v \<and> named_at dir prev u v) \<longleftrightarrow>
      (\<exists>v. c # s = dir @ v \<and> named_at dir prev [] v) \<or> (\<exists>u v. c # s = (c # u) @ dir @ v \<and> named_at dir prev (c # u) v)"
  proof
    assume "\<exists>u v. c # s = u @ dir @ v \<and> named_at dir prev u v"
    then obtain u v where "c # s = u @ dir @ v" "named_at dir prev u v" by blast
    then show "(\<exists>v. c # s = dir @ v \<and> named_at dir prev [] v) \<or> (\<exists>u v. c # s = (c # u) @ dir @ v \<and> named_at dir prev (c # u) v)"
      by (cases u) auto
  qed (metis append_Nil)
  moreover have "names_dir dir prev (c # s) \<longleftrightarrow>
      startsWith (c # s) dir \<and> named_at dir prev [] (drop (length dir) (c # s)) \<or> names_dir dir (Some c) s"
    by (auto simp: named_at_def split: list.split)
  ultimately show ?case using 2 here later by blast
qed simp

text \<open>
  \<^bold>\<open>C22.\<close> A run is requested from the server only for a line that has passed every check of the client:
  the request carries the submitted line without the surrounding spaces, no prompt is pending or being
  answered in the tab, the member may run commands, no browser command claims the line, it contains
  none of the operators \<open>&&\<close>, \<open>|\<close>, \<open>;\<close>, backtick, \<open>$(\<close>, \<open>>\<close>, \<open><\<close> unless it parses as a command with built-in filters
  or is one of the known special commands, it redirects no numbered descriptor, and it does not
  name \<open>/data\<close> or \<open>/tmp\<close> as a path of their own.
\<close>

theorem run_request_permitted:
  assumes "PostRun c \<in> set (fst (submitCommand pg raw))"
  shows "c = trim raw \<and> c \<noteq> [] \<and> \<not> settling pg \<and> \<not> pendingPrompt pg \<and> mayRunCommands pg \<and> browser_route pg c = None
    \<and> ((\<forall>w \<in> shell_operators. \<not> str_includes c w) \<or> isSyntheticPostFilterCommand c
        \<or> isExactSpecialBuiltInCommand (acSpecialCommands pg) c)
    \<and> \<not> rx_test fd_redirect_re c \<and> \<not> names_dir ''/data'' None c \<and> \<not> names_dir ''/tmp'' None c"
proof -
  have b: "browser_route pg cmd \<noteq> Some (PostRun c)" for cmd
    by (simp add: browser_route_def browser_def Let_def)
  show ?thesis
    using assms b unfolding shell_ops_test [symmetric, unfolded bex_simps]
    by (auto simp: submitCommand_def checked_command_def accepted_command_def start_run_def denied_def answer_prompt_def Let_def shell_ops_test
        split: if_splits option.splits prod.splits)
qed

section \<open>What is recorded of a secret\<close>

text \<open>The rest of a line after its first three words.\<close>

definition after_three :: "string \<Rightarrow> string" where
  "after_three s = (let skip = \<lambda>s. dropWhile (\<lambda>c. \<not> is_ws c) (dropWhile is_ws s) in skip (skip (skip s)))"

lemma skip_word:
  assumes "\<forall>c \<in> set g. is_ws c" "w \<noteq> []" "\<forall>c \<in> set w. \<not> is_ws c" "r = [] \<or> is_ws (hd r)"
  shows "dropWhile (\<lambda>c. \<not> is_ws c) (dropWhile is_ws (g @ w @ r)) = r"
proof -
  have "dropWhile is_ws (g @ w @ r) = w @ r"
    using assms(1-3) by (cases w) (simp_all add: dropWhile_append2)
  moreover have "dropWhile (\<lambda>c. \<not> is_ws c) (w @ r) = r"
    using assms(3,4) by (cases r) (simp_all add: dropWhile_append2)
  ultimately show ?thesis by simp
qed

lemma rlang_lit_i: "w \<in> rlang (rx_lit_i l) \<longleftrightarrow> toLowerCase w = toLowerCase l"
proof (induction l arbitrary: w)
  case Nil
  then show ?case by (simp add: toLowerCase_def)
next
  case (Cons c l)
  show ?case unfolding rx_lit_i.simps rlang_class_seq Cons.IH by (cases w) (auto simp: toLowerCase_def)
qed

lemma rlang_seq_ConsI: "u \<in> rlang r \<Longrightarrow> v \<in> rlang (rx_seq (q # rs)) \<Longrightarrow> u @ v \<in> rlang (rx_seq (r # q # rs))"
  unfolding rlang_seq_Cons by blast

lemma secret_prefix_lang:
  "w \<in> rlang secret_prefix_re \<longleftrightarrow> (\<exists>g1 w1 g2 w2 g3 w3. w = g1 @ w1 @ g2 @ w2 @ g3 @ w3
     \<and> (\<forall>c \<in> set g1. is_ws c) \<and> toLowerCase w1 = ''secret'' \<and> (g2 \<noteq> [] \<and> (\<forall>c \<in> set g2. is_ws c)) \<and> toLowerCase w2 = ''set''
     \<and> (g3 \<noteq> [] \<and> (\<forall>c \<in> set g3. is_ws c)) \<and> (w3 \<noteq> [] \<and> (\<forall>c \<in> set w3. \<not> is_ws c)))"
proof -
  have low: "toLowerCase ''secret'' = ''secret''" "toLowerCase ''set'' = ''set''" by code_simp+
  have one: "w \<in> rlang (rx_seq [rx_plus rx_nonws]) \<longleftrightarrow> w \<noteq> [] \<and> (\<forall>c \<in> set w. \<not> is_ws c)" for w
    by (simp add: rx_nonws_def rlang_plus_class)
  note lang = rlang_seq_Cons one rx_ws_def rlang_star_class rlang_plus_class rlang_lit_i low
  show ?thesis (is "_ \<longleftrightarrow> ?R w")
  proof
    assume "w \<in> rlang secret_prefix_re"
    then obtain g1 v1 w1 v2 g2 v3 w2 v4 g3 w3 where "w = g1 @ v1" "v1 = w1 @ v2" "v2 = g2 @ v3" "v3 = w2 @ v4" "v4 = g3 @ w3"
      and p: "\<forall>c \<in> set g1. is_ws c" "toLowerCase w1 = ''secret''" "g2 \<noteq> [] \<and> (\<forall>c \<in> set g2. is_ws c)" "toLowerCase w2 = ''set''"
        "g3 \<noteq> [] \<and> (\<forall>c \<in> set g3. is_ws c)" "w3 \<noteq> [] \<and> (\<forall>c \<in> set w3. \<not> is_ws c)"
      unfolding secret_prefix_re_def lang by blast
    then have "w = g1 @ w1 @ g2 @ w2 @ g3 @ w3" by simp
    with p show "?R w" by blast
  next
    assume "?R w"
    then obtain g1 w1 g2 w2 g3 w3 where w: "w = g1 @ w1 @ g2 @ w2 @ g3 @ w3"
      and p: "\<forall>c \<in> set g1. is_ws c" "toLowerCase w1 = ''secret''" "g2 \<noteq> [] \<and> (\<forall>c \<in> set g2. is_ws c)" "toLowerCase w2 = ''set''"
        "g3 \<noteq> [] \<and> (\<forall>c \<in> set g3. is_ws c)" "w3 \<noteq> [] \<and> (\<forall>c \<in> set w3. \<not> is_ws c)" by blast
    show "w \<in> rlang secret_prefix_re" unfolding secret_prefix_re_def w
      by (intro rlang_seq_ConsI; unfold lang) (rule p)+
  qed
qed

lemma lower_word: "toLowerCase w = l \<Longrightarrow> \<forall>c \<in> set l. \<not> is_ws c \<Longrightarrow> \<forall>c \<in> set w. \<not> is_ws c"
  by (auto simp: toLowerCase_def)

lemma nonws_literals: "\<forall>c \<in> set ''secret''. \<not> is_ws c" "\<forall>c \<in> set ''set''. \<not> is_ws c"
  by code_simp+

lemma secret_prefix_rest:
  assumes "w \<in> rlang secret_prefix_re" "r = [] \<or> is_ws (hd r)"
  shows "after_three (w @ r) = r"
proof -
  obtain g1 w1 g2 w2 g3 w3 where w: "w = g1 @ w1 @ g2 @ w2 @ g3 @ w3"
    and p: "\<forall>c \<in> set g1. is_ws c" "toLowerCase w1 = ''secret''" "g2 \<noteq> [] \<and> (\<forall>c \<in> set g2. is_ws c)" "toLowerCase w2 = ''set''"
      "g3 \<noteq> [] \<and> (\<forall>c \<in> set g3. is_ws c)" "w3 \<noteq> [] \<and> (\<forall>c \<in> set w3. \<not> is_ws c)"
    using assms(1) unfolding secret_prefix_lang by blast
  have ne: "w1 \<noteq> []" "w2 \<noteq> []" using p(2,4) by (auto simp: toLowerCase_def)
  have word: "\<forall>c \<in> set w1. \<not> is_ws c" "\<forall>c \<in> set w2. \<not> is_ws c"
    using lower_word [OF p(2) nonws_literals(1)] lower_word [OF p(4) nonws_literals(2)] by blast+
  have hd: "is_ws (hd (g2 @ x))" "is_ws (hd (g3 @ x))" for x using p(3,5) by (simp_all add: hd_append)
  have "after_three (w @ r) = dropWhile (\<lambda>c. \<not> is_ws c) (dropWhile is_ws (dropWhile (\<lambda>c. \<not> is_ws c) (dropWhile is_ws (g2 @ w2 @ (g3 @ w3 @ r)))))"
    using skip_word [OF p(1) ne(1) word(1), of "g2 @ w2 @ g3 @ w3 @ r"] hd by (simp add: after_three_def w)
  also have "\<dots> = dropWhile (\<lambda>c. \<not> is_ws c) (dropWhile is_ws (g3 @ w3 @ r))"
    using skip_word [of g2 w2 "g3 @ w3 @ r"] p(3) ne(2) word(2) hd by simp
  also have "\<dots> = r" using skip_word [of g3 w3 r] p(5,6) assms(2) by simp
  finally show ?thesis .
qed

lemma rx_replace_anchored: "rx_replace (rx_anchored r) f s = (case rx_exec (rx_anchored r) s of None \<Rightarrow> s | Some m \<Rightarrow> f m)"
proof (cases "rx_exec (rx_anchored r) s")
  case None
  then show ?thesis by (auto simp: rx_exec_def rx_replace_def split: option.splits prod.splits)
next
  case (Some m)
  obtain b' s' cs where at: "rx_search (rx_anchored r) [] s = Some ([], s, (b', s', cs))" "m = (take (length s - length s') s, cs)"
    using Some by (auto simp: rx_exec_def rx_anchored_def rx_search_Bol_start split: option.splits prod.splits)
  have "(b', s', cs) \<in> set (rxm (RSeq r REol) ([], s, []))"
    using at(1) by (intro rx_at_mem) (auto simp: rx_anchored_def rx_search_Bol_start)
  then have "s' = []" by (auto split: if_splits)
  then show ?thesis using at Some by (simp add: rx_replace_def)
qed

lemma secret_pieces:
  "anchor_free secret_prefix_re" "no_cap secret_prefix_re" "anchor_free (rx_plus rx_ws)" "no_cap (rx_plus rx_ws)"
  "anchor_free (rx_plus rx_any)" "no_cap (rx_plus rx_any)"
  by (simp_all add: secret_prefix_re_def rx_any_def)

lemma secret_match:
  "(b, [], cs) \<in> set (rxm (RSeq (RCap 1 secret_prefix_re) (RSeq (rx_plus rx_ws) (rx_plus rx_any))) ([], s, [])) \<longleftrightarrow>
     (\<exists>w g v. s = w @ g @ v \<and> w \<in> rlang secret_prefix_re \<and> g \<in> rlang (rx_plus rx_ws) \<and> v \<in> rlang (rx_plus rx_any) \<and> cs = [(1, w)] \<and> b = rev s)"
  (is "?L \<longleftrightarrow> ?R")
proof
  assume ?L
  then obtain w g v where "w \<in> rlang secret_prefix_re" "g \<in> rlang (rx_plus rx_ws)" "v \<in> rlang (rx_plus rx_any)" "s = w @ g @ v"
      "b = rev v @ rev g @ rev w @ []" "cs = [(1, w)]"
    unfolding rxm_seq_cap [OF secret_pieces(1,2)] rxm_seq_piece [OF secret_pieces(3,4)] rxm_piece [OF secret_pieces(5,6)] by auto
  then show ?R by (intro exI [of _ w] exI [of _ g] exI [of _ v]) simp
next
  assume ?R
  then obtain w g v where w: "s = w @ g @ v" "w \<in> rlang secret_prefix_re" "g \<in> rlang (rx_plus rx_ws)" "v \<in> rlang (rx_plus rx_any)"
      "cs = [(1, w)]" "b = rev s" by blast
  then have "(b, [], cs) \<in> set (rxm (rx_plus rx_any) (rev g @ rev w, v, [(1, w)]))"
    unfolding rxm_piece [OF secret_pieces(5,6)] by auto
  then have "(b, [], cs) \<in> set (rxm (RSeq (rx_plus rx_ws) (rx_plus rx_any)) (rev w, g @ v, [(1, w)]))"
    unfolding rxm_seq_piece [OF secret_pieces(3,4)] using w(3) by blast
  then show ?L unfolding rxm_seq_cap [OF secret_pieces(1,2)] append_Nil2 w(1) using w(2) by blast
qed

lemma ws_plus: "g \<in> rlang (rx_plus rx_ws) \<longleftrightarrow> g \<noteq> [] \<and> (\<forall>c \<in> set g. is_ws c)"
  by (simp add: rx_ws_def rlang_plus_class)

lemma secret_replace:
  assumes "w \<in> rlang secret_prefix_re"
  shows "rx_replace secret_set_re (\<lambda>m. rx_group_str m 1) w = w"
    and "g \<noteq> [] \<Longrightarrow> \<forall>c \<in> set g. is_ws c \<Longrightarrow> v \<noteq> [] \<Longrightarrow> NL \<notin> set v \<Longrightarrow> CHR 0x0D \<notin> set v \<Longrightarrow>
      rx_replace secret_set_re (\<lambda>m. rx_group_str m 1) (w @ g @ v) = w"
proof -
  have unique: "w' = w \<and> g' @ v' = r" if "w @ r = w' @ g' @ v'" "w' \<in> rlang secret_prefix_re" "g' \<in> rlang (rx_plus rx_ws)" "r = [] \<or> is_ws (hd r)"
    for w' g' v' r
  proof -
    have "is_ws (hd (g' @ v'))" using that(3) by (simp add: ws_plus hd_append)
    then have "g' @ v' = r" using secret_prefix_rest [OF that(2)] secret_prefix_rest [OF assms that(4)] that(1) by metis
    then show ?thesis using that(1) by simp
  qed
  have "rx_exec secret_set_re w = None"
    unfolding secret_set_re_def rx_exec_anchored_None secret_match
  proof (intro allI notI)
    fix b cs
    assume "\<exists>w' g v. w = w' @ g @ v \<and> w' \<in> rlang secret_prefix_re \<and> g \<in> rlang (rx_plus rx_ws) \<and> v \<in> rlang (rx_plus rx_any) \<and> cs = [(1, w')] \<and> b = rev w"
    then obtain w' g' v' where m: "w = w' @ g' @ v'" "w' \<in> rlang secret_prefix_re" "g' \<in> rlang (rx_plus rx_ws)" by blast
    then have "g' @ v' = []" using unique [of "[]" w' g' v'] by simp
    with m(3) show False by (simp add: ws_plus)
  qed
  then show "rx_replace secret_set_re (\<lambda>m. rx_group_str m 1) w = w"
    unfolding secret_set_re_def rx_replace_anchored by simp
  assume g: "g \<noteq> []" "\<forall>c \<in> set g. is_ws c" and v: "v \<noteq> []" "NL \<notin> set v" "CHR 0x0D \<notin> set v"
  have vl: "v \<in> rlang (rx_plus rx_any)" using v by (auto simp: rx_any_def rlang_plus_class)
  have "rx_exec secret_set_re (w @ g @ v) \<noteq> None"
    unfolding secret_set_re_def rx_exec_anchored_None secret_match using assms g vl by (auto simp: ws_plus)
  then obtain m where m: "rx_exec secret_set_re (w @ g @ v) = Some m" by blast
  then obtain w' g' v' where "w @ g @ v = w' @ g' @ v'" "w' \<in> rlang secret_prefix_re" "g' \<in> rlang (rx_plus rx_ws)" "snd m = [(1, w')]"
    using rx_exec_anchored(2) [OF m [unfolded secret_set_re_def]] unfolding secret_match by blast
  then have "snd m = [(1, w)]" using unique [of "g @ v" w' g' v'] g by (simp add: hd_append)
  then have "rx_group_str m 1 = w" by (simp add: rx_group_str_def rx_group_def)
  then show "rx_replace secret_set_re (\<lambda>m. rx_group_str m 1) (w @ g @ v) = w"
    using m unfolding secret_set_re_def rx_replace_anchored by simp
qed

lemma credential_no_match:
  assumes "toLowerCase (takeWhile (\<lambda>c. \<not> is_ws c) s) = ''secret''"
  shows "rx_exec credential_command_re s = None"
proof (rule ccontr)
  let ?r = "RSeq (rx_lit_i ''credential'') (rx_opt (RSeq (rx_plus rx_ws) (RCap 1 (rx_plus (RChr (\<lambda>c. \<not> is_ws c \<and> c \<noteq> CHR ''|''))))))"
  assume "rx_exec credential_command_re s \<noteq> None"
  then obtain st where "rx_at ?r [] s = Some st"
    unfolding rx_exec_def credential_command_re_def rx_search_Bol_start by (auto split: option.splits)
  then have "st \<in> set (rxm ?r ([], s, []))" by (rule rx_at_mem)
  moreover have "anchor_free (rx_lit_i ''credential'')" by simp
  ultimately obtain w t where w: "toLowerCase w = toLowerCase ''credential''" "s = w @ t"
    unfolding rxm_seq_piece [OF \<open>anchor_free (rx_lit_i ''credential'')\<close> no_cap_derived(2)] rlang_lit_i by blast
  moreover have "toLowerCase ''credential'' = ''credential''" by code_simp
  ultimately have "w \<noteq> []" "lower_char (hd w) = CHR ''c''" by (cases w; simp add: toLowerCase_def)+
  moreover have "s \<noteq> []" "lower_char (hd s) = CHR ''s''" using assms by (cases s; auto simp: toLowerCase_def split: if_splits)+
  ultimately show False using w(2) by (cases w) auto
qed

text \<open>The line a secret is set with: three words, and the value.\<close>

definition secret_line :: "string \<Rightarrow> string \<Rightarrow> string \<Rightarrow> bool" where
  "secret_line line masked v \<longleftrightarrow> masked \<in> rlang secret_prefix_re \<and> trimmed masked \<and> v \<noteq> [] \<and> NL \<notin> set v \<and> CHR 0x0D \<notin> set v
     \<and> (\<exists>g. g \<noteq> [] \<and> (\<forall>c \<in> set g. is_ws c) \<and> trim line = masked @ g @ v)"

lemma words_by_step:
  assumes "\<forall>c \<in> set g. \<not> p c" "w \<noteq> []" "\<forall>c \<in> set w. p c" "r = [] \<or> \<not> p (hd r)"
  shows "words_by p (g @ w @ r) = w # words_by p r"
proof -
  obtain c w' where w: "w = c # w'" using assms(2) by (cases w) auto
  have "dropWhile (\<lambda>c. \<not> p c) (g @ w @ r) = c # w' @ r" using assms(1,3) w by (simp add: dropWhile_append2)
  moreover have "takeWhile p (c # w' @ r) = w" "dropWhile p (c # w' @ r) = r"
    using assms(3,4) w by (cases r; simp add: takeWhile_append2 dropWhile_append2)+
  ultimately show ?thesis by (subst words_by.simps) simp
qed

lemma secret_words:
  assumes "w \<in> rlang secret_prefix_re" "trimmed w" "r = [] \<or> is_ws (hd r)"
  shows "toLowerCase (takeWhile (\<lambda>c. \<not> is_ws c) (w @ r)) = ''secret''"
    and "toLowerCase (part_at (ws_words (w @ r)) 0) = ''secret'' \<and> toLowerCase (part_at (ws_words (w @ r)) 1) = ''set''"
proof -
  obtain g1 w1 g2 w2 g3 w3 where w: "w = g1 @ w1 @ g2 @ w2 @ g3 @ w3"
    and p: "\<forall>c \<in> set g1. is_ws c" "toLowerCase w1 = ''secret''" "g2 \<noteq> [] \<and> (\<forall>c \<in> set g2. is_ws c)" "toLowerCase w2 = ''set''"
      "g3 \<noteq> [] \<and> (\<forall>c \<in> set g3. is_ws c)" "w3 \<noteq> [] \<and> (\<forall>c \<in> set w3. \<not> is_ws c)"
    using assms(1) unfolding secret_prefix_lang by blast
  have ne: "w1 \<noteq> []" "w2 \<noteq> []" using p(2,4) by (auto simp: toLowerCase_def)
  have word: "\<forall>c \<in> set w1. \<not> is_ws c" "\<forall>c \<in> set w2. \<not> is_ws c"
    using lower_word [OF p(2) nonws_literals(1)] lower_word [OF p(4) nonws_literals(2)] by blast+
  have g1: "g1 = []" using assms(2) p(1) unfolding w by (cases g1) (auto simp: trimmed_def)
  have hd: "is_ws (hd (g2 @ x))" "is_ws (hd (g3 @ x))" for x using p(3,5) by (simp_all add: hd_append)
  obtain d g2' where g2: "g2 = d # g2'" "is_ws d" using p(3) by (cases g2) auto
  have "takeWhile (\<lambda>c. \<not> is_ws c) (w @ r) = w1" using word(1) g2 by (simp add: w g1 takeWhile_append2)
  then show "toLowerCase (takeWhile (\<lambda>c. \<not> is_ws c) (w @ r)) = ''secret''" using p(2) by simp
  have "ws_words (w @ r) = w1 # words_by (\<lambda>c. \<not> is_ws c) (g2 @ w2 @ (g3 @ w3 @ r))"
    using words_by_step [of "[]" "\<lambda>c. \<not> is_ws c" w1 "g2 @ w2 @ g3 @ w3 @ r"] ne(1) word(1) hd by (simp add: ws_words_def w g1)
  also have "words_by (\<lambda>c. \<not> is_ws c) (g2 @ w2 @ (g3 @ w3 @ r)) = w2 # words_by (\<lambda>c. \<not> is_ws c) (g3 @ w3 @ r)"
    using words_by_step [of g2 "\<lambda>c. \<not> is_ws c" w2 "g3 @ w3 @ r"] p(3) ne(2) word(2) hd by simp
  finally show "toLowerCase (part_at (ws_words (w @ r)) 0) = ''secret'' \<and> toLowerCase (part_at (ws_words (w @ r)) 1) = ''set''"
    using p(2,4) by (simp add: part_at_def)
qed

lemma history_masks_secret:
  assumes "secret_line line masked v"
  shows "historySafeCommand line = masked" "historySafeCommand masked = masked"
proof -
  obtain g where g: "g \<noteq> []" "\<forall>c \<in> set g. is_ws c" "trim line = masked @ g @ v"
    and m: "masked \<in> rlang secret_prefix_re" "trimmed masked" and v: "v \<noteq> []" "NL \<notin> set v" "CHR 0x0D \<notin> set v"
    using assms unfolding secret_line_def by blast
  have cred: "rx_exec credential_command_re (masked @ r) = None" if "r = [] \<or> is_ws (hd r)" for r
    by (rule credential_no_match [OF secret_words(1) [OF m that]])
  have ne: "masked \<noteq> []" using secret_words(1) [OF m, of "[]"] by (auto simp: toLowerCase_def)
  show "historySafeCommand masked = masked"
    using cred [of "[]"] ne secret_replace(1) [OF m(1)] trim_id [OF m(2)] by (simp add: historySafeCommand_def Let_def)
  show "historySafeCommand line = masked"
    using cred [of "g @ v"] g ne secret_replace(2) [OF m(1) g(1,2) v] by (simp add: historySafeCommand_def Let_def hd_append)
qed

text \<open>The texts an action leaves behind: in the history, or as the saved command of a browser command.\<close>

fun recorded :: "submit_action \<Rightarrow> string option" where
  "recorded (AddHistory h) = Some h"
| "recorded (Browser h base safe) = Some safe"
| "recorded a = None"

lemma accepted_secret:
  assumes "secret_line line masked v" "\<not> isInteractivePtyCommand pg (trim line)"
  shows "accepted_command pg (trim line) = [AddHistory masked, RememberValues (trim line), Browser HSecret (base_command masked) masked]"
proof -
  obtain g where g: "g \<noteq> []" "\<forall>c \<in> set g. is_ws c" "trim line = masked @ g @ v" and m: "masked \<in> rlang secret_prefix_re" "trimmed masked"
    using assms(1) unfolding secret_line_def by blast
  have r: "g @ v = [] \<or> is_ws (hd (g @ v))" using g by (simp add: hd_append)
  have "\<not> isCredentialCommand (trim line)"
    using secret_words(1) [OF m r] by (simp add: isCredentialCommand_def first_word_def g(3) [symmetric])
  moreover have "isClientSideSecretSetCommand (trim line)"
    using secret_words(2) [OF m r] by (simp add: isClientSideSecretSetCommand_def Let_def g(3) [symmetric])
  moreover have "historySafeCommand (trim line) = masked"
    using history_masks_secret(1) [OF assms(1)] by (simp add: historySafeCommand_def)
  ultimately show ?thesis
    using assms(2) history_masks_secret(2) [OF assms(1)] by (simp add: accepted_command_def browser_route_def browser_def Let_def)
qed


definition sample_page :: page where
  "sample_page = \<lparr>settling = False, pendingPrompt = False, pendingSecret = False, welcomeActive = False, welcomeDone = True, welcomeOwns = False,
     tabRunning = False, tabLimitReached = False, acSpecialCommands = JObj [], workspaceEnabled = True,
     isInteractivePtyCommand = (\<lambda>c. c = ''top''), mayRunCommands = True, deniedMessage = []\<rparr>"

theorem run_request_permitted_witness:
  "fst (submitCommand sample_page '' nmap -sV host '') = [AddHistory ''nmap -sV host'', RememberValues ''nmap -sV host'', CommandEcho ''nmap -sV host'',
     SetStatus ''running'', PostRun ''nmap -sV host''] \<and> \<not> str_includes ''nmap -sV host'' ''&&''"
proof
  show e: "fst (submitCommand sample_page '' nmap -sV host '') = [AddHistory ''nmap -sV host'', RememberValues ''nmap -sV host'',
     CommandEcho ''nmap -sV host'', SetStatus ''running'', PostRun ''nmap -sV host'']" by code_simp
  have "PostRun ''nmap -sV host'' \<in> set (fst (submitCommand sample_page '' nmap -sV host ''))" unfolding e by simp
  note permitted = run_request_permitted [OF this]
  have "\<not> isSyntheticPostFilterCommand ''nmap -sV host''" "\<not> isExactSpecialBuiltInCommand (acSpecialCommands sample_page) ''nmap -sV host''"
    by code_simp+
  with permitted show "\<not> str_includes ''nmap -sV host'' ''&&''" unfolding shell_operators_def by blast
qed


section \<open>Where the masking stops\<close>

text \<open>
  A refused line is echoed as it was typed: a secret whose value contains an operator is shown in the
  output of the tab.
\<close>

lemma refused_secret_is_echoed:
  "CommandEcho ''secret set TOKEN a;b'' \<in> set (fst (submitCommand sample_page ''secret set TOKEN a;b''))"
proof -
  have "fst (submitCommand sample_page ''secret set TOKEN a;b'')
    = denied ''secret set TOKEN a;b'' ''[denied] Shell operators (&&, |, ;, >, etc.) are not permitted.''" by code_simp
  then show ?thesis by (simp add: denied_def)
qed

text \<open>
  A filter takes the quotes off the words of the base command and joins them with spaces, so an operand
  with a space falls apart when its handler splits the base command again.
\<close>

lemma quoted_operand_lost:
  "workspaceCommandTokens (''cat '' @ [DQ] @ ''my notes'' @ [DQ]) = [''cat'', ''my notes'']"
  "workspaceCommandTokens (base_command (''cat '' @ [DQ] @ ''my notes'' @ [DQ] @ '' | wc -l'')) = [''cat'', ''my'', ''notes'']"
  by code_simp+

text \<open>A lone ampersand is no token of the filter parser: it is dropped, not refused.\<close>

lemma lone_ampersand_dropped:
  "isSyntheticPostFilterCommand ''ping host & | wc -l''" "base_command ''ping host & | wc -l'' = ''ping host''"
  by code_simp+

end
