(* ===== verification/Composer.thy ===== *)
theory Composer
  imports Autocomplete_Core History_Core
begin

text \<open>
  The command line of the terminal on the desktop: the composer state (\<open>core/state.js\<close>), its
  writers and the input handler (\<open>ui/ui_helpers.js\<close>), editing
  (\<open>features/terminal/composer_editing.js\<close>), recall of commands and reverse search
  (\<open>features/history/history_recall.js\<close>, \<open>history_search.js\<close>), the suggestion list
  (\<open>autocomplete.js\<close>) and the key handler that composes them
  (\<open>features/terminal/composer_controller.js\<close>).

  The text field of the browser (\<open>dom...\<close>) is kept apart from the composer state, since the
  browser edits it on its own and the handlers bring the two together. An event dispatched on the
  field runs its listener at once. What is drawn, the focus and the second field of the mobile layout
  are left out, as is the state the server is asked for.
\<close>

section \<open>State\<close>

text \<open>What a tab keeps for the prompt.\<close>

record nav_tab =
  commandHistory :: "string list"
  historyNavIndex :: int
  historyNavDraft :: string
  draftInput :: string
  st_running :: bool

text \<open>The parts of \<open>APP_STATE\<close> (with the active tab), the text field, and the variables of
  \<open>history_search.js\<close>. Submitted lines are collected in their order.\<close>

record composer =
  composerValue :: string
  selectionStart :: nat
  selectionEnd :: nat
  domValue :: string
  domStart :: nat
  domEnd :: nat
  activeTab :: "nav_tab option"
  cmdHistory :: "string list"
  recentPreviewHistory :: "string list"
  cmdHistoryNavIndex :: int
  cmdHistoryNavDraft :: string
  suspendReset :: bool
  acFiltered :: "jsval list"
  acIndex :: int
  acSuppressInputOnce :: bool
  acDropdownOpen :: bool
  histSearchMode :: bool
  histSearchQuery :: string
  histSearchIndex :: int
  histSearchPreDraft :: string
  histSearchRuns :: "string list option"
  submitted :: "string list"

text \<open>What the handlers ask of the rest of the page at the time of an event: an open overlay, a
  pending confirmation, a welcome animation that owns the prompt, the suggestions for a text and a
  caret (twelve at most), and whether a submitted line is accepted.\<close>

record page_env =
  overlayOpen :: bool
  terminalConfirm :: bool
  welcomeOwnsPrompt :: bool
  getMatches :: "string \<Rightarrow> nat \<Rightarrow> jsval list"
  acceptsLine :: "string \<Rightarrow> bool"

definition isActiveTabRunning :: "composer \<Rightarrow> bool" where
  "isActiveTabRunning s = (case activeTab s of None \<Rightarrow> False | Some t \<Rightarrow> st_running t)"

definition upd_tab :: "(nav_tab \<Rightarrow> nav_tab) \<Rightarrow> composer \<Rightarrow> composer" where
  "upd_tab f s = s\<lparr>activeTab := map_option f (activeTab s)\<rparr>"

definition write_state :: "string \<Rightarrow> nat \<Rightarrow> nat \<Rightarrow> composer \<Rightarrow> composer" where
  "write_state v a b s = s\<lparr>composerValue := v, selectionStart := a, selectionEnd := b\<rparr>"

text \<open>Assigning \<open>input.value\<close> and calling \<open>setSelectionRange\<close>, which clamps its arguments.\<close>

definition write_dom :: "string \<Rightarrow> nat \<Rightarrow> nat \<Rightarrow> composer \<Rightarrow> composer" where
  "write_dom v a b s =
     (let e = min b (length v) in s\<lparr>domValue := v, domStart := min a e, domEnd := e\<rparr>)"

section \<open>Editing\<close>

definition getCmdSelection :: "composer \<Rightarrow> nat \<times> nat" where
  "getCmdSelection s =
     (if selectionStart s > selectionEnd s then (selectionEnd s, selectionStart s) else (selectionStart s, selectionEnd s))"

definition isTerminalWordChar :: "char option \<Rightarrow> bool" where
  "isTerminalWordChar c = (case c of None \<Rightarrow> False | Some x \<Rightarrow> is_alnum x)"

definition char_at :: "string \<Rightarrow> nat \<Rightarrow> char option" where
  "char_at v i = (if i < length v then Some (v ! i) else None)"

text \<open>\<open>while (next > 0 && p(value[next - 1])) next--\<close> and \<open>while (next < value.length && p(value[next])) next++\<close>.\<close>

fun back_while :: "(char option \<Rightarrow> bool) \<Rightarrow> string \<Rightarrow> nat \<Rightarrow> nat" where
  "back_while p v 0 = 0"
| "back_while p v (Suc n) = (if p (char_at v n) then back_while p v n else Suc n)"

function forward_while :: "(char option \<Rightarrow> bool) \<Rightarrow> string \<Rightarrow> nat \<Rightarrow> nat" where
  "forward_while p v i = (if i < length v \<and> p (char_at v i) then forward_while p v (Suc i) else i)"
  by pat_completeness auto
termination by (relation "measure (\<lambda>(p, v, i). length v - i)") auto

declare forward_while.simps [simp del]

definition findWordBoundaryLeft :: "string \<Rightarrow> nat \<Rightarrow> nat" where
  "findWordBoundaryLeft v i = back_while isTerminalWordChar v (back_while (\<lambda>c. \<not> isTerminalWordChar c) v i)"

definition findWordBoundaryRight :: "string \<Rightarrow> nat \<Rightarrow> nat" where
  "findWordBoundaryRight v i =
     forward_while isTerminalWordChar v (forward_while (\<lambda>c. \<not> isTerminalWordChar c) v (min (length v) i))"

text \<open>\<open>syncComposerSelection(start, end)\<close>.\<close>

definition syncComposerSelection :: "nat \<Rightarrow> nat \<Rightarrow> composer \<Rightarrow> composer" where
  "syncComposerSelection a b s =
     (let len = length (composerValue s); na = min a len; nb = min b len; lo = min na nb; hi = max na nb in
      write_dom (domValue s) lo hi (s\<lparr>selectionStart := lo, selectionEnd := hi\<rparr>))"

text \<open>\<open>syncFocusedComposerState(cmdInput)\<close>, also what the listeners of focus and selectionchange do.\<close>

definition syncFocusedComposerState :: "composer \<Rightarrow> composer" where
  "syncFocusedComposerState s = write_state (domValue s) (domStart s) (domEnd s) s"

text \<open>The caret buttons of the mobile keyboard bar, and the word shortcut outside the field.\<close>

definition moveCmdCaret :: "int \<Rightarrow> composer \<Rightarrow> composer" where
  "moveCmdCaret delta s =
     (let (start, stop) = getCmdSelection s;
          p = nat (max 0 (min (int (length (composerValue s))) (int (if delta < 0 then start else stop) + delta)))
      in syncComposerSelection p p s)"

definition moveCmdCaretByWord :: "int \<Rightarrow> composer \<Rightarrow> composer" where
  "moveCmdCaretByWord direction s =
     (let s = syncFocusedComposerState s; (start, stop) = getCmdSelection s;
          p = (if direction < 0 then findWordBoundaryLeft (composerValue s) start else findWordBoundaryRight (composerValue s) stop)
      in syncComposerSelection p p s)"

text \<open>A phone writes a full stop for two blanks; the field gets the two blanks back.\<close>

definition normalizeComposerSmartPeriod :: "composer \<Rightarrow> composer" where
  "normalizeComposerSmartPeriod s =
     (let prev = composerValue s; p = selectionStart s in
      if p \<noteq> selectionEnd s \<or> p < 1 \<or> char_at prev (p - 1) \<noteq> Some CHR '' '' then s
      else if domValue s \<noteq> take (p - 1) prev @ ''. '' @ drop p prev then s
      else write_dom (take p prev @ '' '' @ drop p prev) (p + 1) (p + 1) s)"

section \<open>Suggestions\<close>

definition acSelectableIndexes :: "jsval list \<Rightarrow> int list" where
  "acSelectableIndexes items = map int (filter (\<lambda>i. \<not> item_hint (items ! i)) [0..<length items])"

definition acSelectableItems :: "jsval list \<Rightarrow> jsval list" where
  "acSelectableItems items = filter (\<lambda>i. \<not> item_hint i) items"

definition acFirstSelectableIndex :: "jsval list \<Rightarrow> int" where
  "acFirstSelectableIndex items = (let ix = acSelectableIndexes items in if ix = [] then - 1 else hd ix)"

definition acLastSelectableIndex :: "jsval list \<Rightarrow> int" where
  "acLastSelectableIndex items = (let ix = acSelectableIndexes items in if ix = [] then - 1 else last ix)"

fun index_of :: "'a \<Rightarrow> 'a list \<Rightarrow> nat option" where
  "index_of x [] = None"
| "index_of x (y # ys) = (if x = y then Some 0 else map_option Suc (index_of x ys))"

definition acNextSelectableIndex :: "jsval list \<Rightarrow> int \<Rightarrow> int \<Rightarrow> int" where
  "acNextSelectableIndex items currentIndex direction =
     (let ix = acSelectableIndexes items in
      if ix = [] then - 1
      else (case index_of currentIndex ix of
          None \<Rightarrow> if direction < 0 then last ix else hd ix
        | Some p \<Rightarrow>
            if direction < 0 then ix ! (if p = 0 then length ix - 1 else p - 1)
            else ix ! (Suc p mod length ix)))"

definition acHide :: "composer \<Rightarrow> composer" where
  "acHide s = s\<lparr>acDropdownOpen := False, acIndex := - 1, acFiltered := []\<rparr>"

definition acShow :: "page_env \<Rightarrow> jsval list \<Rightarrow> composer \<Rightarrow> composer" where
  "acShow env items s =
     (if terminalConfirm env \<or> isActiveTabRunning s then acHide s
      else if items = [] then s\<lparr>acDropdownOpen := False\<rparr>
      else let i = (if acIndex s \<ge> int (length items) then acLastSelectableIndex items else acIndex s);
               i = (if i \<ge> 0 \<and> item_hint (items ! nat i) then acFirstSelectableIndex items else i)
           in s\<lparr>acIndex := i, acDropdownOpen := True\<rparr>)"

section \<open>The input handler\<close>

text \<open>The first part of \<open>resetCmdHistoryNav\<close>.\<close>

definition reset_nav :: "composer \<Rightarrow> composer" where
  "reset_nav s = (case activeTab s of
       Some t \<Rightarrow> upd_tab (\<lambda>t. t\<lparr>historyNavIndex := - 1, historyNavDraft := []\<rparr>) s
     | None \<Rightarrow> s\<lparr>cmdHistoryNavIndex := - 1, cmdHistoryNavDraft := []\<rparr>)"

text \<open>The suggestions after an input, the second half of \<open>handleComposerInputChange\<close>.\<close>

definition suggest :: "page_env \<Rightarrow> composer \<Rightarrow> composer" where
  "suggest env s =
     (if acSuppressInputOnce s then acHide (s\<lparr>acSuppressInputOnce := False\<rparr>)
      else if terminalConfirm env then acHide (s\<lparr>acIndex := - 1, acFiltered := []\<rparr>)
      else let s = s\<lparr>acIndex := - 1\<rparr> in
        if trim (domValue s) = [] then acHide s
        else let filtered = getMatches env (domValue s) (domStart s); s = s\<lparr>acFiltered := filtered\<rparr> in
          if filtered = [] then acHide s else acShow env filtered s)"

text \<open>\<open>handleComposerInputChange(cmdInput)\<close>. The listener calls it outside the reverse search only,
  where \<open>resetCmdHistoryNav\<close> is its first part.\<close>

definition handleComposerInputChange :: "page_env \<Rightarrow> composer \<Rightarrow> composer" where
  "handleComposerInputChange env s =
     (if isActiveTabRunning s then acHide (write_state [] 0 0 (write_dom [] 0 0 s))
      else let s = normalizeComposerSmartPeriod s;
               s = write_state (domValue s) (domStart s) (domEnd s) s;
               s = (if suspendReset s then s\<lparr>suspendReset := False\<rparr> else reset_nav s)
           in suggest env s)"

section \<open>Reverse search: matches and input\<close>

definition query_matches :: "string \<Rightarrow> string \<Rightarrow> bool" where
  "query_matches q c = str_includes (toLowerCase c) (toLowerCase q)"

definition histSearchMatches :: "composer \<Rightarrow> string list" where
  "histSearchMatches s =
     (if histSearchQuery s = [] then []
      else let q = histSearchQuery s;
               fromClient = filter (query_matches q) (cmdHistory s);
               fromServer = (case histSearchRuns s of None \<Rightarrow> [] | Some runs \<Rightarrow> filter (query_matches q) runs)
           in take 10 (dedup (fromClient @ fromServer)))"

definition handleHistSearchInput :: "string \<Rightarrow> composer \<Rightarrow> composer" where
  "handleHistSearchInput value s =
     (let s = s\<lparr>histSearchQuery := value, histSearchIndex := - 1\<rparr> in
      if value = [] then s\<lparr>histSearchRuns := None\<rparr>
      else if histSearchMatches s \<noteq> [] then s\<lparr>histSearchIndex := 0\<rparr> else s)"

section \<open>Listener and writer\<close>

text \<open>The listener of the input event of the field.\<close>

definition input_listener :: "page_env \<Rightarrow> composer \<Rightarrow> composer" where
  "input_listener env s =
     (let s = normalizeComposerSmartPeriod s in
      if histSearchMode s then handleHistSearchInput (domValue s) s
      else let s = handleComposerInputChange env s in
        if isActiveTabRunning s then s else upd_tab (\<lambda>t. t\<lparr>draftInput := composerValue s\<rparr>) s)"

text \<open>\<open>setComposerValue(value, start, end, { dispatch, allowDuringRun })\<close>; \<^const>\<open>None\<close> is a missing
  position.\<close>

definition setComposerValue ::
  "page_env \<Rightarrow> bool \<Rightarrow> bool \<Rightarrow> string \<Rightarrow> nat option \<Rightarrow> nat option \<Rightarrow> composer \<Rightarrow> composer" where
  "setComposerValue env dispatch allowDuringRun v a b s =
     (if \<not> allowDuringRun \<and> trim v \<noteq> [] \<and> isActiveTabRunning s then acHide s
      else let na = (case a of None \<Rightarrow> length v | Some n \<Rightarrow> n);
               nb = (case b of None \<Rightarrow> na | Some n \<Rightarrow> n);
               s = write_dom v na nb (write_state v na nb s)
           in if dispatch then input_listener env s else s)"

definition replaceCmdRange :: "page_env \<Rightarrow> string \<Rightarrow> nat \<Rightarrow> nat \<Rightarrow> string \<Rightarrow> composer \<Rightarrow> composer" where
  "replaceCmdRange env v a b replacement s =
     (let p = a + length replacement in
      setComposerValue env True False (take a v @ replacement @ drop b v) (Some p) (Some p) s)"

text \<open>\<open>_clearComposerInputs\<close> of \<open>runner.js\<close>.\<close>

definition clearComposerInputs :: "page_env \<Rightarrow> composer \<Rightarrow> composer" where
  "clearComposerInputs env s =
     setComposerValue env True True [] (Some 0) (Some 0) (input_listener env (write_dom [] 0 0 s))"

section \<open>Accepting a suggestion\<close>

text \<open>\<open>Number(item.replaceStart)\<close> when it is finite; the positions of a suggestion are not negative.\<close>

definition item_pos :: "jsval \<Rightarrow> string \<Rightarrow> nat option" where
  "item_pos item k = (case to_num (jprop item k) of Fin r \<Rightarrow> Some (nat \<lfloor>r\<rfloor>) | _ \<Rightarrow> None)"

definition acAccept :: "page_env \<Rightarrow> jsval \<Rightarrow> composer \<Rightarrow> composer" where
  "acAccept env item s =
     (if terminalConfirm env then acHide s
      else if is_object item then
        (if truthy (jprop item ''hintOnly'') then s
         else let v = composerValue s; ins = itemInsertText item;
                  s = acHide (s\<lparr>acSuppressInputOnce := True\<rparr>) in
           (case (item_pos item ''replaceStart'', item_pos item ''replaceEnd'') of
              (Some a, Some b) \<Rightarrow>
                let caret = a + length ins in
                setComposerValue env True False (take a v @ ins @ drop b v) (Some caret) (Some caret) s
            | _ \<Rightarrow> setComposerValue env True False ins (Some (length ins)) (Some (length ins)) s))
      else let text = to_str item; s = acHide (s\<lparr>acSuppressInputOnce := True\<rparr>) in
        setComposerValue env True False text (Some (length text)) (Some (length text)) s)"

definition acExpandSharedPrefix :: "page_env \<Rightarrow> jsval list \<Rightarrow> composer \<Rightarrow> composer option" where
  "acExpandSharedPrefix env items s =
     (if length items < 2 then None
      else let v = composerValue s; pre = sharedPrefix (JArr items) in
        if pre = [] then None
        else if is_object (hd items) then
          (case (item_pos (hd items) ''replaceStart'', item_pos (hd items) ''replaceEnd'') of
             (Some a, Some b) \<Rightarrow>
               let token = JS_Prelude.slice a b v; caret = a + length pre in
               if length pre \<le> length token \<or> \<not> startsWith (toLowerCase pre) (toLowerCase token) then None
               else Some (setComposerValue env True False (take a v @ pre @ drop b v) (Some caret) (Some caret) s)
           | _ \<Rightarrow> None)
        else if length pre \<le> length v \<or> \<not> startsWith (toLowerCase pre) (toLowerCase v) then None
        else Some (setComposerValue env True False pre (Some (length pre)) (Some (length pre)) s))"

section \<open>Reverse search: keys\<close>

definition enterHistSearch :: "page_env \<Rightarrow> composer \<Rightarrow> composer" where
  "enterHistSearch env s =
     acHide (setComposerValue env False False [] (Some 0) (Some 0)
       (s\<lparr>histSearchMode := True, histSearchQuery := [], histSearchIndex := - 1, histSearchPreDraft := composerValue s\<rparr>))
       \<lparr>histSearchRuns := None\<rparr>"

text \<open>An index past the matches makes \<open>chosen.length\<close> throw after the mode is left; the rest is then
  not run.\<close>

definition exitHistSearch :: "page_env \<Rightarrow> bool \<Rightarrow> bool \<Rightarrow> composer \<Rightarrow> composer" where
  "exitHistSearch env accept keepCurrent s =
     (let cleanup = (\<lambda>s. acHide (s\<lparr>histSearchQuery := [], histSearchIndex := - 1, histSearchPreDraft := [], histSearchRuns := None\<rparr>));
          s0 = s\<lparr>histSearchMode := False\<rparr>;
          put = (\<lambda>v. setComposerValue env True False v (Some (length v)) (Some (length v)) s0);
          ms = histSearchMatches s
      in if \<not> histSearchMode s then s
         else if accept then
           (if histSearchIndex s \<ge> int (length ms) then s0
            else cleanup (put (if histSearchIndex s \<ge> 0 then ms ! nat (histSearchIndex s)
              else if ms \<noteq> [] \<and> hd ms \<noteq> [] then hd ms else histSearchPreDraft s)))
         else if \<not> keepCurrent then cleanup (put (histSearchPreDraft s))
         else cleanup s0)"

definition moveHistSearchSelection :: "int \<Rightarrow> composer \<Rightarrow> composer" where
  "moveHistSearchSelection delta s =
     (let n = int (length (histSearchMatches s)) in
      if n = 0 then s
      else if histSearchIndex s < 0 then s\<lparr>histSearchIndex := (if delta < 0 then n - 1 else 0)\<rparr>
      else s\<lparr>histSearchIndex := (histSearchIndex s + delta + n) mod n\<rparr>)"

text \<open>The answer of the server to the search for \<open>query\<close>.\<close>

definition histSearchResponse :: "string \<Rightarrow> string list \<Rightarrow> composer \<Rightarrow> composer" where
  "histSearchResponse query runs s =
     (if \<not> histSearchMode s \<or> query \<noteq> histSearchQuery s then s
      else let ms = histSearchMatches s;
               chosen = (if histSearchIndex s \<ge> 0 \<and> histSearchIndex s < int (length ms) then ms ! nat (histSearchIndex s) else []);
               s = s\<lparr>histSearchRuns := Some (dedup runs)\<rparr>;
               next = histSearchMatches s;
               kept = (if chosen \<noteq> [] then index_of chosen next else None)
           in s\<lparr>histSearchIndex := (case kept of Some i \<Rightarrow> int i | None \<Rightarrow> if next \<noteq> [] then 0 else - 1)\<rparr>)"

section \<open>Recall\<close>

definition resetCmdHistoryNav :: "page_env \<Rightarrow> composer \<Rightarrow> composer" where
  "resetCmdHistoryNav env s =
     (let s = reset_nav s in if histSearchMode s then exitHistSearch env False False s else s)"

text \<open>The configured limit is a whole number; \<open>historyLimit\<close> reads 0 as 50.\<close>

definition limit_config :: "nat \<Rightarrow> jsval" where
  "limit_config cap = JObj [(''recent_commands_limit'', JInt (int cap))]"

definition recall_list :: "nat \<Rightarrow> composer \<Rightarrow> string list" where
  "recall_list cap s = (case activeTab s of
       Some t \<Rightarrow> commandRecallHistory (JObj [(''commandHistory'', JArr (map JStr (commandHistory t)))])
         (JArr (map JStr (cmdHistory s))) (JInt (int (historyLimit (limit_config cap) 0)))
     | None \<Rightarrow> cmdHistory s)"

definition nav_index :: "composer \<Rightarrow> int" where
  "nav_index s = (case activeTab s of Some t \<Rightarrow> historyNavIndex t | None \<Rightarrow> cmdHistoryNavIndex s)"

definition nav_draft :: "composer \<Rightarrow> string" where
  "nav_draft s = (case activeTab s of Some t \<Rightarrow> historyNavDraft t | None \<Rightarrow> cmdHistoryNavDraft s)"

definition set_nav_index :: "int \<Rightarrow> composer \<Rightarrow> composer" where
  "set_nav_index i s = (case activeTab s of
       Some t \<Rightarrow> upd_tab (\<lambda>t. t\<lparr>historyNavIndex := i\<rparr>) s
     | None \<Rightarrow> s\<lparr>cmdHistoryNavIndex := i\<rparr>)"

definition set_nav_draft :: "string \<Rightarrow> composer \<Rightarrow> composer" where
  "set_nav_draft d s = (case activeTab s of
       Some t \<Rightarrow> upd_tab (\<lambda>t. t\<lparr>historyNavDraft := d\<rparr>) s
     | None \<Rightarrow> s\<lparr>cmdHistoryNavDraft := d\<rparr>)"

definition recall_value :: "composer \<Rightarrow> string" where
  "recall_value s = (if domValue s \<noteq> [] then domValue s else composerValue s)"

definition show_recalled :: "page_env \<Rightarrow> string \<Rightarrow> composer \<Rightarrow> composer" where
  "show_recalled env v s = setComposerValue env True False v None None (s\<lparr>suspendReset := True\<rparr>)"

definition entry :: "string list \<Rightarrow> int \<Rightarrow> string" where
  "entry h i = (if 0 \<le> i \<and> nat i < length h then h ! nat i else [])"

definition navigateCmdHistory :: "page_env \<Rightarrow> nat \<Rightarrow> int \<Rightarrow> composer \<Rightarrow> composer \<times> bool" where
  "navigateCmdHistory env cap delta s =
     (let h = recall_list cap s; cur = nav_index s in
      if h = [] then (s, False)
      else if delta > 0 then
        (if cur = - 1 then (show_recalled env (entry h 0) (set_nav_index 0 (set_nav_draft (recall_value s) s)), True)
         else if cur < int (length h) - 1 then (show_recalled env (entry h (cur + 1)) (set_nav_index (cur + 1) s), True)
         else (s, True))
      else if delta < 0 then
        (if cur = - 1 then (s, False)
         else if cur > 0 then (show_recalled env (entry h (cur - 1)) (set_nav_index (cur - 1) s), True)
         else (resetCmdHistoryNav env (show_recalled env (nav_draft s) s), True))
      else (s, False))"

definition remember :: "nat \<Rightarrow> string \<Rightarrow> string list \<Rightarrow> string list" where
  "remember n cmd h = take n (cmd # filter (\<lambda>c. c \<noteq> cmd) h)"

definition addToHistory :: "page_env \<Rightarrow> nat \<Rightarrow> string \<Rightarrow> composer \<Rightarrow> composer" where
  "addToHistory env cap cmd s =
     (let n = historyLimit (limit_config cap) 0; s = s\<lparr>cmdHistory := remember n cmd (cmdHistory s)\<rparr>;
          s = upd_tab (\<lambda>t. t\<lparr>commandHistory := remember n cmd (commandHistory t)\<rparr>) s
      in resetCmdHistoryNav env s)"

definition addToRecentPreview :: "nat \<Rightarrow> string \<Rightarrow> composer \<Rightarrow> composer" where
  "addToRecentPreview cap cmd s = s\<lparr>recentPreviewHistory := remember cap cmd (recentPreviewHistory s)\<rparr>"

definition run_commands :: "jsval \<Rightarrow> string list" where
  "run_commands runs =
     filter nonempty (map (\<lambda>run. case jprop run ''command'' of JStr c \<Rightarrow> c | _ \<Rightarrow> []) (arr_items runs))"

definition hydrateCmdHistory :: "page_env \<Rightarrow> nat \<Rightarrow> jsval \<Rightarrow> bool \<Rightarrow> composer \<Rightarrow> composer" where
  "hydrateCmdHistory env cap runs mergeExisting s =
     (let commands = run_commands runs;
          s = s\<lparr>cmdHistory := take cap (dedup ((if mergeExisting then cmdHistory s else []) @ commands)),
                recentPreviewHistory := take cap (dedup ((if mergeExisting then recentPreviewHistory s else []) @ commands))\<rparr>
      in if mergeExisting then s else resetCmdHistoryNav env s)"

section \<open>Keys\<close>

record key_event =
  ev_key :: string
  ev_code :: string
  ctrlKey :: bool
  altKey :: bool
  metaKey :: bool
  shiftKey :: bool
  isComposing :: bool

definition ctrl_only :: "key_event \<Rightarrow> bool" where
  "ctrl_only e \<longleftrightarrow> ctrlKey e \<and> \<not> metaKey e \<and> \<not> altKey e"

definition alt_only :: "key_event \<Rightarrow> bool" where
  "alt_only e \<longleftrightarrow> altKey e \<and> \<not> ctrlKey e \<and> \<not> metaKey e \<and> \<not> shiftKey e"

definition upper_letter :: "char \<Rightarrow> char" where
  "upper_letter c = (if is_lower c then char_of (of_char c - 32 :: nat) else c)"

definition key_letter :: "key_event \<Rightarrow> char \<Rightarrow> bool" where
  "key_letter e c \<longleftrightarrow> ev_key e = [c] \<or> ev_key e = [upper_letter c]"

text \<open>\<open>eventMatchesLetter\<close> of \<open>global_shortcuts.js\<close>; its aliases of the Option key are outside the
  character range of the model.\<close>

definition eventMatchesLetter :: "key_event \<Rightarrow> char \<Rightarrow> bool" where
  "eventMatchesLetter e c \<longleftrightarrow> ev_code e = ''Key'' @ [upper_letter c] \<or> toLowerCase (ev_key e) = [c]"

definition handleHistSearchKey :: "page_env \<Rightarrow> key_event \<Rightarrow> composer \<Rightarrow> composer \<times> bool" where
  "handleHistSearchKey env e s =
     (if \<not> histSearchMode s then (s, False)
      else if ev_key e = ''Escape'' then (exitHistSearch env False False s, True)
      else if ev_key e = ''Enter'' then
        (if histSearchIndex s \<ge> 0 then exitHistSearch env True False s else exitHistSearch env False True s, True)
      else if ev_key e = ''Tab'' \<and> \<not> altKey e \<and> \<not> ctrlKey e \<and> \<not> metaKey e then
        (moveHistSearchSelection (if shiftKey e then - 1 else 1) s, True)
      else if ev_key e = ''ArrowDown'' then (moveHistSearchSelection 1 s, True)
      else if ev_key e = ''ArrowUp'' then (moveHistSearchSelection (- 1) s, True)
      else if ctrl_only e \<and> key_letter e CHR ''r'' then (moveHistSearchSelection 1 s, True)
      else if ctrl_only e \<and> key_letter e CHR ''g'' then (exitHistSearch env False False s, True)
      else if ctrl_only e \<and> key_letter e CHR ''c'' then (exitHistSearch env False True s, True)
      else (s, False))"

text \<open>The three deletions: the selection if there is one, else from \<open>a\<close> to \<open>b\<close>.\<close>

definition delete_keys :: "page_env \<Rightarrow> nat \<Rightarrow> nat \<Rightarrow> bool \<Rightarrow> composer \<Rightarrow> composer" where
  "delete_keys env a b nothing s =
     (let (start, stop) = getCmdSelection s in
      if start \<noteq> stop then replaceCmdRange env (composerValue s) start stop [] s
      else if nothing then s
      else replaceCmdRange env (composerValue s) a b [] s)"

definition tab_key :: "page_env \<Rightarrow> key_event \<Rightarrow> composer \<Rightarrow> composer" where
  "tab_key env e s =
     (if terminalConfirm env then acHide s
      else let items = acSelectableItems (acFiltered s) in
        if length items = 1 then acAccept env (hd items) s
        else if items = [] then s
        else (case acExpandSharedPrefix env items s of
            Some s' \<Rightarrow> s'
          | None \<Rightarrow>
              let i = (if acIndex s < 0 \<or> \<not> acDropdownOpen s then acNextSelectableIndex (acFiltered s) (- 1) 1
                       else acNextSelectableIndex (acFiltered s) (acIndex s) (if shiftKey e then - 1 else 1))
              in acShow env (acFiltered s) (s\<lparr>acIndex := i\<rparr>)))"

definition arrow_key :: "page_env \<Rightarrow> nat \<Rightarrow> int \<Rightarrow> composer \<Rightarrow> composer" where
  "arrow_key env cap delta s =
     (if terminalConfirm env then acHide s
      else if acDropdownOpen s \<and> acSelectableItems (acFiltered s) \<noteq> [] then
        acShow env (acFiltered s) (s\<lparr>acIndex := acNextSelectableIndex (acFiltered s) (acIndex s) (- delta)\<rparr>)
      else (case navigateCmdHistory env cap delta s of (s', moved) \<Rightarrow> if moved then acHide s' else s'))"

definition enter_key :: "page_env \<Rightarrow> composer \<Rightarrow> composer" where
  "enter_key env s =
     (if welcomeOwnsPrompt env \<and> trim (composerValue s) = [] then s
      else if \<not> terminalConfirm env \<and> acIndex s \<ge> 0 \<and> nat (acIndex s) < length (acFiltered s)
           \<and> truthy (acFiltered s ! nat (acIndex s)) \<and> \<not> item_hint (acFiltered s ! nat (acIndex s))
      then acAccept env (acFiltered s ! nat (acIndex s)) s
      else let v = composerValue s; s = acHide s; s = s\<lparr>submitted := submitted s @ [v]\<rparr> in
        if acceptsLine env v then clearComposerInputs env s else s)"

text \<open>The listener of keydown on the field. While a run is active the field takes no keys (the
  shortcuts of the page do not write to the composer). Ctrl-C clears the line (\<open>interruptPromptLine\<close>)
  unless the welcome animation or a confirmation takes it.\<close>

definition keydown :: "page_env \<Rightarrow> nat \<Rightarrow> key_event \<Rightarrow> composer \<Rightarrow> composer" where
  "keydown env cap e s =
     (if overlayOpen env then s
      else case handleHistSearchKey env e s of (s, True) \<Rightarrow> s | (s, False) \<Rightarrow>
      if isActiveTabRunning s then acHide s
      else if alt_only e \<and> (ev_key e = ''ArrowLeft'' \<or> ev_key e = ''ArrowRight'' \<or> ev_code e = ''ArrowLeft'' \<or> ev_code e = ''ArrowRight'') then
        (let s = syncFocusedComposerState s; (start, stop) = getCmdSelection s;
             p = (if ev_key e = ''ArrowLeft'' \<or> ev_code e = ''ArrowLeft''
                  then findWordBoundaryLeft (composerValue s) start else findWordBoundaryRight (composerValue s) stop)
         in syncComposerSelection p p s)
      else if ctrl_only e \<and> key_letter e CHR ''r'' then enterHistSearch env s
      else if ctrl_only e \<and> key_letter e CHR ''c'' then
        (if welcomeOwnsPrompt env \<or> terminalConfirm env then s else clearComposerInputs env s)
      else if ctrl_only e \<and> key_letter e CHR ''w'' then
        (let start = fst (getCmdSelection s) in
         delete_keys env (findWordBoundaryLeft (composerValue s) start) start (start = 0) s)
      else if ctrl_only e \<and> key_letter e CHR ''u'' then
        (let start = fst (getCmdSelection s) in delete_keys env 0 start (start = 0) s)
      else if ctrl_only e \<and> key_letter e CHR ''a'' then syncComposerSelection 0 0 s
      else if ctrl_only e \<and> key_letter e CHR ''k'' then
        (let start = fst (getCmdSelection s); n = length (composerValue s) in
         delete_keys env start n (start \<ge> n) s)
      else if ctrl_only e \<and> key_letter e CHR ''e'' then
        (let n = length (composerValue s) in syncComposerSelection n n s)
      else if alt_only e \<and> eventMatchesLetter e CHR ''b'' then
        (let s = syncFocusedComposerState s; p = findWordBoundaryLeft (composerValue s) (fst (getCmdSelection s)) in
         syncComposerSelection p p s)
      else if alt_only e \<and> eventMatchesLetter e CHR ''f'' then
        (let s = syncFocusedComposerState s; p = findWordBoundaryRight (composerValue s) (snd (getCmdSelection s)) in
         syncComposerSelection p p s)
      else if ev_key e = ''Enter'' then enter_key env s
      else if ev_key e = ''Tab'' \<and> \<not> altKey e \<and> \<not> ctrlKey e \<and> \<not> metaKey e then tab_key env e s
      else if ev_key e = ''ArrowDown'' then arrow_key env cap (- 1) s
      else if ev_key e = ''ArrowUp'' then arrow_key env cap 1 s
      else if ev_key e = ''Escape'' then acHide s
      else if length (ev_key e) = 1 \<and> \<not> ctrlKey e \<and> \<not> metaKey e \<and> \<not> altKey e \<and> \<not> isComposing e \<and> \<not> welcomeOwnsPrompt env then
        (let (start, stop) = getCmdSelection s in replaceCmdRange env (composerValue s) start stop (ev_key e) s)
      else s)"

text \<open>The listener of paste on the page, outside the other fields.\<close>

definition paste :: "page_env \<Rightarrow> string \<Rightarrow> composer \<Rightarrow> composer" where
  "paste env text s =
     (if overlayOpen env \<or> text = [] then s
      else let (start, stop) = getCmdSelection s in replaceCmdRange env (composerValue s) start stop text s)"

section \<open>Events\<close>

text \<open>What can happen to the composer, in any order: keys and pasted text, edits and selections the
  browser makes in the field, clicks on a suggestion or a match, answers of the search, the end
  and the start of a run, and the recall lists.\<close>

datatype composer_event =
    KeyDown key_event
  | Paste string
  | NativeEdit string nat nat
  | NativeSelect nat nat
  | SelectionChange
  | MoveCaret int
  | MoveCaretWord int
  | ClickSuggestion nat
  | ClickMatch nat
  | SearchAnswer string "string list"
  | SetRunning bool
  | AddHistory string
  | Hydrate jsval bool

fun composer_enabled :: "page_env \<times> composer_event \<Rightarrow> composer \<Rightarrow> bool" where
  "composer_enabled (env, NativeEdit v a b) s \<longleftrightarrow> a \<le> b \<and> b \<le> length v"
| "composer_enabled (env, NativeSelect a b) s \<longleftrightarrow> a \<le> b \<and> b \<le> length (domValue s)"
| "composer_enabled (env, ClickSuggestion i) s \<longleftrightarrow> acDropdownOpen s \<and> i < length (acFiltered s)"
| "composer_enabled (env, ClickMatch i) s \<longleftrightarrow> histSearchMode s \<and> i < length (histSearchMatches s)"
| "composer_enabled (env, ev) s \<longleftrightarrow> True"

fun composer_step :: "nat \<Rightarrow> page_env \<times> composer_event \<Rightarrow> composer \<Rightarrow> composer" where
  "composer_step cap (env, KeyDown e) s = keydown env cap e s"
| "composer_step cap (env, Paste text) s = paste env text s"
| "composer_step cap (env, NativeEdit v a b) s = input_listener env (s\<lparr>domValue := v, domStart := a, domEnd := b\<rparr>)"
| "composer_step cap (env, NativeSelect a b) s = s\<lparr>domStart := a, domEnd := b\<rparr>"
| "composer_step cap (env, MoveCaret d) s = moveCmdCaret d s"
| "composer_step cap (env, MoveCaretWord d) s = moveCmdCaretByWord d s"
| "composer_step cap (env, SelectionChange) s = syncFocusedComposerState s"
| "composer_step cap (env, ClickSuggestion i) s =
     (if item_hint (acFiltered s ! i) then s else acAccept env (acFiltered s ! i) s)"
| "composer_step cap (env, ClickMatch i) s = exitHistSearch env True False (s\<lparr>histSearchIndex := int i\<rparr>)"
| "composer_step cap (env, SearchAnswer q runs) s = histSearchResponse q runs s"
| "composer_step cap (env, SetRunning r) s = upd_tab (\<lambda>t. t\<lparr>st_running := r\<rparr>) s"
| "composer_step cap (env, AddHistory cmd) s = addToHistory env cap cmd s"
| "composer_step cap (env, Hydrate runs m) s = hydrateCmdHistory env cap runs m s"

text \<open>The prompt of a fresh page (the defaults of \<open>core/state.js\<close>) with one tab or none.\<close>

definition fresh_tab :: nav_tab where
  "fresh_tab = \<lparr>commandHistory = [], historyNavIndex = - 1, historyNavDraft = [], draftInput = [], st_running = False\<rparr>"

definition fresh_composer :: "bool \<Rightarrow> composer" where
  "fresh_composer tab =
     \<lparr>composerValue = [], selectionStart = 0, selectionEnd = 0, domValue = [], domStart = 0, domEnd = 0,
      activeTab = (if tab then Some fresh_tab else None), cmdHistory = [], recentPreviewHistory = [],
      cmdHistoryNavIndex = - 1, cmdHistoryNavDraft = [], suspendReset = False,
      acFiltered = [], acIndex = - 1, acSuppressInputOnce = False, acDropdownOpen = False,
      histSearchMode = False, histSearchQuery = [], histSearchIndex = - 1, histSearchPreDraft = [],
      histSearchRuns = None, submitted = []\<rparr>"

end
