(* ===== verification/Composer_Props.thy ===== *)
theory Composer_Props
  imports Composer
begin

text \<open>
  What the command line of \<open>Composer\<close> guarantees: its editing keys implement a line of text with a
  cursor, recalling commands and coming back loses nothing, and in every order of events the
  selection lies in the text and the selected match exists.
\<close>

named_theorems composer_frame \<open>fields that an operation of the composer leaves alone\<close>

section \<open>Frames\<close>

lemma acHide_frame [composer_frame]:
  "composerValue (acHide s) = composerValue s" "selectionStart (acHide s) = selectionStart s"
  "selectionEnd (acHide s) = selectionEnd s" "domValue (acHide s) = domValue s"
  "domStart (acHide s) = domStart s" "domEnd (acHide s) = domEnd s" "activeTab (acHide s) = activeTab s"
  "cmdHistory (acHide s) = cmdHistory s" "cmdHistoryNavIndex (acHide s) = cmdHistoryNavIndex s"
  "cmdHistoryNavDraft (acHide s) = cmdHistoryNavDraft s" "suspendReset (acHide s) = suspendReset s"
  "histSearchMode (acHide s) = histSearchMode s" "histSearchQuery (acHide s) = histSearchQuery s"
  "histSearchIndex (acHide s) = histSearchIndex s" "histSearchRuns (acHide s) = histSearchRuns s"
  "histSearchPreDraft (acHide s) = histSearchPreDraft s" "submitted (acHide s) = submitted s"
  "acDropdownOpen (acHide s) = False"
  by (simp_all add: acHide_def)

lemma acShow_frame [composer_frame]:
  "composerValue (acShow env xs s) = composerValue s" "selectionStart (acShow env xs s) = selectionStart s"
  "selectionEnd (acShow env xs s) = selectionEnd s" "domValue (acShow env xs s) = domValue s"
  "domStart (acShow env xs s) = domStart s" "domEnd (acShow env xs s) = domEnd s" "activeTab (acShow env xs s) = activeTab s"
  "cmdHistory (acShow env xs s) = cmdHistory s" "cmdHistoryNavIndex (acShow env xs s) = cmdHistoryNavIndex s"
  "cmdHistoryNavDraft (acShow env xs s) = cmdHistoryNavDraft s" "suspendReset (acShow env xs s) = suspendReset s"
  "histSearchMode (acShow env xs s) = histSearchMode s" "histSearchQuery (acShow env xs s) = histSearchQuery s"
  "histSearchIndex (acShow env xs s) = histSearchIndex s" "histSearchRuns (acShow env xs s) = histSearchRuns s"
  "histSearchPreDraft (acShow env xs s) = histSearchPreDraft s" "submitted (acShow env xs s) = submitted s"
  by (simp_all add: acShow_def composer_frame Let_def)

lemma suggest_frame [composer_frame]:
  "composerValue (suggest env s) = composerValue s" "selectionStart (suggest env s) = selectionStart s"
  "selectionEnd (suggest env s) = selectionEnd s" "domValue (suggest env s) = domValue s"
  "domStart (suggest env s) = domStart s" "domEnd (suggest env s) = domEnd s" "activeTab (suggest env s) = activeTab s"
  "cmdHistory (suggest env s) = cmdHistory s" "cmdHistoryNavIndex (suggest env s) = cmdHistoryNavIndex s"
  "cmdHistoryNavDraft (suggest env s) = cmdHistoryNavDraft s" "suspendReset (suggest env s) = suspendReset s"
  "histSearchMode (suggest env s) = histSearchMode s" "histSearchQuery (suggest env s) = histSearchQuery s"
  "histSearchIndex (suggest env s) = histSearchIndex s" "histSearchRuns (suggest env s) = histSearchRuns s"
  "histSearchPreDraft (suggest env s) = histSearchPreDraft s" "submitted (suggest env s) = submitted s"
  by (simp_all add: suggest_def composer_frame Let_def)

lemma reset_nav_frame [composer_frame]:
  "composerValue (reset_nav s) = composerValue s" "selectionStart (reset_nav s) = selectionStart s"
  "selectionEnd (reset_nav s) = selectionEnd s" "domValue (reset_nav s) = domValue s"
  "domStart (reset_nav s) = domStart s" "domEnd (reset_nav s) = domEnd s"
  "isActiveTabRunning (reset_nav s) = isActiveTabRunning s"
  "cmdHistory (reset_nav s) = cmdHistory s" "suspendReset (reset_nav s) = suspendReset s"
  "histSearchMode (reset_nav s) = histSearchMode s" "histSearchQuery (reset_nav s) = histSearchQuery s"
  "histSearchIndex (reset_nav s) = histSearchIndex s" "histSearchRuns (reset_nav s) = histSearchRuns s"
  "histSearchPreDraft (reset_nav s) = histSearchPreDraft s" "submitted (reset_nav s) = submitted s"
  "nav_index (reset_nav s) = - 1" "recall_list cap (reset_nav s) = recall_list cap s"
  "acDropdownOpen (reset_nav s) = acDropdownOpen s"
  by (simp_all add: reset_nav_def upd_tab_def isActiveTabRunning_def nav_index_def recall_list_def split: option.splits)

section \<open>Writing the value\<close>

text \<open>What the smart-period check looks for is longer than the value the composer has.\<close>

lemma smart_period_longer:
  assumes "1 \<le> p" "char_at v (p - 1) = Some c"
  shows "v \<noteq> take (p - 1) v @ ''. '' @ drop p v"
proof
  assume "v = take (p - 1) v @ ''. '' @ drop p v"
  then have "length v = length (take (p - 1) v @ ''. '' @ drop p v)" by (rule arg_cong)
  moreover have "p - 1 < length v" using assms(2) by (simp add: char_at_def split: if_splits)
  ultimately show False using assms(1) by simp
qed

lemma smart_period_idle: "domValue s = composerValue s \<Longrightarrow> normalizeComposerSmartPeriod s = s"
proof (cases "1 \<le> selectionStart s \<and> char_at (composerValue s) (selectionStart s - 1) = Some CHR '' ''")
  case True
  assume "domValue s = composerValue s"
  then have "domValue s \<noteq> take (selectionStart s - 1) (composerValue s) @ ''. '' @ drop (selectionStart s) (composerValue s)"
    using True smart_period_longer by metis
  then show ?thesis unfolding normalizeComposerSmartPeriod_def Let_def by presburger
next
  case False
  then have "selectionStart s < 1 \<or> char_at (composerValue s) (selectionStart s - 1) \<noteq> Some CHR '' ''"
    using not_le by blast
  then show ?thesis unfolding normalizeComposerSmartPeriod_def Let_def by (rule if_P [OF disjI2])
qed

text \<open>Outside the search and a run, writing a value and dispatching the event is this.\<close>

definition after_input :: "page_env \<Rightarrow> composer \<Rightarrow> composer" where
  "after_input env s =
     (let s = suggest env (if suspendReset s then s\<lparr>suspendReset := False\<rparr> else reset_nav s)
      in upd_tab (\<lambda>t. t\<lparr>draftInput := composerValue s\<rparr>) s)"

definition idle :: "composer \<Rightarrow> bool" where
  "idle s \<longleftrightarrow> \<not> histSearchMode s \<and> \<not> isActiveTabRunning s"

lemma upd_tab_frame [composer_frame]:
  "composerValue (upd_tab f s) = composerValue s" "selectionStart (upd_tab f s) = selectionStart s"
  "selectionEnd (upd_tab f s) = selectionEnd s" "domValue (upd_tab f s) = domValue s"
  "domStart (upd_tab f s) = domStart s" "domEnd (upd_tab f s) = domEnd s"
  "cmdHistory (upd_tab f s) = cmdHistory s" "suspendReset (upd_tab f s) = suspendReset s"
  "histSearchMode (upd_tab f s) = histSearchMode s" "histSearchQuery (upd_tab f s) = histSearchQuery s"
  "histSearchIndex (upd_tab f s) = histSearchIndex s" "histSearchRuns (upd_tab f s) = histSearchRuns s"
  "histSearchPreDraft (upd_tab f s) = histSearchPreDraft s" "submitted (upd_tab f s) = submitted s"
  "acDropdownOpen (upd_tab f s) = acDropdownOpen s"
  by (simp_all add: upd_tab_def)

lemma running_acts [composer_frame]:
  "isActiveTabRunning (acHide s) = isActiveTabRunning s"
  "isActiveTabRunning (suggest env s) = isActiveTabRunning s"
  "isActiveTabRunning (acShow env xs s) = isActiveTabRunning s"
  by (simp_all add: isActiveTabRunning_def composer_frame)

lemma running_upd [composer_frame]: "isActiveTabRunning (s\<lparr>suspendReset := x\<rparr>) = isActiveTabRunning s"
  by (simp add: isActiveTabRunning_def)

lemma input_listener_synced:
  assumes "idle s" "domValue s = composerValue s" "domStart s = selectionStart s" "domEnd s = selectionEnd s"
  shows "input_listener env s = after_input env s"
proof -
  have "write_state (domValue s) (domStart s) (domEnd s) s = s"
    using assms by (simp add: write_state_def)
  then show ?thesis
    using assms by (simp add: input_listener_def handleComposerInputChange_def smart_period_idle after_input_def
        idle_def Let_def composer_frame)
qed

lemma setComposerValue_idle:
  assumes "idle s" "a \<le> b" "b \<le> length v"
  shows "setComposerValue env True allow v (Some a) (Some b) s
    = after_input env (s\<lparr>composerValue := v, selectionStart := a, selectionEnd := b, domValue := v, domStart := a, domEnd := b\<rparr>)"
    (is "_ = after_input env ?t")
proof -
  have w: "write_dom v a b (write_state v a b s) = ?t"
    using assms by (simp add: write_dom_def write_state_def Let_def)
  have "input_listener env ?t = after_input env ?t"
    by (rule input_listener_synced) (use assms in \<open>simp_all add: idle_def isActiveTabRunning_def\<close>)
  then show ?thesis using assms(1) w by (simp add: setComposerValue_def idle_def Let_def)
qed

lemma after_input_frame [composer_frame]:
  "composerValue (after_input env s) = composerValue s" "selectionStart (after_input env s) = selectionStart s"
  "selectionEnd (after_input env s) = selectionEnd s" "domValue (after_input env s) = domValue s"
  "domStart (after_input env s) = domStart s" "domEnd (after_input env s) = domEnd s"
  "cmdHistory (after_input env s) = cmdHistory s" "suspendReset (after_input env s) = False"
  "histSearchMode (after_input env s) = histSearchMode s" "isActiveTabRunning (after_input env s) = isActiveTabRunning s"
  "nav_index (after_input env s) = (if suspendReset s then nav_index s else - 1)"
  "recall_list cap (after_input env s) = recall_list cap s"
  "suspendReset s \<Longrightarrow> nav_draft (after_input env s) = nav_draft s"
  by (simp_all add: after_input_def composer_frame Let_def)
     (auto simp: isActiveTabRunning_def nav_index_def nav_draft_def recall_list_def reset_nav_def upd_tab_def composer_frame
       split: option.splits)

section \<open>The line editor\<close>

text \<open>The line as text before, in and after the selection, and what the editing keys do to it.\<close>

type_synonym line = "string \<times> string \<times> string"

definition line_of :: "composer \<Rightarrow> line" where
  "line_of s = (take (selectionStart s) (composerValue s),
     JS_Prelude.slice (selectionStart s) (selectionEnd s) (composerValue s), drop (selectionEnd s) (composerValue s))"

datatype edit = Insert char | KillWord | KillLeft | KillRight | LineStart | LineEnd | WordLeft | WordRight

definition strip_word :: "string \<Rightarrow> string" where
  "strip_word l = rev (dropWhile is_alnum (dropWhile (\<lambda>c. \<not> is_alnum c) (rev l)))"

definition next_word :: "string \<Rightarrow> string" where
  "next_word r = takeWhile (\<lambda>c. \<not> is_alnum c) r @ takeWhile is_alnum (dropWhile (\<lambda>c. \<not> is_alnum c) r)"

fun edit_line :: "edit \<Rightarrow> line \<Rightarrow> line" where
  "edit_line (Insert c) (l, m, r) = (l @ [c], [], r)"
| "edit_line KillWord (l, m, r) = (if m \<noteq> [] then l else strip_word l, [], r)"
| "edit_line KillLeft (l, m, r) = (if m \<noteq> [] then l else [], [], r)"
| "edit_line KillRight (l, m, r) = (l, [], if m \<noteq> [] then r else [])"
| "edit_line LineStart (l, m, r) = ([], [], l @ m @ r)"
| "edit_line LineEnd (l, m, r) = (l @ m @ r, [], [])"
| "edit_line WordLeft (l, m, r) = (strip_word l, [], drop (length (strip_word l)) (l @ m @ r))"
| "edit_line WordRight (l, m, r) = (l @ m @ next_word r, [], drop (length (next_word r)) r)"

definition plain_key :: "string \<Rightarrow> key_event" where
  "plain_key k = \<lparr>ev_key = k, ev_code = [], ctrlKey = False, altKey = False, metaKey = False, shiftKey = False, isComposing = False\<rparr>"

fun edit_key :: "edit \<Rightarrow> key_event" where
  "edit_key (Insert c) = plain_key [c]"
| "edit_key KillWord = (plain_key ''w'')\<lparr>ctrlKey := True\<rparr>"
| "edit_key KillLeft = (plain_key ''u'')\<lparr>ctrlKey := True\<rparr>"
| "edit_key KillRight = (plain_key ''k'')\<lparr>ctrlKey := True\<rparr>"
| "edit_key LineStart = (plain_key ''a'')\<lparr>ctrlKey := True\<rparr>"
| "edit_key LineEnd = (plain_key ''e'')\<lparr>ctrlKey := True\<rparr>"
| "edit_key WordLeft = (plain_key ''ArrowLeft'')\<lparr>altKey := True\<rparr>"
| "edit_key WordRight = (plain_key ''ArrowRight'')\<lparr>altKey := True\<rparr>"

lemma take_back_while:
  "n \<le> length v \<Longrightarrow> back_while p v n \<le> n \<and> take (back_while p v n) v = rev (dropWhile (\<lambda>c. p (Some c)) (rev (take n v)))"
  by (induction p v n rule: back_while.induct) (auto simp: char_at_def take_Suc_conv_app_nth)

lemma forward_while_length:
  "i \<le> length v \<Longrightarrow> forward_while p v i = i + length (takeWhile (\<lambda>c. p (Some c)) (drop i v))"
proof (induction p v i rule: forward_while.induct)
  case (1 p v i)
  show ?case
  proof (cases "i < length v")
    case True
    then have "drop i v = v ! i # drop (Suc i) v" by (simp add: Cons_nth_drop_Suc)
    then show ?thesis using 1 True by (simp add: forward_while.simps [of p v i] char_at_def)
  next
    case False
    then show ?thesis by (simp add: forward_while.simps [of p v i])
  qed
qed

lemma boundary_left:
  assumes "i \<le> length v"
  shows "findWordBoundaryLeft v i \<le> i" "take (findWordBoundaryLeft v i) v = strip_word (take i v)"
proof -
  let ?j = "back_while (\<lambda>c. \<not> isTerminalWordChar c) v i"
  have j: "?j \<le> i" "take ?j v = rev (dropWhile (\<lambda>c. \<not> is_alnum c) (rev (take i v)))"
    using take_back_while [OF assms, of "\<lambda>c. \<not> isTerminalWordChar c"] by (simp_all add: isTerminalWordChar_def)
  have k: "back_while isTerminalWordChar v ?j \<le> ?j"
    "take (back_while isTerminalWordChar v ?j) v = rev (dropWhile is_alnum (rev (take ?j v)))"
    using take_back_while [of ?j v isTerminalWordChar] j(1) assms by (simp_all add: isTerminalWordChar_def)
  show "findWordBoundaryLeft v i \<le> i" using j(1) k(1) by (simp add: findWordBoundaryLeft_def)
  show "take (findWordBoundaryLeft v i) v = strip_word (take i v)"
    using j(2) k(2) by (simp add: findWordBoundaryLeft_def strip_word_def)
qed

lemma boundary_right:
  assumes "i \<le> length v"
  shows "findWordBoundaryRight v i = i + length (next_word (drop i v))"
proof -
  let ?p = "\<lambda>c. \<not> is_alnum c"
  let ?j = "i + length (takeWhile ?p (drop i v))"
  have le: "?j \<le> length v" using assms length_takeWhile_le [of ?p "drop i v"] by simp
  have "forward_while (\<lambda>c. \<not> isTerminalWordChar c) v i = ?j"
    using forward_while_length [OF assms, of "\<lambda>c. \<not> isTerminalWordChar c"] by (simp add: isTerminalWordChar_def)
  moreover have "drop ?j v = dropWhile ?p (drop i v)"
    by (metis add.commute drop_drop dropWhile_eq_drop)
  ultimately show ?thesis
    using forward_while_length [OF le, of isTerminalWordChar] assms
    by (simp add: findWordBoundaryRight_def next_word_def isTerminalWordChar_def min_absorb2)
qed

definition synced :: "composer \<Rightarrow> bool" where
  "synced s \<longleftrightarrow> domValue s = composerValue s \<and> domStart s = selectionStart s \<and> domEnd s = selectionEnd s
     \<and> selectionStart s \<le> selectionEnd s \<and> selectionEnd s \<le> length (composerValue s)"

lemma replace_line:
  assumes "idle s" "a \<le> length v"
  shows "line_of (replaceCmdRange env v a b t s) = (take a v @ t, [], drop b v)"
    "synced (replaceCmdRange env v a b t s)" "idle (replaceCmdRange env v a b t s)"
proof -
  have "a + length t \<le> length (take a v @ t @ drop b v)" using assms(2) by simp
  note eq = setComposerValue_idle [OF assms(1) order_refl this]
  show "line_of (replaceCmdRange env v a b t s) = (take a v @ t, [], drop b v)"
    using assms(2) by (simp add: replaceCmdRange_def Let_def eq line_of_def composer_frame JS_Prelude.slice_def)
  show "synced (replaceCmdRange env v a b t s)"
    using assms(2) by (simp add: replaceCmdRange_def Let_def eq synced_def composer_frame)
  show "idle (replaceCmdRange env v a b t s)"
    using assms(1) by (simp add: replaceCmdRange_def Let_def eq idle_def composer_frame) (simp add: isActiveTabRunning_def)
qed

lemma select_line:
  assumes "synced s" "p \<le> length (composerValue s)"
  shows "line_of (syncComposerSelection p p s) = (take p (composerValue s), [], drop p (composerValue s))"
    "synced (syncComposerSelection p p s)" "idle (syncComposerSelection p p s) = idle s"
  using assms by (simp_all add: syncComposerSelection_def line_of_def synced_def idle_def isActiveTabRunning_def
      write_dom_def Let_def JS_Prelude.slice_def)

lemma focus_synced: "synced s \<Longrightarrow> syncFocusedComposerState s = s"
  by (simp add: synced_def syncFocusedComposerState_def write_state_def)

lemma selection_synced: "synced s \<Longrightarrow> getCmdSelection s = (selectionStart s, selectionEnd s)"
  by (simp add: synced_def getCmdSelection_def)

lemma line_marked: "synced s \<Longrightarrow> fst (snd (line_of s)) = [] \<longleftrightarrow> selectionStart s = selectionEnd s"
  by (auto simp: synced_def line_of_def JS_Prelude.slice_def)

lemma delete_keys_line:
  assumes "idle s" "synced s" "a \<le> length (composerValue s)"
    and "nothing \<Longrightarrow> take a (composerValue s) @ drop b (composerValue s) = composerValue s \<and> selectionStart s = a"
  shows "line_of (delete_keys env a b nothing s)
      = (if selectionStart s \<noteq> selectionEnd s then (take (selectionStart s) (composerValue s), [], drop (selectionEnd s) (composerValue s))
         else (take a (composerValue s), [], drop b (composerValue s)))"
    "synced (delete_keys env a b nothing s)" "idle (delete_keys env a b nothing s)"
proof -
  have n: "line_of s = (take a (composerValue s), [], drop b (composerValue s))" if "nothing" "selectionStart s = selectionEnd s"
  proof -
    have "drop a (composerValue s) = drop b (composerValue s)"
      using assms(4) [OF that(1)] by (metis append_take_drop_id same_append_eq)
    then show ?thesis using assms(4) [OF that(1)] that(2) by (simp add: line_of_def JS_Prelude.slice_def)
  qed
  have len: "selectionStart s \<le> length (composerValue s)" using assms(2) by (simp add: synced_def)
  show "line_of (delete_keys env a b nothing s)
      = (if selectionStart s \<noteq> selectionEnd s then (take (selectionStart s) (composerValue s), [], drop (selectionEnd s) (composerValue s))
         else (take a (composerValue s), [], drop b (composerValue s)))"
    using assms n len by (auto simp: delete_keys_def selection_synced replace_line Let_def)
  show "synced (delete_keys env a b nothing s)" "idle (delete_keys env a b nothing s)"
    using assms len by (auto simp: delete_keys_def selection_synced replace_line Let_def)
qed

lemma upper_letters:
  "upper_letter CHR ''r'' = CHR ''R''" "upper_letter CHR ''c'' = CHR ''C''" "upper_letter CHR ''g'' = CHR ''G''"
  "upper_letter CHR ''w'' = CHR ''W''" "upper_letter CHR ''u'' = CHR ''U''" "upper_letter CHR ''a'' = CHR ''A''"
  "upper_letter CHR ''k'' = CHR ''K''" "upper_letter CHR ''e'' = CHR ''E''" "upper_letter CHR ''b'' = CHR ''B''"
  "upper_letter CHR ''f'' = CHR ''F''"
  by code_simp+

lemma keydown_editing:
  assumes "idle s" "\<not> overlayOpen env" "\<not> welcomeOwnsPrompt env" "synced s"
  shows "keydown env cap (edit_key op) s = (case op of
      Insert c \<Rightarrow> replaceCmdRange env (composerValue s) (selectionStart s) (selectionEnd s) [c] s
    | KillWord \<Rightarrow> delete_keys env (findWordBoundaryLeft (composerValue s) (selectionStart s)) (selectionStart s) (selectionStart s = 0) s
    | KillLeft \<Rightarrow> delete_keys env 0 (selectionStart s) (selectionStart s = 0) s
    | KillRight \<Rightarrow> delete_keys env (selectionStart s) (length (composerValue s)) (selectionStart s \<ge> length (composerValue s)) s
    | LineStart \<Rightarrow> syncComposerSelection 0 0 s
    | LineEnd \<Rightarrow> syncComposerSelection (length (composerValue s)) (length (composerValue s)) s
    | WordLeft \<Rightarrow> let p = findWordBoundaryLeft (composerValue s) (selectionStart s) in syncComposerSelection p p s
    | WordRight \<Rightarrow> let p = findWordBoundaryRight (composerValue s) (selectionEnd s) in syncComposerSelection p p s)"
  using assms by (cases op) (simp_all add: keydown_def handleHistSearchKey_def idle_def plain_key_def ctrl_only_def alt_only_def
      key_letter_def upper_letters eventMatchesLetter_def selection_synced focus_synced Let_def)

lemma edit_step:
  assumes "idle s" "\<not> overlayOpen env" "\<not> welcomeOwnsPrompt env" "synced s"
  shows "line_of (keydown env cap (edit_key op) s) = edit_line op (line_of s)
    \<and> synced (keydown env cap (edit_key op) s) \<and> idle (keydown env cap (edit_key op) s)"
proof -
  let ?v = "composerValue s" and ?a = "selectionStart s" and ?b = "selectionEnd s"
  have len: "?a \<le> length ?v" "?b \<le> length ?v" "?a \<le> ?b" using assms(4) by (auto simp: synced_def)
  note left = boundary_left [OF len(1)] and key = keydown_editing [OF assms, of cap op]
  obtain l m r where line: "line_of s = (l, m, r)" by (cases "line_of s")
  then have parts: "l = take ?a ?v" "r = drop ?b ?v" "l @ m @ r = ?v" "m = [] \<longleftrightarrow> ?a = ?b"
    using slice_decompose [OF len(3), of ?v] line_marked [OF assms(4)] by (auto simp: line_of_def)
  show ?thesis
  proof (cases op)
    case (Insert c)
    then show ?thesis using replace_line [OF assms(1) len(1)] unfolding key by (simp add: line parts)
  next
    case KillWord
    let ?j = "findWordBoundaryLeft ?v ?a"
    have j: "?j \<le> length ?v" using left(1) len(1) by simp
    have "take ?j ?v @ drop ?a ?v = ?v \<and> ?a = ?j" if "?a = 0" using that left(1) by simp
    note del = delete_keys_line [OF assms(1,4) j this]
    show ?thesis using KillWord del left(2) unfolding key by (auto simp: line parts)
  next
    case KillLeft
    have "take 0 ?v @ drop ?a ?v = ?v \<and> ?a = 0" if "?a = 0" using that by simp
    note del = delete_keys_line [OF assms(1,4) _ this]
    show ?thesis using KillLeft del unfolding key by (simp add: line parts)
  next
    case KillRight
    have "take ?a ?v @ drop (length ?v) ?v = ?v \<and> ?a = ?a" if "?a \<ge> length ?v" using that by simp
    note del = delete_keys_line [OF assms(1,4) len(1) this]
    show ?thesis using KillRight del unfolding key by (simp add: line parts)
  next
    case LineStart
    then show ?thesis using select_line [OF assms(4), of 0] assms(1) unfolding key by (simp add: line parts(3))
  next
    case LineEnd
    then show ?thesis using select_line [OF assms(4) order_refl] assms(1) unfolding key by (simp add: line parts(3))
  next
    case WordLeft
    have "findWordBoundaryLeft ?v ?a \<le> length ?v" "length (strip_word l) = findWordBoundaryLeft ?v ?a"
      using left len(1) by (auto simp: parts) (metis dual_order.trans length_take min.absorb2)
    then show ?thesis using WordLeft select_line [OF assms(4)] assms(1) left(2) [folded parts(1)] unfolding key
      by (simp add: line Let_def parts(3) del: drop_append)
  next
    case WordRight
    have w: "take (length (next_word r)) r = next_word r" "length (next_word r) \<le> length r"
      unfolding next_word_def
      by (metis append_eq_conv_conj append.assoc takeWhile_dropWhile_id)
         (metis append.assoc le_add1 length_append takeWhile_dropWhile_id)
    have p: "findWordBoundaryRight ?v ?b = ?b + length (next_word r)" "?b + length (next_word r) \<le> length ?v"
      using boundary_right [OF len(2)] w(2) len(2) by (simp_all add: parts)
    have "take (?b + length (next_word r)) ?v = l @ m @ next_word r"
      using w(1) parts len by (metis append.assoc append_same_eq append_take_drop_id take_add)
    then show ?thesis using WordRight select_line [OF assms(4) p(2)] assms(1) unfolding key
      by (simp add: line Let_def p(1) parts(2) add.commute)
  qed
qed

text \<open>
  \<^bold>\<open>C21.\<close> The editing keys of the prompt implement a plain line editor: for every sequence of
  characters, Ctrl-W, Ctrl-U, Ctrl-K, Ctrl-A, Ctrl-E and Alt-arrows the text before, in and after the
  selection is what the line editor computes, whatever the suggestions do meanwhile, and the text field
  and the composer state still agree.
\<close>

theorem editing_keys_refine_line:
  assumes "idle s" "synced s" "\<not> overlayOpen env" "\<not> welcomeOwnsPrompt env"
  shows "line_of (fold (\<lambda>op. keydown env cap (edit_key op)) ops s) = fold edit_line ops (line_of s)
    \<and> synced (fold (\<lambda>op. keydown env cap (edit_key op)) ops s)"
  using assms(1,2)
proof (induction ops arbitrary: s)
  case (Cons op ops)
  then show ?case using edit_step [OF Cons.prems(1) assms(3,4) Cons.prems(2), of cap op] by simp
qed simp

section \<open>Recalling commands\<close>

abbreviation up :: "page_env \<Rightarrow> nat \<Rightarrow> composer \<Rightarrow> composer" where
  "up env cap \<equiv> keydown env cap (plain_key ''ArrowUp'')"

abbreviation down :: "page_env \<Rightarrow> nat \<Rightarrow> composer \<Rightarrow> composer" where
  "down env cap \<equiv> keydown env cap (plain_key ''ArrowDown'')"

lemma keydown_arrows:
  assumes "idle s" "\<not> overlayOpen env"
  shows "up env cap s = arrow_key env cap 1 s" "down env cap s = arrow_key env cap (- 1) s"
  using assms by (simp_all add: keydown_def handleHistSearchKey_def idle_def plain_key_def ctrl_only_def alt_only_def
      key_letter_def eventMatchesLetter_def)

lemma arrow_navigates:
  "\<not> terminalConfirm env \<Longrightarrow> \<not> acDropdownOpen s \<Longrightarrow>
     arrow_key env cap d s = (case navigateCmdHistory env cap d s of (s', moved) \<Rightarrow> if moved then acHide s' else s')"
  by (simp add: arrow_key_def)

definition recalled :: "string \<Rightarrow> composer \<Rightarrow> composer" where
  "recalled v s = s\<lparr>suspendReset := True, composerValue := v, selectionStart := length v,
    selectionEnd := length v, domValue := v, domStart := length v, domEnd := length v\<rparr>"

lemma recalled_frame [composer_frame]:
  "recall_list cap (recalled v s) = recall_list cap s" "nav_index (recalled v s) = nav_index s"
  "nav_draft (recalled v s) = nav_draft s" "isActiveTabRunning (recalled v s) = isActiveTabRunning s"
  "composerValue (recalled v s) = v" "domValue (recalled v s) = v" "suspendReset (recalled v s)"
  "histSearchMode (recalled v s) = histSearchMode s"
  by (simp_all add: recalled_def recall_list_def nav_index_def nav_draft_def isActiveTabRunning_def split: option.splits)

lemma show_recalled_idle:
  assumes "idle s"
  shows "show_recalled env v s = after_input env (recalled v s)"
proof -
  have "idle (s\<lparr>suspendReset := True\<rparr>)" using assms by (simp add: idle_def isActiveTabRunning_def)
  moreover have "setComposerValue env True False v None None t = setComposerValue env True False v (Some (length v)) (Some (length v)) t" for t
    by (simp add: setComposerValue_def)
  ultimately show ?thesis by (simp add: show_recalled_def setComposerValue_idle recalled_def)
qed

text \<open>The prompt shows entry \<open>i\<close> of the recalled commands, with the draft \<open>d\<close> put aside.\<close>

definition at_entry :: "nat \<Rightarrow> string list \<Rightarrow> string \<Rightarrow> nat \<Rightarrow> composer \<Rightarrow> bool" where
  "at_entry cap h d i s \<longleftrightarrow> idle s \<and> \<not> acDropdownOpen s \<and> recall_list cap s = h \<and> nav_index s = int i
     \<and> nav_draft s = d \<and> composerValue s = h ! i"

text \<open>The prompt outside the recall, with the text \<open>v\<close>.\<close>

definition at_draft :: "nat \<Rightarrow> string list \<Rightarrow> string \<Rightarrow> composer \<Rightarrow> bool" where
  "at_draft cap h v s \<longleftrightarrow> idle s \<and> \<not> acDropdownOpen s \<and> recall_list cap s = h \<and> nav_index s = - 1 \<and> recall_value s = v"

lemma set_nav_frame [composer_frame]:
  "idle (set_nav_index i s) = idle s" "recall_list cap (set_nav_index i s) = recall_list cap s"
  "nav_index (set_nav_index i s) = i" "nav_draft (set_nav_index i s) = nav_draft s"
  "idle (set_nav_draft d s) = idle s" "recall_list cap (set_nav_draft d s) = recall_list cap s"
  "nav_draft (set_nav_draft d s) = d"
  by (simp_all add: set_nav_index_def set_nav_draft_def idle_def isActiveTabRunning_def recall_list_def nav_index_def
      nav_draft_def upd_tab_def split: option.splits)

lemma show_recalled_frame:
  assumes "idle s"
  shows "idle (show_recalled env v s)" "recall_list cap (show_recalled env v s) = recall_list cap s"
    "nav_index (show_recalled env v s) = nav_index s" "nav_draft (show_recalled env v s) = nav_draft s"
    "composerValue (show_recalled env v s) = v" "domValue (show_recalled env v s) = v"
    "suspendReset (show_recalled env v s) = False" "histSearchMode (show_recalled env v s) = False"
  using assms by (simp_all add: show_recalled_idle composer_frame idle_def)

lemma idle_acHide [composer_frame]: "idle (acHide s) = idle s"
  by (simp add: idle_def composer_frame)

lemma nav_acHide [composer_frame]:
  "nav_index (acHide s) = nav_index s" "nav_draft (acHide s) = nav_draft s" "recall_list cap (acHide s) = recall_list cap s"
  "recall_value (acHide s) = recall_value s"
  by (simp_all add: nav_index_def nav_draft_def recall_list_def recall_value_def composer_frame split: option.splits)

lemma up_from_draft:
  assumes "at_draft cap h v s" "h \<noteq> []" "\<not> overlayOpen env" "\<not> terminalConfirm env"
  shows "at_entry cap h v 0 (up env cap s)"
proof -
  have s: "idle s" "\<not> acDropdownOpen s" "recall_list cap s = h" "nav_index s = - 1" "recall_value s = v"
    using assms(1) by (auto simp: at_draft_def)
  have "idle (set_nav_index 0 (set_nav_draft v s))" using s(1) by (simp add: composer_frame)
  note show_recalled_frame [OF this]
  then show ?thesis
    using s assms(2-4) by (simp add: keydown_arrows arrow_navigates navigateCmdHistory_def at_entry_def entry_def composer_frame)
qed

lemma up_from_entry:
  assumes "at_entry cap h d i s" "i < length h" "\<not> overlayOpen env" "\<not> terminalConfirm env"
  shows "at_entry cap h d (min (Suc i) (length h - 1)) (up env cap s)"
proof -
  have s: "idle s" "\<not> acDropdownOpen s" "recall_list cap s = h" "nav_index s = int i" "nav_draft s = d" "composerValue s = h ! i"
    using assms(1) by (auto simp: at_entry_def)
  have "idle (set_nav_index (int (Suc i)) s)" using s(1) by (simp add: composer_frame)
  note frame = show_recalled_frame [OF this]
  show ?thesis
  proof (cases "Suc i < length h")
    case True
    then have "h \<noteq> []" "int i < int (length h) - 1" "min (Suc i) (length h - 1) = Suc i" by auto
    then show ?thesis using True s frame assms(3,4)
      by (simp add: keydown_arrows arrow_navigates navigateCmdHistory_def at_entry_def entry_def composer_frame nat_add_distrib add.commute)
  next
    case False
    then have "h \<noteq> []" "\<not> int i < int (length h) - 1" "min (Suc i) (length h - 1) = i" using assms(2) by auto
    then show ?thesis using s assms(3,4)
      by (simp add: keydown_arrows arrow_navigates navigateCmdHistory_def at_entry_def composer_frame)
  qed
qed

lemma down_from_entry:
  assumes "at_entry cap h d (Suc i) s" "Suc i < length h" "\<not> overlayOpen env" "\<not> terminalConfirm env"
  shows "at_entry cap h d i (down env cap s)"
proof -
  have s: "idle s" "\<not> acDropdownOpen s" "recall_list cap s = h" "nav_index s = int (Suc i)" "nav_draft s = d"
    using assms(1) by (auto simp: at_entry_def)
  have "idle (set_nav_index (int i) s)" using s(1) by (simp add: composer_frame)
  note frame = show_recalled_frame [OF this]
  have "h \<noteq> []" using assms(2) by auto
  then show ?thesis using s frame assms
    by (simp add: keydown_arrows arrow_navigates navigateCmdHistory_def at_entry_def entry_def composer_frame)
qed

lemma down_to_draft:
  assumes "at_entry cap h d 0 s" "h \<noteq> []" "\<not> overlayOpen env" "\<not> terminalConfirm env"
  shows "at_draft cap h d (down env cap s) \<and> composerValue (down env cap s) = d"
proof -
  have s: "idle s" "\<not> acDropdownOpen s" "recall_list cap s = h" "nav_index s = 0" "nav_draft s = d"
    using assms(1) by (auto simp: at_entry_def)
  let ?t = "show_recalled env d s"
  note frame = show_recalled_frame [OF s(1)]
  have "down env cap s = acHide (reset_nav ?t)"
    using s assms(2-4) frame(8) by (simp add: keydown_arrows arrow_navigates navigateCmdHistory_def resetCmdHistoryNav_def composer_frame)
  then show ?thesis
    using frame s(3) by (simp add: at_draft_def idle_def recall_value_def composer_frame)
qed

lemma ups_from_draft:
  assumes "at_draft cap h v s" "h \<noteq> []" "\<not> overlayOpen env" "\<not> terminalConfirm env"
  shows "at_entry cap h v (min n (length h - 1)) ((up env cap ^^ Suc n) s)"
proof (induction n)
  case 0
  then show ?case using up_from_draft [OF assms] by simp
next
  case (Suc n)
  have "min n (length h - 1) < length h" using assms(2) by (cases h) auto
  from up_from_entry [OF Suc this assms(3,4)] show ?case by (simp add: min_def split: if_splits)
qed

lemma downs_to_draft:
  assumes "at_entry cap h d i s" "i < length h" "\<not> overlayOpen env" "\<not> terminalConfirm env"
  shows "at_draft cap h d ((down env cap ^^ Suc i) s) \<and> composerValue ((down env cap ^^ Suc i) s) = d"
  using assms(1,2)
proof (induction i arbitrary: s)
  case 0
  then show ?case using down_to_draft [OF 0(1) _ assms(3,4)] by auto
next
  case (Suc i)
  then have "at_draft cap h d ((down env cap ^^ Suc i) (down env cap s)) \<and> composerValue ((down env cap ^^ Suc i) (down env cap s)) = d"
    using down_from_entry [OF Suc(2,3) assms(3,4)] by simp
  then show ?case by (simp only: funpow_Suc_right comp_apply)
qed


section \<open>The invariant\<close>

text \<open>The selections lie in their texts; the recall list is a list of at most \<open>cap\<close> distinct commands
  and the recall stands at one of its entries or outside; the selected match of a reverse search
  exists, and the suggestions are closed while one is open.\<close>

definition text_ok :: "composer \<Rightarrow> bool" where
  "text_ok s \<longleftrightarrow> selectionStart s \<le> selectionEnd s \<and> selectionEnd s \<le> length (composerValue s)
     \<and> domStart s \<le> domEnd s \<and> domEnd s \<le> length (domValue s)"

definition nav_ok :: "nat \<Rightarrow> composer \<Rightarrow> bool" where
  "nav_ok cap s \<longleftrightarrow> - 1 \<le> nav_index s \<and> nav_index s < int (length (recall_list cap s))
     \<and> distinct (cmdHistory s) \<and> length (cmdHistory s) \<le> cap"

definition search_ok :: "composer \<Rightarrow> bool" where
  "search_ok s \<longleftrightarrow> (histSearchMode s \<longrightarrow>
     - 1 \<le> histSearchIndex s \<and> histSearchIndex s < int (length (histSearchMatches s)) \<and> \<not> acDropdownOpen s)"

definition composer_inv0 :: "nat \<Rightarrow> composer \<Rightarrow> bool" where
  "composer_inv0 cap s \<longleftrightarrow> text_ok s \<and> nav_ok cap s \<and> search_ok s"

definition composer_inv :: "nat \<Rightarrow> composer \<Rightarrow> bool" where
  "composer_inv cap s \<longleftrightarrow> composer_inv0 cap s \<and> \<not> suspendReset s"

lemma nav_ok_cong:
  "activeTab t = activeTab s \<Longrightarrow> cmdHistory t = cmdHistory s \<Longrightarrow> cmdHistoryNavIndex t = cmdHistoryNavIndex s \<Longrightarrow> nav_ok cap t = nav_ok cap s"
  by (simp add: nav_ok_def nav_index_def recall_list_def split: option.splits)

lemma matches_cong:
  "histSearchQuery t = histSearchQuery s \<Longrightarrow> cmdHistory t = cmdHistory s \<Longrightarrow> histSearchRuns t = histSearchRuns s
    \<Longrightarrow> histSearchMatches t = histSearchMatches s"
  by (simp add: histSearchMatches_def)

lemma search_ok_cong:
  "histSearchQuery t = histSearchQuery s \<Longrightarrow> cmdHistory t = cmdHistory s \<Longrightarrow> histSearchRuns t = histSearchRuns s
    \<Longrightarrow> histSearchMode t = histSearchMode s \<Longrightarrow> histSearchIndex t = histSearchIndex s
    \<Longrightarrow> (histSearchMode s \<Longrightarrow> acDropdownOpen t \<Longrightarrow> acDropdownOpen s) \<Longrightarrow> search_ok s \<Longrightarrow> search_ok t"
  using matches_cong [of t s] by (auto simp: search_ok_def)

lemma nav_ok_upd_tab:
  assumes "\<And>t. commandHistory (f t) = commandHistory t" "\<And>t. historyNavIndex (f t) = historyNavIndex t"
  shows "nav_ok cap (upd_tab f s) = nav_ok cap s"
  using assms by (auto simp: nav_ok_def nav_index_def recall_list_def upd_tab_def split: option.splits)

lemma nav_ok_reset: "nav_ok cap s \<Longrightarrow> nav_ok cap (reset_nav s)"
  by (simp add: nav_ok_def composer_frame)

lemma search_ok_reset: "search_ok s \<Longrightarrow> search_ok (reset_nav s)"
  by (erule search_ok_cong [rotated -1]) (simp_all add: composer_frame)

lemma inv0_acHide: "composer_inv0 cap s \<Longrightarrow> composer_inv0 cap (acHide s)"
  unfolding composer_inv0_def
  by (auto simp: text_ok_def composer_frame nav_ok_cong [of "acHide s" s] elim!: search_ok_cong [rotated -1])

lemma inv_acHide: "composer_inv cap s \<Longrightarrow> composer_inv cap (acHide s)"
  by (simp add: composer_inv_def inv0_acHide composer_frame)

lemma inv0_acShow: "composer_inv0 cap s \<Longrightarrow> \<not> histSearchMode s \<Longrightarrow> composer_inv0 cap (acShow env xs s)"
  unfolding composer_inv0_def
  by (auto simp: text_ok_def composer_frame nav_ok_cong [of "acShow env xs s" s] elim!: search_ok_cong [rotated -1])

lemma inv0_suggest: "composer_inv0 cap s \<Longrightarrow> \<not> histSearchMode s \<Longrightarrow> composer_inv0 cap (suggest env s)"
  unfolding composer_inv0_def
  by (auto simp: text_ok_def composer_frame nav_ok_cong [of "suggest env s" s] elim!: search_ok_cong [rotated -1])

lemma inv0_reset: "composer_inv0 cap s \<Longrightarrow> composer_inv0 cap (reset_nav s)"
  by (simp add: composer_inv0_def text_ok_def composer_frame nav_ok_reset search_ok_reset)

lemma inv0_draft: "composer_inv0 cap s \<Longrightarrow> composer_inv0 cap (upd_tab (\<lambda>t. t\<lparr>draftInput := v\<rparr>) s)"
  unfolding composer_inv0_def
  by (auto simp: text_ok_def composer_frame nav_ok_upd_tab elim!: search_ok_cong [rotated -1])

text \<open>Updates of the texts and of the flags of the suggestions.\<close>

lemma inv0_texts:
  assumes "composer_inv0 cap s" "text_ok t"
    and "activeTab t = activeTab s" "cmdHistory t = cmdHistory s" "cmdHistoryNavIndex t = cmdHistoryNavIndex s"
    and "histSearchQuery t = histSearchQuery s" "histSearchRuns t = histSearchRuns s" "histSearchMode t = histSearchMode s"
    and "histSearchIndex t = histSearchIndex s" "acDropdownOpen t = acDropdownOpen s"
  shows "composer_inv0 cap t"
  using assms nav_ok_cong [of t s cap] search_ok_cong [of t s] by (auto simp: composer_inv0_def)

lemma inv0_write_dom: "composer_inv0 cap s \<Longrightarrow> composer_inv0 cap (write_dom v a b s)"
  by (rule inv0_texts) (auto simp: write_dom_def Let_def text_ok_def composer_inv0_def)

lemma inv0_smart: "composer_inv0 cap s \<Longrightarrow> composer_inv0 cap (normalizeComposerSmartPeriod s)"
  by (simp add: normalizeComposerSmartPeriod_def Let_def inv0_write_dom)

lemma inv0_write_state: "composer_inv0 cap s \<Longrightarrow> a \<le> b \<Longrightarrow> b \<le> length v \<Longrightarrow> composer_inv0 cap (write_state v a b s)"
  by (rule inv0_texts) (auto simp: write_state_def text_ok_def composer_inv0_def)

lemma inv0_focus: "composer_inv0 cap s \<Longrightarrow> composer_inv0 cap (write_state (domValue s) (domStart s) (domEnd s) s)"
  by (rule inv0_write_state) (auto simp: composer_inv0_def text_ok_def)

lemma inv0_flags:
  "composer_inv0 cap s \<Longrightarrow> composer_inv0 cap (s\<lparr>suspendReset := x\<rparr>)"
  "composer_inv0 cap s \<Longrightarrow> composer_inv0 cap (s\<lparr>acSuppressInputOnce := x\<rparr>)"
  "composer_inv0 cap s \<Longrightarrow> composer_inv0 cap (s\<lparr>acIndex := i\<rparr>)"
  "composer_inv0 cap s \<Longrightarrow> composer_inv0 cap (s\<lparr>submitted := xs\<rparr>)"
  "composer_inv0 cap s \<Longrightarrow> composer_inv0 cap (s\<lparr>histSearchPreDraft := v\<rparr>)"
  by ((rule inv0_texts, assumption); simp add: text_ok_def composer_inv0_def)+

lemma inv_handle_input:
  assumes "composer_inv0 cap s" "\<not> histSearchMode s" "isActiveTabRunning s \<Longrightarrow> \<not> suspendReset s"
  shows "composer_inv cap (handleComposerInputChange env s)"
proof -
  let ?n = "normalizeComposerSmartPeriod s"
  let ?w = "write_state (domValue ?n) (domStart ?n) (domEnd ?n) ?n"
  let ?r = "if suspendReset ?w then ?w\<lparr>suspendReset := False\<rparr> else reset_nav ?w"
  have n: "histSearchMode ?n = histSearchMode s" by (simp add: normalizeComposerSmartPeriod_def write_dom_def Let_def)
  have "composer_inv0 cap ?w" by (rule inv0_focus [OF inv0_smart [OF assms(1)]])
  then have r: "composer_inv0 cap ?r" "\<not> suspendReset ?r" "\<not> histSearchMode ?r"
    using assms(2) n by (auto simp: inv0_flags inv0_reset composer_frame write_state_def)
  then have "composer_inv cap (suggest env ?r)" by (auto simp: composer_inv_def inv0_suggest composer_frame)
  moreover have "composer_inv0 cap (acHide (write_state [] 0 0 (write_dom [] 0 0 s)))"
    by (simp add: inv0_acHide inv0_write_state inv0_write_dom assms(1))
  ultimately show "composer_inv cap (handleComposerInputChange env s)"
    using assms(3)
    by (simp add: handleComposerInputChange_def Let_def composer_inv_def composer_frame) (simp add: write_state_def write_dom_def)
qed

lemma inv_hist_input: "composer_inv cap s \<Longrightarrow> histSearchMode s \<Longrightarrow> composer_inv cap (handleHistSearchInput v s)"
proof -
  assume i: "composer_inv cap s" and m: "histSearchMode s"
  let ?t = "handleHistSearchInput v s"
  have f: "text_ok ?t = text_ok s" "nav_ok cap ?t = nav_ok cap s" "suspendReset ?t = suspendReset s"
    "histSearchMode ?t = histSearchMode s" "acDropdownOpen ?t = acDropdownOpen s"
    using nav_ok_cong [of ?t s] by (simp_all add: handleHistSearchInput_def Let_def text_ok_def)
  have "- 1 \<le> histSearchIndex ?t \<and> histSearchIndex ?t < int (length (histSearchMatches ?t))"
    by (auto simp: handleHistSearchInput_def Let_def histSearchMatches_def)
  then show ?thesis using i m f by (simp add: composer_inv_def composer_inv0_def search_ok_def)
qed

lemma inv_input:
  assumes "composer_inv0 cap s" "histSearchMode s \<or> isActiveTabRunning s \<Longrightarrow> \<not> suspendReset s"
  shows "composer_inv cap (input_listener env s)"
proof -
  let ?n = "normalizeComposerSmartPeriod s"
  have n: "composer_inv0 cap ?n" "histSearchMode ?n = histSearchMode s" "suspendReset ?n = suspendReset s"
    "isActiveTabRunning ?n = isActiveTabRunning s"
    using inv0_smart [OF assms(1)] by (simp_all add: normalizeComposerSmartPeriod_def write_dom_def Let_def isActiveTabRunning_def)
  show ?thesis
  proof (cases "histSearchMode s")
    case True
    then show ?thesis using n assms(2) inv_hist_input [of cap ?n] by (simp add: input_listener_def Let_def composer_inv_def)
  next
    case False
    then have h: "composer_inv cap (handleComposerInputChange env ?n)" using n assms(2) inv_handle_input by auto
    then show ?thesis using False n(2)
      by (simp add: input_listener_def Let_def composer_inv_def inv0_draft composer_frame)
  qed
qed

text \<open>Outside the search any position will do: the field clamps it and the handler copies it back.\<close>

lemma input_same_text:
  assumes "domValue t = composerValue t" "\<not> histSearchMode t"
  shows "input_listener env t = input_listener env (write_state (domValue t) (domStart t) (domEnd t) t)" (is "_ = input_listener env ?w")
proof -
  have "domValue ?w = composerValue ?w" "\<not> histSearchMode ?w" "isActiveTabRunning ?w = isActiveTabRunning t"
    "write_state (domValue ?w) (domStart ?w) (domEnd ?w) ?w = ?w"
    "write_state [] 0 0 (write_dom [] 0 0 ?w) = write_state [] 0 0 (write_dom [] 0 0 t)"
    using assms by (simp_all add: write_state_def write_dom_def isActiveTabRunning_def)
  then show ?thesis using assms
    by (simp add: input_listener_def handleComposerInputChange_def smart_period_idle)
qed

lemma inv_setValue:
  assumes "composer_inv0 cap s" "histSearchMode s \<or> isActiveTabRunning s \<Longrightarrow> \<not> suspendReset s"
    and "histSearchMode s \<Longrightarrow> a \<le> b \<and> b \<le> length v"
  shows "composer_inv cap (setComposerValue env True allow v (Some a) (Some b) s)"
proof -
  let ?t = "write_dom v a b (write_state v a b s)"
  let ?w = "if histSearchMode s then ?t else write_state (domValue ?t) (domStart ?t) (domEnd ?t) ?t"
  have f: "histSearchMode ?w = histSearchMode s" "isActiveTabRunning ?w = isActiveTabRunning s" "suspendReset ?w = suspendReset s"
    "domValue ?t = composerValue ?t" "histSearchMode ?t = histSearchMode s"
    by (simp_all add: write_dom_def write_state_def Let_def isActiveTabRunning_def)
  have "composer_inv0 cap ?w"
    by (rule inv0_texts [OF assms(1)]) (use assms(3) in \<open>auto simp: write_dom_def write_state_def Let_def text_ok_def\<close>)
  then have "composer_inv cap (input_listener env ?w)" by (rule inv_input) (use assms(2) f in simp)
  moreover have "input_listener env ?t = input_listener env ?w" using input_same_text [OF f(4)] f(5) by simp
  ultimately show ?thesis
    using assms(1,2) by (simp add: setComposerValue_def Let_def composer_inv_def inv0_acHide composer_frame)
qed

lemma inv_parts: "composer_inv cap s \<longleftrightarrow> text_ok s \<and> nav_ok cap s \<and> search_ok s \<and> \<not> suspendReset s"
  by (auto simp: composer_inv_def composer_inv0_def)

lemma inv_if: "(P \<Longrightarrow> composer_inv cap s) \<Longrightarrow> (\<not> P \<Longrightarrow> composer_inv cap t) \<Longrightarrow> composer_inv cap (if P then s else t)"
  by simp

lemma inv_prod: "(\<And>a b. composer_inv cap (f a b)) \<Longrightarrow> composer_inv cap (case p of (a, b) \<Rightarrow> f a b)"
  by (cases p) simp

lemma inv_replace:
  assumes "composer_inv cap s" "a \<le> length v"
  shows "composer_inv cap (replaceCmdRange env v a b r s)"
  unfolding replaceCmdRange_def Let_def
  by (rule inv_setValue) (use assms in \<open>auto simp: composer_inv_def\<close>)

lemma inv_clear: "composer_inv cap s \<Longrightarrow> composer_inv cap (clearComposerInputs env s)"
proof -
  assume i: "composer_inv cap s"
  have "composer_inv cap (input_listener env (write_dom [] 0 0 s))"
    by (rule inv_input, use i in \<open>simp add: composer_inv_def inv0_write_dom\<close>, use i in \<open>simp add: composer_inv_def write_dom_def\<close>)
  then show ?thesis unfolding clearComposerInputs_def by (intro inv_setValue) (auto simp: composer_inv_def)
qed

lemma inv_sync:
  "composer_inv cap s \<Longrightarrow> composer_inv cap (syncComposerSelection p p s)"
  "composer_inv cap s \<Longrightarrow> composer_inv cap (syncFocusedComposerState s)"
proof -
  assume i: "composer_inv cap s"
  have "composer_inv0 cap (syncComposerSelection p p s)"
    by (rule inv0_texts [of cap s]) (use i in \<open>auto simp: composer_inv_def composer_inv0_def text_ok_def syncComposerSelection_def write_dom_def Let_def\<close>)
  then show "composer_inv cap (syncComposerSelection p p s)"
    using i by (simp add: composer_inv_def syncComposerSelection_def write_dom_def Let_def)
  show "composer_inv cap (syncFocusedComposerState s)"
    using i inv0_focus [of cap s] by (simp add: composer_inv_def syncFocusedComposerState_def write_state_def)
qed

lemma inv_caret:
  "composer_inv cap s \<Longrightarrow> composer_inv cap (moveCmdCaret d s)"
  "composer_inv cap s \<Longrightarrow> composer_inv cap (moveCmdCaretByWord d s)"
  unfolding moveCmdCaret_def moveCmdCaretByWord_def Let_def by (intro inv_prod inv_sync; assumption)+

lemma selection_valid: "composer_inv cap s \<Longrightarrow> getCmdSelection s = (selectionStart s, selectionEnd s)
    \<and> selectionStart s \<le> length (composerValue s) \<and> selectionEnd s \<le> length (composerValue s)"
  by (auto simp: inv_parts text_ok_def getCmdSelection_def)

lemma inv_delete_keys:
  "composer_inv cap s \<Longrightarrow> a \<le> length (composerValue s) \<Longrightarrow> composer_inv cap (delete_keys env a b nothing s)"
  using selection_valid [of cap s] by (auto simp: delete_keys_def Let_def intro: inv_replace)

lemma inv_flags:
  "composer_inv cap s \<Longrightarrow> composer_inv cap (s\<lparr>acSuppressInputOnce := x\<rparr>)"
  "composer_inv cap s \<Longrightarrow> composer_inv cap (s\<lparr>acIndex := i\<rparr>)"
  "composer_inv cap s \<Longrightarrow> composer_inv cap (s\<lparr>submitted := xs\<rparr>)"
  by (simp_all add: composer_inv_def inv0_flags)

lemma inv_setValue_closed:
  "composer_inv cap s \<Longrightarrow> \<not> histSearchMode s \<Longrightarrow> composer_inv cap (setComposerValue env True allow v (Some a) (Some b) s)"
  by (rule inv_setValue) (auto simp: composer_inv_def)

lemma inv_accept: "composer_inv cap s \<Longrightarrow> \<not> histSearchMode s \<Longrightarrow> composer_inv cap (acAccept env item s)"
  by (auto simp: acAccept_def Let_def composer_frame inv_acHide inv_flags intro!: inv_setValue_closed split: option.splits)

lemma inv_expand:
  "composer_inv cap s \<Longrightarrow> \<not> histSearchMode s \<Longrightarrow> acExpandSharedPrefix env items s = Some t \<Longrightarrow> composer_inv cap t"
  by (auto simp: acExpandSharedPrefix_def Let_def intro!: inv_setValue_closed split: option.splits if_splits)

lemma inv_show: "composer_inv cap s \<Longrightarrow> \<not> histSearchMode s \<Longrightarrow> composer_inv cap (acShow env xs s)"
  by (simp add: composer_inv_def inv0_acShow composer_frame)

lemma inv_enter_search: "composer_inv cap s \<Longrightarrow> composer_inv cap (enterHistSearch env s)"
proof -
  assume i: "composer_inv cap s"
  let ?t = "enterHistSearch env s"
  have "activeTab ?t = activeTab s" "cmdHistory ?t = cmdHistory s" "cmdHistoryNavIndex ?t = cmdHistoryNavIndex s"
    "text_ok ?t" "search_ok ?t" "suspendReset ?t = suspendReset s"
    by (simp_all add: enterHistSearch_def setComposerValue_def trim_def trimEnd_def trimStart_def write_dom_def write_state_def
        acHide_def Let_def text_ok_def search_ok_def histSearchMatches_def)
  then show ?thesis using i nav_ok_cong [of ?t s cap] by (simp add: inv_parts)
qed

lemma inv_exit_search:
  assumes "text_ok s" "nav_ok cap s" "\<not> suspendReset s" "histSearchMode s"
  shows "composer_inv cap (exitHistSearch env accept keepCurrent s)"
proof -
  let ?s0 = "s\<lparr>histSearchMode := False\<rparr>"
  let ?clean = "\<lambda>s. acHide (s\<lparr>histSearchQuery := [], histSearchIndex := - 1, histSearchPreDraft := [], histSearchRuns := None\<rparr>)"
  have s0: "composer_inv cap ?s0"
    using assms nav_ok_cong [of ?s0 s cap] by (simp add: inv_parts text_ok_def search_ok_def)
  have put: "composer_inv cap (setComposerValue env True False v (Some a) (Some b) ?s0)" for v a b
    by (rule inv_setValue_closed [OF s0]) simp
  have clean: "composer_inv cap (?clean t)" if "composer_inv cap t" for t
  proof (rule inv_acHide)
    let ?u = "t\<lparr>histSearchQuery := [], histSearchIndex := - 1, histSearchPreDraft := [], histSearchRuns := None\<rparr>"
    show "composer_inv cap ?u"
      using that nav_ok_cong [of ?u t cap] by (simp add: inv_parts text_ok_def search_ok_def histSearchMatches_def)
  qed
  show ?thesis
    unfolding exitHistSearch_def Let_def by (intro inv_if clean put s0) (use assms(4) in simp)
qed

lemma inv_move: "composer_inv cap s \<Longrightarrow> composer_inv cap (moveHistSearchSelection d s)"
proof -
  assume i: "composer_inv cap s"
  let ?t = "moveHistSearchSelection d s"
  have f: "text_ok ?t = text_ok s" "nav_ok cap ?t = nav_ok cap s" "suspendReset ?t = suspendReset s"
    "histSearchMode ?t = histSearchMode s" "acDropdownOpen ?t = acDropdownOpen s"
    using nav_ok_cong [of ?t s] by (simp_all add: moveHistSearchSelection_def Let_def text_ok_def)
  have m: "histSearchMatches ?t = histSearchMatches s"
    by (rule matches_cong) (simp_all add: moveHistSearchSelection_def Let_def)
  have "histSearchIndex ?t = histSearchIndex s \<or> 0 \<le> histSearchIndex ?t \<and> histSearchIndex ?t < int (length (histSearchMatches s))"
    by (auto simp: moveHistSearchSelection_def Let_def)
  then show ?thesis using i f m by (auto simp: inv_parts search_ok_def)
qed

lemma index_of_less: "index_of x ys = Some i \<Longrightarrow> i < length ys"
  by (induction ys arbitrary: i) (auto split: if_splits)

lemma inv_search_answer: "composer_inv cap s \<Longrightarrow> composer_inv cap (histSearchResponse q runs s)"
proof -
  assume i: "composer_inv cap s"
  let ?t = "histSearchResponse q runs s" and ?u = "s\<lparr>histSearchRuns := Some (dedup runs)\<rparr>"
  show ?thesis
  proof (cases "histSearchMode s \<and> q = histSearchQuery s")
    case True
    let ?ms = "histSearchMatches s" and ?next = "histSearchMatches ?u"
    let ?chosen = "if histSearchIndex s \<ge> 0 \<and> histSearchIndex s < int (length ?ms) then ?ms ! nat (histSearchIndex s) else []"
    let ?kept = "if ?chosen \<noteq> [] then index_of ?chosen ?next else None"
    define j where "j = (case ?kept of Some i \<Rightarrow> int i | None \<Rightarrow> if ?next \<noteq> [] then 0 else - 1)"
    have t: "?t = ?u\<lparr>histSearchIndex := j\<rparr>" using True unfolding histSearchResponse_def Let_def j_def by argo
    have j: "- 1 \<le> j \<and> j < int (length ?next)"
    proof (cases ?kept)
      case (Some k)
      then have "k < length ?next" using index_of_less by (metis option.distinct(1))
      then show ?thesis unfolding j_def Some by simp
    qed (simp add: j_def)
    have "histSearchMatches ?t = ?next" unfolding t by (rule matches_cong) simp_all
    moreover have "histSearchIndex ?t = j" "acDropdownOpen ?t = acDropdownOpen s" "text_ok ?t = text_ok s"
      "suspendReset ?t = suspendReset s" "nav_ok cap ?t = nav_ok cap s"
      unfolding t using nav_ok_cong [of "?u\<lparr>histSearchIndex := j\<rparr>" s cap] by (simp_all add: text_ok_def)
    ultimately show ?thesis using i j conjunct1 [OF True] by (simp add: inv_parts search_ok_def)
  next
    case False
    then show ?thesis using i by (auto simp: histSearchResponse_def)
  qed
qed

lemma inv_reset:
  assumes "text_ok s" "nav_ok cap s" "\<not> suspendReset s" "histSearchMode s \<or> search_ok s"
  shows "composer_inv cap (resetCmdHistoryNav env s)"
proof -
  have r: "text_ok (reset_nav s)" "nav_ok cap (reset_nav s)" "\<not> suspendReset (reset_nav s)"
    using assms(1-3) by (simp_all add: text_ok_def nav_ok_reset composer_frame)
  show ?thesis
  proof (cases "histSearchMode s")
    case True
    then show ?thesis using inv_exit_search [OF r] by (simp add: resetCmdHistoryNav_def Let_def composer_frame)
  next
    case False
    then have "search_ok (reset_nav s)" by (simp add: search_ok_def composer_frame)
    then show ?thesis using False r by (simp add: resetCmdHistoryNav_def Let_def composer_frame inv_parts)
  qed
qed

lemma inv_show_recalled:
  assumes "composer_inv0 cap s" "idle s"
  shows "composer_inv cap (show_recalled env v s)"
proof -
  have "composer_inv cap (setComposerValue env True False v (Some (length v)) (Some (length v)) (s\<lparr>suspendReset := True\<rparr>))"
    by (rule inv_setValue) (use assms in \<open>auto simp: inv0_flags idle_def isActiveTabRunning_def\<close>)
  moreover have "setComposerValue env True False v None None t = setComposerValue env True False v (Some (length v)) (Some (length v)) t" for t
    by (simp add: setComposerValue_def)
  ultimately show ?thesis by (simp add: show_recalled_def)
qed

lemma inv0_set_nav:
  assumes "composer_inv0 cap s" "- 1 \<le> i" "i < int (length (recall_list cap s))"
  shows "composer_inv0 cap (set_nav_index i s)" "composer_inv0 cap (set_nav_draft d s)"
proof -
  let ?t = "set_nav_index i s" and ?u = "set_nav_draft d s"
  have f: "composerValue ?t = composerValue s" "text_ok ?t = text_ok s" "text_ok ?u = text_ok s" "cmdHistory ?t = cmdHistory s" "cmdHistory ?u = cmdHistory s"
    by (simp_all add: set_nav_index_def set_nav_draft_def upd_tab_def text_ok_def split: option.splits)
  have "search_ok ?t" "search_ok ?u"
    using assms(1) by (auto simp: composer_inv0_def set_nav_index_def set_nav_draft_def upd_tab_def elim!: search_ok_cong [rotated -1] split: option.splits)
  moreover have "nav_index ?u = nav_index s" by (simp add: set_nav_draft_def nav_index_def upd_tab_def split: option.splits)
  ultimately show "composer_inv0 cap ?t" "composer_inv0 cap ?u"
    using assms f by (simp_all add: composer_inv0_def nav_ok_def composer_frame)
qed

lemma inv_navigate:
  assumes "composer_inv cap s" "idle s"
  shows "composer_inv cap (fst (navigateCmdHistory env cap d s))"
proof -
  let ?h = "recall_list cap s"
  have i: "composer_inv0 cap s" "- 1 \<le> nav_index s" "nav_index s < int (length ?h)"
    using assms(1) by (auto simp: composer_inv_def composer_inv0_def nav_ok_def)
  have to: "composer_inv cap (show_recalled env v (set_nav_index j s'))"
    if "composer_inv0 cap s'" "idle s'" "- 1 \<le> j" "j < int (length (recall_list cap s'))" for v j s'
    by (rule inv_show_recalled) (use that in \<open>simp_all add: inv0_set_nav composer_frame\<close>)
  have draft: "composer_inv0 cap (set_nav_draft v s)" "idle (set_nav_draft v s)" "recall_list cap (set_nav_draft v s) = ?h" for v
    using inv0_set_nav(2) [OF i] assms(2) by (simp_all add: composer_frame)
  have return: "composer_inv cap (resetCmdHistoryNav env (show_recalled env v s))" for v
    using inv_show_recalled [OF i(1) assms(2), of env v] inv_reset [of "show_recalled env v s"] unfolding inv_parts by blast
  show ?thesis
    unfolding navigateCmdHistory_def Let_def using i assms to [OF i(1) assms(2)] to [OF draft(1,2)] draft(3) return by auto
qed

section \<open>The recall lists\<close>

lemma limit_value: "0 < cap \<Longrightarrow> historyLimit (limit_config cap) 0 = cap"
  by (simp add: historyLimit_def limit_config_def jprop_def obj_get_def max_def)

lemma recall_list_tab:
  assumes "0 < cap" "activeTab s = Some t"
  shows "recall_list cap s = take cap (dedup (filter nonempty (commandHistory t) @ filter nonempty (cmdHistory s)))"
proof -
  have "map (\<lambda>c. str_or c []) (map JStr xs) = xs" for xs
    by (induction xs) (auto simp: str_or_def js_or_def)
  moreover have "recall_limit (JInt (int cap)) n = cap" for n
    using assms(1) by (simp add: recall_limit_def max_def)
  ultimately show ?thesis
    using assms by (simp add: recall_list_def limit_value commandRecallHistory_eq recall_pool_def jprop_def obj_get_def Let_def del: map_map)
qed

lemma dedup_append_prefix: "prefix (dedup xs) (dedup (xs @ ys))"
  by (simp add: dedup_def dedup_seen_append)

lemma prefix_take: "prefix xs ys \<Longrightarrow> prefix (take n xs) (take n ys)"
  by (auto simp: prefix_def)

lemma recall_list_extend:
  assumes "0 < cap" "activeTab u = activeTab s" "cmdHistory u = cmdHistory s @ ys"
  shows "prefix (recall_list cap s) (recall_list cap u)"
proof (cases "activeTab s")
  case None
  then show ?thesis using assms by (simp add: recall_list_def)
next
  case (Some t)
  then show ?thesis
    using assms dedup_append_prefix [of "filter nonempty (commandHistory t) @ filter nonempty (cmdHistory s)" "filter nonempty ys"]
    by (simp add: recall_list_tab prefix_take)
qed

lemma dedup_extend: "distinct xs \<Longrightarrow> length xs \<le> n \<Longrightarrow> \<exists>zs. take n (dedup (xs @ ys)) = xs @ zs"
  using dedup_append_prefix [of xs ys] by (auto simp: prefix_def js_norm)

lemma distinct_remember: "distinct h \<Longrightarrow> distinct (remember n c h)"
  by (simp add: remember_def)

lemma inv_addToHistory:
  assumes "composer_inv cap s" "0 < cap"
  shows "composer_inv cap (addToHistory env cap cmd s)"
proof -
  let ?t = "upd_tab (\<lambda>t. t\<lparr>commandHistory := remember cap cmd (commandHistory t)\<rparr>) (s\<lparr>cmdHistory := remember cap cmd (cmdHistory s)\<rparr>)"
  have r: "text_ok (reset_nav ?t)" "nav_ok cap (reset_nav ?t)" "\<not> suspendReset (reset_nav ?t)"
    using assms(1) distinct_remember [of "cmdHistory s"]
    by (simp_all add: inv_parts nav_ok_def text_ok_def composer_frame) (simp add: remember_def)
  have "composer_inv cap (resetCmdHistoryNav env ?t)"
  proof (cases "histSearchMode ?t")
    case True
    then show ?thesis using inv_exit_search [OF r] by (simp add: resetCmdHistoryNav_def Let_def composer_frame)
  next
    case False
    then show ?thesis using r by (simp add: resetCmdHistoryNav_def Let_def composer_frame inv_parts search_ok_def)
  qed
  then show ?thesis using assms(2) by (simp add: addToHistory_def Let_def limit_value)
qed

lemma length_matches_mono:
  assumes "cmdHistory t = cmdHistory s @ ys" "histSearchQuery t = histSearchQuery s" "histSearchRuns t = histSearchRuns s"
  shows "length (histSearchMatches s) \<le> length (histSearchMatches t)"
proof -
  let ?f = "filter (query_matches (histSearchQuery s))"
  let ?r = "case histSearchRuns s of None \<Rightarrow> [] | Some runs \<Rightarrow> ?f runs"
  have "card (set (?f (cmdHistory s) @ ?r)) \<le> card (set (?f (cmdHistory s @ ys) @ ?r))"
    by (rule card_mono [OF finite_set]) (simp, blast)
  then have "length (dedup (?f (cmdHistory s) @ ?r)) \<le> length (dedup (?f (cmdHistory s @ ys) @ ?r))"
    by (simp only: card_dedup)
  then show ?thesis
    unfolding histSearchMatches_def Let_def assms length_take by (auto simp del: filter_append set_append)
qed

lemma hydrate_merge:
  assumes "nav_ok cap s" "0 < cap"
  obtains ys where "cmdHistory (hydrateCmdHistory env cap runs True s) = cmdHistory s @ ys"
  using dedup_extend [of "cmdHistory s" cap] assms by (fastforce simp: hydrateCmdHistory_def Let_def nav_ok_def)

lemma inv_hydrate:
  assumes "composer_inv cap s" "0 < cap"
  shows "composer_inv cap (hydrateCmdHistory env cap runs m s)"
proof (cases m)
  case True
  let ?t = "hydrateCmdHistory env cap runs True s"
  obtain ys where c: "cmdHistory ?t = cmdHistory s @ ys" using hydrate_merge assms by (metis inv_parts)
  have f: "activeTab ?t = activeTab s" "nav_index ?t = nav_index s" "histSearchQuery ?t = histSearchQuery s"
    "histSearchRuns ?t = histSearchRuns s" "histSearchMode ?t = histSearchMode s" "histSearchIndex ?t = histSearchIndex s"
    "acDropdownOpen ?t = acDropdownOpen s" "suspendReset ?t = suspendReset s" "text_ok ?t = text_ok s"
    "distinct (cmdHistory ?t)" "length (cmdHistory ?t) \<le> cap"
    by (simp_all add: hydrateCmdHistory_def Let_def nav_index_def text_ok_def split: option.splits)
  have "length (recall_list cap s) \<le> length (recall_list cap ?t)"
    by (rule prefix_length_le [OF recall_list_extend [OF assms(2) f(1) c]])
  then show ?thesis using True assms(1) f length_matches_mono [OF c f(3,4)] by (auto simp: inv_parts nav_ok_def search_ok_def)
next
  case False
  let ?u = "s\<lparr>cmdHistory := take cap (dedup (run_commands runs)), recentPreviewHistory := take cap (dedup (run_commands runs))\<rparr>"
  have r: "text_ok (reset_nav ?u)" "nav_ok cap (reset_nav ?u)" "\<not> suspendReset (reset_nav ?u)"
    using assms(1) by (simp_all add: inv_parts nav_ok_def text_ok_def composer_frame)
  have "composer_inv cap (resetCmdHistoryNav env ?u)"
    using inv_exit_search [OF r] r by (simp add: resetCmdHistoryNav_def Let_def composer_frame inv_parts search_ok_def)
  then show ?thesis using False by (simp add: hydrateCmdHistory_def Let_def)
qed

section \<open>Every event keeps the invariant\<close>

lemma inv_search_key: "composer_inv cap s \<Longrightarrow> composer_inv cap (fst (handleHistSearchKey env e s))"
proof -
  assume i: "composer_inv cap s"
  then have "composer_inv cap (exitHistSearch env accept keep s)" if "histSearchMode s" for accept keep
    using inv_exit_search [OF _ _ _ that] unfolding inv_parts by blast
  then show ?thesis using i by (auto simp: handleHistSearchKey_def inv_move)
qed

lemma inv_enter_key: "composer_inv cap s \<Longrightarrow> \<not> histSearchMode s \<Longrightarrow> composer_inv cap (enter_key env s)"
  unfolding enter_key_def Let_def
  by (intro inv_if inv_accept inv_clear inv_flags inv_acHide) (simp_all add: composer_frame)

lemma inv_tab_key: "composer_inv cap s \<Longrightarrow> \<not> histSearchMode s \<Longrightarrow> composer_inv cap (tab_key env e s)"
  unfolding tab_key_def Let_def
  by (intro inv_if inv_accept inv_acHide) (auto intro: inv_show inv_flags inv_expand split: option.splits)

lemma inv_arrow_key:
  assumes "composer_inv cap s" "idle s"
  shows "composer_inv cap (arrow_key env cap d s)"
proof -
  have "composer_inv cap (acShow env xs (s\<lparr>acIndex := i\<rparr>))" for xs i
    using assms by (intro inv_show inv_flags) (simp_all add: idle_def)
  then show ?thesis
    using assms inv_navigate [OF assms, of env d] by (auto simp: arrow_key_def inv_acHide split: prod.splits)
qed

lemma search_key_done: "handleHistSearchKey env e s = (t, False) \<Longrightarrow> t = s"
  by (auto simp: handleHistSearchKey_def split: if_splits)

lemma search_keys_taken:
  assumes "handleHistSearchKey env e s = (s, False)"
  shows "histSearchMode s \<Longrightarrow> ev_key e \<noteq> ''Enter'' \<and> ev_key e \<noteq> ''ArrowDown'' \<and> ev_key e \<noteq> ''ArrowUp''
    \<and> \<not> (ev_key e = ''Tab'' \<and> \<not> altKey e \<and> \<not> ctrlKey e \<and> \<not> metaKey e)"
  using assms by (auto simp: handleHistSearchKey_def split: if_splits)

lemma inv_keydown:
  assumes "composer_inv cap s"
  shows "composer_inv cap (keydown env cap e s)"
proof -
  obtain t h where key: "handleHistSearchKey env e s = (t, h)" by fastforce
  have t: "composer_inv cap t" using inv_search_key [OF assms, of env e] by (simp add: key)
  consider "overlayOpen env" | "\<not> overlayOpen env" "h" | "\<not> overlayOpen env" "\<not> h" by blast
  then show ?thesis
  proof cases
    case 1
    then show ?thesis unfolding keydown_def using assms by (simp only: if_True)
  next
    case 2
    then show ?thesis unfolding keydown_def key using t by (simp only: if_False prod.case bool.case)
  next
    case 3
    then have key': "handleHistSearchKey env e s = (s, False)" using key search_key_done by auto
    note taken = search_keys_taken [OF key']
    note sel = selection_valid [OF assms] and sel1 = conjunct1 [OF selection_valid [OF assms]]
    have left: "findWordBoundaryLeft (composerValue s) (selectionStart s) \<le> length (composerValue s)"
      using boundary_left(1) [of "selectionStart s" "composerValue s"] sel by linarith
    show ?thesis
      using 3 taken sel left assms
      unfolding keydown_def key' prod.case bool.case Let_def sel1 fst_conv
      by (intro inv_if inv_prod inv_acHide inv_enter_search inv_clear inv_delete_keys inv_sync inv_enter_key inv_tab_key
          inv_arrow_key inv_replace) (simp_all add: idle_def, blast+)
  qed
qed

lemma inv_step:
  assumes "composer_inv cap s" "composer_enabled (env, ev) s" "0 < cap"
  shows "composer_inv cap (composer_step cap (env, ev) s)"
proof (cases ev)
  case (Paste w)
  then show ?thesis using assms(1) selection_valid [OF assms(1)] inv_replace by (simp add: paste_def)
next
  case (NativeEdit v a b)
  let ?t = "s\<lparr>domValue := v, domStart := a, domEnd := b\<rparr>"
  have "composer_inv0 cap ?t"
    by (rule inv0_texts [of cap s]) (use assms NativeEdit in \<open>auto simp: composer_inv_def composer_inv0_def text_ok_def\<close>)
  then show ?thesis using NativeEdit assms(1) inv_input [of cap ?t] by (simp add: composer_inv_def)
next
  case (NativeSelect a b)
  let ?t = "s\<lparr>domStart := a, domEnd := b\<rparr>"
  have "composer_inv0 cap ?t"
    by (rule inv0_texts [of cap s]) (use assms NativeSelect in \<open>auto simp: composer_inv_def composer_inv0_def text_ok_def\<close>)
  then show ?thesis using NativeSelect assms(1) by (simp add: composer_inv_def)
next
  case (ClickSuggestion i)
  then have "\<not> histSearchMode s" using assms by (auto simp: inv_parts search_ok_def)
  then show ?thesis using ClickSuggestion assms(1) inv_accept by simp
next
  case (ClickMatch i)
  let ?t = "s\<lparr>histSearchIndex := int i\<rparr>"
  have "text_ok ?t" "nav_ok cap ?t" "\<not> suspendReset ?t" "histSearchMode ?t"
    using assms ClickMatch nav_ok_cong [of ?t s cap] by (simp_all add: inv_parts text_ok_def)
  from inv_exit_search [OF this] show ?thesis using ClickMatch by simp
next
  case (SetRunning r)
  then show ?thesis using assms(1)
    by (simp add: inv_parts nav_ok_upd_tab text_ok_def composer_frame) (auto elim!: search_ok_cong [rotated -1] simp: composer_frame)
qed (use assms in \<open>simp_all add: inv_keydown inv_sync inv_caret inv_search_answer inv_addToHistory inv_hydrate\<close>)

interpretation prompt_line: machine composer_enabled "composer_step (Suc n)" "composer_inv (Suc n)" for n
proof
  fix s a
  assume "composer_inv (Suc n) s" "composer_enabled a s"
  then show "composer_inv (Suc n) (composer_step (Suc n) a s)" by (cases a) (simp add: inv_step)
qed

definition composer_reachable :: "nat \<Rightarrow> composer \<Rightarrow> bool" where
  "composer_reachable cap s \<longleftrightarrow> (\<exists>tab evs. run_all composer_enabled (composer_step cap) evs (fresh_composer tab) = Some s)"

lemma fresh_inv: "0 < cap \<Longrightarrow> composer_inv cap (fresh_composer tab)"
  by (cases tab) (simp_all add: inv_parts text_ok_def nav_ok_def search_ok_def nav_index_def fresh_composer_def fresh_tab_def)

lemma composer_reachable_inv: "composer_reachable (Suc n) s \<Longrightarrow> composer_inv (Suc n) s"
  using prompt_line.run_holds [OF fresh_inv] unfolding composer_reachable_def by blast


text \<open>
  \<^bold>\<open>C19.\<close> Commands that arrive from the server while the prompt is in use disturb nothing: in every state that
  can be reached, merging them leaves the text, the draft and the position of the recall as they are,
  and the commands that could be recalled before keep their places, so the next press of a key goes on from
  the command that is shown.
\<close>

theorem startup_recall_undisturbed:
  assumes "0 < cap" "composer_reachable cap s"
  shows "let t = hydrateCmdHistory env cap runs True s in
    composerValue t = composerValue s \<and> domValue t = domValue s \<and> nav_draft t = nav_draft s \<and> nav_index t = nav_index s
    \<and> prefix (recall_list cap s) (recall_list cap t)"
proof -
  let ?t = "hydrateCmdHistory env cap runs True s"
  have "nav_ok cap s" using assms composer_reachable_inv by (cases cap) (auto simp: inv_parts)
  then obtain ys where "cmdHistory ?t = cmdHistory s @ ys" using hydrate_merge assms(1) by blast
  moreover have "activeTab ?t = activeTab s" "composerValue ?t = composerValue s" "domValue ?t = domValue s"
    "cmdHistoryNavIndex ?t = cmdHistoryNavIndex s" "cmdHistoryNavDraft ?t = cmdHistoryNavDraft s"
    by (simp_all add: hydrateCmdHistory_def Let_def)
  ultimately show ?thesis
    using recall_list_extend [OF assms(1), of ?t s] by (simp add: Let_def nav_draft_def nav_index_def split: option.splits)
qed

section \<open>Witnesses\<close>

text \<open>A prompt with two recalled commands and a line being typed, on a page without suggestions.\<close>

definition quiet_page :: page_env where
  "quiet_page = \<lparr>overlayOpen = False, terminalConfirm = False, welcomeOwnsPrompt = False,
     getMatches = (\<lambda>v i. []), acceptsLine = (\<lambda>v. True)\<rparr>"

definition typing :: composer where
  "typing = (fresh_composer True)\<lparr>cmdHistory := [''ping a'', ''dig b''], composerValue := ''ls x'', domValue := ''ls x'',
     selectionStart := 4, selectionEnd := 4, domStart := 4, domEnd := 4\<rparr>"

theorem editing_keys_refine_line_witness:
  "line_of (fold (\<lambda>op. keydown quiet_page 50 (edit_key op)) [KillWord, Insert CHR ''a''] typing) = (''ls a'', [], [])"
proof -
  have p: "idle typing" "synced typing" "\<not> overlayOpen quiet_page" "\<not> welcomeOwnsPrompt quiet_page"
    by code_simp+
  have "fold edit_line [KillWord, Insert CHR ''a''] (line_of typing) = (''ls a'', [], [])" by code_simp
  then show ?thesis using editing_keys_refine_line [OF p, of 50 "[KillWord, Insert CHR ''a'']"] by simp
qed


text \<open>Two commands run, a line typed, the first command recalled; and a search for it.\<close>

definition recall_events :: "(page_env \<times> composer_event) list" where
  "recall_events = map (Pair quiet_page)
     [AddHistory ''dig b'', AddHistory ''ping a'', KeyDown (plain_key ''x''), KeyDown (plain_key ''ArrowUp'')]"

definition search_events :: "(page_env \<times> composer_event) list" where
  "search_events = map (Pair quiet_page)
     [AddHistory ''dig b'', AddHistory ''ping a'', KeyDown ((plain_key ''r'')\<lparr>ctrlKey := True\<rparr>), KeyDown (plain_key ''G''),
      SearchAnswer ''G'' [''dig c''], KeyDown (plain_key ''ArrowUp'')]"


theorem startup_recall_undisturbed_witness:
  "case run_all composer_enabled (composer_step 50) recall_events (fresh_composer True) of None \<Rightarrow> False
   | Some s \<Rightarrow> nav_index s = 0
       \<and> prefix (recall_list 50 s) (recall_list 50 (hydrateCmdHistory quiet_page 50 (JArr [JObj [(''command'', JStr ''whois d'')]]) True s))"
proof -
  have run: "case run_all composer_enabled (composer_step 50) recall_events (fresh_composer True) of None \<Rightarrow> False
    | Some s \<Rightarrow> nav_index s = 0"
    by code_simp
  then obtain s where s: "run_all composer_enabled (composer_step 50) recall_events (fresh_composer True) = Some s"
    by (auto split: option.splits)
  then have "composer_reachable 50 s" unfolding composer_reachable_def by blast
  then show ?thesis
    using run s startup_recall_undisturbed [of 50 s quiet_page "JArr [JObj [(''command'', JStr ''whois d'')]]"] by (simp add: Let_def)
qed

end
