(* ===== verification/Tabs.thy ===== *)
theory Tabs
  imports Composer_Props Output_Core
begin

text \<open>
  The tabs of the terminal: \<open>tabs.js\<close> (creating, activating, labelling, clearing, renaming and
  reordering tabs), \<open>features/tabs/tab_close_lifecycle.js\<close> (closing them, with the confirmation for a
  running tab), \<open>features/tabs/tab_drag_reorder.js\<close> (what a drag does to the tab bar), the shortcuts of
  \<open>app.js\<close> that act on tabs and the part of \<open>runner.js\<close> that kills the run of a tab.

  A tab is the object the code keeps in \<open>APP_STATE.tabs\<close>; the tab bar is the list of its nodes, kept
  apart from the tabs because a drag moves nodes and the list is brought into line afterwards. The
  prompt is the composer of \<open>Composer\<close>, which sees the active tab through its recall fields. The
  layout is the desktop one. What is drawn (panels, labels on the screen, scroll buttons, the status
  pill, the place of the prompt), the welcome animation, counters of the output renderer
  (\<open>_outputFollowToken\<close>, \<open>_outputLineCounter\<close>, \<open>outputUserScrollUntil\<close>, signal counts) and emitted
  events are left out.
\<close>

section \<open>State\<close>

text \<open>The pending label timer of a tab holds the command it was started for. Fields that hold a
  string, a number or \<open>null\<close> are JavaScript values.\<close>

record tab =
  tab_id :: string
  tab_label :: string
  tab_runningLabel :: string
  tab_runningLabelTimer :: "string option"
  tab_command :: string
  tab_runId :: jsval
  tab_historyRunId :: jsval
  tab_historyRunKind :: string
  tab_lastEventId :: string
  tab_attachMode :: string
  tab_reconnectedRun :: bool
  tab_runStart :: jsval
  tab_currentRunStartIndex :: jsval
  tab_exitCode :: jsval
  tab_commandOutcomeSummary :: jsval
  tab_rawLines :: "jsval list"
  tab_previewTruncated :: bool
  tab_fullOutputAvailable :: bool
  tab_fullOutputLoaded :: bool
  tab_followOutput :: bool
  tab_suppressOutputScrollTracking :: bool
  tab_deferPromptMount :: bool
  tab_closing :: bool
  tab_killed :: bool
  tab_pendingKill :: bool
  tab_st :: string
  tab_renamed :: bool
  tab_workspaceCwd :: string
  tab_draftInput :: string
  tab_commandHistory :: "string list"
  tab_historyNavIndex :: int
  tab_historyNavDraft :: string

text \<open>The page: the tabs and the active one, the number of the last tab created, the nodes of the tab
  bar (\<^const>\<open>None\<close> is the new-tab button), the tab being dragged and whether it moved, the prompt, the
  closings that wait for an answer (with the index the question was opened for and whether keeping the
  run is offered), the kill
  requests sent, and whether a saved session is being restored.\<close>

record tabs_page =
  tabs :: "tab list"
  activeTabId :: "string option"
  tabSeq :: nat
  tabBar :: "string option list"
  dragState :: "(string \<times> bool) option"
  prompt :: composer
  closeConfirms :: "(string \<times> int \<times> bool) list"
  killsSent :: "(string \<times> string) list"
  restoreInProgress :: bool

definition running :: "tab \<Rightarrow> bool" where
  "running t \<longleftrightarrow> tab_st t = ''running''"

definition tab_ids :: "tabs_page \<Rightarrow> string list" where
  "tab_ids p = map tab_id (tabs p)"

text \<open>\<open>getTab\<close> and \<open>getActiveTab\<close> of \<open>core/state.js\<close>, \<open>findIndex\<close> with its \<open>-1\<close>, reading an array outside
  its bounds, and assigning fields of a tab.\<close>

definition getTab :: "string \<Rightarrow> tabs_page \<Rightarrow> tab option" where
  "getTab i p = find (\<lambda>t. tab_id t = i) (tabs p)"

definition getActiveTab :: "tabs_page \<Rightarrow> tab option" where
  "getActiveTab p = (case activeTabId p of None \<Rightarrow> None | Some i \<Rightarrow> getTab i p)"

definition tab_index :: "string \<Rightarrow> tabs_page \<Rightarrow> int" where
  "tab_index i p = (case index_of i (tab_ids p) of Some n \<Rightarrow> int n | None \<Rightarrow> - 1)"

definition tab_at :: "int \<Rightarrow> tabs_page \<Rightarrow> tab option" where
  "tab_at i p = (if 0 \<le> i \<and> nat i < length (tabs p) then Some (tabs p ! nat i) else None)"

definition upd :: "string \<Rightarrow> (tab \<Rightarrow> tab) \<Rightarrow> tabs_page \<Rightarrow> tabs_page" where
  "upd i f p = p\<lparr>tabs := map (\<lambda>t. if tab_id t = i then f t else t) (tabs p)\<rparr>"

text \<open>A call of a function of the prompt: it sees the active tab, and what it writes to the recall
  fields is written to that tab.\<close>

definition nav_of :: "tab \<Rightarrow> nav_tab" where
  "nav_of t = \<lparr>commandHistory = tab_commandHistory t, historyNavIndex = tab_historyNavIndex t,
     historyNavDraft = tab_historyNavDraft t, draftInput = tab_draftInput t, st_running = running t\<rparr>"

definition put_nav :: "nav_tab \<Rightarrow> tab \<Rightarrow> tab" where
  "put_nav n t = t\<lparr>tab_commandHistory := commandHistory n, tab_historyNavIndex := historyNavIndex n,
     tab_historyNavDraft := historyNavDraft n, tab_draftInput := draftInput n\<rparr>"

definition prompt_view :: "tabs_page \<Rightarrow> composer" where
  "prompt_view p = (prompt p)\<lparr>activeTab := map_option nav_of (getActiveTab p)\<rparr>"

definition with_prompt :: "(composer \<Rightarrow> composer) \<Rightarrow> tabs_page \<Rightarrow> tabs_page" where
  "with_prompt f p =
     (let c = f (prompt_view p); q = p\<lparr>prompt := c\<rparr> in
      case (activeTabId p, activeTab c) of (Some i, Some n) \<Rightarrow> upd i (put_nav n) q | _ \<Rightarrow> q)"

section \<open>Labels\<close>

text \<open>The number of a label that matches \<open>/^shell\s+(\d+)$/i\<close>.\<close>

definition shell_number :: "string \<Rightarrow> nat option" where
  "shell_number label =
     (let t = trim label; rest = drop 5 t; ds = dropWhile is_ws rest in
      if toLowerCase (take 5 t) = ''shell'' \<and> rest \<noteq> [] \<and> is_ws (hd rest) \<and> ds \<noteq> [] \<and> list_all is_digit ds
      then Some (digits_value 0 ds) else None)"

definition nextDefaultTabNumber :: "tabs_page \<Rightarrow> nat" where
  "nextDefaultTabNumber p =
     (let numbers = List.map_filter shell_number (map tab_label (tabs p)) in
      if numbers = [] then 1 else Max (set numbers) + 1)"

text \<open>\<^const>\<open>None\<close> is a missing index.\<close>

definition createDefaultTabLabel :: "nat option \<Rightarrow> tabs_page \<Rightarrow> string" where
  "createDefaultTabLabel index p =
     ''shell '' @ nat_str (max 1 (case index of Some n \<Rightarrow> n | None \<Rightarrow> nextDefaultTabNumber p))"

definition tabDisplayLabel :: "tab \<Rightarrow> string" where
  "tabDisplayLabel t =
     (if running t \<and> tab_runningLabel t \<noteq> [] then tab_runningLabel t else tab_label t)"

definition setTabLabel :: "string \<Rightarrow> string \<Rightarrow> tabs_page \<Rightarrow> tabs_page" where
  "setTabLabel i label p = upd i (\<lambda>t. t\<lparr>tab_label := label\<rparr>) p"

text \<open>The end of \<open>startTabRename\<close>: \<open>commit\<close> with the text of the field, and \<open>cancel\<close>. The original label is
  the one the tab had when the renaming began.\<close>

definition commitRename :: "string \<Rightarrow> string \<Rightarrow> string \<Rightarrow> tabs_page \<Rightarrow> tabs_page" where
  "commitRename i original value p =
     upd i (\<lambda>t. t\<lparr>tab_renamed := True\<rparr>) (setTabLabel i (str_default (trim value) original) p)"

definition cancelRename :: "string \<Rightarrow> string \<Rightarrow> tabs_page \<Rightarrow> tabs_page" where
  "cancelRename i original p = setTabLabel i original p"

definition clearRunningLabelTimer :: "tab \<Rightarrow> tab" where
  "clearRunningLabelTimer t = t\<lparr>tab_runningLabelTimer := None\<rparr>"

definition setTabRunningCommand :: "string \<Rightarrow> string \<Rightarrow> tabs_page \<Rightarrow> tabs_page" where
  "setTabRunningCommand i command p =
     (let next = trim command in
      if next = [] then p
      else upd i (\<lambda>t. t\<lparr>tab_command := next, tab_runningLabel := [], tab_runningLabelTimer := Some next\<rparr>) p)"

text \<open>The timer of half a second fires.\<close>

definition runningLabelTimerFires :: "string \<Rightarrow> tabs_page \<Rightarrow> tabs_page" where
  "runningLabelTimerFires i p = upd i (\<lambda>t. case tab_runningLabelTimer t of
       None \<Rightarrow> t
     | Some next \<Rightarrow>
         (let t = t\<lparr>tab_runningLabelTimer := None\<rparr> in
          if \<not> running t \<or> tab_command t \<noteq> next then t else t\<lparr>tab_runningLabel := next\<rparr>)) p"

section \<open>Status, activation and creation\<close>

definition setTabStatus :: "string \<Rightarrow> string \<Rightarrow> tabs_page \<Rightarrow> tabs_page" where
  "setTabStatus i st p = upd i (\<lambda>t.
     let t = t\<lparr>tab_st := st\<rparr> in
     if st \<noteq> ''running'' then (clearRunningLabelTimer t)\<lparr>tab_runningLabel := []\<rparr> else t) p"

text \<open>The draft of the tab that is left: \<open>getComposerValue() || input.value\<close>.\<close>

definition flush_draft :: "string option \<Rightarrow> string \<Rightarrow> tabs_page \<Rightarrow> tabs_page" where
  "flush_draft prev i p =
     (case prev of
        None \<Rightarrow> p
      | Some j \<Rightarrow>
          if restoreInProgress p \<or> j = i then p
          else let v = str_default (composerValue (prompt p)) (domValue (prompt p)) in
            upd j (\<lambda>t. t\<lparr>tab_draftInput := (if running t then [] else v)\<rparr>) p)"

definition shown_draft :: "string option \<Rightarrow> string \<Rightarrow> tabs_page \<Rightarrow> string" where
  "shown_draft prev i p =
     (let draft = (case getTab i p of Some t \<Rightarrow> if running t then [] else tab_draftInput t | None \<Rightarrow> []);
          live = composerValue (prompt p)
      in if prev = None \<and> draft = [] \<and> trim live \<noteq> [] then live else draft)"

definition activateTab :: "page_env \<Rightarrow> string \<Rightarrow> tabs_page \<Rightarrow> tabs_page" where
  "activateTab env i p =
     (let p = (if histSearchMode (prompt p) then with_prompt (exitHistSearch env False False) p else p);
          prev = activeTabId p;
          p = flush_draft prev i p;
          p = p\<lparr>activeTabId := Some i\<rparr>;
          p = with_prompt acHide p;
          draft = shown_draft prev i p;
          n = length draft;
          p = with_prompt (setComposerValue env False False draft (Some n) (Some n)) p
      in with_prompt (resetCmdHistoryNav env) p)"

definition new_tab :: "string \<Rightarrow> string \<Rightarrow> tab" where
  "new_tab i label =
     \<lparr>tab_id = i, tab_label = label, tab_runningLabel = [], tab_runningLabelTimer = None, tab_command = [],
      tab_runId = JNull, tab_historyRunId = JNull, tab_historyRunKind = [], tab_lastEventId = [],
      tab_attachMode = [], tab_reconnectedRun = False, tab_runStart = JNull, tab_currentRunStartIndex = JNull,
      tab_exitCode = JNull, tab_commandOutcomeSummary = JNull, tab_rawLines = [], tab_previewTruncated = False,
      tab_fullOutputAvailable = False, tab_fullOutputLoaded = False, tab_followOutput = True,
      tab_suppressOutputScrollTracking = False, tab_deferPromptMount = False, tab_closing = False,
      tab_killed = False, tab_pendingKill = False, tab_st = ''idle'', tab_renamed = False, tab_workspaceCwd = [],
      tab_draftInput = [], tab_commandHistory = [], tab_historyNavIndex = - 1, tab_historyNavDraft = []\<rparr>"

text \<open>\<open>bar.insertBefore(node, ref)\<close>; a reference that is not there appends.\<close>

fun insert_before :: "'a \<Rightarrow> 'a \<Rightarrow> 'a list \<Rightarrow> 'a list" where
  "insert_before x y [] = [x]"
| "insert_before x y (z # zs) = (if z = y then x # z # zs else z # insert_before x y zs)"

fun insert_after :: "'a \<Rightarrow> 'a \<Rightarrow> 'a list \<Rightarrow> 'a list" where
  "insert_after x y [] = [x]"
| "insert_after x y (z # zs) = (if z = y then z # x # zs else z # insert_after x y zs)"

text \<open>\<open>createTab(label)\<close> under the limit \<open>max_tabs\<close> of the configuration (0 is no limit), with the
  identifier it returns.\<close>

definition tab_name :: "nat \<Rightarrow> string" where
  "tab_name n = ''tab-'' @ nat_str n"

definition at_limit :: "nat \<Rightarrow> tabs_page \<Rightarrow> bool" where
  "at_limit maxTabs p \<longleftrightarrow> maxTabs > 0 \<and> length (tabs p) \<ge> maxTabs"

definition createTab :: "page_env \<Rightarrow> nat \<Rightarrow> string \<Rightarrow> tabs_page \<Rightarrow> tabs_page \<times> string option" where
  "createTab env maxTabs label p =
     (if at_limit maxTabs p then (p, None)
      else let n = Suc (tabSeq p); i = tab_name n;
               stableLabel = str_default label (createDefaultTabLabel None p);
               p = p\<lparr>tabSeq := n, tabBar := insert_before (Some i) None (tabBar p), tabs := tabs p @ [new_tab i stableLabel]\<rparr>
           in (activateTab env i p, Some i))"

text \<open>The shortcuts of \<open>app.js\<close>.\<close>

definition createShortcutTab :: "page_env \<Rightarrow> nat \<Rightarrow> tabs_page \<Rightarrow> tabs_page" where
  "createShortcutTab env maxTabs p = fst (createTab env maxTabs (createDefaultTabLabel None p) p)"

definition activateRelativeTab :: "page_env \<Rightarrow> int \<Rightarrow> tabs_page \<Rightarrow> tabs_page" where
  "activateRelativeTab env offset p =
     (if tabs p = [] then p
      else let n = int (length (tabs p));
               current = (case activeTabId p of Some i \<Rightarrow> tab_index i p | None \<Rightarrow> - 1);
               base = (if current \<ge> 0 then current else 0)
           in case tab_at ((base + offset + n) mod n) p of
                Some t \<Rightarrow> activateTab env (tab_id t) p
              | None \<Rightarrow> p)"

section \<open>Clearing\<close>

definition clear_fields :: "bool \<Rightarrow> tab \<Rightarrow> tab" where
  "clear_fields preserveRunState t =
     (let wasRunning = running t;
          t = t\<lparr>tab_suppressOutputScrollTracking := False, tab_deferPromptMount := False, tab_rawLines := [],
                tab_commandOutcomeSummary := JNull, tab_followOutput := True, tab_closing := False\<rparr>
      in if \<not> preserveRunState \<or> \<not> wasRunning
         then (clearRunningLabelTimer (t\<lparr>tab_runStart := JNull, tab_currentRunStartIndex := JNull,
                 tab_previewTruncated := False, tab_fullOutputAvailable := False, tab_fullOutputLoaded := False,
                 tab_historyRunId := JNull, tab_historyRunKind := [], tab_reconnectedRun := False\<rparr>))\<lparr>tab_runningLabel := []\<rparr>
         else t)"

definition clearTab :: "page_env \<Rightarrow> bool \<Rightarrow> string \<Rightarrow> tabs_page \<Rightarrow> tabs_page" where
  "clearTab env preserveRunState i p =
     (let wasRunning = (case getTab i p of Some t \<Rightarrow> running t | None \<Rightarrow> False);
          p = upd i (clear_fields preserveRunState) p
      in if \<not> preserveRunState \<or> \<not> wasRunning
         then let p = (if activeTabId p = Some i
                       then with_prompt (setComposerValue env True False [] (Some 0) (Some 0)) p else p)
              in setTabStatus i ''idle'' p
         else p)"

section \<open>Closing\<close>

definition resetPreservedSingleTabState :: "tab \<Rightarrow> tab" where
  "resetPreservedSingleTabState t =
     (clearRunningLabelTimer (t\<lparr>tab_command := [], tab_runId := JNull, tab_historyRunId := JNull,
        tab_historyRunKind := [], tab_lastEventId := [], tab_attachMode := [], tab_reconnectedRun := False,
        tab_runStart := JNull, tab_currentRunStartIndex := JNull, tab_exitCode := JNull,
        tab_previewTruncated := False, tab_fullOutputAvailable := False, tab_fullOutputLoaded := False,
        tab_followOutput := True, tab_suppressOutputScrollTracking := False, tab_deferPromptMount := False,
        tab_closing := False, tab_killed := False, tab_pendingKill := False, tab_renamed := False,
        tab_workspaceCwd := [], tab_draftInput := [], tab_commandHistory := [], tab_historyNavIndex := - 1,
        tab_historyNavDraft := []\<rparr>))\<lparr>tab_runningLabel := []\<rparr>"

text \<open>What closing the last tab does instead of removing it: \<open>i\<close> is the identifier closed, the tab reset
  is the only one there is.\<close>

definition reset_last_tab :: "page_env \<Rightarrow> string \<Rightarrow> tabs_page \<Rightarrow> tabs_page" where
  "reset_last_tab env i p =
     setTabLabel i (createDefaultTabLabel (Some 1) p)
       (clearTab env False i (p\<lparr>tabs := map resetPreservedSingleTabState (tabs p)\<rparr>))"

definition getNeighborTabIdAfterClose :: "int \<Rightarrow> string \<Rightarrow> tabs_page \<Rightarrow> string option" where
  "getNeighborTabIdAfterClose idx closingId p =
     (case filter (\<lambda>t. tab_id t \<noteq> closingId) (List.map_filter (\<lambda>i. tab_at i p) [idx + 1, idx - 1]) of
        t # _ \<Rightarrow> Some (tab_id t)
      | [] \<Rightarrow> map_option tab_id (find (\<lambda>t. tab_id t \<noteq> closingId) (tabs p)))"

definition activate_opt :: "page_env \<Rightarrow> string option \<Rightarrow> tabs_page \<Rightarrow> tabs_page" where
  "activate_opt env next p = (case next of Some j \<Rightarrow> activateTab env j p | None \<Rightarrow> p)"

definition activateNeighborAfterClose :: "page_env \<Rightarrow> int \<Rightarrow> string \<Rightarrow> tabs_page \<Rightarrow> tabs_page" where
  "activateNeighborAfterClose env idx i p =
     (if activeTabId p \<noteq> Some i then p
      else activate_opt env (getNeighborTabIdAfterClose (min idx (int (length (tabs p)))) i p) p)"

text \<open>\<open>list.splice(idx, 1)\<close>: a negative index counts from the end.\<close>

definition splice_out :: "int \<Rightarrow> 'a list \<Rightarrow> 'a list" where
  "splice_out idx xs =
     (let n = nat (if idx < 0 then max 0 (int (length xs) + idx) else idx) in take n xs @ drop (Suc n) xs)"

definition drop_view :: "string \<Rightarrow> int \<Rightarrow> tabs_page \<Rightarrow> tabs_page" where
  "drop_view i idx p =
     p\<lparr>tabs := splice_out idx (tabs p), tabBar := filter (\<lambda>n. n \<noteq> Some i) (tabBar p)\<rparr>"

definition removeClosedTabView :: "page_env \<Rightarrow> string \<Rightarrow> int \<Rightarrow> tabs_page \<Rightarrow> tabs_page" where
  "removeClosedTabView env i idx p = activateNeighborAfterClose env idx i (drop_view i idx p)"

definition detachRunningTabAndClose :: "page_env \<Rightarrow> string \<Rightarrow> tabs_page \<Rightarrow> tabs_page" where
  "detachRunningTabAndClose env i p =
     (let idx = tab_index i p in
      case tab_at idx p of
        None \<Rightarrow> p
      | Some t \<Rightarrow>
          if \<not> running t then p
          else let p = upd i (\<lambda>t. t\<lparr>tab_closing := False\<rparr>) p in
            if length (tabs p) = 1 then reset_last_tab env i p else removeClosedTabView env i idx p)"

text \<open>\<open>_markTabKilledByUser\<close> and \<open>doKill\<close> of \<open>runner.js\<close>: a run with a known identifier gets a kill
  request, any other is marked at once and killed when its identifier arrives. The answer to the
  request comes later.\<close>

definition markTabKilledByUser :: "string \<Rightarrow> tabs_page \<Rightarrow> tabs_page" where
  "markTabKilledByUser i p =
     setTabStatus i ''killed''
       (upd i (\<lambda>t. t\<lparr>tab_killed := True, tab_reconnectedRun := False, tab_lastEventId := [], tab_attachMode := []\<rparr>) p)"

definition doKill :: "string \<Rightarrow> tabs_page \<Rightarrow> tabs_page" where
  "doKill i p = (case getTab i p of
       None \<Rightarrow> p
     | Some t \<Rightarrow>
         if \<not> running t then p
         else if truthy (tab_runId t) then p\<lparr>killsSent := killsSent p @ [(to_str (tab_runId t), i)]\<rparr>
         else markTabKilledByUser i (upd i (\<lambda>t. t\<lparr>tab_pendingKill := True\<rparr>) p))"

definition killAccepted :: "string \<Rightarrow> tabs_page \<Rightarrow> tabs_page" where
  "killAccepted i p = markTabKilledByUser i (upd i (\<lambda>t. t\<lparr>tab_runId := JNull\<rparr>) p)"

definition handleKillRequestDenied :: "string \<Rightarrow> string \<Rightarrow> tabs_page \<Rightarrow> tabs_page" where
  "handleKillRequestDenied i runId p =
     setTabStatus i ''running''
       (upd i (\<lambda>t. t\<lparr>tab_runId := js_or (JStr runId) (tab_runId t), tab_killed := False, tab_pendingKill := False\<rparr>) p)"

definition deferRunningTabCloseForKill :: "page_env \<Rightarrow> string \<Rightarrow> int \<Rightarrow> tabs_page \<Rightarrow> tabs_page" where
  "deferRunningTabCloseForKill env i idx p =
     (case tab_at idx p of
        None \<Rightarrow> p
      | Some t \<Rightarrow>
          if \<not> running t then p
          else let p = doKill i (p\<lparr>tabs := (tabs p)[nat idx := t\<lparr>tab_closing := True\<rparr>]\<rparr>) in
            if activeTabId p = Some i \<and> length (tabs p) > 1
            then activate_opt env (getNeighborTabIdAfterClose idx i p) p else p)"

text \<open>\<open>confirmCloseRunningTab\<close>, up to the question and from its answer on.\<close>

definition confirmCloseRunningTab :: "string \<Rightarrow> tabs_page \<Rightarrow> tabs_page" where
  "confirmCloseRunningTab i p =
     (let idx = tab_index i p in
      case tab_at idx p of
        None \<Rightarrow> p
      | Some t \<Rightarrow>
          if \<not> running t then p
          else let canDetach = truthy (js_or (tab_runId t) (tab_historyRunId t)) in
            p\<lparr>closeConfirms := closeConfirms p @ [(i, idx, canDetach)]\<rparr>)"

datatype close_answer = KeepRunning | KillRun | CancelClose

definition closeAnswered :: "page_env \<Rightarrow> string \<Rightarrow> int \<Rightarrow> bool \<Rightarrow> close_answer \<Rightarrow> tabs_page \<Rightarrow> tabs_page" where
  "closeAnswered env i idx canDetach a p =
     (let p = p\<lparr>closeConfirms := remove1 (i, idx, canDetach) (closeConfirms p)\<rparr> in
      case a of
        KeepRunning \<Rightarrow> detachRunningTabAndClose env i p
      | KillRun \<Rightarrow> deferRunningTabCloseForKill env i idx p
      | CancelClose \<Rightarrow> p)"

definition closeTab :: "page_env \<Rightarrow> string \<Rightarrow> tabs_page \<Rightarrow> tabs_page" where
  "closeTab env i p =
     (let idx = tab_index i p;
          closing = tab_at idx p;
          p = upd i (\<lambda>t. t\<lparr>tab_suppressOutputScrollTracking := False, tab_deferPromptMount := False\<rparr>) p
      in if (case closing of Some t \<Rightarrow> running t | None \<Rightarrow> False) then confirmCloseRunningTab i p
         else if length (tabs p) = 1 then reset_last_tab env i p
         else removeClosedTabView env i idx p)"

text \<open>Called when the killed run of a closing tab has ended.\<close>

definition finalizeClosingTab :: "page_env \<Rightarrow> string \<Rightarrow> tabs_page \<Rightarrow> tabs_page" where
  "finalizeClosingTab env i p =
     (let idx = tab_index i p in
      case tab_at idx p of
        None \<Rightarrow> p
      | Some t \<Rightarrow>
          if \<not> tab_closing t then p
          else if length (tabs p) = 1 then reset_last_tab env i p
          else let p = drop_view i idx p in
            if activeTabId p = Some i \<and> tabs p \<noteq> []
            then activate_opt env (getNeighborTabIdAfterClose (min idx (int (length (tabs p)))) i p) p else p)"

section \<open>Reordering\<close>

text \<open>A drag: \<open>_reorderDraggedTab\<close> over another tab (the pointer decides the side), the edges of the bar,
  and \<open>_onTouchDragEnd\<close>, which brings the list into the order of the nodes.\<close>

definition move_node :: "string \<Rightarrow> string \<Rightarrow> bool \<Rightarrow> string option list \<Rightarrow> string option list" where
  "move_node dragged target after bar =
     (let rest = filter (\<lambda>n. n \<noteq> Some dragged) bar in
      if after then insert_after (Some dragged) (Some target) rest else insert_before (Some dragged) (Some target) rest)"

definition mark_moved :: "string option list \<Rightarrow> tabs_page \<Rightarrow> tabs_page" where
  "mark_moved bar p =
     (if bar = tabBar p then p
      else p\<lparr>tabBar := bar, dragState := map_option (\<lambda>(i, m). (i, True)) (dragState p)\<rparr>)"

definition reorderDraggedTab :: "string \<Rightarrow> bool \<Rightarrow> tabs_page \<Rightarrow> tabs_page" where
  "reorderDraggedTab target after p = (case dragState p of
       None \<Rightarrow> p
     | Some (dragged, m) \<Rightarrow>
         if dragged = target then p else mark_moved (move_node dragged target after (tabBar p)) p)"

definition edge_node :: "string \<Rightarrow> bool \<Rightarrow> string option list \<Rightarrow> string option list" where
  "edge_node dragged after bar =
     (let rest = filter (\<lambda>n. n \<noteq> Some dragged) bar; nodes = filter (\<lambda>n. n \<noteq> None) bar in
      if after then (if nodes \<noteq> [] \<and> last nodes = Some dragged then bar else rest @ [Some dragged])
      else if nodes \<noteq> [] \<and> hd nodes = Some dragged then bar
      else if nodes = [] then rest @ [Some dragged] else insert_before (Some dragged) (hd nodes) rest)"

definition dragToEdge :: "bool \<Rightarrow> tabs_page \<Rightarrow> tabs_page" where
  "dragToEdge after p = (case dragState p of
       None \<Rightarrow> p
     | Some (dragged, m) \<Rightarrow>
         if filter (\<lambda>n. n \<noteq> None \<and> n \<noteq> Some dragged) (tabBar p) = [] then p
         else mark_moved (edge_node dragged after (tabBar p)) p)"

definition syncTabOrderFromDom :: "tabs_page \<Rightarrow> tabs_page" where
  "syncTabOrderFromDom p =
     (let orderedIds = List.map_filter id (tabBar p) in
      if orderedIds = [] then p
      else p\<lparr>tabs := List.map_filter (\<lambda>i. getTab i p) orderedIds\<rparr>)"

definition dragStart :: "string \<Rightarrow> tabs_page \<Rightarrow> tabs_page" where
  "dragStart i p = p\<lparr>dragState := Some (i, False)\<rparr>"

definition dragEnd :: "tabs_page \<Rightarrow> tabs_page" where
  "dragEnd p = (case dragState p of
       None \<Rightarrow> p
     | Some (i, moved) \<Rightarrow> (if moved then syncTabOrderFromDom else id) (p\<lparr>dragState := None\<rparr>))"

section \<open>Events\<close>

text \<open>What can happen to the tabs, in any order. \<open>WriteTab\<close> is another component writing fields of a
  tab other than its identifier and what the prompt keeps in it (the stream of a run, the output, a
  restored run); it carries the tab with the fields written.\<close>

datatype tab_event =
    NewTab string
  | NewShortcutTab
  | ActivateTab string
  | ActivateRelative int
  | CloseTab string
  | AnswerClose string int bool close_answer
  | KillTab string
  | KillAccepted string
  | KillDenied string string
  | RunEnded string
  | TabStatus string string
  | TabLabel string string
  | RenameTab string string string
  | RunningCommand string string
  | LabelTimer string
  | ClearTab string bool
  | DragStart string
  | DragOver string bool
  | DragEdge bool
  | DragEnd
  | PromptEvent composer_event
  | WriteTab tab

fun tab_enabled :: "page_env \<times> tab_event \<Rightarrow> tabs_page \<Rightarrow> bool" where
  "tab_enabled (env, ActivateTab i) p \<longleftrightarrow> i \<in> set (tab_ids p)"
| "tab_enabled (env, CloseTab i) p \<longleftrightarrow> i \<in> set (tab_ids p)"
| "tab_enabled (env, AnswerClose i idx canDetach a) p \<longleftrightarrow>
     (i, idx, canDetach) \<in> set (closeConfirms p) \<and> (a = KeepRunning \<longrightarrow> canDetach)"
| "tab_enabled (env, DragStart i) p \<longleftrightarrow> i \<in> set (tab_ids p)"
| "tab_enabled (env, DragOver i after) p \<longleftrightarrow> Some i \<in> set (tabBar p)"
| "tab_enabled (env, PromptEvent ev) p \<longleftrightarrow> (case ev of SetRunning r \<Rightarrow> False | _ \<Rightarrow> True) \<and> composer_enabled (env, ev) (prompt_view p)"
| "tab_enabled (env, WriteTab t) p \<longleftrightarrow> (case getTab (tab_id t) p of None \<Rightarrow> False | Some u \<Rightarrow> put_nav (nav_of u) t = t)"
| "tab_enabled (env, ev) p \<longleftrightarrow> True"

fun tab_step :: "nat \<Rightarrow> nat \<Rightarrow> page_env \<times> tab_event \<Rightarrow> tabs_page \<Rightarrow> tabs_page" where
  "tab_step maxTabs cap (env, NewTab label) p = fst (createTab env maxTabs label p)"
| "tab_step maxTabs cap (env, NewShortcutTab) p = createShortcutTab env maxTabs p"
| "tab_step maxTabs cap (env, ActivateTab i) p = activateTab env i p"
| "tab_step maxTabs cap (env, ActivateRelative d) p = activateRelativeTab env d p"
| "tab_step maxTabs cap (env, CloseTab i) p = closeTab env i p"
| "tab_step maxTabs cap (env, AnswerClose i idx canDetach a) p = closeAnswered env i idx canDetach a p"
| "tab_step maxTabs cap (env, KillTab i) p = doKill i p"
| "tab_step maxTabs cap (env, KillAccepted i) p = killAccepted i p"
| "tab_step maxTabs cap (env, KillDenied i r) p = handleKillRequestDenied i r p"
| "tab_step maxTabs cap (env, RunEnded i) p = finalizeClosingTab env i p"
| "tab_step maxTabs cap (env, TabStatus i st) p = setTabStatus i st p"
| "tab_step maxTabs cap (env, TabLabel i l) p = setTabLabel i l p"
| "tab_step maxTabs cap (env, RenameTab i l v) p = commitRename i l v p"
| "tab_step maxTabs cap (env, RunningCommand i c) p = setTabRunningCommand i c p"
| "tab_step maxTabs cap (env, LabelTimer i) p = runningLabelTimerFires i p"
| "tab_step maxTabs cap (env, ClearTab i pr) p = clearTab env pr i p"
| "tab_step maxTabs cap (env, DragStart i) p = dragStart i p"
| "tab_step maxTabs cap (env, DragOver i after) p = reorderDraggedTab i after p"
| "tab_step maxTabs cap (env, DragEdge after) p = dragToEdge after p"
| "tab_step maxTabs cap (env, DragEnd) p = dragEnd p"
| "tab_step maxTabs cap (env, PromptEvent ev) p = with_prompt (composer_step cap (env, ev)) p"
| "tab_step maxTabs cap (env, WriteTab t) p = upd (tab_id t) (\<lambda>_. t) p"

text \<open>A page before its first tab.\<close>

definition fresh_page :: tabs_page where
  "fresh_page =
     \<lparr>tabs = [], activeTabId = None, tabSeq = 0, tabBar = [None], dragState = None, prompt = fresh_composer False,
      closeConfirms = [], killsSent = [], restoreInProgress = False\<rparr>"

end
