(* ===== verification/Tabs_Props.thy ===== *)
theory Tabs_Props
  imports Tabs
begin

text \<open>
  What the tabs of \<open>Tabs\<close> guarantee: in every order of events there is an active tab among the tabs, no
  two share an identifier, their number stays within the limit and the tab bar has a node for each;
  closing and reordering lose no other tab; and a draft left in a tab is there on return.
\<close>

named_theorems tab_frame \<open>what an operation on tabs leaves alone\<close>

section \<open>Frames\<close>

text \<open>The structure of a page: its identifiers, the active one, the last number used and the bar.\<close>

type_synonym shape = "string list \<times> string option \<times> nat \<times> string option list"

definition shape :: "tabs_page \<Rightarrow> shape" where
  "shape p = (tab_ids p, activeTabId p, tabSeq p, tabBar p)"

lemma shape_upd: "(\<And>t. tab_id (f t) = tab_id t) \<Longrightarrow> shape (upd i f p) = shape p"
  by (simp add: shape_def upd_def tab_ids_def)

lemma shape_with_prompt [tab_frame]: "shape (with_prompt f p) = shape p"
proof -
  have "shape (p\<lparr>prompt := c\<rparr>) = shape p" for c by (simp add: shape_def tab_ids_def)
  then show ?thesis by (simp add: with_prompt_def Let_def shape_upd put_nav_def split: option.splits)
qed

lemma shape_labels [tab_frame]:
  "shape (setTabLabel i l p) = shape p" "shape (commitRename i l v p) = shape p" "shape (cancelRename i l p) = shape p"
  "shape (setTabRunningCommand i c p) = shape p" "shape (runningLabelTimerFires i p) = shape p"
  "shape (setTabStatus i st p) = shape p"
  by (simp_all add: setTabLabel_def commitRename_def cancelRename_def setTabRunningCommand_def runningLabelTimerFires_def
      setTabStatus_def clearRunningLabelTimer_def shape_upd Let_def split: option.splits)

lemma shape_fields [tab_frame]:
  "shape (p\<lparr>prompt := c\<rparr>) = shape p" "shape (p\<lparr>dragState := d\<rparr>) = shape p" "shape (p\<lparr>closeConfirms := x\<rparr>) = shape p"
  "shape (p\<lparr>killsSent := k\<rparr>) = shape p" "shape (p\<lparr>restoreInProgress := r\<rparr>) = shape p"
  by (simp_all add: shape_def tab_ids_def)

lemma shape_flush [tab_frame]: "shape (flush_draft prev i p) = shape p"
  by (simp add: flush_draft_def shape_upd Let_def split: option.splits)

definition activated :: "string \<Rightarrow> shape \<Rightarrow> shape" where
  "activated i = (\<lambda>(ids, act, n, bar). (ids, Some i, n, bar))"

lemma shape_set_active: "shape (p\<lparr>activeTabId := Some i\<rparr>) = activated i (shape p)"
  by (simp add: shape_def activated_def tab_ids_def)

lemma shape_activate [tab_frame]: "shape (activateTab env i p) = activated i (shape p)"
  by (simp add: activateTab_def Let_def shape_set_active tab_frame)

lemma shape_clear [tab_frame]: "shape (clearTab env pr i p) = shape p"
proof -
  have "tab_id (clear_fields b t) = tab_id t" for b t
    by (simp add: clear_fields_def clearRunningLabelTimer_def Let_def)
  then show ?thesis by (simp add: clearTab_def Let_def tab_frame shape_upd)
qed

lemma shape_reset_last [tab_frame]: "shape (reset_last_tab env i p) = shape p"
proof -
  have "shape (p\<lparr>tabs := map resetPreservedSingleTabState (tabs p)\<rparr>) = shape p"
    by (simp add: shape_def tab_ids_def resetPreservedSingleTabState_def clearRunningLabelTimer_def)
  then show ?thesis by (simp add: reset_last_tab_def tab_frame)
qed

lemma shape_kill [tab_frame]:
  "shape (markTabKilledByUser i p) = shape p" "shape (doKill i p) = shape p" "shape (killAccepted i p) = shape p"
  "shape (handleKillRequestDenied i r p) = shape p"
  by (simp_all add: markTabKilledByUser_def doKill_def killAccepted_def handleKillRequestDenied_def tab_frame shape_upd
      split: option.splits)

lemma shape_confirm [tab_frame]: "shape (confirmCloseRunningTab i p) = shape p"
  by (simp add: confirmCloseRunningTab_def Let_def tab_frame split: option.splits)

lemma shape_list_update:
  "tab_at idx p = Some t \<Longrightarrow> tab_id t' = tab_id t \<Longrightarrow> shape (p\<lparr>tabs := (tabs p)[nat idx := t']\<rparr>) = shape p"
  by (auto simp: shape_def tab_ids_def tab_at_def map_update list_update_same_conv split: if_splits)

section \<open>Positions\<close>

lemma index_of_eq: "index_of x xs = Some i \<longleftrightarrow> i < length xs \<and> xs ! i = x \<and> (\<forall>j < i. xs ! j \<noteq> x)"
proof (induction xs arbitrary: i)
  case (Cons y ys)
  show ?case
    by (cases i) (auto simp: Cons.IH less_Suc_eq_0_disj)
qed simp

lemma index_of_None: "index_of x xs = None \<longleftrightarrow> x \<notin> set xs"
  by (induction xs) auto

lemma tab_at_index:
  assumes "i \<in> set (tab_ids p)"
  shows "\<exists>n t. tab_index i p = int n \<and> n < length (tabs p) \<and> tabs p ! n = t \<and> tab_at (tab_index i p) p = Some t \<and> tab_id t = i
    \<and> (\<forall>j < n. tab_id (tabs p ! j) \<noteq> i)"
proof -
  obtain n where n: "index_of i (tab_ids p) = Some n" using assms index_of_None [of i "tab_ids p"] by auto
  then show ?thesis
    using index_of_eq [of i "tab_ids p" n] by (auto simp: tab_index_def tab_at_def tab_ids_def)
qed

lemma tab_index_missing: "i \<notin> set (tab_ids p) \<Longrightarrow> tab_index i p = - 1 \<and> tab_at (tab_index i p) p = None"
  using index_of_None [of i "tab_ids p"] by (auto simp: tab_index_def tab_at_def split: option.splits)

lemma splice_out_nth: "splice_out (int n) xs = take n xs @ drop (Suc n) xs"
  by (simp add: splice_out_def)

lemma splice_removes:
  assumes "distinct (map f xs)" "n < length xs"
  shows "take n xs @ drop (Suc n) xs = filter (\<lambda>x. f x \<noteq> f (xs ! n)) xs"
proof -
  let ?l = "take n xs" and ?r = "drop (Suc n) xs"
  have xs: "?l @ xs ! n # ?r = xs" using assms(2) by (simp add: id_take_nth_drop [symmetric])
  have "distinct (map f (?l @ xs ! n # ?r))" using assms(1) by (simp only: xs)
  then have "\<forall>x \<in> set (?l @ ?r). f x \<noteq> f (xs ! n)" by (auto simp: image_iff)
  then have "filter (\<lambda>x. f x \<noteq> f (xs ! n)) (?l @ xs ! n # ?r) = ?l @ ?r" by simp
  then show ?thesis by (simp only: xs)
qed

text \<open>A known tab is taken out of the list, by identifier.\<close>

lemma drop_view_known:
  assumes "i \<in> set (tab_ids p)" "distinct (tab_ids p)"
  shows "tabs (drop_view i (tab_index i p) p) = filter (\<lambda>t. tab_id t \<noteq> i) (tabs p)"
proof -
  obtain n where n: "tab_index i p = int n" "n < length (tabs p)" "tab_id (tabs p ! n) = i"
    using tab_at_index [OF assms(1)] by auto
  then show ?thesis
    using splice_removes [of tab_id "tabs p" n] assms(2) by (simp add: drop_view_def splice_out_nth tab_ids_def)
qed

lemma neighbor_known:
  "getNeighborTabIdAfterClose idx i p = Some j \<Longrightarrow> j \<in> set (tab_ids p) \<and> j \<noteq> i"
proof -
  assume n: "getNeighborTabIdAfterClose idx i p = Some j"
  let ?c = "filter (\<lambda>t. tab_id t \<noteq> i) (List.map_filter (\<lambda>i. tab_at i p) [idx + 1, idx - 1])"
  have c: "t \<in> set (tabs p) \<and> tab_id t \<noteq> i" if "t \<in> set ?c" for t
    using that by (auto simp: map_filter_def tab_at_def split: if_splits)
  show ?thesis
  proof (cases ?c)
    case Nil
    then obtain t where "find (\<lambda>t. tab_id t \<noteq> i) (tabs p) = Some t" "tab_id t = j"
      using n by (auto simp: getNeighborTabIdAfterClose_def)
    then show ?thesis by (auto simp: find_Some_iff tab_ids_def)
  next
    case (Cons t ts)
    then have "t \<in> set (tabs p)" "tab_id t \<noteq> i" "j = tab_id t"
      using c [of t] n by (simp_all add: getNeighborTabIdAfterClose_def)
    then show ?thesis by (simp add: tab_ids_def)
  qed
qed

lemma neighbor_exists:
  "\<exists>t \<in> set (tabs p). tab_id t \<noteq> i \<Longrightarrow> \<exists>j. getNeighborTabIdAfterClose idx i p = Some j"
  by (cases "find (\<lambda>t. tab_id t \<noteq> i) (tabs p)")
    (auto simp: getNeighborTabIdAfterClose_def find_None_iff split: list.splits)

section \<open>The bar\<close>

lemma insert_node:
  "set (insert_before x y xs) = insert x (set xs)" "set (insert_after x y xs) = insert x (set xs)"
  "distinct (insert_before x y xs) \<longleftrightarrow> x \<notin> set xs \<and> distinct xs"
  "distinct (insert_after x y xs) \<longleftrightarrow> x \<notin> set xs \<and> distinct xs"
  by (induction xs) auto

lemma move_node_nodes:
  "set (move_node d t after bar) = insert (Some d) (set bar)" "distinct bar \<Longrightarrow> distinct (move_node d t after bar)"
  by (auto simp: move_node_def Let_def insert_node)

lemma edge_node_nodes:
  "set (edge_node d after bar) = insert (Some d) (set bar)" "distinct bar \<Longrightarrow> distinct (edge_node d after bar)"
proof -
  let ?nodes = "filter (\<lambda>n. n \<noteq> None) bar"
  have "Some d \<in> set bar" if "?nodes \<noteq> []" "last ?nodes = Some d \<or> hd ?nodes = Some d"
    using that last_in_set [of ?nodes] hd_in_set [of ?nodes] by auto
  then show "set (edge_node d after bar) = insert (Some d) (set bar)"
    unfolding edge_node_def Let_def by (auto simp: insert_node)
  show "distinct bar \<Longrightarrow> distinct (edge_node d after bar)"
    unfolding edge_node_def Let_def by (auto simp: insert_node)
qed

lemma getTab_known: "distinct (tab_ids p) \<Longrightarrow> getTab i p = Some t \<longleftrightarrow> t \<in> set (tabs p) \<and> tab_id t = i"
proof -
  assume d: "distinct (tab_ids p)"
  have "t = u" if "t \<in> set (tabs p)" "u \<in> set (tabs p)" "tab_id t = tab_id u" for t u
    using d that by (auto simp: tab_ids_def distinct_map inj_on_def)
  moreover have "\<exists>u. getTab i p = Some u" if "t \<in> set (tabs p)" "tab_id t = i"
    using that by (cases "getTab i p") (auto simp: getTab_def find_None_iff)
  moreover have "u \<in> set (tabs p) \<and> tab_id u = i" if "getTab i p = Some u" for u
    using that by (auto simp: getTab_def find_Some_iff)
  ultimately show ?thesis by metis
qed

lemma getTab_None: "getTab i p = None \<longleftrightarrow> i \<notin> set (tab_ids p)"
  by (auto simp: getTab_def find_None_iff tab_ids_def)

lemma getTab_id: "getTab i p = Some t \<Longrightarrow> tab_id t = i"
  by (auto simp: getTab_def find_Some_iff)

lemma ids_of_nodes:
  "map tab_id (List.map_filter (\<lambda>i. getTab i p) is) = filter (\<lambda>i. i \<in> set (tab_ids p)) is"
proof (induction "is")
  case (Cons i "is")
  then show ?case using getTab_None [of i p] getTab_id [of i p] by (cases "getTab i p") auto
qed simp

lemma in_map_filter: "y \<in> set (List.map_filter f xs) \<longleftrightarrow> (\<exists>x \<in> set xs. f x = Some y)"
  by (induction xs) (auto split: option.splits)

lemma nodes_set: "set (List.map_filter id bar) = {i. Some i \<in> set bar}"
  by (induction bar) (auto split: option.splits)

lemma nodes_distinct: "distinct bar \<Longrightarrow> distinct (List.map_filter id bar)"
  by (induction bar) (auto simp: nodes_set split: option.splits)

text \<open>Bringing the list into the order of the nodes loses no tab and adds none.\<close>

lemma sync_permutes:
  assumes "distinct (tab_ids p)" "distinct (tabBar p)" "Some ` set (tab_ids p) \<subseteq> set (tabBar p)" "tabs p \<noteq> []"
  shows "mset (tabs (syncTabOrderFromDom p)) = mset (tabs p)"
proof -
  let ?ids = "List.map_filter id (tabBar p)" and ?q = "syncTabOrderFromDom p"
  have sub: "set (tab_ids p) \<subseteq> set ?ids" using assms(3) by (auto simp: nodes_set)
  then have "?ids \<noteq> []" using assms(4) by (auto simp: tab_ids_def)
  then have q: "tabs ?q = List.map_filter (\<lambda>i. getTab i p) ?ids" by (simp add: syncTabOrderFromDom_def Let_def)
  have ids: "map tab_id (tabs ?q) = filter (\<lambda>i. i \<in> set (tab_ids p)) ?ids" unfolding q by (rule ids_of_nodes)
  then have "distinct (map tab_id (tabs ?q))" using nodes_distinct [OF assms(2)] by simp
  then have dq: "distinct (tabs ?q)" "inj_on tab_id (set (tabs ?q))" by (simp_all add: distinct_map)
  have dp: "distinct (tabs p)" "inj_on tab_id (set (tabs p))" using assms(1) by (simp_all add: distinct_map tab_ids_def)
  have "set (tabs ?q) = set (tabs p)"
  proof
    show "set (tabs ?q) \<subseteq> set (tabs p)"
      unfolding q using getTab_known [OF assms(1)] by (auto simp: in_map_filter)
    show "set (tabs p) \<subseteq> set (tabs ?q)"
    proof
      fix t assume t: "t \<in> set (tabs p)"
      then have "getTab (tab_id t) p = Some t" "tab_id t \<in> set ?ids" using getTab_known [OF assms(1)] sub by (auto simp: tab_ids_def)
      then show "t \<in> set (tabs ?q)" unfolding q by (auto simp: in_map_filter)
    qed
  qed
  then show ?thesis using dq(1) dp(1) set_eq_iff_mset_eq_distinct by blast
qed

section \<open>The invariant\<close>

definition tabs_ok :: "nat \<Rightarrow> shape \<Rightarrow> bool" where
  "tabs_ok maxTabs = (\<lambda>(ids, act, n, bar).
     distinct ids \<and> act \<in> Some ` set ids \<and> (maxTabs > 0 \<longrightarrow> length ids \<le> maxTabs)
     \<and> distinct bar \<and> None \<in> set bar \<and> Some ` set ids \<subseteq> set bar \<and> (\<forall>i. Some i \<in> set bar \<longrightarrow> (\<exists>k \<le> n. i = tab_name k)))"

definition page_ok :: "nat \<Rightarrow> tabs_page \<Rightarrow> bool" where
  "page_ok maxTabs p \<longleftrightarrow> tabs_ok maxTabs (shape p)
     \<and> (case dragState p of None \<Rightarrow> True | Some (i, m) \<Rightarrow> \<exists>k \<le> tabSeq p. i = tab_name k)"

lemma page_ok_parts:
  assumes "page_ok maxTabs p"
  shows "distinct (tab_ids p)" "\<exists>i \<in> set (tab_ids p). activeTabId p = Some i" "tabs p \<noteq> []"
    "maxTabs > 0 \<Longrightarrow> length (tabs p) \<le> maxTabs" "distinct (tabBar p)" "Some ` set (tab_ids p) \<subseteq> set (tabBar p)"
    "i \<in> set (tab_ids p) \<Longrightarrow> \<exists>k \<le> tabSeq p. i = tab_name k"
  using assms by (auto simp: page_ok_def tabs_ok_def shape_def tab_ids_def)

text \<open>The drag state is touched by a drag alone.\<close>

lemma drag_upd [tab_frame]: "dragState (upd i f p) = dragState p"
  by (simp add: upd_def)

lemma drag_with_prompt [tab_frame]: "dragState (with_prompt f p) = dragState p"
  by (simp add: with_prompt_def Let_def tab_frame split: option.splits)

lemma drag_small [tab_frame]:
  "dragState (setTabLabel i l p) = dragState p" "dragState (commitRename i l v p) = dragState p"
  "dragState (setTabRunningCommand i c p) = dragState p" "dragState (runningLabelTimerFires i p) = dragState p"
  "dragState (setTabStatus i st p) = dragState p" "dragState (flush_draft prev i p) = dragState p"
  by (simp_all add: setTabLabel_def commitRename_def setTabRunningCommand_def runningLabelTimerFires_def setTabStatus_def
      flush_draft_def tab_frame Let_def split: option.splits)

lemma drag_big [tab_frame]:
  "dragState (activateTab env i p) = dragState p" "dragState (clearTab env pr i p) = dragState p"
  "dragState (reset_last_tab env i p) = dragState p" "dragState (markTabKilledByUser i p) = dragState p"
  "dragState (doKill i p) = dragState p" "dragState (killAccepted i p) = dragState p"
  "dragState (handleKillRequestDenied i r p) = dragState p" "dragState (confirmCloseRunningTab i p) = dragState p"
  "dragState (drop_view i idx p) = dragState p"
  by (simp_all add: activateTab_def clearTab_def reset_last_tab_def markTabKilledByUser_def doKill_def killAccepted_def
      handleKillRequestDenied_def confirmCloseRunningTab_def drop_view_def tab_frame Let_def split: option.splits)

lemma page_ok_same: "shape q = shape p \<Longrightarrow> dragState q = dragState p \<Longrightarrow> page_ok maxTabs q \<longleftrightarrow> page_ok maxTabs p"
  by (auto simp: page_ok_def shape_def split: option.splits)

lemma page_ok_frame [tab_frame]:
  "page_ok m (reset_last_tab env i p) = page_ok m p" "page_ok m (confirmCloseRunningTab i p) = page_ok m p"
  "page_ok m (doKill i p) = page_ok m p" "page_ok m (killAccepted i p) = page_ok m p"
  "page_ok m (handleKillRequestDenied i r p) = page_ok m p" "page_ok m (setTabStatus i st p) = page_ok m p"
  "page_ok m (setTabLabel i l p) = page_ok m p" "page_ok m (commitRename i l v p) = page_ok m p"
  "page_ok m (setTabRunningCommand i c p) = page_ok m p" "page_ok m (runningLabelTimerFires i p) = page_ok m p"
  "page_ok m (clearTab env pr i p) = page_ok m p" "page_ok m (with_prompt f p) = page_ok m p"
  "page_ok m (p\<lparr>closeConfirms := x\<rparr>) = page_ok m p"
  by (rule page_ok_same; simp add: tab_frame)+

lemma page_ok_activate:
  assumes "tabs_ok maxTabs (activated i (shape p))" "case dragState p of None \<Rightarrow> True | Some (i, m) \<Rightarrow> \<exists>k \<le> tabSeq p. i = tab_name k"
  shows "page_ok maxTabs (activateTab env i p)"
proof -
  have "shape (activateTab env i p) = activated i (shape p)" by (rule shape_activate)
  then have "tabSeq (activateTab env i p) = tabSeq p" by (simp add: shape_def activated_def)
  then show ?thesis using assms by (auto simp: page_ok_def tab_frame split: option.splits)
qed

lemma page_ok_activate_known: "page_ok maxTabs p \<Longrightarrow> i \<in> set (tab_ids p) \<Longrightarrow> page_ok maxTabs (activateTab env i p)"
  by (rule page_ok_activate) (auto simp: page_ok_def tabs_ok_def shape_def activated_def)

lemma page_ok_neighbor:
  "page_ok maxTabs p \<Longrightarrow> page_ok maxTabs (activate_opt env (getNeighborTabIdAfterClose idx i p) p)"
  by (auto simp: activate_opt_def dest!: neighbor_known intro: page_ok_activate_known split: option.splits)

text \<open>Taking out a known tab leaves an active tab, since there is another one to activate.\<close>

lemma page_ok_remove:
  assumes "page_ok maxTabs p" "i \<in> set (tab_ids p)" "length (tabs p) \<noteq> 1"
  shows "page_ok maxTabs (removeClosedTabView env i (tab_index i p) p)"
proof -
  let ?q = "drop_view i (tab_index i p) p"
  note ok = page_ok_parts [OF assms(1)]
  have t: "tabs ?q = filter (\<lambda>t. tab_id t \<noteq> i) (tabs p)" by (rule drop_view_known [OF assms(2) ok(1)])
  have ids: "tab_ids ?q = filter (\<lambda>j. j \<noteq> i) (tab_ids p)" unfolding tab_ids_def t by (simp add: filter_map comp_def)
  have fields: "activeTabId ?q = activeTabId p" "tabSeq ?q = tabSeq p" "tabBar ?q = filter (\<lambda>n. n \<noteq> Some i) (tabBar p)"
    "dragState ?q = dragState p"
    by (simp_all add: drop_view_def)
  have rest: "tabs_ok maxTabs (tab_ids ?q, act, tabSeq ?q, tabBar ?q)" if "act \<in> Some ` set (tab_ids ?q)" for act
  proof -
    have "maxTabs > 0 \<Longrightarrow> length (tab_ids ?q) \<le> maxTabs"
      unfolding ids using ok(4) le_trans [OF length_filter_le [of "\<lambda>j. j \<noteq> i" "tab_ids p"]] by (simp add: tab_ids_def)
    then show ?thesis using assms(1) that unfolding ids fields by (auto simp: page_ok_def tabs_ok_def shape_def)
  qed
  have drag: "case dragState ?q of None \<Rightarrow> True | Some (i, m) \<Rightarrow> \<exists>k \<le> tabSeq ?q. i = tab_name k"
    using assms(1) by (auto simp: page_ok_def fields split: option.splits)
  show ?thesis
  proof (cases "activeTabId p = Some i")
    case True
    have "\<exists>t \<in> set (tabs ?q). tab_id t \<noteq> i"
    proof -
      obtain n where n: "n < length (tabs p)" "tab_id (tabs p ! n) = i" using assms(2) by (auto simp: tab_ids_def in_set_conv_nth)
      obtain m where m: "m < length (tabs p)" "m \<noteq> n"
        using assms(3) n by (metis One_nat_def Suc_lessI length_greater_0_conv less_Suc0 linorder_neqE_nat nat_neq_iff not_less_eq ok(3))
      then have "tab_id (tabs p ! m) \<noteq> i" using ok(1) n by (auto simp: tab_ids_def distinct_conv_nth)
      then show ?thesis unfolding t using nth_mem [OF m(1)] by auto
    qed
    then obtain j where j: "getNeighborTabIdAfterClose (min (tab_index i p) (int (length (tabs ?q)))) i ?q = Some j"
      using neighbor_exists by blast
    then have "j \<in> set (tab_ids ?q)" by (blast dest: neighbor_known)
    then have "page_ok maxTabs (activateTab env j ?q)"
      using rest drag by (intro page_ok_activate) (auto simp: activated_def shape_def)
    then show ?thesis using True j fields
      by (simp add: removeClosedTabView_def activateNeighborAfterClose_def activate_opt_def)
  next
    case False
    then have "activeTabId p \<in> Some ` set (tab_ids ?q)" using ok(2) by (auto simp: ids)
    then have "page_ok maxTabs ?q" using rest drag by (simp add: page_ok_def shape_def fields(1))
    then show ?thesis using False fields by (simp add: removeClosedTabView_def activateNeighborAfterClose_def)
  qed
qed

lemma upd_known:
  assumes "\<And>t. tab_id (f t) = tab_id t"
  shows "tab_ids (upd i f p) = tab_ids p" "tab_index j (upd i f p) = tab_index j p" "length (tabs (upd i f p)) = length (tabs p)"
    "page_ok maxTabs (upd i f p) = page_ok maxTabs p"
proof -
  show ids: "tab_ids (upd i f p) = tab_ids p" using assms by (simp add: upd_def tab_ids_def)
  then show "tab_index j (upd i f p) = tab_index j p" by (simp add: tab_index_def)
  show "length (tabs (upd i f p)) = length (tabs p)" by (simp add: upd_def)
  show "page_ok maxTabs (upd i f p) = page_ok maxTabs p" by (intro page_ok_same shape_upd assms) (simp add: tab_frame)
qed

lemma write_tab: "upd (tab_id t) (\<lambda>_. t) p = upd (tab_id t) (\<lambda>u. if tab_id u = tab_id t then t else u) p"
  by (simp add: upd_def)

lemma tab_at_known: "tab_at (tab_index i p) p = Some t \<Longrightarrow> i \<in> set (tab_ids p) \<and> tab_id t = i"
  using tab_index_missing [of i p] tab_at_index [of i p] by fastforce

lemma page_ok_close:
  assumes "page_ok maxTabs p" "i \<in> set (tab_ids p)"
  shows "page_ok maxTabs (closeTab env i p)"
proof -
  let ?u = "upd i (\<lambda>t. t\<lparr>tab_suppressOutputScrollTracking := False, tab_deferPromptMount := False\<rparr>) p"
  have u: "page_ok maxTabs ?u" "i \<in> set (tab_ids ?u)" "tab_index i ?u = tab_index i p" using assms by (simp_all add: upd_known)
  then have "page_ok maxTabs (removeClosedTabView env i (tab_index i p) ?u)" if "length (tabs ?u) \<noteq> 1"
    using that page_ok_remove [OF u(1,2)] by simp
  then show ?thesis using u(1)
    by (auto simp: closeTab_def Let_def tab_frame split: option.splits)
qed

lemma page_ok_detach:
  assumes "page_ok maxTabs p"
  shows "page_ok maxTabs (detachRunningTabAndClose env i p)"
proof (cases "tab_at (tab_index i p) p")
  case (Some t)
  let ?u = "upd i (\<lambda>t. t\<lparr>tab_closing := False\<rparr>) p"
  have u: "page_ok maxTabs ?u" "i \<in> set (tab_ids ?u)" "tab_index i ?u = tab_index i p"
    using assms tab_at_known [OF Some] by (simp_all add: upd_known)
  then have "page_ok maxTabs (removeClosedTabView env i (tab_index i p) ?u)" if "length (tabs ?u) \<noteq> 1"
    using that page_ok_remove [OF u(1,2)] by simp
  then show ?thesis using assms u(1) Some by (auto simp: detachRunningTabAndClose_def Let_def tab_frame)
qed (use assms in \<open>simp add: detachRunningTabAndClose_def\<close>)

text \<open>Where a closing tab is taken out, the two ways of removing it agree.\<close>

lemma finalize_removes:
  assumes "page_ok maxTabs p" "tab_at (tab_index i p) p = Some t" "tab_closing t" "length (tabs p) \<noteq> 1"
  shows "finalizeClosingTab env i p = removeClosedTabView env i (tab_index i p) p"
proof -
  have "i \<in> set (tab_ids p)" using tab_at_known assms(2) by blast
  then obtain j where "tab_index i p = int j" "j < length (tabs p)" using tab_at_index by blast
  then have "tabs (drop_view i (tab_index i p) p) \<noteq> []" using assms(4) by (auto simp: drop_view_def splice_out_nth)
  then show ?thesis using assms by (simp add: finalizeClosingTab_def removeClosedTabView_def activateNeighborAfterClose_def Let_def)
qed

lemma page_ok_finalize:
  assumes "page_ok maxTabs p"
  shows "page_ok maxTabs (finalizeClosingTab env i p)"
proof (cases "tab_at (tab_index i p) p")
  case (Some t)
  then have "i \<in> set (tab_ids p)" using tab_at_known by blast
  then show ?thesis
    using assms finalize_removes [OF assms Some, of env] page_ok_remove [OF assms, of i env] Some
    by (cases "tab_closing t \<and> length (tabs p) \<noteq> 1") (auto simp: finalizeClosingTab_def Let_def tab_frame)
qed (use assms in \<open>simp add: finalizeClosingTab_def\<close>)

lemma page_ok_defer:
  assumes "page_ok maxTabs p"
  shows "page_ok maxTabs (deferRunningTabCloseForKill env i idx p)"
proof (cases "tab_at idx p")
  case (Some t)
  let ?m = "p\<lparr>tabs := (tabs p)[nat idx := t\<lparr>tab_closing := True\<rparr>]\<rparr>"
  have "page_ok maxTabs ?m" using assms shape_list_update [OF Some, of "t\<lparr>tab_closing := True\<rparr>"] by (subst page_ok_same [of _ p]) simp_all
  then have "page_ok maxTabs (doKill i ?m)" by (simp add: tab_frame)
  then show ?thesis using assms Some page_ok_neighbor by (simp add: deferRunningTabCloseForKill_def Let_def)
qed (use assms in \<open>simp add: deferRunningTabCloseForKill_def\<close>)

lemma page_ok_bar:
  assumes "page_ok maxTabs p" "dragState p = Some (d, m)" "set bar = insert (Some d) (set (tabBar p))" "distinct bar"
  shows "page_ok maxTabs (mark_moved bar p)"
proof -
  have "dragState (mark_moved bar p) = Some (d, m) \<or> dragState (mark_moved bar p) = Some (d, True)"
    using assms(2) by (simp add: mark_moved_def)
  moreover have "tabSeq (mark_moved bar p) = tabSeq p" "tab_ids (mark_moved bar p) = tab_ids p"
    "activeTabId (mark_moved bar p) = activeTabId p" "tabBar (mark_moved bar p) = bar"
    by (simp_all add: mark_moved_def tab_ids_def)
  ultimately show ?thesis using assms by (auto simp: page_ok_def tabs_ok_def shape_def)
qed

lemma page_ok_drag:
  assumes "page_ok maxTabs p"
  shows "page_ok maxTabs (reorderDraggedTab t after p)" "page_ok maxTabs (dragToEdge after p)"
proof -
  show "page_ok maxTabs (reorderDraggedTab t after p)"
    using assms page_ok_parts(5) [OF assms]
    by (auto simp: reorderDraggedTab_def move_node_nodes intro: page_ok_bar split: option.splits)
  show "page_ok maxTabs (dragToEdge after p)"
    using assms page_ok_parts(5) [OF assms]
    by (auto simp: dragToEdge_def edge_node_nodes intro: page_ok_bar split: option.splits)
qed

lemma page_ok_drag_end:
  assumes "page_ok maxTabs p"
  shows "page_ok maxTabs (dragEnd p)"
proof -
  let ?q = "p\<lparr>dragState := None\<rparr>" and ?s = "syncTabOrderFromDom (p\<lparr>dragState := None\<rparr>)"
  have q: "page_ok maxTabs ?q" using assms by (auto simp: page_ok_def shape_def tab_ids_def)
  note ok = page_ok_parts [OF q]
  have m: "mset (tabs ?s) = mset (tabs ?q)" by (rule sync_permutes [OF ok(1,5,6,3)])
  have f: "activeTabId ?s = activeTabId ?q" "tabSeq ?s = tabSeq ?q" "tabBar ?s = tabBar ?q" "dragState ?s = None"
    by (simp_all add: syncTabOrderFromDom_def Let_def)
  have ids: "set (tab_ids ?s) = set (tab_ids ?q)" "length (tab_ids ?s) = length (tab_ids ?q)"
    using mset_eq_setD [OF m] mset_eq_length [OF m] by (simp_all add: tab_ids_def)
  have "mset (tab_ids ?s) = mset (tab_ids ?q)" using m by (simp add: tab_ids_def)
  then have "distinct (tab_ids ?s)" using ok(1) mset_eq_imp_distinct_iff by blast
  then have "page_ok maxTabs ?s" using q f ids by (simp add: page_ok_def tabs_ok_def shape_def)
  then show ?thesis using assms q by (auto simp: dragEnd_def split: option.splits)
qed

lemma tab_name_inj: "tab_name m = tab_name n \<longleftrightarrow> m = n"
  by (simp add: tab_name_def nat_str_inj)

text \<open>The page may be empty here: the first tab makes it well-formed.\<close>

definition page_ok0 :: "nat \<Rightarrow> tabs_page \<Rightarrow> bool" where
  "page_ok0 maxTabs p \<longleftrightarrow> page_ok maxTabs p \<or>
     tabs p = [] \<and> distinct (tabBar p) \<and> None \<in> set (tabBar p) \<and> (\<forall>i. Some i \<in> set (tabBar p) \<longrightarrow> (\<exists>k \<le> tabSeq p. i = tab_name k))
     \<and> dragState p = None"

lemma page_ok_create:
  assumes "page_ok0 maxTabs p" "\<not> at_limit maxTabs p"
  shows "page_ok maxTabs (fst (createTab env maxTabs label p))"
proof -
  let ?n = "Suc (tabSeq p)"
  let ?t = "new_tab (tab_name ?n) (str_default label (createDefaultTabLabel None p))"
  let ?q = "p\<lparr>tabSeq := ?n, tabBar := insert_before (Some (tab_name ?n)) None (tabBar p), tabs := tabs p @ [?t]\<rparr>"
  have bar: "distinct (tabBar p)" "None \<in> set (tabBar p)" "Some ` set (tab_ids p) \<subseteq> set (tabBar p)" "distinct (tab_ids p)"
    "\<forall>i. Some i \<in> set (tabBar p) \<longrightarrow> (\<exists>k \<le> tabSeq p. i = tab_name k)"
    using assms(1) by (auto simp: page_ok0_def page_ok_def tabs_ok_def shape_def tab_ids_def)
  have fresh: "Some (tab_name ?n) \<notin> set (tabBar p)" using bar(5) by (auto simp: tab_name_inj)
  have ids: "tab_ids ?q = tab_ids p @ [tab_name ?n]" by (simp add: tab_ids_def new_tab_def)
  have "maxTabs > 0 \<Longrightarrow> length (tab_ids ?q) \<le> maxTabs" using assms(2) by (auto simp: at_limit_def tab_ids_def)
  then have "tabs_ok maxTabs (activated (tab_name ?n) (shape ?q))"
    using bar fresh unfolding shape_def ids
    by (auto simp: tabs_ok_def activated_def insert_node) (metis le_SucI)
  moreover have "case dragState ?q of None \<Rightarrow> True | Some (i, m) \<Rightarrow> \<exists>k \<le> tabSeq ?q. i = tab_name k"
    using assms(1) by (auto simp: page_ok0_def page_ok_def split: option.splits intro: le_SucI)
  ultimately have "page_ok maxTabs (activateTab env (tab_name ?n) ?q)" by (rule page_ok_activate)
  then show ?thesis using assms(2) by (simp add: createTab_def Let_def)
qed

lemma page_ok_relative: "page_ok maxTabs p \<Longrightarrow> page_ok maxTabs (activateRelativeTab env d p)"
  by (auto simp: activateRelativeTab_def Let_def tab_at_def tab_ids_def split: option.splits if_splits
      intro!: page_ok_activate_known)

lemma page_ok_step:
  assumes "page_ok maxTabs p" "tab_enabled (env, ev) p"
  shows "page_ok maxTabs (tab_step maxTabs cap (env, ev) p)"
proof (cases ev)
  case (NewTab l)
  then show ?thesis using assms(1) page_ok_create [of maxTabs p env l]
    by (cases "at_limit maxTabs p") (auto simp: page_ok0_def createTab_def)
next
  case NewShortcutTab
  then show ?thesis using assms(1) page_ok_create [of maxTabs p env]
    by (cases "at_limit maxTabs p") (auto simp: page_ok0_def createTab_def createShortcutTab_def)
next
  case (AnswerClose i idx d a)
  have "page_ok maxTabs (p\<lparr>closeConfirms := x\<rparr>)" for x using assms(1) by (simp add: tab_frame)
  then show ?thesis using AnswerClose
    by (cases a) (simp_all add: closeAnswered_def page_ok_detach page_ok_defer)
next
  case (DragStart i)
  then show ?thesis using assms page_ok_parts(7) [OF assms(1), of i] by (auto simp: dragStart_def page_ok_def shape_def tab_ids_def)
qed (use assms in \<open>simp_all add: tab_frame upd_known write_tab page_ok_activate_known page_ok_relative page_ok_close page_ok_finalize
       page_ok_drag page_ok_drag_end\<close>)

interpretation tab_strip: machine tab_enabled "tab_step m c" "page_ok m" for m c
proof
  fix p a
  assume "page_ok m p" "tab_enabled a p"
  then show "page_ok m (tab_step m c a p)" by (cases a) (simp add: page_ok_step)
qed

text \<open>The pages that can be reached after the first tab was created.\<close>

definition first_page :: "page_env \<Rightarrow> nat \<Rightarrow> tabs_page" where
  "first_page env maxTabs = fst (createTab env maxTabs [] fresh_page)"

definition page_reachable :: "nat \<Rightarrow> nat \<Rightarrow> tabs_page \<Rightarrow> bool" where
  "page_reachable maxTabs cap p \<longleftrightarrow>
     (\<exists>env evs. run_all tab_enabled (tab_step maxTabs cap) evs (first_page env maxTabs) = Some p)"

lemma first_page_ok: "page_ok maxTabs (first_page env maxTabs)"
  unfolding first_page_def
  by (rule page_ok_create) (auto simp: page_ok0_def fresh_page_def at_limit_def)

lemma page_reachable_ok: "page_reachable maxTabs cap p \<Longrightarrow> page_ok maxTabs p"
  unfolding page_reachable_def using tab_strip.run_holds [OF first_page_ok] by blast

section \<open>Drafts\<close>

definition draft_of :: "string \<Rightarrow> tabs_page \<Rightarrow> string option" where
  "draft_of a p = map_option tab_draftInput (getTab a p)"

lemma find_map_id: "(\<And>t. tab_id (g t) = tab_id t) \<Longrightarrow> find (\<lambda>t. tab_id t = a) (map g ts) = map_option g (find (\<lambda>t. tab_id t = a) ts)"
  by (induction ts) auto

lemma getTab_upd:
  assumes "\<And>t. tab_id (f t) = tab_id t"
  shows "getTab a (upd i f p) = (if a = i then map_option f (getTab a p) else getTab a p)"
proof -
  have "getTab a (upd i f p) = map_option (\<lambda>t. if tab_id t = i then f t else t) (getTab a p)"
    unfolding getTab_def upd_def using assms by (simp add: find_map_id)
  then show ?thesis using getTab_id [of a p] by (cases "getTab a p") auto
qed

lemma draft_upd: "(\<And>t. tab_id (f t) = tab_id t) \<Longrightarrow> a = i \<Longrightarrow> (\<And>t. tab_draftInput (f t) = tab_draftInput t) \<Longrightarrow> draft_of a (upd i f p) = draft_of a p"
  "(\<And>t. tab_id (f t) = tab_id t) \<Longrightarrow> a \<noteq> i \<Longrightarrow> draft_of a (upd i f p) = draft_of a p"
  by (simp_all add: draft_of_def getTab_upd option.map_comp comp_def)

lemma draft_upd_keep:
  "(\<And>t. tab_id (f t) = tab_id t) \<Longrightarrow> (\<And>t. tab_draftInput (f t) = tab_draftInput t) \<Longrightarrow> draft_of a (upd i f p) = draft_of a p"
  by (cases "a = i") (simp_all add: draft_upd)

lemma draft_fields [tab_frame]:
  "draft_of a (p\<lparr>prompt := c\<rparr>) = draft_of a p" "draft_of a (p\<lparr>activeTabId := x\<rparr>) = draft_of a p"
  "draft_of a (p\<lparr>closeConfirms := y\<rparr>) = draft_of a p" "draft_of a (p\<lparr>killsSent := k\<rparr>) = draft_of a p"
  "draft_of a (p\<lparr>dragState := d\<rparr>) = draft_of a p"
  by (simp_all add: draft_of_def getTab_def)

lemma draft_with_prompt: "activeTabId p \<noteq> Some a \<Longrightarrow> draft_of a (with_prompt f p) = draft_of a p"
  by (auto simp: with_prompt_def Let_def tab_frame put_nav_def intro!: draft_upd(2) [THEN trans] split: option.splits)

lemma draft_small [tab_frame]:
  "draft_of a (setTabLabel i l p) = draft_of a p" "draft_of a (commitRename i l v p) = draft_of a p"
  "draft_of a (setTabRunningCommand i c p) = draft_of a p" "draft_of a (runningLabelTimerFires i p) = draft_of a p"
  "draft_of a (setTabStatus i st p) = draft_of a p" "draft_of a (markTabKilledByUser i p) = draft_of a p"
  "draft_of a (doKill i p) = draft_of a p" "draft_of a (killAccepted i p) = draft_of a p"
  "draft_of a (handleKillRequestDenied i r p) = draft_of a p" "draft_of a (confirmCloseRunningTab i p) = draft_of a p"
  by (simp_all add: setTabLabel_def commitRename_def setTabRunningCommand_def runningLabelTimerFires_def setTabStatus_def
      clearRunningLabelTimer_def markTabKilledByUser_def doKill_def killAccepted_def handleKillRequestDenied_def
      confirmCloseRunningTab_def draft_upd_keep tab_frame Let_def split: option.splits)

lemma active_flush [tab_frame]: "activeTabId (flush_draft prev i p) = activeTabId p"
  by (simp add: flush_draft_def upd_def Let_def split: option.splits)

lemma active_with_prompt [tab_frame]: "activeTabId (with_prompt f p) = activeTabId p"
  using shape_with_prompt [of f p] by (simp add: shape_def)

lemma draft_flush: "prev \<noteq> Some a \<Longrightarrow> draft_of a (flush_draft prev i p) = draft_of a p"
  by (auto simp: flush_draft_def Let_def intro!: draft_upd(2) split: option.splits)

lemma draft_activate:
  assumes "activeTabId p \<noteq> Some a" "i \<noteq> a"
  shows "draft_of a (activateTab env i p) = draft_of a p"
  using assms by (simp add: activateTab_def Let_def draft_with_prompt draft_flush tab_frame)

lemma draft_clear: "activeTabId p \<noteq> Some a \<Longrightarrow> draft_of a (clearTab env pr i p) = draft_of a p"
proof -
  have f: "tab_id (clear_fields b t) = tab_id t" "tab_draftInput (clear_fields b t) = tab_draftInput t" for b t
    by (simp_all add: clear_fields_def clearRunningLabelTimer_def Let_def)
  have "activeTabId (upd i g p) = activeTabId p" for g by (simp add: upd_def)
  then show "activeTabId p \<noteq> Some a \<Longrightarrow> draft_of a (clearTab env pr i p) = draft_of a p"
    using draft_upd_keep [of "clear_fields pr", OF f] by (auto simp: clearTab_def Let_def tab_frame draft_with_prompt)
qed

lemma draft_drop:
  assumes "i \<in> set (tab_ids p)" "distinct (tab_ids p)" "i \<noteq> a"
  shows "draft_of a (drop_view i (tab_index i p) p) = draft_of a p"
proof -
  have "find (\<lambda>t. tab_id t = a) (filter (\<lambda>t. tab_id t \<noteq> i) ts) = find (\<lambda>t. tab_id t = a) ts" for ts :: "tab list"
    using assms(3) by (induction ts) auto
  then show ?thesis unfolding draft_of_def getTab_def using drop_view_known [OF assms(1,2)] by simp
qed

definition away :: "string \<Rightarrow> tabs_page \<Rightarrow> bool" where
  "away a p \<longleftrightarrow> a \<in> set (tab_ids p) \<and> activeTabId p \<noteq> Some a"

lemma away_two: "page_ok maxTabs p \<Longrightarrow> away a p \<Longrightarrow> length (tabs p) \<noteq> 1"
  using page_ok_parts(2) [of maxTabs p] by (cases "tabs p") (auto simp: away_def tab_ids_def)

lemma ids_remove [tab_frame]: "tab_ids (removeClosedTabView env i idx p) = tab_ids (drop_view i idx p)"
proof -
  have "tab_ids (activateTab env j q) = tab_ids q" for j q
    using shape_activate [of env j q] by (simp add: shape_def activated_def)
  then show ?thesis by (simp add: removeClosedTabView_def activateNeighborAfterClose_def activate_opt_def split: option.splits)
qed

lemma active_activate [tab_frame]: "activeTabId (activateTab env i p) = Some i"
  using shape_activate [of env i p] by (simp add: shape_def activated_def)

lemma draft_remove:
  assumes "page_ok maxTabs p" "i \<in> set (tab_ids p)" "away a p" "away a (removeClosedTabView env i (tab_index i p) p)"
  shows "draft_of a (removeClosedTabView env i (tab_index i p) p) = draft_of a p"
proof -
  let ?q = "drop_view i (tab_index i p) p"
  note d = page_ok_parts(1) [OF assms(1)]
  have ne: "i \<noteq> a"
    using assms(4) drop_view_known [OF assms(2) d] unfolding away_def ids_remove by (auto simp: tab_ids_def)
  have q: "draft_of a ?q = draft_of a p" by (rule draft_drop [OF assms(2) d ne])
  have "activeTabId ?q \<noteq> Some a" using assms(3) by (simp add: away_def drop_view_def)
  then have "draft_of a (activateTab env j ?q) = draft_of a p" if "j \<noteq> a" for j using draft_activate that q by simp
  then show ?thesis
    using assms(4) q by (auto simp: removeClosedTabView_def activateNeighborAfterClose_def activate_opt_def away_def tab_frame split: option.splits)
qed

lemma draft_neighbor:
  assumes "away a p" "away a (activate_opt env n p)"
  shows "draft_of a (activate_opt env n p) = draft_of a p"
  using assms by (auto simp: activate_opt_def away_def tab_frame draft_activate split: option.splits)

lemma away_same: "shape q = shape p \<Longrightarrow> away a q = away a p"
  by (simp add: away_def shape_def)

lemma draft_close:
  assumes "page_ok maxTabs p" "i \<in> set (tab_ids p)" "away a p" "away a (closeTab env i p)"
  shows "draft_of a (closeTab env i p) = draft_of a p"
proof -
  let ?u = "upd i (\<lambda>t. t\<lparr>tab_suppressOutputScrollTracking := False, tab_deferPromptMount := False\<rparr>) p"
  have u: "page_ok maxTabs ?u" "i \<in> set (tab_ids ?u)" "tab_index i ?u = tab_index i p" "draft_of a ?u = draft_of a p" "away a ?u"
    using assms by (simp_all add: upd_known draft_upd_keep away_same [OF shape_upd])
  then have "length (tabs ?u) \<noteq> 1" using away_two by blast
  then show ?thesis using assms(4) u draft_remove [OF u(1,2,5)]
    by (auto simp: closeTab_def Let_def tab_frame)
qed

lemma draft_detach:
  assumes "page_ok maxTabs p" "away a p" "away a (detachRunningTabAndClose env i p)"
  shows "draft_of a (detachRunningTabAndClose env i p) = draft_of a p"
proof (cases "tab_at (tab_index i p) p")
  case (Some t)
  let ?u = "upd i (\<lambda>t. t\<lparr>tab_closing := False\<rparr>) p"
  have u: "page_ok maxTabs ?u" "i \<in> set (tab_ids ?u)" "tab_index i ?u = tab_index i p" "draft_of a ?u = draft_of a p" "away a ?u"
    using assms tab_at_known [OF Some] by (simp_all add: upd_known draft_upd_keep away_same [OF shape_upd])
  then have "length (tabs ?u) \<noteq> 1" using away_two by blast
  then show ?thesis using assms(3) u draft_remove [OF u(1,2,5)] Some
    by (auto simp: detachRunningTabAndClose_def Let_def tab_frame)
qed (simp add: detachRunningTabAndClose_def)

lemma draft_finalize:
  assumes "page_ok maxTabs p" "away a p" "away a (finalizeClosingTab env i p)"
  shows "draft_of a (finalizeClosingTab env i p) = draft_of a p"
proof (cases "tab_at (tab_index i p) p")
  case (Some t)
  then have "i \<in> set (tab_ids p)" using tab_at_known by blast
  then show ?thesis
    using assms finalize_removes [OF assms(1) Some, of env] draft_remove [OF assms(1) _ assms(2), of i env] away_two [OF assms(1,2)] Some
    by (cases "tab_closing t") (auto simp: finalizeClosingTab_def Let_def)
qed (simp add: finalizeClosingTab_def)

lemma draft_defer:
  assumes "away a p" "away a (deferRunningTabCloseForKill env i idx p)"
  shows "draft_of a (deferRunningTabCloseForKill env i idx p) = draft_of a p"
proof (cases "tab_at idx p")
  case (Some t)
  let ?m = "p\<lparr>tabs := (tabs p)[nat idx := t\<lparr>tab_closing := True\<rparr>]\<rparr>"
  have m: "away a ?m" using assms(1) away_same [OF shape_list_update [OF Some, of "t\<lparr>tab_closing := True\<rparr>"]] by simp
  have f: "map_option tab_draftInput (find (\<lambda>t. tab_id t = a) (ts[n := (ts ! n)\<lparr>tab_closing := True\<rparr>]))
     = map_option tab_draftInput (find (\<lambda>t. tab_id t = a) ts)" for ts :: "tab list" and n
    by (induction ts arbitrary: n) (auto split: nat.splits)
  have d: "draft_of a ?m = draft_of a p" using Some f [of "tabs p" "nat idx"] by (auto simp: draft_of_def getTab_def tab_at_def split: if_splits)
  show ?thesis using assms Some d m draft_neighbor [of a "doKill i ?m" env] away_same [OF shape_kill(2), of a i ?m]
    by (auto simp: deferRunningTabCloseForKill_def Let_def tab_frame)
qed (simp add: deferRunningTabCloseForKill_def)

lemma draft_sync:
  assumes "page_ok maxTabs p"
  shows "draft_of a (syncTabOrderFromDom p) = draft_of a p"
proof -
  let ?s = "syncTabOrderFromDom p"
  note ok = page_ok_parts [OF assms]
  have m: "mset (tabs ?s) = mset (tabs p)" by (rule sync_permutes [OF ok(1,5,6,3)])
  then have "mset (tab_ids ?s) = mset (tab_ids p)" by (simp add: tab_ids_def)
  then have "distinct (tab_ids ?s)" using ok(1) mset_eq_imp_distinct_iff by blast
  then have "getTab a ?s = Some t \<longleftrightarrow> getTab a p = Some t" for t
    using getTab_known [OF ok(1), of a t] getTab_known [of ?s a t] mset_eq_setD [OF m] by simp
  then have "getTab a ?s = getTab a p" by (metis not_None_eq)
  then show ?thesis by (simp add: draft_of_def)
qed

lemma draft_create:
  assumes "away a p" "away a (fst (createTab env m l p))"
  shows "draft_of a (fst (createTab env m l p)) = draft_of a p"
proof (cases "at_limit m p")
  case False
  let ?i = "tab_name (Suc (tabSeq p))"
  let ?q = "p\<lparr>tabSeq := Suc (tabSeq p), tabBar := insert_before (Some ?i) None (tabBar p),
    tabs := tabs p @ [new_tab ?i (str_default l (createDefaultTabLabel None p))]\<rparr>"
  have c: "fst (createTab env m l p) = activateTab env ?i ?q" using False by (simp add: createTab_def Let_def)
  have "?i \<noteq> a" using assms(2) unfolding c by (auto simp: away_def tab_frame)
  moreover have app: "\<exists>x \<in> set ts. P x \<Longrightarrow> find P (ts @ [t]) = find P ts" for P ts and t :: tab by (induction ts) auto
  have "\<exists>t \<in> set (tabs p). tab_id t = a" using assms(1) by (auto simp: away_def tab_ids_def)
  then have "draft_of a ?q = draft_of a p" by (simp add: draft_of_def getTab_def app)
  ultimately show ?thesis unfolding c using assms(1) by (subst draft_activate) (auto simp: away_def)
qed (simp add: createTab_def)

lemma mark_moved_draft [tab_frame]: "draft_of a (mark_moved bar p) = draft_of a p"
  by (simp add: mark_moved_def draft_of_def getTab_def)

lemma draft_step:
  assumes "page_ok maxTabs p" "tab_enabled (env, ev) p" "away a p" "away a (tab_step maxTabs cap (env, ev) p)"
  shows "draft_of a (tab_step maxTabs cap (env, ev) p) = draft_of a p"
proof (cases ev)
  case (ActivateTab i)
  then show ?thesis using assms by (auto simp: away_def tab_frame draft_activate)
next
  case (ActivateRelative d)
  then show ?thesis using assms(3,4)
    by (auto simp: activateRelativeTab_def Let_def away_def tab_frame draft_activate split: option.splits if_splits)
next
  case (AnswerClose i idx d c)
  let ?q = "p\<lparr>closeConfirms := remove1 (i, idx, d) (closeConfirms p)\<rparr>"
  have q: "page_ok maxTabs ?q" "away a ?q" "draft_of a ?q = draft_of a p"
    using assms(1,3) by (simp_all add: tab_frame away_same [of ?q p])
  then show ?thesis using AnswerClose assms(4) draft_detach [OF q(1,2)] draft_defer [OF q(2)]
    by (cases c) (auto simp: closeAnswered_def Let_def)
next
  case (WriteTab t)
  then obtain u where u: "getTab (tab_id t) p = Some u" "put_nav (nav_of u) t = t" using assms(2) by (auto split: option.splits)
  have "tab_draftInput t = tab_draftInput (put_nav (nav_of u) t)" by (simp only: u(2))
  then have "tab_draftInput t = tab_draftInput u" by (simp add: put_nav_def nav_of_def)
  then show ?thesis using WriteTab u(1) by (simp add: write_tab draft_of_def getTab_upd getTab_id)
next
  case DragEnd
  have "page_ok maxTabs (p\<lparr>dragState := None\<rparr>)" using assms(1) by (auto simp: page_ok_def shape_def tab_ids_def)
  then show ?thesis using DragEnd by (auto simp: dragEnd_def draft_sync tab_frame split: option.splits)
next
  case (PromptEvent c)
  then show ?thesis using assms(3) by (simp add: draft_with_prompt away_def)
next
  case (ClearTab i pr)
  then show ?thesis using assms(3) by (simp add: draft_clear away_def)
next
  case (CloseTab i)
  then show ?thesis using assms draft_close by simp
next
  case (RunEnded i)
  then show ?thesis using assms draft_finalize by simp
qed (use assms in \<open>simp_all add: tab_frame draft_create createShortcutTab_def dragStart_def reorderDraggedTab_def dragToEdge_def
  split: option.splits\<close>)

text \<open>A run of events during which the tab stays and is not the active one.\<close>

lemma draft_run:
  assumes "page_ok maxTabs p" "away a p"
    and "run_all (\<lambda>e p. tab_enabled e p \<and> away a (tab_step maxTabs cap e p)) (tab_step maxTabs cap) evs p = Some q"
  shows "page_ok maxTabs q \<and> away a q \<and> draft_of a q = draft_of a p"
  using assms
proof (induction evs arbitrary: p)
  case (Cons e evs)
  then have e: "tab_enabled e p" "away a (tab_step maxTabs cap e p)" by (simp_all split: if_splits)
  moreover have "page_ok maxTabs (tab_step maxTabs cap e p)" using Cons.prems(1) e(1) by (rule tab_strip.keeps)
  moreover have "draft_of a (tab_step maxTabs cap e p) = draft_of a p"
    using Cons.prems(1,2) e by (cases e) (auto intro: draft_step)
  ultimately show ?case using Cons by (simp split: if_splits)
qed auto

text \<open>What activating a tab shows.\<close>

lemma search_mode_frame:
  "histSearchMode (input_listener env s) = histSearchMode s"
  "histSearchMode (setComposerValue env d al v x y s) = histSearchMode s"
proof -
  have n: "histSearchMode (normalizeComposerSmartPeriod s) = histSearchMode s" for s
    by (simp add: normalizeComposerSmartPeriod_def write_dom_def Let_def)
  have w: "histSearchMode (write_state v x y s) = histSearchMode s" "histSearchMode (write_dom v x y s) = histSearchMode s" for v x y s
    by (simp_all add: write_state_def write_dom_def Let_def)
  have h: "histSearchMode (handleComposerInputChange env s) = histSearchMode s" for s
    by (simp add: handleComposerInputChange_def Let_def composer_frame n w)
  have k: "histSearchMode (handleHistSearchInput v s) = histSearchMode s" for v s
    by (simp add: handleHistSearchInput_def Let_def)
  show i: "histSearchMode (input_listener env s) = histSearchMode s" for s
    by (simp add: input_listener_def Let_def composer_frame n h k)
  show "histSearchMode (setComposerValue env d al v x y s) = histSearchMode s"
    by (simp add: setComposerValue_def Let_def i composer_frame w)
qed

lemma exit_search_mode: "\<not> histSearchMode (exitHistSearch env False False s)"
  by (simp add: exitHistSearch_def Let_def composer_frame search_mode_frame)

definition running_of :: "string \<Rightarrow> tabs_page \<Rightarrow> bool option" where
  "running_of a p = map_option running (getTab a p)"

lemma running_of_upd: "(\<And>t. tab_id (f t) = tab_id t) \<Longrightarrow> (\<And>t. tab_st (f t) = tab_st t) \<Longrightarrow> running_of a (upd i f p) = running_of a p"
  by (cases "getTab a p") (auto simp: running_of_def getTab_upd running_def)

lemma running_with_prompt: "running_of a (with_prompt f p) = running_of a p"
proof -
  have "running_of a (p\<lparr>prompt := c\<rparr>) = running_of a p" for c by (simp add: running_of_def getTab_def)
  then show ?thesis by (simp add: with_prompt_def Let_def running_of_upd put_nav_def split: option.splits)
qed

lemma running_flush: "running_of a (flush_draft prev i p) = running_of a p"
  by (simp add: flush_draft_def Let_def running_of_upd split: option.splits)

lemma prompt_with_prompt: "prompt (with_prompt f p) = f (prompt_view p)"
  by (simp add: with_prompt_def Let_def upd_def split: option.splits)

lemma prompt_flush: "prompt (flush_draft prev i p) = prompt p"
  by (simp add: flush_draft_def Let_def upd_def split: option.splits)

lemma draft_with_frame:
  assumes "\<And>s. activeTab (f s) = activeTab s"
  shows "draft_of a (with_prompt f p) = draft_of a p"
proof (cases "activeTabId p = Some a")
  case True
  then show ?thesis
    by (cases "getTab a p") (simp_all add: with_prompt_def Let_def prompt_view_def assms getActiveTab_def draft_of_def getTab_upd put_nav_def
      nav_of_def getTab_def find_map_id upd_def split: option.splits)
qed (rule draft_with_prompt)

text \<open>Activation in two parts: leaving the search and the old tab, then showing the new one.\<close>

definition leave_tab :: "page_env \<Rightarrow> string \<Rightarrow> tabs_page \<Rightarrow> tabs_page" where
  "leave_tab env i p =
     (let p = (if histSearchMode (prompt p) then with_prompt (exitHistSearch env False False) p else p)
      in (flush_draft (activeTabId p) i p)\<lparr>activeTabId := Some i\<rparr>)"

definition show_tab :: "page_env \<Rightarrow> string option \<Rightarrow> string \<Rightarrow> tabs_page \<Rightarrow> tabs_page" where
  "show_tab env prev i p =
     (let p = with_prompt acHide p; v = shown_draft prev i p in
      with_prompt (resetCmdHistoryNav env) (with_prompt (setComposerValue env False False v (Some (length v)) (Some (length v))) p))"

lemma activate_parts: "activateTab env i p = show_tab env (activeTabId p) i (leave_tab env i p)"
  by (simp add: activateTab_def show_tab_def leave_tab_def Let_def tab_frame)

lemma leave_mode: "\<not> histSearchMode (prompt (leave_tab env i p))"
  by (simp add: leave_tab_def Let_def prompt_flush prompt_with_prompt exit_search_mode)

lemma leave_active: "activeTabId (leave_tab env i p) = Some i"
  by (simp add: leave_tab_def Let_def)

lemma leave_running: "running_of a (leave_tab env i p) = running_of a p"
proof -
  have "running_of a (q\<lparr>activeTabId := x\<rparr>) = running_of a q" for q x by (simp add: running_of_def getTab_def)
  then show ?thesis by (simp add: leave_tab_def Let_def running_with_prompt running_flush)
qed

lemma leave_quiet:
  assumes "\<not> histSearchMode (prompt p)" "restoreInProgress p \<or> activeTabId p = Some i"
  shows "leave_tab env i p = p\<lparr>activeTabId := Some i\<rparr>"
  using assms by (auto simp: leave_tab_def Let_def flush_draft_def split: option.splits)

lemma show_tab_shows:
  assumes "\<not> histSearchMode (prompt p)" "activeTabId p = Some a" "prev \<noteq> None" "running_of a p = Some False" "draft_of a p = Some v"
  shows "let s = prompt (show_tab env prev a p) in
    composerValue s = v \<and> domValue s = v \<and> selectionStart s = length v \<and> selectionEnd s = length v \<and> \<not> histSearchMode s"
proof -
  define p3 where "p3 = with_prompt acHide p"
  have mode: "\<not> histSearchMode (prompt p3)"
    using assms(1) by (simp add: p3_def prompt_with_prompt prompt_view_def composer_frame)
  have run: "running_of a p3 = Some False" using assms(4) by (simp add: p3_def running_with_prompt)
  have d: "draft_of a p3 = Some v" unfolding p3_def using draft_with_frame [of acHide a p] assms(5) by (simp add: composer_frame)
  have shown: "shown_draft prev a p3 = v"
    using d run assms(3) by (auto simp: shown_draft_def draft_of_def running_of_def)
  define s where "s = prompt_view p3"
  have s: "\<not> isActiveTabRunning s" "\<not> histSearchMode s"
    using run mode assms(2) by (auto simp: s_def p3_def tab_frame prompt_view_def getActiveTab_def isActiveTabRunning_def running_of_def nav_of_def)
  define u where "u = setComposerValue env False False v (Some (length v)) (Some (length v)) s"
  have u: "u = write_dom v (length v) (length v) (write_state v (length v) (length v) s)" using s(1) by (simp add: u_def setComposerValue_def Let_def)
  define p4 where "p4 = with_prompt (setComposerValue env False False v (Some (length v)) (Some (length v))) p3"
  have "prompt (show_tab env prev a p) = resetCmdHistoryNav env (prompt_view p4)"
    unfolding show_tab_def Let_def p3_def [symmetric] shown by (simp add: p4_def [symmetric] prompt_with_prompt)
  moreover have "prompt p4 = u" by (simp add: p4_def prompt_with_prompt u_def s_def)
  ultimately show ?thesis using s(2)
    by (simp add: resetCmdHistoryNav_def Let_def prompt_view_def u write_dom_def write_state_def composer_frame)
qed

lemma show_tab_mode: "\<not> histSearchMode (prompt p) \<Longrightarrow> \<not> histSearchMode (prompt (show_tab env prev a p))"
  by (simp add: show_tab_def Let_def prompt_with_prompt prompt_view_def resetCmdHistoryNav_def composer_frame search_mode_frame)

lemma activate_mode: "\<not> histSearchMode (prompt (activateTab env i p))"
  unfolding activate_parts by (intro show_tab_mode leave_mode)

lemma activate_shows:
  assumes "away a p" "activeTabId p \<noteq> None" "running_of a p = Some False" "draft_of a p = Some v"
  shows "let s = prompt (activateTab env a p) in composerValue s = v \<and> domValue s = v \<and> selectionStart s = length v \<and> selectionEnd s = length v"
proof -
  have "draft_of a (leave_tab env a p) = Some v"
    using assms(1,4) by (auto simp: leave_tab_def Let_def tab_frame draft_flush draft_with_prompt away_def)
  then show ?thesis
    using show_tab_shows [OF leave_mode leave_active assms(2) _ _, of a env p v env] assms(3) leave_running
    unfolding activate_parts Let_def by simp
qed

section \<open>Closing\<close>

text \<open>A tab without the position of its recall, which activation resets.\<close>

definition tab_content :: "tab \<Rightarrow> tab" where
  "tab_content t = t\<lparr>tab_historyNavIndex := - 1, tab_historyNavDraft := []\<rparr>"

definition contents :: "tabs_page \<Rightarrow> tab list" where
  "contents p = map tab_content (tabs p)"

lemma contents_upd: "(\<And>t. t \<in> set (tabs p) \<Longrightarrow> tab_id t = i \<Longrightarrow> tab_content (f t) = tab_content t) \<Longrightarrow> contents (upd i f p) = contents p"
  by (auto simp: contents_def upd_def)

text \<open>A call of the prompt that keeps the history and the draft of the active tab.\<close>

lemma contents_with_prompt:
  assumes "distinct (tab_ids p)"
    and "\<And>n. activeTab (f (prompt_view p)) = Some n \<Longrightarrow>
      (\<exists>t. getActiveTab p = Some t \<and> commandHistory n = tab_commandHistory t \<and> draftInput n = tab_draftInput t) \<or> getActiveTab p = None"
  shows "contents (with_prompt f p) = contents p"
proof -
  let ?q = "p\<lparr>prompt := f (prompt_view p)\<rparr>"
  have q: "contents ?q = contents p" "tabs ?q = tabs p" by (simp_all add: contents_def)
  have "contents (upd i (put_nav n) ?q) = contents p" if i: "activeTabId p = Some i" and n: "activeTab (f (prompt_view p)) = Some n" for i n
  proof -
    have "tab_content (put_nav n t) = tab_content t" if t: "t \<in> set (tabs p)" "tab_id t = i" for t
    proof -
      have "getTab i p = Some t" using getTab_known [OF assms(1)] t by blast
      then show ?thesis using assms(2) [OF n] i by (auto simp: getActiveTab_def tab_content_def put_nav_def)
    qed
    then show ?thesis using contents_upd [of ?q i "put_nav n"] q by simp
  qed
  then show ?thesis using q(1) by (simp add: with_prompt_def Let_def split: option.splits)
qed

lemma contents_frame:
  assumes "distinct (tab_ids p)" "\<And>s. activeTab (f s) = activeTab s"
  shows "contents (with_prompt f p) = contents p"
  by (rule contents_with_prompt) (use assms in \<open>auto simp: prompt_view_def getActiveTab_def nav_of_def\<close>)

lemma contents_show:
  assumes "distinct (tab_ids p)" "\<not> histSearchMode (prompt p)"
  shows "contents (show_tab env prev j p) = contents p"
proof -
  define p3 where "p3 = with_prompt acHide p"
  have c3: "contents p3 = contents p" unfolding p3_def by (rule contents_frame [OF assms(1)]) (simp add: composer_frame)
  have d3: "distinct (tab_ids p3)" using assms(1) shape_with_prompt [of acHide] by (simp add: p3_def shape_def)
  have m3: "\<not> histSearchMode (prompt p3)" using assms(2) by (simp add: p3_def prompt_with_prompt prompt_view_def composer_frame)
  have sv: "activeTab (setComposerValue env False False v x y s) = activeTab s" for v x y s
    by (simp add: setComposerValue_def Let_def write_dom_def write_state_def composer_frame)
  define v where "v = shown_draft prev j p3"
  define p4 where "p4 = with_prompt (setComposerValue env False False v (Some (length v)) (Some (length v))) p3"
  have c4: "contents p4 = contents p" using contents_frame [OF d3] sv c3 by (simp add: p4_def)
  have d4: "distinct (tab_ids p4)" using d3 shape_with_prompt [of _ p3] by (simp add: p4_def shape_def)
  have m4: "\<not> histSearchMode (prompt_view p4)"
    using m3 by (simp add: p4_def prompt_with_prompt prompt_view_def search_mode_frame)
  have "contents (with_prompt (resetCmdHistoryNav env) p4) = contents p4"
    by (rule contents_with_prompt [OF d4])
      (use m4 in \<open>auto simp: resetCmdHistoryNav_def Let_def composer_frame reset_nav_def upd_tab_def prompt_view_def nav_of_def split: option.splits\<close>)
  moreover have "show_tab env prev j p = with_prompt (resetCmdHistoryNav env) p4"
    unfolding show_tab_def Let_def p3_def [symmetric] v_def [symmetric] p4_def [symmetric] ..
  ultimately show ?thesis using c4 by simp
qed

text \<open>Activating a tab when the active one is gone changes no tab.\<close>

lemma contents_activate:
  assumes "distinct (tab_ids p)" "activeTabId p = Some i" "i \<notin> set (tab_ids p)"
  shows "contents (activateTab env j p) = contents p"
proof -
  have gone: "getActiveTab p = None" using assms by (simp add: getActiveTab_def getTab_None)
  define p1 where "p1 = (if histSearchMode (prompt p) then with_prompt (exitHistSearch env False False) p else p)"
  have c1: "contents p1 = contents p" by (auto simp: p1_def gone intro!: contents_with_prompt [OF assms(1)])
  have s1: "shape p1 = shape p" by (simp add: p1_def tab_frame)
  then have ids: "tab_ids p1 = tab_ids p" "activeTabId p1 = Some i" using assms(2) by (simp_all add: shape_def)
  have "i \<notin> set (tab_ids p1)" using assms(3) ids(1) by simp
  then have "contents (upd i f p1) = contents p1" for f by (intro contents_upd) (auto simp: tab_ids_def)
  then have "contents (flush_draft (activeTabId p1) j p1) = contents p" by (simp add: flush_draft_def Let_def ids(2) c1)
  then have "contents (leave_tab env j p) = contents p" unfolding leave_tab_def Let_def p1_def [symmetric] by (simp add: contents_def)
  moreover have "tab_ids (leave_tab env j p) = tab_ids p"
    using s1 shape_flush [of "activeTabId p1" j p1] unfolding leave_tab_def Let_def p1_def [symmetric] by (simp add: shape_def tab_ids_def)
  then have "contents (activateTab env j p) = contents (leave_tab env j p)"
    unfolding activate_parts using assms(1) by (intro contents_show leave_mode) simp
  ultimately show ?thesis by simp
qed

lemma contents_remove:
  assumes "page_ok maxTabs p" "i \<in> set (tab_ids p)"
  shows "contents (removeClosedTabView env i (tab_index i p) p) = map tab_content (filter (\<lambda>t. tab_id t \<noteq> i) (tabs p))"
proof -
  let ?q = "drop_view i (tab_index i p) p"
  note d = page_ok_parts(1) [OF assms(1)]
  have t: "tabs ?q = filter (\<lambda>t. tab_id t \<noteq> i) (tabs p)" by (rule drop_view_known [OF assms(2) d])
  have ids: "i \<notin> set (tab_ids ?q)" "distinct (tab_ids ?q)"
    using d unfolding tab_ids_def t by (auto simp: distinct_map inj_on_def)
  have a: "activeTabId ?q = activeTabId p" by (simp add: drop_view_def)
  then show ?thesis
    using contents_activate [OF ids(2) _ ids(1)]
    by (auto simp: removeClosedTabView_def activateNeighborAfterClose_def activate_opt_def contents_def t split: option.splits)
qed

text \<open>The last tab is emptied. Clearing the prompt leaves the empty draft and history it finds.\<close>

lemma clear_prompt_tab:
  assumes "activeTab s = Some n" "\<not> st_running n"
  shows "\<exists>n'. activeTab (setComposerValue env True False [] (Some 0) (Some 0) s) = Some n'
    \<and> commandHistory n' = commandHistory n \<and> draftInput n' \<in> {[], draftInput n}"
proof (cases "histSearchMode s")
  case True
  have "activeTab (handleHistSearchInput v t) = activeTab t" "activeTab (normalizeComposerSmartPeriod t) = activeTab t" for v t
    by (simp_all add: handleHistSearchInput_def normalizeComposerSmartPeriod_def write_dom_def Let_def)
  moreover have "histSearchMode (normalizeComposerSmartPeriod t) = histSearchMode t" for t
    by (simp add: normalizeComposerSmartPeriod_def write_dom_def Let_def)
  ultimately show ?thesis using assms True
    by (simp add: setComposerValue_def input_listener_def Let_def) (simp add: write_dom_def write_state_def)
next
  case False
  then have "idle s" using assms by (simp add: idle_def isActiveTabRunning_def)
  then show ?thesis using assms
    by (simp add: setComposerValue_idle after_input_def Let_def composer_frame)
      (auto simp: upd_tab_def reset_nav_def composer_frame)
qed

lemma reset_last_empty:
  assumes "tabs p = [t]" "tab_id t = i" "\<not> running t"
  shows "\<exists>t'. tabs (reset_last_tab env i p) = [t'] \<and> tab_id t' = i \<and> tab_label t' = ''shell 1'' \<and> tab_st t' = ''idle''
    \<and> tab_rawLines t' = [] \<and> tab_command t' = [] \<and> tab_workspaceCwd t' = [] \<and> tab_commandHistory t' = [] \<and> tab_draftInput t' = []"
proof -
  define r where "r = clear_fields False (resetPreservedSingleTabState t)"
  have r: "tab_id r = i" "\<not> running r" "tab_rawLines r = []" "tab_command r = []" "tab_workspaceCwd r = []"
    "tab_commandHistory r = []" "tab_draftInput r = []"
    using assms by (simp_all add: r_def clear_fields_def resetPreservedSingleTabState_def clearRunningLabelTimer_def running_def Let_def)
  define p1 where "p1 = upd i (clear_fields False) (p\<lparr>tabs := map resetPreservedSingleTabState (tabs p)\<rparr>)"
  have p1: "tabs p1 = [r]" "activeTabId p1 = activeTabId p"
    using assms by (simp_all add: p1_def upd_def r_def resetPreservedSingleTabState_def clearRunningLabelTimer_def)
  define p2 where "p2 = (if activeTabId p1 = Some i then with_prompt (setComposerValue env True False [] (Some 0) (Some 0)) p1 else p1)"
  have "\<exists>x. tabs p2 = [x] \<and> tab_id x = i \<and> tab_rawLines x = [] \<and> tab_command x = [] \<and> tab_workspaceCwd x = []
    \<and> tab_commandHistory x = [] \<and> tab_draftInput x = []"
  proof (cases "activeTabId p1 = Some i")
    case True
    then have "activeTab (prompt_view p1) = Some (nav_of r)"
      using p1 r(1) by (simp add: prompt_view_def getActiveTab_def getTab_def)
    from clear_prompt_tab [OF this, of env] obtain n where
      n: "activeTab (setComposerValue env True False [] (Some 0) (Some 0) (prompt_view p1)) = Some n"
        "commandHistory n = []" "draftInput n = []"
      using r by (auto simp: nav_of_def)
    then have "tabs p2 = [put_nav n r]" using True p1(1) r(1) by (simp add: p2_def with_prompt_def Let_def upd_def)
    then show ?thesis using n r by (simp add: put_nav_def)
  next
    case False
    then show ?thesis using p1 r by (simp add: p2_def)
  qed
  then obtain x where x: "tabs p2 = [x]" "tab_id x = i" "tab_rawLines x = []" "tab_command x = []" "tab_workspaceCwd x = []"
    "tab_commandHistory x = []" "tab_draftInput x = []" by blast
  have "nat_str 1 = ''1''" by code_simp
  then have "createDefaultTabLabel (Some 1) p = ''shell 1''" by (simp add: createDefaultTabLabel_def)
  moreover have "reset_last_tab env i p = setTabLabel i (createDefaultTabLabel (Some 1) p) (setTabStatus i ''idle'' p2)"
    by (simp add: reset_last_tab_def clearTab_def Let_def p1_def [symmetric] p2_def)
  ultimately show ?thesis using x by (simp add: setTabLabel_def setTabStatus_def clearRunningLabelTimer_def upd_def Let_def)
qed

section \<open>Properties\<close>

text \<open>
  \<^bold>\<open>C33.\<close> In whatever order tabs are created, activated, closed (with whatever answer to the question for a
  running tab, and however late its run ends), renamed, cleared and dragged, and while the prompt is
  used and runs report: there is always a tab, exactly one of the tabs is the active one, no two tabs
  share an identifier, their number stays within the configured limit, and every tab has its node in the
  tab bar.
\<close>

theorem tabs_always_consistent:
  assumes "page_reachable maxTabs cap p"
  shows "(\<exists>!t. t \<in> set (tabs p) \<and> activeTabId p = Some (tab_id t)) \<and> distinct (tab_ids p)
    \<and> (maxTabs > 0 \<longrightarrow> length (tabs p) \<le> maxTabs) \<and> set (map Some (tab_ids p)) \<subseteq> set (tabBar p)"
proof -
  note ok = page_ok_parts [OF page_reachable_ok [OF assms]]
  obtain t where "t \<in> set (tabs p)" "activeTabId p = Some (tab_id t)" using ok(2) by (auto simp: tab_ids_def)
  moreover have "u = t" if "u \<in> set (tabs p)" "activeTabId p = Some (tab_id u)" for u
    using ok(1) that calculation by (auto simp: tab_ids_def distinct_map inj_on_def)
  ultimately have "\<exists>!t. t \<in> set (tabs p) \<and> activeTabId p = Some (tab_id t)" by (intro ex1I [of _ t]) auto
  then show ?thesis using ok(1,4,6) by auto
qed

text \<open>
  \<^bold>\<open>C25.\<close> An unfinished command waits in its tab. Leaving a tab that is not running for another one, and doing
  anything at all while the tab stays open and in the background (creating, closing and reordering tabs,
  using the prompt in them, runs that start and end, also in this tab), coming back shows the text that was
  in the prompt, with the cursor at its end.
\<close>

theorem draft_waits_in_tab:
  assumes "page_reachable maxTabs cap p" "activeTabId p = Some a" "running_of a p = Some False"
    and "\<not> histSearchMode (prompt p)" "\<not> restoreInProgress p" "j \<in> set (tab_ids p)" "j \<noteq> a"
    and "run_all (\<lambda>e p. tab_enabled e p \<and> away a (tab_step maxTabs cap e p)) (tab_step maxTabs cap) evs (activateTab env j p) = Some q"
    and "running_of a q = Some False"
  shows "let s = prompt (activateTab env' a q); v = str_default (composerValue (prompt p)) (domValue (prompt p)) in
    composerValue s = v \<and> domValue s = v \<and> selectionStart s = length v \<and> selectionEnd s = length v"
proof -
  define v where "v = str_default (composerValue (prompt p)) (domValue (prompt p))"
  let ?f = "flush_draft (Some a) j p" and ?p = "activateTab env j p"
  have ok: "page_ok maxTabs p" by (rule page_reachable_ok [OF assms(1)])
  obtain t where t: "getTab a p = Some t" "\<not> running t" using assms(3) by (auto simp: running_of_def)
  have flush: "draft_of a ?f = Some v"
    using t assms(5,7) by (simp add: flush_draft_def Let_def draft_of_def getTab_upd v_def)
  have "draft_of a ?p = draft_of a ?f"
    using assms(2,4,7) by (simp add: activateTab_def Let_def draft_with_prompt tab_frame)
  moreover have "away a ?p" using assms(7) page_ok_parts(2) [OF ok] shape_activate [of env j p] assms(2)
    by (auto simp: away_def shape_def activated_def)
  moreover have "page_ok maxTabs ?p" by (rule page_ok_activate_known [OF ok assms(6)])
  ultimately have q: "page_ok maxTabs q" "away a q" "draft_of a q = Some v" using draft_run [OF _ _ assms(8)] flush by auto
  then have "activeTabId q \<noteq> None" using page_ok_parts(2) by fastforce
  then show ?thesis using activate_shows [OF q(2) _ assms(9) q(3), of env'] unfolding v_def [symmetric] Let_def by simp
qed

text \<open>
  \<^bold>\<open>C7.\<close> Closing a tab closes that tab. In every page that can be reached, closing one of several tabs that is not
  running removes it and leaves the others in their order with everything they hold (but the position in
  the recalled commands, which activating a tab resets); a tab that was active and is not closed stays
  active. Closing the only tab empties it instead: no output, command, draft, directory or history of it
  remains.
\<close>

theorem close_removes_one_tab:
  assumes "page_reachable maxTabs cap p" "i \<in> set (tab_ids p)" "running_of i p = Some False"
  shows "let q = closeTab env i p in
     (if length (tabs p) = 1
      then (\<exists>t. tabs q = [t] \<and> tab_id t = i \<and> tab_label t = ''shell 1'' \<and> tab_st t = ''idle'' \<and> tab_rawLines t = []
        \<and> tab_command t = [] \<and> tab_workspaceCwd t = [] \<and> tab_commandHistory t = [] \<and> tab_draftInput t = [])
      else map tab_content (tabs q) = map tab_content (filter (\<lambda>t. tab_id t \<noteq> i) (tabs p))
        \<and> (activeTabId p \<noteq> Some i \<longrightarrow> activeTabId q = activeTabId p))"
proof -
  let ?u = "upd i (\<lambda>t. t\<lparr>tab_suppressOutputScrollTracking := False, tab_deferPromptMount := False\<rparr>) p"
  have ok: "page_ok maxTabs p" by (rule page_reachable_ok [OF assms(1)])
  have u: "page_ok maxTabs ?u" "i \<in> set (tab_ids ?u)" "tab_index i ?u = tab_index i p" "length (tabs ?u) = length (tabs p)"
    "activeTabId ?u = activeTabId p"
    using ok assms(2) by (simp_all add: upd_known) (simp add: upd_def)
  obtain t where t: "getTab i p = Some t" "\<not> running t" using assms(3) by (auto simp: running_of_def)
  have "tab_at (tab_index i p) p = Some t"
  proof -
    obtain t' where t': "tab_at (tab_index i p) p = Some t'" "t' \<in> set (tabs p)" "tab_id t' = i"
      using tab_at_index [OF assms(2)] nth_mem by metis
    then have "getTab i p = Some t'" using getTab_known [OF page_ok_parts(1) [OF ok]] by blast
    then show ?thesis using t' t(1) by simp
  qed
  then have q: "closeTab env i p = (if length (tabs p) = 1 then reset_last_tab env i ?u else removeClosedTabView env i (tab_index i p) ?u)"
    using t(2) by (simp only: closeTab_def Let_def option.case if_False u(4))
  show ?thesis
  proof (cases "length (tabs p) = 1")
    case True
    then obtain t0 where p: "tabs p = [t0]" by (cases "tabs p") auto
    then have t0: "t0 = t" "tab_id t = i" using t(1) getTab_id [OF t(1)] by (auto simp: getTab_def split: if_splits)
    have "tabs ?u = [t\<lparr>tab_suppressOutputScrollTracking := False, tab_deferPromptMount := False\<rparr>]"
      using p t0 by (simp add: upd_def)
    then show ?thesis using True q t(2) t0(2) reset_last_empty [of ?u _ i env]
      by (simp add: Let_def running_def)
  next
    case False
    have "filter (\<lambda>t. tab_id t \<noteq> i) (tabs ?u) = filter (\<lambda>t. tab_id t \<noteq> i) (tabs p)"
      unfolding upd_def by (induction "tabs p") (auto simp: filter_map comp_def intro!: map_idI)
    moreover have "activeTabId (removeClosedTabView env i (tab_index i p) ?u) = activeTabId p" if "activeTabId p \<noteq> Some i"
      using that u(5) by (simp add: removeClosedTabView_def activateNeighborAfterClose_def drop_view_def)
    ultimately show ?thesis using False q contents_remove [OF u(1,2)] u(3) by (simp add: Let_def contents_def)
  qed
qed

section \<open>Labels\<close>

text \<open>A default label is new: no other tab has it.\<close>

lemma shell_number_label: "shell_number (''shell '' @ nat_str n) = Some n"
proof -
  have ws: "is_ws CHR '' ''" "\<not> is_ws CHR ''s''" by code_simp+
  obtain c r where c: "nat_str n = c # r" by (cases "nat_str n") auto
  have last: "\<not> is_ws (last (nat_str n))" "\<not> is_ws c" using nat_str_no_ws [of n] last_in_set [of "nat_str n"] c by auto
  have t: "trim (''shell '' @ nat_str n) = ''shell '' @ nat_str n"
    using last(1) ws(2) by (intro trim_id) (simp add: trimmed_def)
  have low: "toLowerCase ''shell'' = ''shell''" by code_simp
  have "list_all is_digit (nat_str n)" using nat_str_digits by (simp add: list_all_iff)
  then show ?thesis
    unfolding shell_number_def t Let_def using ws(1) last(2) c low digits_value_nat_str [of n] by simp
qed

lemma default_label_new: "createDefaultTabLabel None p \<notin> tab_label ` set (tabs p)"
proof
  assume "createDefaultTabLabel None p \<in> tab_label ` set (tabs p)"
  then obtain t where t: "t \<in> set (tabs p)" "tab_label t = ''shell '' @ nat_str (max 1 (nextDefaultTabNumber p))"
    by (auto simp: createDefaultTabLabel_def)
  let ?ns = "List.map_filter shell_number (map tab_label (tabs p))"
  have "shell_number (tab_label t) = Some (max 1 (nextDefaultTabNumber p))" unfolding t(2) by (rule shell_number_label)
  then have "max 1 (nextDefaultTabNumber p) \<in> set ?ns" using t(1) by (auto simp: in_map_filter)
  then have "?ns \<noteq> []" "max 1 (nextDefaultTabNumber p) \<le> Max (set ?ns)" by (auto simp del: max.bounded_iff intro: Max_ge)
  then show False by (simp add: nextDefaultTabNumber_def Let_def)
qed

section \<open>Findings\<close>

text \<open>
  Closing the active tab looks for its right neighbour after the tab was taken out of the list, one
  place too far: with two tabs to the right, the second one is activated. (The way that keeps the tab
  until its run is killed looks before, and finds the right one.)
\<close>

lemma close_skips_neighbour:
  assumes "page_ok maxTabs p" "activeTabId p = Some (tab_id (tabs p ! n))" "n + 2 < length (tabs p)"
  shows "activeTabId (removeClosedTabView env (tab_id (tabs p ! n)) (int n) p) = Some (tab_id (tabs p ! (n + 2)))"
proof -
  let ?i = "tab_id (tabs p ! n)" and ?q = "drop_view (tab_id (tabs p ! n)) (int n) p"
  have q: "tabs ?q = take n (tabs p) @ drop (Suc n) (tabs p)" by (simp add: drop_view_def splice_out_nth)
  have at: "tab_at (int n + 1) ?q = Some (tabs p ! (n + 2))"
    using assms(3) by (auto simp: tab_at_def q nth_append nat_add_distrib)
  have "tab_id (tabs p ! (n + 2)) \<noteq> ?i"
    using page_ok_parts(1) [OF assms(1)] assms(3) by (auto simp: tab_ids_def distinct_conv_nth)
  then have "getNeighborTabIdAfterClose (int n) ?i ?q = Some (tab_id (tabs p ! (n + 2)))"
    using at by (simp add: getNeighborTabIdAfterClose_def)
  moreover have "min (int n) (int (length (tabs ?q))) = int n" using assms(3) by (simp add: q)
  moreover have "activeTabId ?q = Some ?i" using assms(2) by (simp add: drop_view_def)
  ultimately show ?thesis
    by (simp add: removeClosedTabView_def activateNeighborAfterClose_def activate_opt_def tab_frame)
qed

text \<open>Three tabs, the first one active, each with a run.\<close>

definition three_tabs :: "(page_env \<times> tab_event) list" where
  "three_tabs = map (Pair quiet_page) [NewTab [], NewTab [], ActivateTab ''tab-1'']"

definition three_runs :: "(page_env \<times> tab_event) list" where
  "three_runs = three_tabs @ map (Pair quiet_page)
     [TabStatus ''tab-1'' ''running'', TabStatus ''tab-2'' ''running'', TabStatus ''tab-3'' ''running'']"

text \<open>
  The question whether to close a running tab keeps the index the tab had when it was asked. If another
  tab goes away before the answer, killing marks the tab that took its place: the second tab is to be
  closed, the third is marked for closing and is removed as soon as its own run ends.
\<close>

lemma stale_close_index:
  "map_option (\<lambda>p. map (\<lambda>t. (tab_id t, tab_st t, tab_closing t)) (tabs p))
     (run_all tab_enabled (tab_step 8 50)
       (three_runs @ map (Pair quiet_page)
         [CloseTab ''tab-1'', AnswerClose ''tab-1'' 0 False KillRun, CloseTab ''tab-2'', RunEnded ''tab-1'', AnswerClose ''tab-2'' 1 False KillRun])
       (first_page quiet_page 8))
   = Some [(''tab-2'', ''killed'', False), (''tab-3'', ''running'', True)]"
  by code_simp

text \<open>
  Dropping a tab behind the last one appends its node to the bar, behind the button for new tabs, while a
  new tab is put before that button: the order on the screen and the order of the list part.
\<close>

lemma edge_drop_order:
  "map_option (\<lambda>p. (tab_ids p, tabBar p))
     (run_all tab_enabled (tab_step 8 50)
       (three_tabs @ map (Pair quiet_page) [DragStart ''tab-1'', DragEdge True, DragEnd, NewTab []]) (first_page quiet_page 8))
   = Some ([''tab-2'', ''tab-3'', ''tab-1'', ''tab-4''], [Some ''tab-2'', Some ''tab-3'', Some ''tab-4'', None, Some ''tab-1''])"
  by code_simp

text \<open>Closing a tab that is not there removes the last one: \<open>findIndex\<close> gives \<open>-1\<close> and \<open>splice(-1, 1)\<close> counts from the end.\<close>

lemma close_unknown_removes_last:
  assumes "i \<notin> set (tab_ids p)" "length (tabs p) > 1"
  shows "tab_ids (closeTab env i p) = butlast (tab_ids p)"
proof -
  have idx: "tab_index i p = - 1" "tab_at (tab_index i p) p = None" using tab_index_missing [OF assms(1)] by auto
  let ?u = "upd i (\<lambda>t. t\<lparr>tab_suppressOutputScrollTracking := False, tab_deferPromptMount := False\<rparr>) p"
  have "closeTab env i p = removeClosedTabView env i (- 1) ?u"
    using idx assms(2) by (simp add: closeTab_def Let_def upd_def)
  moreover have "splice_out (- 1) xs = butlast xs" for xs :: "tab list"
    by (cases "xs = []") (simp_all add: splice_out_def butlast_conv_take nat_diff_distrib' Suc_diff_Suc)
  moreover have "tab_ids ?u = tab_ids p" by (simp add: upd_known)
  ultimately show ?thesis by (simp add: tab_frame drop_view_def) (simp add: tab_ids_def map_butlast)
qed

section \<open>Witnesses\<close>

text \<open>Two of three tabs run a command; one is dragged, one is closed.\<close>

definition busy_events :: "(page_env \<times> tab_event) list" where
  "busy_events = three_tabs @ map (Pair quiet_page)
     [DragStart ''tab-3'', DragOver ''tab-1'' False, DragEnd, TabStatus ''tab-2'' ''running'', CloseTab ''tab-1'', NewTab ''scan'']"

theorem tabs_always_consistent_witness:
  "case run_all tab_enabled (tab_step 3 50) busy_events (first_page quiet_page 3) of None \<Rightarrow> False
   | Some p \<Rightarrow> tab_ids p = [''tab-3'', ''tab-2'', ''tab-4''] \<and> length (tabs p) \<le> 3 \<and> distinct (tab_ids p)"
proof -
  have run: "case run_all tab_enabled (tab_step 3 50) busy_events (first_page quiet_page 3) of None \<Rightarrow> False
    | Some p \<Rightarrow> tab_ids p = [''tab-3'', ''tab-2'', ''tab-4'']"
    by code_simp
  then obtain p where p: "run_all tab_enabled (tab_step 3 50) busy_events (first_page quiet_page 3) = Some p"
    by (auto split: option.splits)
  then have "page_reachable 3 50 p" unfolding page_reachable_def by blast
  from tabs_always_consistent [OF this] show ?thesis using run unfolding p by simp
qed

text \<open>A line is typed in the first tab; meanwhile the second one is used and closed; then back.\<close>

definition typed_page :: "tabs_page option" where
  "typed_page = run_all tab_enabled (tab_step 3 50)
     (three_tabs @ map (Pair quiet_page) [PromptEvent (Paste ''dig a'')]) (first_page quiet_page 3)"

definition meanwhile :: "(page_env \<times> tab_event) list" where
  "meanwhile = map (Pair quiet_page) [PromptEvent (Paste ''ls''), CloseTab ''tab-3'', TabStatus ''tab-1'' ''running'', TabStatus ''tab-1'' ''ok'']"

theorem draft_waits_in_tab_witness:
  "case typed_page of None \<Rightarrow> False | Some p \<Rightarrow>
     (case run_all (\<lambda>e p. tab_enabled e p \<and> away ''tab-1'' (tab_step 3 50 e p)) (tab_step 3 50) meanwhile (activateTab quiet_page ''tab-2'' p) of
        None \<Rightarrow> False
      | Some q \<Rightarrow> composerValue (prompt q) = ''ls'' \<and> composerValue (prompt (activateTab quiet_page ''tab-1'' q)) = ''dig a'')"
proof -
  let ?run = "run_all (\<lambda>e p. tab_enabled e p \<and> away ''tab-1'' (tab_step 3 50 e p)) (tab_step 3 50) meanwhile"
  have run: "case typed_page of None \<Rightarrow> False | Some p \<Rightarrow> activeTabId p = Some ''tab-1'' \<and> running_of ''tab-1'' p = Some False
      \<and> \<not> histSearchMode (prompt p) \<and> \<not> restoreInProgress p \<and> ''tab-2'' \<in> set (tab_ids p)
      \<and> str_default (composerValue (prompt p)) (domValue (prompt p)) = ''dig a''
      \<and> (case ?run (activateTab quiet_page ''tab-2'' p) of None \<Rightarrow> False
         | Some q \<Rightarrow> composerValue (prompt q) = ''ls'' \<and> running_of ''tab-1'' q = Some False)"
    by code_simp
  then obtain p where p: "typed_page = Some p" by (auto split: option.splits)
  then obtain q where q: "?run (activateTab quiet_page ''tab-2'' p) = Some q" using run unfolding p by (auto split: option.splits)
  have "page_reachable 3 50 p" using p unfolding typed_page_def page_reachable_def by blast
  moreover have h: "activeTabId p = Some ''tab-1''" "running_of ''tab-1'' p = Some False" "\<not> histSearchMode (prompt p)"
    "\<not> restoreInProgress p" "''tab-2'' \<in> set (tab_ids p)" "str_default (composerValue (prompt p)) (domValue (prompt p)) = ''dig a''"
    "composerValue (prompt q) = ''ls''" "running_of ''tab-1'' q = Some False"
    using run unfolding p option.case q by blast+
  ultimately have "composerValue (prompt (activateTab quiet_page ''tab-1'' q)) = ''dig a''"
    using draft_waits_in_tab [OF _ h(1-5) _ q h(8), of quiet_page] unfolding Let_def h(6) by simp
  then show ?thesis unfolding p option.case q using h(7) by simp
qed

theorem close_removes_one_tab_witness:
  "case typed_page of None \<Rightarrow> False | Some p \<Rightarrow>
     tab_ids (closeTab quiet_page ''tab-2'' p) = [''tab-1'', ''tab-3''] \<and> activeTabId (closeTab quiet_page ''tab-2'' p) = Some ''tab-1''"
proof -
  have run: "case typed_page of None \<Rightarrow> False | Some p \<Rightarrow> activeTabId p = Some ''tab-1'' \<and> running_of ''tab-2'' p = Some False
      \<and> tab_ids p = [''tab-1'', ''tab-2'', ''tab-3'']"
    by code_simp
  then obtain p where p: "typed_page = Some p" by (auto split: option.splits)
  have r: "page_reachable 3 50 p" using p unfolding typed_page_def page_reachable_def by blast
  let ?q = "closeTab quiet_page ''tab-2'' p"
  have l: "length (tabs p) \<noteq> 1" using run unfolding p by (auto simp: tab_ids_def)
  have c: "map tab_content (tabs ?q) = map tab_content (filter (\<lambda>t. tab_id t \<noteq> ''tab-2'') (tabs p))" "activeTabId ?q = activeTabId p"
    using close_removes_one_tab [OF r, of "''tab-2''" quiet_page] run l unfolding p by (simp_all add: Let_def)
  have i: "map tab_id (map tab_content ts) = map tab_id ts" for ts by (simp add: tab_content_def comp_def)
  have "tab_ids ?q = map tab_id (filter (\<lambda>t. tab_id t \<noteq> ''tab-2'') (tabs p))"
    unfolding tab_ids_def using arg_cong [OF c(1), of "map tab_id"] by (simp only: i)
  also have "\<dots> = filter (\<lambda>i. i \<noteq> ''tab-2'') (tab_ids p)" by (simp add: tab_ids_def filter_map comp_def)
  finally have "tab_ids ?q = filter (\<lambda>i. i \<noteq> ''tab-2'') (tab_ids p)" .
  with c(2) show ?thesis using run unfolding p by simp
qed

end
