(* ===== verification/JS_Json_Roundtrip.thy ===== *)
theory JS_Json_Roundtrip
  imports JS_Json
begin

text \<open>
  \<open>JSON.parse\<close> inverts \<open>JSON.stringify\<close> on values made of strings, whole numbers, booleans, null, arrays
  and objects without repeated keys: what the client keeps in the storage of the browser is read
  back as it was written.
\<close>

section \<open>Strings\<close>

lemma hex_digits:
  assumes "n < 256"
  shows "hex4 [CHR ''0'', CHR ''0'', hex_digit (n div 16), hex_digit (n mod 16)] = Some n"
proof -
  have "radix_digit (hex_digit k) = k" if "k < 16" for k
    using that by (cases "k < 10") (simp_all add: hex_digit_def radix_digit_def is_digit_def char_between_def)
  moreover have "radix_digit CHR ''0'' = 0" by (simp add: radix_digit_def is_digit_def char_between_def)
  ultimately show ?thesis using assms by (simp add: hex4_def)
qed

lemma json_escape_control:
  assumes "(of_char c :: nat) < 32" "c \<notin> {CHR 0x08, CHR 0x0C, CHR 0x0A, CHR 0x0D, CHR 0x09}"
  shows "json_escape_char c = BSL # CHR ''u'' # [CHR ''0'', CHR ''0'', hex_digit (of_char c div 16), hex_digit (of_char c mod 16)]"
proof -
  have "c \<noteq> DQ" "c \<noteq> BSL" using assms(1) by auto
  then show ?thesis using assms unfolding json_escape_char_def by simp
qed

lemma json_escape_parse:
  "json_chars (Suc n) (json_escape_char c @ s) = map_option (\<lambda>(w, r). (c # w, r)) (json_chars n s)"
proof -
  consider "c \<in> {DQ, BSL}" | "c \<in> {CHR 0x08, CHR 0x0C, CHR 0x0A, CHR 0x0D, CHR 0x09}"
    | "(of_char c :: nat) < 32" "c \<notin> {CHR 0x08, CHR 0x0C, CHR 0x0A, CHR 0x0D, CHR 0x09}"
    | "c \<notin> {DQ, BSL}" "\<not> (of_char c :: nat) < 32" "c \<notin> {CHR 0x08, CHR 0x0C, CHR 0x0A, CHR 0x0D, CHR 0x09}"
    by blast
  then show ?thesis
  proof cases
    case 1
    then show ?thesis by (elim insertE emptyE) (simp_all add: json_escape_char_def json_unescape_def)
  next
    case 2
    then show ?thesis by (elim insertE emptyE) (simp_all add: json_escape_char_def json_unescape_def)
  next
    case 3
    then show ?thesis using hex_digits [of "of_char c"] by (simp add: json_escape_control)
  next
    case 4
    then have "json_escape_char c = [c]" by (simp add: json_escape_char_def)
    then show ?thesis using 4 by simp
  qed
qed

lemma json_quote_parse:
  "n > length s \<Longrightarrow> json_chars n (concat (map json_escape_char s) @ DQ # r) = Some (s, r)"
proof (induction s arbitrary: n)
  case Nil
  then show ?case by (cases n) simp_all
next
  case (Cons c s)
  then obtain m where "n = Suc m" "m > length s" by (cases n) auto
  then show ?case using Cons.IH [of m] json_escape_parse [of m c] by simp
qed

lemma length_escape: "length s \<le> length (concat (map json_escape_char s))"
proof (induction s)
  case (Cons c s)
  have "1 \<le> length (json_escape_char c)" by (simp add: json_escape_char_def)
  then show ?case using Cons by simp
qed simp

section \<open>Numbers\<close>

definition json_stop :: "string \<Rightarrow> bool" where
  "json_stop r \<longleftrightarrow> r = [] \<or> hd r \<in> {CHR '','', CHR '']'', CHR ''}''}"

lemma nat_str_head: "\<not> (length (nat_str n) > 1 \<and> hd (nat_str n) = CHR ''0'')"
proof (induction n rule: nat_str.induct)
  case (1 n)
  show ?case
  proof (cases "n < 10")
    case False
    have "hd (nat_str (n div 10)) \<noteq> CHR ''0''"
    proof
      assume h: "hd (nat_str (n div 10)) = CHR ''0''"
      then have "length (nat_str (n div 10)) = 1" using 1 False nat_str_nonempty [of "n div 10"] by (cases "nat_str (n div 10)") auto
      then have "nat_str (n div 10) = ''0''" using h by (cases "nat_str (n div 10)") auto
      then have "n div 10 = 0" using digits_value_nat_str [of "n div 10"] by (simp add: digit_value_def)
      then show False using False by simp
    qed
    then show ?thesis using False nat_str_nonempty [of "n div 10"] by (simp add: nat_str.simps [of n])
  qed (simp add: nat_str.simps [of n])
qed

lemma digits_stop:
  assumes "json_stop r"
  shows "takeWhile is_digit (nat_str n @ r) = nat_str n" "dropWhile is_digit (nat_str n @ r) = r"
    "startsWith r ''.'' = False" "startsWith r ''e'' = False" "startsWith r ''E'' = False"
proof -
  have "r = [] \<or> \<not> is_digit (hd r)" using assms by (auto simp: json_stop_def is_digit_def char_between_def)
  then show "takeWhile is_digit (nat_str n @ r) = nat_str n" "dropWhile is_digit (nat_str n @ r) = r"
    using nat_str_digits [of n] by (cases r; simp add: takeWhile_append2 dropWhile_append2)+
  show "startsWith r ''.'' = False" "startsWith r ''e'' = False" "startsWith r ''E'' = False"
    using assms by (cases r; auto simp: json_stop_def)+
qed

lemma json_number_nat: "json_stop r \<Longrightarrow> json_number (nat_str n @ r) = Some (Fin (of_nat n), r)"
proof -
  assume r: "json_stop r"
  obtain c t where s: "nat_str n = c # t" by (cases "nat_str n") auto
  then have "is_digit c" using nat_str_digits [of n] by simp
  then have "startsWith (nat_str n @ r) ''-'' = False" by (auto simp: s is_digit_def char_between_def)
  then show ?thesis using digits_stop(1,2) [OF r, of n] digits_stop(3-5) [OF r] nat_str_head [of n] nat_str_nonempty [of n]
    by (simp add: json_number_def Let_def del: startsWith.simps split: prod.split) blast
qed

lemma json_number_neg: "json_stop r \<Longrightarrow> json_number (CHR ''-'' # nat_str n @ r) = Some (Fin (- of_nat n), r)"
proof -
  assume r: "json_stop r"
  have "startsWith (CHR ''-'' # nat_str n @ r) ''-''" by simp
  then show ?thesis using digits_stop(1,2) [OF r, of n] digits_stop(3-5) [OF r] nat_str_head [of n] nat_str_nonempty [of n]
    by (simp add: json_number_def Let_def del: startsWith.simps split: prod.split) blast
qed

lemma json_number_int: "json_stop r \<Longrightarrow> json_number (int_str i @ r) = Some (Fin (of_int i), r)"
  using json_number_nat [of r "nat i"] json_number_neg [of r "nat (- i)"] by (simp add: int_str_def)

section \<open>Values\<close>

text \<open>The values that survive: whole numbers, no undefined, no key twice.\<close>

fun json_plain :: "jsval \<Rightarrow> bool"
  and json_plain_elems :: "jsval list \<Rightarrow> bool"
  and json_plain_members :: "jsobj \<Rightarrow> bool" where
  "json_plain JUndef = False"
| "json_plain JNull = True"
| "json_plain (JBool b) = True"
| "json_plain (JNum n) = is_integer_num n"
| "json_plain (JStr s) = True"
| "json_plain (JArr xs) = json_plain_elems xs"
| "json_plain (JObj kvs) = (distinct (map fst kvs) \<and> json_plain_members kvs)"
| "json_plain_elems [] = True"
| "json_plain_elems (x # xs) = (json_plain x \<and> json_plain_elems xs)"
| "json_plain_members [] = True"
| "json_plain_members ((k, v) # kvs) = (json_plain v \<and> json_plain_members kvs)"

lemma int_str_head: "\<exists>c t. int_str i = c # t \<and> (is_digit c \<or> c = CHR ''-'')"
proof -
  obtain c t where "nat_str (nat i) = c # t" by (cases "nat_str (nat i)") auto
  then show ?thesis using nat_str_digits [of "nat i"] by (auto simp: int_str_def)
qed

text \<open>The first character of a value is neither white space nor a closing bracket.\<close>

lemma json_ser_head:
  assumes "json_plain v"
  obtains c t where "json_ser 0 ind v = c # t" "\<not> json_ws c" "c \<noteq> CHR '']''" "c \<noteq> CHR ''}''"
proof -
  have "\<exists>c t. json_ser 0 ind v = c # t \<and> \<not> json_ws c \<and> c \<noteq> CHR '']'' \<and> c \<noteq> CHR ''}''"
  proof (cases v)
    case (JNum n)
    then obtain r where n: "n = Fin r" "of_int \<lfloor>r\<rfloor> = r" using assms by (cases n) auto
    obtain c t where "int_str \<lfloor>r\<rfloor> = c # t" "is_digit c \<or> c = CHR ''-''" using int_str_head by blast
    then show ?thesis using JNum n by (auto simp: rat_str_def json_ws_def is_digit_def char_between_def)
  next
    case (JBool b)
    then show ?thesis by (cases b) (simp_all add: json_ws_def)
  qed (use assms in \<open>simp_all add: json_ws_def json_quote_def json_wrap_def\<close>)
  then show ?thesis using that by blast
qed

lemma skip_ws_cons: "\<not> json_ws c \<Longrightarrow> skip_ws (c # t) = c # t"
  by (simp add: skip_ws_def)

lemma json_stops [simp]: "json_stop []" "json_stop (CHR '','' # r)" "json_stop (CHR '']'' # r)" "json_stop (CHR ''}'' # r)"
  by (simp_all add: json_stop_def)

lemma obj_set_new: "k \<notin> fst ` set acc \<Longrightarrow> obj_set acc k v = acc @ [(k, v)]"
  by (induction acc k v rule: obj_set.induct) auto

lemma json_value_num:
  assumes "is_integer_num m" "json_stop r" "0 < n"
  shows "json_value n (num_str m @ r) = Some (JNum m, r)"
proof -
  obtain q where m: "m = Fin q" "of_int \<lfloor>q\<rfloor> = q" using assms(1) by (cases m) auto
  obtain k where n: "n = Suc k" using assms(3) by (cases n) auto
  obtain c t where s: "int_str \<lfloor>q\<rfloor> = c # t" "is_digit c \<or> c = CHR ''-''" using int_str_head by blast
  have c: "c \<noteq> DQ" "c \<noteq> CHR ''[''" "c \<noteq> CHR ''{''" "c \<noteq> CHR ''t''" "c \<noteq> CHR ''f''" "c \<noteq> CHR ''n''" "\<not> json_ws c"
    using s(2) by (auto simp: is_digit_def char_between_def json_ws_def)
  have "json_number (c # t @ r) = Some (m, r)"
    using json_number_int [OF assms(2), of "\<lfloor>q\<rfloor>"] s(1) m by simp
  then show ?thesis using c s(1) by (simp add: n m(1) rat_str_def m(2) skip_ws_cons)
qed

lemma json_value_literals:
  "0 < n \<Longrightarrow> json_value n (''null'' @ r) = Some (JNull, r)"
  "0 < n \<Longrightarrow> json_value n ((if b then ''true'' else ''false'') @ r) = Some (JBool b, r)"
  by (cases n; simp add: skip_ws_def json_ws_def)+

lemma json_value_str:
  assumes "2 * length (json_quote w) \<le> n"
  shows "json_value n (json_quote w @ r) = Some (JStr w, r)"
proof -
  obtain k where n: "n = Suc k" using assms by (cases n) (auto simp: json_quote_def)
  have "k > length w" using assms length_escape [of w] by (simp add: n json_quote_def)
  from json_quote_parse [OF this, of r] show ?thesis by (simp add: n json_quote_def skip_ws_def json_ws_def)
qed

lemma join_head: "join '','' (p # ps) = p @ (if ps = [] then [] else CHR '','' # join '','' ps)"
  by (cases ps) simp_all

lemma json_value_arr:
  assumes "json_plain x" "json_elems n (join '','' (json_ser_elems 0 ind (x # xs)) @ CHR '']'' # r) = Some (x # xs, r)"
  shows "json_value (Suc n) (json_ser 0 ind (JArr (x # xs)) @ r) = Some (JArr (x # xs), r)"
proof -
  obtain c t where c: "json_ser 0 ind x = c # t" "\<not> json_ws c" "c \<noteq> CHR '']''" using json_ser_head [OF assms(1)] by metis
  let ?t = "join '','' (json_ser_elems 0 ind (x # xs)) @ CHR '']'' # r"
  obtain u where u: "?t = c # u" using c(1) by (simp add: join_head)
  have "json_ser 0 ind (JArr (x # xs)) @ r = CHR ''['' # ?t" by (simp add: json_wrap_def)
  moreover have "json_value (Suc n) (CHR ''['' # ?t) = map_option (\<lambda>(xs, r). (JArr xs, r)) (json_elems n ?t)"
    unfolding u using c(2,3) by (simp add: skip_ws_def json_ws_def)
  ultimately show ?thesis using assms(2) by simp
qed

lemma json_value_obj:
  assumes "json_members n (join '','' (json_ser_members 0 ind ((k, v) # kvs)) @ CHR ''}'' # r) [] = Some ((k, v) # kvs, r)" "v \<noteq> JUndef"
  shows "json_value (Suc n) (json_ser 0 ind (JObj ((k, v) # kvs)) @ r) = Some (JObj ((k, v) # kvs), r)"
proof -
  let ?t = "join '','' (json_ser_members 0 ind ((k, v) # kvs)) @ CHR ''}'' # r"
  obtain u where u: "?t = DQ # u" using assms(2) by (simp add: join_head json_quote_def)
  have "json_ser 0 ind (JObj ((k, v) # kvs)) @ r = CHR ''{'' # ?t" using assms(2) by (simp add: json_wrap_def)
  moreover have "json_value (Suc n) (CHR ''{'' # ?t) = map_option (\<lambda>(kvs, r). (JObj kvs, r)) (json_members n ?t [])"
    unfolding u by (simp add: skip_ws_def json_ws_def)
  ultimately show ?thesis using assms(1) by simp
qed

lemma json_members_step:
  assumes "json_value n (json_ser 0 ind v @ c # r) = Some (v, c # r)" "length k < n" "c = CHR ''}'' \<or> c = CHR '',''"
  shows "json_members (Suc n) (json_quote k @ CHR '':'' # json_ser 0 ind v @ c # r) acc
    = (if c = CHR ''}'' then Some (obj_set acc k v, r) else json_members n r (obj_set acc k v))"
proof -
  have "json_chars n (concat (map json_escape_char k) @ DQ # CHR '':'' # json_ser 0 ind v @ c # r) = Some (k, CHR '':'' # json_ser 0 ind v @ c # r)"
    by (rule json_quote_parse [OF assms(2)])
  then show ?thesis using assms(1,3) by (auto simp: json_quote_def skip_ws_def json_ws_def)
qed

lemma json_value_ser:
  "json_plain v \<Longrightarrow> json_stop r \<Longrightarrow> 2 * length (json_ser 0 ind v) \<le> n \<Longrightarrow> json_value n (json_ser 0 ind v @ r) = Some (v, r)"
  "json_plain_elems xs \<Longrightarrow> xs \<noteq> [] \<Longrightarrow> 2 * length (join '','' (json_ser_elems 0 ind xs)) + 1 \<le> n
    \<Longrightarrow> json_elems n (join '','' (json_ser_elems 0 ind xs) @ CHR '']'' # r) = Some (xs, r)"
  "json_plain_members kvs \<Longrightarrow> kvs \<noteq> [] \<Longrightarrow> distinct (map fst (acc @ kvs)) \<Longrightarrow> 2 * length (join '','' (json_ser_members 0 ind kvs)) + 1 \<le> n
    \<Longrightarrow> json_members n (join '','' (json_ser_members 0 ind kvs) @ CHR ''}'' # r) acc = Some (acc @ kvs, r)"
proof (induction v and xs and kvs arbitrary: r ind n and r ind n and r ind n acc rule: json_plain_json_plain_elems_json_plain_members.induct)
  case 2
  then show ?case using json_value_literals(1) [of n r] by simp
next
  case (3 b)
  then show ?case using json_value_literals(2) [of n b r] by (cases n) (auto split: if_splits)
next
  case (4 m)
  then obtain q where "m = Fin q" by (cases m) auto
  moreover have "0 < n" using 4 json_ser_head [of "JNum m" ind] by (cases n) auto
  ultimately show ?case using 4 json_value_num [of m r n] by simp
next
  case (5 w)
  then show ?case using json_value_str by simp
next
  case (6 xs)
  show ?case
  proof (cases xs)
    case Nil
    then show ?thesis using 6 by (cases n) (simp_all add: json_wrap_def skip_ws_def json_ws_def)
  next
    case (Cons y ys)
    then obtain m where m: "n = Suc m" "2 * length (join '','' (json_ser_elems 0 ind xs)) + 1 \<le> m"
      using 6 by (cases n) (auto simp: json_wrap_def)
    then show ?thesis using 6 Cons json_value_arr [of y m ind ys r] by simp
  qed
next
  case (7 kvs)
  show ?case
  proof (cases kvs)
    case Nil
    then show ?thesis using 7 by (cases n) (simp_all add: json_wrap_def skip_ws_def json_ws_def)
  next
    case (Cons kv ys)
    obtain k v where kv: "kv = (k, v)" by (cases kv)
    then have v: "v \<noteq> JUndef" using 7 Cons by auto
    then obtain m where m: "n = Suc m" "2 * length (join '','' (json_ser_members 0 ind kvs)) + 1 \<le> m"
      using 7 Cons kv by (cases n) (auto simp: json_wrap_def)
    then show ?thesis using 7 Cons kv v json_value_obj [of m ind k v ys r] by simp
  qed
next
  case (9 x xs)
  then obtain m where m: "n = Suc m" by (cases n) auto
  show ?case
  proof (cases xs)
    case Nil
    then have "json_value m (json_ser 0 ind x @ CHR '']'' # r) = Some (x, CHR '']'' # r)" using 9 m by simp
    then show ?thesis using Nil by (simp add: m skip_ws_def json_ws_def)
  next
    case (Cons y ys)
    have "json_value m (json_ser 0 ind x @ CHR '','' # join '','' (json_ser_elems 0 ind xs) @ CHR '']'' # r)
        = Some (x, CHR '','' # join '','' (json_ser_elems 0 ind xs) @ CHR '']'' # r)"
      using 9 m Cons by simp
    moreover have "json_elems m (join '','' (json_ser_elems 0 ind xs) @ CHR '']'' # r) = Some (xs, r)"
      using 9 m Cons by simp
    ultimately show ?thesis using Cons by (simp add: m skip_ws_def json_ws_def)
  qed
next
  case (11 k v kvs)
  then obtain m where m: "n = Suc m" by (cases n) auto
  have v: "v \<noteq> JUndef" and k: "k \<notin> fst ` set acc" using 11 by auto
  have len: "length k < m" using 11 m v length_escape [of k] by (auto simp: join_head json_quote_def)
  show ?case
  proof (cases kvs)
    case Nil
    then have "json_value m (json_ser 0 ind v @ CHR ''}'' # r) = Some (v, CHR ''}'' # r)" using 11 m v by simp
    from json_members_step [OF this len] show ?thesis using Nil v k by (simp add: m obj_set_new)
  next
    case (Cons kv ys)
    let ?rest = "join '','' (json_ser_members 0 ind kvs) @ CHR ''}'' # r"
    have ne: "json_ser_members 0 ind kvs \<noteq> []" using 11 Cons by (cases kv) auto
    have "json_value m (json_ser 0 ind v @ CHR '','' # ?rest) = Some (v, CHR '','' # ?rest)"
      using 11 m v ne by (simp add: join_head)
    from json_members_step [OF this len, of acc]
    have "json_members n (join '','' (json_ser_members 0 ind ((k, v) # kvs)) @ CHR ''}'' # r) acc = json_members m ?rest (acc @ [(k, v)])"
      using v k ne by (simp add: m obj_set_new join_head)
    moreover have "json_members m ?rest (acc @ [(k, v)]) = Some ((acc @ [(k, v)]) @ kvs, r)"
      by (rule "11.IH"(2)) (use "11.prems" m v ne Cons in \<open>auto simp: join_head\<close>)
    ultimately show ?thesis by simp
  qed
qed simp_all

theorem json_parse_stringify: "json_plain v \<Longrightarrow> json_parse (json_stringify v) = Some v"
  using json_value_ser(1) [of v "[]" "[]" "2 * length (json_ser 0 [] v) + 2"] by (simp add: json_parse_def json_stringify_def skip_ws_def)

section \<open>Values that are not plain\<close>

text \<open>What \<open>JSON.stringify\<close> leaves out or writes as \<open>null\<close>: an undefined member, an undefined element, a
  number that is not finite.\<close>

fun json_clean :: "jsval \<Rightarrow> jsval"
  and json_clean_elems :: "jsval list \<Rightarrow> jsval list"
  and json_clean_members :: "jsobj \<Rightarrow> jsobj" where
  "json_clean JUndef = JNull"
| "json_clean JNull = JNull"
| "json_clean (JBool b) = JBool b"
| "json_clean (JNum n) = (if is_finite_num n then JNum n else JNull)"
| "json_clean (JStr s) = JStr s"
| "json_clean (JArr xs) = JArr (json_clean_elems xs)"
| "json_clean (JObj kvs) = JObj (json_clean_members kvs)"
| "json_clean_elems [] = []"
| "json_clean_elems (x # xs) = json_clean x # json_clean_elems xs"
| "json_clean_members [] = []"
| "json_clean_members ((k, v) # kvs) =
     (if v = JUndef then json_clean_members kvs else (k, json_clean v) # json_clean_members kvs)"

lemma json_clean_defined [simp]: "json_clean v \<noteq> JUndef"
  by (cases v) auto

lemma json_ser_clean:
  "json_ser gap ind (json_clean v) = json_ser gap ind v"
  "json_ser_elems gap ind (json_clean_elems xs) = json_ser_elems gap ind xs"
  "json_ser_members gap ind (json_clean_members kvs) = json_ser_members gap ind kvs"
  by (induction v and xs and kvs arbitrary: ind and ind and ind rule: json_clean_json_clean_elems_json_clean_members.induct) auto

theorem json_parse_clean: "json_plain (json_clean v) \<Longrightarrow> json_parse (json_stringify v) = Some (json_clean v)"
  using json_parse_stringify [of "json_clean v"] by (simp add: json_stringify_def json_ser_clean)

lemma json_plain_clean:
  "json_plain v \<Longrightarrow> json_clean v = v"
  "json_plain_elems xs \<Longrightarrow> json_clean_elems xs = xs"
  "json_plain_members kvs \<Longrightarrow> json_clean_members kvs = kvs"
proof (induction v and xs and kvs rule: json_plain_json_plain_elems_json_plain_members.induct)
  case (4 n)
  then show ?case by (cases n) auto
qed auto

lemma json_plain_lists:
  "json_plain_elems xs \<longleftrightarrow> (\<forall>x \<in> set xs. json_plain x)" "json_clean_elems xs = map json_clean xs"
  "json_plain_members kvs \<longleftrightarrow> (\<forall>v \<in> snd ` set kvs. json_plain v)"
  "json_clean_members kvs = map (\<lambda>(k, v). (k, json_clean v)) (filter (\<lambda>(k, v). v \<noteq> JUndef) kvs)"
  by (induction xs) (simp_all, (induction kvs, auto)+)

end
