(* ===== verification/Tab_Session.thy ===== *)
theory Tab_Session
  imports Tabs_Props JS_Json_Roundtrip
begin

text \<open>
  Saving the tabs in the session storage of the browser and restoring them after a reload:
  \<open>features/tabs/tab_session_state.js\<close>, with \<open>renderRestoredTabOutput\<close> of \<open>output.js\<close> as far as it writes to the
  tab. The storage is a list of keys and values in the order the browser keeps them. The timer that delays
  saving is left out: saving may happen at any time.
\<close>

section \<open>Saving\<close>

text \<open>\<open>String(line && line.key || '')\<close>.\<close>

definition str_prop :: "jsval \<Rightarrow> string \<Rightarrow> jsval" where
  "str_prop v k = JStr (str_or (jprop v k) [])"

text \<open>\<open>Number.isInteger(v) ? v : undefined\<close>.\<close>

definition int_or_undef :: "jsval \<Rightarrow> string \<Rightarrow> jsval" where
  "int_or_undef v k = (case int_prop v k of Some n \<Rightarrow> JNum n | None \<Rightarrow> JUndef)"

text \<open>An array of strings: \<open>map(x => String(x || '')).filter(Boolean)\<close>, empty if it is no array.\<close>

definition str_list :: "jsval \<Rightarrow> string list" where
  "str_list v = filter nonempty (map (\<lambda>x. str_or x []) (arr_items v))"

definition snapshot_line :: "jsval \<Rightarrow> jsval" where
  "snapshot_line line = JObj
     [(''text'', str_prop line ''text''), (''cls'', str_prop line ''cls''), (''kind'', str_prop line ''kind''),
      (''role'', str_prop line ''role''), (''tsC'', str_prop line ''tsC''), (''tsE'', str_prop line ''tsE''),
      (''signals'', JArr (map JStr (str_list (jprop line ''signals'')))),
      (''line_index'', int_or_undef line ''line_index''), (''line_number'', int_or_undef line ''line_number''),
      (''command_root'', str_prop line ''command_root''), (''target'', str_prop line ''target''),
      (''entities'', JArr (normalizeEntities (jprop line ''entities'')))]"

definition snapshotTabRawLines :: "jsval list \<Rightarrow> jsval list" where
  "snapshotTabRawLines rawLines = map snapshot_line rawLines"

text \<open>The items of a normalised summary as objects: the label and the tone only when there are any.\<close>

definition outcome_item_obj :: "outcome_item \<Rightarrow> jsval" where
  "outcome_item_obj item = JObj
     ((if oi_label item \<noteq> [] then [(''label'', JStr (oi_label item))] else [])
      @ [(''value'', JStr (oi_value item))]
      @ (if oi_tone item \<noteq> [] then [(''tone'', JStr (oi_tone item))] else []))"

definition snapshotTabCommandOutcomeSummary :: "jsval \<Rightarrow> jsval" where
  "snapshotTabCommandOutcomeSummary summary = (case normalizeCommandOutcomeSummary summary of
       None \<Rightarrow> JNull
     | Some s \<Rightarrow> JObj [(''title'', JStr (os_title s)), (''items'', JArr (map outcome_item_obj (os_items s)))])"

text \<open>\<open>v == null ? null : Number(v)\<close>, and \<open>Number.isFinite(Number(v)) ? Number(v) : null\<close>.\<close>

definition number_or_null :: "jsval \<Rightarrow> jsval" where
  "number_or_null v = (if v = JNull \<or> v = JUndef then JNull else JNum (to_num v))"

definition finite_or_null :: "jsval \<Rightarrow> jsval" where
  "finite_or_null v = (if is_finite_num (to_num v) then JNum (to_num v) else JNull)"

definition snapshot_tab :: "tab \<Rightarrow> jsval" where
  "snapshot_tab t = JObj
     [(''label'', JStr (tab_label t)), (''command'', JStr (tab_command t)), (''renamed'', JBool (tab_renamed t)),
      (''workspaceCwd'', JStr (tab_workspaceCwd t)), (''draftInput'', JStr (tab_draftInput t)),
      (''commandHistory'', JArr (map JStr (filter nonempty (tab_commandHistory t)))),
      (''st'', JStr (str_default (tab_st t) ''idle'')), (''exitCode'', number_or_null (tab_exitCode t)),
      (''runId'', JStr (str_or (tab_runId t) [])), (''historyRunId'', JStr (str_or (tab_historyRunId t) [])),
      (''historyRunKind'', JStr (tab_historyRunKind t)), (''lastEventId'', JStr (tab_lastEventId t)),
      (''attachMode'', JStr (tab_attachMode t)), (''reconnectedRun'', JBool (tab_reconnectedRun t)),
      (''runStart'', finite_or_null (tab_runStart t)), (''currentRunStartIndex'', finite_or_null (tab_currentRunStartIndex t)),
      (''previewTruncated'', JBool (tab_previewTruncated t)), (''fullOutputAvailable'', JBool (tab_fullOutputAvailable t)),
      (''fullOutputLoaded'', JBool (tab_fullOutputLoaded t)),
      (''commandOutcomeSummary'', snapshotTabCommandOutcomeSummary (tab_commandOutcomeSummary t)),
      (''rawLines'', JArr (snapshotTabRawLines (tab_rawLines t)))]"

definition flushActiveTabDraftForSessionState :: "tabs_page \<Rightarrow> tabs_page" where
  "flushActiveTabDraftForSessionState p = (case getActiveTab p of
       None \<Rightarrow> p
     | Some t \<Rightarrow> if running t then p else upd (tab_id t) (\<lambda>t. t\<lparr>tab_draftInput := composerValue (prompt p)\<rparr>) p)"

definition open_tabs :: "tabs_page \<Rightarrow> tab list" where
  "open_tabs p = filter (\<lambda>t. \<not> tab_closing t) (tabs p)"

definition active_index :: "tabs_page \<Rightarrow> nat" where
  "active_index p = (case index_of (activeTabId p) (map (\<lambda>t. Some (tab_id t)) (open_tabs p)) of Some i \<Rightarrow> i | None \<Rightarrow> 0)"

text \<open>The page afterwards (the draft of the active tab is brought up to date) and the snapshot.\<close>

definition tabSessionSnapshot :: "tabs_page \<Rightarrow> tabs_page \<times> jsval option" where
  "tabSessionSnapshot p =
     (let p = flushActiveTabDraftForSessionState p in
      (p, if open_tabs p = [] then None
          else Some (JObj [(''version'', JInt 1), (''activeIndex'', JInt (int (active_index p))),
            (''tabs'', JArr (map snapshot_tab (open_tabs p)))])))"

type_synonym storage = "(string \<times> string) list"

fun setItem :: "string \<Rightarrow> string \<Rightarrow> storage \<Rightarrow> storage" where
  "setItem k v [] = [(k, v)]"
| "setItem k v ((j, w) # st) = (if j = k then (j, v) # st else (j, w) # setItem k v st)"

definition removeItem :: "string \<Rightarrow> storage \<Rightarrow> storage" where
  "removeItem k st = filter (\<lambda>(j, w). j \<noteq> k) st"

definition session_key :: "string \<Rightarrow> string" where
  "session_key sid = ''tab_session_state:'' @ str_default sid ''session''"

text \<open>\<open>full\<close> says that the browser refuses to store the text; the error is caught.\<close>

definition persistTabSessionStateNow :: "bool \<Rightarrow> string \<Rightarrow> tabs_page \<times> storage \<Rightarrow> tabs_page \<times> storage" where
  "persistTabSessionStateNow full sid = (\<lambda>(p, st).
     if restoreInProgress p then (p, st)
     else (case tabSessionSnapshot p of
         (p, None) \<Rightarrow> (p, removeItem (session_key sid) st)
       | (p, Some snap) \<Rightarrow> (p, if full then st else setItem (session_key sid) (json_stringify snap) st)))"

section \<open>Restoring\<close>

definition readStoredTabSessionState :: "string \<Rightarrow> storage \<Rightarrow> string option" where
  "readStoredTabSessionState sid st = (case map_of st (session_key sid) of
       Some (c # cs) \<Rightarrow> Some (c # cs)
     | _ \<Rightarrow> map_option snd (find (\<lambda>(k, v). startsWith k ''tab_session_state:'' \<and> v \<noteq> []) st))"

definition normalizeRestoredWorkspaceCwd :: "string \<Rightarrow> string" where
  "normalizeRestoredWorkspaceCwd path = join ''/'' (filter nonempty (map trim (split_on CHR ''/'' path)))"

text \<open>The fields of a tab that are taken from a saved item, in both passes.\<close>

definition assign_item :: "jsval \<Rightarrow> tab \<Rightarrow> tab" where
  "assign_item item t = t\<lparr>
     tab_command := str_or (jprop item ''command'') [], tab_renamed := truthy (jprop item ''renamed''),
     tab_workspaceCwd := normalizeRestoredWorkspaceCwd (str_or (jprop item ''workspaceCwd'') []),
     tab_draftInput := str_or (jprop item ''draftInput'') [],
     tab_commandHistory := str_list (jprop item ''commandHistory''),
     tab_historyNavIndex := - 1, tab_historyNavDraft := [],
     tab_exitCode := (if truthy item then number_or_null (jprop item ''exitCode'') else JNum (to_num (jprop item ''exitCode''))),
     tab_runId := str_prop item ''runId'', tab_historyRunId := str_prop item ''historyRunId'',
     tab_historyRunKind := str_or (jprop item ''historyRunKind'') [], tab_lastEventId := str_or (jprop item ''lastEventId'') [],
     tab_attachMode := str_or (jprop item ''attachMode'') [], tab_reconnectedRun := truthy (jprop item ''reconnectedRun''),
     tab_runStart := finite_or_null (jprop item ''runStart''),
     tab_currentRunStartIndex := finite_or_null (jprop item ''currentRunStartIndex''),
     tab_previewTruncated := truthy (jprop item ''previewTruncated''),
     tab_fullOutputAvailable := truthy (jprop item ''fullOutputAvailable''),
     tab_fullOutputLoaded := truthy (jprop item ''fullOutputLoaded''),
     tab_commandOutcomeSummary := js_or (jprop item ''commandOutcomeSummary'') JNull\<rparr>"

definition restored_line :: "jsval \<Rightarrow> jsval" where
  "restored_line line = JObj
     [(''text'', str_prop line ''text''), (''cls'', str_prop line ''cls''), (''kind'', str_prop line ''kind''),
      (''role'', str_prop line ''role''), (''tsC'', str_prop line ''tsC''), (''tsE'', str_prop line ''tsE''),
      (''signals'', JArr (map JStr (normalizeSignals (jprop line ''signals'')))),
      (''line_index'', int_or_undef line ''line_index''), (''line_number'', int_or_undef line ''line_number''),
      (''command_root'', str_prop line ''command_root''), (''target'', str_prop line ''target''),
      (''entities'', JArr (normalizeEntities (jprop line ''entities'')))]"

text \<open>The summary it draws may also be written to the tab; the second pass of the caller overwrites it.\<close>

definition renderRestoredTabOutput :: "string \<Rightarrow> jsval \<Rightarrow> tabs_page \<Rightarrow> tabs_page" where
  "renderRestoredTabOutput i rawLines p =
     (let lines = map restored_line (arr_items rawLines) in
      upd i (\<lambda>t. (if lines \<noteq> [] then t\<lparr>tab_followOutput := True\<rparr> else t)\<lparr>tab_rawLines := lines\<rparr>) p)"

definition restored_status :: "jsval \<Rightarrow> string" where
  "restored_status item = (case jprop item ''st'' of JStr s \<Rightarrow> if s \<noteq> ''running'' then s else ''idle'' | _ \<Rightarrow> ''idle'')"

text \<open>The first pass: a tab for each item, as far as the limit allows. An item \<open>null\<close> throws when its exit
  code is read.\<close>

definition restore_item :: "page_env \<Rightarrow> nat \<Rightarrow> nat \<Rightarrow> jsval \<Rightarrow> tabs_page \<Rightarrow> tabs_page \<times> string option" where
  "restore_item env maxTabs index item p =
     (case createTab env maxTabs (str_or (jprop item ''label'') (createDefaultTabLabel (Some (Suc index)) p)) p of
        (p, None) \<Rightarrow> (p, None)
      | (p, Some i) \<Rightarrow>
          if item = JNull then (p, Some i)
          else (setTabStatus i (restored_status item)
                 (renderRestoredTabOutput i (jprop item ''rawLines'') (upd i (assign_item item) p)), Some i))"

fun restore_items :: "page_env \<Rightarrow> nat \<Rightarrow> nat \<Rightarrow> jsval list \<Rightarrow> tabs_page \<Rightarrow> tabs_page + tabs_page \<times> (string \<times> jsval) list" where
  "restore_items env maxTabs index [] p = Inr (p, [])"
| "restore_items env maxTabs index (item # items) p =
     (case restore_item env maxTabs index item p of
        (p, None) \<Rightarrow> restore_items env maxTabs (Suc index) items p
      | (p, Some i) \<Rightarrow>
          if item = JNull then Inl p
          else (case restore_items env maxTabs (Suc index) items p of
              Inl q \<Rightarrow> Inl q
            | Inr (q, recs) \<Rightarrow> Inr (q, (i, item) # recs)))"

text \<open>\<open>Math.max(0, Math.min(Number(v) || 0, n - 1))\<close>; \<^const>\<open>None\<close> if it is no index at all (a fraction).\<close>

definition restored_index :: "jsval \<Rightarrow> nat \<Rightarrow> nat option" where
  "restored_index v n = (case to_num v of
       NaN \<Rightarrow> Some 0
     | Infinity pos \<Rightarrow> Some (if pos then n - 1 else 0)
     | Fin r \<Rightarrow>
         if r \<le> 0 then Some 0 else if of_nat (n - 1) \<le> r then Some (n - 1)
         else if of_int \<lfloor>r\<rfloor> = r then Some (nat \<lfloor>r\<rfloor>) else None)"

text \<open>The value returned, an exception, or an index that is no index: then no tab would be active.\<close>

datatype restore_result = Returned bool | Threw | NoSuchIndex

definition cleared_page :: "tabs_page \<Rightarrow> tabs_page" where
  "cleared_page p = p\<lparr>tabs := [], activeTabId := None, tabBar := filter (\<lambda>n. n = None) (tabBar p), restoreInProgress := True\<rparr>"

definition restored_passes :: "page_env \<Rightarrow> nat \<Rightarrow> jsval \<Rightarrow> tabs_page \<Rightarrow> tabs_page \<times> restore_result" where
  "restored_passes env maxTabs parsed p =
     (case restore_items env maxTabs 0 (arr_items (jprop parsed ''tabs'')) (cleared_page p) of
        Inl q \<Rightarrow> (q, Threw)
      | Inr (q, recs) \<Rightarrow>
          (let q = fold (\<lambda>(i, item). upd i (assign_item item)) recs q in
           if recs = [] then (q, Returned False)
           else (case restored_index (jprop parsed ''activeIndex'') (length recs) of
               None \<Rightarrow> (q, NoSuchIndex)
             | Some n \<Rightarrow> (activateTab env (fst (recs ! n)) q, Returned True))))"

definition restoreTabSessionState :: "page_env \<Rightarrow> nat \<Rightarrow> string option \<Rightarrow> tabs_page \<Rightarrow> tabs_page \<times> restore_result" where
  "restoreTabSessionState env maxTabs stored p =
     (case json_parse (case stored of None \<Rightarrow> ''null'' | Some s \<Rightarrow> str_default s ''null'') of
        None \<Rightarrow> (p, Returned False)
      | Some parsed \<Rightarrow>
          if \<not> truthy parsed \<or> jprop parsed ''version'' \<noteq> JInt 1 \<or> \<not> is_arr (jprop parsed ''tabs'') \<or> arr_items (jprop parsed ''tabs'') = []
          then (p, Returned False)
          else (case restored_passes env maxTabs parsed p of (q, r) \<Rightarrow> (q\<lparr>restoreInProgress := False\<rparr>, r)))"

section \<open>Saved values read back\<close>

lemmas saved_get = obj_get_append obj_get_Cons obj_get_Nil obj_has_def

lemma str_list_strs [simp]: "str_list (JArr (map JStr xs)) = filter nonempty xs"
  by (simp add: str_list_def comp_def)

lemma str_list_twice [simp]: "filter nonempty (str_list v) = str_list v"
  by (simp add: str_list_def)

lemma signals_str_list: "normalizeSignals v = str_list v"
  by (simp add: normalizeSignals_def str_list_def)

lemma int_prop_JNum: "int_prop v k = Some n \<Longrightarrow> is_integer_num n"
  by (auto simp: int_prop_def split: jsval.splits if_splits)

text \<open>A normalised entity is a plain value and its own normal form.\<close>

lemma entity_cases:
  assumes "normalizeEntity e \<noteq> JNull"
  obtains ty va ca co src pos where
    "normalizeEntity e = JObj ([(''type'', JStr ty), (''value'', JStr va), (''canonical_value'', JStr ca), (''confidence'', JStr co)] @ src @ pos)"
    "trim ty = ty" "ty \<noteq> []" "trim va = va" "va \<noteq> []" "trim ca = ca" "ca \<noteq> []" "trim co = co" "co \<noteq> []"
    "src = [] \<or> (\<exists>n. src = [(''source_line'', JNum n)] \<and> is_integer_num n)"
    "pos = [] \<or> (\<exists>a b. pos = [(''start'', JNum a), (''end'', JNum b)] \<and> is_integer_num a \<and> is_integer_num b)"
proof -
  let ?ty = "trim (str_or (jprop e ''type'') [])" and ?ca = "trim (str_or (jprop e ''canonical_value'') [])"
  let ?va = "str_default (trim (str_or (jprop e ''value'') ?ca)) ?ca"
  let ?co = "str_default (trim (str_or (jprop e ''confidence'') ''medium'')) ''medium''"
  let ?src = "case int_prop e ''source_line'' of None \<Rightarrow> [] | Some n \<Rightarrow> [(''source_line'', JNum n)]"
  let ?pos = "case (int_prop e ''start'', int_prop e ''end'') of (Some a, Some b) \<Rightarrow> [(''start'', JNum a), (''end'', JNum b)] | _ \<Rightarrow> []"
  have h: "is_object e" "?ty \<noteq> []" "?ca \<noteq> []" using assms by (auto simp: normalizeEntity_def Let_def split: if_splits)
  have m: "trim ''medium'' = ''medium''" by code_simp
  show thesis
  proof (rule that [of ?ty ?va ?ca ?co ?src ?pos])
    show "normalizeEntity e = JObj ([(''type'', JStr ?ty), (''value'', JStr ?va), (''canonical_value'', JStr ?ca), (''confidence'', JStr ?co)] @ ?src @ ?pos)"
      using h by (simp add: normalizeEntity_def Let_def)
    show "?src = [] \<or> (\<exists>n. ?src = [(''source_line'', JNum n)] \<and> is_integer_num n)"
      using int_prop_JNum by (auto split: option.splits)
    show "?pos = [] \<or> (\<exists>a b. ?pos = [(''start'', JNum a), (''end'', JNum b)] \<and> is_integer_num a \<and> is_integer_num b)"
      using int_prop_JNum by (auto split: option.splits)
  qed (use h m in \<open>simp_all add: str_default_def\<close>)
qed

lemma entity_plain: "normalizeEntity e \<noteq> JNull \<Longrightarrow> json_plain (normalizeEntity e)"
  by (erule entity_cases) auto

lemma entity_twice:
  assumes "normalizeEntity e \<noteq> JNull"
  shows "normalizeEntity (normalizeEntity e) = normalizeEntity e"
  using assms
proof (rule entity_cases)
  fix ty va ca co src pos
  assume e: "normalizeEntity e = JObj ([(''type'', JStr ty), (''value'', JStr va), (''canonical_value'', JStr ca), (''confidence'', JStr co)] @ src @ pos)"
    and t: "trim ty = ty" "ty \<noteq> []" "trim va = va" "va \<noteq> []" "trim ca = ca" "ca \<noteq> []" "trim co = co" "co \<noteq> []"
    and src: "src = [] \<or> (\<exists>n. src = [(''source_line'', JNum n)] \<and> is_integer_num n)"
    and pos: "pos = [] \<or> (\<exists>a b. pos = [(''start'', JNum a), (''end'', JNum b)] \<and> is_integer_num a \<and> is_integer_num b)"
  have so: "str_or (JStr x) d = x" if "x \<noteq> []" for x d using that by (simp add: str_or_def js_or_def)
  show ?thesis
    using src pos unfolding e normalizeEntity_def [of "JObj _"]
    by (elim disjE exE conjE) (simp_all add: Let_def so str_default_def int_prop_def saved_get t)
qed

lemma entities_normal:
  "json_clean_elems (normalizeEntities v) = normalizeEntities v" "json_plain_elems (normalizeEntities v)"
  "normalizeEntities (JArr (normalizeEntities v)) = normalizeEntities v"
proof -
  have x: "normalizeEntity e \<noteq> JNull" if "truthy (normalizeEntity e)" for e using that by auto
  then show p: "json_plain_elems (normalizeEntities v)"
    unfolding json_plain_lists by (auto simp: normalizeEntities_def entity_plain)
  then show "json_clean_elems (normalizeEntities v) = normalizeEntities v" by (rule json_plain_clean)
  have "map normalizeEntity (normalizeEntities v) = normalizeEntities v"
    by (rule map_idI) (auto simp: normalizeEntities_def entity_twice x)
  then show "normalizeEntities (JArr (normalizeEntities v)) = normalizeEntities v"
    by (simp add: normalizeEntities_def [of "JArr _"]) (simp add: normalizeEntities_def)
qed

lemma strs_plain [simp]: "json_plain_elems (map JStr xs)" "json_clean_elems (map JStr xs) = map JStr xs"
  by (simp_all add: json_plain_lists)

text \<open>The lines of the output: what is restored is what was saved.\<close>

lemma line_saved:
  "restored_line (json_clean (snapshot_line l)) = snapshot_line l" "json_plain (json_clean (snapshot_line l))"
proof -
  have i: "int_or_undef v k = JUndef \<or> (\<exists>n. int_or_undef v k = JNum n \<and> is_integer_num n)" for v k
    using int_prop_JNum [of v k] by (auto simp: int_or_undef_def split: option.splits)
  have f: "is_finite_num n" if "is_integer_num n" for n using that by (cases n) auto
  have u: "int_prop v k = None" if "jprop v k = JUndef" for v k using that by (simp add: int_prop_def)
  have n: "int_prop v k = Some m" if "jprop v k = JNum m" "is_integer_num m" for v k m using that by (simp add: int_prop_def)
  obtain a where a: "int_or_undef l ''line_index'' = a" "a = JUndef \<or> (\<exists>n. a = JNum n \<and> is_integer_num n)" using i by blast
  obtain b where b: "int_or_undef l ''line_number'' = b" "b = JUndef \<or> (\<exists>n. b = JNum n \<and> is_integer_num n)" using i by blast
  show "restored_line (json_clean (snapshot_line l)) = snapshot_line l"
    using a(2) b(2) unfolding snapshot_line_def a(1) b(1)
    by (elim disjE exE conjE)
      (simp_all add: restored_line_def entities_normal signals_str_list f str_prop_def int_or_undef_def u n saved_get)
  show "json_plain (json_clean (snapshot_line l))"
    using a(2) b(2) unfolding snapshot_line_def a(1) b(1)
    by (elim disjE exE conjE) (simp_all add: entities_normal str_prop_def f)
qed

lemma lines_saved:
  "map restored_line (map json_clean (snapshotTabRawLines ls)) = snapshotTabRawLines ls"
  "json_plain_elems (map json_clean (snapshotTabRawLines ls))"
  by (simp_all add: snapshotTabRawLines_def line_saved json_plain_lists)

lemma summary_plain: "json_plain (snapshotTabCommandOutcomeSummary v)"
  by (auto simp: snapshotTabCommandOutcomeSummary_def outcome_item_obj_def json_plain_lists split: option.splits)

text \<open>A number field that holds \<open>null\<close> or a whole number.\<close>

definition whole_or_null :: "jsval \<Rightarrow> bool" where
  "whole_or_null v \<longleftrightarrow> (case v of JNull \<Rightarrow> True | JNum n \<Rightarrow> is_integer_num n | _ \<Rightarrow> False)"

lemma numbers_saved:
  assumes "whole_or_null v"
  shows "number_or_null v = v" "json_plain v" "json_clean v = v"
    "finite_or_null v = (if v = JNull then JInt 0 else v)"
proof -
  have "is_finite_num n" if "is_integer_num n" for n using that by (cases n) auto
  then show "number_or_null v = v" "json_plain v" "json_clean v = v" "finite_or_null v = (if v = JNull then JInt 0 else v)"
    using assms by (auto simp: whole_or_null_def number_or_null_def finite_or_null_def split: jsval.splits)
qed

text \<open>A tab as it comes back under the identifier \<open>i\<close>.\<close>

definition restored_tab :: "string \<Rightarrow> tab \<Rightarrow> tab" where
  "restored_tab i t = (new_tab i (tab_label t))\<lparr>
     tab_command := tab_command t, tab_renamed := tab_renamed t,
     tab_workspaceCwd := normalizeRestoredWorkspaceCwd (tab_workspaceCwd t),
     tab_draftInput := tab_draftInput t, tab_commandHistory := filter nonempty (tab_commandHistory t),
     tab_exitCode := tab_exitCode t,
     tab_runId := JStr (str_or (tab_runId t) []), tab_historyRunId := JStr (str_or (tab_historyRunId t) []),
     tab_historyRunKind := tab_historyRunKind t, tab_lastEventId := tab_lastEventId t, tab_attachMode := tab_attachMode t,
     tab_reconnectedRun := tab_reconnectedRun t,
     tab_runStart := (if tab_runStart t = JNull then JInt 0 else tab_runStart t),
     tab_currentRunStartIndex := (if tab_currentRunStartIndex t = JNull then JInt 0 else tab_currentRunStartIndex t),
     tab_previewTruncated := tab_previewTruncated t, tab_fullOutputAvailable := tab_fullOutputAvailable t,
     tab_fullOutputLoaded := tab_fullOutputLoaded t,
     tab_commandOutcomeSummary := snapshotTabCommandOutcomeSummary (tab_commandOutcomeSummary t),
     tab_rawLines := snapshotTabRawLines (tab_rawLines t),
     tab_st := (if tab_st t = [] \<or> tab_st t = ''running'' then ''idle'' else tab_st t)\<rparr>"

text \<open>What is assumed of a saved tab: it has a label, and its numbers are whole.\<close>

definition savable :: "tab \<Rightarrow> bool" where
  "savable t \<longleftrightarrow> tab_label t \<noteq> [] \<and> whole_or_null (tab_exitCode t) \<and> whole_or_null (tab_runStart t)
     \<and> whole_or_null (tab_currentRunStartIndex t)"

definition saved_item :: "tab \<Rightarrow> jsval" where
  "saved_item t = json_clean (snapshot_tab t)"

lemma saved_members:
  assumes "savable t"
  shows "saved_item t = JObj
     [(''label'', JStr (tab_label t)), (''command'', JStr (tab_command t)), (''renamed'', JBool (tab_renamed t)),
      (''workspaceCwd'', JStr (tab_workspaceCwd t)), (''draftInput'', JStr (tab_draftInput t)),
      (''commandHistory'', JArr (map JStr (filter nonempty (tab_commandHistory t)))),
      (''st'', JStr (str_default (tab_st t) ''idle'')), (''exitCode'', tab_exitCode t),
      (''runId'', JStr (str_or (tab_runId t) [])), (''historyRunId'', JStr (str_or (tab_historyRunId t) [])),
      (''historyRunKind'', JStr (tab_historyRunKind t)), (''lastEventId'', JStr (tab_lastEventId t)),
      (''attachMode'', JStr (tab_attachMode t)), (''reconnectedRun'', JBool (tab_reconnectedRun t)),
      (''runStart'', finite_or_null (tab_runStart t)), (''currentRunStartIndex'', finite_or_null (tab_currentRunStartIndex t)),
      (''previewTruncated'', JBool (tab_previewTruncated t)), (''fullOutputAvailable'', JBool (tab_fullOutputAvailable t)),
      (''fullOutputLoaded'', JBool (tab_fullOutputLoaded t)),
      (''commandOutcomeSummary'', snapshotTabCommandOutcomeSummary (tab_commandOutcomeSummary t)),
      (''rawLines'', JArr (map json_clean (snapshotTabRawLines (tab_rawLines t))))]"
proof -
  have d: "v \<noteq> JUndef" if "json_plain v" for v using that by auto
  have n: "number_or_null (tab_exitCode t) = tab_exitCode t" "json_clean (tab_exitCode t) = tab_exitCode t" "tab_exitCode t \<noteq> JUndef"
    using assms numbers_saved [of "tab_exitCode t"] d by (simp_all add: savable_def)
  have f: "json_clean (finite_or_null v) = finite_or_null v" "finite_or_null v \<noteq> JUndef" if "whole_or_null v" for v
    using that numbers_saved [OF that] d [of v] by auto
  have s: "json_clean (snapshotTabCommandOutcomeSummary v) = snapshotTabCommandOutcomeSummary v" "snapshotTabCommandOutcomeSummary v \<noteq> JUndef" for v
    using summary_plain [of v] json_plain_clean(1) d by auto
  show ?thesis
    using assms unfolding saved_item_def snapshot_tab_def n(1)
    by (simp add: n s f savable_def json_plain_lists(2))
qed

lemma item_plain: "savable t \<Longrightarrow> json_plain (saved_item t)"
  using numbers_saved [of "tab_exitCode t"] numbers_saved [of "tab_runStart t"] numbers_saved [of "tab_currentRunStartIndex t"]
  by (simp add: saved_members) (simp add: summary_plain lines_saved savable_def)

text \<open>Restoring one saved tab.\<close>

lemma item_restored:
  assumes "savable t" "u = new_tab i (tab_label t)"
  shows "(case assign_item (saved_item t) u of v \<Rightarrow>
      v\<lparr>tab_rawLines := map restored_line (arr_items (jprop (saved_item t) ''rawLines'')), tab_st := restored_status (saved_item t)\<rparr>) = restored_tab i t"
    "assign_item (saved_item t) (assign_item (saved_item t) w) = assign_item (saved_item t) w"
    "str_or (jprop (saved_item t) ''label'') d = tab_label t"
proof -
  have k: "finite_or_null (finite_or_null v) = (if v = JNull then JInt 0 else v)" if "whole_or_null v" for v
    using numbers_saved(4) [OF that] that by (simp add: finite_or_null_def)
  have s: "js_or (snapshotTabCommandOutcomeSummary v) JNull = snapshotTabCommandOutcomeSummary v" for v
    by (simp add: snapshotTabCommandOutcomeSummary_def js_or_def split: option.splits)
  have w: "whole_or_null (tab_exitCode t)" "whole_or_null (tab_runStart t)" "whole_or_null (tab_currentRunStartIndex t)" "tab_label t \<noteq> []"
    using assms by (simp_all add: savable_def)
  have so: "str_or (JStr x) d = x" if "x \<noteq> []" for x d using that by (simp add: str_or_def js_or_def)
  show "str_or (jprop (saved_item t) ''label'') d = tab_label t"
    by (simp add: saved_members [OF assms(1)] saved_get so w(4))
  show "assign_item (saved_item t) (assign_item (saved_item t) w) = assign_item (saved_item t) w" by (simp add: assign_item_def)
  show "(case assign_item (saved_item t) u of v \<Rightarrow>
      v\<lparr>tab_rawLines := map restored_line (arr_items (jprop (saved_item t) ''rawLines'')), tab_st := restored_status (saved_item t)\<rparr>) = restored_tab i t"
    unfolding assms(2) saved_members [OF assms(1)]
    by (simp add: assign_item_def restored_status_def restored_tab_def new_tab_def saved_get numbers_saved(1) w k s str_prop_def str_default_def lines_saved(1) [simplified])
qed

section \<open>The two passes\<close>

text \<open>A tab without what the prompt writes to it.\<close>

definition core :: "tab \<Rightarrow> tab" where
  "core t = t\<lparr>tab_commandHistory := [], tab_historyNavIndex := - 1, tab_historyNavDraft := [], tab_draftInput := []\<rparr>"

definition cores :: "tabs_page \<Rightarrow> tab list" where
  "cores p = map core (tabs p)"

lemma cores_upd: "(\<And>t. core (f t) = core t) \<Longrightarrow> cores (upd i f p) = cores p"
  by (simp add: cores_def upd_def)

lemma cores_with_prompt: "cores (with_prompt f p) = cores p"
proof -
  have "cores (p\<lparr>prompt := c\<rparr>) = cores p" for c by (simp add: cores_def)
  then show ?thesis by (simp add: with_prompt_def Let_def cores_upd core_def put_nav_def split: option.splits)
qed

lemma cores_activate: "cores (activateTab env i p) = cores p"
proof -
  have "cores (flush_draft prev i p) = cores p" for prev p
    by (simp add: flush_draft_def Let_def cores_upd core_def split: option.splits)
  moreover have "cores (p\<lparr>activeTabId := x\<rparr>) = cores p" for x p by (simp add: cores_def)
  ultimately show ?thesis by (simp add: activateTab_def Let_def cores_with_prompt)
qed

lemma restoring_frame [tab_frame]:
  "restoreInProgress (upd i f p) = restoreInProgress p" "restoreInProgress (with_prompt g p) = restoreInProgress p"
  "restoreInProgress (activateTab env i p) = restoreInProgress p"
proof -
  show u: "restoreInProgress (upd i f p) = restoreInProgress p" for i f p by (simp add: upd_def)
  show w: "restoreInProgress (with_prompt g p) = restoreInProgress p" for g p by (simp add: with_prompt_def Let_def u split: option.splits)
  have "restoreInProgress (flush_draft prev i p) = restoreInProgress p" for prev p
    by (simp add: flush_draft_def Let_def u split: option.splits)
  then show "restoreInProgress (activateTab env i p) = restoreInProgress p" by (simp add: activateTab_def Let_def w)
qed

lemma prompt_upd [tab_frame]: "prompt (upd i f p) = prompt p" "activeTabId (upd i f p) = activeTabId p" "tabSeq (upd i f p) = tabSeq p"
  by (simp_all add: upd_def)

lemma upd_upd: "(\<And>t. tab_id (f t) = tab_id t) \<Longrightarrow> upd i g (upd i f p) = upd i (\<lambda>t. g (f t)) p"
  by (simp add: upd_def)

lemma assign_core: "core u = core w \<Longrightarrow> assign_item x u = assign_item x w"
proof -
  have "assign_item x (core t) = assign_item x t" for t by (simp add: core_def assign_item_def)
  then show "core u = core w \<Longrightarrow> assign_item x u = assign_item x w" by metis
qed

lemma assign_id: "tab_id (assign_item x t) = tab_id t"
  by (simp add: assign_item_def)

lemma settled_fixed: "savable t \<Longrightarrow> assign_item (saved_item t) (restored_tab i t) = restored_tab i t"
proof -
  assume s: "savable t"
  have "assign_item x (assign_item x u\<lparr>tab_rawLines := r, tab_st := y\<rparr>) = assign_item x u\<lparr>tab_rawLines := r, tab_st := y\<rparr>" for x u r y
    by (simp add: assign_item_def)
  then show ?thesis using item_restored(1) [OF s refl, of i] by metis
qed

lemma restored_tab_fields: "tab_id (restored_tab i t) = i" "\<not> running (restored_tab i t)" "tab_content (restored_tab i t) = restored_tab i t"
  "tab_draftInput (restored_tab i t) = tab_draftInput t"
  by (simp_all add: restored_tab_def new_tab_def running_def tab_content_def)

lemma create_cores:
  assumes "\<not> at_limit m p"
  shows "cores (fst (createTab env m l p)) = cores p @ [core (new_tab (tab_name (Suc (tabSeq p))) (str_default l (createDefaultTabLabel None p)))]"
    "snd (createTab env m l p) = Some (tab_name (Suc (tabSeq p)))" "tabSeq (fst (createTab env m l p)) = Suc (tabSeq p)"
    "restoreInProgress (fst (createTab env m l p)) = restoreInProgress p" "\<not> histSearchMode (prompt (fst (createTab env m l p)))"
    "activeTabId (fst (createTab env m l p)) = Some (tab_name (Suc (tabSeq p)))"
proof -
  have "tabSeq (activateTab env i q) = tabSeq q" for i q using shape_activate [of env i q] by (simp add: shape_def activated_def)
  then show "tabSeq (fst (createTab env m l p)) = Suc (tabSeq p)" using assms by (simp add: createTab_def Let_def)
qed (use assms in \<open>simp_all add: createTab_def Let_def cores_activate tab_frame activate_mode\<close>, simp add: cores_def)

text \<open>One saved tab, below the limit.\<close>

lemma restore_item_saved:
  assumes "page_ok0 m p" "\<not> at_limit m p" "savable t"
  shows "\<exists>q. restore_item env m k (saved_item t) p = (q, Some (tab_name (Suc (tabSeq p)))) \<and> page_ok m q
    \<and> cores q = cores p @ [core (restored_tab (tab_name (Suc (tabSeq p))) t)] \<and> tabSeq q = Suc (tabSeq p)
    \<and> restoreInProgress q = restoreInProgress p \<and> \<not> histSearchMode (prompt q) \<and> activeTabId q \<noteq> None"
proof -
  let ?i = "tab_name (Suc (tabSeq p))" and ?l = "tab_label t"
  have l: "?l \<noteq> []" using assms(3) by (simp add: savable_def)
  define p' where "p' = fst (createTab env m ?l p)"
  note c = create_cores [OF assms(2), of env ?l, folded p'_def]
  have ok: "page_ok m p'" unfolding p'_def by (rule page_ok_create [OF assms(1,2)])
  have new: "str_default ?l d = ?l" for d using l by (simp add: str_default_def)
  define raw where "raw = jprop (saved_item t) ''rawLines''"
  have item: "saved_item t \<noteq> JNull" by (simp add: saved_members [OF assms(3)])
  define f where "f = (\<lambda>u. let u = assign_item (saved_item t) u; ls = map restored_line (arr_items raw);
      u = (if ls \<noteq> [] then u\<lparr>tab_followOutput := True\<rparr> else u)\<lparr>tab_rawLines := ls\<rparr>; u = u\<lparr>tab_st := restored_status (saved_item t)\<rparr>
     in (clearRunningLabelTimer u)\<lparr>tab_runningLabel := []\<rparr>)"
  have nr: "restored_status x \<noteq> ''running''" for x by (auto simp: restored_status_def split: jsval.splits)
  have f_id: "tab_id (f u) = tab_id u" for u by (simp add: f_def Let_def assign_id clearRunningLabelTimer_def)
  have steps: "setTabStatus ?i (restored_status (saved_item t)) (renderRestoredTabOutput ?i raw (upd ?i (assign_item (saved_item t)) p')) = upd ?i f p'"
    unfolding setTabStatus_def renderRestoredTabOutput_def Let_def f_def
    by (subst upd_upd, simp add: assign_id) (subst upd_upd, simp add: assign_id, use nr in \<open>simp add: assign_id\<close>)
  have r: "restore_item env m k (saved_item t) p = (upd ?i f p', Some ?i)"
  proof -
    have "createTab env m ?l p = (p', Some ?i)" using c(2) by (simp add: p'_def prod_eq_iff)
    then show ?thesis using item steps by (simp add: restore_item_def item_restored(3) [OF assms(3) refl] raw_def)
  qed
  have f_new: "f u = restored_tab ?i t" if "core u = core (new_tab ?i ?l)" for u
  proof -
    have a: "assign_item (saved_item t) u = assign_item (saved_item t) (new_tab ?i ?l)" using that by (rule assign_core)
    have n: "tab_followOutput (assign_item x (new_tab ?i ?l))" "tab_runningLabel (assign_item x (new_tab ?i ?l)) = []"
      "tab_runningLabelTimer (assign_item x (new_tab ?i ?l)) = None" for x by (simp_all add: assign_item_def new_tab_def)
    show ?thesis unfolding f_def Let_def a raw_def item_restored(1) [OF assms(3) refl, of ?i, symmetric]
      using n [of "saved_item t"] by (simp add: clearRunningLabelTimer_def tab.equality)
  qed
  obtain us u where us: "tabs p' = us @ [u]" "map core us = cores p" "core u = core (new_tab ?i ?l)"
  proof -
    have "cores p' = cores p @ [core (new_tab ?i ?l)]" using c(1) new by simp
    then show thesis using that by (auto simp: cores_def map_eq_append_conv)
  qed
  have "tab_id u = ?i" using arg_cong [OF us(3), of tab_id] by (simp add: core_def new_tab_def)
  then have "\<forall>x \<in> set us. tab_id x \<noteq> ?i" using page_ok_parts(1) [OF ok] us(1) by (auto simp: tab_ids_def image_iff)
  then have "tabs (upd ?i f p') = us @ [restored_tab ?i t]"
    using us(1) f_new [OF us(3)] \<open>tab_id u = ?i\<close> by (simp add: upd_def map_idI)
  then have "cores (upd ?i f p') = cores p @ [core (restored_tab ?i t)]" using us(2) by (simp add: cores_def)
  moreover have "page_ok m (upd ?i f p')" using ok by (simp add: upd_known f_id)
  ultimately show ?thesis using r c(3-6) by (simp add: tab_frame)
qed

definition names :: "nat \<Rightarrow> nat \<Rightarrow> string list" where
  "names n len = map tab_name [Suc n..<Suc (n + len)]"

lemma names_Suc: "names n (Suc len) = tab_name (Suc n) # names (Suc n) len"
  unfolding names_def by (subst upt_conv_Cons) simp_all

lemma names_length [simp]: "length (names n len) = len"
  by (simp add: names_def)

lemma names_distinct: "distinct (names n len)"
  by (simp add: names_def distinct_map inj_on_def tab_name_inj)

lemma restore_items_saved:
  assumes "page_ok0 m p" "m > 0 \<longrightarrow> length (tabs p) + length ts \<le> m" "\<forall>t \<in> set ts. savable t"
  shows "\<exists>q. restore_items env m k (map saved_item ts) p = Inr (q, zip (names (tabSeq p) (length ts)) (map saved_item ts)) \<and> page_ok0 m q
    \<and> cores q = cores p @ map core (map2 restored_tab (names (tabSeq p) (length ts)) ts)
    \<and> restoreInProgress q = restoreInProgress p \<and> (ts \<noteq> [] \<longrightarrow> \<not> histSearchMode (prompt q) \<and> activeTabId q \<noteq> None)"
  using assms
proof (induction ts arbitrary: p k)
  case Nil
  then show ?case by (simp add: names_def)
next
  case (Cons t ts)
  have lim: "\<not> at_limit m p" using Cons.prems(2) by (auto simp: at_limit_def)
  have s: "savable t" "saved_item t \<noteq> JNull" using Cons.prems(3) by (simp_all add: saved_members)
  obtain q where q: "restore_item env m k (saved_item t) p = (q, Some (tab_name (Suc (tabSeq p))))" "page_ok m q"
    "cores q = cores p @ [core (restored_tab (tab_name (Suc (tabSeq p))) t)]" "tabSeq q = Suc (tabSeq p)"
    "restoreInProgress q = restoreInProgress p" "\<not> histSearchMode (prompt q)" "activeTabId q \<noteq> None"
    using restore_item_saved [OF Cons.prems(1) lim s(1), of env k] by blast
  have len: "length (tabs q) = Suc (length (tabs p))" using arg_cong [OF q(3), of length] by (simp add: cores_def)
  have "page_ok0 m q" "m > 0 \<longrightarrow> length (tabs q) + length ts \<le> m" "\<forall>t \<in> set ts. savable t"
    using q(2) Cons.prems(2,3) len by (auto simp: page_ok0_def)
  from Cons.IH [OF this, of "Suc k"] obtain r where r:
    "restore_items env m (Suc k) (map saved_item ts) q = Inr (r, zip (names (tabSeq q) (length ts)) (map saved_item ts))" "page_ok0 m r"
    "cores r = cores q @ map core (map2 restored_tab (names (tabSeq q) (length ts)) ts)"
    "restoreInProgress r = restoreInProgress q" "ts \<noteq> [] \<longrightarrow> \<not> histSearchMode (prompt r) \<and> activeTabId r \<noteq> None"
    by blast
  have "r = q" if "ts = []" using r(1) that by (simp add: names_def)
  then show ?case using q r s(2) by (cases "ts = []") (simp_all add: names_Suc)
qed

text \<open>The second pass writes every restored tab again.\<close>

lemma second_pass_frame:
  "prompt (fold (\<lambda>(i, x). upd i (assign_item x)) recs q) = prompt q"
  "restoreInProgress (fold (\<lambda>(i, x). upd i (assign_item x)) recs q) = restoreInProgress q"
  "activeTabId (fold (\<lambda>(i, x). upd i (assign_item x)) recs q) = activeTabId q"
  by (induction recs arbitrary: q) (auto simp: tab_frame)

lemma second_pass:
  assumes "distinct (map fst recs)"
  shows "tabs (fold (\<lambda>(i, x). upd i (assign_item x)) recs q)
      = map (\<lambda>t. case map_of recs (tab_id t) of None \<Rightarrow> t | Some x \<Rightarrow> assign_item x t) (tabs q)"
  using assms
proof (induction recs arbitrary: q)
  case (Cons r recs)
  obtain i x where r: "r = (i, x)" by (cases r)
  have i: "map_of recs i = None" using Cons.prems r by (simp add: map_of_eq_None_iff)
  show ?case using Cons.IH [of "upd i (assign_item x) q"] Cons.prems r i by (auto simp: upd_def assign_id)
qed simp

lemma passes_settled:
  assumes "cores q = map core (map2 restored_tab ns ts)" "length ns = length ts" "distinct ns" "\<forall>t \<in> set ts. savable t"
  shows "tabs (fold (\<lambda>(i, x). upd i (assign_item x)) (zip ns (map saved_item ts)) q) = map2 restored_tab ns ts"
proof -
  let ?recs = "zip ns (map saved_item ts)"
  have d: "distinct (map fst ?recs)" using assms(2,3) by simp
  have len: "length (tabs q) = length ts" using arg_cong [OF assms(1), of length] assms(2) by (simp add: cores_def)
  have "(case map_of ?recs (tab_id (tabs q ! n)) of None \<Rightarrow> tabs q ! n | Some x \<Rightarrow> assign_item x (tabs q ! n)) = restored_tab (ns ! n) (ts ! n)"
    if n: "n < length ts" for n
  proof -
    have c: "core (tabs q ! n) = core (restored_tab (ns ! n) (ts ! n))"
      using arg_cong [OF assms(1), of "\<lambda>l. l ! n"] n len assms(2) by (simp add: cores_def)
    have "tab_id (tabs q ! n) = ns ! n" using arg_cong [OF c, of tab_id] by (simp add: core_def restored_tab_fields)
    moreover have "map_of ?recs (ns ! n) = Some (saved_item (ts ! n))"
      using d n assms(2) by (intro map_of_is_SomeI) (auto simp: set_zip)
    moreover have "savable (ts ! n)" using assms(4) n by simp
    ultimately show ?thesis using assign_core [OF c] settled_fixed by simp
  qed
  then show ?thesis unfolding second_pass [OF d] using len assms(2) by (intro nth_equalityI) simp_all
qed

section \<open>Round trip\<close>

lemma map2_settled_ids: "length ns = length ts \<Longrightarrow> map tab_id (map2 restored_tab ns ts) = ns"
  by (intro nth_equalityI) (simp_all add: restored_tab_fields)

lemma passes_saved:
  assumes "ts \<noteq> []" "\<forall>t \<in> set ts. savable t" "m > 0 \<longrightarrow> length ts \<le> m" "n < length ts"
    and "p = fresh_page\<lparr>prompt := c\<rparr>" "jprop parsed ''tabs'' = JArr (map saved_item ts)" "jprop parsed ''activeIndex'' = JInt (int n)"
  shows "\<exists>q. restored_passes env m parsed p = (q, Returned True) \<and> contents q = map2 restored_tab (names 0 (length ts)) ts
    \<and> activeTabId q = Some (tab_name (Suc n)) \<and> composerValue (prompt q) = tab_draftInput (ts ! n)"
proof -
  let ?ns = "names 0 (length ts)" and ?p = "cleared_page p"
  let ?recs = "zip ?ns (map saved_item ts)"
  have p: "page_ok0 m ?p" "tabs ?p = []" "tabSeq ?p = 0" "restoreInProgress ?p" "cores ?p = []"
    using assms(5) by (simp_all add: page_ok0_def cleared_page_def fresh_page_def cores_def)
  obtain q where q: "restore_items env m 0 (map saved_item ts) ?p = Inr (q, ?recs)" "cores q = map core (map2 restored_tab ?ns ts)"
    "restoreInProgress q" "\<not> histSearchMode (prompt q)" "activeTabId q \<noteq> None"
    using restore_items_saved [OF p(1), of ts env 0] assms(1-3) p(2-5) by auto
  define r where "r = fold (\<lambda>(i, x). upd i (assign_item x)) ?recs q"
  have tabs: "tabs r = map2 restored_tab ?ns ts"
    unfolding r_def by (rule passes_settled [OF q(2) _ names_distinct assms(2)]) simp
  have fr: "prompt r = prompt q" "restoreInProgress r" "activeTabId r = activeTabId q"
    using q(3) by (simp_all add: r_def second_pass_frame)
  have ids: "tab_ids r = ?ns" unfolding tab_ids_def tabs by (rule map2_settled_ids) simp
  have nonempty: "?recs \<noteq> []" using assms(1) names_length [of 0 "length ts"] by (metis length_0_conv length_map length_zip min.idem)
  have idx: "restored_index (JInt (int n)) (length ?recs) = Some n"
    using assms(4) by (auto simp: restored_index_def)
  have name: "fst (?recs ! n) = ?ns ! n" "?ns ! n = tab_name (Suc n)" using assms(4) by (simp_all add: names_def del: upt_Suc)
  let ?a = "tab_name (Suc n)"
  define v where "v = r\<lparr>activeTabId := Some ?a\<rparr>"
  have leave: "leave_tab env ?a r = v" unfolding v_def by (rule leave_quiet) (use q(4) fr in simp_all)
  have t: "getTab ?a v = Some (restored_tab ?a (ts ! n))"
  proof -
    have "restored_tab ?a (ts ! n) \<in> set (tabs v)"
      unfolding v_def using nth_mem [of n "tabs r"] assms(4) name(2) by (simp add: tabs)
    moreover have "distinct (tab_ids v)" using names_distinct ids by (simp add: v_def tab_ids_def)
    ultimately show ?thesis using getTab_known restored_tab_fields(1) by blast
  qed
  have "composerValue (prompt (show_tab env (activeTabId r) ?a v)) = tab_draftInput (ts ! n)"
    using show_tab_shows [of v ?a "activeTabId r" "tab_draftInput (ts ! n)" env] t q(4,5) fr
    by (simp add: v_def [symmetric] Let_def running_of_def draft_of_def restored_tab_fields) (simp add: v_def)
  moreover have "contents (show_tab env (activeTabId r) ?a v) = contents v"
    by (rule contents_show) (use ids names_distinct q(4) fr in \<open>simp_all add: v_def tab_ids_def\<close>)
  moreover have "contents v = map2 restored_tab ?ns ts"
    unfolding contents_def v_def by (rule nth_equalityI) (simp_all add: tabs restored_tab_fields)
  moreover have "restored_passes env m parsed p = (activateTab env ?a r, Returned True)"
    unfolding restored_passes_def assms(6,7) arr_items.simps q(1) sum.case prod.case Let_def r_def [symmetric] idx option.case name
    using nonempty by simp
  moreover have "activateTab env ?a r = show_tab env (activeTabId r) ?a v" by (simp add: activate_parts leave)
  moreover have "activeTabId (activateTab env ?a r) = Some ?a" by (rule active_activate)
  ultimately show ?thesis by simp
qed

lemma active_index_less: "open_tabs p \<noteq> [] \<Longrightarrow> active_index p < length (open_tabs p)"
  using index_of_less [of "activeTabId p" "map (\<lambda>t. Some (tab_id t)) (open_tabs p)"] by (auto simp: active_index_def split: option.splits)

lemma stored_read: "json_stringify v \<noteq> [] \<Longrightarrow> readStoredTabSessionState sid (setItem (session_key sid) (json_stringify v) st) = Some (json_stringify v)"
proof -
  have "map_of (setItem k w st) k = Some w" for k w by (induction st) auto
  then show "json_stringify v \<noteq> [] \<Longrightarrow> readStoredTabSessionState sid (setItem (session_key sid) (json_stringify v) st) = Some (json_stringify v)"
    by (simp add: readStoredTabSessionState_def split: list.splits)
qed

lemma restore_snapshot:
  assumes "open_tabs p \<noteq> []" "\<forall>t \<in> set (open_tabs p). savable t" "m > 0 \<longrightarrow> length (open_tabs p) \<le> m"
    and "snap = JObj [(''version'', JInt 1), (''activeIndex'', JInt (int (active_index p))), (''tabs'', JArr (map snapshot_tab (open_tabs p)))]"
  shows "\<exists>q. restoreTabSessionState env m (readStoredTabSessionState sid (setItem (session_key sid) (json_stringify snap) st)) (fresh_page\<lparr>prompt := c\<rparr>)
      = (q, Returned True)
    \<and> contents q = map2 restored_tab (names 0 (length (open_tabs p))) (open_tabs p)
    \<and> activeTabId q = Some (tab_name (Suc (active_index p))) \<and> composerValue (prompt q) = tab_draftInput (open_tabs p ! active_index p)"
proof -
  let ?ts = "open_tabs p"
  let ?parsed = "JObj [(''version'', JInt 1), (''activeIndex'', JInt (int (active_index p))), (''tabs'', JArr (map saved_item ?ts))]"
  have clean: "json_clean snap = ?parsed" by (simp add: assms(4) json_plain_lists(2) saved_item_def)
  have plain: "json_plain ?parsed" using assms(2) by (simp add: json_plain_lists(1) item_plain)
  have parse: "json_parse (json_stringify snap) = Some ?parsed" using json_parse_clean [of snap] plain by (simp add: clean)
  have ne: "json_stringify snap \<noteq> []" by (simp add: assms(4) json_stringify_def json_wrap_def)
  have pr: "jprop ?parsed ''tabs'' = JArr (map saved_item ?ts)" "jprop ?parsed ''activeIndex'' = JInt (int (active_index p))"
    "jprop ?parsed ''version'' = JInt 1" "truthy ?parsed"
    by (simp_all add: saved_get)
  obtain q where q: "restored_passes env m ?parsed (fresh_page\<lparr>prompt := c\<rparr>) = (q, Returned True)"
    "contents q = map2 restored_tab (names 0 (length ?ts)) ?ts" "activeTabId q = Some (tab_name (Suc (active_index p)))"
    "composerValue (prompt q) = tab_draftInput (?ts ! active_index p)"
    using passes_saved [OF assms(1-3) active_index_less [OF assms(1)] refl pr(1,2), where c = c and env = env] by blast
  have "restoreTabSessionState env m (Some (json_stringify snap)) (fresh_page\<lparr>prompt := c\<rparr>) = (q\<lparr>restoreInProgress := False\<rparr>, Returned True)"
    unfolding restoreTabSessionState_def option.case str_default_def if_P [OF ne] parse pr(1,3) arr_items.simps q(1)
    using assms(1) pr(4) by simp
  then show ?thesis using stored_read [OF ne] q by (simp add: contents_def)
qed


section \<open>Findings\<close>

text \<open>
  What the output model calls noise is lost: a line that is noise by its metadata is saved without it, and is an
  ordinary line of output after the reload.
\<close>

lemma noise_kind_not_saved:
  "let l = JObj [(''text'', JStr ''MIIDdzCCAl''), (''kind'', JStr ''output''), (''role'', JStr ''body''), (''noise_kind'', JStr ''boilerplate'')] in
   isNoiseLineEvent (fst (fromWireLineEvent l)) \<and> \<not> isNoiseLineEvent (fst (fromWireLineEvent (snapshot_line l)))"
  by code_simp

text \<open>A tab that never ran has no start of a run; saving makes it the start 0.\<close>

lemma saved_run_start: "tab_runStart (restored_tab i (new_tab j l)) = JInt 0" "tab_runStart (new_tab j l) = JNull"
  by (simp_all add: restored_tab_def new_tab_def)

section \<open>Witness\<close>

text \<open>Three tabs: a renamed one with output and a directory, a running one, and the active one with a line being typed.\<close>

definition worked_page :: "tabs_page option" where
  "worked_page = run_all tab_enabled (tab_step 8 50)
     (three_tabs @ map (Pair quiet_page)
       [RenameTab ''tab-2'' ''shell 2'' ''scan'', TabStatus ''tab-3'' ''running'', PromptEvent (Paste ''dig a'')])
     (first_page quiet_page 8)"


end
