(* ===== verification/Terminal_Output.thy ===== *)
theory Terminal_Output
  imports Outcome_Parsers
begin

text \<open>
  The terminal panel of a tab, \<open>app/static/js/output.js\<close>: how a line is normalised, numbered, batched,
  rendered or skipped, and recorded in the transcript of the tab.

  The state of a panel joins the fields of the tab that \<open>output.js\<close> uses (the transcript \<open>rawLines\<close>, the
  counts of signals, the counter of line numbers, the state of the high-volume mode), the children of the
  output element (its lines, then the prompt if it is mounted there) and the pending batch of the tab.
  An entry of the batch and the transcript share the object of a raw line, and the flush writes the line
  number into it, so raw lines are references into a store of objects. A line element is a record of its
  classes and \<open>data\<close> attributes with the text it shows; the markup inside a line (ANSI colours, entity
  tokens, chips) and the scroll position are not modelled, nor are panels that are gone (every operation
  then returns at once). A pending batch that was never created is an empty one.

  A timer of the batch may fire at any moment: a flush that was run directly leaves its timer behind, so
  the flush is an event that is always possible.
\<close>

section \<open>The environment of a call\<close>

text \<open>Configuration, modes, the clock and what other modules answer at the time of a call.
  A configured maximum of zero or less is no maximum.\<close>

record out_env =
  max_output_lines :: int
  hv_threshold_config :: jsval
  hv_interval_config :: jsval
  builtin_roots :: "string list"
  prompt_prefix_text :: string
  now_ms :: int
  clock_text :: "int \<Rightarrow> string"
  locale_count :: "nat \<Rightarrow> string"
  ln_mode :: string
  ts_mode :: string
  summaries_enabled :: bool
  restore_running :: bool
  tab_is_active :: bool

section \<open>Normalising the arguments\<close>

definition payload_keys :: "string list" where
  "payload_keys = [''kind'', ''role'', ''signals'', ''line_index'', ''line_number'', ''command_root'', ''target'',
     ''entities'', ''noise_kind'', ''noise_reason'']"

definition metadata_keys :: "string list" where
  "metadata_keys = payload_keys @ [''high_volume_resume'', ''live_output'', ''faq_command'']"

definition fill_key :: "jsval \<Rightarrow> jsobj \<Rightarrow> string \<Rightarrow> jsobj" where
  "fill_key md payload k =
     (if obj_get payload k = JUndef \<and> jprop md k \<noteq> JUndef then obj_set payload k (jprop md k) else payload)"

definition override_key :: "jsval \<Rightarrow> jsobj \<Rightarrow> string \<Rightarrow> jsobj" where
  "override_key md payload k = (if jprop md k \<noteq> JUndef then obj_set payload k (jprop md k) else payload)"

definition overridden :: "jsval \<Rightarrow> jsobj \<Rightarrow> jsobj" where
  "overridden md payload = (if is_object md then foldl (override_key md) payload payload_keys else payload)"

definition lineEventPayload :: "jsval \<Rightarrow> jsval \<Rightarrow> jsval \<Rightarrow> jsval" where
  "lineEventPayload text cls metadata =
     (if is_object text then
        let payload = obj_entries text; own = obj_get payload ''metadata'';
            payload = (if is_object own then foldl (fill_key own) payload payload_keys else payload)
        in JObj (overridden metadata payload)
      else JObj (overridden metadata [(''text'', JStr (to_str (js_nullish text (JStr [])))), (''cls'', JStr (str_or cls []))]))"

definition merge_key :: "jsval \<Rightarrow> jsobj \<Rightarrow> string \<Rightarrow> jsobj" where
  "merge_key source merged k =
     (let v = jprop source k in if v = JUndef \<or> v = JNull \<or> v = JStr [] then merged else obj_set merged k v)"

definition merge_source :: "jsobj \<Rightarrow> jsval \<Rightarrow> jsobj" where
  "merge_source merged source = (if is_object source then foldl (merge_key source) merged metadata_keys else merged)"

text \<open>The merged metadata; the empty object stands for \<open>null\<close>, which every reader treats alike.\<close>

definition mergeLineEventMetadata :: "jsval \<Rightarrow> jsval \<Rightarrow> jsobj" where
  "mergeLineEventMetadata payload metadata =
     foldl merge_source [] [if is_object payload then jprop payload ''metadata'' else JNull, metadata, payload]"

definition normalizeLineEventInput :: "jsval \<Rightarrow> jsval \<Rightarrow> jsval \<Rightarrow> line_event \<times> jsobj" where
  "normalizeLineEventInput text cls metadata =
     (let payload = lineEventPayload text cls metadata in
      (fst (fromWireLineEvent payload), mergeLineEventMetadata payload metadata))"

definition normalizeAppendLinesEntry :: "jsval \<Rightarrow> line_event \<times> jsobj" where
  "normalizeAppendLinesEntry entry =
     (if is_object entry then normalizeLineEventInput entry (JStr []) (js_or (jprop entry ''metadata'') JNull)
      else normalizeLineEventInput (JStr (to_str (js_nullish entry (JStr [])))) (JStr []) JNull)"

section \<open>Lines\<close>

record out_span =
  sp_text :: string
  sp_classes :: "string list"
  sp_role :: string
  sp_tsC :: string
  sp_tsE :: string
  sp_lineNumber :: "int option"
  sp_prefix :: "string option"
  sp_signals :: "string list"
  sp_lineIndex :: "jsval"
  sp_commandRoot :: string
  sp_signalTarget :: string
  sp_span_entities :: "jsval list"
  sp_resumeButton :: bool

record out_entry =
  en_span :: out_span
  en_raw :: nat
  en_role :: string

definition coalesced_roles :: "string list" where
  "coalesced_roles = [''progress'', ''status-line'']"

definition coalescedOutputRoleForEvent :: "line_event \<Rightarrow> string" where
  "coalescedOutputRoleForEvent event = (let role = trim (ev_role event) in if role \<in> set coalesced_roles then role else [])"

definition coalescedOutputRoleForLine :: "out_span \<Rightarrow> string" where
  "coalescedOutputRoleForLine line =
     (let role = trim (sp_role line) in
      if role \<in> set coalesced_roles then role
      else if ''progress'' \<in> set (sp_classes line) then ''progress''
      else if ''status-line'' \<in> set (sp_classes line) then ''status-line''
      else [])"

definition isWelcomeLine :: "out_span \<Rightarrow> bool" where
  "isWelcomeLine line \<longleftrightarrow> list_ex (\<lambda>cls. startsWith cls ''welcome-'' \<or> startsWith cls ''wlc-'') (sp_classes line)"

definition isPrefixExcludedLine :: "out_span \<Rightarrow> bool" where
  "isPrefixExcludedLine line \<longleftrightarrow> isWelcomeLine line \<or> list_ex isSyntheticSummaryClassName (sp_classes line)"

text \<open>\<open>typeof m.k === 'string' && m.k\<close> and \<open>Number.isInteger(m.k)\<close>.\<close>

definition given_str :: "jsobj \<Rightarrow> string \<Rightarrow> string" where
  "given_str md k = (case obj_get md k of JStr s \<Rightarrow> s | _ \<Rightarrow> [])"

definition given_int :: "jsobj \<Rightarrow> string \<Rightarrow> int option" where
  "given_int md k = (case int_prop (JObj md) k of Some (Fin r) \<Rightarrow> Some \<lfloor>r\<rfloor> | _ \<Rightarrow> None)"

definition put_str :: "string \<Rightarrow> jsobj \<Rightarrow> jsobj \<Rightarrow> jsobj" where
  "put_str k md raw = (if given_str md k \<noteq> [] then obj_set raw k (JStr (given_str md k)) else raw)"

definition put_int :: "string \<Rightarrow> jsobj \<Rightarrow> jsobj \<Rightarrow> jsobj" where
  "put_int k md raw = (case given_int md k of None \<Rightarrow> raw | Some i \<Rightarrow> obj_set raw k (JInt i))"

text \<open>\<open>_applyOutputSignalMetadata\<close>, its effect on the raw line and on the line element.\<close>

definition raw_metadata :: "jsobj \<Rightarrow> jsobj \<Rightarrow> jsobj" where
  "raw_metadata md raw =
     (let raw = foldl (\<lambda>raw k. put_str k md raw) raw [''kind'', ''role'', ''noise_kind'', ''noise_reason''];
          signals = normalizeSignals (obj_get md ''signals'');
          raw = (if signals \<noteq> [] then obj_set raw ''signals'' (JArr (map JStr signals)) else raw);
          raw = put_int ''line_number'' md (put_int ''line_index'' md raw);
          raw = put_str ''target'' md (put_str ''command_root'' md raw);
          entities = normalizeEntities (obj_get md ''entities'')
      in if entities \<noteq> [] then obj_set raw ''entities'' (JArr entities) else raw)"

definition span_metadata :: "jsobj \<Rightarrow> out_span \<Rightarrow> out_span" where
  "span_metadata md node = node\<lparr>sp_signals := normalizeSignals (obj_get md ''signals''),
     sp_lineIndex := (case given_int md ''line_index'' of None \<Rightarrow> JUndef | Some i \<Rightarrow> JInt i),
     sp_lineNumber := given_int md ''line_number'',
     sp_commandRoot := given_str md ''command_root'', sp_signalTarget := given_str md ''target'',
     sp_span_entities := normalizeEntities (obj_get md ''entities'')\<rparr>"

definition isPromptEchoLineEvent :: "line_event \<Rightarrow> bool" where
  "isPromptEchoLineEvent event \<longleftrightarrow> ev_role event = ''prompt-echo''"

definition elapsed_text :: "out_env \<Rightarrow> int \<Rightarrow> string" where
  "elapsed_text env runStart =
     (if runStart \<noteq> 0 then ''+'' @ toFixed 1 (of_int (now_ms env - runStart) / 1000) @ ''s'' else ''+0.0s'')"

text \<open>\<open>_rawOutputLine\<close>, which \<open>_buildOutputLine\<close> repeats.\<close>

definition rawOutputLine :: "out_env \<Rightarrow> int \<Rightarrow> line_event \<Rightarrow> jsobj \<Rightarrow> jsval" where
  "rawOutputLine env runStart event md =
     (let tsC = take 8 (clock_text env (now_ms env)); tsE = elapsed_text env runStart;
          text = (if isPromptEchoLineEvent event
                  then prompt_prefix_text env @ (if ev_text event \<noteq> [] then '' '' @ ev_text event else []) else ev_text event)
      in JObj (raw_metadata md (obj_set (obj_set (legacyPayload (event\<lparr>ev_text := text, ts_clock := tsC, ts_elapsed := tsE\<rparr>))
           ''tsC'' (JStr tsC)) ''tsE'' (JStr tsE))))"

definition line_classes :: "string \<Rightarrow> bool \<Rightarrow> string list" where
  "line_classes cls blank = ''line'' # ws_words cls @ (if blank then [''is-blank''] else [])"

definition buildOutputLine :: "out_env \<Rightarrow> int \<Rightarrow> line_event \<Rightarrow> jsobj \<Rightarrow> out_span" where
  "buildOutputLine env runStart event md = span_metadata md
     \<lparr>sp_text = ev_text event,
      sp_classes = line_classes (legacyClsForEvent event) (ev_text event = [] \<and> \<not> isPromptEchoLineEvent event),
      sp_role = ev_role event, sp_tsC = take 8 (clock_text env (now_ms env)), sp_tsE = elapsed_text env runStart,
      sp_lineNumber = None, sp_prefix = None, sp_signals = [], sp_lineIndex = JUndef, sp_commandRoot = [], sp_signalTarget = [],
      sp_span_entities = [],
      sp_resumeButton = (\<not> isPromptEchoLineEvent event \<and> truthy (obj_get md ''high_volume_resume''))\<rparr>"

section \<open>The panel\<close>

record hv_state =
  hv_active :: bool
  receivedLines :: nat
  skippedLines :: nat
  coalescedLines :: rat
  lastNoticeLine :: nat
  resumeRequested :: bool
  resumeDisabled :: bool
  finalSummaryShown :: bool

definition fresh_hv :: hv_state where
  "fresh_hv = \<lparr>hv_active = False, receivedLines = 0, skippedLines = 0, coalescedLines = 0, lastNoticeLine = 0,
     resumeRequested = False, resumeDisabled = False, finalSummaryShown = False\<rparr>"

record out_batch =
  pending_items :: "out_entry list"
  pending_raw :: "nat list"
  batch_scheduled :: bool
  burstCount :: nat

definition empty_batch :: out_batch where
  "empty_batch = \<lparr>pending_items = [], pending_raw = [], batch_scheduled = False, burstCount = 0\<rparr>"

record out_panel =
  pn_running :: bool
  pn_runStart :: int
  pn_command :: string
  pn_runStartIndex :: "int option"
  pn_outcome :: "outcome_summary option"
  pn_deferPrompt :: bool
  pn_raw :: "nat list"
  pn_objs :: "nat \<Rightarrow> jsval"
  pn_next :: nat
  pn_counts :: "string \<Rightarrow> nat"
  pn_countsValid :: bool
  pn_tabCounter :: int
  pn_outCounter :: int
  pn_lines :: "out_span list"
  pn_prompt :: "(int \<times> string) option"
  pn_prefixWidth :: nat
  pn_hv :: hv_state
  pn_batch :: out_batch
  pn_promptMounts :: nat

definition raw_lines :: "out_panel \<Rightarrow> jsval list" where
  "raw_lines p = map (pn_objs p) (pn_raw p)"

definition new_raw :: "jsval \<Rightarrow> out_panel \<Rightarrow> nat \<times> out_panel" where
  "new_raw v p = (pn_next p, p\<lparr>pn_objs := (pn_objs p)(pn_next p := v), pn_next := Suc (pn_next p)\<rparr>)"

definition number_raw :: "nat \<Rightarrow> int \<Rightarrow> out_panel \<Rightarrow> out_panel" where
  "number_raw r n p = p\<lparr>pn_objs := (pn_objs p)(r := JObj (obj_set (obj_entries (pn_objs p r)) ''line_number'' (JInt n)))\<rparr>"

section \<open>Counting signals\<close>

text \<open>\<open>_adjustTabOutputSignalCounts\<close> with the delta 1 or -1; a count never falls below 0.\<close>

definition adjust_counts :: "out_env \<Rightarrow> bool \<Rightarrow> out_panel \<Rightarrow> jsval \<Rightarrow> out_panel" where
  "adjust_counts env up p rawLine =
     (let scopes = countableSignalScopes rawLine (builtin_roots env) in
      if scopes = [] then p
      else p\<lparr>pn_counts := foldl (\<lambda>c scope. c(scope := (if up then Suc (c scope) else c scope - 1))) (pn_counts p) scopes,
             pn_countsValid := True\<rparr>)"

definition resetTabOutputSignalCounts :: "out_env \<Rightarrow> out_panel \<Rightarrow> jsval list \<Rightarrow> out_panel" where
  "resetTabOutputSignalCounts env p rawLines =
     foldl (adjust_counts env True) (p\<lparr>pn_counts := (\<lambda>_. 0), pn_countsValid := True\<rparr>) rawLines"

definition syncTabRawLines :: "out_env \<Rightarrow> nat \<Rightarrow> out_panel \<Rightarrow> out_panel" where
  "syncTabRawLines env r p =
     (let p = adjust_counts env True (p\<lparr>pn_raw := pn_raw p @ [r]\<rparr>) (pn_objs p r);
          m = max_output_lines env
      in if 0 < m \<and> m < int (length (pn_raw p)) then
           let removed = length (pn_raw p) - nat m; gone = take removed (pn_raw p);
               p = p\<lparr>pn_raw := drop removed (pn_raw p)\<rparr>;
               p = foldl (adjust_counts env False) p (map (pn_objs p) gone)
           in (case pn_runStartIndex p of
                 Some i \<Rightarrow> if 0 \<le> i then p\<lparr>pn_runStartIndex := Some (max 0 (i - int removed))\<rparr> else p
               | None \<Rightarrow> p)
         else p)"

section \<open>Numbers and prefixes\<close>

definition number_of :: "out_span \<Rightarrow> int" where
  "number_of line = (case sp_lineNumber line of None \<Rightarrow> 0 | Some n \<Rightarrow> n)"

definition set_counters :: "int \<Rightarrow> out_panel \<Rightarrow> out_panel" where
  "set_counters n p = p\<lparr>pn_tabCounter := n, pn_outCounter := n\<rparr>"

definition assignOutputLineNumber :: "out_span \<Rightarrow> out_panel \<Rightarrow> int \<times> out_span \<times> out_panel" where
  "assignOutputLineNumber line p =
     (if isPrefixExcludedLine line then (0, line\<lparr>sp_lineNumber := None\<rparr>, p)
      else let existing = number_of line in
        if existing > 0
        then (existing, line, p\<lparr>pn_tabCounter := max (pn_tabCounter p) existing, pn_outCounter := max (pn_outCounter p) existing\<rparr>)
        else let n = max (pn_tabCounter p) (pn_outCounter p) + 1
             in (n, line\<lparr>sp_lineNumber := Some n\<rparr>, set_counters n p))"

definition assignRawOutputLineNumber :: "nat \<Rightarrow> out_panel \<Rightarrow> out_panel" where
  "assignRawOutputLineNumber r p =
     (let existing = (case num_or_zero (jprop (pn_objs p r) ''line_number'') of Fin q \<Rightarrow> \<lfloor>q\<rfloor> | _ \<Rightarrow> 0) in
      if existing > 0
      then p\<lparr>pn_tabCounter := max (pn_tabCounter p) existing, pn_outCounter := max (pn_outCounter p) existing\<rparr>
      else let n = max (pn_tabCounter p) (pn_outCounter p) + 1 in set_counters n (number_raw r n p))"

definition lineTimestampPrefix :: "out_env \<Rightarrow> out_span \<Rightarrow> string" where
  "lineTimestampPrefix env line =
     (if ts_mode env = ''elapsed'' then sp_tsE line else if ts_mode env = ''clock'' then sp_tsC line else [])"

definition line_prefix :: "out_env \<Rightarrow> out_span \<Rightarrow> string" where
  "line_prefix env line = (if isPrefixExcludedLine line then [] else lineTimestampPrefix env line)"

definition promptTimestampPrefix :: "out_env \<Rightarrow> string" where
  "promptTimestampPrefix env =
     (if ts_mode env = ''elapsed'' then ''+0.0s''
      else if ts_mode env = ''clock'' then take 8 (clock_text env (now_ms env)) else [])"

definition prefixWidthForOutput :: "out_env \<Rightarrow> out_panel \<Rightarrow> nat" where
  "prefixWidthForOutput env p =
     (let timestamps = (ts_mode env = ''elapsed'' \<or> ts_mode env = ''clock'');
          lineDigits = (if ln_mode env = ''on'' then length (int_str (max 1 (pn_outCounter p + 1))) else 0);
          timestampWidth = (if timestamps then 8 else 0)
      in if ln_mode env \<noteq> ''on'' \<and> \<not> timestamps then 0
         else lineDigits + timestampWidth + (if lineDigits \<noteq> 0 \<and> timestampWidth \<noteq> 0 then 1 else 0))"

text \<open>\<open>_syncOutputPrefixesForAppend\<close> without its line, which the callers below treat.\<close>

definition sync_prompt_prefix :: "out_env \<Rightarrow> out_panel \<Rightarrow> out_panel" where
  "sync_prompt_prefix env p = p\<lparr>pn_prompt := map_option (\<lambda>_. (pn_outCounter p + 1, promptTimestampPrefix env)) (pn_prompt p),
     pn_prefixWidth := prefixWidthForOutput env p\<rparr>"

section \<open>Coalescing and trimming\<close>

text \<open>A progress or status line takes the place of the line before it if that has the same role.\<close>

definition coalescible :: "out_panel \<Rightarrow> out_entry \<Rightarrow> bool" where
  "coalescible p entry \<longleftrightarrow> en_role entry \<noteq> [] \<and> pn_lines p \<noteq> [] \<and> coalescedOutputRoleForLine (last (pn_lines p)) = en_role entry"

definition coalescedReplacementLineNumber :: "out_panel \<Rightarrow> out_entry \<Rightarrow> int" where
  "coalescedReplacementLineNumber p entry = (if coalescible p entry then number_of (last (pn_lines p)) else 0)"

definition replace_last_line :: "out_span \<Rightarrow> out_panel \<Rightarrow> out_panel" where
  "replace_last_line node p =
     (let previous = last (pn_lines p);
          node = (if sp_lineNumber previous \<noteq> None then node\<lparr>sp_lineNumber := sp_lineNumber previous\<rparr> else node)
      in p\<lparr>pn_lines := butlast (pn_lines p) @ [node]\<rparr>)"

definition trimOutputToMaxLines :: "out_env \<Rightarrow> out_panel \<Rightarrow> out_panel" where
  "trimOutputToMaxLines env p =
     (let m = max_output_lines env in
      if 0 < m then p\<lparr>pn_lines := drop (length (pn_lines p) - nat m) (pn_lines p)\<rparr> else p)"

text \<open>Numbering an entry: the number of the line it replaces, or the next one. The raw line gets it too.\<close>

definition number_entry :: "bool \<Rightarrow> out_entry \<Rightarrow> out_panel \<Rightarrow> out_entry \<times> out_panel" where
  "number_entry may_replace entry p =
     (let replacement = (if may_replace then coalescedReplacementLineNumber p entry else 0);
          (lineNumber, node, p) = (if replacement \<noteq> 0 then (replacement, en_span entry, p) else assignOutputLineNumber (en_span entry) p);
          node = (if replacement > 0 then node\<lparr>sp_lineNumber := Some replacement\<rparr> else node);
          p = (if lineNumber > 0 then number_raw (en_raw entry) lineNumber p else p)
      in (entry\<lparr>en_span := node\<rparr>, p))"

section \<open>The pending batch\<close>

definition queuePendingOutputEntry :: "out_entry \<Rightarrow> out_entry list \<Rightarrow> out_entry list" where
  "queuePendingOutputEntry entry items =
     (if en_role entry \<noteq> [] \<and> items \<noteq> [] \<and> en_role (last items) = en_role entry
      then butlast items @ [entry] else items @ [entry])"

definition batch_size :: nat where
  "batch_size = 300"

definition sync_burst_limit :: nat where
  "sync_burst_limit = 60"

definition set_batch :: "(out_batch \<Rightarrow> out_batch) \<Rightarrow> out_panel \<Rightarrow> out_panel" where
  "set_batch f p = p\<lparr>pn_batch := f (pn_batch p)\<rparr>"

definition nothing_pending :: "out_panel \<Rightarrow> bool" where
  "nothing_pending p \<longleftrightarrow> pending_items (pn_batch p) = [] \<and> pending_raw (pn_batch p) = []"

definition hasPendingOutputBatch :: "out_panel \<Rightarrow> bool" where
  "hasPendingOutputBatch p \<longleftrightarrow> batch_scheduled (pn_batch p) \<or> \<not> nothing_pending p"

definition discardPendingOutputBatch :: "out_panel \<Rightarrow> out_panel" where
  "discardPendingOutputBatch p = p\<lparr>pn_batch := empty_batch\<rparr>"

definition schedulePendingOutputFlush :: "out_panel \<Rightarrow> out_panel" where
  "schedulePendingOutputFlush p = set_batch (\<lambda>b. b\<lparr>batch_scheduled := True\<rparr>) p"

definition maybeMountDeferredPrompt :: "out_env \<Rightarrow> out_panel \<Rightarrow> out_panel" where
  "maybeMountDeferredPrompt env p =
     (if \<not> pn_deferPrompt p \<or> pn_running p \<or> restore_running env \<or> hasPendingOutputBatch p then p
      else p\<lparr>pn_deferPrompt := False, pn_promptMounts := pn_promptMounts p + (if tab_is_active env then 1 else 0)\<rparr>)"

text \<open>The entries of a batch are numbered in turn; only the first may take the place of a line.\<close>

fun number_entries :: "bool \<Rightarrow> out_entry list \<Rightarrow> out_panel \<Rightarrow> out_entry list \<times> out_panel" where
  "number_entries first [] p = ([], p)"
| "number_entries first (e # es) p =
     (let (e', p) = number_entry first e p; (es', p) = number_entries False es p in (e' # es', p))"

definition mount_batch :: "out_env \<Rightarrow> out_entry list \<Rightarrow> out_panel \<Rightarrow> out_panel" where
  "mount_batch env batch p =
     (let (batch, p) = number_entries True batch p;
          batch = map (\<lambda>e. e\<lparr>en_span := (en_span e)\<lparr>sp_prefix := Some (line_prefix env (en_span e))\<rparr>\<rparr>) batch
      in case batch of
           [] \<Rightarrow> p
         | e # es \<Rightarrow>
             if coalescible p e
             then let p = replace_last_line (en_span e) p in p\<lparr>pn_lines := pn_lines p @ map en_span es\<rparr>
             else p\<lparr>pn_lines := pn_lines p @ map en_span (e # es)\<rparr>)"

text \<open>Whether lines are left to append after the first one took the place of a line.\<close>

definition mounts_lines :: "out_entry list \<Rightarrow> out_panel \<Rightarrow> bool" where
  "mounts_lines batch p \<longleftrightarrow> (case batch of [] \<Rightarrow> False | e # es \<Rightarrow> \<not> coalescible p e \<or> es \<noteq> [])"

definition take_batch :: "out_panel \<Rightarrow> out_panel" where
  "take_batch p = set_batch (\<lambda>b. b\<lparr>batch_scheduled := False, pending_items := drop batch_size (pending_items b),
     pending_raw := drop batch_size (pending_raw b)\<rparr>) p"

definition after_flush :: "out_env \<Rightarrow> out_panel \<Rightarrow> out_panel" where
  "after_flush env p =
     (if \<not> nothing_pending p then schedulePendingOutputFlush p
      else maybeMountDeferredPrompt env (set_batch (\<lambda>b. b\<lparr>burstCount := 0\<rparr>) p))"

definition flushPendingOutputBatch :: "out_env \<Rightarrow> out_panel \<Rightarrow> out_panel" where
  "flushPendingOutputBatch env p =
     (let batch = take batch_size (pending_items (pn_batch p)); rawBatch = take batch_size (pending_raw (pn_batch p));
          q = foldl (\<lambda>q r. syncTabRawLines env r q) (mount_batch env batch (take_batch p)) rawBatch;
          q = (if mounts_lines batch p then trimOutputToMaxLines env q else q)
      in after_flush env (if batch \<noteq> [] then sync_prompt_prefix env q else q))"

section \<open>Draining the batch\<close>

text \<open>What a flush does to the batch itself: it takes the first entries and raw lines off.\<close>

lemma fold_keeps: "(\<And>p x. g (f p x) = g p) \<Longrightarrow> g (foldl f p xs) = g p"
  by (induction xs arbitrary: p) simp_all

lemma batch_of_numbering:
  "pn_batch (number_raw r n p) = pn_batch p" "pn_batch (snd (snd (assignOutputLineNumber node p))) = pn_batch p"
  "pn_batch (snd (number_entry b e p)) = pn_batch p"
  by (simp_all add: number_raw_def assignOutputLineNumber_def set_counters_def number_entry_def Let_def case_prod_beta)

lemma batch_of_entries: "pn_batch (snd (number_entries b es p)) = pn_batch p"
  by (induction es arbitrary: b p) (simp_all add: batch_of_numbering Let_def case_prod_beta)

lemma batch_of_mount: "pn_batch (mount_batch env es p) = pn_batch p"
  by (simp add: mount_batch_def Let_def case_prod_beta replace_last_line_def batch_of_entries split: list.splits)

lemma batch_of_counts: "pn_batch (adjust_counts env up p v) = pn_batch p"
  by (simp add: adjust_counts_def Let_def)

lemma batch_of_sync: "pn_batch (syncTabRawLines env r p) = pn_batch p"
  by (simp add: syncTabRawLines_def Let_def batch_of_counts fold_keeps [where g = pn_batch] split: option.splits)

lemma batch_of_prefix: "pn_batch (trimOutputToMaxLines env p) = pn_batch p" "pn_batch (sync_prompt_prefix env p) = pn_batch p"
  "pn_batch (maybeMountDeferredPrompt env p) = pn_batch p"
  by (simp_all add: trimOutputToMaxLines_def sync_prompt_prefix_def maybeMountDeferredPrompt_def Let_def)

lemmas batch_frame = batch_of_mount batch_of_sync batch_of_prefix batch_of_counts

lemma flush_batch:
  "pending_items (pn_batch (flushPendingOutputBatch env p)) = drop batch_size (pending_items (pn_batch p))"
  "pending_raw (pn_batch (flushPendingOutputBatch env p)) = drop batch_size (pending_raw (pn_batch p))"
  by (simp_all add: flushPendingOutputBatch_def Let_def after_flush_def schedulePendingOutputFlush_def take_batch_def set_batch_def
      nothing_pending_def batch_frame fold_keeps [where g = pn_batch])

text \<open>\<open>_flushPendingOutputBeforeHighVolumeSkip\<close>: flush until nothing is pending.\<close>

function flush_all :: "out_env \<Rightarrow> out_panel \<Rightarrow> out_panel" where
  "flush_all env p = (if nothing_pending p then p else flush_all env (flushPendingOutputBatch env p))"
  by auto
termination
  by (relation "measure (\<lambda>(env, p). length (pending_items (pn_batch p)) + length (pending_raw (pn_batch p)))")
    (auto simp: flush_batch nothing_pending_def batch_size_def neq_Nil_conv)

declare flush_all.simps [simp del]

section \<open>High-volume output\<close>

definition highVolumeOutputLineThreshold :: "out_env \<Rightarrow> nat" where
  "highVolumeOutputLineThreshold env = (case to_num (hv_threshold_config env) of Fin r \<Rightarrow> nat \<lfloor>r\<rfloor> | _ \<Rightarrow> 50000)"

definition highVolumeOutputStatusIntervalLines :: "out_env \<Rightarrow> nat" where
  "highVolumeOutputStatusIntervalLines env = (case to_num (hv_interval_config env) of Fin r \<Rightarrow> max 1 (nat \<lfloor>r\<rfloor>) | _ \<Rightarrow> 50000)"

definition set_hv :: "(hv_state \<Rightarrow> hv_state) \<Rightarrow> out_panel \<Rightarrow> out_panel" where
  "set_hv f p = p\<lparr>pn_hv := f (pn_hv p)\<rparr>"

definition is_live :: "jsobj \<Rightarrow> bool" where
  "is_live md \<longleftrightarrow> obj_get md ''live_output'' = JBool True"

definition shouldSkipLiveOutputRender :: "out_env \<Rightarrow> jsobj \<Rightarrow> out_panel \<Rightarrow> bool \<times> out_panel" where
  "shouldSkipLiveOutputRender env md p =
     (if \<not> is_live md then (False, p)
      else let p = set_hv (\<lambda>h. h\<lparr>receivedLines := Suc (receivedLines h)\<rparr>) p;
               threshold = highVolumeOutputLineThreshold env
           in if threshold = 0 \<or> resumeRequested (pn_hv p) \<or> resumeDisabled (pn_hv p) then (False, p)
              else let p = (if \<not> hv_active (pn_hv p) \<and> threshold < receivedLines (pn_hv p)
                            then set_hv (\<lambda>h. h\<lparr>hv_active := True\<rparr>) p else p)
                   in (hv_active (pn_hv p), p))"

section \<open>Appending one line\<close>

text \<open>The part of \<open>appendLine\<close> for a line that is rendered: at once, or queued when a flush is due or the
  burst is too long.\<close>

definition should_batch :: "out_panel \<Rightarrow> bool" where
  "should_batch p \<longleftrightarrow> batch_scheduled (pn_batch p) \<or> pending_items (pn_batch p) \<noteq> [] \<or> sync_burst_limit \<le> burstCount (pn_batch p)"

definition new_entry :: "out_env \<Rightarrow> line_event \<Rightarrow> jsobj \<Rightarrow> out_panel \<Rightarrow> out_entry \<times> out_panel" where
  "new_entry env event md p =
     (let (r, p') = new_raw (rawOutputLine env (pn_runStart p) event md) p
      in (\<lparr>en_span = buildOutputLine env (pn_runStart p) event md, en_raw = r, en_role = coalescedOutputRoleForEvent event\<rparr>, p'))"

definition queue_entry :: "out_entry \<Rightarrow> out_panel \<Rightarrow> out_panel" where
  "queue_entry entry p = set_batch (\<lambda>b. b\<lparr>pending_items := queuePendingOutputEntry entry (pending_items b),
     pending_raw := pending_raw b @ [en_raw entry]\<rparr>) p"

definition render_entry :: "out_env \<Rightarrow> out_entry \<Rightarrow> out_panel \<Rightarrow> out_panel" where
  "render_entry env entry p =
     (let (entry, p) = number_entry True entry p;
          p = set_batch (\<lambda>b. b\<lparr>burstCount := Suc (burstCount b)\<rparr>) p;
          node = en_span entry;
          p = (if coalescible p entry then replace_last_line node p
               else trimOutputToMaxLines env (p\<lparr>pn_lines := pn_lines p @ [node\<lparr>sp_prefix := Some (line_prefix env node)\<rparr>]\<rparr>));
          p = sync_prompt_prefix env p
      in syncTabRawLines env (en_raw entry) p)"

definition append_rendered :: "out_env \<Rightarrow> line_event \<Rightarrow> jsobj \<Rightarrow> out_panel \<Rightarrow> out_panel" where
  "append_rendered env event md p =
     (let (entry, p') = new_entry env event md p in
      if should_batch p then schedulePendingOutputFlush (queue_entry entry p') else render_entry env entry p')"

text \<open>A notice of the panel itself: \<open>appendLine(text, 'notice', tabId, metadata)\<close> with metadata that is not live.\<close>

definition append_notice :: "out_env \<Rightarrow> string \<Rightarrow> jsval \<Rightarrow> out_panel \<Rightarrow> out_panel" where
  "append_notice env text metadata p =
     (let (event, md) = normalizeLineEventInput (JStr text) (JStr ''notice'') metadata in append_rendered env event md p)"

definition hv_notice_text :: "out_env \<Rightarrow> hv_state \<Rightarrow> string" where
  "hv_notice_text env h = ''[high-volume output mode: '' @ locale_count env (receivedLines h) @ '' lines received; live rendering paused]''"

definition appendHighVolumeOutputNotice :: "out_env \<Rightarrow> bool \<Rightarrow> out_panel \<Rightarrow> out_panel" where
  "appendHighVolumeOutputNotice env force p =
     (let h = pn_hv p in
      if \<not> force \<and> int (receivedLines h) - int (lastNoticeLine h) < int (highVolumeOutputStatusIntervalLines env) then p
      else append_notice env (hv_notice_text env h)
        (JObj [(''high_volume_resume'', JBool True)]) (set_hv (\<lambda>h. h\<lparr>lastNoticeLine := receivedLines h\<rparr>) p))"

text \<open>A skipped line is recorded and numbered, but not rendered.\<close>

definition record_skipped :: "out_env \<Rightarrow> line_event \<Rightarrow> jsobj \<Rightarrow> out_panel \<Rightarrow> out_panel" where
  "record_skipped env event md p =
     (let (r, p) = new_raw (rawOutputLine env (pn_runStart p) event md) p;
          p = syncTabRawLines env r (assignRawOutputLineNumber r p);
          p = set_hv (\<lambda>h. h\<lparr>skippedLines := Suc (skippedLines h)\<rparr>) p
      in appendHighVolumeOutputNotice env (skippedLines (pn_hv p) = 1) p)"

definition append_event :: "out_env \<Rightarrow> line_event \<Rightarrow> jsobj \<Rightarrow> out_panel \<Rightarrow> out_panel" where
  "append_event env event md p =
     (let (skip, p) = shouldSkipLiveOutputRender env md p in
      if skip then record_skipped env event md (flush_all env p) else append_rendered env event md p)"

definition appendLine :: "out_env \<Rightarrow> jsval \<Rightarrow> jsval \<Rightarrow> jsval \<Rightarrow> out_panel \<Rightarrow> out_panel" where
  "appendLine env text cls metadata p =
     (let (event, md) = normalizeLineEventInput text (if is_object text then JStr [] else cls) metadata in append_event env event md p)"

section \<open>Appending many lines\<close>

text \<open>One chunk of \<open>appendLines\<close>; the next one follows in a timer. Lines to be skipped are recorded at once,
  without a flush of the lines before them.\<close>

definition chunk_entry :: "out_env \<Rightarrow> out_panel \<Rightarrow> jsval \<Rightarrow> out_panel" where
  "chunk_entry env p line =
     (let (event, md) = normalizeAppendLinesEntry line; (skip, p) = shouldSkipLiveOutputRender env md p in
      if skip then record_skipped env event md p
      else let (entry, p) = new_entry env event md p in queue_entry entry p)"

definition queueChunk :: "out_env \<Rightarrow> jsval list \<Rightarrow> out_panel \<Rightarrow> out_panel" where
  "queueChunk env lines p =
     schedulePendingOutputFlush (set_batch (\<lambda>b. b\<lparr>burstCount := max (burstCount b) sync_burst_limit\<rparr>) (foldl (chunk_entry env) p lines))"

definition chunk_size :: nat where
  "chunk_size = 300"

text \<open>The chunks of \<open>appendLines\<close>, in the order the timers handle them.\<close>

function chunks_of :: "jsval list \<Rightarrow> jsval list list" where
  "chunks_of lines = (if lines = [] then [] else take chunk_size lines # chunks_of (drop chunk_size lines))"
  by auto
termination
  by (relation "measure length") (simp_all add: chunk_size_def)

declare chunks_of.simps [simp del]

section \<open>The end of a run\<close>

definition resetHighVolumeOutputState :: "out_panel \<Rightarrow> out_panel" where
  "resetHighVolumeOutputState p = p\<lparr>pn_hv := fresh_hv\<rparr>"

definition hv_summary_text :: "out_env \<Rightarrow> hv_state \<Rightarrow> string" where
  "hv_summary_text env h =
     (let parts = (if skippedLines h \<noteq> 0
               then [locale_count env (skippedLines h) @ '' '' @ (if skippedLines h = 1 then ''line was'' else ''lines were'')
                     @ '' not rendered live in this tab''] else [])
             @ (if coalescedLines h \<noteq> 0
               then [''progress/status updates were collapsed in this tab, so live line numbers may differ from the saved transcript''] else [])
      in ''[live output summary: '' @ join ''; '' parts
         @ ''; full transcript output is preserved in saved output, permalinks, and exports]'')"

definition appendHighVolumeOutputFinalSummary :: "out_env \<Rightarrow> out_panel \<Rightarrow> out_panel" where
  "appendHighVolumeOutputFinalSummary env p =
     (let h = pn_hv p in
      if finalSummaryShown h \<or> skippedLines h = 0 \<and> coalescedLines h = 0 then p
      else append_notice env (hv_summary_text env h) JNull (set_hv (\<lambda>h. h\<lparr>finalSummaryShown := True\<rparr>) p))"

definition recordLiveOutputCoalescedLines :: "jsval \<Rightarrow> out_panel \<Rightarrow> out_panel" where
  "recordLiveOutputCoalescedLines n p =
     (case num_or_zero n of Fin r \<Rightarrow> if 0 < r then set_hv (\<lambda>h. h\<lparr>coalescedLines := coalescedLines h + r\<rparr>) p else p | _ \<Rightarrow> p)"

definition disableHighVolumeOutputResumeControls :: "out_panel \<Rightarrow> out_panel" where
  "disableHighVolumeOutputResumeControls p = set_hv (\<lambda>h. h\<lparr>hv_active := False, resumeDisabled := True\<rparr>) p"

definition resume_text :: "out_env \<Rightarrow> hv_state \<Rightarrow> string" where
  "resume_text env h = ''[live output rendering resumed after '' @ locale_count env (skippedLines h) @ '' skipped lines; new lines will render live]''"

definition resumeHighVolumeLiveOutput :: "out_env \<Rightarrow> out_panel \<Rightarrow> out_panel" where
  "resumeHighVolumeLiveOutput env p =
     (if resumeDisabled (pn_hv p) \<or> \<not> pn_running p then disableHighVolumeOutputResumeControls p
      else append_notice env (resume_text env (pn_hv p)) JNull (set_hv (\<lambda>h. h\<lparr>hv_active := False, resumeRequested := True\<rparr>) p))"

section \<open>The summary of an outcome\<close>

definition commandOutcomeRawLinesForTab :: "out_panel \<Rightarrow> jsval list" where
  "commandOutcomeRawLinesForTab p =
     (let raw = raw_lines p; start = (case pn_runStartIndex p of None \<Rightarrow> 0 | Some i \<Rightarrow> nat (max 0 (min (int (length raw)) i)))
      in drop start raw)"

definition item_val :: "outcome_item \<Rightarrow> jsval" where
  "item_val it = JObj [(''label'', JStr (oi_label it)), (''value'', JStr (oi_value it)), (''tone'', JStr (oi_tone it))]"

definition summary_val :: "outcome_summary option \<Rightarrow> jsval" where
  "summary_val sm = (case sm of None \<Rightarrow> JNull | Some s \<Rightarrow> JObj [(''title'', JStr (os_title s)), (''items'', JArr (map item_val (os_items s)))])"

definition commandOutcomeItemText :: "outcome_item \<Rightarrow> string" where
  "commandOutcomeItemText it = (let label = trim (oi_label it); value = trim (oi_value it) in
     if label \<noteq> [] \<and> value \<noteq> [] then label @ '': '' @ value else if value \<noteq> [] then value else label)"

definition summary_line :: "string \<Rightarrow> string \<Rightarrow> out_span" where
  "summary_line text cls = \<lparr>sp_text = text, sp_classes = [''line'', ''command-outcome-summary'', cls], sp_role = [], sp_tsC = [], sp_tsE = [],
     sp_lineNumber = None, sp_prefix = Some [], sp_signals = [], sp_lineIndex = JUndef, sp_commandRoot = [], sp_signalTarget = [],
     sp_span_entities = [], sp_resumeButton = False\<rparr>"

definition summary_lines :: "outcome_summary \<Rightarrow> out_span list" where
  "summary_lines sm = summary_line (str_default (os_title sm) ''Command outcome'') ''command-outcome-summary-title''
     # map (\<lambda>t. summary_line t ''command-outcome-summary-row'') (filter nonempty (map commandOutcomeItemText (os_items sm)))"

definition removeCommandOutcomeSummary :: "out_panel \<Rightarrow> out_panel" where
  "removeCommandOutcomeSummary p = p\<lparr>pn_lines := filter (\<lambda>l. ''command-outcome-summary'' \<notin> set (sp_classes l)) (pn_lines p)\<rparr>"

definition first_some :: "'a option \<Rightarrow> 'a option \<Rightarrow> 'a option" where
  "first_some a b = (case a of None \<Rightarrow> b | Some x \<Rightarrow> Some x)"

text \<open>The summary given, the one parsed from the lines of the run, or the last one if the run printed nothing.\<close>

definition chosen_summary :: "out_env \<Rightarrow> jsval \<Rightarrow> out_panel \<Rightarrow> outcome_summary option" where
  "chosen_summary env outcome p =
     (let explicit = (if outcome = JNull \<or> outcome = JUndef then None else normalizeCommandOutcomeSummary outcome);
          current = commandOutcomeRawLinesForTab p;
          built = buildCommandOutcomeSummary (locale_count env) (pn_command p) (JArr current);
          cached = (if explicit = None \<and> built = None \<and> current = [] then normalizeCommandOutcomeSummary (summary_val (pn_outcome p)) else None)
      in first_some explicit (first_some built cached))"

definition show_summary :: "out_env \<Rightarrow> outcome_summary option \<Rightarrow> out_panel \<Rightarrow> out_panel" where
  "show_summary env summary p = sync_prompt_prefix env (case summary of
       None \<Rightarrow> p\<lparr>pn_outcome := None\<rparr>
     | Some sm \<Rightarrow> p\<lparr>pn_outcome := Some sm, pn_lines := pn_lines p @ summary_lines sm\<rparr>)"

definition renderCommandOutcomeSummary :: "out_env \<Rightarrow> jsval \<Rightarrow> out_panel \<Rightarrow> out_panel" where
  "renderCommandOutcomeSummary env outcome p =
     (let p = removeCommandOutcomeSummary (flush_all env p) in
      if \<not> summaries_enabled env then sync_prompt_prefix env p else show_summary env (chosen_summary env outcome p) p)"

definition setTabCommandOutcomeSummary :: "out_env \<Rightarrow> jsval \<Rightarrow> bool \<Rightarrow> out_panel \<Rightarrow> out_panel" where
  "setTabCommandOutcomeSummary env outcome render p =
     (let p = p\<lparr>pn_outcome := normalizeCommandOutcomeSummary outcome\<rparr> in
      if render then renderCommandOutcomeSummary env (summary_val (pn_outcome p)) p else p)"

end
