(* ===== verification/Terminal_Output_Props.thy ===== *)
theory Terminal_Output_Props
  imports Terminal_Output
begin

text \<open>
  Properties of the terminal panel. Its actions are the calls the other modules make and the timer of the
  batch. An immediate terminal, which renders and records every line when it is appended, is the
  specification: the panel with its batches implements it, for every interleaving of appended lines and
  flushes. The counts of signals are those of the transcript after any actions, and draining a batch
  ends.
\<close>

section \<open>The actions on a panel\<close>

datatype out_action =
    ALine jsval jsval jsval
  | AChunk "jsval list"
  | ATick
  | ACoalesced jsval
  | AResume
  | ADisable
  | AReset
  | AFinal
  | ASummary jsval
  | ADiscard
  | ARun bool int string "int option"

fun out_perform :: "out_env \<times> out_action \<Rightarrow> out_panel \<Rightarrow> out_panel" where
  "out_perform (env, ALine text cls md) p = appendLine env text cls md p"
| "out_perform (env, AChunk lines) p = queueChunk env lines p"
| "out_perform (env, ATick) p = flushPendingOutputBatch env p"
| "out_perform (env, ACoalesced n) p = recordLiveOutputCoalescedLines n p"
| "out_perform (env, AResume) p = resumeHighVolumeLiveOutput env p"
| "out_perform (env, ADisable) p = disableHighVolumeOutputResumeControls p"
| "out_perform (env, AReset) p = resetHighVolumeOutputState p"
| "out_perform (env, AFinal) p = appendHighVolumeOutputFinalSummary env p"
| "out_perform (env, ASummary outcome) p = setTabCommandOutcomeSummary env outcome True p"
| "out_perform (env, ADiscard) p = discardPendingOutputBatch p"
| "out_perform (env, ARun running start command index) p =
     p\<lparr>pn_running := running, pn_runStart := start, pn_command := command, pn_runStartIndex := index\<rparr>"

definition fresh_panel :: out_panel where
  "fresh_panel = \<lparr>pn_running = False, pn_runStart = 0, pn_command = [], pn_runStartIndex = None, pn_outcome = None,
     pn_deferPrompt = False, pn_raw = [], pn_objs = (\<lambda>_. JUndef), pn_next = 0, pn_counts = (\<lambda>_. 0), pn_countsValid = True,
     pn_tabCounter = 0, pn_outCounter = 0, pn_lines = [], pn_prompt = None, pn_prefixWidth = 0, pn_hv = fresh_hv,
     pn_batch = empty_batch, pn_promptMounts = 0\<rparr>"

section \<open>Raw lines without their number\<close>

definition unnumbered :: "jsval \<Rightarrow> jsval" where
  "unnumbered v = JObj (obj_delete (obj_entries v) ''line_number'')"

lemma obj_delete_set: "obj_delete (obj_set ob k v) k = obj_delete ob k"
  by (induction ob k v rule: obj_set.induct) (simp_all add: obj_delete_def)

lemma unnumbered_number [simp]: "unnumbered (JObj (obj_set (obj_entries v) ''line_number'' n)) = unnumbered v"
  by (simp add: unnumbered_def obj_delete_set)

lemma number_raw_view: "unnumbered (pn_objs (number_raw r n p) q) = unnumbered (pn_objs p q)"
  by (simp add: number_raw_def)

text \<open>The scopes a line counts for do not depend on its number.\<close>

lemma jprop_number:
  "k \<noteq> ''line_number'' \<Longrightarrow> jprop (JObj (obj_set ob ''line_number'' n)) k = obj_get ob k"
  by (simp add: obj_get_set)

lemma fromWire_number: "fromWireLineEvent (JObj (obj_set ob ''line_number'' n)) = fromWireLineEvent (JObj ob)"
  by (simp add: fromWireLineEvent_def obj_get_set Let_def case_prod_beta cong: if_cong)

lemma scopes_number:
  "countableSignalScopes (JObj (obj_set ob ''line_number'' n)) roots = countableSignalScopes (JObj ob) roots"
  by (simp add: countableSignalScopes_def isSignalCountableLine_def lineRole_def cls_names_def js_or_def fromWire_number obj_get_set)

section \<open>Counts of signals\<close>

definition count_of :: "string list \<Rightarrow> jsval list \<Rightarrow> string \<Rightarrow> nat" where
  "count_of roots raws scope = length (filter (\<lambda>v. scope \<in> set (countableSignalScopes v roots)) raws)"

lemma count_of_simps [simp]:
  "count_of roots [] scope = 0"
  "count_of roots (v # vs) scope = (if scope \<in> set (countableSignalScopes v roots) then 1 else 0) + count_of roots vs scope"
  "count_of roots (vs @ ws) scope = count_of roots vs scope + count_of roots ws scope"
  by (simp_all add: count_of_def)

lemma distinct_scopes: "distinct (countableSignalScopes v roots)"
  by (simp add: countableSignalScopes_def)

lemma foldl_update_distinct:
  "distinct ks \<Longrightarrow> foldl (\<lambda>c k. c(k := f (c k))) c ks = (\<lambda>k. if k \<in> set ks then f (c k) else c k)"
  by (induction ks arbitrary: c) auto

lemma adjust_counts_val:
  "pn_counts (adjust_counts env True p v) s = pn_counts p s + (if s \<in> set (countableSignalScopes v (builtin_roots env)) then 1 else 0)"
  "pn_counts (adjust_counts env False p v) s = pn_counts p s - (if s \<in> set (countableSignalScopes v (builtin_roots env)) then 1 else 0)"
  by (simp_all add: adjust_counts_def Let_def foldl_update_distinct [OF distinct_scopes] foldl_update_distinct [OF distinct_scopes, of Suc]
      foldl_update_distinct [OF distinct_scopes, of "\<lambda>n. n - Suc 0"])

lemma adjust_counts_fields [simp]:
  "pn_raw (adjust_counts env up p v) = pn_raw p" "pn_objs (adjust_counts env up p v) = pn_objs p" "pn_next (adjust_counts env up p v) = pn_next p"
  "pn_lines (adjust_counts env up p v) = pn_lines p" "pn_tabCounter (adjust_counts env up p v) = pn_tabCounter p"
  "pn_outCounter (adjust_counts env up p v) = pn_outCounter p" "pn_hv (adjust_counts env up p v) = pn_hv p"
  "pn_batch (adjust_counts env up p v) = pn_batch p" "pn_runStart (adjust_counts env up p v) = pn_runStart p"
  "pn_runStartIndex (adjust_counts env up p v) = pn_runStartIndex p" "pn_running (adjust_counts env up p v) = pn_running p"
  by (simp_all add: adjust_counts_def Let_def)

lemma fold_uncount:
  "pn_counts (foldl (adjust_counts env False) p vs) s = pn_counts p s - count_of (builtin_roots env) vs s"
  by (induction vs arbitrary: p) (simp_all add: adjust_counts_val)

section \<open>Keeping the last lines\<close>

definition last_n :: "int \<Rightarrow> 'a list \<Rightarrow> 'a list" where
  "last_n m xs = (if 0 < m then drop (length xs - nat m) xs else xs)"

lemma last_n_append [simp]: "last_n m (last_n m xs @ ys) = last_n m (xs @ ys)"
proof (cases "0 < m \<and> nat m < length xs")
  case True
  then have "length xs + length ys - nat m = length ys + (length xs - nat m)" by simp
  with True show ?thesis by (simp add: last_n_def)
qed (auto simp: last_n_def)

lemma last_n_map: "last_n m (map f xs) = map f (last_n m xs)"
  by (simp add: last_n_def drop_map)

lemma last_n_snoc: "\<exists>ys. last_n m (xs @ [x]) = ys @ [x]"
proof (cases "0 < m")
  case True
  then have "length (xs @ [x]) - nat m \<le> length xs" by simp
  then show ?thesis using True by (simp add: last_n_def)
qed (simp add: last_n_def)

lemma last_last_n [simp]: "last (last_n m (xs @ [x])) = x" "last_n m (xs @ [x]) \<noteq> []" "butlast (last_n m (xs @ [x])) @ [y] = last_n m (xs @ [y])"
proof -
  obtain ys where ys: "last_n m (xs @ [x]) = ys @ [x]" using last_n_snoc [of m xs x] by (rule exE)
  then show "last (last_n m (xs @ [x])) = x" "last_n m (xs @ [x]) \<noteq> []" by simp_all
  have "butlast (last_n m (xs @ [x])) = butlast (last_n m (xs @ [y]))"
    by (auto simp: last_n_def butlast_append drop_Cons')
  with last_n_snoc [of m xs y] show "butlast (last_n m (xs @ [x])) @ [y] = last_n m (xs @ [y])" by auto
qed

lemma last_n_small [simp]: "last_n m [x] = [x]" "last_n m [] = []"
  by (simp_all add: last_n_def)

lemma set_last_n: "set (last_n m xs) \<subseteq> set xs"
  by (auto simp: last_n_def dest: in_set_dropD)

lemma sync_raw: "pn_raw (syncTabRawLines env r p) = last_n (max_output_lines env) (pn_raw p @ [r])"
  by (auto simp: syncTabRawLines_def Let_def last_n_def fold_keeps [where g = pn_raw] split: option.splits)

lemma sync_fields [simp]:
  "pn_objs (syncTabRawLines env r p) = pn_objs p" "pn_next (syncTabRawLines env r p) = pn_next p"
  "pn_lines (syncTabRawLines env r p) = pn_lines p" "pn_tabCounter (syncTabRawLines env r p) = pn_tabCounter p"
  "pn_outCounter (syncTabRawLines env r p) = pn_outCounter p" "pn_hv (syncTabRawLines env r p) = pn_hv p"
  "pn_batch (syncTabRawLines env r p) = pn_batch p" "pn_runStart (syncTabRawLines env r p) = pn_runStart p"
  "pn_running (syncTabRawLines env r p) = pn_running p"
  by (simp_all add: syncTabRawLines_def Let_def fold_keeps [where g = pn_objs] fold_keeps [where g = pn_next] fold_keeps [where g = pn_lines]
      fold_keeps [where g = pn_tabCounter] fold_keeps [where g = pn_outCounter] fold_keeps [where g = pn_hv]
      fold_keeps [where g = pn_batch] fold_keeps [where g = pn_runStart] fold_keeps [where g = pn_running] split: option.splits)

lemma sync_all_raw:
  "pn_raw (foldl (\<lambda>p r. syncTabRawLines env r p) p rs) = (if rs = [] then pn_raw p else last_n (max_output_lines env) (pn_raw p @ rs))"
proof (induction rs arbitrary: p)
  case (Cons r rs)
  then show ?case by (cases "rs = []") (simp_all add: sync_raw)
qed simp

section \<open>The counts are those of the transcript\<close>

definition counts_ok :: "string list \<Rightarrow> out_panel \<Rightarrow> bool" where
  "counts_ok roots p \<longleftrightarrow> (\<forall>s. pn_counts p s = count_of roots (raw_lines p) s)"

lemma sync_counts:
  assumes "counts_ok (builtin_roots env) p"
  shows "counts_ok (builtin_roots env) (syncTabRawLines env r p)"
proof -
  let ?rs = "pn_raw p @ [r]" and ?roots = "builtin_roots env"
  let ?k = "length ?rs - nat (max_output_lines env)"
  have all: "pn_counts p s + (if s \<in> set (countableSignalScopes (pn_objs p r) ?roots) then 1 else 0) = count_of ?roots (map (pn_objs p) ?rs) s" for s
    using assms by (simp add: counts_ok_def raw_lines_def)
  have "count_of ?roots (map (pn_objs p) (take ?k ?rs @ drop ?k ?rs)) s
      = count_of ?roots (map (pn_objs p) (take ?k ?rs)) s + count_of ?roots (map (pn_objs p) (drop ?k ?rs)) s" for s
    by (simp only: map_append count_of_simps)
  then have cut: "count_of ?roots (map (pn_objs p) ?rs) s - count_of ?roots (map (pn_objs p) (take ?k ?rs)) s
      = count_of ?roots (map (pn_objs p) (drop ?k ?rs)) s" for s
    by (simp only: append_take_drop_id diff_add_inverse)
  have "pn_counts (syncTabRawLines env r p) s = count_of ?roots (map (pn_objs p) (last_n (max_output_lines env) ?rs)) s" for s
    using all [of s] cut [of s]
    by (auto simp: syncTabRawLines_def Let_def last_n_def fold_uncount adjust_counts_val split: option.splits)
  then show ?thesis by (simp add: counts_ok_def raw_lines_def sync_raw)
qed

text \<open>References point to objects that exist.\<close>

definition refs_of :: "out_panel \<Rightarrow> nat set" where
  "refs_of p = set (pn_raw p) \<union> set (pending_raw (pn_batch p)) \<union> en_raw ` set (pending_items (pn_batch p))"

definition store_ok :: "out_panel \<Rightarrow> bool" where
  "store_ok p \<longleftrightarrow> (\<forall>r \<in> refs_of p. r < pn_next p) \<and> (\<forall>r < pn_next p. is_plain (pn_objs p r))"

definition counted :: "string list \<Rightarrow> out_panel \<Rightarrow> bool" where
  "counted roots p \<longleftrightarrow> store_ok p \<and> counts_ok roots p"

lemma is_plain_entries: "is_plain v \<Longrightarrow> JObj (obj_entries v) = v"
  by (cases v) simp_all

lemma number_raw_counted:
  assumes "counted roots p" "r < pn_next p"
  shows "counted roots (number_raw r n p)"
proof -
  have "countableSignalScopes (pn_objs (number_raw r n p) q) roots = countableSignalScopes (pn_objs p q) roots" for q
    using assms scopes_number [of "obj_entries (pn_objs p r)"]
    by (simp add: number_raw_def counted_def store_ok_def is_plain_entries)
  then have "count_of roots (map (pn_objs (number_raw r n p)) rs) s = count_of roots (map (pn_objs p) rs) s" for rs s
    by (induction rs) simp_all
  with assms show ?thesis
    by (auto simp: counted_def counts_ok_def raw_lines_def store_ok_def refs_of_def number_raw_def)
qed

lemma counted_frame [simp]:
  "counted roots (p\<lparr>pn_lines := ls\<rparr>) = counted roots p" "counted roots (p\<lparr>pn_prompt := pr\<rparr>) = counted roots p"
  "counted roots (p\<lparr>pn_prefixWidth := w\<rparr>) = counted roots p" "counted roots (p\<lparr>pn_tabCounter := n\<rparr>) = counted roots p"
  "counted roots (p\<lparr>pn_outCounter := n\<rparr>) = counted roots p" "counted roots (p\<lparr>pn_hv := h\<rparr>) = counted roots p"
  "counted roots (p\<lparr>pn_outcome := oc\<rparr>) = counted roots p" "counted roots (p\<lparr>pn_deferPrompt := d\<rparr>) = counted roots p"
  "counted roots (p\<lparr>pn_promptMounts := k\<rparr>) = counted roots p" "counted roots (p\<lparr>pn_running := ru\<rparr>) = counted roots p"
  "counted roots (p\<lparr>pn_runStart := n\<rparr>) = counted roots p" "counted roots (p\<lparr>pn_command := c\<rparr>) = counted roots p"
  "counted roots (p\<lparr>pn_runStartIndex := i\<rparr>) = counted roots p"
  by (simp_all add: counted_def counts_ok_def raw_lines_def store_ok_def refs_of_def)

lemma counted_steps [simp]:
  "counted roots (set_counters n p) = counted roots p" "counted roots (trimOutputToMaxLines env p) = counted roots p"
  "counted roots (sync_prompt_prefix env p) = counted roots p" "counted roots (replace_last_line node p) = counted roots p"
  "counted roots (maybeMountDeferredPrompt env p) = counted roots p" "counted roots (set_hv f p) = counted roots p"
  "counted roots (removeCommandOutcomeSummary p) = counted roots p"
  by (simp_all add: set_counters_def trimOutputToMaxLines_def sync_prompt_prefix_def replace_last_line_def
      maybeMountDeferredPrompt_def set_hv_def removeCommandOutcomeSummary_def Let_def)

lemma counted_batch:
  "counted roots p \<Longrightarrow> set (pending_raw b) \<subseteq> refs_of p \<Longrightarrow> en_raw ` set (pending_items b) \<subseteq> refs_of p \<Longrightarrow> counted roots (p\<lparr>pn_batch := b\<rparr>)"
  by (auto simp: counted_def counts_ok_def raw_lines_def store_ok_def refs_of_def subset_iff)

lemma counted_fewer:
  "counted roots p \<Longrightarrow> (\<And>b. set (pending_raw (f b)) \<subseteq> set (pending_raw b) \<and> set (pending_items (f b)) \<subseteq> set (pending_items b)) \<Longrightarrow> counted roots (set_batch f p)"
  unfolding set_batch_def by (rule counted_batch) (fastforce simp: refs_of_def)+

lemma counted_sync: "counted roots p \<Longrightarrow> builtin_roots env = roots \<Longrightarrow> r < pn_next p \<Longrightarrow> counted roots (syncTabRawLines env r p)"
  using sync_counts [of env p r] set_last_n [of "max_output_lines env" "pn_raw p @ [r]"]
  by (auto simp: counted_def store_ok_def refs_of_def sync_raw subset_iff)

lemma counted_sync_all:
  "counted roots p \<Longrightarrow> builtin_roots env = roots \<Longrightarrow> \<forall>r \<in> set rs. r < pn_next p \<Longrightarrow> counted roots (foldl (\<lambda>p r. syncTabRawLines env r p) p rs)"
  by (induction rs arbitrary: p) (simp_all add: counted_sync)

lemma number_fields [simp]:
  "pn_next (number_raw r n p) = pn_next p" "pn_raw (number_raw r n p) = pn_raw p" "pn_lines (number_raw r n p) = pn_lines p"
  "pn_tabCounter (number_raw r n p) = pn_tabCounter p" "pn_outCounter (number_raw r n p) = pn_outCounter p"
  "pn_hv (number_raw r n p) = pn_hv p" "pn_batch (number_raw r n p) = pn_batch p" "pn_runStart (number_raw r n p) = pn_runStart p"
  "pn_running (number_raw r n p) = pn_running p"
  by (simp_all add: number_raw_def)

lemma number_entry_counted:
  assumes "counted roots p" "en_raw e < pn_next p"
  shows "counted roots (snd (number_entry b e p))" "pn_next (snd (number_entry b e p)) = pn_next p"
  using assms by (simp_all add: number_entry_def assignOutputLineNumber_def set_counters_def Let_def case_prod_beta number_raw_counted)

lemma number_entries_counted:
  "counted roots p \<Longrightarrow> \<forall>e \<in> set es. en_raw e < pn_next p \<Longrightarrow>
   counted roots (snd (number_entries b es p)) \<and> pn_next (snd (number_entries b es p)) = pn_next p"
  by (induction es arbitrary: b p) (simp_all add: number_entry_counted Let_def case_prod_beta)

lemma mount_counted:
  assumes "counted roots p" "\<forall>e \<in> set es. en_raw e < pn_next p"
  shows "counted roots (mount_batch env es p)" "pn_next (mount_batch env es p) = pn_next p"
  using number_entries_counted [OF assms, of True]
  by (simp_all add: mount_batch_def Let_def case_prod_beta replace_last_line_def split: list.splits)

lemma counted_refs: "counted roots p \<Longrightarrow> r \<in> refs_of p \<Longrightarrow> r < pn_next p"
  by (simp add: counted_def store_ok_def)

lemma take_batch_fields [simp]:
  "pn_next (take_batch p) = pn_next p" "pn_lines (take_batch p) = pn_lines p" "pn_objs (take_batch p) = pn_objs p" "pn_raw (take_batch p) = pn_raw p"
  "pn_outCounter (take_batch p) = pn_outCounter p" "pn_tabCounter (take_batch p) = pn_tabCounter p" "pn_hv (take_batch p) = pn_hv p"
  "pn_runStart (take_batch p) = pn_runStart p" "pn_running (take_batch p) = pn_running p"
  by (simp_all add: take_batch_def set_batch_def)

lemma after_flush_counted: "counted roots p \<Longrightarrow> counted roots (after_flush env p)"
  by (auto simp: after_flush_def schedulePendingOutputFlush_def intro!: counted_fewer)

lemma flush_counted:
  assumes c: "counted roots p" and env: "builtin_roots env = roots"
  shows "counted roots (flushPendingOutputBatch env p)"
proof -
  let ?items = "pending_items (pn_batch p)" and ?raws = "pending_raw (pn_batch p)"
  have q: "counted roots (take_batch p)"
    unfolding take_batch_def by (rule counted_fewer [OF c]) (simp add: set_drop_subset)
  have "\<forall>e \<in> set (take batch_size ?items). en_raw e < pn_next p" "\<forall>r \<in> set (take batch_size ?raws). r < pn_next p"
    using counted_refs [OF c] by (auto simp: refs_of_def dest!: in_set_takeD)
  then have "counted roots (foldl (\<lambda>p r. syncTabRawLines env r p) (mount_batch env (take batch_size ?items) (take_batch p)) (take batch_size ?raws))"
    using q by (intro counted_sync_all) (simp_all add: mount_counted env)
  then show ?thesis
    unfolding flushPendingOutputBatch_def Let_def
    by (intro after_flush_counted) (simp only: if_distrib [of "counted roots"] counted_steps if_cancel)
qed

lemma flush_all_counted: "counted roots p \<Longrightarrow> builtin_roots env = roots \<Longrightarrow> counted roots (flush_all env p)"
proof (induction env p rule: flush_all.induct)
  case (1 env p)
  then show ?case by (cases "nothing_pending p") (simp_all add: flush_all.simps [of env p] flush_counted)
qed

lemma counted_new_raw:
  assumes "counted roots p" "is_plain v" "new_raw v p = (r, q)"
  shows "counted roots q" "r < pn_next q" "pn_batch q = pn_batch p" "pn_next p \<le> pn_next q" "refs_of q = refs_of p"
proof -
  have "pn_objs q x = pn_objs p x" if "x \<in> refs_of p" for x
    using assms that counted_refs [of roots p x] by (auto simp: new_raw_def)
  then have "raw_lines q = raw_lines p" "pn_counts q = pn_counts p"
    using assms(3) by (auto simp: refs_of_def raw_lines_def new_raw_def)
  moreover have "store_ok q"
    using assms by (auto simp: counted_def store_ok_def refs_of_def new_raw_def less_Suc_eq)
  ultimately show "counted roots q"
    using assms(1) by (simp add: counted_def counts_ok_def)
qed (use assms in \<open>auto simp: new_raw_def refs_of_def\<close>)

lemma raw_plain: "is_plain (rawOutputLine env rs event md)"
  by (simp add: rawOutputLine_def Let_def)

lemma new_entry_counted:
  assumes "counted roots p" "new_entry env event md p = (e, q)"
  shows "counted roots q" "en_raw e < pn_next q" "pn_batch q = pn_batch p" "refs_of q = refs_of p"
proof -
  obtain r where r: "new_raw (rawOutputLine env (pn_runStart p) event md) p = (r, q)" and e: "en_raw e = r"
    using assms(2) by (auto simp: new_entry_def Let_def split: prod.splits)
  from counted_new_raw [OF assms(1) raw_plain r] e
  show "counted roots q" "en_raw e < pn_next q" "pn_batch q = pn_batch p" "refs_of q = refs_of p" by simp_all
qed

lemma queue_items: "set (queuePendingOutputEntry e items) \<subseteq> insert e (set items)"
  by (auto simp: queuePendingOutputEntry_def dest: in_set_butlastD)

lemma queue_entry_counted: "counted roots p \<Longrightarrow> en_raw e < pn_next p \<Longrightarrow> counted roots (queue_entry e p)"
  using queue_items [of e "pending_items (pn_batch p)"]
  by (fastforce simp: counted_def counts_ok_def raw_lines_def store_ok_def refs_of_def queue_entry_def set_batch_def)

lemma render_entry_counted:
  assumes "counted roots p" "en_raw e < pn_next p" "builtin_roots env = roots"
  shows "counted roots (render_entry env e p)"
proof -
  obtain e' q where n: "number_entry True e p = (e', q)" by fastforce
  have q: "counted roots q" "pn_next q = pn_next p" "en_raw e' = en_raw e"
    using number_entry_counted [OF assms(1,2), of True] n by (auto simp: number_entry_def Let_def case_prod_beta)
  have "counted roots (set_batch (\<lambda>b. b\<lparr>burstCount := Suc (burstCount b)\<rparr>) q)"
    by (rule counted_fewer [OF q(1)]) simp
  with q assms show ?thesis
    by (auto simp: render_entry_def n Let_def set_batch_def replace_last_line_def trimOutputToMaxLines_def sync_prompt_prefix_def intro!: counted_sync)
qed

lemma schedule_counted: "counted roots p \<Longrightarrow> counted roots (schedulePendingOutputFlush p)"
  unfolding schedulePendingOutputFlush_def by (rule counted_fewer) simp_all

lemma append_rendered_counted:
  assumes "counted roots p" "builtin_roots env = roots"
  shows "counted roots (append_rendered env event md p)"
proof -
  obtain e q where n: "new_entry env event md p = (e, q)" by fastforce
  from new_entry_counted [OF assms(1) n] assms show ?thesis
    by (simp add: append_rendered_def n schedule_counted queue_entry_counted render_entry_counted)
qed

lemma append_notice_counted: "counted roots p \<Longrightarrow> builtin_roots env = roots \<Longrightarrow> counted roots (append_notice env text md p)"
  by (simp add: append_notice_def case_prod_beta append_rendered_counted)

lemma record_skipped_counted:
  assumes "counted roots p" "builtin_roots env = roots"
  shows "counted roots (record_skipped env event md p)"
proof -
  obtain r q where n: "new_raw (rawOutputLine env (pn_runStart p) event md) p = (r, q)" by fastforce
  from counted_new_raw [OF assms(1) raw_plain n]
  have "counted roots (assignRawOutputLineNumber r q)" "r < pn_next (assignRawOutputLineNumber r q)"
    by (simp_all add: assignRawOutputLineNumber_def Let_def set_counters_def number_raw_counted)
  with assms(2) show ?thesis
    by (simp add: record_skipped_def n Let_def appendHighVolumeOutputNotice_def append_notice_counted counted_sync)
qed

lemma skip_counted: "counted roots (snd (shouldSkipLiveOutputRender env md p)) = counted roots p"
  by (simp add: shouldSkipLiveOutputRender_def Let_def)

lemma append_event_counted: "counted roots p \<Longrightarrow> builtin_roots env = roots \<Longrightarrow> counted roots (append_event env event md p)"
  by (simp add: append_event_def case_prod_beta skip_counted record_skipped_counted flush_all_counted append_rendered_counted)

lemma chunk_entry_counted: "counted roots p \<Longrightarrow> builtin_roots env = roots \<Longrightarrow> counted roots (chunk_entry env p line)"
  unfolding chunk_entry_def Let_def case_prod_beta
  using new_entry_counted [OF _ prod.collapse [symmetric]]
  by (simp add: skip_counted record_skipped_counted queue_entry_counted)

lemma queueChunk_counted:
  assumes "counted roots p" "builtin_roots env = roots"
  shows "counted roots (queueChunk env lines p)"
proof -
  have "counted roots (foldl (chunk_entry env) p lines)"
    using assms by (induction lines arbitrary: p) (simp_all add: chunk_entry_counted)
  then show ?thesis by (auto simp: queueChunk_def intro!: schedule_counted counted_fewer)
qed

lemma summary_counted: "counted roots p \<Longrightarrow> builtin_roots env = roots \<Longrightarrow> counted roots (renderCommandOutcomeSummary env outcome p)"
  by (simp add: renderCommandOutcomeSummary_def Let_def flush_all_counted show_summary_def split: option.split)

interpretation signal_counts: machine "\<lambda>a p. builtin_roots (fst a) = roots" out_perform "counted roots" for roots
proof
  fix s :: out_panel and a :: "out_env \<times> out_action"
  assume "counted roots s" "builtin_roots (fst a) = roots"
  then show "counted roots (out_perform a s)"
    by (cases "(a, s)" rule: out_perform.cases)
      (auto simp: appendLine_def case_prod_beta append_event_counted queueChunk_counted flush_counted recordLiveOutputCoalescedLines_def
        resumeHighVolumeLiveOutput_def disableHighVolumeOutputResumeControls_def append_notice_counted resetHighVolumeOutputState_def
        appendHighVolumeOutputFinalSummary_def Let_def setTabCommandOutcomeSummary_def summary_counted discardPendingOutputBatch_def
        empty_batch_def intro!: counted_batch split: jnum.splits)
qed

section \<open>The immediate terminal\<close>

text \<open>What a terminal without batches keeps: the lines shown, the counter of line numbers, the transcript,
  the state of the high-volume mode and the tab's run. Lines are compared without the prefix, which the
  modes rewrite, and raw lines without their number.\<close>

record screen =
  sc_lines :: "out_span list"
  sc_counter :: int
  sc_log :: "jsval list"
  sc_hv :: hv_state
  sc_runStart :: int
  sc_running :: bool

definition plain :: "out_span \<Rightarrow> out_span" where
  "plain node = node\<lparr>sp_prefix := None\<rparr>"

definition numbered :: "out_span \<Rightarrow> int \<Rightarrow> out_span \<times> int" where
  "numbered node c = (if isPrefixExcludedLine node then (node\<lparr>sp_lineNumber := None\<rparr>, c) else (node\<lparr>sp_lineNumber := Some (c + 1)\<rparr>, c + 1))"

definition put :: "int \<Rightarrow> string \<Rightarrow> out_span \<Rightarrow> out_span list \<times> int \<Rightarrow> out_span list \<times> int" where
  "put m role node = (\<lambda>(ls, c).
     if role \<noteq> [] \<and> ls \<noteq> [] \<and> coalescedOutputRoleForLine (last ls) = role
     then (butlast ls @ [node\<lparr>sp_lineNumber := sp_lineNumber (last ls)\<rparr>], c)
     else (last_n m (ls @ [fst (numbered node c)]), snd (numbered node c)))"

definition scr_line :: "out_env \<Rightarrow> line_event \<Rightarrow> jsobj \<Rightarrow> screen \<Rightarrow> screen" where
  "scr_line env event md sc =
     (let m = max_output_lines env;
          (ls, c) = put m (coalescedOutputRoleForEvent event) (buildOutputLine env (sc_runStart sc) event md) (sc_lines sc, sc_counter sc)
      in sc\<lparr>sc_lines := ls, sc_counter := c,
            sc_log := last_n m (sc_log sc @ [unnumbered (rawOutputLine env (sc_runStart sc) event md)])\<rparr>)"

definition scr_notice :: "out_env \<Rightarrow> string \<Rightarrow> jsval \<Rightarrow> screen \<Rightarrow> screen" where
  "scr_notice env text metadata sc =
     (let (event, md) = normalizeLineEventInput (JStr text) (JStr ''notice'') metadata in scr_line env event md sc)"

definition hv_step :: "out_env \<Rightarrow> jsobj \<Rightarrow> hv_state \<Rightarrow> bool \<times> hv_state" where
  "hv_step env md h =
     (if \<not> is_live md then (False, h)
      else let h = h\<lparr>receivedLines := Suc (receivedLines h)\<rparr>; threshold = highVolumeOutputLineThreshold env in
        if threshold = 0 \<or> resumeRequested h \<or> resumeDisabled h then (False, h)
        else let on = (hv_active h \<or> threshold < receivedLines h) in (on, h\<lparr>hv_active := on\<rparr>))"

definition scr_skip :: "out_env \<Rightarrow> line_event \<Rightarrow> jsobj \<Rightarrow> screen \<Rightarrow> screen" where
  "scr_skip env event md sc =
     (let h = (sc_hv sc)\<lparr>skippedLines := Suc (skippedLines (sc_hv sc))\<rparr>;
          sc = sc\<lparr>sc_counter := sc_counter sc + 1, sc_hv := h,
            sc_log := last_n (max_output_lines env) (sc_log sc @ [unnumbered (rawOutputLine env (sc_runStart sc) event md)])\<rparr>
      in if skippedLines h \<noteq> 1 \<and> int (receivedLines h) - int (lastNoticeLine h) < int (highVolumeOutputStatusIntervalLines env) then sc
         else scr_notice env (hv_notice_text env h)
           (JObj [(''high_volume_resume'', JBool True)]) (sc\<lparr>sc_hv := h\<lparr>lastNoticeLine := receivedLines h\<rparr>\<rparr>))"

definition scr_append :: "out_env \<Rightarrow> line_event \<Rightarrow> jsobj \<Rightarrow> screen \<Rightarrow> screen" where
  "scr_append env event md sc =
     (let (skip, h) = hv_step env md (sc_hv sc); sc = sc\<lparr>sc_hv := h\<rparr> in
      if skip then scr_skip env event md sc else scr_line env event md sc)"

section \<open>The panel as an immediate terminal\<close>

text \<open>The lines of the panel with the pending ones put below them, and the transcript with the pending lines.\<close>

definition put_entry :: "int \<Rightarrow> out_span list \<times> int \<Rightarrow> out_entry \<Rightarrow> out_span list \<times> int" where
  "put_entry m s e = put m (en_role e) (en_span e) s"

definition lines_view :: "int \<Rightarrow> out_panel \<Rightarrow> out_span list \<times> int" where
  "lines_view m p = foldl (put_entry m) (map plain (pn_lines p), pn_outCounter p) (pending_items (pn_batch p))"

definition log_view :: "int \<Rightarrow> out_panel \<Rightarrow> jsval list" where
  "log_view m p = (if pending_raw (pn_batch p) = [] then map unnumbered (raw_lines p)
     else last_n m (map (unnumbered \<circ> pn_objs p) (pn_raw p @ pending_raw (pn_batch p))))"

definition view :: "int \<Rightarrow> out_panel \<Rightarrow> screen" where
  "view m p = \<lparr>sc_lines = fst (lines_view m p), sc_counter = snd (lines_view m p), sc_log = log_view m p,
     sc_hv = pn_hv p, sc_runStart = pn_runStart p, sc_running = pn_running p\<rparr>"

text \<open>An entry that brings no number of its own, whose classes agree with its role, and that is numbered if
  it can take the place of another.\<close>

definition entry_ok :: "out_entry \<Rightarrow> bool" where
  "entry_ok e \<longleftrightarrow> sp_lineNumber (en_span e) = None \<and> sp_prefix (en_span e) = None
     \<and> coalescedOutputRoleForLine (en_span e) = en_role e \<and> (en_role e \<noteq> [] \<longrightarrow> \<not> isPrefixExcludedLine (en_span e))"

fun no_repeats :: "out_entry list \<Rightarrow> bool" where
  "no_repeats (d # e # es) = ((en_role e = [] \<or> en_role d \<noteq> en_role e) \<and> no_repeats (e # es))"
| "no_repeats es = True"

definition lines_ok :: "out_panel \<Rightarrow> bool" where
  "lines_ok p \<longleftrightarrow> pn_tabCounter p = pn_outCounter p \<and> 0 \<le> pn_outCounter p
     \<and> (\<forall>l \<in> set (pn_lines p). coalescedOutputRoleForLine l \<noteq> [] \<longrightarrow> 0 < number_of l)"

definition panel_ok :: "string list \<Rightarrow> out_panel \<Rightarrow> bool" where
  "panel_ok roots p \<longleftrightarrow> counted roots p \<and> lines_ok p
     \<and> (\<forall>e \<in> set (pending_items (pn_batch p)). entry_ok e) \<and> no_repeats (pending_items (pn_batch p))"

definition timed :: "out_panel \<Rightarrow> bool" where
  "timed p \<longleftrightarrow> nothing_pending p \<or> batch_scheduled (pn_batch p)"

lemma role_of_fields [simp]:
  "coalescedOutputRoleForLine (node\<lparr>sp_lineNumber := n\<rparr>) = coalescedOutputRoleForLine node"
  "coalescedOutputRoleForLine (node\<lparr>sp_prefix := x\<rparr>) = coalescedOutputRoleForLine node"
  "isPrefixExcludedLine (node\<lparr>sp_lineNumber := n\<rparr>) = isPrefixExcludedLine node"
  "isPrefixExcludedLine (node\<lparr>sp_prefix := x\<rparr>) = isPrefixExcludedLine node"
  "coalescedOutputRoleForLine (plain node) = coalescedOutputRoleForLine node"
  "sp_lineNumber (plain node) = sp_lineNumber node"
  by (simp_all add: coalescedOutputRoleForLine_def isPrefixExcludedLine_def isWelcomeLine_def plain_def)

lemma plain_fields [simp]:
  "plain (node\<lparr>sp_lineNumber := n\<rparr>) = (plain node)\<lparr>sp_lineNumber := n\<rparr>" "plain (node\<lparr>sp_prefix := x\<rparr>) = plain node"
  "plain (plain node) = plain node"
  by (simp_all add: plain_def)

lemma put_put:
  assumes "role \<noteq> []" "coalescedOutputRoleForLine d = role" "\<not> isPrefixExcludedLine d" "\<not> isPrefixExcludedLine e"
  shows "put m role e (put m role d s) = put m role e s"
  using assms by (cases s) (simp add: put_def numbered_def)

lemma queue_put:
  assumes "\<forall>x \<in> set items. entry_ok x" "entry_ok e"
  shows "foldl (put_entry m) s (queuePendingOutputEntry e items) = put_entry m (foldl (put_entry m) s items) e"
proof (cases "en_role e \<noteq> [] \<and> items \<noteq> [] \<and> en_role (last items) = en_role e")
  case True
  then obtain ds d where ds: "items = ds @ [d]" by (cases items rule: rev_cases) simp_all
  with True assms show ?thesis by (simp add: queuePendingOutputEntry_def put_entry_def put_put entry_ok_def)
qed (auto simp: queuePendingOutputEntry_def)

lemma no_repeats_snoc: "no_repeats (es @ [d, e]) \<longleftrightarrow> no_repeats (es @ [d]) \<and> (en_role e = [] \<or> en_role d \<noteq> en_role e)"
  by (induction es rule: no_repeats.induct) auto

lemma queue_apart: "no_repeats items \<Longrightarrow> no_repeats (queuePendingOutputEntry e items)"
proof (cases items rule: rev_cases)
  case (snoc ds d)
  assume a: "no_repeats items"
  show ?thesis
  proof (cases ds rule: rev_cases)
    case (snoc cs c)
    with a \<open>items = ds @ [d]\<close> show ?thesis
      using no_repeats_snoc [of "cs @ [c]" d e] by (auto simp: queuePendingOutputEntry_def no_repeats_snoc butlast_append)
  qed (use a snoc in \<open>simp add: queuePendingOutputEntry_def\<close>)
qed (simp add: queuePendingOutputEntry_def)

section \<open>A batch is put line by line\<close>

lemma number_entry_first:
  assumes "entry_ok e" "pn_tabCounter p = pn_outCounter p" "0 \<le> pn_outCounter p"
  shows "en_span (fst (number_entry False e p)) = fst (numbered (en_span e) (pn_outCounter p))"
    and "pn_outCounter (snd (number_entry False e p)) = snd (numbered (en_span e) (pn_outCounter p))"
    and "pn_tabCounter (snd (number_entry False e p)) = snd (numbered (en_span e) (pn_outCounter p))"
    and "pn_lines (snd (number_entry b e p)) = pn_lines p"
    and "unnumbered (pn_objs (snd (number_entry b e p)) r) = unnumbered (pn_objs p r)"
  using assms
  by (simp_all add: number_entry_def assignOutputLineNumber_def numbered_def number_of_def entry_ok_def set_counters_def Let_def
      case_prod_beta number_raw_view)

lemma numbered_counter: "0 \<le> c \<Longrightarrow> 0 \<le> snd (numbered node c)"
  by (simp add: numbered_def)

fun numbered_all :: "out_entry list \<Rightarrow> int \<Rightarrow> out_span list \<times> int" where
  "numbered_all [] c = ([], c)"
| "numbered_all (e # es) c = (let (node, c) = numbered (en_span e) c; (nodes, c) = numbered_all es c in (node # nodes, c))"

lemma number_entries_rest:
  assumes "\<forall>e \<in> set es. entry_ok e" "pn_tabCounter p = pn_outCounter p" "0 \<le> pn_outCounter p"
  shows "map en_span (fst (number_entries False es p)) = fst (numbered_all es (pn_outCounter p))
    \<and> pn_outCounter (snd (number_entries False es p)) = snd (numbered_all es (pn_outCounter p))
    \<and> pn_tabCounter (snd (number_entries False es p)) = snd (numbered_all es (pn_outCounter p))
    \<and> pn_lines (snd (number_entries False es p)) = pn_lines p
    \<and> 0 \<le> pn_outCounter (snd (number_entries False es p))
    \<and> (\<forall>r. unnumbered (pn_objs (snd (number_entries False es p)) r) = unnumbered (pn_objs p r))"
  using assms
proof (induction es arbitrary: p)
  case (Cons e es)
  let ?q = "snd (number_entry False e p)"
  have "pn_tabCounter ?q = pn_outCounter ?q" "0 \<le> pn_outCounter ?q"
    using Cons.prems by (simp_all add: number_entry_first numbered_counter)
  from Cons.IH [OF _ this] Cons.prems show ?case
    by (simp add: Let_def case_prod_beta number_entry_first)
qed simp

text \<open>Entries that cannot take the place of each other nor of the last line are appended one after the other.\<close>

lemma put_rest:
  assumes "\<forall>e \<in> set es. entry_ok e" "no_repeats es" "es \<noteq> [] \<longrightarrow> en_role (hd es) = [] \<or> ls = [] \<or> coalescedOutputRoleForLine (last ls) \<noteq> en_role (hd es)"
  shows "foldl (put_entry m) (ls, c) es = (if es = [] then ls else last_n m (ls @ fst (numbered_all es c)), snd (numbered_all es c))"
  using assms
proof (induction es arbitrary: ls c)
  case (Cons e es)
  let ?n = "fst (numbered (en_span e) c)"
  have role: "coalescedOutputRoleForLine ?n = en_role e" using Cons.prems(1) by (simp add: numbered_def entry_ok_def)
  have "put_entry m (ls, c) e = (last_n m (ls @ [?n]), snd (numbered (en_span e) c))"
    using Cons.prems(3) by (auto simp: put_entry_def put_def)
  moreover have "es \<noteq> [] \<longrightarrow> en_role (hd es) = [] \<or> coalescedOutputRoleForLine (last (last_n m (ls @ [?n]))) \<noteq> en_role (hd es)"
    using Cons.prems(2) role by (cases es) auto
  moreover have "no_repeats es" using Cons.prems(2) by (cases es) simp_all
  ultimately show ?case
    using Cons.IH [of "last_n m (ls @ [?n])" "snd (numbered (en_span e) c)"] Cons.prems(1)
    by (simp add: Let_def case_prod_beta)
qed simp

lemma plain_entry: "entry_ok e \<Longrightarrow> plain (en_span e) = en_span e"
  by (simp add: entry_ok_def plain_def)

lemma plain_numbered: "entry_ok e \<Longrightarrow> plain (fst (numbered (en_span e) c)) = fst (numbered (en_span e) c)"
  by (simp add: numbered_def plain_entry)

lemma plain_numbered_all: "\<forall>e \<in> set es. entry_ok e \<Longrightarrow> map plain (fst (numbered_all es c)) = fst (numbered_all es c)"
  by (induction es arbitrary: c) (simp_all add: Let_def case_prod_beta plain_numbered)

lemma trim_lines: "pn_lines (trimOutputToMaxLines env p) = last_n (max_output_lines env) (pn_lines p)"
  by (simp add: trimOutputToMaxLines_def last_n_def Let_def)

lemma trim_fields [simp]:
  "pn_outCounter (trimOutputToMaxLines env p) = pn_outCounter p" "pn_tabCounter (trimOutputToMaxLines env p) = pn_tabCounter p"
  "pn_objs (trimOutputToMaxLines env p) = pn_objs p" "pn_raw (trimOutputToMaxLines env p) = pn_raw p" "pn_next (trimOutputToMaxLines env p) = pn_next p"
  "pn_hv (trimOutputToMaxLines env p) = pn_hv p" "pn_batch (trimOutputToMaxLines env p) = pn_batch p"
  "pn_runStart (trimOutputToMaxLines env p) = pn_runStart p" "pn_running (trimOutputToMaxLines env p) = pn_running p"
  by (simp_all add: trimOutputToMaxLines_def Let_def)

lemma numbered_ok: "entry_ok e \<Longrightarrow> 0 \<le> c \<Longrightarrow> coalescedOutputRoleForLine (fst (numbered (en_span e) c)) \<noteq> [] \<Longrightarrow> 0 < number_of (fst (numbered (en_span e) c))"
  by (auto simp: numbered_def number_of_def entry_ok_def split: if_splits)

lemma numbered_all_ok:
  "\<forall>e \<in> set es. entry_ok e \<Longrightarrow> 0 \<le> c \<Longrightarrow> l \<in> set (fst (numbered_all es c)) \<Longrightarrow> coalescedOutputRoleForLine l \<noteq> [] \<Longrightarrow> 0 < number_of l"
proof (induction es arbitrary: c)
  case (Cons e es)
  then show ?case using numbered_ok [of e c] numbered_counter [of c "en_span e"] by (auto simp: Let_def case_prod_beta)
qed simp

lemma number_entry_replacing:
  assumes "coalescible p e" "0 < number_of (last (pn_lines p))"
  shows "number_entry True e p = (e\<lparr>en_span := (en_span e)\<lparr>sp_lineNumber := sp_lineNumber (last (pn_lines p))\<rparr>\<rparr>,
    number_raw (en_raw e) (number_of (last (pn_lines p))) p)"
  using assms by (auto simp: number_entry_def coalescedReplacementLineNumber_def Let_def number_of_def split: option.splits)

lemma number_entry_new: "\<not> coalescible p e \<Longrightarrow> number_entry True e p = number_entry False e p"
  by (simp add: number_entry_def coalescedReplacementLineNumber_def)

lemma coalescible_cong: "pn_lines q = pn_lines p \<Longrightarrow> en_role d = en_role e \<Longrightarrow> coalescible q d = coalescible p e"
  by (simp add: coalescible_def)

lemma entry_role_kept: "en_role (fst (number_entry b e p)) = en_role e" "en_raw (fst (number_entry b e p)) = en_raw e"
  by (simp_all add: number_entry_def Let_def case_prod_beta)

definition mounted :: "out_env \<Rightarrow> out_entry list \<Rightarrow> out_panel \<Rightarrow> out_panel" where
  "mounted env batch p = (if mounts_lines batch p then trimOutputToMaxLines env (mount_batch env batch p) else mount_batch env batch p)"

lemma plain_prefixed: "map plain (map (\<lambda>e. (en_span e)\<lparr>sp_prefix := f e\<rparr>) es) = map plain (map en_span es)"
  by simp

text \<open>What a batch leaves of the panel when its first entry takes the place of the last line, and when it does not.\<close>

lemma mount_Nil [simp]: "mount_batch env [] p = p"
  by (simp add: mount_batch_def)

lemma mount_replacing:
  fixes env :: out_env
  assumes "\<forall>x \<in> set es. entry_ok x" "lines_ok p" "coalescible p e"
  defines "q \<equiv> mount_batch env (e # es) p" and "c \<equiv> pn_outCounter p"
  shows "map plain (pn_lines q) = butlast (map plain (pn_lines p)) @ [plain (en_span e)\<lparr>sp_lineNumber := sp_lineNumber (last (pn_lines p))\<rparr>]
      @ fst (numbered_all es c)"
    and "pn_outCounter q = snd (numbered_all es c)" "pn_tabCounter q = snd (numbered_all es c)" "0 \<le> pn_outCounter q"
    and "unnumbered (pn_objs q r) = unnumbered (pn_objs p r)"
proof -
  let ?L = "pn_lines p"
  let ?node = "(en_span e)\<lparr>sp_lineNumber := sp_lineNumber (last ?L)\<rparr>"
  define s where "s = number_raw (en_raw e) (number_of (last ?L)) p"
  define es' t where "es' = fst (number_entries False es s)" and "t = snd (number_entries False es s)"
  have n: "0 < number_of (last ?L)" using assms(2,3) by (simp add: lines_ok_def coalescible_def)
  then have some: "sp_lineNumber (last ?L) \<noteq> None" by (auto simp: number_of_def split: option.splits)
  have s: "pn_lines s = ?L" "pn_outCounter s = c" "pn_tabCounter s = pn_outCounter s" "0 \<le> pn_outCounter s"
    using assms(2) by (simp_all add: s_def c_def lines_ok_def)
  note rest = number_entries_rest [OF assms(1) s(3,4), folded es'_def t_def]
  have num: "number_entries True (e # es) p = (e\<lparr>en_span := ?node\<rparr> # es', t)"
    by (simp add: number_entry_replacing [OF assms(3) n] s_def [symmetric] es'_def t_def Let_def case_prod_beta)
  have "coalescible t (e\<lparr>en_span := x\<rparr>)" for x using assms(3) rest s(1) by (simp add: coalescible_def)
  then have q: "pn_lines q = butlast ?L @ [?node\<lparr>sp_prefix := Some (line_prefix env ?node)\<rparr>]
      @ map (\<lambda>e. (en_span e)\<lparr>sp_prefix := Some (line_prefix env (en_span e))\<rparr>) es'"
    "pn_outCounter q = pn_outCounter t" "pn_tabCounter q = pn_tabCounter t" "pn_objs q = pn_objs t"
    unfolding q_def mount_batch_def num using rest s(1) some by (simp_all add: Let_def replace_last_line_def o_def)
  show "map plain (pn_lines q) = butlast (map plain ?L) @ [plain (en_span e)\<lparr>sp_lineNumber := sp_lineNumber (last ?L)\<rparr>] @ fst (numbered_all es c)"
    unfolding q(1) map_append list.map plain_prefixed
    using rest s(2) plain_numbered_all [OF assms(1), of c] by (simp add: map_butlast del: map_map)
  show "pn_outCounter q = snd (numbered_all es c)" "pn_tabCounter q = snd (numbered_all es c)" "0 \<le> pn_outCounter q"
    using rest q s(2) by simp_all
  show "unnumbered (pn_objs q r) = unnumbered (pn_objs p r)" using rest q by (simp add: s_def number_raw_view)
qed

lemma mount_new:
  fixes env :: out_env
  assumes "\<forall>x \<in> set es. entry_ok x" "lines_ok p" "es = [] \<or> \<not> coalescible p (hd es)"
  defines "q \<equiv> mount_batch env es p" and "c \<equiv> pn_outCounter p"
  shows "map plain (pn_lines q) = map plain (pn_lines p) @ fst (numbered_all es c)"
    and "pn_outCounter q = snd (numbered_all es c)" "pn_tabCounter q = snd (numbered_all es c)" "0 \<le> pn_outCounter q"
    and "unnumbered (pn_objs q r) = unnumbered (pn_objs p r)"
proof -
  define es' t where "es' = fst (number_entries False es p)" and "t = snd (number_entries False es p)"
  have c: "pn_tabCounter p = pn_outCounter p" "0 \<le> pn_outCounter p" using assms(2) by (simp_all add: lines_ok_def)
  note rest = number_entries_rest [OF assms(1) c, folded es'_def t_def]
  have num: "number_entries True es p = (es', t)"
    using assms(3) by (cases es) (simp_all add: es'_def t_def number_entry_new Let_def case_prod_beta)
  have "es' = [] \<or> \<not> coalescible t (hd es')"
  proof (cases es)
    case (Cons e es2)
    then have "en_role (hd es') = en_role e" by (simp add: es'_def Let_def case_prod_beta entry_role_kept)
    with assms(3) Cons rest show ?thesis by (simp add: coalescible_def)
  qed (simp add: es'_def)
  then have q: "pn_lines q = pn_lines t @ map (\<lambda>e. (en_span e)\<lparr>sp_prefix := Some (line_prefix env (en_span e))\<rparr>) es'"
    "pn_outCounter q = pn_outCounter t" "pn_tabCounter q = pn_tabCounter t" "pn_objs q = pn_objs t"
    unfolding q_def mount_batch_def num by (cases es'; auto simp: Let_def o_def coalescible_def)+
  show "map plain (pn_lines q) = map plain (pn_lines p) @ fst (numbered_all es c)"
    unfolding q(1) map_append plain_prefixed
    using rest plain_numbered_all [OF assms(1), of c] by (simp add: c_def del: map_map)
  show "pn_outCounter q = snd (numbered_all es c)" "pn_tabCounter q = snd (numbered_all es c)" "0 \<le> pn_outCounter q"
    "unnumbered (pn_objs q r) = unnumbered (pn_objs p r)"
    using rest q by (simp_all add: c_def)
qed

lemma plain_lines_ok:
  "lines_ok p \<longleftrightarrow> pn_tabCounter p = pn_outCounter p \<and> 0 \<le> pn_outCounter p
     \<and> (\<forall>l \<in> set (map plain (pn_lines p)). coalescedOutputRoleForLine l \<noteq> [] \<longrightarrow> 0 < number_of l)"
  by (simp add: lines_ok_def number_of_def)

lemma mounted_put:
  assumes "\<forall>x \<in> set es. entry_ok x" "no_repeats es" "lines_ok p"
  shows "(map plain (pn_lines (mounted env es p)), pn_outCounter (mounted env es p))
      = foldl (put_entry (max_output_lines env)) (map plain (pn_lines p), pn_outCounter p) es"
proof (cases "es \<noteq> [] \<and> coalescible p (hd es)")
  case True
  then obtain e es2 where es: "es = e # es2" and c: "coalescible p e" by (cases es) simp_all
  have L: "pn_lines p \<noteq> []" "coalescedOutputRoleForLine (last (pn_lines p)) = en_role e" "en_role e \<noteq> []"
    using c by (simp_all add: coalescible_def)
  have put: "put_entry m (map plain (pn_lines p), k) e
      = (butlast (map plain (pn_lines p)) @ [(en_span e)\<lparr>sp_lineNumber := sp_lineNumber (last (pn_lines p))\<rparr>], k)" for m k
    using L by (simp add: put_entry_def put_def last_map)
  have rest: "en_role (hd es2) = [] \<or> en_role e \<noteq> en_role (hd es2)" "no_repeats es2" if "es2 \<noteq> []"
    using assms(2) that by (cases es2; simp add: es)+
  have e: "plain (en_span e) = en_span e" "coalescedOutputRoleForLine (en_span e) = en_role e" "\<forall>x \<in> set es2. entry_ok x"
    using assms(1) by (simp_all add: es plain_entry entry_ok_def)
  show ?thesis
    using mount_replacing(1,2) [OF e(3) assms(3) c, of env] rest e
    by (cases "es2 = []")
      (simp_all add: es put mounted_def mounts_lines_def c trim_lines last_n_map [symmetric] put_rest)
next
  case False
  then have n: "es = [] \<or> \<not> coalescible p (hd es)" by simp
  have hd: "es \<noteq> [] \<longrightarrow> en_role (hd es) = [] \<or> map plain (pn_lines p) = [] \<or> coalescedOutputRoleForLine (last (map plain (pn_lines p))) \<noteq> en_role (hd es)"
    using n by (auto simp: coalescible_def last_map)
  from n have "mounts_lines es p = (es \<noteq> [])" by (cases es) (simp_all add: mounts_lines_def)
  then show ?thesis
    using mount_new(1,2) [OF assms(1,3) n, of env]
    by (simp add: put_rest [OF assms(1,2) hd] mounted_def trim_lines last_n_map [symmetric])
qed

lemma mounted_fields [simp]:
  "pn_batch (mounted env es p) = pn_batch p"
  by (simp add: mounted_def batch_frame)

lemma mount_lines_ok:
  assumes "\<forall>x \<in> set es. entry_ok x" "lines_ok p"
  shows "lines_ok (mount_batch env es p)" "unnumbered (pn_objs (mount_batch env es p) r) = unnumbered (pn_objs p r)"
proof -
  have ctr: "0 \<le> pn_outCounter p" using assms(2) by (simp add: lines_ok_def)
  have "lines_ok (mount_batch env es p) \<and> unnumbered (pn_objs (mount_batch env es p) r) = unnumbered (pn_objs p r)"
  proof (cases "es \<noteq> [] \<and> coalescible p (hd es)")
    case True
    then obtain e es2 where es: "es = e # es2" and c: "coalescible p e" by (cases es) simp_all
    have e: "\<forall>x \<in> set es2. entry_ok x" "0 < number_of (last (pn_lines p))"
      using assms c by (simp_all add: es lines_ok_def coalescible_def)
    from mount_replacing [OF e(1) assms(2) c, of env] e(2) assms(2) numbered_all_ok [OF e(1) ctr] show ?thesis
      by (auto simp: plain_lines_ok es number_of_def dest!: in_set_butlastD)
  next
    case False
    then have "es = [] \<or> \<not> coalescible p (hd es)" by simp
    from mount_new [OF assms this, of env] assms(2) numbered_all_ok [OF assms(1) ctr] show ?thesis
      by (auto simp: plain_lines_ok)
  qed
  then show "lines_ok (mount_batch env es p)" "unnumbered (pn_objs (mount_batch env es p) r) = unnumbered (pn_objs p r)" by simp_all
qed

lemma trim_lines_ok: "lines_ok p \<Longrightarrow> lines_ok (trimOutputToMaxLines env p)"
  using set_last_n by (fastforce simp: lines_ok_def trim_lines)

lemma lines_ok_frame [simp]:
  "lines_ok (p\<lparr>pn_batch := b\<rparr>) = lines_ok p" "lines_ok (p\<lparr>pn_hv := h\<rparr>) = lines_ok p" "lines_ok (p\<lparr>pn_prompt := pr\<rparr>) = lines_ok p"
  "lines_ok (p\<lparr>pn_prefixWidth := w\<rparr>) = lines_ok p" "lines_ok (p\<lparr>pn_deferPrompt := d\<rparr>) = lines_ok p"
  "lines_ok (p\<lparr>pn_promptMounts := k\<rparr>) = lines_ok p" "lines_ok (p\<lparr>pn_objs := ob\<rparr>) = lines_ok p" "lines_ok (p\<lparr>pn_next := nx\<rparr>) = lines_ok p"
  "lines_ok (syncTabRawLines env r p) = lines_ok p"
  by (simp_all add: lines_ok_def)

text \<open>The state after a flush, but for the prompt: the mounted batch and the transcript.\<close>

definition flushed :: "out_env \<Rightarrow> out_panel \<Rightarrow> out_panel" where
  "flushed env p = foldl (\<lambda>p r. syncTabRawLines env r p)
     (mounted env (take batch_size (pending_items (pn_batch p))) (take_batch p)) (take batch_size (pending_raw (pn_batch p)))"

lemma sync_all_fields:
  "pn_lines (foldl (\<lambda>p r. syncTabRawLines env r p) p rs) = pn_lines p" "pn_objs (foldl (\<lambda>p r. syncTabRawLines env r p) p rs) = pn_objs p"
  "pn_outCounter (foldl (\<lambda>p r. syncTabRawLines env r p) p rs) = pn_outCounter p" "pn_tabCounter (foldl (\<lambda>p r. syncTabRawLines env r p) p rs) = pn_tabCounter p"
  "pn_hv (foldl (\<lambda>p r. syncTabRawLines env r p) p rs) = pn_hv p" "pn_runStart (foldl (\<lambda>p r. syncTabRawLines env r p) p rs) = pn_runStart p"
  "pn_running (foldl (\<lambda>p r. syncTabRawLines env r p) p rs) = pn_running p" "pn_batch (foldl (\<lambda>p r. syncTabRawLines env r p) p rs) = pn_batch p"
  by (induction rs arbitrary: p) simp_all

lemma mounts_lines_batch: "mounts_lines es (take_batch p) = mounts_lines es p"
  by (simp add: mounts_lines_def coalescible_def split: list.splits)

lemma after_flush_fields:
  "pn_lines (after_flush env p) = pn_lines p" "pn_objs (after_flush env p) = pn_objs p" "pn_outCounter (after_flush env p) = pn_outCounter p"
  "pn_tabCounter (after_flush env p) = pn_tabCounter p" "pn_hv (after_flush env p) = pn_hv p" "pn_runStart (after_flush env p) = pn_runStart p"
  "pn_running (after_flush env p) = pn_running p" "pn_raw (after_flush env p) = pn_raw p"
  by (simp_all add: after_flush_def schedulePendingOutputFlush_def set_batch_def maybeMountDeferredPrompt_def)

lemma prompt_prefix_fields [simp]:
  "pn_lines (sync_prompt_prefix env p) = pn_lines p" "pn_objs (sync_prompt_prefix env p) = pn_objs p" "pn_outCounter (sync_prompt_prefix env p) = pn_outCounter p"
  "pn_tabCounter (sync_prompt_prefix env p) = pn_tabCounter p" "pn_hv (sync_prompt_prefix env p) = pn_hv p" "pn_runStart (sync_prompt_prefix env p) = pn_runStart p"
  "pn_running (sync_prompt_prefix env p) = pn_running p" "pn_raw (sync_prompt_prefix env p) = pn_raw p" "pn_next (sync_prompt_prefix env p) = pn_next p"
  "pn_batch (sync_prompt_prefix env p) = pn_batch p"
  by (simp_all add: sync_prompt_prefix_def)

lemma flush_view:
  "pn_lines (flushPendingOutputBatch env p) = pn_lines (flushed env p)" "pn_objs (flushPendingOutputBatch env p) = pn_objs (flushed env p)"
  "pn_outCounter (flushPendingOutputBatch env p) = pn_outCounter (flushed env p)" "pn_tabCounter (flushPendingOutputBatch env p) = pn_tabCounter (flushed env p)"
  "pn_hv (flushPendingOutputBatch env p) = pn_hv (flushed env p)" "pn_runStart (flushPendingOutputBatch env p) = pn_runStart (flushed env p)"
  "pn_running (flushPendingOutputBatch env p) = pn_running (flushed env p)" "pn_raw (flushPendingOutputBatch env p) = pn_raw (flushed env p)"
  by (simp_all add: flushPendingOutputBatch_def flushed_def Let_def after_flush_fields mounted_def mounts_lines_batch trim_lines
      sync_all_fields sync_all_raw)

lemma no_repeats_append: "no_repeats (xs @ ys) \<Longrightarrow> no_repeats xs \<and> no_repeats ys"
proof (induction xs)
  case (Cons x xs)
  then show ?case by (cases xs; cases ys) auto
qed simp

lemma no_repeats_split: "no_repeats es \<Longrightarrow> no_repeats (take n es)" "no_repeats es \<Longrightarrow> no_repeats (drop n es)"
  using no_repeats_append [of "take n es" "drop n es"] by simp_all

lemma number_run_fields:
  "pn_hv (snd (number_entry b e p)) = pn_hv p \<and> pn_runStart (snd (number_entry b e p)) = pn_runStart p
     \<and> pn_running (snd (number_entry b e p)) = pn_running p \<and> pn_raw (snd (number_entry b e p)) = pn_raw p
     \<and> pn_lines (snd (number_entry b e p)) = pn_lines p"
  by (simp add: number_entry_def assignOutputLineNumber_def set_counters_def number_raw_def Let_def case_prod_beta)

lemma number_entries_run_fields:
  "pn_hv (snd (number_entries b es p)) = pn_hv p \<and> pn_runStart (snd (number_entries b es p)) = pn_runStart p
     \<and> pn_running (snd (number_entries b es p)) = pn_running p \<and> pn_raw (snd (number_entries b es p)) = pn_raw p"
  by (induction es arbitrary: b p) (simp_all add: number_run_fields Let_def case_prod_beta)

lemma mount_run_fields [simp]:
  "pn_hv (mount_batch env es p) = pn_hv p" "pn_runStart (mount_batch env es p) = pn_runStart p"
  "pn_running (mount_batch env es p) = pn_running p" "pn_raw (mount_batch env es p) = pn_raw p"
  by (simp_all add: mount_batch_def Let_def case_prod_beta replace_last_line_def number_entries_run_fields split: list.split)

lemma mounted_run_fields [simp]:
  "pn_hv (mounted env es p) = pn_hv p" "pn_runStart (mounted env es p) = pn_runStart p"
  "pn_running (mounted env es p) = pn_running p" "pn_raw (mounted env es p) = pn_raw p"
  by (simp_all add: mounted_def)

lemma pending_batch_ok:
  assumes "panel_ok roots p"
  shows "\<forall>x \<in> set (take n (pending_items (pn_batch p))). entry_ok x" "no_repeats (take n (pending_items (pn_batch p)))" "lines_ok (take_batch p)"
  using assms by (auto simp: panel_ok_def no_repeats_split lines_ok_def dest!: in_set_takeD)

lemma flushed_ok:
  assumes "panel_ok roots p"
  shows "lines_ok (flushed env p)" "unnumbered (pn_objs (flushed env p) r) = unnumbered (pn_objs p r)"
    and "(map plain (pn_lines (flushed env p)), pn_outCounter (flushed env p))
      = foldl (put_entry (max_output_lines env)) (map plain (pn_lines p), pn_outCounter p) (take batch_size (pending_items (pn_batch p)))"
proof -
  note ok = pending_batch_ok(1,2) [OF assms, of batch_size] pending_batch_ok(3) [OF assms]
  let ?q = "mounted env (take batch_size (pending_items (pn_batch p))) (take_batch p)"
  have "lines_ok ?q" "unnumbered (pn_objs ?q r) = unnumbered (pn_objs p r)"
    using mount_lines_ok [OF ok(1,3), of env] by (simp_all add: mounted_def trim_lines_ok)
  then show "lines_ok (flushed env p)" "unnumbered (pn_objs (flushed env p) r) = unnumbered (pn_objs p r)"
    by (simp_all add: flushed_def lines_ok_def sync_all_fields)
  show "(map plain (pn_lines (flushed env p)), pn_outCounter (flushed env p))
      = foldl (put_entry (max_output_lines env)) (map plain (pn_lines p), pn_outCounter p) (take batch_size (pending_items (pn_batch p)))"
    using mounted_put [OF ok, of env] by (simp add: flushed_def sync_all_fields)
qed

lemma flush_lines_view:
  assumes "panel_ok roots p"
  shows "lines_view (max_output_lines env) (flushPendingOutputBatch env p) = lines_view (max_output_lines env) p"
  unfolding lines_view_def flush_view flush_batch flushed_ok [OF assms]
  by (simp flip: foldl_append)

lemma flush_log_view:
  assumes "panel_ok roots p"
  shows "log_view (max_output_lines env) (flushPendingOutputBatch env p) = log_view (max_output_lines env) p"
proof -
  let ?m = "max_output_lines env" and ?raws = "pending_raw (pn_batch p)" and ?q = "flushPendingOutputBatch env p"
  have f: "unnumbered \<circ> pn_objs ?q = unnumbered \<circ> pn_objs p"
    using flushed_ok(2) [OF assms] by (simp add: fun_eq_iff flush_view)
  have raw: "pn_raw ?q = (if ?raws = [] then pn_raw p else last_n ?m (pn_raw p @ take batch_size ?raws))"
    by (simp add: flush_view flushed_def sync_all_raw batch_size_def)
  have "last_n ?m (map h (last_n ?m (xs @ take k ys) @ drop k ys)) = last_n ?m (map h (xs @ ys))" for h :: "nat \<Rightarrow> jsval" and xs ys k
    unfolding map_append last_n_map [symmetric] last_n_append by (simp flip: map_append)
  then show ?thesis
    unfolding log_view_def raw_lines_def map_map flush_batch f raw
    by (auto simp: last_n_map [symmetric])
qed

lemma flush_refines:
  assumes "panel_ok roots p"
  shows "view (max_output_lines env) (flushPendingOutputBatch env p) = view (max_output_lines env) p"
  by (simp add: view_def flush_lines_view [OF assms] flush_log_view [OF assms]) (simp add: flush_view flushed_def sync_all_fields)

lemma flush_panel_ok:
  assumes "panel_ok roots p" "builtin_roots env = roots"
  shows "panel_ok roots (flushPendingOutputBatch env p)"
proof -
  have "lines_ok (flushPendingOutputBatch env p)"
    using flushed_ok(1) [OF assms(1), of env] by (simp add: lines_ok_def flush_view)
  with assms show ?thesis
    by (auto simp: panel_ok_def flush_counted flush_batch no_repeats_split dest!: in_set_dropD)
qed

lemma flush_timed: "timed (flushPendingOutputBatch env p)"
  by (simp add: flushPendingOutputBatch_def Let_def after_flush_def timed_def nothing_pending_def schedulePendingOutputFlush_def set_batch_def
      maybeMountDeferredPrompt_def)

text \<open>Draining keeps the view and leaves nothing pending.\<close>

lemma flush_all_drains: "nothing_pending (flush_all env p)"
proof (induction env p rule: flush_all.induct)
  case (1 env p)
  then show ?case by (cases "nothing_pending p") (simp_all add: flush_all.simps [of env p])
qed

lemma flush_all_refines:
  "panel_ok roots p \<Longrightarrow> builtin_roots env = roots \<Longrightarrow>
   view (max_output_lines env) (flush_all env p) = view (max_output_lines env) p \<and> panel_ok roots (flush_all env p)"
proof (induction env p rule: flush_all.induct)
  case (1 env p)
  then show ?case
    by (cases "nothing_pending p") (simp_all add: flush_all.simps [of env p] flush_refines flush_panel_ok)
qed

section \<open>Appending refines the immediate terminal\<close>

text \<open>A line without a number of its own whose class and role agree: only a progress or status line has the
  class of one, and it is not a line of the welcome screen or of a summary.\<close>

definition line_fits :: "line_event \<Rightarrow> jsobj \<Rightarrow> bool" where
  "line_fits event md \<longleftrightarrow> given_int md ''line_number'' = None
     \<and> (let classes = ws_words (legacyClsForEvent event) in
        if coalescedOutputRoleForEvent event = [] then ''progress'' \<notin> set classes \<and> ''status-line'' \<notin> set classes
        else list_all (\<lambda>c. \<not> startsWith c ''welcome-'' \<and> \<not> startsWith c ''wlc-'' \<and> \<not> isSyntheticSummaryClassName c) classes)"

lemma synthetic_known: "\<not> isSyntheticSummaryClassName ''line''" "\<not> isSyntheticSummaryClassName ''is-blank''"
  by (simp_all add: isSyntheticSummaryClassName_def output_synthetic_summary_classes_def output_signal_summary_classes_def
      output_command_outcome_summary_classes_def)

lemma new_entry_ok:
  assumes "line_fits event md" "new_entry env event md p = (e, q)"
  shows "entry_ok e" "en_role e = coalescedOutputRoleForEvent event" "en_span e = buildOutputLine env (pn_runStart p) event md" "en_raw e = pn_next p"
    "q = snd (new_raw (rawOutputLine env (pn_runStart p) event md) p)"
proof -
  have e: "e = \<lparr>en_span = buildOutputLine env (pn_runStart p) event md, en_raw = pn_next p, en_role = coalescedOutputRoleForEvent event\<rparr>"
    "q = snd (new_raw (rawOutputLine env (pn_runStart p) event md) p)"
    using assms(2) by (auto simp: new_entry_def new_raw_def)
  show "en_role e = coalescedOutputRoleForEvent event" "en_span e = buildOutputLine env (pn_runStart p) event md" "en_raw e = pn_next p"
    "q = snd (new_raw (rawOutputLine env (pn_runStart p) event md) p)"
    using e by simp_all
  show "entry_ok e"
    using assms(1) synthetic_known
    by (auto simp: e entry_ok_def buildOutputLine_def span_metadata_def line_fits_def Let_def line_classes_def list_ex_iff list_all_iff
        coalescedOutputRoleForLine_def coalescedOutputRoleForEvent_def isPrefixExcludedLine_def isWelcomeLine_def
        split: if_splits)
qed

text \<open>A new object does not change the lines recorded so far.\<close>

lemma new_raw_view:
  fixes v :: jsval
  assumes "counted roots p"
  defines "q \<equiv> snd (new_raw v p)"
  shows "map (unnumbered \<circ> pn_objs q) (pn_raw p) = map (unnumbered \<circ> pn_objs p) (pn_raw p)"
    and "map (unnumbered \<circ> pn_objs q) (pending_raw (pn_batch p)) = map (unnumbered \<circ> pn_objs p) (pending_raw (pn_batch p))"
    and "pn_objs q (pn_next p) = v"
  using counted_refs [OF assms(1)] by (auto simp: q_def new_raw_def refs_of_def)

lemma new_raw_fields [simp]:
  "pn_raw (snd (new_raw v p)) = pn_raw p" "pn_batch (snd (new_raw v p)) = pn_batch p" "pn_lines (snd (new_raw v p)) = pn_lines p"
  "pn_outCounter (snd (new_raw v p)) = pn_outCounter p" "pn_tabCounter (snd (new_raw v p)) = pn_tabCounter p" "pn_hv (snd (new_raw v p)) = pn_hv p"
  "pn_runStart (snd (new_raw v p)) = pn_runStart p" "pn_running (snd (new_raw v p)) = pn_running p" "fst (new_raw v p) = pn_next p"
  by (simp_all add: new_raw_def)

lemma queue_fields [simp]:
  "pn_raw (queue_entry e p) = pn_raw p" "pn_objs (queue_entry e p) = pn_objs p" "pn_lines (queue_entry e p) = pn_lines p"
  "pn_outCounter (queue_entry e p) = pn_outCounter p" "pn_tabCounter (queue_entry e p) = pn_tabCounter p" "pn_hv (queue_entry e p) = pn_hv p"
  "pn_runStart (queue_entry e p) = pn_runStart p" "pn_running (queue_entry e p) = pn_running p"
  "pending_items (pn_batch (queue_entry e p)) = queuePendingOutputEntry e (pending_items (pn_batch p))"
  "pending_raw (pn_batch (queue_entry e p)) = pending_raw (pn_batch p) @ [en_raw e]"
  "batch_scheduled (pn_batch (queue_entry e p)) = batch_scheduled (pn_batch p)"
  by (simp_all add: queue_entry_def set_batch_def)

lemma queue_refines:
  assumes "panel_ok roots p" "line_fits event md" "new_entry env event md p = (e, q)"
  shows "view (max_output_lines env) (queue_entry e q) = scr_line env event md (view (max_output_lines env) p)"
proof -
  let ?m = "max_output_lines env" and ?v = "rawOutputLine env (pn_runStart p) event md"
  note e = new_entry_ok [OF assms(2,3)]
  have c: "counted roots p" and ok: "\<forall>x \<in> set (pending_items (pn_batch p)). entry_ok x" using assms(1) by (simp_all add: panel_ok_def)
  have "lines_view ?m (queue_entry e q) = put ?m (coalescedOutputRoleForEvent event) (buildOutputLine env (pn_runStart p) event md) (lines_view ?m p)"
    using queue_put [OF ok e(1), of ?m] by (simp add: lines_view_def e(5) put_entry_def e(2,3))
  moreover have "log_view ?m (queue_entry e q) = last_n ?m (log_view ?m p @ [unnumbered ?v])"
    by (simp add: log_view_def raw_lines_def e(4,5) new_raw_view [OF c])
  ultimately show ?thesis by (simp add: view_def scr_line_def e(5) Let_def case_prod_beta)
qed

lemma queue_panel_ok:
  assumes "panel_ok roots p" "line_fits event md" "new_entry env event md p = (e, q)"
  shows "panel_ok roots (queue_entry e q)"
proof -
  note e = new_entry_ok [OF assms(2,3)]
  have "counted roots (queue_entry e q)"
    using new_entry_counted [OF _ assms(3), of roots] assms(1) by (simp add: panel_ok_def queue_entry_counted)
  with assms(1) e(1) queue_items [of e "pending_items (pn_batch p)"] show ?thesis
    by (auto simp: panel_ok_def lines_ok_def queue_apart e(5))
qed

lemma view_batch_flags:
  "view m (schedulePendingOutputFlush p) = view m p" "view m (set_batch (\<lambda>b. b\<lparr>burstCount := f b\<rparr>) p) = view m p"
  "panel_ok roots (schedulePendingOutputFlush p) = panel_ok roots p" "panel_ok roots (set_batch (\<lambda>b. b\<lparr>burstCount := f b\<rparr>) p) = panel_ok roots p"
  by (simp_all add: view_def lines_view_def log_view_def raw_lines_def schedulePendingOutputFlush_def set_batch_def panel_ok_def
      lines_ok_def counted_def counts_ok_def store_ok_def refs_of_def)

text \<open>A line rendered at once is a batch of one.\<close>

lemma render_view:
  "map plain (pn_lines (render_entry env e p)) = map plain (pn_lines (mounted env [e] p))"
  "pn_outCounter (render_entry env e p) = pn_outCounter (mounted env [e] p)"
  "pn_tabCounter (render_entry env e p) = pn_tabCounter (mounted env [e] p)"
  "pn_objs (render_entry env e p) = pn_objs (mounted env [e] p)"
  "pn_raw (render_entry env e p) = last_n (max_output_lines env) (pn_raw p @ [en_raw e])"
  "pending_items (pn_batch (render_entry env e p)) = pending_items (pn_batch p)" "pending_raw (pn_batch (render_entry env e p)) = pending_raw (pn_batch p)"
  "pn_hv (render_entry env e p) = pn_hv p" "pn_runStart (render_entry env e p) = pn_runStart p" "pn_running (render_entry env e p) = pn_running p"
proof -
  obtain e' q where n: "number_entry True e p = (e', q)" by fastforce
  have k: "en_raw e' = en_raw e" "en_role e' = en_role e" "pn_lines q = pn_lines p" "pn_raw q = pn_raw p" "pn_batch q = pn_batch p" "pn_hv q = pn_hv p"
    "pn_runStart q = pn_runStart p" "pn_running q = pn_running p"
    using entry_role_kept [of True e p] number_run_fields [of True e p] batch_of_numbering(3) [of True e p] by (simp_all add: n)
  have c: "coalescible q e' = coalescible p e" "mounts_lines [e] p = (\<not> coalescible p e)"
    using k by (auto simp: coalescible_def mounts_lines_def)
  show "map plain (pn_lines (render_entry env e p)) = map plain (pn_lines (mounted env [e] p))"
  "pn_outCounter (render_entry env e p) = pn_outCounter (mounted env [e] p)"
  "pn_tabCounter (render_entry env e p) = pn_tabCounter (mounted env [e] p)"
  "pn_objs (render_entry env e p) = pn_objs (mounted env [e] p)"
  "pn_raw (render_entry env e p) = last_n (max_output_lines env) (pn_raw p @ [en_raw e])"
  "pending_items (pn_batch (render_entry env e p)) = pending_items (pn_batch p)" "pending_raw (pn_batch (render_entry env e p)) = pending_raw (pn_batch p)"
  "pn_hv (render_entry env e p) = pn_hv p" "pn_runStart (render_entry env e p) = pn_runStart p" "pn_running (render_entry env e p) = pn_running p"
    using c k
    by (simp_all add: render_entry_def mounted_def mount_batch_def n Let_def set_batch_def replace_last_line_def trim_lines last_n_map [symmetric]
        sync_raw coalescible_def)
qed

lemma render_refines:
  assumes "panel_ok roots p" "nothing_pending p" "line_fits event md" "new_entry env event md p = (e, q)" "builtin_roots env = roots"
  shows "view (max_output_lines env) (render_entry env e q) = scr_line env event md (view (max_output_lines env) p)"
    and "panel_ok roots (render_entry env e q)"
proof -
  let ?m = "max_output_lines env" and ?v = "rawOutputLine env (pn_runStart p) event md"
  note e = new_entry_ok [OF assms(3,4)]
  have c: "counted roots p" and l: "lines_ok q" using assms(1) by (simp_all add: panel_ok_def lines_ok_def e(5))
  have none: "pending_items (pn_batch p) = []" "pending_raw (pn_batch p) = []" using assms(2) by (simp_all add: nothing_pending_def)
  have one: "\<forall>x \<in> set [e]. entry_ok x" "no_repeats [e]" using e(1) by simp_all
  have lines: "lines_view ?m (render_entry env e q) = put ?m (coalescedOutputRoleForEvent event) (buildOutputLine env (pn_runStart p) event md) (lines_view ?m p)"
    using mounted_put [OF one l, of env] none by (simp add: lines_view_def render_view e(5) put_entry_def e(2,3))
  have ok: "lines_ok (mounted env [e] q)" "\<And>r. unnumbered (pn_objs (mounted env [e] q) r) = unnumbered (pn_objs q r)"
    using mount_lines_ok [OF one(1) l, of env] by (simp_all add: mounted_def trim_lines_ok)
  then have f: "unnumbered \<circ> pn_objs (mounted env [e] q) = unnumbered \<circ> pn_objs q" by (simp add: fun_eq_iff)
  have log: "log_view ?m (render_entry env e q) = last_n ?m (log_view ?m p @ [unnumbered ?v])"
    using none by (simp add: log_view_def raw_lines_def render_view f [unfolded e(5)] ok(2) [unfolded e(5)] last_n_map [symmetric] e(4,5) new_raw_view [OF c])
  show "view ?m (render_entry env e q) = scr_line env event md (view ?m p)"
    by (simp add: view_def scr_line_def lines log Let_def case_prod_beta render_view) (simp add: e(5))
  have "lines_ok (render_entry env e q)"
    using ok(1) unfolding plain_lines_ok render_view by simp
  then show "panel_ok roots (render_entry env e q)"
    using new_entry_counted [OF c assms(4)] none
    by (simp add: panel_ok_def render_entry_counted assms(5) render_view e(5))
qed

definition refines :: "string list \<Rightarrow> int \<Rightarrow> out_panel \<Rightarrow> screen \<Rightarrow> bool" where
  "refines roots m p sc \<longleftrightarrow> panel_ok roots p \<and> timed p \<and> view m p = sc"

lemma append_rendered_refines:
  assumes "refines roots (max_output_lines env) p sc" "line_fits event md" "builtin_roots env = roots"
  shows "refines roots (max_output_lines env) (append_rendered env event md p) (scr_line env event md sc)"
proof -
  obtain e q where n: "new_entry env event md p = (e, q)" by fastforce
  have ok: "panel_ok roots p" "timed p" "view (max_output_lines env) p = sc" using assms(1) by (simp_all add: refines_def)
  show ?thesis
  proof (cases "should_batch p")
    case True
    then show ?thesis
      using queue_refines [OF ok(1) assms(2) n] queue_panel_ok [OF ok(1) assms(2) n] ok(3)
      by (simp add: append_rendered_def n refines_def view_batch_flags timed_def) (simp add: schedulePendingOutputFlush_def set_batch_def)
  next
    case False
    then have np: "nothing_pending p" using ok(2) by (simp add: should_batch_def timed_def)
    then have "timed (render_entry env e q)"
      using new_entry_ok(5) [OF assms(2) n] by (simp add: timed_def nothing_pending_def render_view)
    with False render_refines [OF ok(1) np assms(2) n assms(3)] ok(3) show ?thesis
      by (simp add: append_rendered_def n refines_def)
  qed
qed

lemma notice_fits:
  "line_fits (fst (normalizeLineEventInput (JStr text) (JStr ''notice'') JNull)) (snd (normalizeLineEventInput (JStr text) (JStr ''notice'') JNull))"
  "line_fits (fst (normalizeLineEventInput (JStr text) (JStr ''notice'') (JObj [(''high_volume_resume'', JBool True)])))
     (snd (normalizeLineEventInput (JStr text) (JStr ''notice'') (JObj [(''high_volume_resume'', JBool True)])))"
proof -
  have w: "ws_words ''notice'' = [''notice'']" "legacyClsToRole (JStr ''notice'') = ''body''" "trim ''body'' = ''body''" by code_simp+
  have i: "int_prop (JObj x) ''line_number'' = None" if "obj_get x ''line_number'' = JUndef" for x using that by (simp add: int_prop_def)
  show "line_fits (fst (normalizeLineEventInput (JStr text) (JStr ''notice'') JNull)) (snd (normalizeLineEventInput (JStr text) (JStr ''notice'') JNull))"
    "line_fits (fst (normalizeLineEventInput (JStr text) (JStr ''notice'') (JObj [(''high_volume_resume'', JBool True)])))
     (snd (normalizeLineEventInput (JStr text) (JStr ''notice'') (JObj [(''high_volume_resume'', JBool True)])))"
    by (simp_all add: normalizeLineEventInput_def lineEventPayload_def overridden_def payload_keys_def metadata_keys_def override_key_def
        mergeLineEventMetadata_def merge_source_def merge_key_def fromWireLineEvent_def enumValue_def obj_get_Cons js_or_def js_nullish_def
        line_fits_def given_int_def i coalescedOutputRoleForEvent_def coalesced_roles_def legacyClsForEvent_def w Let_def case_prod_beta)
qed

lemma append_notice_refines:
  assumes "refines roots (max_output_lines env) p sc" "builtin_roots env = roots" "md = JNull \<or> md = JObj [(''high_volume_resume'', JBool True)]"
  shows "refines roots (max_output_lines env) (append_notice env msg md p) (scr_notice env msg md sc)"
  using append_rendered_refines [OF assms(1) _ assms(2)] notice_fits [of msg] assms(3)
  by (auto simp: append_notice_def scr_notice_def case_prod_beta)

lemma raw_no_number:
  assumes "given_int md ''line_number'' = None"
  shows "jprop (rawOutputLine env rs event md) ''line_number'' = JUndef"
proof -
  have put: "obj_get (put_str k md raw) ''line_number'' = obj_get raw ''line_number''" if "k \<noteq> ''line_number''" for k raw
    using that by (simp add: put_str_def obj_get_set)
  have "obj_get (legacyPayload ev) ''line_number'' = JUndef" for ev
    by (simp add: legacyPayload_def wire_get split: option.split)
  then have "obj_get (raw_metadata md (obj_set (obj_set (legacyPayload ev) ''tsC'' a) ''tsE'' b)) ''line_number'' = JUndef" for ev a b
    using assms by (simp add: raw_metadata_def Let_def put obj_get_set put_int_def split: option.split)
  then show ?thesis by (simp add: rawOutputLine_def Let_def)
qed

lemma refines_set_hv: "refines roots m p sc \<Longrightarrow> refines roots m (set_hv f p) (sc\<lparr>sc_hv := f (sc_hv sc)\<rparr>)"
  by (auto simp: refines_def panel_ok_def timed_def nothing_pending_def view_def lines_view_def log_view_def raw_lines_def set_hv_def)

lemma record_line_refines:
  assumes "refines roots (max_output_lines env) p sc" "nothing_pending p" "line_fits event md" "builtin_roots env = roots"
    and "new_raw (rawOutputLine env (pn_runStart p) event md) p = (r, q)"
  shows "refines roots (max_output_lines env) (syncTabRawLines env r (assignRawOutputLineNumber r q))
    (sc\<lparr>sc_counter := sc_counter sc + 1,
        sc_log := last_n (max_output_lines env) (sc_log sc @ [unnumbered (rawOutputLine env (sc_runStart sc) event md)])\<rparr>)"
proof -
  let ?v = "rawOutputLine env (pn_runStart p) event md" and ?m = "max_output_lines env"
  have ok: "panel_ok roots p" "view ?m p = sc" using assms(1) by (simp_all add: refines_def)
  have c: "counted roots p" and l: "lines_ok p" using ok(1) by (simp_all add: panel_ok_def)
  have none: "pending_items (pn_batch p) = []" "pending_raw (pn_batch p) = []" using assms(2) by (simp_all add: nothing_pending_def)
  have q: "q = snd (new_raw ?v p)" "r = pn_next p" using assms(5) by (auto simp: new_raw_def)
  have v: "jprop (pn_objs q r) ''line_number'' = JUndef"
    using assms(3) raw_no_number [of md] by (simp add: q new_raw_view [OF c] line_fits_def)
  have a: "assignRawOutputLineNumber r q = set_counters (pn_outCounter p + 1) (number_raw r (pn_outCounter p + 1) q)"
    unfolding assignRawOutputLineNumber_def v Let_def using l by (simp add: num_or_zero_def js_or_def q lines_ok_def)
  have "counted roots (assignRawOutputLineNumber r q)" "r < pn_next (assignRawOutputLineNumber r q)"
    using counted_new_raw [OF c raw_plain assms(5)] by (simp_all add: a number_raw_counted) (simp add: set_counters_def)
  then have "counted roots (syncTabRawLines env r (assignRawOutputLineNumber r q))" by (simp add: counted_sync assms(4))
  moreover have "unnumbered \<circ> pn_objs (number_raw r n q) = unnumbered \<circ> pn_objs q" for n by (simp add: fun_eq_iff number_raw_view)
  ultimately show ?thesis
    unfolding a using none l ok(2) new_raw_view(3) [OF c, of ?v]
    by (auto simp: refines_def panel_ok_def timed_def nothing_pending_def lines_ok_def set_counters_def q view_def lines_view_def log_view_def
        raw_lines_def sync_raw last_n_map [symmetric] new_raw_view(1,2) [OF c] number_raw_view)
qed

lemma record_skipped_refines:
  assumes "refines roots (max_output_lines env) p sc" "nothing_pending p" "line_fits event md" "builtin_roots env = roots"
  shows "refines roots (max_output_lines env) (record_skipped env event md p) (scr_skip env event md sc)"
proof -
  obtain r q where n: "new_raw (rawOutputLine env (pn_runStart p) event md) p = (r, q)" by fastforce
  define p1 where "p1 = set_hv (\<lambda>h. h\<lparr>skippedLines := Suc (skippedLines h)\<rparr>) (syncTabRawLines env r (assignRawOutputLineNumber r q))"
  define s1 where "s1 = sc\<lparr>sc_counter := sc_counter sc + 1,
    sc_log := last_n (max_output_lines env) (sc_log sc @ [unnumbered (rawOutputLine env (sc_runStart sc) event md)]),
    sc_hv := (sc_hv sc)\<lparr>skippedLines := Suc (skippedLines (sc_hv sc))\<rparr>\<rparr>"
  have r1: "refines roots (max_output_lines env) p1 s1"
    using refines_set_hv [OF record_line_refines [OF assms n], of "\<lambda>h. h\<lparr>skippedLines := Suc (skippedLines h)\<rparr>"] by (simp add: p1_def s1_def)
  then have h: "pn_hv p1 = sc_hv s1" by (auto simp: refines_def view_def)
  have "refines roots (max_output_lines env) (set_hv (\<lambda>h. h\<lparr>lastNoticeLine := receivedLines h\<rparr>) p1)
      (s1\<lparr>sc_hv := (sc_hv s1)\<lparr>lastNoticeLine := receivedLines (sc_hv s1)\<rparr>\<rparr>)"
    using refines_set_hv [OF r1, of "\<lambda>h. h\<lparr>lastNoticeLine := receivedLines h\<rparr>"] by simp
  note notice = append_notice_refines [OF this assms(4) disjI2 [OF refl]]
  have rec: "record_skipped env event md p = appendHighVolumeOutputNotice env (skippedLines (sc_hv s1) = 1) p1"
    by (simp add: record_skipped_def n p1_def [symmetric] Let_def h)
  have scr: "scr_skip env event md sc =
      (if skippedLines (sc_hv s1) \<noteq> 1 \<and> int (receivedLines (sc_hv s1)) - int (lastNoticeLine (sc_hv s1)) < int (highVolumeOutputStatusIntervalLines env) then s1
       else scr_notice env (hv_notice_text env (sc_hv s1))
         (JObj [(''high_volume_resume'', JBool True)]) (s1\<lparr>sc_hv := (sc_hv s1)\<lparr>lastNoticeLine := receivedLines (sc_hv s1)\<rparr>\<rparr>))"
    by (simp add: scr_skip_def s1_def Let_def)
  show ?thesis
    using r1 notice unfolding rec scr appendHighVolumeOutputNotice_def h Let_def by simp
qed

lemma skip_decision: "shouldSkipLiveOutputRender env md p = (fst (hv_step env md (pn_hv p)), p\<lparr>pn_hv := snd (hv_step env md (pn_hv p))\<rparr>)"
  by (auto simp: shouldSkipLiveOutputRender_def hv_step_def set_hv_def Let_def)

lemma refines_hv: "refines roots m p sc \<Longrightarrow> refines roots m (p\<lparr>pn_hv := h\<rparr>) (sc\<lparr>sc_hv := h\<rparr>)" "refines roots m p sc \<Longrightarrow> pn_hv p = sc_hv sc"
  using refines_set_hv [of roots m p sc "\<lambda>_. h"] by (auto simp: set_hv_def refines_def view_def)

lemma append_event_refines:
  assumes "refines roots (max_output_lines env) p sc" "line_fits event md" "builtin_roots env = roots"
  shows "refines roots (max_output_lines env) (append_event env event md p) (scr_append env event md sc)"
proof -
  let ?h = "snd (hv_step env md (sc_hv sc))"
  have h: "pn_hv p = sc_hv sc" by (rule refines_hv(2) [OF assms(1)])
  have r: "refines roots (max_output_lines env) (p\<lparr>pn_hv := ?h\<rparr>) (sc\<lparr>sc_hv := ?h\<rparr>)" by (rule refines_hv(1) [OF assms(1)])
  then have "refines roots (max_output_lines env) (flush_all env (p\<lparr>pn_hv := ?h\<rparr>)) (sc\<lparr>sc_hv := ?h\<rparr>)"
    using flush_all_refines [of roots "p\<lparr>pn_hv := ?h\<rparr>" env] flush_all_drains [of env "p\<lparr>pn_hv := ?h\<rparr>"] assms(3)
    by (simp add: refines_def timed_def)
  from record_skipped_refines [OF this flush_all_drains assms(2,3)] append_rendered_refines [OF r assms(2,3)]
  show ?thesis by (simp add: append_event_def scr_append_def skip_decision h Let_def case_prod_beta)
qed

text \<open>Lines of a chunk that are not skipped.\<close>

fun calm :: "out_env \<Rightarrow> jsval list \<Rightarrow> hv_state \<Rightarrow> bool" where
  "calm env [] h = True"
| "calm env (l # ls) h = (let (event, md) = normalizeAppendLinesEntry l; (skip, h) = hv_step env md h in
     line_fits event md \<and> \<not> skip \<and> calm env ls h)"

definition scr_chunk_entry :: "out_env \<Rightarrow> screen \<Rightarrow> jsval \<Rightarrow> screen" where
  "scr_chunk_entry env sc line = (let (event, md) = normalizeAppendLinesEntry line in scr_append env event md sc)"

lemma chunk_refines:
  assumes "panel_ok roots p" "calm env ls (pn_hv p)"
  shows "panel_ok roots (foldl (chunk_entry env) p ls)
    \<and> view (max_output_lines env) (foldl (chunk_entry env) p ls) = foldl (scr_chunk_entry env) (view (max_output_lines env) p) ls"
  using assms
proof (induction ls arbitrary: p)
  case (Cons l ls)
  obtain event md where l: "normalizeAppendLinesEntry l = (event, md)" by fastforce
  define h where "h = snd (hv_step env md (pn_hv p))"
  define p1 where "p1 = p\<lparr>pn_hv := h\<rparr>"
  obtain e q where n: "new_entry env event md p1 = (e, q)" by fastforce
  have c: "line_fits event md" "\<not> fst (hv_step env md (pn_hv p))" "calm env ls h"
    using Cons.prems(2) by (simp_all add: l h_def case_prod_beta Let_def)
  have p1: "panel_ok roots p1" "view (max_output_lines env) p1 = (view (max_output_lines env) p)\<lparr>sc_hv := h\<rparr>"
    using Cons.prems(1) by (simp_all add: p1_def panel_ok_def view_def lines_view_def log_view_def raw_lines_def)
  have step: "chunk_entry env p l = queue_entry e q"
    using c(2) n by (simp add: chunk_entry_def l skip_decision p1_def h_def)
  have "view (max_output_lines env) (queue_entry e q) = scr_chunk_entry env (view (max_output_lines env) p) l"
    unfolding queue_refines [OF p1(1) c(1) n] p1(2)
    using c(2) by (simp add: scr_chunk_entry_def l scr_append_def case_prod_beta h_def view_def)
  moreover have "pn_hv (queue_entry e q) = h" using new_entry_ok(5) [OF c(1) n] by (simp add: p1_def)
  ultimately show ?case
    using Cons.IH [OF queue_panel_ok [OF p1(1) c(1) n]] c(3) by (simp add: step)
qed simp

lemma queueChunk_refines:
  assumes "refines roots (max_output_lines env) p sc" "calm env ls (pn_hv p)"
  shows "refines roots (max_output_lines env) (queueChunk env ls p) (foldl (scr_chunk_entry env) sc ls)"
  using chunk_refines [of roots p env ls] assms
  by (simp add: refines_def queueChunk_def view_batch_flags) (simp add: timed_def schedulePendingOutputFlush_def set_batch_def)

section \<open>The theorems\<close>

fun scr_perform :: "screen \<Rightarrow> out_env \<times> out_action \<Rightarrow> screen" where
  "scr_perform sc (env, ALine text cls md) =
     (let (event, md) = normalizeLineEventInput text (if is_object text then JStr [] else cls) md in scr_append env event md sc)"
| "scr_perform sc (env, AChunk lines) = foldl (scr_chunk_entry env) sc lines"
| "scr_perform sc (env, ACoalesced n) =
     (case num_or_zero n of Fin r \<Rightarrow> if 0 < r then sc\<lparr>sc_hv := (sc_hv sc)\<lparr>coalescedLines := coalescedLines (sc_hv sc) + r\<rparr>\<rparr> else sc | _ \<Rightarrow> sc)"
| "scr_perform sc (env, AResume) =
     (let h = sc_hv sc in
      if resumeDisabled h \<or> \<not> sc_running sc then sc\<lparr>sc_hv := h\<lparr>hv_active := False, resumeDisabled := True\<rparr>\<rparr>
      else scr_notice env (resume_text env h) JNull (sc\<lparr>sc_hv := h\<lparr>hv_active := False, resumeRequested := True\<rparr>\<rparr>))"
| "scr_perform sc (env, ADisable) = sc\<lparr>sc_hv := (sc_hv sc)\<lparr>hv_active := False, resumeDisabled := True\<rparr>\<rparr>"
| "scr_perform sc (env, AReset) = sc\<lparr>sc_hv := fresh_hv\<rparr>"
| "scr_perform sc (env, AFinal) =
     (let h = sc_hv sc in
      if finalSummaryShown h \<or> skippedLines h = 0 \<and> coalescedLines h = 0 then sc
      else scr_notice env (hv_summary_text env h) JNull (sc\<lparr>sc_hv := h\<lparr>finalSummaryShown := True\<rparr>\<rparr>))"
| "scr_perform sc (env, ARun running start command index) = sc\<lparr>sc_runStart := start, sc_running := running\<rparr>"
| "scr_perform sc (env, act) = sc"

text \<open>Actions the immediate terminal knows: lines that fit, chunks of which no line is skipped, everything but
  discarding the batch and showing a summary.\<close>

fun expected :: "out_env \<Rightarrow> out_action \<Rightarrow> hv_state \<Rightarrow> bool" where
  "expected env (ALine text cls md) h =
     (let (event, md) = normalizeLineEventInput text (if is_object text then JStr [] else cls) md in line_fits event md)"
| "expected env (AChunk lines) h = calm env lines h"
| "expected env (ASummary outcome) h = False"
| "expected env ADiscard h = False"
| "expected env act h = True"

definition out_enabled :: "int \<Rightarrow> string list \<Rightarrow> out_env \<times> out_action \<Rightarrow> out_panel \<Rightarrow> bool" where
  "out_enabled m roots a p \<longleftrightarrow> max_output_lines (fst a) = m \<and> builtin_roots (fst a) = roots \<and> expected (fst a) (snd a) (pn_hv p)"

definition blank_screen :: screen where
  "blank_screen = \<lparr>sc_lines = [], sc_counter = 0, sc_log = [], sc_hv = fresh_hv, sc_runStart = 0, sc_running = False\<rparr>"

lemma refines_other:
  "refines roots m p sc \<Longrightarrow> refines roots m (p\<lparr>pn_running := ru, pn_runStart := st, pn_command := cmd, pn_runStartIndex := ix\<rparr>) (sc\<lparr>sc_runStart := st, sc_running := ru\<rparr>)"
  by (auto simp: refines_def panel_ok_def lines_ok_def timed_def nothing_pending_def view_def lines_view_def log_view_def raw_lines_def)

lemma refines_notice:
  assumes "refines roots (max_output_lines env) p sc" "builtin_roots env = roots"
  shows "refines roots (max_output_lines env) (append_notice env msg JNull (set_hv f p)) (scr_notice env msg JNull (sc\<lparr>sc_hv := f (sc_hv sc)\<rparr>))"
  by (rule append_notice_refines [OF refines_set_hv [OF assms(1)] assms(2)]) simp

lemma step_refines:
  assumes r: "refines roots m p sc" and e: "out_enabled m roots a p"
  shows "refines roots m (out_perform a p) (scr_perform sc a)"
proof -
  obtain env act where a: "a = (env, act)" by fastforce
  have env: "m = max_output_lines env" "builtin_roots env = roots" and x: "expected env act (pn_hv p)"
    using e by (auto simp: out_enabled_def a)
  have h: "pn_hv p = sc_hv sc" "pn_running p = sc_running sc" using r by (auto simp: refines_def view_def)
  note r = r [unfolded env(1)]
  show ?thesis
  proof (cases act)
    case (ALine line cls md)
    with x append_event_refines [OF r _ env(2)] show ?thesis by (simp add: a env(1) appendLine_def case_prod_beta)
  next
    case (AChunk lines)
    with x queueChunk_refines [OF r] show ?thesis by (simp add: a env(1))
  next
    case ATick
    have "panel_ok roots p" using r by (simp add: refines_def)
    with ATick flush_panel_ok [OF this env(2)] flush_refines [OF this, of env] flush_timed [of env p] r show ?thesis
      by (simp add: a env(1) refines_def)
  next
    case (ACoalesced n)
    show ?thesis
      using r refines_set_hv [OF r, of "\<lambda>h. h\<lparr>coalescedLines := coalescedLines h + q\<rparr>" for q]
      by (simp add: a env(1) ACoalesced recordLiveOutputCoalescedLines_def split: jnum.split)
  next
    case AResume
    show ?thesis
      using refines_notice [OF r env(2), of "resume_text env (sc_hv sc)" "\<lambda>h. h\<lparr>hv_active := False, resumeRequested := True\<rparr>"]
        refines_set_hv [OF r, of "\<lambda>h. h\<lparr>hv_active := False, resumeDisabled := True\<rparr>"]
      by (simp add: a env(1) AResume resumeHighVolumeLiveOutput_def disableHighVolumeOutputResumeControls_def h Let_def)
  next
    case AFinal
    show ?thesis
      using r refines_notice [OF r env(2), of "hv_summary_text env (sc_hv sc)" "\<lambda>h. h\<lparr>finalSummaryShown := True\<rparr>"]
      by (simp add: a env(1) AFinal appendHighVolumeOutputFinalSummary_def h Let_def)
  next
    case ADisable
    with refines_set_hv [OF r, of "\<lambda>h. h\<lparr>hv_active := False, resumeDisabled := True\<rparr>"] show ?thesis
      by (simp add: a env(1) disableHighVolumeOutputResumeControls_def)
  next
    case AReset
    with refines_hv(1) [OF r, of fresh_hv] show ?thesis by (simp add: a env(1) resetHighVolumeOutputState_def)
  next
    case (ARun running start command index)
    with refines_other [OF r] show ?thesis by (simp add: a env(1))
  qed (use x in simp_all)
qed

lemma blank_refines: "refines roots m fresh_panel blank_screen"
  by (simp add: refines_def panel_ok_def counted_def store_ok_def refs_of_def counts_ok_def raw_lines_def lines_ok_def timed_def nothing_pending_def
      view_def lines_view_def log_view_def fresh_panel_def blank_screen_def empty_batch_def)

lemma run_refines:
  "refines roots m p sc \<Longrightarrow> run_all (out_enabled m roots) out_perform acts p = Some q \<Longrightarrow> refines roots m q (foldl scr_perform sc acts)"
  by (induction acts arbitrary: p sc) (auto split: if_splits intro: step_refines)


definition sample_env :: out_env where
  "sample_env = \<lparr>max_output_lines = 4, hv_threshold_config = JInt 1, hv_interval_config = JInt 10, builtin_roots = [],
     prompt_prefix_text = ''$'', now_ms = 0, clock_text = (\<lambda>_. ''12:00:00''), locale_count = nat_str, ln_mode = ''off'',
     ts_mode = ''clock'', summaries_enabled = True, restore_running = False, tab_is_active = True\<rparr>"

definition sample_acts :: "(out_env \<times> out_action) list" where
  "sample_acts = map (Pair sample_env)
     [AChunk [JObj [(''text'', JStr ''a'')]], ALine (JStr ''10%'') (JStr ''progress'') JNull, ALine (JStr ''20%'') (JStr ''progress'') JNull,
      ATick, ALine (JStr ''b'') (JStr []) (JObj [(''live_output'', JBool True)])]"

lemma run_all_total: "(\<And>a p. a \<in> set acts \<Longrightarrow> ok a p) \<Longrightarrow> \<exists>q. run_all ok perform acts p = Some q"
  by (induction acts arbitrary: p) auto

lemma sample_runs: "\<exists>q. run_all (out_enabled 4 []) out_perform sample_acts fresh_panel = Some q"
proof (rule run_all_total)
  fix a p assume a: "a \<in> set sample_acts"
  have "\<forall>act \<in> set (map snd sample_acts). expected sample_env act h" for h
    unfolding sample_acts_def by (simp only: map_map o_def snd_conv list.map set_simps ball_simps) (intro conjI; code_simp)
  with a show "out_enabled 4 [] a p" by (auto simp: out_enabled_def sample_acts_def sample_env_def)
qed


text \<open>
  \<^bold>\<open>C34.\<close> The counts of findings, warnings, errors and summaries of a tab are exact after any actions: they are the
  numbers of lines of the transcript that count for each, though they are only ever adjusted, by the lines
  that are added and by those cut off at the maximum. The roots of the built-in commands do not change meanwhile.
\<close>

theorem signal_counts_exact:
  assumes "run_all (\<lambda>a p. builtin_roots (fst a) = roots) out_perform acts fresh_panel = Some p"
  shows "pn_counts p scope = length (filter (\<lambda>line. scope \<in> set (countableSignalScopes line roots)) (raw_lines p))"
proof -
  have "counted roots fresh_panel"
    using blank_refines [of roots 0] by (simp add: refines_def panel_ok_def)
  then have "counted roots p" by (rule signal_counts.run_holds [OF _ assms])
  then show ?thesis by (simp add: counted_def counts_ok_def count_of_def)
qed

theorem signal_counts_exact_witness:
  "case run_all (\<lambda>a p. builtin_roots (fst a) = []) out_perform sample_acts fresh_panel of None \<Rightarrow> False
   | Some p \<Rightarrow> pn_counts p ''errors'' = length (filter (\<lambda>line. ''errors'' \<in> set (countableSignalScopes line [])) (raw_lines p))"
proof -
  have "\<exists>q. run_all (\<lambda>a p. builtin_roots (fst a) = []) out_perform sample_acts fresh_panel = Some q"
    by (rule run_all_total) (auto simp: sample_acts_def sample_env_def)
  then obtain q where q: "run_all (\<lambda>a p. builtin_roots (fst a) = []) out_perform sample_acts fresh_panel = Some q" by blast
  from signal_counts_exact [OF q, of "''errors''"] show ?thesis by (simp add: q)
qed

definition rounds :: "out_panel \<Rightarrow> nat" where
  "rounds p = (max (length (pending_items (pn_batch p))) (length (pending_raw (pn_batch p))) + batch_size - 1) div batch_size"

lemma ceil_step: "0 < n \<Longrightarrow> (n + batch_size - 1) div batch_size = Suc ((n - batch_size + batch_size - 1) div batch_size)"
  by (cases "n \<le> batch_size") (auto simp: batch_size_def not_le less_iff_Suc_add)

text \<open>
  \<^bold>\<open>C27.\<close> Draining the pending batch before a line is skipped ends: from every panel the loop makes exactly as many
  flushes as the longer of the two queues has batches, whatever the lines do to the panel meanwhile, and
  leaves nothing pending.
\<close>

theorem drain_ends: "flush_all env p = (flushPendingOutputBatch env ^^ rounds p) p \<and> nothing_pending (flush_all env p)"
proof -
  have "flush_all env p = (flushPendingOutputBatch env ^^ rounds p) p"
  proof (induction env p rule: flush_all.induct)
    case (1 env p)
    show ?case
    proof (cases "nothing_pending p")
      case True
      then show ?thesis by (simp add: flush_all.simps [of env p] rounds_def nothing_pending_def batch_size_def)
    next
      case False
      have "max (a - k) (b - k) = max a b - k" for a b k :: nat by (simp add: max_def)
      with False have "rounds p = Suc (rounds (flushPendingOutputBatch env p))"
        using ceil_step [of "max (length (pending_items (pn_batch p))) (length (pending_raw (pn_batch p)))"]
        by (auto simp: rounds_def flush_batch nothing_pending_def less_max_iff_disj)
      with 1 False show ?thesis by (simp add: flush_all.simps [of env p] funpow_swap1)
    qed
  qed
  then show ?thesis using flush_all_drains by (rule conjI)
qed

section \<open>Where the code does not do what it means to\<close>

text \<open>In a chunk of \<open>appendLines\<close> a line that is skipped is recorded before the lines of the chunk that came before
  it, which are still pending.\<close>

lemma skipped_line_overtakes:
  fixes env :: out_env and event :: line_event and md :: jsobj
  assumes "pending_items (pn_batch p) \<noteq> []"
  defines "q \<equiv> record_skipped env event md p"
  shows "pn_raw q = last_n (max_output_lines env) (pn_raw p @ [pn_next p])"
    and "take (length (pending_raw (pn_batch p))) (pending_raw (pn_batch q)) = pending_raw (pn_batch p)"
proof -
  have fields: "pn_raw (assignRawOutputLineNumber r p) = pn_raw p" "pn_batch (assignRawOutputLineNumber r p) = pn_batch p" for r p
    by (simp_all add: assignRawOutputLineNumber_def set_counters_def Let_def)
  have batched: "should_batch p \<Longrightarrow> pn_raw (append_rendered env ev md p) = pn_raw p \<and>
      take (length (pending_raw (pn_batch p))) (pending_raw (pn_batch (append_rendered env ev md p))) = pending_raw (pn_batch p)" for ev md and p :: out_panel
    by (simp add: append_rendered_def new_entry_def new_raw_def Let_def schedulePendingOutputFlush_def queue_entry_def set_batch_def)
  have notice: "pn_raw (appendHighVolumeOutputNotice env b s) = pn_raw s \<and>
      take (length (pending_raw (pn_batch s))) (pending_raw (pn_batch (appendHighVolumeOutputNotice env b s))) = pending_raw (pn_batch s)"
    if "pending_items (pn_batch s) \<noteq> []" for b and s :: out_panel
  proof -
    have "should_batch (set_hv f s)" for f using that by (simp add: should_batch_def set_hv_def)
    from batched [OF this] show ?thesis
      by (auto simp: appendHighVolumeOutputNotice_def append_notice_def case_prod_beta Let_def set_hv_def)
  qed
  define t where "t = syncTabRawLines env (pn_next p) (assignRawOutputLineNumber (pn_next p) (snd (new_raw (rawOutputLine env (pn_runStart p) event md) p)))"
  have t: "pn_raw (set_hv f t) = last_n (max_output_lines env) (pn_raw p @ [pn_next p])" "pn_batch (set_hv f t) = pn_batch p" for f
    by (simp_all add: t_def fields sync_raw set_hv_def)
  show "pn_raw q = last_n (max_output_lines env) (pn_raw p @ [pn_next p])"
    "take (length (pending_raw (pn_batch p))) (pending_raw (pn_batch q)) = pending_raw (pn_batch p)"
    using notice [of "set_hv f t" for f] t assms(1) by (simp_all add: q_def record_skipped_def case_prod_beta Let_def t_def [symmetric])
qed

text \<open>A progress line that takes the place of the line before it outside a batch is left without its timestamp
  prefix: the prefix is written to the element that is not in the page.\<close>

lemma replaced_line_without_prefix:
  assumes "coalescible p e" "sp_prefix (en_span e) = None"
  shows "sp_prefix (last (pn_lines (render_entry env e p))) = None"
proof -
  obtain e' q where n: "number_entry True e p = (e', q)" by fastforce
  have "sp_prefix (en_span (fst (number_entry True e p))) = sp_prefix (en_span e)"
    by (simp add: number_entry_def assignOutputLineNumber_def Let_def case_prod_beta)
  with n assms(2) have p: "sp_prefix (en_span e') = None" by simp
  have "pn_lines q = pn_lines p" "en_role e' = en_role e"
    using number_run_fields [of True e p] entry_role_kept [of True e p] by (simp_all add: n)
  with assms(1) have "coalescible (set_batch f q) e'" for f by (simp add: coalescible_def set_batch_def)
  with p show ?thesis by (simp add: render_entry_def n Let_def replace_last_line_def)
qed

text \<open>When the roots of the built-in commands are loaded after a line was counted, cutting the line off does not
  take its count back.\<close>

lemma counts_drift:
  assumes "counts_ok earlier p" "pn_raw p = [r]" "scope \<in> set (countableSignalScopes (pn_objs p r) earlier)"
    and "max_output_lines env = 1" "countableSignalScopes (pn_objs p r) (builtin_roots env) = []"
    and "countableSignalScopes (pn_objs p r') (builtin_roots env) = []"
  shows "pn_counts (syncTabRawLines env r' p) scope = 1 \<and> count_of (builtin_roots env) (raw_lines (syncTabRawLines env r' p)) scope = 0"
proof -
  have "pn_counts p scope = 1" using assms(1-3) by (simp add: counts_ok_def raw_lines_def)
  then show ?thesis
    using assms(2,4-6)
    by (simp add: raw_lines_def sync_raw last_n_def) (simp add: syncTabRawLines_def Let_def adjust_counts_def split: option.split)
qed

end
