(* ===== verification/Run_Control.thy ===== *)
theory Run_Control
  imports Tabs_Props Run_Output_Model Run_Stream Command_Dispatch Command_Lifecycle
begin

text \<open>
  Running commands in tabs, \<open>app/static/js/runner.js\<close>: starting a run, the messages of its stream, its
  end, killing it, noticing that its stream has gone quiet or broken and reattaching to it, after a
  broken stream, after a reload of the page or from the status monitor; and the runs the user has
  detached (\<open>features/runner/runner_active_restore.js\<close>).

  The tabs are those of \<open>Tabs\<close>, the end of a run goes through the coordinator of \<open>Command_Lifecycle\<close>. What
  the handlers ask of other components (the output panel, the run button, the pill, the run timer, the
  streams of \<open>Run_Stream\<close>, history, projects, notifications) is recorded in order as a list of calls.
  Requests to the server are recorded and answered later, so that anything can happen in between.
  The client's error log, the mobile run button and interactive terminals are left out (attaching one is a
  call).
\<close>

section \<open>State\<close>

datatype run_call =
    AppendLine jsval string string jsval
  | AppendLines "jsval list" string
  | ClearOutput string
  | DiscardBatch string
  | ResetHighVolume string
  | CoalescedLines string jnum
  | FinalSummary string
  | OutcomeSummary string
  | DisableResume string
  | MountPrompt string
  | Pill string
  | LastExit jsval
  | StartTimer jsval
  | StopTimer
  | RunButton bool
  | KillButton string bool
  | Subscribe jsval string string string
  | DetachStream string
  | AttachPty jsval string
  | RestoreRun jsval string
  | RequestRun string string
  | AddRecent string
  | ProjectChanged string jsval
  | ProjectEvent string jsval
  | RefreshProject string
  | LoadVariables
  | RefreshWorkspace
  | RefreshHistory
  | Notify string string
  | Toast string

text \<open>The fields of a tab that only the runner uses; they are falsy in a tab that never ran anything.\<close>

record tab_run =
  tr_unknownCommand :: bool
  tr_syntheticClear :: bool
  tr_streamRecoveryAttempts :: nat
  tr_streamRecoveryNoticeRunId :: string
  tr_scheduledRun :: bool
  tr_scheduleId :: string

definition no_run :: tab_run where
  "no_run = \<lparr>tr_unknownCommand = False, tr_syntheticClear = False, tr_streamRecoveryAttempts = 0,
     tr_streamRecoveryNoticeRunId = [], tr_scheduledRun = False, tr_scheduleId = []\<rparr>"

text \<open>A recovery that waits for its timer: the run, where to go on, the mode and the delay.\<close>

record recovery =
  rc_run :: jsval
  rc_after :: jsval
  rc_mode :: string
  rc_delay :: nat

text \<open>A kill request: the run, the tab, the seconds since the start, and whether the transcript stays silent.
  A request that was sent when the identifier of a run arrived only looks at a failure of the network.\<close>

datatype kill_request = KillRequest jsval string "rat option" bool | LateKill jsval string

record control =
  page :: tabs_page
  runs :: "string \<Rightarrow> tab_run"
  stalledTimeouts :: "string list"
  stallChecks :: "(string \<times> jsval) list"
  stalledRuns :: "string list"
  endChecks :: "(string \<times> jsval) list"
  streamRecoveryTimers :: "(string \<times> recovery) list"
  killRequests :: "kill_request list"
  killsRequested :: "(string \<times> string) list"
  startRequests :: "string list"
  polling :: bool
  polls :: "(string \<times> jsval) list list"
  resultChecks :: "string list"
  completedKeys :: "string list"
  settling :: "(command_result \<times> bool) list"
  detachedStore :: "string option"
  calls :: "run_call list"

text \<open>What the handlers read from outside: the environment of the page, the clock, the time since the start of
  the timer, the identifier of the client, the configuration, preferences and open panels, whether the tab has a stream, the
  lengths of the transcripts as the handler reads them, and how the browser reads and prints dates.\<close>

record run_env =
  re_page :: page_env
  re_now :: int
  re_elapsed :: "rat option"
  re_clientId :: string
  re_maxTabs :: nat
  re_maxOutputLines :: jsval
  re_highVolumeThreshold :: jsval
  re_notify :: bool
  re_historyOpen :: bool
  re_ptyReady :: bool
  re_hasStream :: bool
  re_transcriptLength :: "string \<Rightarrow> nat"
  re_parseDate :: "jsval \<Rightarrow> int option"
  re_localeDate :: "jsval \<Rightarrow> string"

definition tell :: "run_call list \<Rightarrow> control \<Rightarrow> control" where
  "tell cs c = c\<lparr>calls := calls c @ cs\<rparr>"

definition say :: "string \<Rightarrow> string \<Rightarrow> string \<Rightarrow> control \<Rightarrow> control" where
  "say line cls i c = tell [AppendLine (JStr line) cls i JUndef] c"

definition on_page :: "(tabs_page \<Rightarrow> tabs_page) \<Rightarrow> control \<Rightarrow> control" where
  "on_page f c = c\<lparr>page := f (page c)\<rparr>"

definition tab_of :: "string \<Rightarrow> control \<Rightarrow> tab option" where
  "tab_of i c = getTab i (page c)"

definition put_tab :: "string \<Rightarrow> (tab \<Rightarrow> tab) \<Rightarrow> control \<Rightarrow> control" where
  "put_tab i f c = on_page (upd i f) c"

definition set_run :: "string \<Rightarrow> (tab_run \<Rightarrow> tab_run) \<Rightarrow> control \<Rightarrow> control" where
  "set_run i f c = c\<lparr>runs := (runs c)(i := f (runs c i))\<rparr>"

definition is_active :: "string \<Rightarrow> control \<Rightarrow> bool" where
  "is_active i c \<longleftrightarrow> activeTabId (page c) = Some i"

definition set_status :: "string \<Rightarrow> string \<Rightarrow> control \<Rightarrow> control" where
  "set_status i st c = on_page (setTabStatus i st) c"

text \<open>The kill requests that were sent, with the tab they were sent from, are \<open>killsRequested\<close>; those that wait for
  their answer are \<open>killRequests\<close>. The em dash of some messages, as its bytes.\<close>

definition em_dash :: string where
  "em_dash = [CHR 0xE2, CHR 0x80, CHR 0x94]"

section \<open>Status, timer and notifications\<close>

definition pill_calls :: "string \<Rightarrow> run_call list" where
  "pill_calls s = Pill s #
     (if s = ''ok'' then [LastExit (JInt 0)] else if s = ''fail'' then [LastExit (JInt 1)]
      else if s = ''killed'' then [LastExit (JStr ''killed'')] else [])"

definition show_status :: "string \<Rightarrow> control \<Rightarrow> control" where
  "show_status s c = tell (pill_calls s) c"

definition status_if_active :: "string \<Rightarrow> string \<Rightarrow> control \<Rightarrow> control" where
  "status_if_active i s c = (if is_active i c then show_status s c else c)"

definition syncActiveRunTimer :: "string \<Rightarrow> control \<Rightarrow> control" where
  "syncActiveRunTimer i c = (case tab_of i c of
       None \<Rightarrow> tell [StopTimer] c
     | Some t \<Rightarrow> if \<not> running t \<or> \<not> truthy (tab_runStart t) then tell [StopTimer] c
         else tell [StartTimer (tab_runStart t)] c)"

definition maybeNotify :: "run_env \<Rightarrow> string \<Rightarrow> string \<Rightarrow> string \<Rightarrow> control \<Rightarrow> control" where
  "maybeNotify env command code elapsed c =
     (if \<not> re_notify env then c
      else let command_root = takeWhile (\<lambda>ch. \<not> is_ws ch) command;
               title = (if command_root \<noteq> [] then ''$ '' @ command_root else ''$'');
               body = (if code = ''killed'' then (if elapsed \<noteq> [] then ''killed after '' @ elapsed else ''killed'')
                       else ''exit '' @ code @ (if elapsed \<noteq> [] then '' in '' @ elapsed else []))
           in tell [Notify title body] c)"

text \<open>The steps a failed run ends with in many places.\<close>

definition settle_controls :: "string \<Rightarrow> control \<Rightarrow> control" where
  "settle_controls i c = tell [StopTimer, RunButton False, KillButton i False] c"

definition fail_run :: "jsval \<Rightarrow> string \<Rightarrow> string \<Rightarrow> control \<Rightarrow> control" where
  "fail_run line cls i c = settle_controls i (set_status i ''fail'' (status_if_active i ''fail'' (tell [AppendLine line cls i JUndef] c)))"


section \<open>Detached runs\<close>

text \<open>The browser storage under the key of the session holds an object whose keys are the detached runs.\<close>

definition readDetachedActiveRunIds :: "control \<Rightarrow> jsobj" where
  "readDetachedActiveRunIds c =
     (case json_parse (case detachedStore c of Some v \<Rightarrow> str_default v ''{}'' | None \<Rightarrow> ''{}'') of
        Some (JObj ob) \<Rightarrow> ob
      | _ \<Rightarrow> [])"

definition writeDetachedActiveRunIds :: "jsobj \<Rightarrow> control \<Rightarrow> control" where
  "writeDetachedActiveRunIds ids c =
     (let entries = filter (\<lambda>(runId, v). trim runId \<noteq> []) ids in
      c\<lparr>detachedStore := (if entries = [] then None else Some (json_stringify (JObj entries)))\<rparr>)"

definition markActiveRunDetachedForRestore :: "int \<Rightarrow> jsval \<Rightarrow> control \<Rightarrow> control" where
  "markActiveRunDetachedForRestore now runId c =
     (let normalized = trim (str_or runId []) in
      if normalized = [] then c
      else writeDetachedActiveRunIds (obj_set (readDetachedActiveRunIds c) normalized (JInt now)) c)"

definition clearActiveRunDetachedForRestore :: "jsval \<Rightarrow> control \<Rightarrow> control" where
  "clearActiveRunDetachedForRestore runId c =
     (let normalized = trim (str_or runId []); ids = readDetachedActiveRunIds c in
      if normalized = [] \<or> \<not> obj_has ids normalized then c
      else writeDetachedActiveRunIds (obj_delete ids normalized) c)"

definition isActiveRunDetachedForRestore :: "jsval \<Rightarrow> control \<Rightarrow> bool" where
  "isActiveRunDetachedForRestore runId c \<longleftrightarrow>
     (let normalized = trim (str_or runId []) in normalized \<noteq> [] \<and> obj_has (readDetachedActiveRunIds c) normalized)"

definition pruneDetachedActiveRunRestoreIds :: "jsval list \<Rightarrow> control \<Rightarrow> control" where
  "pruneDetachedActiveRunRestoreIds activeIds c =
     (let ids = readDetachedActiveRunIds c; kept = filter (\<lambda>(runId, v). JStr runId \<in> set activeIds) ids in
      if kept = ids then c else writeDetachedActiveRunIds kept c)"

section \<open>Quiet and broken streams\<close>

definition tabRunGeneration :: "string \<Rightarrow> control \<Rightarrow> jsval" where
  "tabRunGeneration i c = (case tab_of i c of
       None \<Rightarrow> JStr []
     | Some t \<Rightarrow> js_or (js_or (tab_runId t) (tab_historyRunId t)) (JStr []))"

definition resetStalledTimeout :: "string \<Rightarrow> control \<Rightarrow> control" where
  "resetStalledTimeout i c = c\<lparr>stalledTimeouts := i # filter (\<lambda>j. j \<noteq> i) (stalledTimeouts c)\<rparr>"

definition clearStalledTimeout :: "string \<Rightarrow> control \<Rightarrow> control" where
  "clearStalledTimeout i c = c\<lparr>stalledTimeouts := filter (\<lambda>j. j \<noteq> i) (stalledTimeouts c),
     stalledRuns := filter (\<lambda>j. j \<noteq> i) (stalledRuns c)\<rparr>"

definition clearStreamRecoveryTimer :: "string \<Rightarrow> control \<Rightarrow> control" where
  "clearStreamRecoveryTimer i c = c\<lparr>streamRecoveryTimers := filter (\<lambda>(j, r). j \<noteq> i) (streamRecoveryTimers c)\<rparr>"

definition add_stalled :: "string \<Rightarrow> control \<Rightarrow> control" where
  "add_stalled i c = (if i \<in> set (stalledRuns c) then c else c\<lparr>stalledRuns := stalledRuns c @ [i]\<rparr>)"

text \<open>\<open>setStatus('running')\<close> and the timer if the tab is the active one, the status of the tab, and the buttons.\<close>

definition running_if_active :: "string \<Rightarrow> control \<Rightarrow> control" where
  "running_if_active i c = (if is_active i c then syncActiveRunTimer i (show_status ''running'' c) else c)"

text \<open>A chunk arrives after the stream was quiet.\<close>

definition recoverStalledRun :: "string \<Rightarrow> control \<Rightarrow> control" where
  "recoverStalledRun i c =
     (if i \<notin> set (stalledRuns c) then c
      else let c = say (''[connection re-established '' @ em_dash @ '' live output resumed]'') ''exit-ok'' i
                     (c\<lparr>stalledRuns := filter (\<lambda>j. j \<noteq> i) (stalledRuns c)\<rparr>)
           in case tab_of i c of
                None \<Rightarrow> c
              | Some t \<Rightarrow> if tab_killed t then c
                  else tell [RunButton True, KillButton i True] (set_status i ''running'' (running_if_active i c)))"

text \<open>The answer to a request for the active runs, \<^const>\<open>JNull\<close> if it failed: the run looked for.\<close>

definition fetchActiveRun :: "jsval \<Rightarrow> jsval \<Rightarrow> jsval option" where
  "fetchActiveRun runId data =
     (if \<not> truthy runId then None
      else find (\<lambda>run. str_or (jprop run ''run_id'') [] = str_or runId []) (arr_items (jprop data ''runs'')))"

definition quiet_notices :: "string \<Rightarrow> run_call list" where
  "quiet_notices i =
     [AppendLine (JStr (''[stream quiet '' @ em_dash @ '' no output or heartbeat reached the browser for 45s]'')) ''notice'' i JUndef,
      AppendLine (JStr ''[process is still running; Kill remains available and live output will continue here if the stream resumes]'')
        ''notice'' i JUndef]"

definition markStalledButRunning :: "string \<Rightarrow> control \<Rightarrow> control" where
  "markStalledButRunning i c =
     (let firstNotice = (i \<notin> set (stalledRuns c));
          c = add_stalled i c;
          c = (if firstNotice then tell (quiet_notices i) c else c);
          c = tell [RunButton True] (set_status i ''running'' (running_if_active i c))
      in if tab_of i c \<noteq> None then tell [KillButton i True] c else c)"

definition markStalledAndInactive :: "string \<Rightarrow> control \<Rightarrow> control" where
  "markStalledAndInactive i c =
     (let firstNotice = (i \<notin> set (stalledRuns c));
          c = add_stalled i c;
          c = (if firstNotice
               then say (''[connection stalled '' @ em_dash @ '' no stream activity arrived from the server for 45s]'') ''denied'' i c else c);
          c = say ''[process is no longer listed as active; check the history panel for the final result]'' ''denied'' i c
      in settle_controls i (set_status i ''fail'' (status_if_active i ''fail'' c)))"

text \<open>The timer of 45 seconds fires, and the answer to the request it makes.\<close>

definition stalledTimeoutFires :: "string \<Rightarrow> control \<Rightarrow> control" where
  "stalledTimeoutFires i c =
     (let c = c\<lparr>stalledTimeouts := filter (\<lambda>j. j \<noteq> i) (stalledTimeouts c)\<rparr>; runGeneration = tabRunGeneration i c in
      case tab_of i c of
        None \<Rightarrow> c
      | Some t \<Rightarrow> if tab_killed t \<or> \<not> truthy runGeneration then c
          else c\<lparr>stallChecks := stallChecks c @ [(i, runGeneration)]\<rparr>)"

definition stallCheckAnswered :: "string \<Rightarrow> jsval \<Rightarrow> jsval \<Rightarrow> control \<Rightarrow> control" where
  "stallCheckAnswered i runGeneration data c =
     (let c = c\<lparr>stallChecks := remove1 (i, runGeneration) (stallChecks c)\<rparr> in
      case tab_of i c of
        None \<Rightarrow> c
      | Some latest \<Rightarrow>
          if tab_killed latest \<or> tabRunGeneration i c \<noteq> runGeneration then c
          else if fetchActiveRun runGeneration data \<noteq> None then resetStalledTimeout i (markStalledButRunning i c)
          else markStalledAndInactive i c)"

section \<open>Reattaching to a run\<close>

definition activeReconnectTabs :: "control \<Rightarrow> tab list" where
  "activeReconnectTabs c =
     filter (\<lambda>t. running t \<and> tab_reconnectedRun t \<and> truthy (tab_historyRunId t)) (tabs (page c))"

definition startPollingActiveRunsAfterReload :: "control \<Rightarrow> control" where
  "startPollingActiveRunsAfterReload c = (if polling c \<or> activeReconnectTabs c = [] then c else c\<lparr>polling := True\<rparr>)"

definition stopPollingActiveRunsAfterReload :: "control \<Rightarrow> control" where
  "stopPollingActiveRunsAfterReload c = c\<lparr>polling := False\<rparr>"

definition activeRunIsInteractivePty :: "jsval \<Rightarrow> bool" where
  "activeRunIsInteractivePty run \<longleftrightarrow>
     is_object run \<and> (jprop run ''run_type'' = JStr ''pty'' \<or> jprop run ''interactive'' = JBool True)"

definition startedAtLabel :: "run_env \<Rightarrow> jsval \<Rightarrow> string" where
  "startedAtLabel env started =
     (if re_parseDate env started = None then ''unknown start time'' else re_localeDate env started)"

definition activeRunReattachNotice :: "run_env \<Rightarrow> jsval \<Rightarrow> bool \<Rightarrow> string list" where
  "activeRunReattachNotice env run afterStreamRecovery =
     [if afterStreamRecovery then ''[reattached to active run after stream recovery]'' else ''[reattached to active run after reload]'',
      ''[active run started at '' @ startedAtLabel env (jprop run ''started'') @ '']'',
      ''[live output will continue here]'']"

definition run_start_of :: "run_env \<Rightarrow> jsval \<Rightarrow> jsval" where
  "run_start_of env run = JInt (case re_parseDate env (jprop run ''started'') of Some ms \<Rightarrow> ms | None \<Rightarrow> re_now env)"

definition clear_tab :: "run_env \<Rightarrow> string \<Rightarrow> control \<Rightarrow> control" where
  "clear_tab env i c =
     (let c = tell [ClearOutput i] (on_page (clearTab (re_page env) False i) c) in
      if is_active i c then show_status ''idle'' c else c)"

definition subscribe_stream :: "jsval \<Rightarrow> string \<Rightarrow> string \<Rightarrow> string \<Rightarrow> control \<Rightarrow> control" where
  "subscribe_stream runId i url aft c = (if truthy runId \<and> i \<noteq> [] then tell [Subscribe runId i url aft] c else c)"

definition set_running_command :: "string \<Rightarrow> jsval \<Rightarrow> control \<Rightarrow> control" where
  "set_running_command i command c = on_page (setTabRunningCommand i (str_or command [])) c"

text \<open>The fields of the tab: common to reattaching and attaching.\<close>

definition attach_fields :: "run_env \<Rightarrow> jsval \<Rightarrow> jsval \<Rightarrow> string \<Rightarrow> tab \<Rightarrow> tab" where
  "attach_fields env run runId amode t =
     t\<lparr>tab_runId := runId, tab_historyRunId := runId, tab_historyRunKind := ''external'', tab_reconnectedRun := True,
       tab_attachMode := amode, tab_killed := False, tab_pendingKill := False, tab_previewTruncated := False,
       tab_fullOutputAvailable := False, tab_fullOutputLoaded := False, tab_runStart := run_start_of env run,
       tab_followOutput := True\<rparr>"

definition schedule_fields :: "jsval \<Rightarrow> tab_run \<Rightarrow> tab_run" where
  "schedule_fields run x =
     x\<lparr>tr_scheduledRun := truthy (jprop run ''scheduled''), tr_scheduleId := str_or (jprop run ''schedule_id'') []\<rparr>"

definition kept_start_index :: "nat \<Rightarrow> jsval \<Rightarrow> jsval" where
  "kept_start_index n v = (if is_finite_num (to_num v) then JNum (to_num v) else JInt (int n))"

text \<open>The end of both: the tab runs, its timer and its buttons.\<close>

definition show_running :: "string \<Rightarrow> control \<Rightarrow> control" where
  "show_running i c = tell [KillButton i True, RunButton True] (running_if_active i (set_status i ''running'' c))"

definition resume_after :: "jsval \<Rightarrow> tab \<Rightarrow> jsval \<Rightarrow> string" where
  "resume_after aft t run = to_str (js_or aft (js_or (JStr (tab_lastEventId t)) (js_or (jprop run ''last_event_id'') (JStr []))))"

definition reattach_notices :: "run_env \<Rightarrow> jsval \<Rightarrow> string \<Rightarrow> bool \<Rightarrow> control \<Rightarrow> control" where
  "reattach_notices env run i afterStreamRecovery c =
     (let runId = str_or (jprop run ''run_id'') [];
          shown = (afterStreamRecovery \<and> tr_streamRecoveryNoticeRunId (runs c i) = runId);
          c = (if shown then c
               else tell (map (\<lambda>line. AppendLine (JStr line) ''notice'' i JUndef) (activeRunReattachNotice env run afterStreamRecovery)) c)
      in if afterStreamRecovery then set_run i (\<lambda>x. x\<lparr>tr_streamRecoveryNoticeRunId := runId\<rparr>) c else c)"

definition reattachActiveRunToTab ::
  "run_env \<Rightarrow> jsval \<Rightarrow> string \<Rightarrow> jsval \<Rightarrow> bool \<Rightarrow> string \<Rightarrow> bool \<Rightarrow> control \<Rightarrow> control" where
  "reattachActiveRunToTab env run i aft afterStreamRecovery amode preserveTranscript c =
     (if \<not> truthy run \<or> i = [] then c
      else let c = (if preserveTranscript then c else clear_tab env i c) in
        case tab_of i c of
          None \<Rightarrow> c
        | Some t \<Rightarrow>
            let runId = str_or (jprop run ''run_id'') [];
                lines = (if preserveTranscript then re_transcriptLength env i else 0);
                resumeAfter = resume_after aft t run;
                c = set_running_command i (jprop run ''command'') c;
                c = put_tab i (attach_fields env run (JStr runId) amode) c;
                c = put_tab i (\<lambda>t. t\<lparr>tab_currentRunStartIndex := kept_start_index lines (tab_currentRunStartIndex t)\<rparr>) c;
                c = set_run i (schedule_fields run) c;
                c = (if resumeAfter = [] then put_tab i (\<lambda>t. t\<lparr>tab_lastEventId := []\<rparr>) c else c);
                c = (if lines = 0 then tell [AppendLine (jprop run ''command'') ''prompt-echo'' i JUndef] c else c);
                c = show_running i (reattach_notices env run i afterStreamRecovery c)
            in startPollingActiveRunsAfterReload (subscribe_stream (JStr runId) i [] resumeAfter c))"

text \<open>The recovery of a broken stream: the first attempt at once, the next ones after a growing delay.\<close>

definition recover_stream :: "run_env \<Rightarrow> jsval \<Rightarrow> string \<Rightarrow> jsval \<Rightarrow> string \<Rightarrow> control \<Rightarrow> control" where
  "recover_stream env run i aft amode c =
     (let c = clearStreamRecoveryTimer i c in
      case tab_of i c of
        None \<Rightarrow> c
      | Some latest \<Rightarrow>
          if tab_killed latest \<or> tabRunGeneration i c \<noteq> JStr (str_or (jprop run ''run_id'') []) then c
          else reattachActiveRunToTab env run i
            (js_or (JStr (tab_lastEventId latest)) (js_or aft (js_or (jprop run ''last_event_id'') (JStr [])))) True amode True c)"

definition recovery_delay :: "nat \<Rightarrow> nat" where
  "recovery_delay attempts = min (1000 * 2 ^ (attempts - 2)) 5000"

definition scheduleActiveRunStreamRecovery :: "run_env \<Rightarrow> jsval \<Rightarrow> string \<Rightarrow> jsval \<Rightarrow> string \<Rightarrow> control \<Rightarrow> control" where
  "scheduleActiveRunStreamRecovery env run i aft amode c =
     (if tab_of i c = None \<or> \<not> truthy run \<or> \<not> truthy (jprop run ''run_id'') then c
      else if i \<in> fst ` set (streamRecoveryTimers c) then c
      else let attempts = tr_streamRecoveryAttempts (runs c i) + 1;
               c = set_run i (\<lambda>x. x\<lparr>tr_streamRecoveryAttempts := attempts\<rparr>) c
           in if attempts \<le> 1 then recover_stream env run i aft amode c
              else c\<lparr>streamRecoveryTimers := streamRecoveryTimers c
                @ [(i, \<lparr>rc_run = run, rc_after = aft, rc_mode = amode, rc_delay = recovery_delay attempts\<rparr>)]\<rparr>)"

definition recoveryTimerFires :: "run_env \<Rightarrow> string \<Rightarrow> control \<Rightarrow> control" where
  "recoveryTimerFires env i c = (case map_of (streamRecoveryTimers c) i of
       None \<Rightarrow> c
     | Some r \<Rightarrow> recover_stream env (rc_run r) i (rc_after r) (rc_mode r) c)"

text \<open>The stream has ended without an exit message: the request for the active runs, and its answer.\<close>

definition handleStreamEndedWithoutExit :: "string \<Rightarrow> control \<Rightarrow> control" where
  "handleStreamEndedWithoutExit i c =
     (let c = clearStalledTimeout i c in c\<lparr>endChecks := endChecks c @ [(i, tabRunGeneration i c)]\<rparr>)"

definition endCheckAnswered :: "run_env \<Rightarrow> string \<Rightarrow> jsval \<Rightarrow> jsval \<Rightarrow> control \<Rightarrow> control" where
  "endCheckAnswered env i runId data c =
     (let c = c\<lparr>endChecks := remove1 (i, runId) (endChecks c)\<rparr> in
      case tab_of i c of
        None \<Rightarrow> c
      | Some t \<Rightarrow>
          if tab_killed t then c
          else case fetchActiveRun runId data of
            Some activeRun \<Rightarrow>
              if activeRunIsInteractivePty activeRun then (if re_ptyReady env then tell [AttachPty activeRun i] c else c)
              else scheduleActiveRunStreamRecovery env activeRun i
                (js_or (JStr (tab_lastEventId t)) (js_or (jprop activeRun ''last_event_id'') (JStr [])))
                (str_default (tab_attachMode t) ''reconnected'') c
          | None \<Rightarrow> settle_controls i (set_run i (\<lambda>x. x\<lparr>tr_streamRecoveryAttempts := 0\<rparr>) (clearStreamRecoveryTimer i c)))"

definition ptyAttachFailed :: "string \<Rightarrow> string \<Rightarrow> control \<Rightarrow> control" where
  "ptyAttachFailed message i c =
     set_status i ''fail'' (say (''[server error] '' @ str_default message ''Interactive PTY reattach failed'') ''exit-fail'' i c)"


section \<open>Active runs after a reload and in the status monitor\<close>

definition shouldAutoRestoreActiveRun :: "run_env \<Rightarrow> control \<Rightarrow> jsval \<Rightarrow> bool" where
  "shouldAutoRestoreActiveRun env c run \<longleftrightarrow>
     is_object run \<and> \<not> truthy (jprop run ''scheduled'') \<and> \<not> isActiveRunDetachedForRestore (jprop run ''run_id'') c
     \<and> \<not> (activeRunIsInteractivePty run \<and> \<not> re_ptyReady env)
     \<and> (truthy (jprop run ''owned_by_this_client'') \<or> truthy (jprop run ''owner_stale'') \<or> \<not> truthy (jprop run ''has_live_owner''))"

definition tabForActiveRunId :: "string \<Rightarrow> control \<Rightarrow> tab option" where
  "tabForActiveRunId runId c =
     (if runId = [] then None
      else find (\<lambda>t. tab_runId t = JStr runId \<or> tab_historyRunId t = JStr runId) (tabs (page c)))"

definition activeRunTabForRestore :: "jsval \<Rightarrow> control \<Rightarrow> tab option" where
  "activeRunTabForRestore run c =
     (let runId = str_or (jprop run ''run_id'') []; ownerTabId = str_or (jprop run ''owner_tab_id'') [] in
      if runId = [] then None
      else case tabForActiveRunId runId c of
        Some t \<Rightarrow> Some t
      | None \<Rightarrow> if truthy (jprop run ''owned_by_this_client'') \<and> ownerTabId \<noteq> [] then tab_of ownerTabId c else None)"

definition canReuseBootstrapTab :: "run_env \<Rightarrow> tab \<Rightarrow> bool" where
  "canReuseBootstrapTab env t \<longleftrightarrow> tab_st t = ''idle'' \<and> \<not> tab_renamed t \<and> tab_command t = []
     \<and> \<not> truthy (tab_historyRunId t) \<and> tab_draftInput t = [] \<and> re_transcriptLength env (tab_id t) = 0"

text \<open>The tab for a run that has none: the empty first tab for the first run, or a new one.\<close>

definition tab_for_restore :: "run_env \<Rightarrow> nat \<Rightarrow> control \<Rightarrow> control \<times> string option" where
  "tab_for_restore env index c =
     (case (index, tabs (page c)) of
        (0, [t]) \<Rightarrow> if canReuseBootstrapTab env t then (c, Some (tab_id t))
          else (case createTab (re_page env) (re_maxTabs env) [] (page c) of (p, i) \<Rightarrow> (c\<lparr>page := p\<rparr>, i))
      | _ \<Rightarrow> (case createTab (re_page env) (re_maxTabs env) [] (page c) of (p, i) \<Rightarrow> (c\<lparr>page := p\<rparr>, i)))"

definition attach_or_pty :: "run_env \<Rightarrow> jsval \<Rightarrow> string \<Rightarrow> jsval \<Rightarrow> string \<Rightarrow> bool \<Rightarrow> control \<Rightarrow> control" where
  "attach_or_pty env run i aft amode preserveTranscript c =
     (if activeRunIsInteractivePty run \<and> re_ptyReady env then tell [AttachPty run i] c
      else reattachActiveRunToTab env run i aft False amode preserveTranscript c)"

definition restore_run :: "run_env \<Rightarrow> nat \<times> jsval \<Rightarrow> control \<times> string option \<Rightarrow> control \<times> string option" where
  "restore_run env item s = (case (item, s) of ((index, run), (c, first)) \<Rightarrow>
     (case activeRunTabForRestore run c of
        Some t \<Rightarrow>
          (attach_or_pty env run (tab_id t)
             (js_or (JStr (tab_lastEventId t)) (js_or (jprop run ''last_event_id'') (JStr [])))
             (str_default (tab_attachMode t) ''reconnected'') True c,
           if first = None then Some (tab_id t) else first)
      | None \<Rightarrow> (case tab_for_restore env index c of
            (c, None) \<Rightarrow> (c, first)
          | (c, Some i) \<Rightarrow>
              (attach_or_pty env run i (js_or (jprop run ''last_event_id'') (JStr [])) ''reconnected'' False c,
               if first = None then Some i else first))))"

definition restoreActiveRunsAfterReload :: "run_env \<Rightarrow> jsval \<Rightarrow> control \<Rightarrow> control" where
  "restoreActiveRunsAfterReload env rs c =
     (let c = pruneDetachedActiveRunRestoreIds (filter truthy (map (\<lambda>run. jprop run ''run_id'') (arr_items rs))) c;
          items = filter (shouldAutoRestoreActiveRun env c) (arr_items rs)
      in if items = [] then stopPollingActiveRunsAfterReload c
         else case fold (restore_run env) (enumerate 0 items) (c, None) of
             (c, None) \<Rightarrow> stopPollingActiveRunsAfterReload c
           | (c, Some i) \<Rightarrow>
               let c = on_page (activateTab (re_page env) i) c in
               case activeTabId (page c) of None \<Rightarrow> tell [StopTimer] c | Some j \<Rightarrow> syncActiveRunTimer j c)"

definition attachActiveRunToTab :: "run_env \<Rightarrow> jsval \<Rightarrow> string \<Rightarrow> string \<Rightarrow> control \<Rightarrow> control" where
  "attachActiveRunToTab env run i amode c =
     (if \<not> truthy run \<or> i = [] then c
      else let c = clear_tab env i (clearActiveRunDetachedForRestore (jprop run ''run_id'') c) in
        if tab_of i c = None then c
        else let c = set_running_command i (jprop run ''command'') c;
                 c = put_tab i (attach_fields env run (jprop run ''run_id'') amode) c;
                 c = put_tab i (\<lambda>t. t\<lparr>tab_lastEventId := [], tab_currentRunStartIndex := JInt 0\<rparr>) c;
                 c = set_run i (schedule_fields run) c;
                 c = tell [AppendLine (jprop run ''command'') ''prompt-echo'' i JUndef] c;
                 c = say (''[attached to active run started at '' @ startedAtLabel env (jprop run ''started'') @ '']'') ''notice'' i c;
                 c = say ''[restored available output; live output will continue here]'' ''notice'' i c
             in subscribe_stream (jprop run ''run_id'') i [] (str_or (jprop run ''last_event_id'') []) (show_running i c))"

definition attachActiveRunFromMonitor :: "run_env \<Rightarrow> jsval \<Rightarrow> control \<Rightarrow> control" where
  "attachActiveRunFromMonitor env run c =
     (if \<not> truthy run \<or> \<not> truthy (jprop run ''run_id'') then c
      else if jprop run ''run_type'' = JStr ''pty'' then (if re_ptyReady env then tell [AttachPty run []] c else c)
      else case createTab (re_page env) (re_maxTabs env) [] (page c) of
        (p, None) \<Rightarrow> c\<lparr>page := p\<rparr>
      | (p, Some i) \<Rightarrow> attachActiveRunToTab env run i ''attached'' (on_page (activateTab (re_page env) i) (c\<lparr>page := p\<rparr>)))"

text \<open>Polling: the request, its answer, the requests for the results of the runs that are gone and theirs.\<close>

definition pollActiveRunsAfterReload :: "control \<Rightarrow> control" where
  "pollActiveRunsAfterReload c =
     (let reconnectTabs = activeReconnectTabs c in
      if reconnectTabs = [] then stopPollingActiveRunsAfterReload c
      else c\<lparr>polls := polls c @ [map (\<lambda>t. (tab_id t, tab_historyRunId t)) reconnectTabs]\<rparr>)"

definition poll_settled :: "control \<Rightarrow> control" where
  "poll_settled c = (if activeReconnectTabs c = [] then stopPollingActiveRunsAfterReload c else c)"

text \<open>\<^const>\<open>None\<close> is a request that failed; reading the runs of an answer that is no object fails too.\<close>

definition pollAnswered :: "(string \<times> jsval) list \<Rightarrow> jsval option \<Rightarrow> control \<Rightarrow> control" where
  "pollAnswered reconnectTabs data c =
     (let c = c\<lparr>polls := remove1 reconnectTabs (polls c)\<rparr> in
      case data of
        None \<Rightarrow> poll_settled c
      | Some d \<Rightarrow>
          if d \<in> {JNull, JUndef} \<or> list_ex (\<lambda>run. run \<in> {JNull, JUndef}) (arr_items (jprop d ''runs'')) then poll_settled c
          else let activeIds = map (\<lambda>run. jprop run ''run_id'') (arr_items (jprop d ''runs''));
                   current = (\<lambda>(i, h). case tab_of i c of Some t \<Rightarrow> tab_historyRunId t | None \<Rightarrow> h);
                   gone = filter (\<lambda>it. current it \<notin> set activeIds) reconnectTabs
               in c\<lparr>resultChecks := resultChecks c @ map fst gone\<rparr>)"

definition markReconnectedRunUnavailable :: "string \<Rightarrow> control \<Rightarrow> control" where
  "markReconnectedRunUnavailable i c =
     (let c = say ''[reconnected run is no longer active]'' ''denied'' i c;
          c = say ''[no saved result is available; the app may have restarted while the command was running]'' ''denied'' i c;
          c = put_tab i (\<lambda>t. t\<lparr>tab_reconnectedRun := False, tab_runId := JNull\<rparr>) (set_status i ''fail'' c);
          c = (if is_active i c then tell [StopTimer] (show_status ''fail'' c) else c)
      in tell [RunButton False, KillButton i False] c)"

definition resultAnswered :: "string \<Rightarrow> jsval option \<Rightarrow> control \<Rightarrow> control" where
  "resultAnswered i data c =
     (let c = c\<lparr>resultChecks := remove1 i (resultChecks c)\<rparr> in
      case data of
        None \<Rightarrow> markReconnectedRunUnavailable i c
      | Some run \<Rightarrow> if truthy run then tell [RestoreRun run i] c else c)"

definition stop_if_active :: "string \<Rightarrow> control \<Rightarrow> control" where
  "stop_if_active i c = (if is_active i c then tell [StopTimer] c else c)"

definition reconnectedRunRestored :: "bool \<Rightarrow> string \<Rightarrow> control \<Rightarrow> control" where
  "reconnectedRunRestored worked i c =
     (let c = (if worked then c
               else set_status i ''fail''
                 (say ''[open the history panel to load the completed run]'' ''notice'' i
                   (say ''[reconnected run finished, but the saved result could not be restored automatically]'' ''notice'' i c)))
      in stop_if_active i (put_tab i (\<lambda>t. t\<lparr>tab_reconnectedRun := False\<rparr>) c))"

section \<open>Killing\<close>

definition mark_killed :: "run_env \<Rightarrow> string \<Rightarrow> rat option \<Rightarrow> bool \<Rightarrow> control \<Rightarrow> control" where
  "mark_killed env i secs suppressTranscript c = (case tab_of i c of
       None \<Rightarrow> c
     | Some t \<Rightarrow>
         let elapsed = (case secs of None \<Rightarrow> [] | Some s \<Rightarrow> formatElapsed s);
             c = on_page (markTabKilledByUser i) (clearStreamRecoveryTimer i c);
             c = set_run i (\<lambda>x. x\<lparr>tr_streamRecoveryAttempts := 0, tr_streamRecoveryNoticeRunId := []\<rparr>) c;
             c = tell [StopTimer, DiscardBatch i] c;
             c = (if tab_closing t \<or> suppressTranscript then c
                  else say (''[killed by user'' @ (if secs \<noteq> None then '' after '' @ elapsed else []) @ '']'') ''exit-fail'' i c);
             c = tell [LastExit (JStr ''killed''), DisableResume i, KillButton i False] (maybeNotify env (tab_command t) ''killed'' elapsed c);
             c = (if is_active i c then tell [RunButton False] (show_status ''killed'' c) else c)
         in tell [MountPrompt i] c)"

definition request_kill :: "kill_request \<Rightarrow> jsval \<Rightarrow> string \<Rightarrow> control \<Rightarrow> control" where
  "request_kill r runId i c =
     c\<lparr>killRequests := killRequests c @ [r], killsRequested := killsRequested c @ [(to_str runId, i)]\<rparr>"

definition kill_run :: "run_env \<Rightarrow> string \<Rightarrow> control \<Rightarrow> control" where
  "kill_run env i c = (case tab_of i c of
       None \<Rightarrow> c
     | Some t \<Rightarrow>
         if \<not> running t then c
         else let c = on_page (doKill i) c in
           if truthy (tab_runId t)
           then request_kill (KillRequest (tab_runId t) i (re_elapsed env) (tab_closing t)) (tab_runId t) i c
           else mark_killed env i (re_elapsed env) (tab_closing t) c)"

text \<open>The answer to a kill request. An error carries the text that is shown for it.\<close>

datatype kill_answer = KillOk | KillForbidden string | KillFailed string

definition handleKillRequestFailure :: "string \<Rightarrow> string \<Rightarrow> control \<Rightarrow> control" where
  "handleKillRequestFailure err i c =
     say (''[kill request failed] '' @ err) ''notice'' i (tell [Toast ''Failed to send kill request; command may still be running''] c)"

definition kill_denied :: "string \<Rightarrow> string \<Rightarrow> jsval \<Rightarrow> control \<Rightarrow> control" where
  "kill_denied message i runId c =
     (let c = (if tab_of i c = None then c else tell [KillButton i True] (on_page (handleKillRequestDenied i (to_str runId)) c));
          c = say (''[kill request denied] '' @ str_default message ''The server could not kill this run.'') ''notice'' i c
      in if is_active i c then tell [RunButton True] (show_status ''running'' c) else c)"

definition killAnswered :: "run_env \<Rightarrow> kill_request \<Rightarrow> kill_answer \<Rightarrow> control \<Rightarrow> control" where
  "killAnswered env r a c =
     (let c = c\<lparr>killRequests := remove1 r (killRequests c)\<rparr> in
      case (r, a) of
        (KillRequest runId i secs suppressTranscript, KillOk) \<Rightarrow>
          mark_killed env i secs suppressTranscript (put_tab i (\<lambda>t. t\<lparr>tab_runId := JNull\<rparr>) c)
      | (KillRequest runId i secs suppressTranscript, KillForbidden message) \<Rightarrow> kill_denied message i runId c
      | (KillRequest runId i secs suppressTranscript, KillFailed err) \<Rightarrow> handleKillRequestFailure err i c
      | (LateKill runId i, _) \<Rightarrow> c)"

text \<open>A request that never reached the server.\<close>

definition killLost :: "kill_request \<Rightarrow> string \<Rightarrow> control \<Rightarrow> control" where
  "killLost r err c =
     handleKillRequestFailure err (case r of KillRequest runId i secs q \<Rightarrow> i | LateKill runId i \<Rightarrow> i)
       (c\<lparr>killRequests := remove1 r (killRequests c)\<rparr>)"

text \<open>From the status monitor, once the question is answered: the run of a tab here, or a request of its own.\<close>

definition killActiveRunFromMonitor :: "run_env \<Rightarrow> jsval \<Rightarrow> control \<Rightarrow> control" where
  "killActiveRunFromMonitor env run c =
     (let runId = trim (str_or (js_or (jprop run ''run_id'') (jprop run ''id'')) []) in
      if runId = [] then c
      else case tabForActiveRunId runId c of
        Some t \<Rightarrow> if running t then kill_run env (tab_id t) c
          else c\<lparr>killsRequested := killsRequested c @ [(runId, [])]\<rparr>
      | None \<Rightarrow> c\<lparr>killsRequested := killsRequested c @ [(runId, [])]\<rparr>)"

text \<open>The answer to the question of a closing tab: killing its run, or leaving it running.\<close>

definition close_and_kill :: "run_env \<Rightarrow> string \<Rightarrow> int \<Rightarrow> control \<Rightarrow> control" where
  "close_and_kill env i idx c = (case tab_at idx (page c) of
       None \<Rightarrow> c
     | Some t \<Rightarrow>
         if \<not> running t then c
         else let c = kill_run env i (on_page (\<lambda>p. p\<lparr>tabs := (tabs p)[nat idx := t\<lparr>tab_closing := True\<rparr>]\<rparr>) c) in
           if is_active i c \<and> length (tabs (page c)) > 1
           then on_page (activate_opt (re_page env) (getNeighborTabIdAfterClose idx i (page c))) c else c)"

definition detach_and_close :: "run_env \<Rightarrow> string \<Rightarrow> control \<Rightarrow> control" where
  "detach_and_close env i c = (case tab_of i c of
       None \<Rightarrow> c
     | Some t \<Rightarrow>
         if \<not> running t then c
         else let c = markActiveRunDetachedForRestore (re_now env) (js_or (tab_runId t) (tab_historyRunId t)) c;
                  c = (if re_hasStream env then tell [DetachStream i] (clearStalledTimeout i c) else c)
              in on_page (detachRunningTabAndClose (re_page env) i) c)"

definition answer_close :: "run_env \<Rightarrow> string \<Rightarrow> int \<Rightarrow> bool \<Rightarrow> close_answer \<Rightarrow> control \<Rightarrow> control" where
  "answer_close env i idx canDetach a c =
     (let c = on_page (\<lambda>p. p\<lparr>closeConfirms := remove1 (i, idx, canDetach) (closeConfirms p)\<rparr>) c in
      case a of KeepRunning \<Rightarrow> detach_and_close env i c | KillRun \<Rightarrow> close_and_kill env i idx c | CancelClose \<Rightarrow> c)"


section \<open>The lines of a message\<close>

definition streamOutputMetadata :: "jsval \<Rightarrow> jsobj" where
  "streamOutputMetadata msg =
     (let str = (\<lambda>k. case jprop msg k of JStr s \<Rightarrow> if s \<noteq> [] then [(k, JStr s)] else [] | _ \<Rightarrow> []);
          arr = (\<lambda>k. case jprop msg k of JArr xs \<Rightarrow> if xs \<noteq> [] then [(k, JArr xs)] else [] | _ \<Rightarrow> []);
          int = (\<lambda>k. case jprop msg k of JNum n \<Rightarrow> if is_integer_num n then [(k, JNum n)] else [] | _ \<Rightarrow> [])
      in str ''kind'' @ str ''role'' @ arr ''signals'' @ int ''line_index'' @ str ''command_root'' @ str ''target'' @ arr ''entities'')"

definition entity_obj :: "entity \<Rightarrow> jsval" where
  "entity_obj e =
     (let opt = (\<lambda>v. case v of None \<Rightarrow> JNull | Some n \<Rightarrow> JInt n) in
      JObj [(''type'', JStr (ent_type e)), (''value'', JStr (ent_value e)), (''canonical_value'', JStr (canonical_value e)),
            (''confidence'', JStr (confidence e)), (''source_line'', opt (source_line e)), (''start'', opt (ent_start e)),
            (''end'', opt (ent_end e))])"

definition typedRunStreamLineMessage :: "jsval \<Rightarrow> jsval" where
  "typedRunStreamLineMessage msg =
     (if \<not> is_object msg \<or> list_all (\<lambda>k. jprop msg k = JUndef) [''v'', ''kind'', ''role'', ''signals''] then msg
      else let event = fst (fromWireLineEvent msg) in
        JObj (obj_assign (obj_assign (obj_entries msg) (obj_entries (toLegacyWireLineEvent event)))
          [(''kind'', JStr (str_default (ev_kind event) ''info'')), (''role'', JStr (str_default (ev_role event) ''body'')),
           (''signals'', JArr (map JStr (ev_signals event))),
           (''line_index'', case line_index event of None \<Rightarrow> JNull | Some n \<Rightarrow> JInt n),
           (''command_root'', JStr (command_root event)), (''target'', JStr (ev_target event)),
           (''entities'', JArr (map entity_obj (ev_entities event)))]))"

definition appendStreamLine :: "run_env \<Rightarrow> jsval \<Rightarrow> string \<Rightarrow> string \<Rightarrow> jsval \<Rightarrow> bool \<Rightarrow> control \<Rightarrow> control" where
  "appendStreamLine env line cls i msg liveOutput c =
     (let metadata = streamOutputMetadata msg;
          metadata = (if liveOutput \<and> truthy (re_highVolumeThreshold env) then metadata @ [(''live_output'', JBool True)] else metadata)
      in tell [AppendLine line cls i (if metadata \<noteq> [] then JObj metadata else JUndef)] c)"

definition recordRunOutputCoalescing :: "jsval \<Rightarrow> string \<Rightarrow> control \<Rightarrow> control" where
  "recordRunOutputCoalescing msg i c = (case num_or_zero (jprop msg ''coalesced_line_count'') of
       Fin r \<Rightarrow> if r > 0 then tell [CoalescedLines i (Fin r)] c else c
     | Infinity pos \<Rightarrow> if pos then tell [CoalescedLines i (Infinity pos)] c else c
     | NaN \<Rightarrow> c)"

definition shouldSuppressStreamOutputLine :: "tab option \<Rightarrow> string \<Rightarrow> bool" where
  "shouldSuppressStreamOutputLine tab line \<longleftrightarrow> (case tab of
       None \<Rightarrow> False
     | Some t \<Rightarrow> toLowerCase (takeWhile (\<lambda>ch. \<not> is_ws ch) (trim (tab_command t))) = ''nc''
         \<and> startsWith (toLowerCase line) ''warning: inverse host lookup failed for '')"

definition shown_lines :: "tab option \<Rightarrow> jsval \<Rightarrow> string list" where
  "shown_lines tab v = filter (\<lambda>line. \<not> shouldSuppressStreamOutputLine tab line) (forEachStreamTextLine v)"

definition note_unknown_command :: "jsval \<Rightarrow> string \<Rightarrow> control \<Rightarrow> control" where
  "note_unknown_command v i c = (case v of
       JStr s \<Rightarrow> if tab_of i c \<noteq> None \<and> startsWith s ''Unsupported built-in command: ''
         then set_run i (\<lambda>x. x\<lparr>tr_unknownCommand := True\<rparr>) c else c
     | _ \<Rightarrow> c)"

definition batchedStreamLineEntry :: "run_env \<Rightarrow> jsval \<Rightarrow> string \<Rightarrow> jsval" where
  "batchedStreamLineEntry env msg line =
     (let m = typedRunStreamLineMessage (JObj (obj_assign (obj_entries msg) [(''type'', JStr ''output''), (''text'', JStr line)])) in
      if truthy (re_highVolumeThreshold env) then JObj (obj_set (obj_entries m) ''live_output'' (JBool True)) else m)"

definition batch_line :: "jsval \<Rightarrow> jsval" where
  "batch_line rawLine = typedRunStreamLineMessage (JObj (obj_assign (obj_entries rawLine) [(''type'', JStr ''output'')]))"

definition killed_tab :: "string \<Rightarrow> control \<Rightarrow> bool" where
  "killed_tab i c \<longleftrightarrow> (case tab_of i c of Some t \<Rightarrow> tab_killed t | None \<Rightarrow> False)"

definition handleRunOutputBatch :: "run_env \<Rightarrow> jsval \<Rightarrow> string \<Rightarrow> control \<Rightarrow> control" where
  "handleRunOutputBatch env msg i c =
     (if killed_tab i c then c
      else let c = recordRunOutputCoalescing msg i c;
               lineMsgs = map batch_line (filter is_object (arr_items (jprop msg ''lines'')));
               c = fold (\<lambda>m. note_unknown_command (jprop m ''text'') i) lineMsgs c;
               entries = concat (map (\<lambda>m. map (batchedStreamLineEntry env m) (shown_lines (tab_of i c) (jprop m ''text''))) lineMsgs)
           in if entries \<noteq> [] then tell [AppendLines entries i] c else c)"

definition handleRunOutput :: "run_env \<Rightarrow> jsval \<Rightarrow> string \<Rightarrow> control \<Rightarrow> control" where
  "handleRunOutput env msg i c =
     (let c = recordRunOutputCoalescing msg i c; msg = typedRunStreamLineMessage msg in
      if killed_tab i c then c
      else let c = note_unknown_command (jprop msg ''text'') i c in
        fold (\<lambda>line. appendStreamLine env (JStr line) (str_or (jprop msg ''cls'') []) i msg True)
          (shown_lines (tab_of i c) (jprop msg ''text'')) c)"

section \<open>The start of a run\<close>

definition markTabRunStarted :: "string \<Rightarrow> jsval \<Rightarrow> control \<Rightarrow> control" where
  "markTabRunStarted i runId c = (case tab_of i c of
       None \<Rightarrow> c
     | Some t \<Rightarrow>
         if \<not> truthy runId then c
         else let sameRun = (tab_runId t = runId \<or> tab_historyRunId t = runId);
                  c = put_tab i (\<lambda>t. t\<lparr>tab_runId := runId, tab_historyRunId := runId, tab_historyRunKind := ''external'',
                        tab_lastEventId := (if sameRun then tab_lastEventId t else []), tab_reconnectedRun := False\<rparr>) c;
                  c = (if sameRun then c
                       else tell [ResetHighVolume i] (clearStreamRecoveryTimer i
                         (set_run i (\<lambda>x. x\<lparr>tr_streamRecoveryAttempts := 0, tr_streamRecoveryNoticeRunId := []\<rparr>) c)));
                  c = set_run i (\<lambda>x. x\<lparr>tr_unknownCommand := False\<rparr>) c
              in if tab_pendingKill t
                 then put_tab i (\<lambda>t. t\<lparr>tab_pendingKill := False, tab_runId := JNull\<rparr>)
                   (request_kill (LateKill runId i) runId i c)
                 else put_tab i (\<lambda>t. t\<lparr>tab_killed := False\<rparr>) c)"

text \<open>The end of \<open>submitCommand\<close>: the run of an accepted command in the active tab.\<close>

definition start_fields :: "run_env \<Rightarrow> tab \<Rightarrow> tab" where
  "start_fields env t = t\<lparr>tab_runStart := JInt (re_now env), tab_currentRunStartIndex := JInt (int (re_transcriptLength env (tab_id t))),
     tab_previewTruncated := False, tab_fullOutputAvailable := False, tab_fullOutputLoaded := False, tab_historyRunId := JNull,
     tab_historyRunKind := [], tab_reconnectedRun := False, tab_commandOutcomeSummary := JNull, tab_lastEventId := [],
     tab_attachMode := [], tab_followOutput := True, tab_deferPromptMount := False\<rparr>"

definition startRun :: "run_env \<Rightarrow> string \<Rightarrow> control \<Rightarrow> control" where
  "startRun env cmd c = (case activeTabId (page c) of
       None \<Rightarrow> c
     | Some i \<Rightarrow>
         let c = set_running_command i (JStr cmd) c;
             c = tell [AppendLine (JStr cmd) ''prompt-echo'' i JUndef] c;
             c = put_tab i (start_fields env) c;
             c = set_status i ''running'' (show_status ''running'' c);
             c = tell [RunButton True, KillButton i True, StartTimer (JInt (re_now env)), RequestRun cmd i] c
         in c\<lparr>startRequests := startRequests c @ [i]\<rparr>)"

datatype start_answer = StartDenied string | StartRateLimited | StartRefused string | StartAccepted jsval | StartLost string

definition fail_start :: "string \<Rightarrow> string \<Rightarrow> string \<Rightarrow> control \<Rightarrow> control" where
  "fail_start line cls i c = settle_controls i (set_status i ''fail'' (show_status ''fail'' (say line cls i c)))"

definition handleRunTransportFailure :: "string \<Rightarrow> string \<Rightarrow> control \<Rightarrow> control" where
  "handleRunTransportFailure err i c =
     settle_controls i (tell [DisableResume i]
       (set_status i ''fail'' (status_if_active i ''fail'' (say (''[connection error] '' @ err) ''exit-fail'' i c))))"

definition startAnswered :: "string \<Rightarrow> start_answer \<Rightarrow> control \<Rightarrow> control" where
  "startAnswered i a c =
     (let c = c\<lparr>startRequests := remove1 i (startRequests c)\<rparr> in
      case a of
        StartDenied message \<Rightarrow> fail_start (''[denied] '' @ message) ''denied'' i c
      | StartRateLimited \<Rightarrow> fail_start ''[rate limited] Too many requests. Please wait a moment.'' ''denied'' i c
      | StartRefused message \<Rightarrow>
          fail_start (''[server error] The server could not start the command.'' @ (if message \<noteq> [] then '' '' @ message else [])) ''exit-fail'' i c
      | StartAccepted data \<Rightarrow>
          if \<not> truthy (jprop data ''run_id'') then fail_start ''[server error] The server did not return a run id.'' ''exit-fail'' i c
          else subscribe_stream (jprop data ''run_id'') i (str_or (jprop data ''stream'') []) [] (markTabRunStarted i (jprop data ''run_id'') c)
      | StartLost err \<Rightarrow> handleRunTransportFailure err i (clearStalledTimeout i c))"

section \<open>The end of a run\<close>

text \<open>The callbacks of the coordinator; none of them throws.\<close>

definition runner_callbacks :: callbacks where
  "runner_callbacks =
     \<lparr>renderLine = Some (\<lambda>l r. None), renderExit = Some (\<lambda>r. None), applyStatus = Some (\<lambda>r. None),
      recordRecent = Some (\<lambda>cmd r saved. None), persistClient = Some (\<lambda>r. Inr JNull), afterComplete = Some (\<lambda>r. None), onError = Some (\<lambda>e r. None)\<rparr>"

definition renderCompletedCommandLine :: "command_line \<Rightarrow> command_result \<Rightarrow> control \<Rightarrow> control" where
  "renderCompletedCommandLine l r c =
     tell [AppendLine (JStr (cl_text l)) (cl_cls l) (cr_tabId r) (case cl_metadata l of None \<Rightarrow> JUndef | Some ob \<Rightarrow> JObj ob)] c"

definition exit_line :: "command_result \<Rightarrow> run_call" where
  "exit_line r = AppendLine (JStr (''[process exited with code '' @ int_str (cr_exitCode r)
      @ (if cr_elapsed r \<noteq> [] then '' in '' @ cr_elapsed r @ ''s'' else []) @ '']''))
    (if cr_exitCode r = 0 then ''exit-ok'' else ''exit-fail'') (cr_tabId r) JUndef"

definition final_status :: "command_result \<Rightarrow> string" where
  "final_status r = (if cr_status r = ''killed'' then ''killed'' else if cr_exitCode r = 0 then ''ok'' else ''fail'')"

definition applyCompletedCommandStatus :: "command_result \<Rightarrow> control \<Rightarrow> control" where
  "applyCompletedCommandStatus r c =
     (let i = cr_tabId r;
          c = put_tab i (\<lambda>t. t\<lparr>tab_exitCode := JInt (cr_exitCode r), tab_runId := JNull, tab_reconnectedRun := False,
                tab_lastEventId := [], tab_attachMode := []\<rparr>) c;
          c = set_status i (final_status r) (status_if_active i (final_status r) c)
      in tell [LastExit (if final_status r = ''killed'' then JStr ''killed'' else JInt (cr_exitCode r))] c)"

text \<open>\<open>_afterCompletedCommand\<close> up to its first await, from there to the next, and the rest. Only the effects that the
  end of a run requests are treated.\<close>

definition after_refresh :: "run_env \<Rightarrow> command_result \<Rightarrow> control \<Rightarrow> control" where
  "after_refresh env r c =
     (let eff = set (cr_effects r);
          c = (if ''notify'' \<in> eff
               then maybeNotify env (str_default (cr_safeCommand r) (cr_command r))
                 (if cr_status r = ''killed'' then ''killed'' else int_str (cr_exitCode r))
                 (if cr_elapsed r \<noteq> [] then cr_elapsed r @ ''s'' else []) c
               else c);
          c = (if ''refreshHistory'' \<in> eff \<and> re_historyOpen env then tell [RefreshHistory] c else c)
      in if ''mountDeferredPrompt'' \<in> eff then tell [MountPrompt (cr_tabId r)] c else c)"

definition after_variables :: "run_env \<Rightarrow> command_result \<Rightarrow> control \<Rightarrow> control" where
  "after_variables env r c =
     (if ''refreshWorkspace'' \<in> set (cr_effects r)
      then tell [RefreshWorkspace] (c\<lparr>settling := settling c @ [(r, True)]\<rparr>) else after_refresh env r c)"

definition afterCompletedCommand :: "run_env \<Rightarrow> command_result \<Rightarrow> control \<Rightarrow> control" where
  "afterCompletedCommand env r c =
     (let eff = set (cr_effects r); cmd = str_default (cr_safeCommand r) (cr_command r);
          c = (if ''settleControls'' \<in> eff then tell [RunButton False, KillButton (cr_tabId r) False] c else c);
          c = (if ''refreshProject'' \<in> eff \<and> cr_exitCode r = 0 \<and> isProjectWorkspaceCommand cmd then tell [RefreshProject cmd] c else c)
      in if ''refreshVariables'' \<in> eff then tell [LoadVariables] (c\<lparr>settling := settling c @ [(r, False)]\<rparr>)
         else after_variables env r c)"

definition settlingContinues :: "run_env \<Rightarrow> command_result \<Rightarrow> bool \<Rightarrow> control \<Rightarrow> control" where
  "settlingContinues env r refreshed c =
     (let c = c\<lparr>settling := remove1 (r, refreshed) (settling c)\<rparr> in
      if refreshed then after_refresh env r c else after_variables env r c)"

fun completion_event :: "run_env \<Rightarrow> command_result \<Rightarrow> event \<Rightarrow> control \<Rightarrow> control" where
  "completion_event env r (RenderLine l) c = renderCompletedCommandLine l r c"
| "completion_event env r RenderExit c = tell [exit_line r] c"
| "completion_event env r ApplyStatus c = applyCompletedCommandStatus r c"
| "completion_event env r PersistClient c = c"
| "completion_event env r (RecordRecent cmd) c = tell [AddRecent cmd] c"
| "completion_event env r AfterComplete c = afterCompletedCommand env r c"
| "completion_event env r (OnError e) c = c"

definition completeTerminalCommand :: "run_env \<Rightarrow> command_result \<Rightarrow> control \<Rightarrow> control" where
  "completeTerminalCommand env r c =
     (case complete runner_callbacks (completedKeys c) (result_obj r) (JObj []) of
        (keys, evs, out) \<Rightarrow> fold (completion_event env (normalizeCommandResult (result_obj r) (JObj []))) evs (c\<lparr>completedKeys := keys\<rparr>))"

definition previewTruncationNotice :: "run_env \<Rightarrow> jsval \<Rightarrow> jsval \<Rightarrow> string" where
  "previewTruncationNotice env outputLineCount fullOutputAvailable =
     (let shown = js_or (re_maxOutputLines env) (js_or outputLineCount (JInt 0)); everything = js_or outputLineCount shown in
      ''[preview truncated '' @ em_dash @ '' only the last '' @ to_str shown @ '' lines are shown here, but the full output had ''
        @ to_str everything @ '' lines. ''
        @ (if truthy fullOutputAvailable
           then ''To view the full output, use either permalink button now; after another command, use this command''
             @ [CHR 0x27] @ ''s history permalink]''
           else ''Full output persistence is disabled or unavailable]''))"

definition exit_fields :: "jsval \<Rightarrow> tab \<Rightarrow> tab" where
  "exit_fields msg t = t\<lparr>tab_exitCode := jprop msg ''code'', tab_runId := JNull, tab_reconnectedRun := False, tab_lastEventId := [],
     tab_attachMode := [], tab_deferPromptMount := True, tab_previewTruncated := truthy (jprop msg ''preview_truncated''),
     tab_fullOutputAvailable := truthy (jprop msg ''full_output_available''),
     tab_fullOutputLoaded := (\<not> truthy (jprop msg ''preview_truncated''))\<rparr>"

definition refreshes_variables :: "string \<Rightarrow> bool" where
  "refreshes_variables command \<longleftrightarrow> toLowerCase (take 3 command) = ''var'' \<and> (drop 3 command = [] \<or> is_ws (hd (drop 3 command)))"

definition completion_key :: "tab option \<Rightarrow> jsval \<Rightarrow> string \<Rightarrow> string" where
  "completion_key tab msg i =
     ''run:'' @ to_str (js_or (case tab of Some t \<Rightarrow> tab_historyRunId t | None \<Rightarrow> JUndef) (js_or (jprop msg ''run_id'') (JStr i)))"

text \<open>The result that the end of a run hands to the coordinator; \<open>tab\<close> and \<open>x\<close> are the tab and its run fields.\<close>

definition exit_effects :: "string \<Rightarrow> bool \<Rightarrow> jsval" where
  "exit_effects command closing = JObj
     [(''refreshProject'', JBool (command \<noteq> [])), (''refreshVariables'', JBool (refreshes_variables command)),
      (''refreshWorkspace'', JBool True), (''notify'', JBool True), (''settleControls'', JBool True),
      (''refreshHistory'', JBool (\<not> closing)), (''mountDeferredPrompt'', JBool (\<not> closing))]"

definition exit_result_lines :: "run_env \<Rightarrow> jsval \<Rightarrow> jsval list" where
  "exit_result_lines env msg = (if truthy (jprop msg ''preview_truncated'')
     then [JObj [(''text'', JStr (previewTruncationNotice env (jprop msg ''output_line_count'') (jprop msg ''full_output_available''))),
                 (''cls'', JStr ''notice'')]] else [])"

definition exit_object :: "run_env \<Rightarrow> jsval \<Rightarrow> string \<Rightarrow> tab option \<Rightarrow> tab_run \<Rightarrow> jsobj" where
  "exit_object env msg i tab x =
     (let command = (case tab of Some t \<Rightarrow> tab_command t | None \<Rightarrow> []);
          safeCommand = historySafeCommand command;
          closing = (case tab of Some t \<Rightarrow> tab_closing t | None \<Rightarrow> False);
          succeeded = (to_num (jprop msg ''code'') = Fin 0)
      in [(''command'', JStr command), (''safeCommand'', JStr safeCommand), (''tabId'', JStr i), (''source'', JStr ''server''),
          (''completionKey'', JStr (completion_key tab msg i)), (''lines'', JArr (exit_result_lines env msg)),
          (''status'', JStr (if succeeded then ''ok'' else ''fail'')), (''exitCode'', jprop msg ''code''), (''persistence'', JStr ''server''),
          (''recordRecent'', JBool (safeCommand \<noteq> [] \<and> tab \<noteq> None \<and> \<not> tr_unknownCommand x)), (''renderExit'', JBool True),
          (''suppressExitLine'', JBool (tab \<noteq> None \<and> tr_syntheticClear x \<and> succeeded)),
          (''elapsed'', js_or (jprop msg ''elapsed'') (JStr [])), (''effects'', exit_effects command closing)])"

definition exit_result :: "run_env \<Rightarrow> jsval \<Rightarrow> string \<Rightarrow> tab option \<Rightarrow> tab_run \<Rightarrow> command_result" where
  "exit_result env msg i tab x = normalizeCommandResult (JObj (exit_object env msg i tab x)) (JObj [])"

definition refresh_history :: "run_env \<Rightarrow> control \<Rightarrow> control" where
  "refresh_history env c = (if re_historyOpen env then tell [RefreshHistory] c else c)"

definition exit_prologue :: "jsval \<Rightarrow> string \<Rightarrow> control \<Rightarrow> control" where
  "exit_prologue msg i c =
     (let c = clearStreamRecoveryTimer i (clearStalledTimeout i c) in
      if tab_of i c = None then c
      else set_run i (\<lambda>x. x\<lparr>tr_streamRecoveryAttempts := 0, tr_streamRecoveryNoticeRunId := []\<rparr>) (put_tab i (exit_fields msg) c))"

text \<open>A run that was killed here: its exit is not shown. If the tab is gone afterwards it is the closing one.\<close>

definition exit_killed :: "run_env \<Rightarrow> string \<Rightarrow> bool \<Rightarrow> control \<Rightarrow> control" where
  "exit_killed env i closing c =
     (let c = put_tab i (\<lambda>t. t\<lparr>tab_killed := False\<rparr>) c;
          c = tell [DiscardBatch i, FinalSummary i, StopTimer, RunButton False, KillButton i False, DisableResume i] c;
          c = (if closing then refresh_history env (on_page (finalizeClosingTab (re_page env) i) c) else c);
          c = refresh_history env c
      in if (case tab_of i c of Some t \<Rightarrow> tab_closing t | None \<Rightarrow> True) then c else tell [MountPrompt i] c)"

definition exit_shown :: "run_env \<Rightarrow> jsval \<Rightarrow> string \<Rightarrow> control \<Rightarrow> control" where
  "exit_shown env msg i c =
     (let tab = tab_of i c;
          closing = (case tab of Some t \<Rightarrow> tab_closing t | None \<Rightarrow> False);
          c = tell [StopTimer, FinalSummary i, OutcomeSummary i, DisableResume i] c;
          r = exit_result env msg i tab (runs c i);
          c = (if tab \<noteq> None then set_run i (\<lambda>x. x\<lparr>tr_syntheticClear := False\<rparr>) c else c);
          c = completeTerminalCommand env r c
      in if closing then refresh_history env (on_page (finalizeClosingTab (re_page env) i) c) else c)"

definition handleRunExit :: "run_env \<Rightarrow> jsval \<Rightarrow> string \<Rightarrow> control \<Rightarrow> control" where
  "handleRunExit env msg i c =
     (let c = exit_prologue msg i c in
      case tab_of i c of
        Some t \<Rightarrow> if tab_killed t then exit_killed env i (tab_closing t) c else exit_shown env msg i c
      | None \<Rightarrow> exit_shown env msg i c)"


section \<open>The messages of a stream\<close>

definition handleRunOwnerChanged :: "run_env \<Rightarrow> jsval \<Rightarrow> string \<Rightarrow> control \<Rightarrow> control" where
  "handleRunOwnerChanged env msg i c = (case tab_of i c of
       None \<Rightarrow> c
     | Some t \<Rightarrow>
         let ownerClientId = str_or (jprop msg ''owner_client_id'') [];
             ownedByThisClient = (ownerClientId \<noteq> [] \<and> ownerClientId = re_clientId env);
             c = (if ownedByThisClient then put_tab i (\<lambda>t. t\<lparr>tab_attachMode := str_default (tab_attachMode t) ''origin''\<rparr>) c
                  else put_tab i (\<lambda>t. t\<lparr>tab_attachMode := str_default (tab_attachMode t) ''attached'', tab_killed := False, tab_pendingKill := False\<rparr>) c)
         in if running t then tell [KillButton i True] c else c)"

definition handleRunKilled :: "run_env \<Rightarrow> jsval \<Rightarrow> string \<Rightarrow> control \<Rightarrow> control" where
  "handleRunKilled env msg i c =
     (if tab_of i c = None then c
      else let killerClientId = str_or (jprop msg ''killer_client_id'') []; killerTabId = str_or (jprop msg ''killer_tab_id'') [];
               killedByThisBrowser = (killerClientId \<noteq> [] \<and> killerClientId = re_clientId env);
               killedByThisTab = (killedByThisBrowser \<and> killerTabId \<noteq> [] \<and> killerTabId = i);
               c = tell [DiscardBatch i] (put_tab i (\<lambda>t. t\<lparr>tab_killed := True, tab_pendingKill := False\<rparr>) c);
               c = (if killedByThisTab then c
                    else say (if killedByThisBrowser then ''[killed from another tab]'' else ''[killed by another browser]'') ''notice'' i c);
               c = tell [DisableResume i, KillButton i False] (set_status i ''killed'' c)
           in if is_active i c then tell [RunButton False] (show_status ''killed'' c) else c)"

definition notice_number :: "jsval \<Rightarrow> jsval" where
  "notice_number v = (let n = num_or_zero v in JNum (if truthy (JNum n) then n else Fin 0))"

definition project_calls :: "jsval \<Rightarrow> run_call list" where
  "project_calls msg =
     (let project = js_or (jprop msg ''project_id'') (JStr []);
          found = num_or_zero (js_or (jprop msg ''target_count'') (jprop msg ''count''))
      in (if truthy (jprop msg ''project_linked'') then [ProjectChanged ''run-linked'' project] else [])
       @ (if truthy (jprop msg ''project_entities_linked'') then [ProjectChanged ''entities-linked'' project] else [])
       @ (if truthy (jprop msg ''project_auto_promoted'')
          then [ProjectChanged ''auto-promoted'' project, ProjectEvent ''app:project-auto-promoted''
            (JObj [(''project_id'', project), (''project_ids'', JArr (arr_items (jprop msg ''project_ids''))),
                   (''count'', notice_number (js_or (jprop msg ''entity_count'') (jprop msg ''count''))),
                   (''promoted_count'', notice_number (jprop msg ''promoted_count''))])] else [])
       @ (if truthy (jprop msg ''project_targets_discovered'')
          then [ProjectChanged ''target-discovered'' project, ProjectEvent ''app:project-target-discovered''
            (JObj [(''project_id'', project), (''project_name'', js_or (jprop msg ''project_name'') (JStr [])),
                   (''count'', JNum (if is_finite_num found then found else Fin 0))])] else []))"

definition handleRunNotice :: "run_env \<Rightarrow> jsval \<Rightarrow> string \<Rightarrow> control \<Rightarrow> control" where
  "handleRunNotice env msg i c =
     (let msg = typedRunStreamLineMessage msg in tell (project_calls msg) (appendStreamLine env (jprop msg ''text'') ''notice'' i msg False c))"

definition handleRunClear :: "run_env \<Rightarrow> string \<Rightarrow> control \<Rightarrow> control" where
  "handleRunClear env i c = set_run i (\<lambda>x. x\<lparr>tr_syntheticClear := True\<rparr>) (clear_tab env i c)"

definition handleRunError :: "jsval \<Rightarrow> string \<Rightarrow> control \<Rightarrow> control" where
  "handleRunError msg i c =
     settle_controls i (tell [DisableResume i] (set_status i ''fail'' (status_if_active i ''fail''
       (say (''[error] '' @ to_str (jprop msg ''text'')) ''exit-fail'' i (clearStalledTimeout i c)))))"

text \<open>A schema message only writes to the error log.\<close>

definition handleRunStreamMessage :: "run_env \<Rightarrow> jsval \<Rightarrow> string \<Rightarrow> control \<Rightarrow> control" where
  "handleRunStreamMessage env msg i c =
     (if \<not> is_object msg then c
      else let c = (if truthy (jprop msg ''event_id'') then put_tab i (\<lambda>t. t\<lparr>tab_lastEventId := to_str (jprop msg ''event_id'')\<rparr>) c else c);
               type = jprop msg ''type''
           in if type = JStr ''schema'' \<or> jprop msg ''event'' = JStr ''schema'' then c
              else if type = JStr ''started'' then markTabRunStarted i (jprop msg ''run_id'') c
              else if type = JStr ''notice'' then handleRunNotice env msg i c
              else if type = JStr ''owner'' then handleRunOwnerChanged env msg i c
              else if type = JStr ''killed'' then handleRunKilled env msg i c
              else if type = JStr ''clear'' then handleRunClear env i c
              else if type = JStr ''output_batch'' then handleRunOutputBatch env msg i c
              else if type = JStr ''output'' then handleRunOutput env msg i c
              else if type = JStr ''exit'' then handleRunExit env msg i c
              else if type = JStr ''error'' then handleRunError msg i c
              else c)"

text \<open>What the stream itself reports: an answer that cannot be streamed, and a failure of the network.\<close>

definition streamRefused :: "string \<Rightarrow> string \<Rightarrow> control \<Rightarrow> control" where
  "streamRefused message i c =
     fail_run (JStr (''[server error] The server could not stream the command.'' @ (if message \<noteq> [] then '' '' @ message else []))) ''exit-fail'' i c"

definition streamLost :: "string \<Rightarrow> string \<Rightarrow> control \<Rightarrow> control" where
  "streamLost err i c = fail_run (JStr (''[network error] '' @ err)) ''exit-fail'' i c"

definition streamOpened :: "string \<Rightarrow> control \<Rightarrow> control" where
  "streamOpened i c = resetStalledTimeout i c"

definition streamChunk :: "string \<Rightarrow> control \<Rightarrow> control" where
  "streamChunk i c = resetStalledTimeout i (recoverStalledRun i c)"

section \<open>Events\<close>

datatype run_event =
    PageEvent tab_event
  | StartRun string
  | StartAnswer string start_answer
  | StreamOpened string
  | StreamChunk string
  | StreamMessage string jsval
  | StreamRefused string string
  | StreamLost string string
  | StreamEnded string
  | EndAnswer string jsval jsval
  | StallTimer string
  | StallAnswer string jsval jsval
  | RecoveryTimer string
  | PtyFailed string string
  | KillInTab string
  | KillAnswer kill_request kill_answer
  | KillLost kill_request string
  | KillFromMonitor jsval
  | AnswerRunClose string int bool close_answer
  | RestoreRuns jsval
  | AttachFromMonitor jsval
  | Poll
  | PollAnswer "(string \<times> jsval) list" "jsval option"
  | PollSettled
  | ResultAnswer string "jsval option"
  | RunRestored string bool
  | SettlingContinues command_result bool

text \<open>The events of the tabs that are not treated here: what the user does with tabs and the prompt, and what the
  output panel and the history write into a tab.\<close>

fun own_page_event :: "tab_event \<Rightarrow> bool" where
  "own_page_event (AnswerClose i idx canDetach a) = False"
| "own_page_event (KillTab i) = False"
| "own_page_event (KillAccepted i) = False"
| "own_page_event (KillDenied i r) = False"
| "own_page_event (RunEnded i) = False"
| "own_page_event (TabStatus i st) = False"
| "own_page_event e = True"

fun run_enabled :: "run_env \<times> run_event \<Rightarrow> control \<Rightarrow> bool" where
  "run_enabled (env, PageEvent e) c \<longleftrightarrow> own_page_event e \<and> tab_enabled (re_page env, e) (page c)"
| "run_enabled (env, StartRun cmd) c \<longleftrightarrow> (case getActiveTab (page c) of Some t \<Rightarrow> \<not> running t | None \<Rightarrow> False)"
| "run_enabled (env, StartAnswer i a) c \<longleftrightarrow> i \<in> set (startRequests c)"
| "run_enabled (env, EndAnswer i r d) c \<longleftrightarrow> (i, r) \<in> set (endChecks c)"
| "run_enabled (env, StallTimer i) c \<longleftrightarrow> i \<in> set (stalledTimeouts c)"
| "run_enabled (env, StallAnswer i r d) c \<longleftrightarrow> (i, r) \<in> set (stallChecks c)"
| "run_enabled (env, RecoveryTimer i) c \<longleftrightarrow> i \<in> fst ` set (streamRecoveryTimers c)"
| "run_enabled (env, KillAnswer r a) c \<longleftrightarrow> r \<in> set (killRequests c)"
| "run_enabled (env, KillLost r err) c \<longleftrightarrow> r \<in> set (killRequests c)"
| "run_enabled (env, AnswerRunClose i idx canDetach a) c \<longleftrightarrow> tab_enabled (re_page env, AnswerClose i idx canDetach a) (page c)"
| "run_enabled (env, Poll) c \<longleftrightarrow> polling c"
| "run_enabled (env, PollAnswer ts d) c \<longleftrightarrow> ts \<in> set (polls c)"
| "run_enabled (env, ResultAnswer i d) c \<longleftrightarrow> i \<in> set (resultChecks c)"
| "run_enabled (env, SettlingContinues r b) c \<longleftrightarrow> (r, b) \<in> set (settling c)"
| "run_enabled (env, ev) c \<longleftrightarrow> True"

text \<open>The limit of tabs is part of the configuration and does not change.\<close>

definition run_possible :: "nat \<Rightarrow> run_env \<times> run_event \<Rightarrow> control \<Rightarrow> bool" where
  "run_possible maxTabs e c \<longleftrightarrow> re_maxTabs (fst e) = maxTabs \<and> run_enabled e c"

fun run_step :: "nat \<Rightarrow> run_env \<times> run_event \<Rightarrow> control \<Rightarrow> control" where
  "run_step cap (env, PageEvent e) c = on_page (tab_step (re_maxTabs env) cap (re_page env, e)) c"
| "run_step cap (env, StartRun cmd) c = startRun env cmd c"
| "run_step cap (env, StartAnswer i a) c = startAnswered i a c"
| "run_step cap (env, StreamOpened i) c = streamOpened i c"
| "run_step cap (env, StreamChunk i) c = streamChunk i c"
| "run_step cap (env, StreamMessage i msg) c = handleRunStreamMessage env msg i c"
| "run_step cap (env, StreamRefused i message) c = streamRefused message i c"
| "run_step cap (env, StreamLost i err) c = streamLost err i c"
| "run_step cap (env, StreamEnded i) c = handleStreamEndedWithoutExit i c"
| "run_step cap (env, EndAnswer i r d) c = endCheckAnswered env i r d c"
| "run_step cap (env, StallTimer i) c = stalledTimeoutFires i c"
| "run_step cap (env, StallAnswer i r d) c = stallCheckAnswered i r d c"
| "run_step cap (env, RecoveryTimer i) c = recoveryTimerFires env i c"
| "run_step cap (env, PtyFailed i message) c = ptyAttachFailed message i c"
| "run_step cap (env, KillInTab i) c = kill_run env i c"
| "run_step cap (env, KillAnswer r a) c = killAnswered env r a c"
| "run_step cap (env, KillLost r err) c = killLost r err c"
| "run_step cap (env, KillFromMonitor run) c = killActiveRunFromMonitor env run c"
| "run_step cap (env, AnswerRunClose i idx canDetach a) c = answer_close env i idx canDetach a c"
| "run_step cap (env, RestoreRuns rs) c = restoreActiveRunsAfterReload env rs c"
| "run_step cap (env, AttachFromMonitor run) c = attachActiveRunFromMonitor env run c"
| "run_step cap (env, Poll) c = pollActiveRunsAfterReload c"
| "run_step cap (env, PollAnswer ts d) c = pollAnswered ts d c"
| "run_step cap (env, PollSettled) c = poll_settled c"
| "run_step cap (env, ResultAnswer i d) c = resultAnswered i d c"
| "run_step cap (env, RunRestored i worked) c = reconnectedRunRestored worked i c"
| "run_step cap (env, SettlingContinues r b) c = settlingContinues env r b c"

definition fresh_control :: "tabs_page \<Rightarrow> control" where
  "fresh_control p =
     \<lparr>page = p, runs = (\<lambda>i. no_run), stalledTimeouts = [], stallChecks = [], stalledRuns = [], endChecks = [],
      streamRecoveryTimers = [], killRequests = [], killsRequested = [], startRequests = [], polling = False, polls = [], resultChecks = [],
      completedKeys = [], settling = [], detachedStore = None, calls = []\<rparr>"

end
