(* ===== verification/Run_Control_Props.thy ===== *)
theory Run_Control_Props
  imports Run_Control
begin

text \<open>
  Properties of the runner: whatever it does to the tabs is a sequence of events of \<open>Tabs\<close>; a kill that is
  asked for before the run has an identifier is sent when it gets one; the end of a run is settled once,
  however often its exit is reported; a broken stream is retried at most once at a time and per tab, after
  one to five seconds.
\<close>

named_theorems page_of and follow

section \<open>The page under the handlers\<close>

lemma page_simple [page_of]:
  "page (tell cs c) = page c" "page (say l k i c) = page c" "page (on_page f c) = f (page c)" "page (put_tab i g c) = upd i g (page c)"
  "page (set_run i h c) = page c" "page (set_status i st c) = setTabStatus i st (page c)" "page (show_status st c) = page c"
  by (simp_all add: tell_def say_def on_page_def put_tab_def set_run_def set_status_def show_status_def)

lemma page_small [page_of]:
  "page (status_if_active i st c) = page c" "page (syncActiveRunTimer i c) = page c" "page (maybeNotify env cmd code e c) = page c"
  "page (settle_controls i c) = page c" "page (fail_run l k i c) = setTabStatus i ''fail'' (page c)"
  "page (writeDetachedActiveRunIds ids c) = page c" "page (markActiveRunDetachedForRestore n r c) = page c"
  "page (clearActiveRunDetachedForRestore r c) = page c" "page (pruneDetachedActiveRunRestoreIds rs c) = page c"
  by (simp_all add: status_if_active_def syncActiveRunTimer_def maybeNotify_def settle_controls_def fail_run_def
      writeDetachedActiveRunIds_def markActiveRunDetachedForRestore_def clearActiveRunDetachedForRestore_def
      pruneDetachedActiveRunRestoreIds_def page_of Let_def split: option.splits)

lemma page_timers [page_of]:
  "page (resetStalledTimeout i c) = page c" "page (clearStalledTimeout i c) = page c" "page (clearStreamRecoveryTimer i c) = page c"
  "page (add_stalled i c) = page c" "page (running_if_active i c) = page c" "page (startPollingActiveRunsAfterReload c) = page c"
  "page (stopPollingActiveRunsAfterReload c) = page c" "page (poll_settled c) = page c" "page (subscribe_stream r i u a c) = page c"
  "page (request_kill q r i c) = page c" "page (handleKillRequestFailure e i c) = page c" "page (refresh_history env c) = page c"
  by (simp_all add: resetStalledTimeout_def clearStalledTimeout_def clearStreamRecoveryTimer_def add_stalled_def
      running_if_active_def startPollingActiveRunsAfterReload_def stopPollingActiveRunsAfterReload_def poll_settled_def
      subscribe_stream_def request_kill_def handleKillRequestFailure_def refresh_history_def page_of)

lemma page_lines [page_of]:
  "page (reattach_notices env run i b c) = page c" "page (appendStreamLine env l k i m b c) = page c"
  "page (recordRunOutputCoalescing m i c) = page c" "page (note_unknown_command v i c) = page c"
  "page (clear_tab env i c) = clearTab (re_page env) False i (page c)"
  "page (set_running_command i v c) = setTabRunningCommand i (str_or v []) (page c)"
  "page (show_running i c) = setTabStatus i ''running'' (page c)"
  by (simp_all add: reattach_notices_def appendStreamLine_def recordRunOutputCoalescing_def note_unknown_command_def clear_tab_def
      set_running_command_def show_running_def page_of Let_def split: option.splits jnum.splits jsval.splits)

lemma page_fold: "(\<And>x c. page (g x c) = page c) \<Longrightarrow> page (fold g xs c) = page c"
  by (induction xs arbitrary: c) simp_all

lemma page_output [page_of]: "page (handleRunOutput env m i c) = page c" "page (handleRunOutputBatch env m i c) = page c"
  by (simp_all add: handleRunOutput_def handleRunOutputBatch_def Let_def page_of page_fold)

section \<open>Events of the tabs\<close>

text \<open>\<open>q\<close> comes from \<open>p\<close> by events of the tabs.\<close>

definition follows :: "nat \<Rightarrow> nat \<Rightarrow> tabs_page \<Rightarrow> tabs_page \<Rightarrow> bool" where
  "follows m cap p q \<longleftrightarrow> (page_ok m p \<longrightarrow> page_ok m q \<and> (\<exists>evs. run_all tab_enabled (tab_step m cap) evs p = Some q))"

lemma follows_refl [follow]: "follows m cap p p"
  unfolding follows_def by (auto intro!: exI [of _ "[]"])

lemma follows_trans: "follows m cap p q \<Longrightarrow> follows m cap q r \<Longrightarrow> follows m cap p r"
  unfolding follows_def by (metis run_all_append bind.bind_lunit)

lemma follows_event:
  assumes "page_ok m p \<Longrightarrow> tab_enabled (env, e) p"
  shows "follows m cap p (tab_step m cap (env, e) p)"
  unfolding follows_def using assms tab_strip.keeps [of m p "(env, e)" cap]
  by (auto intro!: exI [of _ "[(env, e)]"])

text \<open>An assignment to fields of a tab that are not the prompt's.\<close>

definition own_fields :: "(tab \<Rightarrow> tab) \<Rightarrow> bool" where
  "own_fields f \<longleftrightarrow> (\<forall>t. tab_id (f t) = tab_id t \<and> tab_commandHistory (f t) = tab_commandHistory t
     \<and> tab_historyNavIndex (f t) = tab_historyNavIndex t \<and> tab_historyNavDraft (f t) = tab_historyNavDraft t
     \<and> tab_draftInput (f t) = tab_draftInput t)"

lemma follows_upd:
  assumes "own_fields f"
  shows "follows m cap p (upd i f p)"
proof (cases "getTab i p")
  case None
  then have "upd i f p = p" unfolding upd_def getTab_def find_None_iff by (simp add: map_idI)
  then show ?thesis by (simp add: follow)
next
  case (Some u)
  have "follows m cap p (tab_step m cap (undefined, WriteTab (f u)) p)"
  proof (rule follows_event)
    have "put_nav (nav_of u) (f u) = f u" using assms by (simp add: own_fields_def put_nav_def nav_of_def)
    moreover have "tab_id (f u) = i" using assms getTab_id [OF Some] by (simp add: own_fields_def)
    ultimately show "tab_enabled (undefined, WriteTab (f u)) p" using Some by simp
  qed
  moreover have "upd i f p = upd (tab_id (f u)) (\<lambda>_. f u) p" if "page_ok m p"
  proof -
    have "t = u" if "t \<in> set (tabs p)" "tab_id t = i" for t
      using getTab_known [OF page_ok_parts(1) [OF \<open>page_ok m p\<close>], of i u] Some that page_ok_parts(1) [OF \<open>page_ok m p\<close>]
      by (auto simp: tab_ids_def distinct_map inj_on_def)
    then show ?thesis using assms getTab_id [OF Some] by (simp add: upd_def own_fields_def)
  qed
  ultimately show ?thesis by (auto simp: follows_def)
qed

lemma follow_upd [follow]: "own_fields f \<Longrightarrow> follows m cap p q \<Longrightarrow> follows m cap p (upd i f q)"
  by (rule follows_trans [OF _ follows_upd])

lemma follow_event: "(page_ok m q \<Longrightarrow> tab_enabled (env, e) q) \<Longrightarrow> follows m cap p q \<Longrightarrow> follows m cap p (tab_step m cap (env, e) q)"
  by (rule follows_trans [OF _ follows_event])

lemma follow_status [follow]: "follows m cap p q \<Longrightarrow> follows m cap p (setTabStatus i st q)"
  using follow_event [of m q undefined "TabStatus i st"] by simp

lemma follow_command [follow]: "follows m cap p q \<Longrightarrow> follows m cap p (setTabRunningCommand i cmd q)"
  using follow_event [of m q undefined "RunningCommand i cmd"] by simp

lemma follow_clear [follow]: "follows m cap p q \<Longrightarrow> follows m cap p (clearTab env b i q)"
  using follow_event [of m q env "ClearTab i b"] by simp

lemma follow_kill [follow]: "follows m cap p q \<Longrightarrow> follows m cap p (doKill i q)"
  using follow_event [of m q undefined "KillTab i"] by simp

lemma follow_denied [follow]: "follows m cap p q \<Longrightarrow> follows m cap p (handleKillRequestDenied i r q)"
  using follow_event [of m q undefined "KillDenied i r"] by simp

lemma follow_finalize [follow]: "follows m cap p q \<Longrightarrow> follows m cap p (finalizeClosingTab env i q)"
  using follow_event [of m q env "RunEnded i"] by simp

lemma follow_answer: "tab_enabled (env, AnswerClose i idx d a) q \<Longrightarrow> follows m cap p q \<Longrightarrow> follows m cap p (closeAnswered env i idx d a q)"
  using follow_event [of m q env "AnswerClose i idx d a"] by simp

lemma follow_create: "follows m cap p q \<Longrightarrow> follows m cap p (fst (createTab env m l q))"
  using follow_event [of m q env "tab_event.NewTab l"] by simp

lemma follow_activate: "(page_ok m q \<Longrightarrow> i \<in> set (tab_ids q)) \<Longrightarrow> follows m cap p q \<Longrightarrow> follows m cap p (activateTab env i q)"
  using follow_event [of m q env "ActivateTab i"] by simp

lemma follow_marked [follow]: "follows m cap p q \<Longrightarrow> follows m cap p (markTabKilledByUser i q)"
  unfolding markTabKilledByUser_def by (intro follow) (simp_all add: own_fields_def)


lemma own_fields_all [simp]:
  "own_fields (attach_fields env run r am)" "own_fields (start_fields env)" "own_fields (exit_fields msg)"
  by (simp_all add: own_fields_def attach_fields_def start_fields_def exit_fields_def)

lemma own_fields_lambda [simp]:
  "own_fields (\<lambda>t. t\<lparr>tab_currentRunStartIndex := k t\<rparr>)" "own_fields (\<lambda>t. t\<lparr>tab_lastEventId := e t\<rparr>)"
  "own_fields (\<lambda>t. t\<lparr>tab_lastEventId := e t, tab_currentRunStartIndex := k t\<rparr>)" "own_fields (\<lambda>t. t\<lparr>tab_reconnectedRun := b\<rparr>)"
  "own_fields (\<lambda>t. t\<lparr>tab_reconnectedRun := b, tab_runId := r\<rparr>)" "own_fields (\<lambda>t. t\<lparr>tab_runId := r\<rparr>)"
  "own_fields (\<lambda>t. t\<lparr>tab_killed := b\<rparr>)" "own_fields (\<lambda>t. t\<lparr>tab_killed := b, tab_pendingKill := b'\<rparr>)"
  "own_fields (\<lambda>t. t\<lparr>tab_pendingKill := b, tab_runId := r\<rparr>)" "own_fields (\<lambda>t. t\<lparr>tab_attachMode := a t\<rparr>)"
  "own_fields (\<lambda>t. t\<lparr>tab_attachMode := a t, tab_killed := b, tab_pendingKill := b'\<rparr>)"
  "own_fields (\<lambda>t. t\<lparr>tab_runId := r, tab_historyRunId := h, tab_historyRunKind := hk, tab_lastEventId := e t, tab_reconnectedRun := b\<rparr>)"
  "own_fields (\<lambda>t. t\<lparr>tab_runId := r, tab_historyRunId := h, tab_historyRunKind := hk, tab_reconnectedRun := b\<rparr>)"
  "own_fields (\<lambda>t. t\<lparr>tab_runId := rr t, tab_killed := b, tab_pendingKill := b'\<rparr>)"
  "own_fields (\<lambda>t. t\<lparr>tab_exitCode := x, tab_runId := r, tab_reconnectedRun := b, tab_lastEventId := l, tab_attachMode := am\<rparr>)"
  by (simp_all add: own_fields_def)

section \<open>The handlers refine the tabs\<close>

lemma sim_reattach [follow]:
  "follows m cap p (page c) \<Longrightarrow> follows m cap p (page (reattachActiveRunToTab env run i aft b am k c))"
  by (auto simp: reattachActiveRunToTab_def Let_def page_of intro!: follow split: option.splits)

lemma sim_recover [follow]: "follows m cap p (page c) \<Longrightarrow> follows m cap p (page (recover_stream env run i aft am c))"
  by (auto simp: recover_stream_def Let_def page_of intro!: follow split: option.splits)

lemma sim_schedule [follow]:
  "follows m cap p (page c) \<Longrightarrow> follows m cap p (page (scheduleActiveRunStreamRecovery env run i aft am c))"
  by (auto simp: scheduleActiveRunStreamRecovery_def Let_def page_of intro!: follow)

lemma sim_streams [follow]:
  assumes "follows m cap p (page c)"
  shows "follows m cap p (page (recoverStalledRun i c))" "follows m cap p (page (markStalledButRunning i c))"
    "follows m cap p (page (markStalledAndInactive i c))" "follows m cap p (page (stalledTimeoutFires i c))"
    "follows m cap p (page (recoveryTimerFires env i c))" "follows m cap p (page (handleStreamEndedWithoutExit i c))"
    "follows m cap p (page (ptyAttachFailed msg i c))"
  using assms
  by (auto simp: recoverStalledRun_def markStalledButRunning_def markStalledAndInactive_def stalledTimeoutFires_def
      recoveryTimerFires_def handleStreamEndedWithoutExit_def ptyAttachFailed_def Let_def page_of intro!: follow split: option.splits)

lemma sim_answers [follow]:
  assumes "follows m cap p (page c)"
  shows "follows m cap p (page (stallCheckAnswered i g d c))" "follows m cap p (page (endCheckAnswered env i r d c))"
proof -
  have "follows m cap p (page (c\<lparr>stallChecks := x\<rparr>))" "follows m cap p (page (c\<lparr>endChecks := y\<rparr>))" for x y using assms by simp_all
  then show "follows m cap p (page (stallCheckAnswered i g d c))" "follows m cap p (page (endCheckAnswered env i r d c))"
    by (auto simp: stallCheckAnswered_def endCheckAnswered_def Let_def page_of intro!: follow split: option.splits)
qed


text \<open>Reattaching keeps the tabs there are; the tab found or created for a run is one of them.\<close>

lemma shape_own: "own_fields f \<Longrightarrow> shape (upd i f p) = shape p"
  by (rule shape_upd) (simp add: own_fields_def)

lemma shape_reattach: "shape (page (reattachActiveRunToTab env run i aft b am k c)) = shape (page c)"
  by (auto simp: reattachActiveRunToTab_def Let_def page_of tab_frame shape_own split: option.splits)

lemma ids_attach_or_pty: "tab_ids (page (attach_or_pty env run i aft am k c)) = tab_ids (page c)"
  using shape_reattach [of env run i aft False am k c] by (simp add: attach_or_pty_def shape_def page_of)

lemma ids_activate: "tab_ids (activateTab env i p) = tab_ids p"
  using shape_activate [of env i p] by (simp add: shape_def activated_def)

lemma ids_create: "createTab env m l p = (q, r) \<Longrightarrow> set (tab_ids p) \<subseteq> set (tab_ids q) \<and> (\<forall>i. r = Some i \<longrightarrow> i \<in> set (tab_ids q))"
proof (cases "at_limit m p")
  case False
  let ?i = "tab_name (Suc (tabSeq p))"
  let ?p = "p\<lparr>tabSeq := Suc (tabSeq p), tabBar := insert_before (Some ?i) None (tabBar p),
    tabs := tabs p @ [new_tab ?i (str_default l (createDefaultTabLabel None p))]\<rparr>"
  assume "createTab env m l p = (q, r)"
  then have "q = activateTab env ?i ?p" "r = Some ?i" using False by (auto simp: createTab_def Let_def)
  moreover have "tab_ids ?p = tab_ids p @ [?i]" by (simp add: tab_ids_def new_tab_def)
  ultimately show ?thesis by (simp only: ids_activate) auto
qed (simp add: createTab_def)

lemma tab_for_restore_parts:
  assumes "tab_for_restore env n c = (d, r)"
  shows "(d = c \<and> (\<exists>t. tabs (page c) = [t] \<and> r = Some (tab_id t)))
    \<or> (\<exists>q. createTab (re_page env) (re_maxTabs env) [] (page c) = (q, r) \<and> d = c\<lparr>page := q\<rparr>)"
  using assms by (auto simp: tab_for_restore_def split: nat.splits list.splits prod.splits if_splits)

lemma ids_for_restore:
  assumes "tab_for_restore env n c = (d, r)"
  shows "set (tab_ids (page c)) \<subseteq> set (tab_ids (page d))" "r = Some i \<Longrightarrow> i \<in> set (tab_ids (page d))"
  using tab_for_restore_parts [OF assms] ids_create [of "re_page env" "re_maxTabs env" "[]" "page c"]
  by (fastforce simp: tab_ids_def [of "page c"])+

definition restoring :: "nat \<Rightarrow> nat \<Rightarrow> tabs_page \<Rightarrow> control \<times> string option \<Rightarrow> bool" where
  "restoring m cap p s \<longleftrightarrow> follows m cap p (page (fst s)) \<and> (\<forall>i. snd s = Some i \<longrightarrow> i \<in> set (tab_ids (page (fst s))))"

lemma known_tab: "tab_of i c = Some t \<Longrightarrow> tab_id t \<in> set (tab_ids (page c))"
  by (metis tab_of_def getTab_id getTab_None option.distinct(1))

lemma tab_for_run_known: "tabForActiveRunId r c = Some t \<Longrightarrow> tab_id t \<in> set (tab_ids (page c))"
  by (auto simp: tabForActiveRunId_def find_Some_iff tab_ids_def split: if_splits)

lemma restore_tab_known: "activeRunTabForRestore run c = Some t \<Longrightarrow> tab_id t \<in> set (tab_ids (page c))"
  by (auto simp: activeRunTabForRestore_def Let_def known_tab tab_for_run_known split: if_splits option.splits)

lemma sim_attach_or_pty [follow]: "follows m cap p (page c) \<Longrightarrow> follows m cap p (page (attach_or_pty env run i aft am k c))"
  by (simp add: attach_or_pty_def page_of follow)

lemma sim_for_restore:
  assumes "tab_for_restore env n c = (d, r)" "re_maxTabs env = m" "follows m cap p (page c)"
  shows "follows m cap p (page d)"
  using tab_for_restore_parts [OF assms(1)] assms(2,3) follow_create [OF assms(3), of "re_page env" "[]"] by auto

lemma restoring_step:
  assumes "restoring m cap p s" "re_maxTabs env = m"
  shows "restoring m cap p (restore_run env it s)"
proof (cases "activeRunTabForRestore (snd it) (fst s)")
  case (Some t)
  then show ?thesis using assms restore_tab_known [OF Some]
    by (cases it; cases s) (auto simp: restoring_def restore_run_def ids_attach_or_pty intro!: follow)
next
  case None
  obtain d r where d: "tab_for_restore env (fst it) (fst s) = (d, r)" by fastforce
  show ?thesis
    using assms None d ids_for_restore [OF d] sim_for_restore [OF d assms(2)]
    by (cases it; cases s; cases r) (auto simp: restoring_def restore_run_def ids_attach_or_pty intro!: follow)
qed

lemma restoring_all: "restoring m cap p s \<Longrightarrow> re_maxTabs env = m \<Longrightarrow> restoring m cap p (fold (restore_run env) items s)"
  by (induction items arbitrary: s) (simp_all add: restoring_step)

lemma sim_restore:
  assumes "re_maxTabs env = m"
  shows "follows m cap (page c) (page (restoreActiveRunsAfterReload env rs c))"
proof -
  let ?c = "pruneDetachedActiveRunRestoreIds (filter truthy (map (\<lambda>run. jprop run ''run_id'') (arr_items rs))) c"
  let ?items = "filter (shouldAutoRestoreActiveRun env ?c) (arr_items rs)"
  obtain d r where d: "fold (restore_run env) (enumerate 0 ?items) (?c, None) = (d, r)" by fastforce
  have "restoring m cap (page c) (?c, None)" by (simp add: restoring_def page_of follow)
  from restoring_all [OF this assms] have "restoring m cap (page c) (d, r)" using d by metis
  then have s: "follows m cap (page c) (page d)" "\<And>i. r = Some i \<Longrightarrow> i \<in> set (tab_ids (page d))" by (auto simp: restoring_def)
  show ?thesis
    using s follow_activate [of m "page d" _ cap "page c" "re_page env"] d
    by (auto simp: restoreActiveRunsAfterReload_def Let_def page_of follow split: option.splits)
qed

lemma sim_attach [follow]: "follows m cap p (page c) \<Longrightarrow> follows m cap p (page (attachActiveRunToTab env run i am c))"
  by (auto simp: attachActiveRunToTab_def Let_def page_of intro!: follow)

lemma sim_monitor:
  assumes "re_maxTabs env = m"
  shows "follows m cap (page c) (page (attachActiveRunFromMonitor env run c))"
proof -
  obtain q r where q: "createTab (re_page env) m [] (page c) = (q, r)" by fastforce
  have f: "follows m cap (page c) q" using follow_create [OF follows_refl, of m cap "page c" "re_page env" "[]"] q by simp
  have "follows m cap (page c) (activateTab (re_page env) i q)" if "r = Some i" for i
    using ids_create [OF q] that by (intro follow_activate [OF _ f]) simp
  then show ?thesis
    using assms q f by (auto simp: attachActiveRunFromMonitor_def page_of intro!: follow split: option.splits)
qed


section \<open>Kills and closings\<close>

lemma upd_twice: "(\<And>t. tab_id (g t) = tab_id t) \<Longrightarrow> upd i f (upd i g p) = upd i (f \<circ> g) p"
  by (simp add: upd_def)

lemma upd_missing: "getTab i p = None \<Longrightarrow> upd i f p = p"
  unfolding upd_def getTab_def find_None_iff by (simp add: map_idI)

lemma mark_missing: "getTab i p = None \<Longrightarrow> markTabKilledByUser i p = p"
  by (simp add: markTabKilledByUser_def setTabStatus_def upd_missing)

lemma mark_twice: "markTabKilledByUser i (markTabKilledByUser i p) = markTabKilledByUser i p"
  by (simp add: markTabKilledByUser_def setTabStatus_def clearRunningLabelTimer_def upd_twice comp_def Let_def)

lemma page_mark_killed [page_of]: "page (mark_killed env i secs b c) = markTabKilledByUser i (page c)"
  by (simp add: mark_killed_def page_of Let_def tab_of_def mark_missing split: option.split)

lemma page_kill_run [page_of]: "page (kill_run env i c) = doKill i (page c)"
  by (simp add: kill_run_def page_of Let_def tab_of_def doKill_def mark_twice split: option.split)

lemma page_close_and_kill: "page (close_and_kill env i idx c) = deferRunningTabCloseForKill (re_page env) i idx (page c)"
  by (simp add: close_and_kill_def deferRunningTabCloseForKill_def Let_def page_of is_active_def split: option.split)

lemma tab_at_getTab: "distinct (tab_ids p) \<Longrightarrow> tab_at (tab_index i p) p = getTab i p"
proof (cases "i \<in> set (tab_ids p)")
  case True
  then show "distinct (tab_ids p) \<Longrightarrow> ?thesis" using tab_at_index [OF True] by (metis getTab_known nth_mem)
next
  case False
  then show ?thesis using tab_index_missing [OF False] getTab_None [of i p] by metis
qed

lemma page_detach_and_close:
  "distinct (tab_ids (page c)) \<Longrightarrow> page (detach_and_close env i c) = detachRunningTabAndClose (re_page env) i (page c)"
  by (simp add: detach_and_close_def detachRunningTabAndClose_def Let_def page_of tab_of_def tab_at_getTab split: option.split)

lemma page_answer_close:
  "distinct (tab_ids (page c)) \<Longrightarrow> page (answer_close env i idx d a c) = closeAnswered (re_page env) i idx d a (page c)"
  by (cases a) (simp_all add: answer_close_def closeAnswered_def Let_def page_of page_close_and_kill page_detach_and_close tab_ids_def)


lemma sim_close:
  assumes "tab_enabled (re_page env, AnswerClose i idx d a) (page c)"
  shows "follows m cap (page c) (page (answer_close env i idx d a c))"
  using follow_answer [OF assms follows_refl, of m cap] page_answer_close [OF page_ok_parts(1), of m c env i idx d a]
  by (auto simp: follows_def)

lemma sim_kills [follow]:
  assumes "follows m cap p (page c)"
  shows "follows m cap p (page (killAnswered env r a c))" "follows m cap p (page (killLost r e c))"
    "follows m cap p (page (killActiveRunFromMonitor env run c))"
  using assms
  by (auto simp: killAnswered_def killLost_def killActiveRunFromMonitor_def kill_denied_def Let_def page_of intro!: follow
      split: kill_request.split kill_answer.split option.split)

section \<open>Messages and answers\<close>

lemma page_if: "page (if b then x else y) = (if b then page x else page y)"
  by simp

lemma page_refresh [page_of]: "page (after_refresh env r c) = page c"
  by (simp add: after_refresh_def Let_def page_of page_if cong: if_cong)

lemma page_variables [page_of]: "page (after_variables env r c) = page c"
  by (simp add: after_variables_def page_of)

lemma page_after [page_of]: "page (afterCompletedCommand env r c) = page c" "page (settlingContinues env r b c) = page c"
  "page (renderCompletedCommandLine l r c) = page c"
  by (simp_all add: afterCompletedCommand_def settlingContinues_def renderCompletedCommandLine_def Let_def page_of)

lemma sim_completion_event [follow]: "follows m cap p (page c) \<Longrightarrow> follows m cap p (page (completion_event env r e c))"
  by (cases e) (auto simp: page_of applyCompletedCommandStatus_def Let_def intro!: follow)

lemma sim_completion_events: "follows m cap p (page c) \<Longrightarrow> follows m cap p (page (fold (completion_event env r) evs c))"
  by (induction evs arbitrary: c) (simp_all add: follow)

lemma sim_complete [follow]: "follows m cap p (page c) \<Longrightarrow> follows m cap p (page (completeTerminalCommand env r c))"
  by (simp add: completeTerminalCommand_def sim_completion_events split: prod.split)

lemma sim_exit [follow]:
  assumes "follows m cap p (page c)"
  shows "follows m cap p (page (exit_prologue msg i c))" "follows m cap p (page (exit_killed env i b c))"
    "follows m cap p (page (exit_shown env msg i c))"
  using assms by (auto simp: exit_prologue_def exit_killed_def exit_shown_def Let_def page_of intro!: follow)

lemma sim_messages [follow]:
  assumes "follows m cap p (page c)"
  shows "follows m cap p (page (handleRunExit env msg i c))" "follows m cap p (page (markTabRunStarted i r c))"
    "follows m cap p (page (handleRunNotice env msg i c))" "follows m cap p (page (handleRunOwnerChanged env msg i c))"
    "follows m cap p (page (handleRunKilled env msg i c))" "follows m cap p (page (handleRunClear env i c))"
    "follows m cap p (page (handleRunError msg i c))"
  using assms
  by (auto simp: handleRunExit_def markTabRunStarted_def handleRunNotice_def handleRunOwnerChanged_def handleRunKilled_def
      handleRunClear_def handleRunError_def Let_def page_of intro!: follow split: option.split)

lemma sim_stream_message [follow]:
  assumes "follows m cap p (page c)"
  shows "follows m cap p (page (handleRunStreamMessage env msg i c))"
proof -
  let ?d = "if truthy (jprop msg ''event_id'') then put_tab i (\<lambda>t. t\<lparr>tab_lastEventId := to_str (jprop msg ''event_id'')\<rparr>) c else c"
  have "follows m cap p (page ?d)" using assms by (simp add: page_of follow)
  from sim_messages [OF this] this assms show ?thesis by (simp add: handleRunStreamMessage_def Let_def page_of)
qed

lemma sim_start:
  "follows m cap (page c) (page (startRun env cmd c))" "follows m cap (page c) (page (startAnswered i a c))"
  by (auto simp: startRun_def startAnswered_def fail_start_def handleRunTransportFailure_def Let_def page_of intro!: follow
      split: option.split start_answer.split)

lemma sim_polls [follow]:
  assumes "follows m cap p (page c)"
  shows "follows m cap p (page (pollActiveRunsAfterReload c))" "follows m cap p (page (pollAnswered ts d c))"
    "follows m cap p (page (resultAnswered i d c))" "follows m cap p (page (reconnectedRunRestored w i c))"
  using assms
  by (auto simp: pollActiveRunsAfterReload_def pollAnswered_def resultAnswered_def markReconnectedRunUnavailable_def
      reconnectedRunRestored_def stop_if_active_def Let_def page_of intro!: follow split: option.split)

lemma sim_step:
  assumes "run_possible m (env, e) c"
  shows "follows m cap (page c) (page (run_step cap (env, e) c))"
proof (cases e)
  case (PageEvent te)
  then show ?thesis using assms follows_event [of m "page c" "re_page env" te cap] by (simp add: run_possible_def page_of)
next
  case (RestoreRuns rs)
  then show ?thesis using assms sim_restore by (simp add: run_possible_def)
next
  case (AttachFromMonitor run)
  then show ?thesis using assms sim_monitor by (simp add: run_possible_def)
next
  case (AnswerRunClose i idx d a)
  then show ?thesis using assms by (simp add: run_possible_def sim_close del: tab_enabled.simps)
qed (simp_all add: sim_start page_of follow streamOpened_def streamChunk_def streamRefused_def streamLost_def)

lemma sim_run:
  "run_all (run_possible m) (run_step cap) evs c = Some d \<Longrightarrow> follows m cap (page c) (page d)"
proof (induction evs arbitrary: c)
  case (Cons e evs)
  then show ?case using follows_trans [OF sim_step [of m "fst e" "snd e" c cap]] by (cases e) (auto split: if_splits)
qed (simp add: follow)


section \<open>A kill that waits for the identifier of its run\<close>

definition pend :: "string \<Rightarrow> tabs_page \<Rightarrow> bool" where
  "pend a p \<longleftrightarrow> (\<exists>t \<in> set (tabs p). tab_id t = a \<and> tab_killed t \<and> tab_pendingKill t)"

text \<open>Assignments that leave a waiting kill alone, and assignments to other tabs.\<close>

definition spares :: "string \<Rightarrow> string \<Rightarrow> (tab \<Rightarrow> tab) \<Rightarrow> bool" where
  "spares a i f \<longleftrightarrow> (\<forall>t. tab_id (f t) = tab_id t \<and> (a = i \<longrightarrow> tab_killed t \<longrightarrow> tab_pendingKill t \<longrightarrow> tab_killed (f t) \<and> tab_pendingKill (f t)))"

named_theorems waits

lemma pend_upd [waits]: "spares a i f \<Longrightarrow> pend a p \<Longrightarrow> pend a (upd i f p)"
proof -
  assume f: "spares a i f" and "pend a p"
  then obtain t where "t \<in> set (tabs p)" "tab_id t = a" "tab_killed t" "tab_pendingKill t" by (auto simp: pend_def)
  then show "pend a (upd i f p)"
    using f unfolding pend_def upd_def spares_def by (intro bexI [of _ "if tab_id t = i then f t else t"]) auto
qed

lemma pend_fields [simp]:
  "pend a (p\<lparr>prompt := x1\<rparr>) = pend a p" "pend a (p\<lparr>activeTabId := x2\<rparr>) = pend a p" "pend a (p\<lparr>closeConfirms := x3\<rparr>) = pend a p"
  "pend a (p\<lparr>killsSent := x4\<rparr>) = pend a p" "pend a (p\<lparr>dragState := x5\<rparr>) = pend a p" "pend a (p\<lparr>tabBar := x6\<rparr>) = pend a p"
  by (simp_all add: pend_def)

lemma pend_small [waits]:
  assumes "pend a p"
  shows "pend a (setTabStatus i st p)" "pend a (setTabLabel i l p)" "pend a (commitRename i l v p)" "pend a (setTabRunningCommand i cmd p)"
    "pend a (runningLabelTimerFires i p)" "pend a (markTabKilledByUser i p)" "pend a (doKill i p)" "pend a (flush_draft prev i p)"
    "pend a (with_prompt g p)"
  using assms
  by (auto simp: setTabStatus_def setTabLabel_def commitRename_def setTabRunningCommand_def runningLabelTimerFires_def
      clearRunningLabelTimer_def markTabKilledByUser_def doKill_def flush_draft_def with_prompt_def put_nav_def spares_def Let_def
      intro!: waits split: option.splits)

lemma pend_activate [waits]: "pend a p \<Longrightarrow> pend a (activateTab env i p)"
  by (simp add: activateTab_def Let_def waits)

lemma pend_clear [waits]: "pend a p \<Longrightarrow> pend a (clearTab env b i p)"
  by (simp add: clearTab_def Let_def waits spares_def clear_fields_def clearRunningLabelTimer_def)

lemma pend_create [waits]: "pend a p \<Longrightarrow> pend a (fst (createTab env m l p))"
proof (cases "at_limit m p")
  case False
  assume "pend a p"
  then have "pend a (p\<lparr>tabSeq := n, tabBar := bar, tabs := tabs p @ [t]\<rparr>)" for n bar t by (auto simp: pend_def)
  with False show ?thesis by (simp add: createTab_def Let_def waits)
qed (simp add: createTab_def)

lemma pend_opt [waits]: "pend a p \<Longrightarrow> pend a (activate_opt env next p)"
  by (simp add: activate_opt_def waits split: option.split)

lemma pend_remove:
  assumes "page_ok m p" "i \<in> set (tab_ids p)" "i \<noteq> a" "pend a p"
  shows "pend a (removeClosedTabView env i (tab_index i p) p)"
proof -
  have "pend a (drop_view i (tab_index i p) p)"
    using drop_view_known [OF assms(2) page_ok_parts(1) [OF assms(1)]] assms(3,4) by (auto simp: pend_def)
  then show ?thesis by (simp add: removeClosedTabView_def activateNeighborAfterClose_def waits)
qed

text \<open>With the waiting tab there is another one: the last tab is not the one that is closed.\<close>

lemma pend_two: "i \<in> set (tab_ids p) \<Longrightarrow> i \<noteq> a \<Longrightarrow> pend a p \<Longrightarrow> length (tabs p) \<noteq> 1"
  by (auto simp: pend_def tab_ids_def length_Suc_conv)

lemma pend_close:
  assumes "page_ok m p" "i \<in> set (tab_ids p)" "i \<noteq> a" "pend a p"
  shows "pend a (closeTab env i p)"
proof -
  let ?u = "upd i (\<lambda>t. t\<lparr>tab_suppressOutputScrollTracking := False, tab_deferPromptMount := False\<rparr>) p"
  have u: "page_ok m ?u" "i \<in> set (tab_ids ?u)" "tab_index i ?u = tab_index i p" "pend a ?u"
    using assms by (simp_all add: upd_known waits spares_def)
  then have "length (tabs ?u) \<noteq> 1" using pend_two assms(3) by blast
  then show ?thesis using u pend_remove [OF u(1,2) assms(3) u(4)]
    by (auto simp: closeTab_def confirmCloseRunningTab_def Let_def split: option.splits)
qed

lemma pend_detach:
  assumes "page_ok m p" "i \<noteq> a" "pend a p"
  shows "pend a (detachRunningTabAndClose env i p)"
proof (cases "tab_at (tab_index i p) p")
  case (Some t)
  let ?u = "upd i (\<lambda>t. t\<lparr>tab_closing := False\<rparr>) p"
  have u: "page_ok m ?u" "i \<in> set (tab_ids ?u)" "tab_index i ?u = tab_index i p" "pend a ?u"
    using assms tab_at_known [OF Some] by (simp_all add: upd_known waits spares_def)
  then have "length (tabs ?u) \<noteq> 1" using pend_two assms(2) by blast
  then show ?thesis using u pend_remove [OF u(1,2) assms(2) u(4)] Some assms(3) by (auto simp: detachRunningTabAndClose_def Let_def)
qed (use assms in \<open>simp add: detachRunningTabAndClose_def\<close>)

lemma pend_finalize:
  assumes "page_ok m p" "i \<noteq> a" "pend a p"
  shows "pend a (finalizeClosingTab env i p)"
proof (cases "tab_at (tab_index i p) p")
  case (Some t)
  then have "i \<in> set (tab_ids p)" using tab_at_known by blast
  then show ?thesis
    using assms finalize_removes [OF assms(1) Some, of env] pend_remove [OF assms(1) _ assms(2,3), of env] pend_two [of i p a] Some
    by (cases "tab_closing t") (auto simp: finalizeClosingTab_def Let_def)
qed (use assms in \<open>simp add: finalizeClosingTab_def\<close>)

lemma pend_defer [waits]:
  assumes "pend a p"
  shows "pend a (deferRunningTabCloseForKill env i idx p)"
proof (cases "tab_at idx p")
  case (Some t)
  have "pend a (p\<lparr>tabs := (tabs p)[nat idx := t\<lparr>tab_closing := True\<rparr>]\<rparr>)"
  proof -
    obtain u where u: "u \<in> set (tabs p)" "tab_id u = a" "tab_killed u" "tab_pendingKill u" using assms by (auto simp: pend_def)
    obtain k where k: "k < length (tabs p)" "tabs p ! k = u" using u(1) by (auto simp: in_set_conv_nth)
    have "t = tabs p ! nat idx" "nat idx < length (tabs p)" using Some by (auto simp: tab_at_def split: if_splits)
    then have "(tabs p)[nat idx := t\<lparr>tab_closing := True\<rparr>] ! k = (if k = nat idx then u\<lparr>tab_closing := True\<rparr> else u)" using k by auto
    moreover have "(tabs p)[nat idx := t\<lparr>tab_closing := True\<rparr>] ! k \<in> set ((tabs p)[nat idx := t\<lparr>tab_closing := True\<rparr>])" using k(1) by simp
    ultimately show ?thesis using u unfolding pend_def by (intro bexI [of _ "(tabs p)[nat idx := t\<lparr>tab_closing := True\<rparr>] ! k"]) auto
  qed
  then show ?thesis using assms Some by (auto simp: deferRunningTabCloseForKill_def Let_def intro!: waits)
qed (use assms in \<open>simp add: deferRunningTabCloseForKill_def\<close>)

lemma pend_sync: "page_ok m p \<Longrightarrow> pend a p \<Longrightarrow> pend a (syncTabOrderFromDom p)"
  using sync_permutes [of p] page_ok_parts [of m p] by (metis mset_eq_setD pend_def)


text \<open>The events that concern a tab in a way that may take its waiting kill back: the answer to its start, the messages of
  its stream, a new attachment to a run, the answer to a kill request, closing it, and a write by another component.\<close>

fun kill_of :: "kill_request \<Rightarrow> string" where
  "kill_of (KillRequest r i secs q) = i"
| "kill_of (LateKill r i) = i"

fun touches :: "string \<Rightarrow> run_event \<Rightarrow> bool" where
  "touches a (PageEvent (WriteTab t)) = (tab_id t = a)"
| "touches a (PageEvent (tab_event.CloseTab i)) = (i = a)"
| "touches a (StartAnswer i x) = (i = a)"
| "touches a (StreamMessage i msg) = (i = a)"
| "touches a (EndAnswer i r d) = (i = a)"
| "touches a (RecoveryTimer i) = (i = a)"
| "touches a (KillAnswer r x) = (kill_of r = a)"
| "touches a (AnswerRunClose i idx d x) = (i = a)"
| "touches a (RestoreRuns rs) = True"
| "touches a e = False"

lemma spares_other: "own_fields f \<Longrightarrow> i \<noteq> a \<Longrightarrow> spares a i f"
  by (simp add: spares_def own_fields_def)

lemma pend_reattach [waits]: "i \<noteq> a \<Longrightarrow> pend a (page c) \<Longrightarrow> pend a (page (reattachActiveRunToTab env run i aft b am k c))"
  by (auto simp: reattachActiveRunToTab_def Let_def page_of intro!: waits spares_other split: option.splits)

lemma pend_recover [waits]: "i \<noteq> a \<Longrightarrow> pend a (page c) \<Longrightarrow> pend a (page (recover_stream env run i aft am c))"
  by (auto simp: recover_stream_def Let_def page_of intro!: waits split: option.splits)

lemma pend_schedule [waits]: "i \<noteq> a \<Longrightarrow> pend a (page c) \<Longrightarrow> pend a (page (scheduleActiveRunStreamRecovery env run i aft am c))"
  by (auto simp: scheduleActiveRunStreamRecovery_def Let_def page_of intro!: waits)

lemma pend_streams [waits]:
  assumes "pend a (page c)"
  shows "pend a (page (recoverStalledRun i c))" "pend a (page (markStalledButRunning i c))" "pend a (page (markStalledAndInactive i c))"
    "pend a (page (stalledTimeoutFires i c))" "pend a (page (handleStreamEndedWithoutExit i c))" "pend a (page (ptyAttachFailed msg i c))"
    "i \<noteq> a \<Longrightarrow> pend a (page (recoveryTimerFires env i c))"
  using assms
  by (auto simp: recoverStalledRun_def markStalledButRunning_def markStalledAndInactive_def stalledTimeoutFires_def
      recoveryTimerFires_def handleStreamEndedWithoutExit_def ptyAttachFailed_def Let_def page_of intro!: waits split: option.splits)

lemma pend_answers [waits]:
  assumes "pend a (page c)"
  shows "pend a (page (stallCheckAnswered i g d c))" "i \<noteq> a \<Longrightarrow> pend a (page (endCheckAnswered env i r d c))"
proof -
  have "pend a (page (c\<lparr>stallChecks := x\<rparr>))" "pend a (page (c\<lparr>endChecks := y\<rparr>))" for x y using assms by simp_all
  then show "pend a (page (stallCheckAnswered i g d c))" "i \<noteq> a \<Longrightarrow> pend a (page (endCheckAnswered env i r d c))"
    by (auto simp: stallCheckAnswered_def endCheckAnswered_def Let_def page_of intro!: waits split: option.splits)
qed

lemma pend_attach [waits]: "i \<noteq> a \<Longrightarrow> pend a (page c) \<Longrightarrow> pend a (page (attachActiveRunToTab env run i am c))"
  by (auto simp: attachActiveRunToTab_def Let_def page_of intro!: waits spares_other)

lemma created_is_new:
  assumes "page_ok m p" "createTab env n l p = (q, Some i)"
  shows "i \<notin> set (tab_ids p)"
  using assms(2) page_ok_parts(7) [OF assms(1), of i] by (auto simp: createTab_def Let_def tab_name_inj split: if_splits)

lemma pend_known: "pend a p \<Longrightarrow> a \<in> set (tab_ids p)"
  by (auto simp: pend_def tab_ids_def)

lemma pend_monitor:
  assumes "page_ok m (page c)" "pend a (page c)"
  shows "pend a (page (attachActiveRunFromMonitor env run c))"
proof -
  obtain q r where q: "createTab (re_page env) (re_maxTabs env) [] (page c) = (q, r)" by fastforce
  have "pend a q" using pend_create [OF assms(2), of "re_page env" "re_maxTabs env" "[]"] q by simp
  moreover have "i \<noteq> a" if "r = Some i" for i using created_is_new [OF assms(1)] q that pend_known [OF assms(2)] by blast
  ultimately show ?thesis using assms(2) q
    by (auto simp: attachActiveRunFromMonitor_def page_of intro!: waits split: option.splits)
qed

lemma pend_kills [waits]:
  assumes "pend a (page c)"
  shows "kill_of r \<noteq> a \<Longrightarrow> pend a (page (killAnswered env r x c))" "pend a (page (killLost r e c))"
    "pend a (page (killActiveRunFromMonitor env run c))"
  using assms
  by (auto simp: killAnswered_def killLost_def killActiveRunFromMonitor_def kill_denied_def handleKillRequestDenied_def Let_def page_of
      intro!: waits spares_other split: kill_request.split kill_answer.split option.split)

lemma pend_answer_close:
  assumes "page_ok m (page c)" "i \<noteq> a" "pend a (page c)"
  shows "pend a (page (answer_close env i idx d x c))"
proof -
  have "page_ok m (page c\<lparr>closeConfirms := y\<rparr>)" for y using assms(1) by (simp add: tab_frame)
  then show ?thesis unfolding page_answer_close [OF page_ok_parts(1) [OF assms(1)]] closeAnswered_def Let_def
    using assms(3) by (cases x) (auto intro!: waits pend_detach [OF _ assms(2)])
qed

lemma pend_completion_event: "pend a (page c) \<Longrightarrow> cr_tabId r \<noteq> a \<Longrightarrow> pend a (page (completion_event env r e c))"
  by (cases e) (auto simp: page_of applyCompletedCommandStatus_def Let_def intro!: waits spares_other)

lemma pend_completion_events:
  "pend a (page c) \<Longrightarrow> cr_tabId r \<noteq> a \<Longrightarrow> pend a (page (fold (completion_event env r) evs c))"
  by (induction evs arbitrary: c) (simp_all add: pend_completion_event)


lemma exit_object_get:
  "obj_get (exit_object env msg i tab x) ''tabId'' = JStr i" "obj_get (exit_object env msg i tab x) ''source'' = JStr ''server''"
  "obj_get (exit_object env msg i tab x) ''completionKey'' = JStr (completion_key tab msg i)"
  "obj_get (exit_object env msg i tab x) ''lines'' = JArr (exit_result_lines env msg)"
  "obj_get (exit_object env msg i tab x) ''persistence'' = JStr ''server''"
  "obj_get (exit_object env msg i tab x) ''renderExit'' = JBool True"
  "obj_get (exit_object env msg i tab x) ''suppressExitLine'' = JBool (tab \<noteq> None \<and> tr_syntheticClear x \<and> to_num (jprop msg ''code'') = Fin 0)"
  by (simp_all add: exit_object_def Let_def obj_get_def)

text \<open>The fields of a normalised object, without defaults.\<close>

lemma normal_fields:
  "cr_tabId (normalizeCommandResult (JObj kvs) (JObj [])) = pick_str (JObj kvs) (JObj []) ''tabId'' []"
  "cr_source (normalizeCommandResult (JObj kvs) (JObj [])) = str_or (pick_or (JObj kvs) (JObj []) ''source'') ''browser''"
  "cr_renderExit (normalizeCommandResult (JObj kvs) (JObj [])) = (pick (JObj kvs) (JObj []) ''renderExit'' = JBool True)"
  "cr_suppressExitLine (normalizeCommandResult (JObj kvs) (JObj [])) = (pick (JObj kvs) (JObj []) ''suppressExitLine'' = JBool True)"
  "cr_persistence (normalizeCommandResult (JObj kvs) (JObj [])) =
     normalizePersistence (toLowerCase (str_or (pick_or (JObj kvs) (JObj []) ''persistence'') ''none''))"
  "is_arr (obj_get kvs ''lines'') \<Longrightarrow>
   cr_lines (normalizeCommandResult (JObj kvs) (JObj [])) = map normalizeCommandLine (arr_items (obj_get kvs ''lines''))"
  "obj_get kvs ''completionKey'' = JStr k \<Longrightarrow> cr_completionKey (normalizeCommandResult (JObj kvs) (JObj [])) = k"
  by (simp_all add: normalizeCommandResult_def Let_def pick_str_def pick_def js_nullish_def)

lemma exit_result_parts:
  "cr_tabId (exit_result env msg i tab x) = i" "cr_completionKey (exit_result env msg i tab x) = completion_key tab msg i"
  "cr_source (exit_result env msg i tab x) = ''server''" "cr_renderExit (exit_result env msg i tab x)"
  "cr_suppressExitLine (exit_result env msg i tab x) = (tab \<noteq> None \<and> tr_syntheticClear x \<and> to_num (jprop msg ''code'') = Fin 0)"
  "cr_lines (exit_result env msg i tab x) = map normalizeCommandLine (exit_result_lines env msg)"
  "cr_persistence (exit_result env msg i tab x) = ''server''"
proof -
  have "toLowerCase ''server'' = ''server''" by code_simp
  then show "cr_persistence (exit_result env msg i tab x) = ''server''"
    by (simp add: exit_result_def normal_fields exit_object_get pick_or_def js_or_def str_or_def normalizePersistence_def COMMAND_RESULT_PERSISTENCE_def)
qed (simp_all add: exit_result_def normal_fields exit_object_get pick_str_def pick_def pick_or_def js_nullish_def js_or_def str_or_def)

lemma exit_result_normal: "normalizeCommandResult (result_obj (exit_result env msg i tab x)) (JObj []) = exit_result env msg i tab x"
proof -
  have "cr_source (exit_result env msg i tab x) \<noteq> []" by (simp add: exit_result_parts)
  then have "valid_result (exit_result env msg i tab x)" unfolding exit_result_def by (rule valid_normalizeCommandResult)
  then show ?thesis by (rule normalize_result_obj)
qed

lemma ok_complete: "page_ok m (page c) \<Longrightarrow> page_ok m (page (completeTerminalCommand env r c))"
  using sim_complete [OF follows_refl, of m 0 c env r] by (simp add: follows_def)

lemma pend_complete: "pend a (page c) \<Longrightarrow> i \<noteq> a \<Longrightarrow> pend a (page (completeTerminalCommand env (exit_result env' msg i tab x) c))"
  unfolding completeTerminalCommand_def exit_result_normal
  by (auto simp: exit_result_parts intro!: pend_completion_events split: prod.splits)

lemma pend_exit [waits]:
  assumes "i \<noteq> a" "pend a (page c)"
  shows "pend a (page (exit_prologue msg i c))" "page_ok m (page c) \<Longrightarrow> pend a (page (exit_killed env i b c))"
    "page_ok m (page c) \<Longrightarrow> pend a (page (exit_shown env msg i c))"
proof -
  show "pend a (page (exit_prologue msg i c))" using assms by (auto simp: exit_prologue_def Let_def page_of intro!: waits spares_other)
  show "pend a (page (exit_killed env i b c))" if "page_ok m (page c)"
    using assms that by (auto simp: exit_killed_def Let_def page_of upd_known intro!: waits spares_other pend_finalize)
  show "pend a (page (exit_shown env msg i c))" if "page_ok m (page c)"
    using assms that by (auto simp: exit_shown_def Let_def page_of intro!: pend_finalize pend_complete ok_complete)
qed

lemma pend_exit_message:
  assumes "i \<noteq> a" "page_ok m (page c)" "pend a (page c)"
  shows "pend a (page (handleRunExit env msg i c))"
proof -
  have "page_ok m (page (exit_prologue msg i c))"
    using sim_exit(1) [OF follows_refl, of m 0 c msg i] assms(2) by (simp add: follows_def)
  then show ?thesis using pend_exit [OF assms(1)] assms(3) by (simp add: handleRunExit_def Let_def split: option.split)
qed


lemma pend_other_messages:
  assumes "i \<noteq> a" "pend a (page c)"
  shows "pend a (page (markTabRunStarted i r c))" "pend a (page (handleRunNotice env msg i c))"
    "pend a (page (handleRunOwnerChanged env msg i c))" "pend a (page (handleRunKilled env msg i c))"
    "pend a (page (handleRunClear env i c))" "pend a (page (handleRunError msg i c))"
  using assms
  by (auto simp: markTabRunStarted_def handleRunNotice_def handleRunOwnerChanged_def handleRunKilled_def
      handleRunClear_def handleRunError_def Let_def page_of intro!: waits spares_other split: option.split)

lemma pend_messages:
  assumes "i \<noteq> a" "page_ok m (page c)" "pend a (page c)"
  shows "pend a (page (handleRunStreamMessage env msg i c))"
proof -
  define d where "d = (if truthy (jprop msg ''event_id'') then put_tab i (\<lambda>t. t\<lparr>tab_lastEventId := to_str (jprop msg ''event_id'')\<rparr>) c else c)"
  have d: "pend a (page d)" "page_ok m (page d)" using assms by (simp_all add: d_def page_of waits spares_other upd_known)
  show ?thesis unfolding handleRunStreamMessage_def d_def [symmetric] Let_def
    using assms(3) d pend_other_messages [OF assms(1) d(1)] pend_exit_message [OF assms(1) d(2,1)] by (simp add: page_of)
qed

lemma pend_start [waits]:
  assumes "pend a (page c)"
  shows "pend a (page (startRun env cmd c))" "i \<noteq> a \<Longrightarrow> pend a (page (startAnswered i x c))"
proof -
  have "spares a i (start_fields env)" for i by (simp add: spares_def start_fields_def)
  then show "pend a (page (startRun env cmd c))"
    using assms by (auto simp: startRun_def Let_def page_of intro!: waits split: option.split)
  show "i \<noteq> a \<Longrightarrow> pend a (page (startAnswered i x c))"
    using assms
    by (auto simp: startAnswered_def markTabRunStarted_def fail_start_def handleRunTransportFailure_def Let_def page_of
        intro!: waits spares_other split: option.split start_answer.split)
qed

lemma pend_polls [waits]:
  assumes "pend a (page c)"
  shows "pend a (page (pollActiveRunsAfterReload c))" "pend a (page (pollAnswered ts d c))"
    "pend a (page (resultAnswered i d c))" "pend a (page (reconnectedRunRestored w i c))"
  using assms
  by (auto simp: pollActiveRunsAfterReload_def pollAnswered_def resultAnswered_def markReconnectedRunUnavailable_def
      reconnectedRunRestored_def stop_if_active_def Let_def page_of spares_def intro!: waits split: option.split)

lemma pend_page_event:
  assumes "page_ok m p" "pend a p" "tab_enabled (env, e) p" "own_page_event e" "\<not> touches a (PageEvent e)"
  shows "pend a (tab_step m cap (env, e) p)"
proof (cases e)
  case (WriteTab t)
  then show ?thesis using assms by (auto simp: write_tab intro!: waits) (auto simp: spares_def)
next
  case DragEnd
  have "page_ok m (p\<lparr>dragState := None\<rparr>)" using assms(1) by (auto simp: page_ok_def shape_def tab_ids_def)
  then show ?thesis using DragEnd assms(2) by (auto simp: dragEnd_def pend_sync split: option.splits)
qed (use assms in \<open>auto simp: createShortcutTab_def activateRelativeTab_def dragStart_def reorderDraggedTab_def dragToEdge_def
  mark_moved_def Let_def intro!: waits pend_close split: option.splits\<close>)

lemma pend_step:
  assumes "page_ok m (page c)" "pend a (page c)" "run_possible m (env, e) c" "\<not> touches a e"
  shows "pend a (page (run_step cap (env, e) c))"
proof (cases e)
  case (PageEvent te)
  then show ?thesis using assms pend_page_event [OF assms(1,2)] by (simp add: run_possible_def page_of)
qed (use assms in \<open>auto simp: page_of streamOpened_def streamChunk_def streamRefused_def streamLost_def
  intro!: waits pend_messages pend_answer_close pend_monitor\<close>)

end
