(* ===== verification/Run_End_Props.thy ===== *)
theory Run_End_Props
  imports Run_Control_Props
begin

text \<open>
  The claims about the runner: it does to the tabs only what the tabs allow, a kill that comes before the
  identifier of its run is sent when the identifier arrives and silences the run, the end of a run is
  settled once, and waiting recoveries are bounded. At the end, three ways in which an early kill goes wrong.
\<close>

section \<open>Reachable states\<close>

definition control_reachable :: "nat \<Rightarrow> nat \<Rightarrow> control \<Rightarrow> bool" where
  "control_reachable m cap c \<longleftrightarrow>
     (\<exists>p evs. page_reachable m cap p \<and> run_all (run_possible m) (run_step cap) evs (fresh_control p) = Some c)"

lemma follows_reachable: "follows m cap p q \<Longrightarrow> page_reachable m cap p \<Longrightarrow> page_reachable m cap q"
  using page_reachable_ok [of m cap p] unfolding follows_def page_reachable_def
  by (metis run_all_append bind.bind_lunit)

lemma control_page_reachable: "control_reachable m cap c \<Longrightarrow> page_reachable m cap (page c)"
  unfolding control_reachable_def using follows_reachable sim_run by (fastforce simp: fresh_control_def)

lemma control_page_ok: "control_reachable m cap c \<Longrightarrow> page_ok m (page c)"
  using control_page_reachable page_reachable_ok by blast

section \<open>What is printed\<close>

fun is_line :: "run_call \<Rightarrow> bool" where
  "is_line (AppendLine l k i md) = True"
| "is_line (AppendLines ls i) = True"
| "is_line x = False"

definition printed :: "control \<Rightarrow> run_call list" where
  "printed c = filter is_line (calls c)"

named_theorems frame_of

lemma printed_tell [frame_of]: "printed (tell cs c) = printed c @ filter is_line cs"
  by (simp add: printed_def tell_def)

lemma printed_silent [frame_of]:
  "printed (put_tab i f c) = printed c" "printed (on_page g c) = printed c" "printed (set_run i h c) = printed c"
  "printed (set_status i st c) = printed c" "printed (show_status st c) = printed c" "printed (clearStalledTimeout i c) = printed c"
  "printed (clearStreamRecoveryTimer i c) = printed c" "printed (recordRunOutputCoalescing msg i c) = printed c"
  "printed (refresh_history env c) = printed c"
  by (simp_all add: printed_def put_tab_def on_page_def set_run_def set_status_def show_status_def pill_calls_def tell_def
      clearStalledTimeout_def clearStreamRecoveryTimer_def recordRunOutputCoalescing_def refresh_history_def split: jnum.split)

lemma tab_of_put: "(\<And>t. tab_id (f t) = tab_id t) \<Longrightarrow> tab_of a (put_tab i f c) = (if a = i then map_option f (tab_of a c) else tab_of a c)"
  by (simp add: tab_of_def page_of getTab_upd)

lemma tab_of_page: "page c = page d \<Longrightarrow> tab_of i c = tab_of i d"
  by (simp add: tab_of_def)

lemma killed_page: "page c = page d \<Longrightarrow> killed_tab i c = killed_tab i d"
  by (simp add: killed_tab_def tab_of_def)

lemma killed_put: "(\<And>t. tab_id (f t) = tab_id t \<and> tab_killed (f t) = tab_killed t) \<Longrightarrow> killed_tab i (put_tab j f c) = killed_tab i c"
  by (simp add: killed_tab_def tab_of_put split: option.split)

text \<open>The messages of a run that was killed in this tab.\<close>

lemma killed_output:
  assumes "killed_tab i c" "jprop msg ''type'' \<in> {JStr ''output'', JStr ''output_batch''}"
  shows "killed_tab i (handleRunStreamMessage env msg i c) \<and> printed (handleRunStreamMessage env msg i c) = printed c"
proof -
  define d where "d = (if truthy (jprop msg ''event_id'') then put_tab i (\<lambda>t. t\<lparr>tab_lastEventId := to_str (jprop msg ''event_id'')\<rparr>) c else c)"
  have d: "killed_tab i d" "printed d = printed c" using assms(1) by (simp_all add: d_def killed_put frame_of)
  have "killed_tab i (recordRunOutputCoalescing msg i d)" using d(1) killed_page [OF page_lines(3)] by blast
  then have "handleRunOutput env msg i d = recordRunOutputCoalescing msg i d" "handleRunOutputBatch env msg i d = d"
    using d(1) by (simp_all add: handleRunOutput_def handleRunOutputBatch_def)
  then show ?thesis unfolding handleRunStreamMessage_def d_def [symmetric] Let_def
    using assms d \<open>killed_tab i (recordRunOutputCoalescing msg i d)\<close> by (auto simp: frame_of)
qed

lemma killed_outputs:
  "killed_tab i c \<Longrightarrow> list_all (\<lambda>msg. jprop msg ''type'' \<in> {JStr ''output'', JStr ''output_batch''}) msgs \<Longrightarrow>
   killed_tab i (fold (\<lambda>msg. handleRunStreamMessage env msg i) msgs c)
   \<and> printed (fold (\<lambda>msg. handleRunStreamMessage env msg i) msgs c) = printed c"
proof (induction msgs arbitrary: c)
  case (Cons msg msgs)
  then show ?case using killed_output [of i c msg env] by simp
qed simp

lemma killed_exit:
  assumes "killed_tab i c" "jprop msg ''type'' = JStr ''exit''"
  shows "printed (handleRunStreamMessage env msg i c) = printed c"
proof -
  define d where "d = (if truthy (jprop msg ''event_id'') then put_tab i (\<lambda>t. t\<lparr>tab_lastEventId := to_str (jprop msg ''event_id'')\<rparr>) c else c)"
  have d: "killed_tab i d" "printed d = printed c" using assms(1) by (simp_all add: d_def killed_put frame_of)
  have e: "printed (exit_prologue msg i d) = printed d" by (simp add: exit_prologue_def Let_def frame_of)
  have "killed_tab i (clearStreamRecoveryTimer i (clearStalledTimeout i d))"
    using d(1) killed_page [of "clearStreamRecoveryTimer i (clearStalledTimeout i d)" d] by (simp add: page_of)
  then have "killed_tab i (put_tab i (exit_fields msg) (clearStreamRecoveryTimer i (clearStalledTimeout i d)))"
    by (simp add: killed_put exit_fields_def)
  then have "killed_tab i (exit_prologue msg i d)"
    using killed_page [OF page_simple(5)] \<open>killed_tab i (clearStreamRecoveryTimer i (clearStalledTimeout i d))\<close>
    by (simp add: exit_prologue_def Let_def)
  then obtain t where "tab_of i (exit_prologue msg i d) = Some t" "tab_killed t" by (auto simp: killed_tab_def split: option.splits)
  then have "printed (handleRunExit env msg i d) = printed c"
    using d e by (simp add: handleRunExit_def exit_killed_def Let_def frame_of split: option.split)
  then show ?thesis unfolding handleRunStreamMessage_def d_def [symmetric] Let_def using assms(2) d(2) by (cases msg) (auto simp: jprop_def obj_get_def)
qed

section \<open>Early kills\<close>

lemma pend_get: "getTab i p = Some t \<Longrightarrow> tab_killed t \<Longrightarrow> tab_pendingKill t \<Longrightarrow> pend i p"
  by (auto simp: pend_def getTab_def find_Some_iff)

lemma get_pend: "distinct (tab_ids p) \<Longrightarrow> pend i p \<Longrightarrow> \<exists>t. getTab i p = Some t \<and> tab_killed t \<and> tab_pendingKill t"
  unfolding pend_def using getTab_known by blast

lemma kill_without_id:
  assumes "tab_of i c = Some t" "running t" "\<not> truthy (tab_runId t)"
  shows "pend i (page (kill_run env i c))"
proof -
  have t: "getTab i (page c) = Some t" using assms(1) by (simp add: tab_of_def)
  then have "page (kill_run env i c) = markTabKilledByUser i (upd i (\<lambda>t. t\<lparr>tab_pendingKill := True\<rparr>) (page c))"
    using assms by (simp add: page_of doKill_def)
  then show ?thesis using t
    by (auto simp: markTabKilledByUser_def setTabStatus_def getTab_upd clearRunningLabelTimer_def intro!: pend_get)
qed

text \<open>Events that leave the tab alone keep its kill waiting.\<close>

definition elsewhere :: "nat \<Rightarrow> string \<Rightarrow> run_env \<times> run_event \<Rightarrow> control \<Rightarrow> bool" where
  "elsewhere m a e c \<longleftrightarrow> run_possible m e c \<and> \<not> touches a (snd e)"

interpretation early_kill: machine "elsewhere m a" "run_step cap" "\<lambda>c. page_ok m (page c) \<and> pend a (page c)" for m a cap
proof
  fix c e
  assume c: "page_ok m (page c) \<and> pend a (page c)" and e: "elsewhere m a e c"
  obtain env ev where ev: "e = (env, ev)" by fastforce
  have "page_ok m (page (run_step cap e c))" using sim_step [of m env ev c cap] c e by (simp add: ev elsewhere_def follows_def)
  then show "page_ok m (page (run_step cap e c)) \<and> pend a (page (run_step cap e c))"
    using pend_step [of m c a env ev cap] c e by (simp add: ev elsewhere_def)
qed

lemma started_pending:
  assumes "tab_of i c = Some t" "tab_killed t" "tab_pendingKill t" "truthy r"
  shows "killsRequested (markTabRunStarted i r c) = killsRequested c @ [(to_str r, i)]"
    "LateKill r i \<in> set (killRequests (markTabRunStarted i r c))"
    "\<exists>u. tab_of i (markTabRunStarted i r c) = Some u \<and> tab_killed u \<and> \<not> tab_pendingKill u \<and> tab_historyRunId u = r"
    "printed (markTabRunStarted i r c) = printed c"
  using assms
  by (auto simp: markTabRunStarted_def Let_def request_kill_def put_tab_def on_page_def tell_def clearStreamRecoveryTimer_def
      set_run_def tab_of_def getTab_upd printed_def)

lemma subscribe_frame:
  "killsRequested (subscribe_stream r i u a c) = killsRequested c" "killRequests (subscribe_stream r i u a c) = killRequests c"
  "page (subscribe_stream r i u a c) = page c" "printed (subscribe_stream r i u a c) = printed c"
  by (simp_all add: subscribe_stream_def tell_def printed_def)


section \<open>Views of the state\<close>

text \<open>A view that reads neither the page nor the requests, lists and calls of the runner, and of the run fields of a tab at most
  the number of its recovery attempts. Most handlers do not change it.\<close>

definition keeps_attempts :: "(tab_run \<Rightarrow> tab_run) \<Rightarrow> bool" where
  "keeps_attempts h \<longleftrightarrow> (\<forall>x. tr_streamRecoveryAttempts (h x) = tr_streamRecoveryAttempts x)"

lemma keeps_attempts_all [simp]:
  "keeps_attempts (\<lambda>x. x\<lparr>tr_unknownCommand := b\<rparr>)" "keeps_attempts (\<lambda>x. x\<lparr>tr_syntheticClear := b\<rparr>)"
  "keeps_attempts (\<lambda>x. x\<lparr>tr_streamRecoveryNoticeRunId := n\<rparr>)" "keeps_attempts (schedule_fields run)"
  by (simp_all add: keeps_attempts_def schedule_fields_def)

named_theorems view_frame

locale runner_view =
  fixes view :: "control \<Rightarrow> 'v"
  assumes view_fields [view_frame]:
    "view (c\<lparr>page := x1\<rparr>) = view c" "view (c\<lparr>stalledTimeouts := x2\<rparr>) = view c" "view (c\<lparr>stallChecks := x3\<rparr>) = view c"
    "view (c\<lparr>stalledRuns := x4\<rparr>) = view c" "view (c\<lparr>endChecks := x5\<rparr>) = view c" "view (c\<lparr>killRequests := x6\<rparr>) = view c"
    "view (c\<lparr>killsRequested := x7\<rparr>) = view c" "view (c\<lparr>startRequests := x8\<rparr>) = view c" "view (c\<lparr>polling := x9\<rparr>) = view c"
    "view (c\<lparr>polls := x10\<rparr>) = view c" "view (c\<lparr>resultChecks := x11\<rparr>) = view c" "view (c\<lparr>settling := x12\<rparr>) = view c"
    "view (c\<lparr>detachedStore := x13\<rparr>) = view c" "view (c\<lparr>calls := x14\<rparr>) = view c"
    and view_run [view_frame]: "keeps_attempts h \<Longrightarrow> view (set_run i h c) = view c"
begin

lemma simple [view_frame]:
  "view (tell cs c) = view c" "view (say l k i c) = view c" "view (on_page f c) = view c" "view (put_tab i g c) = view c"
  "view (set_status i st c) = view c" "view (show_status st c) = view c"
  by (simp_all add: tell_def say_def on_page_def put_tab_def set_status_def show_status_def view_frame)

lemma small [view_frame]:
  "view (status_if_active i st c) = view c" "view (syncActiveRunTimer i c) = view c" "view (maybeNotify env cmd code e c) = view c"
  "view (settle_controls i c) = view c" "view (fail_run l k i c) = view c" "view (writeDetachedActiveRunIds ids c) = view c"
  "view (markActiveRunDetachedForRestore n r c) = view c" "view (clearActiveRunDetachedForRestore r c) = view c"
  "view (pruneDetachedActiveRunRestoreIds rs c) = view c"
  by (simp_all add: status_if_active_def syncActiveRunTimer_def maybeNotify_def settle_controls_def fail_run_def
      writeDetachedActiveRunIds_def markActiveRunDetachedForRestore_def clearActiveRunDetachedForRestore_def
      pruneDetachedActiveRunRestoreIds_def view_frame Let_def split: option.splits)

lemma two_fields [view_frame]:
  "view (c\<lparr>stalledTimeouts := x, stalledRuns := y\<rparr>) = view c" "view (c\<lparr>killRequests := z, killsRequested := w\<rparr>) = view c"
  using view_fields(4) [where c = "c\<lparr>stalledTimeouts := x\<rparr>"] view_fields(7) [where c = "c\<lparr>killRequests := z\<rparr>"]
  by (simp_all add: view_frame)

lemma timers [view_frame]:
  "view (resetStalledTimeout i c) = view c" "view (clearStalledTimeout i c) = view c"
  "view (add_stalled i c) = view c" "view (running_if_active i c) = view c" "view (startPollingActiveRunsAfterReload c) = view c"
  "view (stopPollingActiveRunsAfterReload c) = view c" "view (poll_settled c) = view c" "view (subscribe_stream r i u a c) = view c"
  "view (request_kill q r i c) = view c" "view (handleKillRequestFailure e i c) = view c" "view (refresh_history env c) = view c"
  by (simp_all add: resetStalledTimeout_def clearStalledTimeout_def add_stalled_def running_if_active_def
      startPollingActiveRunsAfterReload_def stopPollingActiveRunsAfterReload_def poll_settled_def
      subscribe_stream_def request_kill_def handleKillRequestFailure_def refresh_history_def view_frame)

lemma lines [view_frame]:
  "view (reattach_notices env run i b c) = view c" "view (appendStreamLine env l k i m b c) = view c"
  "view (recordRunOutputCoalescing m i c) = view c" "view (note_unknown_command v i c) = view c"
  "view (clear_tab env i c) = view c" "view (set_running_command i v c) = view c" "view (show_running i c) = view c"
  by (simp_all add: reattach_notices_def appendStreamLine_def recordRunOutputCoalescing_def note_unknown_command_def clear_tab_def
      set_running_command_def show_running_def view_frame Let_def split: option.splits jnum.splits jsval.splits)

lemma folded: "(\<And>x c. view (g x c) = view c) \<Longrightarrow> view (fold g xs c) = view c"
  by (induction xs arbitrary: c) simp_all

lemma outputs [view_frame]: "view (handleRunOutput env m i c) = view c" "view (handleRunOutputBatch env m i c) = view c"
  by (simp_all add: handleRunOutput_def handleRunOutputBatch_def Let_def view_frame folded)

lemma reattach [view_frame]: "view (reattachActiveRunToTab env run i aft b am k c) = view c"
  by (simp add: reattachActiveRunToTab_def Let_def view_frame split: option.splits)

lemma streams [view_frame]:
  "view (recoverStalledRun i c) = view c" "view (markStalledButRunning i c) = view c" "view (markStalledAndInactive i c) = view c"
  "view (stalledTimeoutFires i c) = view c" "view (handleStreamEndedWithoutExit i c) = view c" "view (ptyAttachFailed msg i c) = view c"
  by (simp_all add: recoverStalledRun_def markStalledButRunning_def markStalledAndInactive_def stalledTimeoutFires_def
      handleStreamEndedWithoutExit_def ptyAttachFailed_def Let_def view_frame split: option.splits)

lemma stall_answer [view_frame]: "view (stallCheckAnswered i g d c) = view c"
  by (simp add: stallCheckAnswered_def Let_def view_frame split: option.splits)

lemma attach [view_frame]:
  "view (attachActiveRunToTab env run i am c) = view c" "view (attach_or_pty env run i aft am k c) = view c"
  by (simp_all add: attachActiveRunToTab_def attach_or_pty_def Let_def view_frame)

lemma monitor [view_frame]: "view (attachActiveRunFromMonitor env run c) = view c"
  by (simp add: attachActiveRunFromMonitor_def view_frame split: prod.split option.split)

lemma restored: "view (fst (restore_run env it s)) = view (fst s)"
proof -
  obtain d r where d: "tab_for_restore env (fst it) (fst s) = (d, r)" by fastforce
  have "view d = view (fst s)" using tab_for_restore_parts [OF d] by (auto simp: view_frame)
  then show ?thesis using d by (cases it; cases s) (auto simp: restore_run_def view_frame split: option.split)
qed

lemma restored_all: "view (fst (fold (restore_run env) items s)) = view (fst s)"
  by (induction items arbitrary: s) (simp_all add: restored)

lemma restore [view_frame]: "view (restoreActiveRunsAfterReload env rs c) = view c"
proof -
  let ?c = "pruneDetachedActiveRunRestoreIds (filter truthy (map (\<lambda>run. jprop run ''run_id'') (arr_items rs))) c"
  let ?items = "filter (shouldAutoRestoreActiveRun env ?c) (arr_items rs)"
  obtain d r where d: "fold (restore_run env) (enumerate 0 ?items) (?c, None) = (d, r)" by fastforce
  then have "view d = view c" using restored_all [of env "enumerate 0 ?items" "(?c, None)"] by (simp add: view_frame)
  then show ?thesis using d by (auto simp: restoreActiveRunsAfterReload_def Let_def view_frame split: option.split)
qed

lemma refreshed [view_frame]: "view (after_refresh env r c) = view c" "view (renderCompletedCommandLine l r c) = view c"
  by (simp_all add: after_refresh_def renderCompletedCommandLine_def Let_def view_frame)

lemma variables [view_frame]: "view (after_variables env r c) = view c"
  by (simp add: after_variables_def view_frame)

lemma completed [view_frame]: "view (afterCompletedCommand env r c) = view c" "view (settlingContinues env r b c) = view c"
  by (simp_all add: afterCompletedCommand_def settlingContinues_def Let_def view_frame)

lemma completion [view_frame]: "view (completion_event env r e c) = view c"
  by (cases e) (simp_all add: view_frame applyCompletedCommandStatus_def Let_def)

lemma messages [view_frame]:
  "view (handleRunNotice env msg i c) = view c" "view (handleRunOwnerChanged env msg i c) = view c"
  "view (handleRunKilled env msg i c) = view c" "view (handleRunClear env i c) = view c" "view (handleRunError msg i c) = view c"
  "view (exit_killed env i b c) = view c"
  by (simp_all add: handleRunNotice_def handleRunOwnerChanged_def handleRunKilled_def handleRunClear_def handleRunError_def
      exit_killed_def Let_def view_frame split: option.split)

lemma start [view_frame]: "view (startRun env cmd c) = view c"
  by (simp add: startRun_def Let_def view_frame split: option.split)

lemma poll [view_frame]:
  "view (pollActiveRunsAfterReload c) = view c" "view (pollAnswered ts d c) = view c" "view (resultAnswered i d c) = view c"
  "view (reconnectedRunRestored w i c) = view c"
  by (simp_all add: pollActiveRunsAfterReload_def pollAnswered_def resultAnswered_def markReconnectedRunUnavailable_def
      reconnectedRunRestored_def stop_if_active_def Let_def view_frame split: option.split)

end

text \<open>A view that does not read the recoveries either: killing, starting and recovering leave it alone too.\<close>

locale settled_view = runner_view view for view :: "control \<Rightarrow> 'v" +
  assumes view_recoveries [view_frame]: "view (c\<lparr>streamRecoveryTimers := x15\<rparr>) = view c" "view (c\<lparr>runs := x16\<rparr>) = view c"
begin

lemma cleared [view_frame]: "view (clearStreamRecoveryTimer i c) = view c" "view (set_run i h c) = view c"
  by (simp_all add: clearStreamRecoveryTimer_def set_run_def view_frame)

lemma recover [view_frame]: "view (recover_stream env run i aft am c) = view c"
  by (simp add: recover_stream_def Let_def view_frame split: option.splits)

lemma recoveries [view_frame]:
  "view (scheduleActiveRunStreamRecovery env run i aft am c) = view c" "view (recoveryTimerFires env i c) = view c"
  by (simp_all add: scheduleActiveRunStreamRecovery_def recoveryTimerFires_def Let_def view_frame split: option.splits)

lemma end_answer [view_frame]: "view (endCheckAnswered env i r d c) = view c"
  by (simp add: endCheckAnswered_def Let_def view_frame split: option.splits)

lemma kill [view_frame]: "view (mark_killed env i secs b c) = view c" "view (kill_run env i c) = view c"
  by (simp_all add: mark_killed_def kill_run_def Let_def view_frame split: option.split)

lemma kills [view_frame]:
  "view (killAnswered env r x c) = view c" "view (killLost r e c) = view c"
  "view (killActiveRunFromMonitor env run c) = view c" "view (answer_close env i idx d y c) = view c"
  by (simp_all add: killAnswered_def killLost_def killActiveRunFromMonitor_def kill_denied_def answer_close_def close_and_kill_def
      detach_and_close_def Let_def view_frame split: kill_request.split kill_answer.split option.split close_answer.split)

lemma started [view_frame]: "view (exit_prologue msg i c) = view c" "view (markTabRunStarted i r c) = view c"
  by (simp_all add: exit_prologue_def markTabRunStarted_def Let_def view_frame split: option.split)

lemma start_answer [view_frame]: "view (startAnswered i x c) = view c"
  by (simp add: startAnswered_def fail_start_def handleRunTransportFailure_def Let_def view_frame split: start_answer.split)

end

section \<open>Recoveries\<close>

definition attempts :: "control \<Rightarrow> string \<Rightarrow> nat" where
  "attempts c i = tr_streamRecoveryAttempts (runs c i)"

definition recoveries_ok :: "(string \<times> recovery) list \<Rightarrow> (string \<Rightarrow> nat) \<Rightarrow> bool" where
  "recoveries_ok ts n \<longleftrightarrow> distinct (map fst ts) \<and> (\<forall>(i, r) \<in> set ts. 2 \<le> n i \<and> rc_delay r = recovery_delay (n i))"

definition rec_ok :: "control \<Rightarrow> bool" where
  "rec_ok c \<longleftrightarrow> recoveries_ok (streamRecoveryTimers c) (attempts c)"

text \<open>What an operation does to the recoveries: nothing, or it stops those of a tab, with or without its count.\<close>

lemma rec_same: "streamRecoveryTimers d = streamRecoveryTimers c \<Longrightarrow> attempts d = attempts c \<Longrightarrow> rec_ok d = rec_ok c"
  by (simp add: rec_ok_def)

interpretation rec_view: runner_view rec_ok
  by unfold_locales (rule rec_same; simp add: attempts_def [abs_def] set_run_def keeps_attempts_def fun_eq_iff)+

lemma rec_clear [view_frame]: "rec_ok c \<Longrightarrow> rec_ok (clearStreamRecoveryTimer i c)"
  unfolding rec_ok_def recoveries_ok_def clearStreamRecoveryTimer_def attempts_def by (auto simp: distinct_map_filter)

lemma rec_reset [view_frame]:
  assumes "rec_ok c" "i \<notin> fst ` set (streamRecoveryTimers c)"
  shows "rec_ok (set_run i f c)"
proof -
  have "attempts (set_run i f c) j = attempts c j" if "j \<in> fst ` set (streamRecoveryTimers c)" for j
    using that assms(2) by (auto simp: attempts_def set_run_def)
  then show ?thesis using assms(1) unfolding rec_ok_def recoveries_ok_def by (force simp: set_run_def)
qed


lemma timers_of [simp]:
  "streamRecoveryTimers (tell cs c) = streamRecoveryTimers c" "streamRecoveryTimers (on_page f c) = streamRecoveryTimers c"
  "streamRecoveryTimers (put_tab i g c) = streamRecoveryTimers c" "streamRecoveryTimers (set_run i h c) = streamRecoveryTimers c"
  "i \<notin> fst ` set (streamRecoveryTimers (clearStreamRecoveryTimer i c))"
  by (auto simp: tell_def on_page_def put_tab_def set_run_def clearStreamRecoveryTimer_def)

lemma rec_reset_clear [view_frame]: "rec_ok c \<Longrightarrow> rec_ok (clearStreamRecoveryTimer i (set_run i f c))"
proof -
  have "clearStreamRecoveryTimer i (set_run i f c) = set_run i f (clearStreamRecoveryTimer i c)"
    by (simp add: clearStreamRecoveryTimer_def set_run_def)
  then show "rec_ok c \<Longrightarrow> ?thesis" by (simp add: view_frame)
qed

lemma rec_recover [view_frame]: "rec_ok c \<Longrightarrow> rec_ok (recover_stream env run i aft am c)"
  by (auto simp: recover_stream_def Let_def view_frame split: option.splits)

text \<open>A recovery is scheduled when none of the tab waits; only from the second attempt on it waits at all.\<close>

lemma rec_schedule [view_frame]:
  assumes "rec_ok c"
  shows "rec_ok (scheduleActiveRunStreamRecovery env run i aft am c)"
proof (cases "tab_of i c = None \<or> \<not> truthy run \<or> \<not> truthy (jprop run ''run_id'') \<or> i \<in> fst ` set (streamRecoveryTimers c)")
  case True
  then show ?thesis using assms by (auto simp: scheduleActiveRunStreamRecovery_def)
next
  case False
  define n d where "n = attempts c i + 1" and "d = set_run i (\<lambda>x. x\<lparr>tr_streamRecoveryAttempts := n\<rparr>) c"
  define r where "r = \<lparr>rc_run = run, rc_after = aft, rc_mode = am, rc_delay = recovery_delay n\<rparr>"
  have d: "rec_ok d" using assms False by (auto simp: d_def view_frame)
  have e: "scheduleActiveRunStreamRecovery env run i aft am c = (if n \<le> 1 then recover_stream env run i aft am d
      else d\<lparr>streamRecoveryTimers := streamRecoveryTimers d @ [(i, r)]\<rparr>)"
    using False by (auto simp: scheduleActiveRunStreamRecovery_def Let_def n_def d_def r_def attempts_def)
  have a: "attempts (d\<lparr>streamRecoveryTimers := x\<rparr>) = attempts d" "attempts d i = n" for x
    by (simp_all add: attempts_def [abs_def] d_def set_run_def)
  have "rec_ok (d\<lparr>streamRecoveryTimers := streamRecoveryTimers d @ [(i, r)]\<rparr>)" if "\<not> n \<le> 1"
    using d that False a unfolding rec_ok_def recoveries_ok_def by (auto simp: d_def r_def)
  then show ?thesis unfolding e using d by (simp add: view_frame)
qed

lemma rec_timer_fires [view_frame]: "rec_ok c \<Longrightarrow> rec_ok (recoveryTimerFires env i c)"
  by (auto simp: recoveryTimerFires_def view_frame split: option.splits)

lemma rec_end_answer [view_frame]: "rec_ok c \<Longrightarrow> rec_ok (endCheckAnswered env i r d c)"
  by (auto simp: endCheckAnswered_def Let_def view_frame split: option.splits)

lemma rec_mark_killed [view_frame]: "rec_ok c \<Longrightarrow> rec_ok (mark_killed env i secs b c)"
  by (auto simp: mark_killed_def Let_def view_frame split: option.split)

lemma rec_kill_run [view_frame]: "rec_ok c \<Longrightarrow> rec_ok (kill_run env i c)"
  by (auto simp: kill_run_def Let_def view_frame split: option.split)

lemma rec_kills [view_frame]:
  assumes "rec_ok c"
  shows "rec_ok (killAnswered env r x c)" "rec_ok (killLost r e c)" "rec_ok (killActiveRunFromMonitor env run c)"
    "rec_ok (answer_close env i idx d y c)"
  using assms
  by (auto simp: killAnswered_def killLost_def killActiveRunFromMonitor_def kill_denied_def answer_close_def close_and_kill_def
      detach_and_close_def Let_def view_frame split: kill_request.split kill_answer.split option.split close_answer.split)

lemma rec_complete [view_frame]: "rec_ok (completeTerminalCommand env r c) = rec_ok c"
proof -
  have "rec_ok (c\<lparr>completedKeys := x\<rparr>) = rec_ok c" for x by (rule rec_same) (simp_all add: attempts_def [abs_def])
  then show ?thesis by (simp add: completeTerminalCommand_def rec_view.folded rec_view.completion split: prod.split)
qed

lemma rec_exit [view_frame]:
  assumes "rec_ok c"
  shows "rec_ok (exit_prologue msg i c)" "rec_ok (exit_shown env msg i c)"
  using assms by (simp_all add: exit_prologue_def exit_shown_def Let_def view_frame)

lemma rec_messages [view_frame]:
  assumes "rec_ok c"
  shows "rec_ok (handleRunExit env msg i c)" "rec_ok (markTabRunStarted i r c)"
  using assms by (auto simp: handleRunExit_def markTabRunStarted_def Let_def view_frame split: option.split)

lemma rec_stream_message [view_frame]: "rec_ok c \<Longrightarrow> rec_ok (handleRunStreamMessage env msg i c)"
  by (simp add: handleRunStreamMessage_def Let_def view_frame)

lemma rec_start [view_frame]: "rec_ok c \<Longrightarrow> rec_ok (startAnswered i x c)"
  by (auto simp: startAnswered_def fail_start_def handleRunTransportFailure_def Let_def view_frame split: start_answer.split)

interpretation recoveries: machine run_enabled "run_step cap" rec_ok for cap
proof
  fix c and e :: "run_env \<times> run_event"
  assume "rec_ok c"
  moreover obtain env ev where "e = (env, ev)" by fastforce
  ultimately show "rec_ok (run_step cap e c)"
    by (cases ev) (simp_all add: view_frame streamOpened_def streamChunk_def streamRefused_def streamLost_def)
qed


lemma recovery_delays: "2 \<le> n \<Longrightarrow> recovery_delay n = (if n = 2 then 1000 else if n = 3 then 2000 else if n = 4 then 4000 else 5000)"
proof -
  assume "2 \<le> n"
  moreover have "recovery_delay n = 5000" if "5 \<le> n"
  proof -
    have "(2::nat) ^ 3 \<le> 2 ^ (n - 2)" using that by (intro power_increasing) auto
    then show ?thesis by (simp add: recovery_delay_def)
  qed
  moreover have "n = 2 \<or> n = 3 \<or> n = 4 \<or> 5 \<le> n" using \<open>2 \<le> n\<close> by linarith
  ultimately show ?thesis by (auto simp: recovery_delay_def)
qed

lemma control_rec_ok: "control_reachable m cap c \<Longrightarrow> rec_ok c"
proof -
  have "run_all (run_possible m) (run_step cap) evs d = Some c \<Longrightarrow> rec_ok d \<Longrightarrow> rec_ok c" for evs d
    by (induction evs arbitrary: d) (auto simp: run_possible_def recoveries.keeps split: if_splits)
  moreover have "rec_ok (fresh_control p)" for p by (simp add: rec_ok_def recoveries_ok_def fresh_control_def)
  ultimately show "control_reachable m cap c \<Longrightarrow> rec_ok c" unfolding control_reachable_def by blast
qed


section \<open>A sample\<close>

text \<open>A page with one tab, and a run in it whose stream breaks twice.\<close>

definition sample_page_env :: page_env where
  "sample_page_env = \<lparr>overlayOpen = False, terminalConfirm = False, welcomeOwnsPrompt = False, getMatches = (\<lambda>v n. []),
     acceptsLine = (\<lambda>v. False)\<rparr>"

definition sample_env :: run_env where
  "sample_env = \<lparr>re_page = sample_page_env, re_now = 1000, re_elapsed = None, re_clientId = ''c1'', re_maxTabs = 2,
     re_maxOutputLines = JInt 100, re_highVolumeThreshold = JInt 0, re_notify = False, re_historyOpen = False, re_ptyReady = False,
     re_hasStream = True, re_transcriptLength = (\<lambda>i. 1), re_parseDate = (\<lambda>v. None), re_localeDate = (\<lambda>v. [])\<rparr>"

definition sample_control :: control where
  "sample_control = fresh_control (first_page sample_page_env 2)"

definition sample_started :: "run_event list" where
  "sample_started = [StartRun ''ls'', StartAnswer ''tab-1'' (StartAccepted (JObj [(''run_id'', JStr ''r1'')]))]"

definition sample_broken :: "run_event list" where
  "sample_broken = [StreamEnded ''tab-1'', EndAnswer ''tab-1'' (JStr ''r1'') (JObj [(''runs'', JArr [JObj [(''run_id'', JStr ''r1'')]])])]"

definition sample_run :: "run_event list \<Rightarrow> control option" where
  "sample_run evs = run_all (run_possible 2) (run_step 8) (map (Pair sample_env) evs) sample_control"

lemma sample_reachable: "sample_run evs = Some c \<Longrightarrow> control_reachable 2 8 c"
proof -
  have "run_all tab_enabled (tab_step 2 8) [] (first_page sample_page_env 2) = Some (first_page sample_page_env 2)" by simp
  then have "page_reachable 2 8 (first_page sample_page_env 2)" unfolding page_reachable_def by blast
  then show "sample_run evs = Some c \<Longrightarrow> ?thesis" unfolding control_reachable_def sample_run_def sample_control_def by blast
qed

lemma sample_twice: "map_option (\<lambda>c. map (\<lambda>(i, r). (i, rc_delay r)) (streamRecoveryTimers c))
    (sample_run (sample_started @ sample_broken @ sample_broken)) = Some [(''tab-1'', 1000)]"
  by code_simp


lemma sample_some: "\<exists>c. sample_run (sample_started @ sample_broken @ sample_broken) = Some c"
  using sample_twice by auto

section \<open>Claims\<close>

text \<open>
  \<^bold>\<open>C8.\<close> The runner respects the tabs. Whatever happens to runs (starting, output, exits, kills and their answers,
  broken and recovered streams, restored and attached runs, polling) and in whatever order, what it has done to the
  tabs is a sequence of events of the tabs: the page could have been reached by those alone, so everything that
  is proved of the tabs for every such sequence holds while commands run.
\<close>

theorem runs_refine_tabs:
  assumes "page_reachable m cap p" "run_all (run_possible m) (run_step cap) evs (fresh_control p) = Some c"
  shows "page_reachable m cap (page c)"
proof -
  have "control_reachable m cap c" using assms unfolding control_reachable_def by blast
  then show ?thesis by (rule control_page_reachable)
qed

theorem runs_refine_tabs_witness:
  "case sample_run (sample_started @ sample_broken @ sample_broken) of
     None \<Rightarrow> False
   | Some c \<Rightarrow> page_reachable 2 8 (page c)"
proof -
  obtain c where c: "sample_run (sample_started @ sample_broken @ sample_broken) = Some c" using sample_some by blast
  have "run_all tab_enabled (tab_step 2 8) [] (first_page sample_page_env 2) = Some (first_page sample_page_env 2)" by simp
  then have "page_reachable 2 8 (first_page sample_page_env 2)" unfolding page_reachable_def by blast
  from runs_refine_tabs [OF this] have "page_reachable 2 8 (page c)" using c unfolding sample_run_def sample_control_def by blast
  with c show ?thesis by simp
qed

text \<open>
  \<^bold>\<open>C6.\<close> Reconnecting to a broken stream does not flood the server. In every state that can be reached at most one
  recovery waits per tab, and it waits as long as its attempt says: one second for the second attempt in a row (the
  first is made at once), two for the third, four for the fourth, and five for all further ones.
\<close>

theorem recoveries_bounded:
  assumes "control_reachable m cap c"
  shows "distinct (map fst (streamRecoveryTimers c))
    \<and> (\<forall>(i, r) \<in> set (streamRecoveryTimers c). 2 \<le> attempts c i
         \<and> rc_delay r = (if attempts c i = 2 then 1000 else if attempts c i = 3 then 2000 else if attempts c i = 4 then 4000 else 5000))"
  using control_rec_ok [OF assms] unfolding rec_ok_def recoveries_ok_def by (auto simp: recovery_delays)

theorem recoveries_bounded_witness:
  "case sample_run (sample_started @ sample_broken @ sample_broken) of
     None \<Rightarrow> False
   | Some c \<Rightarrow> (case streamRecoveryTimers c of
         [(i, r)] \<Rightarrow> i = ''tab-1'' \<and> 2 \<le> attempts c i \<and> rc_delay r = 1000
       | _ \<Rightarrow> False)"
proof -
  obtain c where c: "sample_run (sample_started @ sample_broken @ sample_broken) = Some c" using sample_some by blast
  have "map (\<lambda>(i, r). (i, rc_delay r)) (streamRecoveryTimers c) = [(''tab-1'', 1000)]" using sample_twice c by simp
  then obtain r where r: "streamRecoveryTimers c = [(''tab-1'', r)]" "rc_delay r = 1000" by (auto simp: map_eq_Cons_conv)
  with recoveries_bounded [OF sample_reachable [OF c]] have "2 \<le> attempts c ''tab-1''" by simp
  with c r show ?thesis by simp
qed


definition sample_kill :: "control \<Rightarrow> control option" where
  "sample_kill c = run_all (elsewhere 2 ''tab-1'') (run_step 8) [(sample_env, PageEvent NewShortcutTab)] (kill_run sample_env ''tab-1'' c)"

definition sample_answer :: jsval where
  "sample_answer = JObj [(''run_id'', JStr ''r1'')]"

definition sample_message :: "string \<Rightarrow> jsval" where
  "sample_message ty = JObj [(''type'', JStr ty), (''text'', JStr ''hello''), (''code'', JInt 0), (''run_id'', JStr ''r1'')]"

lemma sample_kill_runs:
  "case sample_run [StartRun ''ls''] of None \<Rightarrow> False
   | Some c \<Rightarrow> sample_kill c \<noteq> None \<and> (case tab_of ''tab-1'' c of None \<Rightarrow> False | Some t \<Rightarrow> running t \<and> \<not> truthy (tab_runId t))"
  by code_simp


section \<open>The keys of settled runs\<close>

interpretation key_view: settled_view completedKeys
  by unfold_locales (simp_all add: set_run_def)


lemma keys_complete:
  "completedKeys (completeTerminalCommand env (exit_result env' msg i tab x) c) =
     (if completion_key tab msg i \<in> set (completedKeys c) then completedKeys c else remember_key (completedKeys c) (completion_key tab msg i))"
  unfolding completeTerminalCommand_def exit_result_normal
  by (simp add: complete_def Let_def exit_result_normal exit_result_parts key_view.folded key_view.completion split: prod.split)

text \<open>A handler adds at most one key.\<close>

definition adds_key :: "string list \<Rightarrow> string list \<Rightarrow> bool" where
  "adds_key ks ls \<longleftrightarrow> ls = ks \<or> (\<exists>k. k \<notin> set ks \<and> ls = remember_key ks k)"

lemma keys_exit: "adds_key (completedKeys c) (completedKeys (handleRunExit env msg i c))"
  by (auto simp: handleRunExit_def exit_shown_def Let_def view_frame keys_complete adds_key_def split: option.split)

lemma keys_stream_message: "adds_key (completedKeys c) (completedKeys (handleRunStreamMessage env msg i c))"
  using keys_exit [of c env msg i] keys_exit [of "put_tab i (\<lambda>t. t\<lparr>tab_lastEventId := to_str (jprop msg ''event_id'')\<rparr>) c" env msg i]
  by (auto simp: handleRunStreamMessage_def Let_def view_frame adds_key_def)

lemma keys_step: "adds_key (completedKeys c) (completedKeys (run_step cap e c))"
proof -
  obtain env ev where "e = (env, ev)" by fastforce
  then show ?thesis using keys_stream_message
    by (cases ev) (auto simp: view_frame adds_key_def streamOpened_def streamChunk_def streamRefused_def streamLost_def)
qed

text \<open>A key is forgotten only after as many others as there is room for.\<close>

definition remembered :: "string \<Rightarrow> nat \<Rightarrow> string list \<Rightarrow> bool" where
  "remembered k n ks \<longleftrightarrow> length ks \<le> MAX_COMPLETION_KEYS \<and> (\<exists>xs ys. ks = xs @ k # ys \<and> length ys \<le> n)"

lemma remember_bounded: "length ks \<le> MAX_COMPLETION_KEYS \<Longrightarrow> adds_key ks ls \<Longrightarrow> length ls \<le> MAX_COMPLETION_KEYS"
  by (auto simp: adds_key_def remember_key_def Let_def)

lemma remember_new:
  "length ks \<le> MAX_COMPLETION_KEYS \<Longrightarrow> k \<notin> set ks \<Longrightarrow> remembered k 0 (remember_key ks k)"
  by (cases ks) (auto simp: remembered_def remember_key_def Let_def MAX_COMPLETION_KEYS_def intro!: exI [of _ "[]"])

lemma remembered_step:
  assumes "remembered k n ks" "adds_key ks ls" "Suc n < MAX_COMPLETION_KEYS"
  shows "remembered k (Suc n) ls"
proof -
  obtain xs ys where ks: "ks = xs @ k # ys" "length ys \<le> n" "length ks \<le> MAX_COMPLETION_KEYS" using assms(1) by (auto simp: remembered_def)
  show ?thesis
  proof (cases "ls = ks")
    case True
    with ks show ?thesis unfolding remembered_def by (metis le_SucI)
  next
    case False
    then obtain j where j: "j \<notin> set ks" "ls = remember_key ks j" using assms(2) by (auto simp: adds_key_def)
    show ?thesis
    proof (cases "length (ks @ [j]) > MAX_COMPLETION_KEYS")
      case True
      then have "xs \<noteq> []" using ks assms(3) by auto
      then have "ls = tl xs @ k # (ys @ [j])" using True j ks by (cases xs) (auto simp: remember_key_def Let_def)
      then show ?thesis using ks remember_bounded [OF ks(3) assms(2)] unfolding remembered_def by (metis Suc_le_mono length_append_singleton)
    next
      case False
      then have "ls = xs @ k # (ys @ [j])" using j ks by (auto simp: remember_key_def Let_def)
      then show ?thesis using ks remember_bounded [OF ks(3) assms(2)] unfolding remembered_def by (metis Suc_le_mono length_append_singleton)
    qed
  qed
qed

lemma remembered_run:
  "run_all (run_possible m) (run_step cap) evs c = Some d \<Longrightarrow> remembered k n (completedKeys c) \<Longrightarrow> n + length evs < MAX_COMPLETION_KEYS \<Longrightarrow>
   remembered k (n + length evs) (completedKeys d)"
proof (induction evs arbitrary: c n)
  case (Cons e evs)
  then have "remembered k (Suc n) (completedKeys (run_step cap e c))" using remembered_step [OF _ keys_step, of k n c cap e] by simp
  then show ?case using Cons.IH [of "run_step cap e c" "Suc n"] Cons.prems by (auto split: if_splits)
qed simp

lemma keys_bounded: "control_reachable m cap c \<Longrightarrow> length (completedKeys c) \<le> MAX_COMPLETION_KEYS"
proof -
  have "run_all (run_possible m) (run_step cap) evs d = Some c \<Longrightarrow> length (completedKeys d) \<le> MAX_COMPLETION_KEYS
      \<Longrightarrow> length (completedKeys c) \<le> MAX_COMPLETION_KEYS" for evs d
    by (induction evs arbitrary: d) (auto dest: remember_bounded [OF _ keys_step] split: if_splits)
  moreover have "length (completedKeys (fresh_control p)) \<le> MAX_COMPLETION_KEYS" for p by (simp add: fresh_control_def)
  ultimately show "control_reachable m cap c \<Longrightarrow> length (completedKeys c) \<le> MAX_COMPLETION_KEYS" unfolding control_reachable_def by blast
qed


section \<open>Exits\<close>

text \<open>What the exit message finds: the tab with the fields of the exit, and the result it hands to the coordinator.\<close>

definition exit_state :: "jsval \<Rightarrow> string \<Rightarrow> control \<Rightarrow> control" where
  "exit_state msg i c = exit_prologue msg i
     (if truthy (jprop msg ''event_id'') then put_tab i (\<lambda>t. t\<lparr>tab_lastEventId := to_str (jprop msg ''event_id'')\<rparr>) c else c)"

lemma exit_message:
  "jprop msg ''type'' = JStr ''exit'' \<Longrightarrow> jprop msg ''event'' \<noteq> JStr ''schema'' \<Longrightarrow>
   handleRunStreamMessage env msg i c = (case tab_of i (exit_state msg i c) of
       Some t \<Rightarrow> if tab_killed t then exit_killed env i (tab_closing t) (exit_state msg i c) else exit_shown env msg i (exit_state msg i c)
     | None \<Rightarrow> exit_shown env msg i (exit_state msg i c))"
  by (cases msg) (auto simp: handleRunStreamMessage_def handleRunExit_def exit_state_def Let_def jprop_def obj_get_def split: option.split)

lemma exit_result_same:
  "tab_command t = tab_command u \<Longrightarrow> tab_closing t = tab_closing u \<Longrightarrow> tab_historyRunId t = tab_historyRunId u \<Longrightarrow>
   tr_unknownCommand x = tr_unknownCommand y \<Longrightarrow> tr_syntheticClear x = tr_syntheticClear y \<Longrightarrow>
   exit_result env msg i (Some t) x = exit_result env msg i (Some u) y"
  by (simp add: exit_result_def exit_object_def completion_key_def)

lemma exit_state_tab:
  assumes "tab_of i c = Some t"
  shows "\<exists>u. tab_of i (exit_state msg i c) = Some u \<and> tab_killed u = tab_killed t \<and> tab_closing u = tab_closing t
    \<and> tab_command u = tab_command t \<and> tab_historyRunId u = tab_historyRunId t"
    "exit_result env msg i (tab_of i (exit_state msg i c)) (runs (tell cs (exit_state msg i c)) i) = exit_result env msg i (Some t) (runs c i)"
    "calls (exit_state msg i c) = calls c" "completedKeys (exit_state msg i c) = completedKeys c"
proof -
  define d where "d = (if truthy (jprop msg ''event_id'') then put_tab i (\<lambda>t. t\<lparr>tab_lastEventId := to_str (jprop msg ''event_id'')\<rparr>) c else c)"
  have "\<exists>v. tab_of i d = Some v \<and> tab_killed v = tab_killed t \<and> tab_closing v = tab_closing t \<and> tab_command v = tab_command t
      \<and> tab_historyRunId v = tab_historyRunId t"
    using assms by (cases "truthy (jprop msg ''event_id'')") (simp_all add: d_def tab_of_put)
  then obtain v where v: "tab_of i d = Some v" "tab_killed v = tab_killed t" "tab_closing v = tab_closing t" "tab_command v = tab_command t"
    "tab_historyRunId v = tab_historyRunId t" by blast
  have w: "tab_of i (clearStreamRecoveryTimer i (clearStalledTimeout i d)) = Some v" using v(1) by (simp add: tab_of_def page_of)
  have e: "exit_state msg i c = set_run i (\<lambda>x. x\<lparr>tr_streamRecoveryAttempts := 0, tr_streamRecoveryNoticeRunId := []\<rparr>)
      (put_tab i (exit_fields msg) (clearStreamRecoveryTimer i (clearStalledTimeout i d)))"
    unfolding exit_state_def d_def [symmetric] exit_prologue_def using w by (simp add: Let_def)
  have u: "tab_of i (exit_state msg i c) = Some (exit_fields msg v)"
    using w unfolding e by (simp add: tab_of_def page_of getTab_upd exit_fields_def)
  then show "\<exists>u. tab_of i (exit_state msg i c) = Some u \<and> tab_killed u = tab_killed t \<and> tab_closing u = tab_closing t
    \<and> tab_command u = tab_command t \<and> tab_historyRunId u = tab_historyRunId t" using v by (simp add: exit_fields_def)
  have r: "runs d = runs c" by (simp add: d_def put_tab_def on_page_def)
  show "exit_result env msg i (tab_of i (exit_state msg i c)) (runs (tell cs (exit_state msg i c)) i) = exit_result env msg i (Some t) (runs c i)"
    unfolding u by (rule exit_result_same)
      (simp_all add: v exit_fields_def e tell_def set_run_def put_tab_def on_page_def clearStreamRecoveryTimer_def clearStalledTimeout_def r)
  show "calls (exit_state msg i c) = calls c" "completedKeys (exit_state msg i c) = completedKeys c"
    by (simp_all add: e set_run_def put_tab_def on_page_def clearStreamRecoveryTimer_def clearStalledTimeout_def d_def)
qed

text \<open>A result whose key was settled before changes nothing.\<close>

lemma complete_again:
  "completion_key tab msg i \<in> set (completedKeys c) \<Longrightarrow> completeTerminalCommand env (exit_result env' msg i tab x) c = c"
  unfolding completeTerminalCommand_def
  by (simp add: complete_def Let_def exit_result_normal exit_result_parts)

lemma exit_again:
  assumes "tab_of i c = Some t" "\<not> tab_killed t" "\<not> tab_closing t" "completion_key (Some t) msg i \<in> set (completedKeys c)"
    and "jprop msg ''type'' = JStr ''exit''" "jprop msg ''event'' \<noteq> JStr ''schema''"
  shows "calls (handleRunStreamMessage env msg i c) = calls c @ [StopTimer, FinalSummary i, OutcomeSummary i, DisableResume i]"
    "settling (handleRunStreamMessage env msg i c) = settling (exit_state msg i c)"
proof -
  obtain u where u: "tab_of i (exit_state msg i c) = Some u" "\<not> tab_killed u" "\<not> tab_closing u" "tab_historyRunId u = tab_historyRunId t"
    using exit_state_tab(1) [OF assms(1)] assms(2,3) by metis
  have "completion_key (Some u) msg i \<in> set (completedKeys (tell cs (exit_state msg i c)))" for cs
    using assms(4) u(4) exit_state_tab(4) [OF assms(1), of msg] by (simp add: completion_key_def tell_def)
  then have "completion_key (Some u) msg i \<in> set (completedKeys (set_run i h (tell cs (exit_state msg i c))))" for cs h
    by (simp add: set_run_def)
  then have "handleRunStreamMessage env msg i c =
      set_run i (\<lambda>x. x\<lparr>tr_syntheticClear := False\<rparr>) (tell [StopTimer, FinalSummary i, OutcomeSummary i, DisableResume i] (exit_state msg i c))"
    using u by (simp add: exit_message [OF assms(5,6)] exit_shown_def Let_def complete_again)
  then show "calls (handleRunStreamMessage env msg i c) = calls c @ [StopTimer, FinalSummary i, OutcomeSummary i, DisableResume i]"
    "settling (handleRunStreamMessage env msg i c) = settling (exit_state msg i c)"
    using exit_state_tab(3) [OF assms(1), of msg] by (simp_all add: set_run_def tell_def)
qed

text \<open>The first exit: the lines it prints.\<close>

fun event_lines :: "command_result \<Rightarrow> event \<Rightarrow> run_call list" where
  "event_lines r (RenderLine l) = [AppendLine (JStr (cl_text l)) (cl_cls l) (cr_tabId r) (case cl_metadata l of None \<Rightarrow> JUndef | Some ob \<Rightarrow> JObj ob)]"
| "event_lines r RenderExit = [exit_line r]"
| "event_lines r e = []"

lemma printed_after [frame_of]:
  "printed (maybeNotify env cmd code e c) = printed c" "printed (status_if_active i st c) = printed c"
  by (simp_all add: maybeNotify_def status_if_active_def frame_of Let_def)

lemma printed_settling [frame_of]: "printed (c\<lparr>settling := x\<rparr>) = printed c" "printed (c\<lparr>completedKeys := y\<rparr>) = printed c"
  by (simp_all add: printed_def)

lemma printed_refresh [frame_of]: "printed (after_refresh env r c) = printed c"
  by (simp add: after_refresh_def Let_def frame_of)

lemma printed_variables [frame_of]: "printed (after_variables env r c) = printed c"
  by (simp add: after_variables_def frame_of)

lemma printed_completed [frame_of]: "printed (afterCompletedCommand env r c) = printed c"
  by (simp add: afterCompletedCommand_def Let_def frame_of)

lemma printed_event: "printed (completion_event env r e c) = printed c @ event_lines r e"
  by (cases e) (simp_all add: renderCompletedCommandLine_def applyCompletedCommandStatus_def exit_line_def Let_def frame_of)

lemma printed_events: "printed (fold (completion_event env r) evs c) = printed c @ concat (map (event_lines r) evs)"
  by (induction evs arbitrary: c) (simp_all add: printed_event)


lemma render_all: "render_lines runner_callbacks r = (map RenderLine (filter (\<lambda>l. \<not> cl_rendered l) (cr_lines r)), None)"
proof -
  have "foldr (\<lambda>l. and_then (call (RenderLine l) (Some None))) ls ([], None) = (map RenderLine ls, None)" for ls
    by (induction ls) (simp_all add: and_then_def call_def)
  then show ?thesis by (simp add: render_lines_def runner_callbacks_def)
qed

lemma settle_events:
  assumes "cr_persistence r \<noteq> ''client''"
  shows "settle runner_callbacks r =
    (map RenderLine (filter (\<lambda>l. \<not> cl_rendered l) (cr_lines r)) @ (if cr_renderExit r \<and> \<not> cr_suppressExitLine r then [RenderExit] else [])
      @ [ApplyStatus] @ (if cr_recordRecent r \<and> cr_safeCommand r \<noteq> [] then [RecordRecent (cr_safeCommand r)] else []) @ [AfterComplete],
     Completed r)"
proof -
  have "present_result runner_callbacks r = (map RenderLine (filter (\<lambda>l. \<not> cl_rendered l) (cr_lines r))
      @ (if cr_renderExit r \<and> \<not> cr_suppressExitLine r then [RenderExit] else []) @ [ApplyStatus], None)"
    unfolding present_result_def render_all by (simp add: and_then_def call_def runner_callbacks_def)
  moreover have "persist_result runner_callbacks r = ([], Inr (JNull, r))" using assms by (simp add: persist_result_def runner_callbacks_def)
  moreover have "finish_result runner_callbacks JNull r =
      ((if cr_recordRecent r \<and> cr_safeCommand r \<noteq> [] then [RecordRecent (cr_safeCommand r)] else []) @ [AfterComplete], None)"
    by (simp add: finish_result_def and_then_def call_def runner_callbacks_def)
  ultimately show ?thesis by (simp add: settle_def)
qed

definition exit_lines :: "run_env \<Rightarrow> jsval \<Rightarrow> string \<Rightarrow> tab \<Rightarrow> tab_run \<Rightarrow> run_call list" where
  "exit_lines env msg i t x =
     (if truthy (jprop msg ''preview_truncated'')
      then [AppendLine (JStr (previewTruncationNotice env (jprop msg ''output_line_count'') (jprop msg ''full_output_available''))) ''notice'' i JUndef]
      else [])
     @ (if tr_syntheticClear x \<and> to_num (jprop msg ''code'') = Fin 0 then [] else [exit_line (exit_result env msg i (Some t) x)])"

lemma notice_line:
  "normalizeCommandLine (JObj [(''text'', JStr s), (''cls'', JStr ''notice'')])
   = \<lparr>cl_text = s, cl_cls = ''notice'', cl_kind = None, cl_role = None, cl_metadata = None, cl_rendered = False\<rparr>"
  by (simp add: normalizeCommandLine_def jprop_def obj_get_def js_nullish_def str_or_def js_or_def)

lemma printed_complete:
  assumes "completion_key (Some t) msg i \<notin> set (completedKeys c)"
  shows "printed (completeTerminalCommand env' (exit_result env msg i (Some t) x) c) = printed c @ exit_lines env msg i t x"
proof -
  let ?r = "exit_result env msg i (Some t) x"
  have "printed (completeTerminalCommand env' ?r c) = printed c @ concat (map (event_lines ?r) (fst (settle runner_callbacks ?r)))"
    unfolding completeTerminalCommand_def exit_result_normal
    using assms by (simp add: complete_def Let_def exit_result_normal exit_result_parts printed_events frame_of split: prod.split)
  also have "concat (map (event_lines ?r) (fst (settle runner_callbacks ?r))) = exit_lines env msg i t x"
    by (subst settle_events) (simp_all add: exit_result_parts exit_result_lines_def exit_lines_def notice_line)
  finally show ?thesis .
qed

lemma exit_first:
  assumes "tab_of i c = Some t" "\<not> tab_killed t" "completion_key (Some t) msg i \<notin> set (completedKeys c)"
    and "jprop msg ''type'' = JStr ''exit''" "jprop msg ''event'' \<noteq> JStr ''schema''"
  shows "printed (handleRunStreamMessage env msg i c) = printed c @ exit_lines env msg i t (runs c i)"
    "completedKeys (handleRunStreamMessage env msg i c) = remember_key (completedKeys c) (completion_key (Some t) msg i)"
proof -
  obtain u where u: "tab_of i (exit_state msg i c) = Some u" "\<not> tab_killed u" "tab_historyRunId u = tab_historyRunId t"
    using exit_state_tab(1) [OF assms(1)] assms(2) by metis
  define b where "b = [StopTimer, FinalSummary i, OutcomeSummary i, DisableResume i]"
  define x where "x = exit_state msg i c"
  define r where "r = exit_result env msg i (Some t) (runs c i)"
  define d where "d = set_run i (\<lambda>x. x\<lparr>tr_syntheticClear := False\<rparr>) (tell b x)"
  define e where "e = completeTerminalCommand env r d"
  have u: "tab_of i x = Some u" "\<not> tab_killed u" "tab_historyRunId u = tab_historyRunId t" using u by (simp_all add: x_def)
  have r: "exit_result env msg i (Some u) (runs (tell b x) i) = r"
    using exit_state_tab(2) [OF assms(1), of env msg b] u(1) unfolding x_def r_def by simp
  have "handleRunStreamMessage env msg i c = exit_shown env msg i x"
    unfolding exit_message [OF assms(4,5)] x_def [symmetric] u(1) using u(2) by simp
  then have h: "handleRunStreamMessage env msg i c = (if tab_closing u then refresh_history env (on_page (finalizeClosingTab (re_page env) i) e) else e)"
    unfolding exit_shown_def Let_def u(1) b_def [symmetric] r option.case by (simp add: e_def d_def)
  have k: "completedKeys d = completedKeys c" using exit_state_tab(4) [OF assms(1), of msg] by (simp add: d_def x_def set_run_def tell_def)
  have "printed x = printed c" using exit_state_tab(3) [OF assms(1), of msg] by (simp add: printed_def x_def)
  then have "printed d = printed c" by (simp add: d_def b_def frame_of)
  then have "printed e = printed c @ exit_lines env msg i t (runs c i)"
    using printed_complete [of t msg i d] assms(3) k unfolding e_def r_def by simp
  then show "printed (handleRunStreamMessage env msg i c) = printed c @ exit_lines env msg i t (runs c i)"
    unfolding h by (cases "tab_closing u") (simp_all add: frame_of)
  have "completedKeys e = remember_key (completedKeys c) (completion_key (Some t) msg i)"
    using assms(3) k unfolding e_def r_def by (simp add: keys_complete)
  then show "completedKeys (handleRunStreamMessage env msg i c) = remember_key (completedKeys c) (completion_key (Some t) msg i)"
    unfolding h by (cases "tab_closing u") (simp_all add: view_frame)
qed


lemma sample_exits:
  "case sample_run sample_started of None \<Rightarrow> False
   | Some c \<Rightarrow> (case tab_of ''tab-1'' c of None \<Rightarrow> False | Some t \<Rightarrow>
       \<not> tab_killed t \<and> completion_key (Some t) (sample_message ''exit'') ''tab-1'' = ''run:r1'' \<and> completedKeys c = []
       \<and> (case tab_of ''tab-1'' (handleRunStreamMessage sample_env (sample_message ''exit'') ''tab-1'' c) of None \<Rightarrow> False | Some u \<Rightarrow>
            \<not> tab_killed u \<and> \<not> tab_closing u \<and> completion_key (Some u) (sample_message ''exit'') ''tab-1'' = ''run:r1''))"
  by code_simp


lemma sample_clear: "map_option (\<lambda>c. tr_syntheticClear (runs c ''tab-1'')) (sample_run sample_started) = Some False"
  by code_simp


section \<open>Where an early kill goes wrong\<close>

text \<open>The start of a run that was killed early fails: the kill stays pending, and it hits the next run of the tab.\<close>

theorem early_kill_hits_next_run:
  assumes "control_reachable m cap c" "tab_of i c = Some t" "running t" "\<not> truthy (tab_runId t)"
    and "d = startRun env' cmd (startAnswered i StartRateLimited (kill_run env i c))" "truthy (jprop data ''run_id'')"
  shows "killsRequested (startAnswered i (StartAccepted data) d) = killsRequested d @ [(to_str (jprop data ''run_id''), i)]"
proof -
  let ?k = "kill_run env i c"
  have "page_ok m (page ?k)" using control_page_ok [OF assms(1)] by (simp add: page_of tab_frame)
  moreover have "pend i (page (startAnswered i StartRateLimited ?k))"
    using kill_without_id [OF assms(2-4)] by (simp add: startAnswered_def fail_start_def Let_def page_of waits)
  then have "pend i (page d)" unfolding assms(5) by (rule pend_start)
  moreover have "follows m cap (page ?k) (page d)"
    unfolding assms(5) using sim_start [where m = m and cap = cap] follows_trans by blast
  ultimately have "page_ok m (page d)" "pend i (page d)" by (simp_all add: follows_def)
  then obtain u where u: "getTab i (page d) = Some u" "tab_killed u" "tab_pendingKill u"
    using get_pend [OF page_ok_parts(1)] by blast
  define d0 where "d0 = d\<lparr>startRequests := remove1 i (startRequests d)\<rparr>"
  have "tab_of i d0 = Some u" using u(1) by (simp add: d0_def tab_of_def)
  from started_pending(1) [OF this u(2,3) assms(6)] show ?thesis
    using assms(6) by (simp add: startAnswered_def d0_def [symmetric] subscribe_frame) (simp add: d0_def)
qed

text \<open>After the kill was sent, the stream of the run begins with its started message, which takes the mark of the kill back.\<close>

theorem started_again_forgets_kill:
  assumes "tab_of i c = Some t" "tab_killed t" "tab_pendingKill t" "truthy r"
  shows "killed_tab i (markTabRunStarted i r c) \<and> \<not> killed_tab i (markTabRunStarted i r (markTabRunStarted i r c))"
proof -
  obtain u where u: "tab_of i (markTabRunStarted i r c) = Some u" "tab_killed u" "\<not> tab_pendingKill u"
    using started_pending(3) [OF assms] by blast
  have "\<not> killed_tab i (markTabRunStarted i r d)" if "tab_of i d = Some u" for d
    using that u(3) assms(4)
    by (auto simp: killed_tab_def markTabRunStarted_def Let_def put_tab_def on_page_def tell_def clearStreamRecoveryTimer_def
        set_run_def tab_of_def getTab_upd split: option.splits)
  with u show ?thesis by (simp add: killed_tab_def)
qed

text \<open>The server refuses the late kill: nothing is said and the tab stays marked as killed.\<close>

theorem late_denial_is_silent:
  "page (killAnswered env (LateKill r i) (KillForbidden message) c) = page c
   \<and> calls (killAnswered env (LateKill r i) (KillForbidden message) c) = calls c"
  by (simp add: killAnswered_def)

end
