(* ===== verification/Spec2Isabelle.thy ===== *)
theory Spec2Isabelle
  imports
    Runner_Core Runner_Roundtrip Runner_Filter
    Command_Lifecycle Shell_Startup
    Session_Core Preferences_Core Workspace_Core Utils_Core
    Output_Core Outcome_Parsers Run_Output_Model Search_Core
    History_Core Autocomplete_Core Workflow_Core Run_Stream
    Workspace_Commands Workspace_Listing Workspace_Terminal Command_Dispatch
    Composer_Props Tabs_Props Tab_Session JS_Json_Roundtrip Terminal_Output_Props Run_End_Props
begin

text \<open>
  Verification of the browser client of darklab shell.

  \<^bold>\<open>The program.\<close> darklab shell is a terminal in the browser in front of a server that runs
  allow-listed network tools. The client (\<open>src/app/static/js\<close>) reads a command line, answers some
  commands itself, sends the others to the server, reads the output of a run as server-sent events,
  filters, classifies and records it, and keeps a per-session workspace of files. Its logic is in
  \<open>core/*.js\<close> (functions and small state machines without a DOM), \<open>features/runner\<close>,
  \<open>features/terminal\<close>, \<open>features/tabs\<close>, \<open>features/workflows\<close> and \<open>features/workspace\<close>, and in
  \<open>runner.js\<close>, \<open>output.js\<close>, \<open>tabs.js\<close> and \<open>workspace.js\<close>, which compose them.

  A command line takes this way: \<open>submitCommand\<close> answers a pending question of the tab, refuses what
  the client refuses, then tries the parser of the filter language, then the browser commands (workspace,
  session, workflow commands and so on) and at last sends a run request. A workspace command resolves its
  paths, asks the server, prints lines and may leave a question pending. A run is a stream of messages
  that are queued and drained in batches, and its lines are numbered, batched again and rendered in the
  panel of the tab. Either way the result is normalised and settled once by the
  command lifecycle, presented, recorded in the history and offered again by the autocompletion.

  \<^bold>\<open>The language and its library.\<close>
  \<^item> \<open>JS_Prelude\<close>: strings and arrays (\<open>trim\<close>, \<open>split\<close>, \<open>slice\<close>, \<open>indexOf\<close> and so on), the collections
    \<open>js_simps\<close> and \<open>js_norm\<close>, and two interfaces as locales: \<open>normaliser\<close> (a function that ends in a set
    of normal values and keeps them) and \<open>machine\<close> (guarded actions that keep an invariant).
  \<^item> \<open>JS_Value\<close>: values, numbers (exact rationals with \<open>NaN\<close> and the infinities) and coercions.
  \<^item> \<open>JS_Regex\<close>: regular expressions with the backtracking order of the language, so the first match
    is the match an engine reports, and the language an expression accepts.
  \<^item> \<open>JS_Json\<close>, \<open>JS_Sort\<close>, \<open>JS_Url\<close>: \<open>JSON\<close>, the stable \<open>sort\<close> with the locale \<open>comparator\<close>,
    \<open>URLSearchParams\<close> with the locale \<open>query_params\<close> and its round trip.
  \<^item> \<open>JS_Json_Roundtrip\<close>: \<open>JSON.parse\<close> reads back what \<open>JSON.stringify\<close> wrote, for values without \<open>undefined\<close>
    and for those with it after it was dropped.

  \<^bold>\<open>The components.\<close>
  \<^item> \<open>Runner_Core\<close>, \<open>Runner_Roundtrip\<close>, \<open>Runner_Filter\<close>: \<open>core/runner_core.js\<close>. The parser of
    \<open>cmd | grep ... | sort > file\<close> (its three results false, null and object are constructors) and the
    stages that filter the buffered lines. A file the parser accepts as the target of a redirection lies
    in the workspace (C1); the parser inverts a printer of its grammar (C2); sorting by number is a sorted
    permutation (C3), \<open>uniq\<close> is run-length encoding (C4), pipelines of selections only select lines or
    report one error (C5), \<open>jq\<close> respects the line limit.
  \<^item> \<open>Session_Core\<close>: \<open>core/session_core.js\<close>, \<open>core/browser_credentials.js\<close>. Public ids of credentials,
    identifiers of version 4 from random bytes at width 8, identity headers that carry no
    foreign credential (C9), a redeemed secret that leaves the storage (C10, over \<open>storage_api\<close>).
  \<^item> \<open>Workspace_Core\<close>: \<open>core/workspace_core.js\<close>. A path of a command never leaves the workspace (C11),
    and exactly the paths that climb above its root are refused (C12).
  \<^item> \<open>Workspace_Commands\<close>: \<open>features/runner/runner_workspace.js\<close> and the cache of file names. The
    parsers of \<open>ls\<close>, \<open>cd\<close>, \<open>rm\<close>, \<open>mv\<close> and so on, and globs, which match what a reference matcher does (C39).
  \<^item> \<open>Workspace_Listing\<close>: the folder entries of \<open>workspace.js\<close> and the listings of \<open>runner.js\<close>. The
    breadth-first walk of \<open>ls -R\<close> ends and lists every file below the start once (C40).
  \<^item> \<open>Workspace_Terminal\<close>: the handlers of the workspace commands in \<open>runner.js\<close> and the question of \<open>rm\<close>,
    with the requests they send as a list. Nothing is deleted but after yes to the question asked, and
    a folder only with the recursive flag (C13); a session that may only read sends no request that
    writes (C26).
  \<^item> \<open>Command_Dispatch\<close>: \<open>submitCommand\<close> of \<open>runner.js\<close> as the list of its actions, and
    \<open>features/runner/runner_persistence.js\<close>. The value of \<open>secret set\<close> is not recorded on any accepted
    way (C20); what is sent as a run passed every client-side check (C22).
  \<^item> \<open>Run_Stream\<close>: event framing, queue and streams of a tab in \<open>runner.js\<close>, as actions on the state of
    a tab. For every division of the bytes into chunks and every interleaving of chunks, drains, pauses
    and resumes the messages handled are a prefix of the messages of the bytes, and all of them when the
    queue is empty (C37); a stream that ended and drained is released (C38).
  \<^item> \<open>Command_Lifecycle\<close>: \<open>features/runner/command_lifecycle.js\<close>. Results normalise once, the
    coordinator implements settle-once over the keys it remembers (C28), and the callbacks of a
    completion run in order whichever of them fails.
  \<^item> \<open>Shell_Startup\<close>: \<open>core/shell_startup.js\<close> as a step relation. The session is applied at most once
    per run (C30) and only the current run gets to its end (C31).
  \<^item> \<open>Utils_Core\<close>: \<open>core/utils.js\<close>. Escaping is injective and leaves no markup; lines without
    their raw-only ones carry no raw-only text (C15).
  \<^item> \<open>Preferences_Core\<close>: \<open>core/app_preferences_core.js\<close>. Preferences are normal after one
    normalisation, from one \<open>normaliser\<close> for each preference.
  \<^item> \<open>Run_Output_Model\<close>: \<open>core/run_output_model.js\<close>. Line events are well-formed (C17) and survive
    the wire (C18).
  \<^item> \<open>Output_Core\<close>, \<open>Outcome_Parsers\<close>: \<open>core/output_core.js\<close>. Prompt labels, line classes and the
    summaries of the outputs of the tools; summaries are well-formed and a prompt label is
    stripped exactly.
  \<^item> \<open>Search_Core\<close>, \<open>History_Core\<close>, \<open>Autocomplete_Core\<close>: the files of these names in \<open>core\<close>. Counts and
    groups agree, the deletion selects what the list shows, recall keeps the latest distinct
    commands, suggestions are ranked (C32), port sets have a normal form, addresses are
    recognised exactly.
  \<^item> \<open>Workflow_Core\<close>: \<open>workflow_parameters.js\<close>, \<open>workflow_catalog.js\<close>. A sensitive value is not stored
    (C35), a selector names at most one workflow.
  \<^item> \<open>Composer\<close>, \<open>Composer_Props\<close>: the command line: \<open>features/terminal/composer_*.js\<close>, \<open>history_recall.js\<close>,
    \<open>history_search.js\<close> and the parts of \<open>autocomplete.js\<close> and \<open>ui_helpers.js\<close> they call. The state is the
    text field and the state objects behind it; every key, click, edit and answer is an event. The editing
    keys implement a plain line editor (C21); walking through the recall and back loses nothing (C23);
    positions and selected matches exist in every reachable state (C36), also while commands arrive from the
    server (C19).
  \<^item> \<open>Tabs\<close>, \<open>Tabs_Props\<close>: \<open>tabs.js\<close>, \<open>tab_close_lifecycle.js\<close>, \<open>tab_drag_reorder.js\<close>, composed with the
    prompt. In every reachable page one tab is active and identifiers are unique (C33); a draft waits in its
    tab (C25); closing a tab closes that tab (C7).
  \<^item> \<open>Tab_Session\<close>: \<open>tab_session_state.js\<close>. Saving the tabs and restoring them after a reload brings them back (C14).
  \<^item> \<open>Terminal_Output\<close>, \<open>Terminal_Output_Props\<close>: the panel of a tab in \<open>output.js\<close>: numbering, batching,
    coalescing, trimming, the transcript, the counts of signals and the high-volume mode. Raw lines are
    references into a store, because entries of a batch and the transcript share them. The panel with its
    batches refines a terminal that renders at once (C24), the counts are those of the transcript (C34), and
    draining a batch ends (C27).
  \<^item> \<open>Run_Control\<close>, \<open>Run_Control_Props\<close>, \<open>Run_End_Props\<close>: a run of a tab in \<open>runner.js\<close> and
    \<open>features/runner/runner_active_restore.js\<close>, from the start request to its end, composed with the tabs, the
    streams and the lifecycle. The state \<open>control\<close> holds the page, the timers that wait (stalled runs, recoveries of a
    stream), the requests that wait for an answer and the calls made to the rest of the client, in order; an event is
    a user's action, a message of the stream, an answer of the server or a timer that fires. Whatever happens to runs
    is a sequence of events of the tabs (C8); recoveries of a stream are bounded (C6); a kill before the run has an
    identifier reaches it (C29); an exit is settled once (C16). The locales \<open>runner_view\<close> and \<open>settled_view\<close> say which
    operations leave a part of the state alone, once for the recoveries and once for the keys of settled commands.

  \<^bold>\<open>Conventions.\<close> A class or object is a record, a tagged union a datatype, a value of any type a \<open>jsval\<close>;
  an exception is \<open>Inl\<close> or \<open>None\<close>, named where it is used. Requests, callbacks and printed lines are
  explicit lists in the order they happen. Recursion is structural or has a termination proof, except
  for two functions with fuel that is enough: the iterations of a star in \<open>JS_Regex\<close> (every iteration
  consumes a character, the fuel is the length of the rest) and \<open>json_parse\<close> (the fuel is twice the length
  and two, and each call below a value consumes a character or ends). A character is a code unit below 256.

  \<^bold>\<open>Parameters.\<close> The server (its answers to requests), the user's own patterns compiled by \<open>RegExp\<close>,
  \<open>localeCompare\<close>, random bytes, the registry of interactive commands and the configured line limit are
  arguments of the definitions that use them. How many messages one timer tick of the drain handles
  is the argument of its action, so the theorems of \<open>Run_Stream\<close> hold at every pace, that of the source
  (at most 750) included. C40 assumes that the server sends paths that are already normal.

  \<^bold>\<open>What the model showed.\<close> Beside the properties, these lemmas state where the code does not do what
  it means to: \<open>two_live_streams\<close> (\<open>Run_Stream\<close>), \<open>refused_secret_is_echoed\<close>, \<open>quoted_operand_lost\<close>
  and \<open>lone_ampersand_dropped\<close> (\<open>Command_Dispatch\<close>), \<open>renderMotd_quote_breaks_out\<close> (\<open>Utils_Core\<close>),
  \<open>duration_sixty_seconds\<close> (\<open>History_Core\<close>), \<open>close_skips_neighbour\<close>, \<open>stale_close_index\<close>, \<open>edge_drop_order\<close> and
  \<open>close_unknown_removes_last\<close> (\<open>Tabs_Props\<close>), \<open>noise_kind_not_saved\<close> (\<open>Tab_Session\<close>), \<open>skipped_line_overtakes\<close>,
  \<open>replaced_line_without_prefix\<close> and \<open>counts_drift\<close> (\<open>Terminal_Output_Props\<close>), \<open>early_kill_hits_next_run\<close>,
  \<open>started_again_forgets_kill\<close> and \<open>late_denial_is_silent\<close> (\<open>Run_End_Props\<close>).

  \<^bold>\<open>Not modelled.\<close> Rendering: the markup inside a line, \<open>shell_chrome.js\<close>, the panels under \<open>features\<close> and the
  mobile shell change DOM nodes, for which there is no model. The interactive terminals and the client error log. How long a timer takes: a timer
  that waits may fire at any later step. The server, which is a separate Python program.
\<close>

end
